(* ===== verification/Verity_Prelude.thy ===== *)
theory Verity_Prelude
  imports Complex_Main "HOL-Library.List_Lexorder" "HOL-Library.Char_ord"
    "HOL-Library.Product_Lexorder" "HOL-Library.Monad_Syntax" "HOL-Library.Multiset"
begin

text \<open>
  Shared vocabulary of the development: the model's basic types, the parts of Rust's
  string API the sources use, the machine-integer casts, and the two ordered containers
  (\<^verbatim>\<open>BTreeMap\<close>, \<^verbatim>\<open>BTreeSet\<close>) as sorted lists.

  Text is modelled as \<open>string\<close>, one \<open>char\<close> per ASCII character; the order on strings is
  Rust's bytewise order (\<open>List_Lexorder\<close> over \<open>Char_ord\<close>). Identifiers that the code only
  compares (UUIDs) are natural numbers, instants are integers (microseconds since the epoch, the
  resolution of the stored timestamps).
\<close>

named_theorems verity_defs \<open>definitions of operations that component proofs unfold\<close>
named_theorems verity_inv \<open>preservation of component invariants\<close>

type_synonym uuid = nat
type_synonym instant = int
type_synonym tenant_id = uuid
type_synonym episode_id = uuid
type_synonym principal_token = int

section \<open>Integer casts\<close>

text \<open>\<^verbatim>\<open>n as i16\<close> and \<^verbatim>\<open>n as i32\<close> on a \<^verbatim>\<open>usize\<close> keep the low bits.\<close>

definition as_i16 :: "nat \<Rightarrow> int" where
  "as_i16 n = (int n + 2 ^ 15) mod 2 ^ 16 - 2 ^ 15"

definition as_i32 :: "nat \<Rightarrow> int" where
  "as_i32 n = (int n + 2 ^ 31) mod 2 ^ 32 - 2 ^ 31"

lemma as_i16_small: "n < 2 ^ 15 \<Longrightarrow> as_i16 n = int n"
  by (simp add: as_i16_def)

lemma as_i32_small: "n < 2 ^ 31 \<Longrightarrow> as_i32 n = int n"
  by (simp add: as_i32_def)

section \<open>Rust string operations\<close>

definition is_ascii_digit :: "char \<Rightarrow> bool" where
  "is_ascii_digit c \<longleftrightarrow> of_char c \<in> {48..57::nat}"

definition is_ascii_lowercase :: "char \<Rightarrow> bool" where
  "is_ascii_lowercase c \<longleftrightarrow> of_char c \<in> {97..122::nat}"

definition is_ascii_uppercase :: "char \<Rightarrow> bool" where
  "is_ascii_uppercase c \<longleftrightarrow> of_char c \<in> {65..90::nat}"

definition is_ascii_alphanumeric :: "char \<Rightarrow> bool" where
  "is_ascii_alphanumeric c \<longleftrightarrow> is_ascii_digit c \<or> is_ascii_lowercase c \<or> is_ascii_uppercase c"

text \<open>\<^verbatim>\<open>char::is_whitespace\<close> on ASCII: tab, line feed, vertical tab, form feed, return, space.\<close>

definition is_whitespace :: "char \<Rightarrow> bool" where
  "is_whitespace c \<longleftrightarrow> of_char c \<in> {9..13::nat} \<or> c = CHR '' ''"

definition char_to_ascii_lowercase :: "char \<Rightarrow> char" where
  "char_to_ascii_lowercase c = (if is_ascii_uppercase c then char_of (of_char c + 32 :: nat) else c)"

definition char_to_ascii_uppercase :: "char \<Rightarrow> char" where
  "char_to_ascii_uppercase c = (if is_ascii_lowercase c then char_of (of_char c - 32 :: nat) else c)"

definition to_ascii_lowercase :: "string \<Rightarrow> string" where
  "to_ascii_lowercase s = map char_to_ascii_lowercase s"

definition eq_ignore_ascii_case :: "string \<Rightarrow> string \<Rightarrow> bool" where
  "eq_ignore_ascii_case a b \<longleftrightarrow> to_ascii_lowercase a = to_ascii_lowercase b"

definition trim_start :: "string \<Rightarrow> string" where
  "trim_start s = dropWhile is_whitespace s"

definition trim_end :: "string \<Rightarrow> string" where
  "trim_end s = rev (dropWhile is_whitespace (rev s))"

definition trim :: "string \<Rightarrow> string" where
  "trim s = trim_end (trim_start s)"

text \<open>\<^verbatim>\<open>trim_matches(c)\<close> strips a character from both ends.\<close>

definition trim_matches :: "char \<Rightarrow> string \<Rightarrow> string" where
  "trim_matches c s = rev (dropWhile ((=) c) (rev (dropWhile ((=) c) s)))"

fun strip_prefix :: "string \<Rightarrow> string \<Rightarrow> string option" where
  "strip_prefix [] s = Some s"
| "strip_prefix (p # ps) [] = None"
| "strip_prefix (p # ps) (c # cs) = (if p = c then strip_prefix ps cs else None)"

definition starts_with :: "string \<Rightarrow> string \<Rightarrow> bool" where
  "starts_with p s \<longleftrightarrow> strip_prefix p s \<noteq> None"

text \<open>\<^verbatim>\<open>split_once\<close> cuts at the first occurrence, \<^verbatim>\<open>rsplit_once\<close> at the last one.\<close>

fun split_once :: "char \<Rightarrow> string \<Rightarrow> (string \<times> string) option" where
  "split_once d [] = None"
| "split_once d (c # cs) =
     (if c = d then Some ([], cs)
      else map_option (\<lambda>(a, b). (c # a, b)) (split_once d cs))"

definition rsplit_once :: "char \<Rightarrow> string \<Rightarrow> (string \<times> string) option" where
  "rsplit_once d s = map_option (\<lambda>(a, b). (rev b, rev a)) (split_once d (rev s))"

text \<open>\<^verbatim>\<open>split(d)\<close>: the pieces between separators, empty pieces included.\<close>

fun split_on :: "char \<Rightarrow> string \<Rightarrow> string list" where
  "split_on d [] = [[]]"
| "split_on d (c # cs) =
     (if c = d then [] # split_on d cs
      else (case split_on d cs of [] \<Rightarrow> [[c]] | p # ps \<Rightarrow> (c # p) # ps))"

fun join :: "string \<Rightarrow> string list \<Rightarrow> string" where
  "join sep [] = []"
| "join sep [s] = s"
| "join sep (s # t # ss) = s @ sep @ join sep (t # ss)"

lemma strip_prefix_Some [simp]: "strip_prefix p s = Some r \<longleftrightarrow> s = p @ r"
  by (induction p s rule: strip_prefix.induct) auto

lemma strip_prefix_append [simp]: "strip_prefix p (p @ r) = Some r"
  by simp

lemma starts_with_iff: "starts_with p s \<longleftrightarrow> (\<exists>r. s = p @ r)"
  by (auto simp: starts_with_def)

lemma split_once_Some:
  "split_once d s = Some (a, b) \<longleftrightarrow> s = a @ d # b \<and> d \<notin> set a"
proof (induction s arbitrary: a)
  case Nil
  then show ?case by simp
next
  case (Cons c cs)
  then show ?case by (cases a) auto
qed

lemma split_once_None: "split_once d s = None \<longleftrightarrow> d \<notin> set s"
  by (induction s) auto

lemma split_once_append: "d \<notin> set a \<Longrightarrow> split_once d (a @ d # b) = Some (a, b)"
  by (simp add: split_once_Some)

lemma rsplit_once_Some:
  "rsplit_once d s = Some (a, b) \<longleftrightarrow> s = a @ d # b \<and> d \<notin> set b"
proof -
  have "split_once d (rev s) = Some (rev b, rev a) \<longleftrightarrow> s = a @ d # b \<and> d \<notin> set b"
    by (simp add: split_once_Some rev_swap)
  moreover have "rsplit_once d s = Some (a, b) \<longleftrightarrow> split_once d (rev s) = Some (rev b, rev a)"
    by (auto simp: rsplit_once_def)
  ultimately show ?thesis by simp
qed

lemma split_on_nonempty [simp]: "split_on d s \<noteq> []"
  by (induction s) (auto split: list.splits)

lemma split_on_no_sep: "p \<in> set (split_on d s) \<Longrightarrow> d \<notin> set p"
proof (induction s arbitrary: p)
  case Nil
  then show ?case by simp
next
  case (Cons c cs)
  then show ?case by (cases "split_on d cs") (auto split: if_splits)
qed

lemma join_split_on: "join [d] (split_on d s) = s"
proof (induction s)
  case Nil
  then show ?case by simp
next
  case (Cons c cs)
  then show ?case
  proof (cases "split_on d cs")
    case Nil
    then show ?thesis by simp
  next
    case (Cons p ps)
    with \<open>join [d] (split_on d cs) = cs\<close> show ?thesis by (cases ps) auto
  qed
qed

lemma split_on_join:
  "ps \<noteq> [] \<Longrightarrow> \<forall>p \<in> set ps. d \<notin> set p \<Longrightarrow> split_on d (join [d] ps) = ps"
proof (induction "[d]" ps rule: join.induct)
  case 1
  then show ?case by simp
next
  case (2 s)
  have "d \<notin> set s \<Longrightarrow> split_on d s = [s]"
    by (induction s) auto
  with 2 show ?case by simp
next
  case (3 s t ss)
  have glue: "d \<notin> set s \<Longrightarrow> split_on d (s @ d # r) = s # split_on d r" for r
    by (induction s) auto
  from 3 show ?case by (simp add: glue)
qed

text \<open>Code equations on the bits of a character, for evaluating the classifiers on concrete text.\<close>

lemma is_ascii_uppercase_code [code]:
  "is_ascii_uppercase (Char b0 b1 b2 b3 b4 b5 b6 b7) \<longleftrightarrow>
     \<not> b7 \<and> b6 \<and> \<not> b5 \<and> (b4 \<or> b3 \<or> b2 \<or> b1 \<or> b0) \<and> \<not> (b4 \<and> b3 \<and> (b2 \<or> b1 \<and> b0))"
  by (simp add: is_ascii_uppercase_def)

lemma is_ascii_lowercase_code [code]:
  "is_ascii_lowercase (Char b0 b1 b2 b3 b4 b5 b6 b7) \<longleftrightarrow>
     \<not> b7 \<and> b6 \<and> b5 \<and> (b4 \<or> b3 \<or> b2 \<or> b1 \<or> b0) \<and> \<not> (b4 \<and> b3 \<and> (b2 \<or> b1 \<and> b0))"
  by (simp add: is_ascii_lowercase_def)

lemma is_ascii_digit_code [code]:
  "is_ascii_digit (Char b0 b1 b2 b3 b4 b5 b6 b7) \<longleftrightarrow> \<not> b7 \<and> \<not> b6 \<and> b5 \<and> b4 \<and> \<not> (b3 \<and> (b2 \<or> b1))"
  by (simp add: is_ascii_digit_def)

lemma is_whitespace_code [code]:
  "is_whitespace (Char b0 b1 b2 b3 b4 b5 b6 b7) \<longleftrightarrow>
     \<not> b7 \<and> \<not> b6 \<and> \<not> b4 \<and> (b5 \<and> \<not> (b3 \<or> b2 \<or> b1 \<or> b0) \<or> \<not> b5 \<and> b3 \<and> (b2 \<or> b1 \<or> b0) \<and> \<not> (b2 \<and> b1))"
  by (simp add: is_whitespace_def)

lemma char_to_ascii_lowercase_code [code]:
  "char_to_ascii_lowercase (Char b0 b1 b2 b3 b4 b5 b6 b7) =
     Char b0 b1 b2 b3 b4 (b5 \<or> is_ascii_uppercase (Char b0 b1 b2 b3 b4 b5 b6 b7)) b6 b7"
proof (cases "is_ascii_uppercase (Char b0 b1 b2 b3 b4 b5 b6 b7)")
  case True
  then have "\<not> b5" by (simp add: is_ascii_uppercase_code)
  then have "of_char (Char b0 b1 b2 b3 b4 b5 b6 b7) + 32 = (of_char (Char b0 b1 b2 b3 b4 True b6 b7) :: nat)" by simp
  with True show ?thesis by (simp only: char_to_ascii_lowercase_def if_True char_of_char) simp
qed (simp add: char_to_ascii_lowercase_def)

section \<open>Ordered containers\<close>

text \<open>
  A \<^verbatim>\<open>BTreeSet\<close> is a strictly ascending list (\<open>insort_insert\<close> of the list library adds an
  element); a \<^verbatim>\<open>BTreeMap\<close> is an association list with strictly ascending keys, iterated in
  key order. \<open>bt_update k d f\<close> is \<^verbatim>\<open>*entry(k).or_insert(d)\<close> followed by the change \<open>f\<close>.
\<close>

type_synonym ('k, 'v) btree_map = "('k \<times> 'v) list"

fun bt_update :: "'k::linorder \<Rightarrow> 'v \<Rightarrow> ('v \<Rightarrow> 'v) \<Rightarrow> ('k, 'v) btree_map \<Rightarrow> ('k, 'v) btree_map" where
  "bt_update k d f [] = [(k, f d)]"
| "bt_update k d f ((a, v) # m) =
     (if k < a then (k, f d) # (a, v) # m
      else if k = a then (a, f v) # m
      else (a, v) # bt_update k d f m)"

definition bt_insert :: "'k::linorder \<Rightarrow> 'v \<Rightarrow> ('k, 'v) btree_map \<Rightarrow> ('k, 'v) btree_map" where
  "bt_insert k v m = bt_update k v (\<lambda>_. v) m"

definition bt_get :: "('k, 'v) btree_map \<Rightarrow> 'k \<Rightarrow> 'v option" where
  "bt_get m k = map_of m k"

definition bt_keys :: "('k, 'v) btree_map \<Rightarrow> 'k list" where
  "bt_keys m = map fst m"

definition bt_ok :: "('k::linorder, 'v) btree_map \<Rightarrow> bool" where
  "bt_ok m \<longleftrightarrow> sorted_wrt (<) (map fst m)"

lemma bt_keys_update: "set (bt_keys (bt_update k d f m)) = insert k (set (bt_keys m))"
proof (induction k d f m rule: bt_update.induct)
  case (2 k d f a v m)
  then show ?case by (cases "k < a"; cases "k = a") (auto simp: bt_keys_def)
qed (simp add: bt_keys_def)

lemma bt_ok_Nil [simp]: "bt_ok []"
  by (simp add: bt_ok_def)

lemma bt_ok_update: "bt_ok m \<Longrightarrow> bt_ok (bt_update k d f m)"
proof (induction m)
  case Nil
  then show ?case by (simp add: bt_ok_def)
next
  case (Cons p m)
  obtain a v where p: "p = (a, v)" by (cases p)
  have keys: "set (map fst (bt_update k d f m)) = insert k (set (map fst m))"
    using bt_keys_update [of k d f m] by (simp add: bt_keys_def)
  have above: "a < fst q" if "q \<in> set (bt_update k d f m)" "\<not> k < a" "k \<noteq> a" for q
  proof -
    from that(1) have "fst q \<in> insert k (set (map fst m))" unfolding keys [symmetric] by simp
    with that(2,3) Cons.prems p show ?thesis by (auto simp: bt_ok_def)
  qed
  from Cons p show ?case
    by (cases "k < a"; cases "k = a") (auto simp: bt_ok_def dest!: above)
qed

lemma bt_ok_distinct: "bt_ok m \<Longrightarrow> distinct (map fst m)"
  by (simp add: bt_ok_def strict_sorted_iff)

lemma bt_get_update:
  "bt_ok m \<Longrightarrow> bt_get (bt_update k d f m) =
     (bt_get m)(k \<mapsto> f (case bt_get m k of None \<Rightarrow> d | Some v \<Rightarrow> v))"
proof (induction m)
  case Nil
  then show ?case by (auto simp: bt_get_def)
next
  case (Cons p m)
  obtain a v where p: "p = (a, v)" by (cases p)
  have none: "map_of m k = None" if "k < a"
    using Cons.prems that p by (auto simp: bt_ok_def map_of_eq_None_iff)
  from Cons.prems have ok: "bt_ok m" by (simp add: bt_ok_def)
  from Cons.IH [OF ok] p none show ?case
    by (auto simp: bt_get_def fun_eq_iff)
qed

lemma bt_get_keys: "bt_get m k = None \<longleftrightarrow> k \<notin> set (bt_keys m)"
  by (simp add: bt_get_def bt_keys_def map_of_eq_None_iff)

lemma bt_get_mem: "bt_ok m \<Longrightarrow> bt_get m k = Some v \<longleftrightarrow> (k, v) \<in> set m"
  by (simp add: bt_get_def bt_ok_distinct)

section \<open>Lists\<close>

text \<open>\<^verbatim>\<open>sort()\<close> then \<^verbatim>\<open>dedup()\<close>: \<open>remdups_adj\<close> drops consecutive duplicates.\<close>

lemma set_sort_dedup [simp]: "set (remdups_adj (sort xs)) = set xs"
  by simp

lemma find_Some_filter: "List.find P xs = Some x \<Longrightarrow> x \<in> set xs \<and> P x"
  by (induction xs) (auto split: if_splits)

lemma find_None_filter: "List.find P xs = None \<longleftrightarrow> (\<forall>x \<in> set xs. \<not> P x)"
  by (induction xs) auto

lemma filter_unique_find:
  assumes "\<And>x y. x \<in> set xs \<Longrightarrow> y \<in> set xs \<Longrightarrow> P x \<Longrightarrow> P y \<Longrightarrow> x = y"
    and "x \<in> set xs" and "P x"
  shows "List.find P xs = Some x"
proof (cases "List.find P xs")
  case None
  with assms(2,3) show ?thesis by (simp add: find_None_filter)
next
  case (Some y)
  then have "y \<in> set xs \<and> P y" by (rule find_Some_filter)
  with assms Some show ?thesis by metis
qed

text \<open>Sorting by an injective key forgets the input order.\<close>

lemma sort_key_perm_unique:
  assumes "mset xs = mset ys" and "inj_on f (set xs)"
  shows "sort_key f xs = sort_key f ys"
proof (rule properties_for_sort_key)
  show "mset (sort_key f ys) = mset xs" using assms(1) by simp
  show "sorted (map f (sort_key f ys))" by simp
  fix k assume "k \<in> set (sort_key f ys)"
  have "set ys = set xs" using assms(1) by (metis set_mset_mset)
  have one: "filter (\<lambda>x. f k = f x) zs = filter ((=) k) zs" if "set zs = set xs" for zs
    using that assms(2) \<open>k \<in> set (sort_key f ys)\<close> \<open>set ys = set xs\<close>
    by (intro filter_cong) (auto simp: inj_on_def)
  have eqf: "filter ((=) k) us = filter ((=) k) vs" if "mset us = mset vs" for us vs
    by (metis (full_types) replicate_count_mset_eq_filter_eq that)
  show "filter (\<lambda>x. f k = f x) (sort_key f ys) = filter (\<lambda>x. f k = f x) xs"
    using one [of "sort_key f ys"] one [of xs] eqf [of "sort_key f ys" xs] assms(1)
      \<open>set ys = set xs\<close> by simp
qed

section \<open>Results and table updates\<close>

text \<open>The question-mark operator of a fallible function: the first error ends the computation.\<close>

fun and_then :: "'e + 'a \<Rightarrow> ('a \<Rightarrow> 'e + 'b) \<Rightarrow> 'e + 'b" where
  "and_then (Inl e) f = Inl e"
| "and_then (Inr a) f = f a"

lemma and_then_Inr: "and_then r f = Inr b \<longleftrightarrow> (\<exists>a. r = Inr a \<and> f a = Inr b)"
  by (cases r) auto

text \<open>
  A table is the list of its rows in insertion order. \<open>update_where P f\<close> is
  \<^verbatim>\<open>UPDATE ... SET f WHERE P\<close>, \<open>rows_affected P\<close> the row count it reports.
\<close>

definition update_where :: "('r \<Rightarrow> bool) \<Rightarrow> ('r \<Rightarrow> 'r) \<Rightarrow> 'r list \<Rightarrow> 'r list" where
  "update_where P f rs = map (\<lambda>r. if P r then f r else r) rs"

definition rows_affected :: "('r \<Rightarrow> bool) \<Rightarrow> 'r list \<Rightarrow> nat" where
  "rows_affected P rs = length (filter P rs)"

lemma update_where_Nil [simp]: "update_where P f [] = []"
  by (simp add: update_where_def)

lemma update_where_Cons [simp]:
  "update_where P f (r # rs) = (if P r then f r else r) # update_where P f rs"
  by (simp add: update_where_def)

lemma mem_update_where:
  assumes "r \<in> set (update_where P f rs)"
  obtains c where "c \<in> set rs" and "P c" and "r = f c" | "r \<in> set rs" and "\<not> P r"
  using assms by (auto simp: update_where_def split: if_splits)

lemma set_update_where: "set (update_where P f rs) = {if P r then f r else r |r. r \<in> set rs}"
  by (auto simp: update_where_def)

lemma update_where_keeps:
  "(\<And>r. P r \<Longrightarrow> g (f r) = g r) \<Longrightarrow> map g (update_where P f rs) = map g rs"
  by (simp add: update_where_def)

lemma update_where_none: "(\<And>r. r \<in> set rs \<Longrightarrow> \<not> P r) \<Longrightarrow> update_where P f rs = rs"
  by (induction rs) auto

lemma list_all_update_where:
  "(\<And>r. P r \<Longrightarrow> Q (f r) \<longleftrightarrow> Q r) \<Longrightarrow> list_all Q (update_where P f rs) \<longleftrightarrow> list_all Q rs"
  by (induction rs) auto

lemma filter_update_where_le:
  assumes "\<And>r. P r \<Longrightarrow> \<not> Q (f r)"
  shows "length (filter Q (update_where P f rs)) \<le> length (filter Q rs)"
  using assms by (induction rs) auto

lemma filter_update_where_less:
  assumes "\<And>r. P r \<Longrightarrow> \<not> Q (f r)" "r \<in> set rs" "P r" "Q r"
  shows "length (filter Q (update_where P f rs)) < length (filter Q rs)"
  using assms(2)
proof (induction rs)
  case (Cons a rs)
  have "length (filter Q (update_where P f rs)) \<le> length (filter Q rs)"
    by (rule filter_update_where_le) (rule assms(1))
  with Cons assms show ?case by (cases "a = r") (auto simp: le_imp_less_Suc less_SucI)
qed simp

lemma rows_affected_0: "rows_affected P rs = 0 \<longleftrightarrow> (\<forall>r \<in> set rs. \<not> P r)"
  by (auto simp: rows_affected_def filter_empty_conv)

lemma find_map: "List.find P (map f xs) = map_option f (List.find (\<lambda>x. P (f x)) xs)"
  by (induction xs) auto

lemma find_cong: "(\<And>x. x \<in> set xs \<Longrightarrow> P x = Q x) \<Longrightarrow> List.find P xs = List.find Q xs"
  by (induction xs) auto

lemma find_append: "List.find P (xs @ ys) =
    (case List.find P xs of None \<Rightarrow> List.find P ys | Some x \<Rightarrow> Some x)"
  by (induction xs) auto

end
