(* ===== verification/Json_Value.thy ===== *)
theory Json_Value
  imports Verity_Prelude "HOL-Library.Log_Nat"
begin

text \<open>
  JSON payloads as the sources see them (\<^verbatim>\<open>serde_json::Value\<close>), the reading operations the
  sources call on them, and the part of Rust's number parsing the manifest dialect relies on.
  Objects are association lists in key order (\<^verbatim>\<open>serde_json\<close>'s default map is ordered).
  Binary64 numbers are exact rationals that went through round-to-nearest-even, plus the
  infinities and NaN.
\<close>

section \<open>Binary64\<close>

datatype f64 = Fin rat | Inf bool | NaN

text \<open>IEEE equality: NaN equals nothing.\<close>

fun f64_eq :: "f64 \<Rightarrow> f64 \<Rightarrow> bool" where
  "f64_eq (Fin a) (Fin b) = (a = b)"
| "f64_eq (Inf a) (Inf b) = (a = b)"
| "f64_eq _ _ = False"

definition round_even :: "rat \<Rightarrow> int" where
  "round_even q =
     (let f = \<lfloor>q\<rfloor>; r = q - of_int f
      in if r < 1 / 2 \<or> r = 1 / 2 \<and> even f then f else f + 1)"

definition pow2 :: "int \<Rightarrow> rat" where
  "pow2 e = (if 0 \<le> e then 2 ^ nat e else 1 / 2 ^ nat (- e))"

definition f64_ulp_exp :: "rat \<Rightarrow> int" where
  "f64_ulp_exp q =
     (let (n, d) = quotient_of \<bar>q\<bar>; k = bitlen n - bitlen d - 53
      in max (-1074) (if 2 ^ 53 \<le> \<bar>q\<bar> / pow2 k then k + 1 else k))"

definition round_f64 :: "rat \<Rightarrow> f64" where
  "round_f64 q =
     (if q = 0 then Fin 0
      else let e = f64_ulp_exp q; v = of_int (round_even (\<bar>q\<bar> / pow2 e)) * pow2 e
           in if 2 ^ 1024 \<le> v then Inf (q < 0) else Fin (sgn q * v))"

section \<open>Decimal text\<close>

definition digit_value :: "char \<Rightarrow> nat" where
  "digit_value c = of_char c - 48"

definition digits_value :: "string \<Rightarrow> nat" where
  "digits_value s = foldl (\<lambda>n c. 10 * n + digit_value c) 0 s"

fun nat_to_string :: "nat \<Rightarrow> string" where
  "nat_to_string n =
     (if n < 10 then [char_of (48 + n)] else nat_to_string (n div 10) @ [char_of (48 + n mod 10)])"

declare nat_to_string.simps [simp del]

definition int_to_string :: "int \<Rightarrow> string" where
  "int_to_string i = (if i < 0 then CHR ''-'' # nat_to_string (nat (- i)) else nat_to_string (nat i))"

text \<open>\<^verbatim>\<open>str::parse::<usize>\<close>: an optional plus sign and at least one digit, within 64 bits.\<close>

definition parse_usize :: "string \<Rightarrow> nat option" where
  "parse_usize s =
     (let ds = (case s of [] \<Rightarrow> [] | c # cs \<Rightarrow> if c = CHR ''+'' then cs else s)
      in if ds \<noteq> [] \<and> list_all is_ascii_digit ds \<and> digits_value ds < 2 ^ 64
         then Some (digits_value ds) else None)"

text \<open>\<^verbatim>\<open>str::parse::<i32>\<close>: an optional sign and at least one digit, within 32 bits.\<close>

definition parse_i32 :: "string \<Rightarrow> int option" where
  "parse_i32 s =
     (let (neg, ds) = (case s of [] \<Rightarrow> (False, [])
                       | c # cs \<Rightarrow> if c = CHR ''+'' then (False, cs)
                                   else if c = CHR ''-'' then (True, cs) else (False, s));
          v = (if neg then - int (digits_value ds) else int (digits_value ds))
      in if ds \<noteq> [] \<and> list_all is_ascii_digit ds \<and> - (2 ^ 31) \<le> v \<and> v < 2 ^ 31
         then Some v else None)"

definition split_digits :: "string \<Rightarrow> string \<times> string" where
  "split_digits s = (takeWhile is_ascii_digit s, dropWhile is_ascii_digit s)"

text \<open>The exponent part of a decimal literal: absent, or \<^verbatim>\<open>e\<close>, an optional sign and digits.\<close>

definition parse_exponent :: "string \<Rightarrow> int option" where
  "parse_exponent s =
     (case s of [] \<Rightarrow> Some 0
      | c # cs \<Rightarrow>
          if c = CHR ''e'' \<or> c = CHR ''E''
          then let (neg, ds) = (case cs of [] \<Rightarrow> (False, [])
                                | d # r \<Rightarrow> if d = CHR ''+'' then (False, r)
                                           else if d = CHR ''-'' then (True, r) else (False, cs))
               in if ds \<noteq> [] \<and> list_all is_ascii_digit ds
                  then Some (if neg then - int (digits_value ds) else int (digits_value ds))
                  else None
          else None)"

definition parse_unsigned_f64 :: "string \<Rightarrow> rat option" where
  "parse_unsigned_f64 s =
     (let (whole, r) = split_digits s;
          (frac, r') = (case r of [] \<Rightarrow> ([], [])
                        | c # cs \<Rightarrow> if c = CHR ''.'' then split_digits cs else ([], r))
      in if whole = [] \<and> frac = [] then None
         else map_option
                (\<lambda>e. (of_nat (digits_value (whole @ frac)) / 10 ^ length frac) *
                     (if 0 \<le> e then 10 ^ nat e else 1 / 10 ^ nat (- e)))
                (parse_exponent r'))"

text \<open>
  \<^verbatim>\<open>str::parse::<f64>\<close>: an optional sign, then \<^verbatim>\<open>inf\<close>, \<^verbatim>\<open>infinity\<close> or \<^verbatim>\<open>nan\<close> in any case, or a
  decimal number with optional fraction and exponent.
\<close>

definition parse_f64 :: "string \<Rightarrow> f64 option" where
  "parse_f64 s =
     (let (neg, r) = (case s of [] \<Rightarrow> (False, [])
                      | c # cs \<Rightarrow> if c = CHR ''+'' then (False, cs)
                                  else if c = CHR ''-'' then (True, cs) else (False, s));
          w = to_ascii_lowercase r
      in if w = ''inf'' \<or> w = ''infinity'' then Some (Inf neg)
         else if w = ''nan'' then Some NaN
         else map_option (\<lambda>q. round_f64 (if neg then - q else q)) (parse_unsigned_f64 r))"

section \<open>JSON values\<close>

text \<open>\<^verbatim>\<open>serde_json::Number\<close>: a non-negative or negative integer, or a finite float.\<close>

datatype json_number = PosInt nat | NegInt int | Float f64

datatype json =
    JNull
  | JBool bool
  | JNumber json_number
  | JString string
  | JArray "json list"
  | JObject "(string \<times> json) list"

fun as_f64 :: "json_number \<Rightarrow> f64 option" where
  "as_f64 (PosInt n) = Some (round_f64 (of_nat n))"
| "as_f64 (NegInt i) = Some (round_f64 (of_int i))"
| "as_f64 (Float f) = Some f"

fun as_i64 :: "json_number \<Rightarrow> int option" where
  "as_i64 (PosInt n) = (if n < 2 ^ 63 then Some (int n) else None)"
| "as_i64 (NegInt i) = Some i"
| "as_i64 (Float f) = None"

text \<open>\<^verbatim>\<open>Value::get\<close> with a key, with an index, and \<^verbatim>\<open>as_array\<close>, \<^verbatim>\<open>as_str\<close>.\<close>

fun json_get :: "json \<Rightarrow> string \<Rightarrow> json option" where
  "json_get (JObject m) k = map_of m k"
| "json_get _ k = None"

fun json_get_index :: "json \<Rightarrow> nat \<Rightarrow> json option" where
  "json_get_index (JArray xs) i = (if i < length xs then Some (xs ! i) else None)"
| "json_get_index _ i = None"

fun as_array :: "json \<Rightarrow> json list option" where
  "as_array (JArray xs) = Some xs"
| "as_array _ = None"

fun as_str :: "json \<Rightarrow> string option" where
  "as_str (JString s) = Some s"
| "as_str _ = None"

text \<open>The text of a number; the shortest-float printer is a parameter.\<close>

fun number_to_string :: "(f64 \<Rightarrow> string) \<Rightarrow> json_number \<Rightarrow> string" where
  "number_to_string ryu (PosInt n) = nat_to_string n"
| "number_to_string ryu (NegInt i) = int_to_string i"
| "number_to_string ryu (Float f) = ryu f"

lemma nat_to_string_digits: "list_all is_ascii_digit (nat_to_string n)"
proof (induction n rule: nat_to_string.induct)
  case (1 n)
  have "is_ascii_digit (char_of (48 + d))" if "d < 10" for d :: nat
    using that by (simp add: is_ascii_digit_def)
  with 1 show ?case
    by (cases "n < 10") (simp_all add: nat_to_string.simps [of n])
qed

lemma digits_value_append: "digits_value (s @ [c]) = 10 * digits_value s + digit_value c"
  by (simp add: digits_value_def)

lemma digits_value_nat_to_string [simp]: "digits_value (nat_to_string n) = n"
proof (induction n rule: nat_to_string.induct)
  case (1 n)
  have "digit_value (char_of (48 + d)) = d" if "d < 10" for d :: nat
    using that by (simp add: digit_value_def)
  moreover have "digits_value [char_of (48 + n)] = digit_value (char_of (48 + n))"
    by (simp add: digits_value_def)
  ultimately show ?case
    using 1 by (cases "n < 10") (simp_all add: nat_to_string.simps [of n] digits_value_append)
qed

lemma nat_to_string_nonempty: "nat_to_string n \<noteq> []"
  by (subst nat_to_string.simps) simp

lemma parse_usize_nat_to_string: "n < 2 ^ 64 \<Longrightarrow> parse_usize (nat_to_string n) = Some n"
proof -
  assume "n < 2 ^ 64"
  obtain c cs where s: "nat_to_string n = c # cs"
    using nat_to_string_nonempty [of n] by (cases "nat_to_string n") auto
  have "is_ascii_digit c" using nat_to_string_digits [of n] s by simp
  then have "c \<noteq> CHR ''+''" by (auto simp: is_ascii_digit_def)
  with s \<open>n < 2 ^ 64\<close> show ?thesis
    using nat_to_string_digits [of n] digits_value_nat_to_string [of n]
    by (simp add: parse_usize_def)
qed

end
