(* ===== verification/Core_Types.thy ===== *)
theory Core_Types
  imports Json_Value
begin

text \<open>
  The data model of \<^verbatim>\<open>crates/verity-core/src/types.rs\<close>: labels and their stored spellings,
  the bi-temporal fact and chunk records, the compiled \<open>scope\<close> every read carries, the
  shared point-read predicate \<open>fact_visible\<close>, and the entity-resolution ledger rows.
  Record fields carry a short prefix of their struct, since HOL field names are global.
  Numbers of type \<^verbatim>\<open>f32\<close> occur only as stored tuning values and are exact rationals.
\<close>

section \<open>Labels\<close>

datatype trust_tier = Authoritative | Observation

fun tier_code :: "trust_tier \<Rightarrow> int" where
  "tier_code Authoritative = 1"
| "tier_code Observation = 2"

datatype confidentiality = Public | Internal | Confidential | Restricted

text \<open>The discriminant (\<^verbatim>\<open>repr(i16)\<close>), which is also the stored \<^verbatim>\<open>smallint\<close> and the derived order.\<close>

fun conf_code :: "confidentiality \<Rightarrow> int" where
  "conf_code Public = 0"
| "conf_code Internal = 1"
| "conf_code Confidential = 2"
| "conf_code Restricted = 3"

instantiation confidentiality :: linorder
begin
definition less_eq_confidentiality :: "confidentiality \<Rightarrow> confidentiality \<Rightarrow> bool" where
  "less_eq_confidentiality a b \<longleftrightarrow> conf_code a \<le> conf_code b"
definition less_confidentiality :: "confidentiality \<Rightarrow> confidentiality \<Rightarrow> bool" where
  "less_confidentiality a b \<longleftrightarrow> conf_code a < conf_code b"
instance
proof
  fix a b c :: confidentiality
  show "a < b \<longleftrightarrow> a \<le> b \<and> \<not> b \<le> a"
    by (auto simp: less_eq_confidentiality_def less_confidentiality_def)
  show "a \<le> a" by (simp add: less_eq_confidentiality_def)
  show "a \<le> b \<Longrightarrow> b \<le> c \<Longrightarrow> a \<le> c" by (simp add: less_eq_confidentiality_def)
  show "a \<le> b \<Longrightarrow> b \<le> a \<Longrightarrow> a = b"
    by (cases a; cases b) (simp_all add: less_eq_confidentiality_def)
  show "a \<le> b \<or> b \<le> a" by (auto simp: less_eq_confidentiality_def)
qed
end

definition confidentiality_from_i16 :: "int \<Rightarrow> confidentiality" where
  "confidentiality_from_i16 v =
     (if v = 0 then Public else if v = 1 then Internal else if v = 2 then Confidential
      else Restricted)"

datatype acl_provenance =
  Mirrored | Approximated | AdminAssigned | Quarantined | Derived | WriterScoped | Declared

fun acl_provenance_as_str :: "acl_provenance \<Rightarrow> string" where
  "acl_provenance_as_str Mirrored = ''mirrored''"
| "acl_provenance_as_str Approximated = ''approximated''"
| "acl_provenance_as_str AdminAssigned = ''admin-assigned''"
| "acl_provenance_as_str Quarantined = ''quarantined''"
| "acl_provenance_as_str Derived = ''derived''"
| "acl_provenance_as_str WriterScoped = ''writer-scoped''"
| "acl_provenance_as_str Declared = ''declared''"

definition acl_provenance_from_str_lossy :: "string \<Rightarrow> acl_provenance" where
  "acl_provenance_from_str_lossy s =
     (if s = ''mirrored'' then Mirrored
      else if s = ''approximated'' then Approximated
      else if s = ''quarantined'' then Quarantined
      else if s = ''derived'' then Derived
      else if s = ''writer-scoped'' then WriterScoped
      else if s = ''declared'' then Declared
      else AdminAssigned)"

datatype episode_kind =
    CdcEvent | Webhook | DocVersion | ObservationEpisode | AgentAction | KnowledgePublish
  | WebSnapshot

fun episode_kind_as_str :: "episode_kind \<Rightarrow> string" where
  "episode_kind_as_str CdcEvent = ''cdc_event''"
| "episode_kind_as_str Webhook = ''webhook''"
| "episode_kind_as_str DocVersion = ''doc_version''"
| "episode_kind_as_str ObservationEpisode = ''observation''"
| "episode_kind_as_str AgentAction = ''agent_action''"
| "episode_kind_as_str KnowledgePublish = ''knowledge_publish''"
| "episode_kind_as_str WebSnapshot = ''web_snapshot''"

datatype support_tier = Emerging | Established | Extensive

definition support_tier_from_distinct :: "int \<Rightarrow> support_tier option" where
  "support_tier_from_distinct d =
     (if 10 \<le> d then Some Extensive
      else if 5 \<le> d then Some Established
      else if 3 \<le> d then Some Emerging
      else None)"

fun support_tier_as_str :: "support_tier \<Rightarrow> string" where
  "support_tier_as_str Emerging = ''emerging''"
| "support_tier_as_str Established = ''established''"
| "support_tier_as_str Extensive = ''extensive''"

definition support_tier_from_str :: "string \<Rightarrow> support_tier option" where
  "support_tier_from_str s =
     (if s = ''emerging'' then Some Emerging
      else if s = ''established'' then Some Established
      else if s = ''extensive'' then Some Extensive
      else None)"

datatype embedding_route = V1 | V2

fun embedding_route_as_str :: "embedding_route \<Rightarrow> string" where
  "embedding_route_as_str V1 = ''v1''"
| "embedding_route_as_str V2 = ''v2''"

definition embedding_route_from_str_lossy :: "string \<Rightarrow> embedding_route" where
  "embedding_route_from_str_lossy s = (if s = ''v2'' then V2 else V1)"

record embedding_coverage =
  ec_total :: int
  ec_covered :: int

definition is_complete :: "embedding_coverage \<Rightarrow> bool" where
  "is_complete c \<longleftrightarrow> ec_total c = 0 \<or> ec_total c \<le> ec_covered c"

section \<open>Facts and scopes\<close>

record fact_key =
  fk_source :: string
  fk_entity_id :: string
  fk_field :: string

record fact_write =
  fw_tenant_id :: tenant_id
  fw_key :: fact_key
  fw_value :: json
  fw_valid_from :: instant
  fw_visibility :: "principal_token list"
  fw_confidentiality :: confidentiality
  fw_provenance :: episode_id
  fw_acl_provenance :: acl_provenance

record fact_row =
  fr_id :: uuid
  fr_tenant_id :: tenant_id
  fr_key :: fact_key
  fr_value :: json
  fr_valid_from :: instant
  fr_valid_to :: "instant option"
  fr_superseded_by :: "uuid option"
  fr_recorded_at :: instant
  fr_visibility :: "principal_token list"
  fr_confidentiality :: confidentiality
  fr_provenance :: episode_id
  fr_acl_provenance :: acl_provenance

datatype fact_upsert_outcome = Inserted | Superseded | Unchanged | StaleEvent

record scope =
  sc_tenant_id :: tenant_id
  sc_principals :: "principal_token list"
  sc_entity_scope :: "string list"
  sc_max_confidentiality :: confidentiality

definition fact_visible :: "scope \<Rightarrow> fact_row \<Rightarrow> bool" where
  "fact_visible sc row =
     (let overlap = list_ex (\<lambda>p. p \<in> set (fr_visibility row)) (sc_principals sc);
          conf_ok = fr_confidentiality row \<le> sc_max_confidentiality sc;
          entity_ok = sc_entity_scope sc = [] \<or>
                      fk_entity_id (fr_key row) \<in> set (sc_entity_scope sc)
      in overlap \<and> conf_ok \<and> entity_ok)"

datatype forget_ref = ForgetChunk uuid | ForgetEpisode episode_id

datatype storage_error =
    Database string
  | UnknownTenant tenant_id
  | InvalidInput string

section \<open>The entity-resolution ledger\<close>

record evidence_row =
  ev_evidence_id :: uuid
  ev_tenant_id :: tenant_id
  ev_left_ref :: string
  ev_right_ref :: string
  ev_tier :: int
  ev_method :: string
  ev_key_value :: "string option"
  ev_key_namespace :: "string option"
  ev_score :: "rat option"
  ev_evidence_l0_ref :: "string option"
  ev_polarity :: int
  ev_valid_from :: instant
  ev_valid_to :: "instant option"
  ev_superseded_by :: "uuid option"

record evidence_write =
  ew_tenant_id :: tenant_id
  ew_left_ref :: string
  ew_right_ref :: string
  ew_tier :: int
  ew_method :: string
  ew_key_value :: "string option"
  ew_key_namespace :: "string option"
  ew_score :: "rat option"
  ew_evidence_l0_ref :: "string option"
  ew_polarity :: int

record entity_resolution_config =
  rc_tenant_id :: tenant_id
  rc_key_kind :: string
  rc_key_namespace :: string
  rc_eligible_as_edge :: bool
  rc_denylist_values :: "string list"
  rc_min_independent_keys :: int
  rc_auto_merge_tier1 :: bool
  rc_auto_link_tier3 :: bool
  rc_tau_nil :: "rat option"
  rc_margin_delta :: "rat option"
  rc_component_size_cap :: "int option"

text \<open>The two literals are the binary32 values nearest to 0.70 and 0.15.\<close>

definition resolution_config_defaults :: "tenant_id \<Rightarrow> string \<Rightarrow> string \<Rightarrow> entity_resolution_config" where
  "resolution_config_defaults tenant key_kind key_namespace =
     \<lparr>rc_tenant_id = tenant, rc_key_kind = key_kind, rc_key_namespace = key_namespace,
      rc_eligible_as_edge = True, rc_denylist_values = [],
      rc_min_independent_keys = (if key_kind = ''external_id'' then 1 else 2),
      rc_auto_merge_tier1 = True, rc_auto_link_tier3 = False,
      rc_tau_nil = Some (11744051 / 2 ^ 24), rc_margin_delta = Some (10066330 / 2 ^ 26),
      rc_component_size_cap = None\<rparr>"

record entity_link_meta =
  lm_tenant_id :: tenant_id
  lm_subject_kind :: string
  lm_subject_ref :: string
  lm_canonical_entity :: string
  lm_confidence :: string
  lm_strongest_method :: "string option"
  lm_justifying_evidence :: "uuid list"
  lm_evidence_count :: int

section \<open>Facts about the labels\<close>

lemma confidentiality_from_i16_code [simp]: "confidentiality_from_i16 (conf_code c) = c"
  by (cases c) (simp_all add: confidentiality_from_i16_def)

lemma conf_code_le [simp]: "conf_code a \<le> conf_code b \<longleftrightarrow> a \<le> b"
  by (simp add: less_eq_confidentiality_def)

lemma acl_provenance_from_as_str [simp]:
  "acl_provenance_from_str_lossy (acl_provenance_as_str p) = p"
  by (cases p) (simp_all add: acl_provenance_from_str_lossy_def)

lemma fact_visible_iff:
  "fact_visible sc r \<longleftrightarrow>
     set (sc_principals sc) \<inter> set (fr_visibility r) \<noteq> {} \<and>
     fr_confidentiality r \<le> sc_max_confidentiality sc \<and>
     (sc_entity_scope sc = [] \<or> fk_entity_id (fr_key r) \<in> set (sc_entity_scope sc))"
  by (auto simp: fact_visible_def list_ex_iff)

text \<open>A read under an empty principal set, or of a row nobody may see, is refused.\<close>

lemma fact_visible_fail_closed:
  "sc_principals sc = [] \<or> fr_visibility r = [] \<Longrightarrow> \<not> fact_visible sc r"
  by (auto simp: fact_visible_iff)

text \<open>Narrowing a scope in any of its three dimensions never uncovers a row.\<close>

lemma fact_visible_mono:
  assumes "fact_visible sc r"
    and "set (sc_principals sc) \<subseteq> set (sc_principals sc')"
    and "sc_max_confidentiality sc \<le> sc_max_confidentiality sc'"
    and "sc_entity_scope sc' = [] \<or>
         sc_entity_scope sc \<noteq> [] \<and> set (sc_entity_scope sc) \<subseteq> set (sc_entity_scope sc')"
  shows "fact_visible sc' r"
  using assms by (auto simp: fact_visible_iff)

end
