(* ===== verification/Database.thy ===== *)
theory Database
  imports Core_Types
begin

text \<open>
  The tables the storage adapter works on, one record field per table and one record per row
  (\<^verbatim>\<open>src/migrations\<close> and the row structs of \<^verbatim>\<open>crates/verity-core/src/types.rs\<close>). A table is the
  list of its rows in insertion order. Statements run against the whole database; a handler
  that fails returns the error alone, which is the rolled-back transaction. The server clock
  and the freshly generated UUIDs are arguments. Connection failures are not modelled; the
  constraints a statement can violate (primary keys, foreign keys, the partial unique index on
  current facts, the natural key of chunks) are. The at-rest encoding of an episode's payload
  is left out of its row: no modelled operation reads it.
\<close>

section \<open>Rows\<close>

record new_episode =
  ne_tenant_id :: tenant_id
  ne_source :: string
  ne_source_entity :: "string option"
  ne_kind :: episode_kind
  ne_payload :: json
  ne_content_hash :: string
  ne_trust_tier :: trust_tier
  ne_writer_sub :: "string option"
  ne_writer_azp :: "string option"

record episode_row =
  ep_id :: episode_id
  ep_tenant_id :: tenant_id
  ep_source :: string
  ep_source_entity :: "string option"
  ep_kind :: string
  ep_content_hash :: string
  ep_trust_tier :: int
  ep_writer_sub :: "string option"
  ep_writer_azp :: "string option"
  ep_recorded_at :: instant

record chunk_write =
  cw_tenant_id :: tenant_id
  cw_source :: string
  cw_document_id :: string
  cw_seq :: int
  cw_content :: string
  cw_content_hash :: string
  cw_embedding :: "rat list option"
  cw_visibility :: "principal_token list"
  cw_entity_tags :: "string list"
  cw_confidentiality :: confidentiality
  cw_trust_tier :: trust_tier
  cw_valid_from :: instant
  cw_provenance :: episode_id
  cw_acl_provenance :: acl_provenance
  cw_derived_from :: "episode_id list"

record chunk_row =
  ch_id :: uuid
  ch_tenant_id :: tenant_id
  ch_source :: string
  ch_document_id :: string
  ch_seq :: int
  ch_content :: string
  ch_content_hash :: string
  ch_embedding :: "rat list option"
  ch_visibility :: "principal_token list"
  ch_entity_tags :: "string list"
  ch_confidentiality :: confidentiality
  ch_trust_tier :: trust_tier
  ch_valid_from :: instant
  ch_valid_to :: "instant option"
  ch_provenance :: episode_id
  ch_acl_provenance :: acl_provenance
  ch_kind :: string
  ch_categories :: "string list"
  ch_support_tier :: "string option"
  ch_derived_from :: "episode_id list"

datatype action_outcome = Succeeded | Failed | Pending

fun action_outcome_as_str :: "action_outcome \<Rightarrow> string" where
  "action_outcome_as_str Succeeded = ''succeeded''"
| "action_outcome_as_str Failed = ''failed''"
| "action_outcome_as_str Pending = ''pending''"

record action_write =
  aw_tenant_id :: tenant_id
  aw_action_id :: string
  aw_actor_sub :: "string option"
  aw_actor_azp :: "string option"
  aw_action_type :: string
  aw_entities :: "string list"
  aw_summary :: string
  aw_payload :: json
  aw_outcome :: action_outcome
  aw_occurred_at :: instant
  aw_visibility :: "principal_token list"
  aw_confidentiality :: confidentiality

record action_row =
  ac_id :: uuid
  ac_write :: action_write
  ac_recorded_at :: instant
  ac_provenance :: episode_id

datatype knowledge_status =
  Candidate | KQuarantined | Eligible | Published | Rejected | Invalidated

fun knowledge_status_as_str :: "knowledge_status \<Rightarrow> string" where
  "knowledge_status_as_str Candidate = ''candidate''"
| "knowledge_status_as_str KQuarantined = ''quarantined''"
| "knowledge_status_as_str Eligible = ''eligible''"
| "knowledge_status_as_str Published = ''published''"
| "knowledge_status_as_str Rejected = ''rejected''"
| "knowledge_status_as_str Invalidated = ''invalidated''"

record knowledge_row =
  kn_id :: uuid
  kn_tenant_id :: tenant_id
  kn_statement :: string
  kn_categories :: "string list"
  kn_status :: knowledge_status
  kn_quarantine_reason :: "string option"
  kn_distinct_entities :: int
  kn_episode_count :: int
  kn_writer_count :: int
  kn_has_tier1_evidence :: bool
  kn_proposed_by_sub :: "string option"
  kn_proposed_by_azp :: "string option"
  kn_first_seen :: instant
  kn_last_reinforced :: instant
  kn_canonical_statement :: "string option"
  kn_merge_reason :: "string option"
  kn_published_at :: "instant option"
  kn_rejected_at :: "instant option"
  kn_invalidated_at :: "instant option"
  kn_invalidated_reason :: "string option"

record knowledge_evidence_row =
  ke_knowledge_id :: uuid
  ke_episode_id :: episode_id
  ke_entity :: "string option"
  ke_writer_azp :: "string option"
  ke_trust_tier :: int

record brief_row =
  br_tenant_id :: tenant_id
  br_entity :: string
  br_body :: json
  br_source_visibility :: "principal_token list"
  br_is_stale :: bool
  br_last_synced_at :: "instant option"
  br_source_version :: int

datatype acl_correction_reason =
  SourceReshare | SourceUnshare | AdminCorrection | RebacWatchDelete | PrincipalRevoke

fun acl_correction_reason_as_str :: "acl_correction_reason \<Rightarrow> string" where
  "acl_correction_reason_as_str SourceReshare = ''source_reshare''"
| "acl_correction_reason_as_str SourceUnshare = ''source_unshare''"
| "acl_correction_reason_as_str AdminCorrection = ''admin_correction''"
| "acl_correction_reason_as_str RebacWatchDelete = ''rebac_watch_delete''"
| "acl_correction_reason_as_str PrincipalRevoke = ''principal_revoke''"

record fact_acl_audit_row =
  fa_id :: uuid
  fa_tenant_id :: tenant_id
  fa_key :: fact_key
  fa_fact_id :: "uuid option"
  fa_old_visibility :: "principal_token list option"
  fa_new_visibility :: "principal_token list"
  fa_old_confidentiality :: "confidentiality option"
  fa_new_confidentiality :: confidentiality
  fa_reason :: string
  fa_acl_provenance :: string
  fa_changed_by :: "string option"

record chunk_acl_audit_row =
  ca_id :: uuid
  ca_tenant_id :: tenant_id
  ca_source :: string
  ca_document_id :: string
  ca_seq :: int
  ca_chunk_id :: uuid
  ca_old_visibility :: "principal_token list"
  ca_new_visibility :: "principal_token list"
  ca_old_confidentiality :: confidentiality
  ca_new_confidentiality :: confidentiality
  ca_reason :: string
  ca_acl_provenance :: string
  ca_changed_by :: "string option"

record retire_ledger_row =
  rl_id :: uuid
  rl_tenant_id :: tenant_id
  rl_source :: string
  rl_document_id :: string
  rl_reason :: string
  rl_chunks_retired :: int

section \<open>The database\<close>

record database =
  db_tenants :: "tenant_id list"
  db_episodes :: "episode_row list"
  db_facts :: "fact_row list"
  db_chunks :: "chunk_row list"
  db_briefs :: "brief_row list"
  db_actions :: "action_row list"
  db_knowledge :: "knowledge_row list"
  db_knowledge_evidence :: "knowledge_evidence_row list"
  db_fact_acl_audit :: "fact_acl_audit_row list"
  db_chunk_acl_audit :: "chunk_acl_audit_row list"
  db_document_retire_ledger :: "retire_ledger_row list"

definition empty_db :: database where
  "empty_db = \<lparr>db_tenants = [], db_episodes = [], db_facts = [], db_chunks = [], db_briefs = [],
     db_actions = [], db_knowledge = [], db_knowledge_evidence = [], db_fact_acl_audit = [],
     db_chunk_acl_audit = [], db_document_retire_ledger = []\<rparr>"

text \<open>The error a violated constraint raises, named by the constraint.\<close>

definition constraint_error :: "string \<Rightarrow> storage_error" where
  "constraint_error c = Database (''constraint '' @ c)"

text \<open>
  \<^verbatim>\<open>mark_briefs_stale_tx\<close>: an empty entity list is a no-op; otherwise every materialized brief
  of the tenant for one of the entities goes stale and its version is bumped.
\<close>

definition mark_briefs_stale_tx :: "tenant_id \<Rightarrow> string list \<Rightarrow> database \<Rightarrow> database \<times> nat" where
  "mark_briefs_stale_tx t entities db =
     (if entities = [] then (db, 0)
      else let uniq = remdups_adj (sort entities);
               P = (\<lambda>b. br_tenant_id b = t \<and> br_entity b \<in> set uniq)
           in (db\<lparr>db_briefs := update_where P
                 (\<lambda>b. b\<lparr>br_is_stale := True, br_source_version := br_source_version b + 1\<rparr>)
                 (db_briefs db)\<rparr>,
               rows_affected P (db_briefs db)))"

text \<open>\<^verbatim>\<open>insert_episode_tx\<close>: the one insert path of the evidence log.\<close>

definition insert_episode_tx ::
  "instant \<Rightarrow> episode_id \<Rightarrow> new_episode \<Rightarrow> database \<Rightarrow> storage_error + database" where
  "insert_episode_tx now eid ep db =
     (if ne_tenant_id ep \<notin> set (db_tenants db) then Inl (constraint_error ''episodes_tenant_id_fkey'')
      else if eid \<in> ep_id ` set (db_episodes db) then Inl (constraint_error ''episodes_pkey'')
      else Inr (db\<lparr>db_episodes := db_episodes db @
        [\<lparr>ep_id = eid, ep_tenant_id = ne_tenant_id ep, ep_source = ne_source ep,
          ep_source_entity = ne_source_entity ep, ep_kind = episode_kind_as_str (ne_kind ep),
          ep_content_hash = ne_content_hash ep, ep_trust_tier = tier_code (ne_trust_tier ep),
          ep_writer_sub = ne_writer_sub ep, ep_writer_azp = ne_writer_azp ep,
          ep_recorded_at = now\<rparr>]\<rparr>))"

lemma mark_briefs_stale_other [simp]:
  "db_facts (fst (mark_briefs_stale_tx t es db)) = db_facts db"
  "db_tenants (fst (mark_briefs_stale_tx t es db)) = db_tenants db"
  "db_episodes (fst (mark_briefs_stale_tx t es db)) = db_episodes db"
  "db_chunks (fst (mark_briefs_stale_tx t es db)) = db_chunks db"
  "db_actions (fst (mark_briefs_stale_tx t es db)) = db_actions db"
  "db_knowledge (fst (mark_briefs_stale_tx t es db)) = db_knowledge db"
  "db_knowledge_evidence (fst (mark_briefs_stale_tx t es db)) = db_knowledge_evidence db"
  by (simp_all add: mark_briefs_stale_tx_def Let_def)

text \<open>After the marking, no brief of a touched entity still reads as fresh.\<close>

lemma mark_briefs_stale_marks:
  assumes "b \<in> set (db_briefs (fst (mark_briefs_stale_tx t es db)))"
    and "br_tenant_id b = t" and "br_entity b \<in> set es"
  shows "br_is_stale b"
proof -
  define P where "P = (\<lambda>b :: brief_row. br_tenant_id b = t \<and> br_entity b \<in> set (remdups_adj (sort es)))"
  define f where "f = (\<lambda>b :: brief_row. b\<lparr>br_is_stale := True, br_source_version := br_source_version b + 1\<rparr>)"
  from assms(3) have "es \<noteq> []" by auto
  then have "db_briefs (fst (mark_briefs_stale_tx t es db)) = update_where P f (db_briefs db)"
    by (simp add: mark_briefs_stale_tx_def Let_def P_def f_def)
  with assms(1) have "b \<in> set (update_where P f (db_briefs db))" by simp
  then show ?thesis
  proof (cases rule: mem_update_where)
    case (1 c)
    then show ?thesis by (simp add: f_def)
  next
    case 2
    with assms(2,3) show ?thesis by (simp add: P_def)
  qed
qed

section \<open>Sample data\<close>

text \<open>A small tenant the witnesses of the storage theorems run on.\<close>

definition sample_episode :: "episode_id \<Rightarrow> string \<Rightarrow> string \<Rightarrow> episode_row" where
  "sample_episode i entity writer =
     \<lparr>ep_id = i, ep_tenant_id = 1, ep_source = ''crm'', ep_source_entity = Some entity,
      ep_kind = ''observation'', ep_content_hash = ''h'', ep_trust_tier = 2,
      ep_writer_sub = None, ep_writer_azp = Some writer, ep_recorded_at = 0\<rparr>"

definition sample_db :: database where
  "sample_db = empty_db\<lparr>db_tenants := [1],
     db_episodes := [sample_episode 10 ''acme'' ''a'', sample_episode 11 ''beta'' ''b'']\<rparr>"

definition sample_scope :: "principal_token list \<Rightarrow> scope" where
  "sample_scope ps = \<lparr>sc_tenant_id = 1, sc_principals = ps, sc_entity_scope = [],
     sc_max_confidentiality = Confidential\<rparr>"

definition sample_key :: fact_key where
  "sample_key = \<lparr>fk_source = ''crm'', fk_entity_id = ''acme'', fk_field = ''stage''\<rparr>"

definition sample_write :: "string \<Rightarrow> instant \<Rightarrow> fact_write" where
  "sample_write v from =
     \<lparr>fw_tenant_id = 1, fw_key = sample_key, fw_value = JString v, fw_valid_from = from,
      fw_visibility = [5], fw_confidentiality = Internal, fw_provenance = 10,
      fw_acl_provenance = Mirrored\<rparr>"

end
