(* ===== verification/Fact_Store.thy ===== *)
theory Fact_Store
  imports Database
begin

text \<open>
  L1 facts of the Postgres adapter (\<^verbatim>\<open>crates/verity-storage/src/postgres.rs\<close>): the keyed
  bi-temporal upsert, the scoped point reads, entity retirement and the in-place ACL
  correction, with the table invariant \<open>facts_ok\<close> and the history invariant \<open>history_ok\<close>.
\<close>

section \<open>Operations\<close>

definition of_key :: "tenant_id \<Rightarrow> fact_key \<Rightarrow> fact_row \<Rightarrow> bool" where
  "of_key t k r \<longleftrightarrow> fr_tenant_id r = t \<and> fr_key r = k"

definition is_current :: "fact_row \<Rightarrow> bool" where
  "is_current r \<longleftrightarrow> fr_valid_to r = None"

text \<open>\<^verbatim>\<open>SELECT ... WHERE key AND valid_to IS NULL\<close>, the first row of the result.\<close>

definition current_row :: "tenant_id \<Rightarrow> fact_key \<Rightarrow> fact_row list \<Rightarrow> fact_row option" where
  "current_row t k rows = List.find (\<lambda>r. of_key t k r \<and> is_current r) rows"

definition fact_row_of :: "instant \<Rightarrow> uuid \<Rightarrow> fact_write \<Rightarrow> instant option \<Rightarrow> fact_row" where
  "fact_row_of now rid w valid_to =
     \<lparr>fr_id = rid, fr_tenant_id = fw_tenant_id w, fr_key = fw_key w,
      fr_value = fw_value w, fr_valid_from = fw_valid_from w, fr_valid_to = valid_to,
      fr_superseded_by = None, fr_recorded_at = now, fr_visibility = fw_visibility w,
      fr_confidentiality = fw_confidentiality w, fr_provenance = fw_provenance w,
      fr_acl_provenance = fw_acl_provenance w\<rparr>"

definition insert_fact_row ::
  "instant \<Rightarrow> uuid \<Rightarrow> fact_write \<Rightarrow> instant option \<Rightarrow> database \<Rightarrow> storage_error + database" where
  "insert_fact_row now rid w valid_to db =
     (if fw_tenant_id w \<notin> set (db_tenants db)
      then Inl (constraint_error ''facts_tenant_id_fkey'')
      else if fw_provenance w \<notin> ep_id ` set (db_episodes db)
      then Inl (constraint_error ''facts_provenance_fkey'')
      else if rid \<in> fr_id ` set (db_facts db)
      then Inl (constraint_error ''facts_pkey'')
      else if valid_to = None \<and>
              current_row (fw_tenant_id w) (fw_key w) (db_facts db) \<noteq> None
      then Inl (constraint_error ''facts_current_key_idx'')
      else Inr (db\<lparr>db_facts := db_facts db @ [fact_row_of now rid w valid_to]\<rparr>))"

definition upsert_fact ::
  "instant \<Rightarrow> uuid \<Rightarrow> fact_write \<Rightarrow> database
   \<Rightarrow> storage_error + (fact_upsert_outcome \<times> database)" where
  "upsert_fact now new_id w db =
     and_then
       (case current_row (fw_tenant_id w) (fw_key w) (db_facts db) of
          None \<Rightarrow> and_then (insert_fact_row now new_id w None db) (\<lambda>db1. Inr (Inserted, db1))
        | Some row \<Rightarrow>
            if fr_value row = fw_value w then Inr (Unchanged, db)
            else if fw_valid_from w \<le> fr_valid_from row
            then and_then (insert_fact_row now new_id w (Some (fr_valid_from row)) db)
                   (\<lambda>db1. Inr (StaleEvent, db1))
            else
              let db1 = db\<lparr>db_facts := update_where (\<lambda>r. fr_id r = fr_id row)
                          (\<lambda>r. r\<lparr>fr_valid_to := Some (fw_valid_from w)\<rparr>) (db_facts db)\<rparr>
              in and_then (insert_fact_row now new_id w None db1)
                   (\<lambda>db2. Inr (Superseded,
                      db2\<lparr>db_facts := update_where (\<lambda>r. fr_id r = fr_id row)
                        (\<lambda>r. r\<lparr>fr_superseded_by := Some new_id\<rparr>) (db_facts db2)\<rparr>)))
       (\<lambda>(outcome, db').
          Inr (outcome,
            if outcome = Inserted \<or> outcome = Superseded
            then fst (mark_briefs_stale_tx (fw_tenant_id w) [fk_entity_id (fw_key w)] db')
            else db'))"

text \<open>The pushed-down predicate \<^verbatim>\<open>visibility && $tokens AND confidentiality <= $max\<close>.\<close>

definition sql_visible :: "scope \<Rightarrow> fact_row \<Rightarrow> bool" where
  "sql_visible sc r \<longleftrightarrow>
     set (fr_visibility r) \<inter> set (sc_principals sc) \<noteq> {} \<and>
     conf_code (fr_confidentiality r) \<le> conf_code (sc_max_confidentiality sc)"

definition current_fact :: "scope \<Rightarrow> fact_key \<Rightarrow> database \<Rightarrow> fact_row option" where
  "current_fact sc k db =
     (if sc_principals sc = [] then None
      else if sc_entity_scope sc \<noteq> [] \<and> fk_entity_id k \<notin> set (sc_entity_scope sc) then None
      else List.find (\<lambda>r. of_key (sc_tenant_id sc) k r \<and> is_current r \<and> sql_visible sc r)
             (db_facts db))"

text \<open>\<^verbatim>\<open>ORDER BY valid_from DESC LIMIT 1\<close>; rows of equal time keep their table order.\<close>

fun latest_from :: "fact_row list \<Rightarrow> fact_row option" where
  "latest_from [] = None"
| "latest_from (r # rs) =
     (case latest_from rs of None \<Rightarrow> Some r
      | Some s \<Rightarrow> if fr_valid_from s \<le> fr_valid_from r then Some r else Some s)"

definition valid_at :: "instant \<Rightarrow> fact_row \<Rightarrow> bool" where
  "valid_at t r \<longleftrightarrow> fr_valid_from r \<le> t \<and>
     (case fr_valid_to r of None \<Rightarrow> True | Some e \<Rightarrow> t < e)"

definition fact_as_of :: "scope \<Rightarrow> fact_key \<Rightarrow> instant \<Rightarrow> database \<Rightarrow> fact_row option" where
  "fact_as_of sc k as_of db =
     (if sc_principals sc = [] then None
      else if sc_entity_scope sc \<noteq> [] \<and> fk_entity_id k \<notin> set (sc_entity_scope sc) then None
      else latest_from
             (filter (\<lambda>r. of_key (sc_tenant_id sc) k r \<and> valid_at as_of r \<and> sql_visible sc r)
               (db_facts db)))"

definition retire_entity ::
  "tenant_id \<Rightarrow> string \<Rightarrow> string \<Rightarrow> instant \<Rightarrow> database \<Rightarrow> nat \<times> database" where
  "retire_entity t source entity_id deleted_at db =
     (let P = (\<lambda>r. fr_tenant_id r = t \<and> fk_source (fr_key r) = source \<and>
                   fk_entity_id (fr_key r) = entity_id \<and> is_current r)
      in (rows_affected P (db_facts db),
          db\<lparr>db_facts := update_where P (\<lambda>r. r\<lparr>fr_valid_to := Some deleted_at\<rparr>) (db_facts db)\<rparr>))"

definition current_fact_confidentiality ::
  "tenant_id \<Rightarrow> fact_key \<Rightarrow> database \<Rightarrow> confidentiality option" where
  "current_fact_confidentiality t k db =
     map_option fr_confidentiality (current_row t k (db_facts db))"

definition set_fact_acl :: "principal_token list \<Rightarrow> confidentiality \<Rightarrow> fact_row \<Rightarrow> fact_row" where
  "set_fact_acl vis conf r = r\<lparr>fr_visibility := vis, fr_confidentiality := conf\<rparr>"

definition correct_fact_acl ::
  "uuid \<Rightarrow> tenant_id \<Rightarrow> fact_key \<Rightarrow> principal_token list \<Rightarrow> confidentiality
   \<Rightarrow> acl_correction_reason \<Rightarrow> acl_provenance \<Rightarrow> string option \<Rightarrow> database
   \<Rightarrow> storage_error + (nat \<times> database)" where
  "correct_fact_acl audit_id t k new_vis new_conf reason prov changed_by db =
     (let current = current_row t k (db_facts db);
          audit = \<lparr>fa_id = audit_id, fa_tenant_id = t, fa_key = k,
                   fa_fact_id = map_option fr_id current,
                   fa_old_visibility = map_option fr_visibility current,
                   fa_new_visibility = new_vis,
                   fa_old_confidentiality = map_option fr_confidentiality current,
                   fa_new_confidentiality = new_conf,
                   fa_reason = acl_correction_reason_as_str reason,
                   fa_acl_provenance = acl_provenance_as_str prov,
                   fa_changed_by = changed_by\<rparr>
      in if t \<notin> set (db_tenants db) then Inl (constraint_error ''fact_acl_audit_tenant_id_fkey'')
         else if audit_id \<in> fa_id ` set (db_fact_acl_audit db)
         then Inl (constraint_error ''fact_acl_audit_pkey'')
         else Inr (rows_affected (of_key t k) (db_facts db),
           db\<lparr>db_facts := update_where (of_key t k) (set_fact_acl new_vis new_conf) (db_facts db),
              db_fact_acl_audit := db_fact_acl_audit db @ [audit]\<rparr>))"

section \<open>The table invariant\<close>

text \<open>
  Row ids are unique, there is at most one current row per key (the partial unique index), and
  every row points at an existing tenant and episode.
\<close>

definition current_keys :: "fact_row list \<Rightarrow> (tenant_id \<times> fact_key) list" where
  "current_keys rows = map (\<lambda>r. (fr_tenant_id r, fr_key r)) (filter is_current rows)"

definition facts_ok :: "database \<Rightarrow> bool" where
  "facts_ok db \<longleftrightarrow>
     distinct (map fr_id (db_facts db)) \<and>
     distinct (current_keys (db_facts db)) \<and>
     list_all (\<lambda>r. fr_tenant_id r \<in> set (db_tenants db)) (db_facts db) \<and>
     list_all (\<lambda>r. fr_provenance r \<in> ep_id ` set (db_episodes db)) (db_facts db)"

definition close_fact :: "instant \<Rightarrow> uuid \<Rightarrow> fact_row \<Rightarrow> fact_row" where
  "close_fact t nid r = r\<lparr>fr_valid_to := Some t, fr_superseded_by := Some nid\<rparr>"

lemma fact_row_of_sel [simp]:
  "fr_id (fact_row_of now i w v) = i"
  "fr_tenant_id (fact_row_of now i w v) = fw_tenant_id w"
  "fr_key (fact_row_of now i w v) = fw_key w"
  "fr_value (fact_row_of now i w v) = fw_value w"
  "fr_valid_from (fact_row_of now i w v) = fw_valid_from w"
  "fr_valid_to (fact_row_of now i w v) = v"
  "fr_visibility (fact_row_of now i w v) = fw_visibility w"
  "fr_confidentiality (fact_row_of now i w v) = fw_confidentiality w"
  "fr_provenance (fact_row_of now i w v) = fw_provenance w"
  by (simp_all add: fact_row_of_def)

lemma close_fact_sel [simp]:
  "fr_id (close_fact t n r) = fr_id r"
  "fr_tenant_id (close_fact t n r) = fr_tenant_id r"
  "fr_key (close_fact t n r) = fr_key r"
  "fr_value (close_fact t n r) = fr_value r"
  "fr_valid_from (close_fact t n r) = fr_valid_from r"
  "fr_valid_to (close_fact t n r) = Some t"
  "fr_visibility (close_fact t n r) = fr_visibility r"
  "fr_confidentiality (close_fact t n r) = fr_confidentiality r"
  "fr_provenance (close_fact t n r) = fr_provenance r"
  by (simp_all add: close_fact_def)

lemma set_fact_acl_sel [simp]:
  "fr_id (set_fact_acl v c r) = fr_id r"
  "fr_tenant_id (set_fact_acl v c r) = fr_tenant_id r"
  "fr_key (set_fact_acl v c r) = fr_key r"
  "fr_value (set_fact_acl v c r) = fr_value r"
  "fr_valid_from (set_fact_acl v c r) = fr_valid_from r"
  "fr_valid_to (set_fact_acl v c r) = fr_valid_to r"
  "fr_visibility (set_fact_acl v c r) = v"
  "fr_confidentiality (set_fact_acl v c r) = c"
  "fr_provenance (set_fact_acl v c r) = fr_provenance r"
  by (simp_all add: set_fact_acl_def)

lemma of_key_sel [simp]:
  "of_key t k (fact_row_of now i w v) \<longleftrightarrow> fw_tenant_id w = t \<and> fw_key w = k"
  "of_key t k (close_fact e n r) \<longleftrightarrow> of_key t k r"
  "of_key t k (set_fact_acl vis c r) \<longleftrightarrow> of_key t k r"
  by (simp_all add: of_key_def)

lemma is_current_sel [simp]:
  "is_current (fact_row_of now i w v) \<longleftrightarrow> v = None"
  "\<not> is_current (close_fact e n r)"
  "is_current (set_fact_acl vis c r) \<longleftrightarrow> is_current r"
  by (simp_all add: is_current_def)

lemma current_row_Some:
  "current_row t k rows = Some r \<Longrightarrow> r \<in> set rows \<and> of_key t k r \<and> is_current r"
  unfolding current_row_def by (drule find_Some_filter) simp

lemma current_row_None:
  "current_row t k rows = None \<longleftrightarrow> (\<forall>r \<in> set rows. \<not> (of_key t k r \<and> is_current r))"
  by (simp add: current_row_def find_None_filter)

lemma current_unique:
  assumes "distinct (current_keys rows)" "r \<in> set rows" "s \<in> set rows"
    and "is_current r" "is_current s" "fr_tenant_id r = fr_tenant_id s" "fr_key r = fr_key s"
  shows "r = s"
proof -
  have "inj_on (\<lambda>r. (fr_tenant_id r, fr_key r)) (set (filter is_current rows))"
    using assms(1) by (simp add: current_keys_def distinct_map)
  with assms(2-) show ?thesis by (auto simp: inj_on_def)
qed

lemma current_row_eqI:
  assumes "distinct (current_keys rows)" "r \<in> set rows" "of_key t k r" "is_current r"
  shows "current_row t k rows = Some r"
  unfolding current_row_def
proof (rule filter_unique_find)
  show "x = y" if "x \<in> set rows" "y \<in> set rows" "of_key t k x \<and> is_current x"
    "of_key t k y \<and> is_current y" for x y
    using that current_unique [OF assms(1)] by (simp add: of_key_def)
qed (use assms in auto)

text \<open>The four outcomes of an upsert, with the facts table each leaves behind.\<close>

lemma insert_fact_row_Inr:
  "insert_fact_row now i w v db = Inr db' \<longleftrightarrow>
     fw_tenant_id w \<in> set (db_tenants db) \<and> fw_provenance w \<in> ep_id ` set (db_episodes db) \<and>
     i \<notin> fr_id ` set (db_facts db) \<and>
     (v = None \<longrightarrow> current_row (fw_tenant_id w) (fw_key w) (db_facts db) = None) \<and>
     db' = db\<lparr>db_facts := db_facts db @ [fact_row_of now i w v]\<rparr>"
  unfolding insert_fact_row_def by (cases v) auto

lemma upsert_fact_cases:
  assumes "upsert_fact now nid w db = Inr (oc, db')"
  obtains
    (Inserted) "oc = Inserted" "current_row (fw_tenant_id w) (fw_key w) (db_facts db) = None"
      "fw_tenant_id w \<in> set (db_tenants db)" "fw_provenance w \<in> ep_id ` set (db_episodes db)"
      "nid \<notin> fr_id ` set (db_facts db)"
      "db_facts db' = db_facts db @ [fact_row_of now nid w None]"
  | (Unchanged) row where "oc = Unchanged"
      "current_row (fw_tenant_id w) (fw_key w) (db_facts db) = Some row"
      "fr_value row = fw_value w" "db' = db"
  | (StaleEvent) row where "oc = StaleEvent"
      "current_row (fw_tenant_id w) (fw_key w) (db_facts db) = Some row"
      "fr_value row \<noteq> fw_value w" "fw_valid_from w \<le> fr_valid_from row"
      "fw_tenant_id w \<in> set (db_tenants db)" "fw_provenance w \<in> ep_id ` set (db_episodes db)"
      "nid \<notin> fr_id ` set (db_facts db)"
      "db_facts db' = db_facts db @ [fact_row_of now nid w (Some (fr_valid_from row))]"
  | (Superseded) row where "oc = Superseded"
      "current_row (fw_tenant_id w) (fw_key w) (db_facts db) = Some row"
      "fr_value row \<noteq> fw_value w" "fr_valid_from row < fw_valid_from w"
      "fw_tenant_id w \<in> set (db_tenants db)" "fw_provenance w \<in> ep_id ` set (db_episodes db)"
      "nid \<notin> fr_id ` set (db_facts db)"
      "db_facts db' = update_where (\<lambda>r. fr_id r = fr_id row) (close_fact (fw_valid_from w) nid)
                        (db_facts db) @ [fact_row_of now nid w None]"
proof (cases "current_row (fw_tenant_id w) (fw_key w) (db_facts db)")
  case None
  with assms obtain db1 where "insert_fact_row now nid w None db = Inr db1" "oc = Inserted"
    "db' = fst (mark_briefs_stale_tx (fw_tenant_id w) [fk_entity_id (fw_key w)] db1)"
    by (auto simp: upsert_fact_def and_then_Inr)
  with None show thesis by (intro that(1)) (auto simp: insert_fact_row_Inr)
next
  case (Some row)
  consider (same) "fr_value row = fw_value w"
    | (stale) "fr_value row \<noteq> fw_value w" "fw_valid_from w \<le> fr_valid_from row"
    | (newer) "fr_value row \<noteq> fw_value w" "fr_valid_from row < fw_valid_from w"
    by linarith
  then show thesis
  proof cases
    case same
    with Some assms show thesis by (intro that(2) [of row]) (auto simp: upsert_fact_def)
  next
    case stale
    with Some assms show thesis
      by (intro that(3) [of row]) (auto simp: upsert_fact_def and_then_Inr insert_fact_row_Inr)
  next
    case newer
    define closed where "closed = update_where (\<lambda>r. fr_id r = fr_id row)
        (\<lambda>r. r\<lparr>fr_valid_to := Some (fw_valid_from w)\<rparr>) (db_facts db)"
    from newer Some assms obtain db1 where
      ins: "insert_fact_row now nid w None (db\<lparr>db_facts := closed\<rparr>) = Inr db1" and
      oc: "oc = Superseded" and
      db': "db_facts db' = update_where (\<lambda>r. fr_id r = fr_id row)
              (\<lambda>r. r\<lparr>fr_superseded_by := Some nid\<rparr>) (db_facts db1)"
      by (auto simp: upsert_fact_def and_then_Inr closed_def [symmetric] Let_def)
    have "map fr_id closed = map fr_id (db_facts db)"
      unfolding closed_def by (rule update_where_keeps) simp
    then have ids: "fr_id ` set closed = fr_id ` set (db_facts db)" by (metis list.set_map)
    with ins have fresh: "nid \<notin> fr_id ` set (db_facts db)"
      and fk: "fw_tenant_id w \<in> set (db_tenants db)" "fw_provenance w \<in> ep_id ` set (db_episodes db)"
      and db1: "db_facts db1 = closed @ [fact_row_of now nid w None]"
      by (auto simp: insert_fact_row_Inr)
    from Some have "row \<in> set (db_facts db)" by (auto dest: current_row_Some)
    with fresh have "nid \<noteq> fr_id row" by auto
    then have "db_facts db' = update_where (\<lambda>r. fr_id r = fr_id row)
        (close_fact (fw_valid_from w) nid) (db_facts db) @ [fact_row_of now nid w None]"
      unfolding db' db1 closed_def update_where_def close_fact_def by simp
    with Some newer oc fk fresh show thesis by (intro that(4) [of row]) auto
  qed
qed

text \<open>An upsert changes no table but facts and briefs.\<close>

definition same_tables :: "database \<Rightarrow> database \<Rightarrow> bool" where
  "same_tables db db' \<longleftrightarrow>
     db_tenants db' = db_tenants db \<and> db_episodes db' = db_episodes db \<and>
     db_chunks db' = db_chunks db \<and> db_knowledge db' = db_knowledge db \<and>
     db_knowledge_evidence db' = db_knowledge_evidence db"

lemma same_tables_refl [simp]: "same_tables db db"
  by (simp add: same_tables_def)

lemma same_tables_facts [simp]:
  "same_tables db (db'\<lparr>db_facts := fs\<rparr>) \<longleftrightarrow> same_tables db db'"
  "same_tables db (fst (mark_briefs_stale_tx t es db')) \<longleftrightarrow> same_tables db db'"
  "same_tables (db\<lparr>db_facts := fs\<rparr>) db' \<longleftrightarrow> same_tables db db'"
  by (simp_all add: same_tables_def)

lemma insert_fact_row_tables: "insert_fact_row now i w v db = Inr db' \<Longrightarrow> same_tables db db'"
  by (simp add: insert_fact_row_Inr)

lemma upsert_fact_tables:
  assumes "upsert_fact now nid w db = Inr (oc, db')"
  shows "same_tables db db'"
proof (cases "current_row (fw_tenant_id w) (fw_key w) (db_facts db)")
  case None
  with assms show ?thesis
    by (auto simp: upsert_fact_def and_then_Inr dest!: insert_fact_row_tables)
next
  case (Some row)
  consider "fr_value row = fw_value w"
    | "fr_value row \<noteq> fw_value w" "fw_valid_from w \<le> fr_valid_from row"
    | "fr_value row \<noteq> fw_value w" "\<not> fw_valid_from w \<le> fr_valid_from row"
    by blast
  then show ?thesis
  proof cases
    case 3
    with assms Some show ?thesis
      by (auto simp: upsert_fact_def and_then_Inr Let_def dest!: insert_fact_row_tables)
  qed (use assms Some in \<open>auto simp: upsert_fact_def and_then_Inr dest!: insert_fact_row_tables\<close>)
qed

lemma upsert_fact_tenants: "upsert_fact now nid w db = Inr (oc, db') \<Longrightarrow> db_tenants db' = db_tenants db"
  and upsert_fact_episodes: "upsert_fact now nid w db = Inr (oc, db') \<Longrightarrow> db_episodes db' = db_episodes db"
  by (drule upsert_fact_tables, simp add: same_tables_def)+

section \<open>Preservation\<close>

lemma current_keys_close:
  assumes "\<And>r. P r \<Longrightarrow> \<not> is_current (f r)"
  shows "current_keys (update_where P f rows) = current_keys (filter (\<lambda>r. \<not> P r) rows)"
  using assms by (induction rows) (auto simp: current_keys_def)

lemma distinct_current_keys_filter:
  "distinct (current_keys rows) \<Longrightarrow> distinct (current_keys (filter P rows))"
  by (induction rows) (auto simp: current_keys_def)

lemma current_keys_append [simp]: "current_keys (xs @ ys) = current_keys xs @ current_keys ys"
  by (simp add: current_keys_def)

lemma in_current_keys:
  "(t, k) \<in> set (current_keys rows) \<longleftrightarrow> (\<exists>r \<in> set rows. of_key t k r \<and> is_current r)"
  by (auto simp: current_keys_def of_key_def)

lemma current_keys_single [simp]:
  "current_keys [r] = (if is_current r then [(fr_tenant_id r, fr_key r)] else [])"
  by (simp add: current_keys_def)

text \<open>A statement that closes rows, keeping their identity and links, keeps the invariant.\<close>

lemma facts_ok_close:
  assumes ok: "facts_ok db"
    and f: "\<And>r. fr_id (f r) = fr_id r" "\<And>r. fr_tenant_id (f r) = fr_tenant_id r"
      "\<And>r. fr_provenance (f r) = fr_provenance r" "\<And>r. \<not> is_current (f r)"
    and db': "db_facts db' = update_where P f (db_facts db)"
      "db_tenants db' = db_tenants db" "db_episodes db' = db_episodes db"
  shows "facts_ok db'"
proof -
  have "map fr_id (db_facts db') = map fr_id (db_facts db)"
    unfolding db' by (rule update_where_keeps) (rule f)
  moreover have "distinct (current_keys (db_facts db'))"
    using ok f(4) unfolding db'
    by (simp add: current_keys_close facts_ok_def distinct_current_keys_filter)
  moreover have "list_all (\<lambda>r. fr_tenant_id r \<in> set (db_tenants db)) (db_facts db')"
    "list_all (\<lambda>r. fr_provenance r \<in> ep_id ` set (db_episodes db)) (db_facts db')"
    using ok f(2,3) unfolding db' by (simp_all add: facts_ok_def list_all_update_where)
  ultimately show ?thesis using ok db' by (simp add: facts_ok_def)
qed

lemma facts_ok_append:
  assumes "facts_ok db" "fw_tenant_id w \<in> set (db_tenants db)"
    "fw_provenance w \<in> ep_id ` set (db_episodes db)" "nid \<notin> fr_id ` set (db_facts db)"
    "v = None \<Longrightarrow> current_row (fw_tenant_id w) (fw_key w) (db_facts db) = None"
    "db_facts db' = db_facts db @ [fact_row_of now nid w v]"
    "db_tenants db' = db_tenants db" "db_episodes db' = db_episodes db"
  shows "facts_ok db'"
proof -
  have "(fw_tenant_id w, fw_key w) \<notin> set (current_keys (db_facts db))" if "v = None"
    using assms(5) [OF that] by (simp add: current_row_None in_current_keys)
  with assms(1-4,6-) show ?thesis by (cases v) (simp_all add: facts_ok_def)
qed

lemma closed_current_row:
  assumes ok: "facts_ok db" and row: "current_row t k (db_facts db) = Some row"
    and f: "\<And>r. \<not> is_current (f r)"
  shows "current_row t k (update_where (\<lambda>r. fr_id r = fr_id row) f (db_facts db)) = None"
  unfolding current_row_None
proof (intro ballI notI)
  fix r assume r: "r \<in> set (update_where (\<lambda>r. fr_id r = fr_id row) f (db_facts db))"
    "of_key t k r \<and> is_current r"
  have cur: "row \<in> set (db_facts db)" "of_key t k row" "is_current row"
    using row by (auto dest: current_row_Some)
  from r(1) show False
  proof (cases rule: mem_update_where)
    case (1 c)
    with r(2) f show False by simp
  next
    case 2
    have "r = row"
      using r(2) cur ok 2(1)
      by (intro current_unique [of "db_facts db"]) (simp_all add: facts_ok_def of_key_def)
    with 2 show False by simp
  qed
qed

lemma facts_ok_upsert [verity_inv]:
  assumes ok: "facts_ok db" and up: "upsert_fact now nid w db = Inr (oc, db')"
  shows "facts_ok db'"
proof -
  note tabs = upsert_fact_tenants [OF up] upsert_fact_episodes [OF up]
  from up show ?thesis
  proof (cases rule: upsert_fact_cases)
    case Inserted
    show ?thesis by (rule facts_ok_append [OF ok Inserted(3-5,2,6) tabs])
  next
    case (Unchanged row)
    with ok show ?thesis by simp
  next
    case (StaleEvent row)
    show ?thesis by (rule facts_ok_append [OF ok StaleEvent(5-7) _ StaleEvent(8) tabs]) simp
  next
    case (Superseded row)
    let ?rows = "update_where (\<lambda>r. fr_id r = fr_id row) (close_fact (fw_valid_from w) nid) (db_facts db)"
    have mid: "facts_ok (db\<lparr>db_facts := ?rows\<rparr>)"
      by (rule facts_ok_close [OF ok, where f = "close_fact (fw_valid_from w) nid"]) auto
    have "current_row (fw_tenant_id w) (fw_key w) ?rows = None"
      by (rule closed_current_row [OF ok Superseded(2)]) simp
    moreover have "map fr_id ?rows = map fr_id (db_facts db)" by (rule update_where_keeps) simp
    then have "fr_id ` set ?rows = fr_id ` set (db_facts db)" by (metis list.set_map)
    ultimately show ?thesis
      using Superseded(5-7) tabs
      by (intro facts_ok_append [OF mid _ _ _ _ _ _ _, where v = None and nid = nid and w = w and now = now])
        (simp_all add: Superseded(8))
  qed
qed

lemma facts_ok_retire_entity [verity_inv]:
  "facts_ok db \<Longrightarrow> facts_ok (snd (retire_entity t s e da db))"
  by (rule facts_ok_close [where f = "\<lambda>r. r\<lparr>fr_valid_to := Some da\<rparr>"])
    (simp_all add: retire_entity_def is_current_def Let_def)

lemma current_keys_same:
  assumes "\<And>r. P r \<Longrightarrow> is_current (f r) = is_current r"
    "\<And>r. P r \<Longrightarrow> fr_tenant_id (f r) = fr_tenant_id r" "\<And>r. P r \<Longrightarrow> fr_key (f r) = fr_key r"
  shows "current_keys (update_where P f rows) = current_keys rows"
  using assms by (induction rows) (simp_all add: current_keys_def)

lemma correct_fact_acl_Inr:
  assumes "correct_fact_acl a t k vis conf re p cb db = Inr (n, db')"
  shows "n = rows_affected (of_key t k) (db_facts db)"
    and "db_facts db' = update_where (of_key t k) (set_fact_acl vis conf) (db_facts db)"
    and "db_tenants db' = db_tenants db" and "db_episodes db' = db_episodes db"
    and "length (db_fact_acl_audit db') = length (db_fact_acl_audit db) + 1"
  using assms by (auto simp: correct_fact_acl_def Let_def split: if_splits)

lemma facts_ok_correct_fact_acl [verity_inv]:
  assumes ok: "facts_ok db" and c: "correct_fact_acl a t k vis conf re p cb db = Inr (n, db')"
  shows "facts_ok db'"
proof -
  note eqs = correct_fact_acl_Inr [OF c]
  have "map fr_id (db_facts db') = map fr_id (db_facts db)"
    unfolding eqs(2) by (rule update_where_keeps) simp
  moreover have "current_keys (db_facts db') = current_keys (db_facts db)"
    unfolding eqs(2) by (rule current_keys_same) simp_all
  ultimately show ?thesis
    using ok unfolding facts_ok_def eqs by (simp add: list_all_update_where)
qed

section \<open>Upserts return, and implement a keyed register\<close>

lemma upsert_fact_returns:
  assumes ok: "facts_ok db" and t: "fw_tenant_id w \<in> set (db_tenants db)"
    and p: "fw_provenance w \<in> ep_id ` set (db_episodes db)"
    and fresh: "nid \<notin> fr_id ` set (db_facts db)"
  shows "\<exists>oc db'. upsert_fact now nid w db = Inr (oc, db')"
proof (cases "current_row (fw_tenant_id w) (fw_key w) (db_facts db)")
  case None
  with t p fresh show ?thesis by (simp add: upsert_fact_def insert_fact_row_def)
next
  case (Some row)
  let ?f = "\<lambda>r. r\<lparr>fr_valid_to := Some (fw_valid_from w)\<rparr>"
  let ?rows = "update_where (\<lambda>r. fr_id r = fr_id row) ?f (db_facts db)"
  have "current_row (fw_tenant_id w) (fw_key w) ?rows = None"
    by (rule closed_current_row [OF ok Some]) (simp add: is_current_def)
  moreover have "map fr_id ?rows = map fr_id (db_facts db)" by (rule update_where_keeps) simp
  then have "fr_id ` set ?rows = fr_id ` set (db_facts db)" by (metis list.set_map)
  ultimately have "insert_fact_row now nid w None (db\<lparr>db_facts := ?rows\<rparr>) =
      Inr (db\<lparr>db_facts := ?rows @ [fact_row_of now nid w None]\<rparr>)"
    using t p fresh by (simp add: insert_fact_row_def)
  with Some t p fresh show ?thesis
    by (cases "fr_value row = fw_value w"; cases "fw_valid_from w \<le> fr_valid_from row")
      (simp_all add: upsert_fact_def insert_fact_row_def Let_def)
qed

text \<open>
  What the fact table promises its readers: a register per key that a write replaces when it
  is newer and different.
\<close>

definition abs_facts :: "database \<Rightarrow> tenant_id \<times> fact_key \<Rightarrow> fact_row option" where
  "abs_facts db tk = current_row (fst tk) (snd tk) (db_facts db)"

definition register_upsert ::
  "fact_write \<Rightarrow> fact_row \<Rightarrow> (tenant_id \<times> fact_key \<Rightarrow> fact_row option)
   \<Rightarrow> fact_upsert_outcome \<times> (tenant_id \<times> fact_key \<Rightarrow> fact_row option)" where
  "register_upsert w new m =
     (let key = (fw_tenant_id w, fw_key w)
      in case m key of
           None \<Rightarrow> (Inserted, m(key \<mapsto> new))
         | Some cur \<Rightarrow>
             if fr_value cur = fw_value w then (Unchanged, m)
             else if fw_valid_from w \<le> fr_valid_from cur then (StaleEvent, m)
             else (Superseded, m(key \<mapsto> new)))"

lemma current_row_append:
  "current_row t k (rows @ [r]) =
     (case current_row t k rows of Some s \<Rightarrow> Some s
      | None \<Rightarrow> if of_key t k r \<and> is_current r then Some r else None)"
  by (simp add: current_row_def find_append split: option.split)

lemma current_row_close_other:
  assumes "\<And>r. r \<in> set rows \<Longrightarrow> P r \<Longrightarrow> \<not> of_key t k r"
    "\<And>r. of_key t k (f r) = of_key t k r"
  shows "current_row t k (update_where P f rows) = current_row t k rows"
  using assms by (induction rows) (auto simp: current_row_def)

lemma upsert_fact_register:
  assumes ok: "facts_ok db" and up: "upsert_fact now nid w db = Inr (oc, db')"
  shows "(oc, abs_facts db') = register_upsert w (fact_row_of now nid w None) (abs_facts db)"
  using up
proof (cases rule: upsert_fact_cases)
  case Inserted
  then show ?thesis
    by (auto simp: register_upsert_def Let_def abs_facts_def current_row_append fun_eq_iff
        split: option.split)
next
  case (Unchanged row)
  then show ?thesis by (simp add: register_upsert_def abs_facts_def)
next
  case (StaleEvent row)
  have "abs_facts db' = abs_facts db"
    unfolding abs_facts_def StaleEvent(8) by (simp add: current_row_append fun_eq_iff split: option.split)
  with StaleEvent show ?thesis by (simp add: register_upsert_def abs_facts_def)
next
  case (Superseded row)
  let ?rows = "update_where (\<lambda>r. fr_id r = fr_id row) (close_fact (fw_valid_from w) nid) (db_facts db)"
  let ?key = "(fw_tenant_id w, fw_key w)"
  have none: "current_row (fw_tenant_id w) (fw_key w) ?rows = None"
    by (rule closed_current_row [OF ok Superseded(2)]) simp
  have other: "current_row t k ?rows = current_row t k (db_facts db)"
    if "(t, k) \<noteq> ?key" for t k
  proof (rule current_row_close_other)
    fix r assume r: "r \<in> set (db_facts db)" "fr_id r = fr_id row"
    have "row \<in> set (db_facts db)" "of_key (fw_tenant_id w) (fw_key w) row"
      using Superseded(2) by (auto dest: current_row_Some)
    moreover from ok this(1) r have "r = row"
      by (auto simp: facts_ok_def distinct_map inj_on_def)
    ultimately show "\<not> of_key t k r" using that by (auto simp: of_key_def)
  qed simp
  have "abs_facts db' tk = ((abs_facts db)(?key \<mapsto> fact_row_of now nid w None)) tk" for tk
    using none other [of "fst tk" "snd tk"] Superseded(8)
    by (cases "tk = ?key") (auto simp: abs_facts_def current_row_append split: option.split)
  then have "abs_facts db' = (abs_facts db)(?key \<mapsto> fact_row_of now nid w None)"
    by (simp add: fun_eq_iff)
  with Superseded(1-4) show ?thesis by (simp add: register_upsert_def abs_facts_def)
qed

section \<open>Scoped reads\<close>

text \<open>The fences of the reads and the pushed-down predicate together are \<open>fact_visible\<close>.\<close>

lemma fact_visible_sql:
  assumes "of_key t k r"
  shows "fact_visible sc r \<longleftrightarrow> sc_principals sc \<noteq> [] \<and>
    \<not> (sc_entity_scope sc \<noteq> [] \<and> fk_entity_id k \<notin> set (sc_entity_scope sc)) \<and> sql_visible sc r"
  using assms by (auto simp: fact_visible_iff sql_visible_def of_key_def)

lemma current_fact_find:
  "current_fact sc k db =
     List.find (\<lambda>r. of_key (sc_tenant_id sc) k r \<and> is_current r \<and> fact_visible sc r) (db_facts db)"
proof -
  have vis: "(of_key (sc_tenant_id sc) k r \<and> is_current r \<and> fact_visible sc r) =
      (of_key (sc_tenant_id sc) k r \<and> is_current r \<and> sc_principals sc \<noteq> [] \<and>
       \<not> (sc_entity_scope sc \<noteq> [] \<and> fk_entity_id k \<notin> set (sc_entity_scope sc)) \<and> sql_visible sc r)"
    for r using fact_visible_sql by blast
  have "List.find (\<lambda>r. False) rows = None" for rows :: "fact_row list"
    by (simp add: find_None_filter)
  then show ?thesis unfolding vis current_fact_def by auto
qed

lemma current_fact_register:
  assumes "facts_ok db"
  shows "current_fact sc k db =
    (case abs_facts db (sc_tenant_id sc, k) of None \<Rightarrow> None
     | Some r \<Rightarrow> if fact_visible sc r then Some r else None)"
proof (cases "abs_facts db (sc_tenant_id sc, k)")
  case None
  then have "current_fact sc k db = None"
    by (auto simp: current_fact_find abs_facts_def current_row_None find_None_filter)
  with None show ?thesis by simp
next
  case (Some r)
  then have r: "r \<in> set (db_facts db)" "of_key (sc_tenant_id sc) k r" "is_current r"
    by (auto simp: abs_facts_def dest: current_row_Some)
  have same: "s = r" if "s \<in> set (db_facts db)" "of_key (sc_tenant_id sc) k s" "is_current s" for s
    using that r assms
    by (intro current_unique [of "db_facts db"]) (simp_all add: facts_ok_def of_key_def)
  show ?thesis
  proof (cases "fact_visible sc r")
    case True
    with r same have "current_fact sc k db = Some r"
      unfolding current_fact_find by (intro filter_unique_find) metis+
    with Some True show ?thesis by simp
  next
    case False
    with same have "current_fact sc k db = None"
      unfolding current_fact_find find_None_filter by blast
    with Some False show ?thesis by simp
  qed
qed

lemma latest_from_None: "latest_from rs = None \<longleftrightarrow> rs = []"
  by (cases rs) (auto split: option.split)

lemma latest_from_Some:
  "latest_from rs = Some r \<Longrightarrow> r \<in> set rs \<and> (\<forall>s \<in> set rs. fr_valid_from s \<le> fr_valid_from r)"
proof (induction rs arbitrary: r)
  case (Cons a rs)
  then show ?case
    by (cases "latest_from rs") (force simp: latest_from_None split: if_splits)+
qed simp

lemma fact_as_of_filter:
  "fact_as_of sc k t db = latest_from
     (filter (\<lambda>r. of_key (sc_tenant_id sc) k r \<and> valid_at t r \<and> fact_visible sc r) (db_facts db))"
proof -
  have vis: "(of_key (sc_tenant_id sc) k r \<and> valid_at t r \<and> fact_visible sc r) =
      (of_key (sc_tenant_id sc) k r \<and> valid_at t r \<and> sc_principals sc \<noteq> [] \<and>
       \<not> (sc_entity_scope sc \<noteq> [] \<and> fk_entity_id k \<notin> set (sc_entity_scope sc)) \<and> sql_visible sc r)"
    for r using fact_visible_sql by blast
  show ?thesis unfolding vis fact_as_of_def by auto
qed

lemma fact_as_of_Some:
  assumes "fact_as_of sc k t db = Some r"
  shows "r \<in> set (db_facts db)" "of_key (sc_tenant_id sc) k r" "valid_at t r" "fact_visible sc r"
  using latest_from_Some [OF assms [unfolded fact_as_of_filter]] by auto

section \<open>History\<close>

text \<open>
  Upserts and ACL corrections leave every closed row ending, not before its own start, where a
  row of its key starts that holds for more than an instant.
\<close>

definition lasting :: "fact_row \<Rightarrow> bool" where
  "lasting r \<longleftrightarrow> (case fr_valid_to r of None \<Rightarrow> True | Some e \<Rightarrow> fr_valid_from r < e)"

definition history_ok :: "fact_row list \<Rightarrow> bool" where
  "history_ok rows \<longleftrightarrow>
     (\<forall>r \<in> set rows. case fr_valid_to r of None \<Rightarrow> True
        | Some e \<Rightarrow> fr_valid_from r \<le> e \<and>
            (\<exists>s \<in> set rows. of_key (fr_tenant_id r) (fr_key r) s \<and> fr_valid_from s = e \<and> lasting s))"

inductive upsert_history :: "database \<Rightarrow> bool" where
  start: "db_facts db = [] \<Longrightarrow> upsert_history db"
| upsert: "upsert_history db \<Longrightarrow> upsert_fact now nid w db = Inr (oc, db') \<Longrightarrow> upsert_history db'"
| correct: "upsert_history db \<Longrightarrow> correct_fact_acl a t k vis conf re p cb db = Inr (n, db') \<Longrightarrow>
    upsert_history db'"

lemma upsert_history_ok: "upsert_history db \<Longrightarrow> facts_ok db"
proof (induction rule: upsert_history.induct)
  case (start db)
  then show ?case by (simp add: facts_ok_def current_keys_def)
qed (auto intro: facts_ok_upsert facts_ok_correct_fact_acl)

text \<open>A table of the same keys and start times, whose closed rows were closed before, is a history.\<close>

lemma history_okI:
  assumes "\<And>r e. r \<in> set rows \<Longrightarrow> fr_valid_to r = Some e \<Longrightarrow> fr_valid_from r \<le> e \<and>
     (\<exists>s \<in> set rows. of_key (fr_tenant_id r) (fr_key r) s \<and> fr_valid_from s = e \<and> lasting s)"
  shows "history_ok rows"
  using assms by (auto simp: history_ok_def split: option.split)

lemma history_okD:
  assumes "history_ok rows" "r \<in> set rows" "fr_valid_to r = Some e"
  obtains s where "fr_valid_from r \<le> e" "s \<in> set rows" "of_key (fr_tenant_id r) (fr_key r) s"
    "fr_valid_from s = e" "lasting s"
  using assms by (force simp: history_ok_def)

lemma history_ok_append:
  assumes "history_ok rows"
    and "\<And>e. fr_valid_to n = Some e \<Longrightarrow> fr_valid_from n \<le> e \<and>
      (\<exists>s \<in> set rows. of_key (fr_tenant_id n) (fr_key n) s \<and> fr_valid_from s = e \<and> lasting s)"
  shows "history_ok (rows @ [n])"
proof (rule history_okI)
  fix r e assume "r \<in> set (rows @ [n])" "fr_valid_to r = Some e"
  then consider "r \<in> set rows" | "r = n" by auto
  then show "fr_valid_from r \<le> e \<and>
      (\<exists>s \<in> set (rows @ [n]). of_key (fr_tenant_id r) (fr_key r) s \<and> fr_valid_from s = e \<and> lasting s)"
  proof cases
    case 1
    with assms(1) \<open>fr_valid_to r = Some e\<close> show ?thesis by (auto elim!: history_okD)
  next
    case 2
    with assms(2) \<open>fr_valid_to r = Some e\<close> show ?thesis by auto
  qed
qed

lemma history_ok_supersede:
  assumes h: "history_ok rows"
    and P: "\<And>r. r \<in> set rows \<Longrightarrow> P r \<Longrightarrow> of_key (fr_tenant_id n) (fr_key n) r \<and> fr_valid_from r < fr_valid_from n"
    and n: "fr_valid_to n = None"
  shows "history_ok (update_where P (close_fact (fr_valid_from n) i) rows @ [n])" (is "history_ok ?new")
proof (rule history_okI)
  fix r e assume r: "r \<in> set ?new" "fr_valid_to r = Some e"
  with n have "r \<in> set (update_where P (close_fact (fr_valid_from n) i) rows)" by auto
  then show "fr_valid_from r \<le> e \<and>
      (\<exists>s \<in> set ?new. of_key (fr_tenant_id r) (fr_key r) s \<and> fr_valid_from s = e \<and> lasting s)"
  proof (cases rule: mem_update_where)
    case (1 c)
    with P [of c] r(2) n show ?thesis by (auto simp: of_key_def lasting_def)
  next
    case 2
    from h 2(1) r(2) obtain s where s: "fr_valid_from r \<le> e" "s \<in> set rows"
      "of_key (fr_tenant_id r) (fr_key r) s" "fr_valid_from s = e" "lasting s" by (rule history_okD)
    let ?s = "if P s then close_fact (fr_valid_from n) i s else s"
    from s(2) have "?s \<in> set ?new" by (auto simp: set_update_where)
    moreover from s(3,4) have "of_key (fr_tenant_id r) (fr_key r) ?s" "fr_valid_from ?s = e" by auto
    moreover from s(2,5) P have "lasting ?s" by (auto simp: lasting_def)
    ultimately show ?thesis using s(1) by blast
  qed
qed

lemma history_ok_same:
  assumes h: "history_ok rows"
    and f: "\<And>r. fr_valid_from (f r) = fr_valid_from r" "\<And>r. fr_valid_to (f r) = fr_valid_to r"
      "\<And>r. fr_tenant_id (f r) = fr_tenant_id r" "\<And>r. fr_key (f r) = fr_key r"
  shows "history_ok (map f rows)"
proof (rule history_okI)
  fix r e assume "r \<in> set (map f rows)" "fr_valid_to r = Some e"
  then obtain c where c: "c \<in> set rows" "r = f c" "fr_valid_to c = Some e" using f by auto
  from h c(1,3) obtain s where "fr_valid_from c \<le> e" "s \<in> set rows"
    "of_key (fr_tenant_id c) (fr_key c) s" "fr_valid_from s = e" "lasting s" by (rule history_okD)
  moreover have "lasting (f u) = lasting u" for u by (simp add: lasting_def f split: option.split)
  ultimately show "fr_valid_from r \<le> e \<and>
      (\<exists>s \<in> set (map f rows). of_key (fr_tenant_id r) (fr_key r) s \<and> fr_valid_from s = e \<and> lasting s)"
    using c f by (auto simp: of_key_def intro!: bexI [of _ s])
qed

lemma upsert_history_history: "upsert_history db \<Longrightarrow> history_ok (db_facts db)"
proof (induction rule: upsert_history.induct)
  case (start db)
  then show ?case by (simp add: history_ok_def)
next
  case (upsert db now nid w oc db')
  note ok = upsert_history_ok [OF upsert.hyps(1)]
  from upsert.hyps(2) show ?case
  proof (cases rule: upsert_fact_cases)
    case Inserted
    from upsert.IH show ?thesis unfolding Inserted(6) by (rule history_ok_append) simp
  next
    case (Unchanged row)
    with upsert.IH show ?thesis by simp
  next
    case (StaleEvent row)
    have "row \<in> set (db_facts db)" "of_key (fw_tenant_id w) (fw_key w) row" "lasting row"
      using StaleEvent(2) by (auto simp: lasting_def is_current_def dest: current_row_Some)
    with upsert.IH StaleEvent(4) show ?thesis
      unfolding StaleEvent(8) by (intro history_ok_append) auto
  next
    case (Superseded row)
    have row: "row \<in> set (db_facts db)" "of_key (fw_tenant_id w) (fw_key w) row"
      using Superseded(2) by (auto dest: current_row_Some)
    have "r = row" if "r \<in> set (db_facts db)" "fr_id r = fr_id row" for r
      using ok row(1) that by (auto simp: facts_ok_def distinct_map inj_on_def)
    with row Superseded(4) history_ok_supersede [OF upsert.IH, where n = "fact_row_of now nid w None"
        and P = "\<lambda>r. fr_id r = fr_id row" and i = nid]
    show ?thesis unfolding Superseded(8) by force
  qed
next
  case (correct db a t k vis conf re p cb n db')
  from history_ok_same [OF correct.IH, of "\<lambda>r. if of_key t k r then set_fact_acl vis conf r else r"]
  show ?case unfolding correct_fact_acl_Inr(2) [OF correct.hyps(2)] update_where_def by simp
qed

text \<open>
  In a history, the rows that had started by \<open>t\<close> have a latest start whose holder is still
  valid at \<open>t\<close>: a closed row ends where a later one starts.
\<close>

lemma history_latest_valid:
  assumes h: "history_ok rows" and r: "r \<in> set rows" "of_key tn k r" "fr_valid_from r \<le> t"
  shows "\<exists>s \<in> set rows. of_key tn k s \<and> valid_at t s \<and> fr_valid_from r \<le> fr_valid_from s"
proof (rule ccontr)
  assume none: "\<not> ?thesis"
  let ?S = "{s \<in> set rows. of_key tn k s \<and> fr_valid_from s \<le> t \<and> fr_valid_from r \<le> fr_valid_from s}"
  have next_row: "\<exists>u e. fr_valid_to s = Some e \<and> u \<in> ?S \<and> fr_valid_from u = e \<and>
      fr_valid_from s \<le> e \<and> lasting u" if s: "s \<in> ?S" for s
  proof -
    from none s have "\<not> valid_at t s" by auto
    with s obtain e where e: "fr_valid_to s = Some e" "e \<le> t"
      by (cases "fr_valid_to s") (auto simp: valid_at_def)
    from s have "s \<in> set rows" by simp
    from h this e(1) obtain u where "fr_valid_from s \<le> e" "u \<in> set rows"
      "of_key (fr_tenant_id s) (fr_key s) u" "fr_valid_from u = e" "lasting u" by (rule history_okD)
    with s e show ?thesis by (auto simp: of_key_def)
  qed
  have fin: "finite (fr_valid_from ` ?S)" by simp
  have le_Max: "fr_valid_from u \<le> Max (fr_valid_from ` ?S)" if "u \<in> ?S" for u
    by (rule Max_ge [OF fin]) (use that in blast)
  have "Max (fr_valid_from ` ?S) \<in> fr_valid_from ` ?S" by (rule Max_in [OF fin]) (use r in auto)
  then obtain s where s: "s \<in> ?S" "fr_valid_from s = Max (fr_valid_from ` ?S)" by auto
  from next_row [OF s(1)] obtain u where u: "u \<in> ?S" "fr_valid_from s \<le> fr_valid_from u" "lasting u"
    by auto
  from next_row [OF u(1)] obtain v where v: "v \<in> ?S" "fr_valid_to u = Some (fr_valid_from v)" by auto
  have "fr_valid_from u < fr_valid_from v" using u(3) v(2) by (simp add: lasting_def)
  with le_Max [OF v(1)] s(2) u(2) show False by linarith
qed

text \<open>Sample data: the stage of one deal, opened and then won.\<close>

definition sample_fact_rows :: "fact_row list" where
  "sample_fact_rows =
     [close_fact 20 2 (fact_row_of 0 1 (sample_write ''open'' 10) None),
      fact_row_of 0 2 (sample_write ''won'' 20) None]"

definition sample_facts_db :: database where
  "sample_facts_db = sample_db\<lparr>db_facts := sample_fact_rows\<rparr>"

lemma sample_facts_ok: "facts_ok sample_facts_db"
  by code_simp

lemma sample_upserts:
  "upsert_fact 0 1 (sample_write ''open'' 10) sample_db =
     Inr (Inserted, sample_db\<lparr>db_facts := [fact_row_of 0 1 (sample_write ''open'' 10) None]\<rparr>)"
  "upsert_fact 0 2 (sample_write ''won'' 20)
       (sample_db\<lparr>db_facts := [fact_row_of 0 1 (sample_write ''open'' 10) None]\<rparr>) =
     Inr (Superseded, sample_facts_db)"
  by code_simp+

lemma sample_facts_history: "upsert_history sample_facts_db"
proof -
  have "upsert_history sample_db" by (rule upsert_history.start) code_simp
  from upsert_history.upsert [OF this sample_upserts(1)] show ?thesis
    by (rule upsert_history.upsert [OF _ sample_upserts(2)])
qed

section \<open>Properties\<close>

text \<open>
  C1: With the foreign keys in place and a fresh row id, an upsert never fails; the table keeps
  its invariant (unique ids, one current row per key, live links), and seen through the
  per-key register of current rows it does what the register's upsert does: insert, keep on an
  equal value, record as history when not newer, supersede otherwise.
\<close>

theorem upsert_fact_refines_register:
  assumes "facts_ok db" and "fw_tenant_id w \<in> set (db_tenants db)"
    and "fw_provenance w \<in> ep_id ` set (db_episodes db)" and "nid \<notin> fr_id ` set (db_facts db)"
  shows "\<exists>oc db'. upsert_fact now nid w db = Inr (oc, db') \<and> facts_ok db' \<and>
    (oc, abs_facts db') = register_upsert w (fact_row_of now nid w None) (abs_facts db)"
  using upsert_fact_returns [OF assms] facts_ok_upsert [OF assms(1)]
    upsert_fact_register [OF assms(1)] by metis

theorem upsert_fact_refines_register_witness:
  "facts_ok sample_facts_db \<and>
   (\<exists>oc db'. upsert_fact 0 3 (sample_write ''lost'' 15) sample_facts_db = Inr (oc, db') \<and> facts_ok db' \<and>
     (oc, abs_facts db') = register_upsert (sample_write ''lost'' 15)
       (fact_row_of 0 3 (sample_write ''lost'' 15) None) (abs_facts sample_facts_db))"
  by (intro conjI sample_facts_ok
      upsert_fact_refines_register [of sample_facts_db "sample_write ''lost'' 15" 3 0]; code_simp)

text \<open>
  The scoped point read is the register read behind the one shared predicate: it returns the
  key's current row exactly when \<open>fact_visible\<close> admits it, so the SQL filter and the Rust check
  agree and an empty principal set reads nothing.
\<close>

theorem current_fact_is_gated_register:
  assumes "facts_ok db"
  shows "current_fact sc k db =
    (case abs_facts db (sc_tenant_id sc, k) of None \<Rightarrow> None
     | Some r \<Rightarrow> if fact_visible sc r then Some r else None)"
  using assms by (rule current_fact_register)

theorem current_fact_is_gated_register_witness:
  "facts_ok sample_facts_db \<and>
   current_fact (sample_scope [5]) sample_key sample_facts_db =
    (case abs_facts sample_facts_db (sc_tenant_id (sample_scope [5]), sample_key) of None \<Rightarrow> None
     | Some r \<Rightarrow> if fact_visible (sample_scope [5]) r then Some r else None)"
  using current_fact_is_gated_register [OF sample_facts_ok] sample_facts_ok by blast

text \<open>
  After any sequence of upserts and ACL corrections, a historical read by a scope that may see
  the key's rows answers whenever some row had started by then, and its answer has the latest
  start among all rows of the key that had: late events, superseded rows and equal-time
  deliveries never leave a gap or shadow a newer value.
\<close>

theorem fact_as_of_latest_start:
  assumes h: "upsert_history db"
    and vis: "\<And>r. r \<in> set (db_facts db) \<Longrightarrow> of_key (sc_tenant_id sc) k r \<Longrightarrow> fact_visible sc r"
    and ex: "r0 \<in> set (db_facts db)" "of_key (sc_tenant_id sc) k r0" "fr_valid_from r0 \<le> t"
  shows "\<exists>r. fact_as_of sc k t db = Some r \<and> of_key (sc_tenant_id sc) k r \<and> valid_at t r \<and>
    (\<forall>s \<in> set (db_facts db). of_key (sc_tenant_id sc) k s \<and> fr_valid_from s \<le> t \<longrightarrow>
       fr_valid_from s \<le> fr_valid_from r)"
proof -
  let ?Q = "\<lambda>r. of_key (sc_tenant_id sc) k r \<and> valid_at t r \<and> fact_visible sc r"
  note latest = history_latest_valid [OF upsert_history_history [OF h]]
  from latest [OF ex] vis have "filter ?Q (db_facts db) \<noteq> []" by (auto simp: filter_empty_conv)
  then obtain r where r: "fact_as_of sc k t db = Some r"
    unfolding fact_as_of_filter using latest_from_None by blast
  have "fr_valid_from s \<le> fr_valid_from r"
    if s: "s \<in> set (db_facts db)" "of_key (sc_tenant_id sc) k s" "fr_valid_from s \<le> t" for s
  proof -
    from latest [OF s] obtain u where "u \<in> set (filter ?Q (db_facts db))"
      "fr_valid_from s \<le> fr_valid_from u" using vis by auto
    then show ?thesis using latest_from_Some [OF r [unfolded fact_as_of_filter]] by force
  qed
  with r fact_as_of_Some [OF r] show ?thesis by blast
qed

theorem fact_as_of_latest_start_witness:
  "\<exists>r. fact_as_of (sample_scope [5]) sample_key 15 sample_facts_db = Some r \<and>
    of_key (sc_tenant_id (sample_scope [5])) sample_key r \<and> valid_at 15 r \<and>
    (\<forall>s \<in> set (db_facts sample_facts_db).
       of_key (sc_tenant_id (sample_scope [5])) sample_key s \<and> fr_valid_from s \<le> 15 \<longrightarrow>
       fr_valid_from s \<le> fr_valid_from r)"
proof (rule fact_as_of_latest_start [OF sample_facts_history])
  have "list_all (fact_visible (sample_scope [5])) (db_facts sample_facts_db)" by code_simp
  then show "fact_visible (sample_scope [5]) r" if "r \<in> set (db_facts sample_facts_db)" for r
    using that by (simp add: list_all_iff)
  show "hd sample_fact_rows \<in> set (db_facts sample_facts_db)"
    "of_key (sc_tenant_id (sample_scope [5])) sample_key (hd sample_fact_rows)"
    "fr_valid_from (hd sample_fact_rows) \<le> 15" by code_simp+
qed

text \<open>
  C2: An ACL correction takes effect at once and backwards: afterwards no scope without a token of
  the new set, or below the new class, reads any version of the fact, now or at a past instant,
  and every row keeps its value, times and identity.
\<close>

theorem correct_fact_acl_is_now_acl:
  assumes c: "correct_fact_acl a t k vis conf re p cb db = Inr (n, db')"
    and out: "set (sc_principals sc) \<inter> set vis = {} \<or> sc_max_confidentiality sc < conf"
    and t: "sc_tenant_id sc = t"
  shows "current_fact sc k db' = None \<and> fact_as_of sc k i db' = None \<and>
    map (\<lambda>r. (fr_id r, fr_key r, fr_value r, fr_valid_from r, fr_valid_to r)) (db_facts db') =
    map (\<lambda>r. (fr_id r, fr_key r, fr_value r, fr_valid_from r, fr_valid_to r)) (db_facts db)"
proof -
  note facts = correct_fact_acl_Inr(2) [OF c]
  have hidden: "\<not> fact_visible sc r" if r: "r \<in> set (db_facts db')" "of_key t k r" for r
    using r(1) unfolding facts
  proof (cases rule: mem_update_where)
    case (1 c)
    with out show ?thesis by (auto simp: fact_visible_iff)
  next
    case 2
    with r(2) show ?thesis by simp
  qed
  have "current_fact sc k db' = None"
    unfolding current_fact_find find_None_filter using hidden t by blast
  moreover have "fact_as_of sc k i db' = None"
    unfolding fact_as_of_filter latest_from_None filter_empty_conv using hidden t by blast
  moreover have "map (\<lambda>r. (fr_id r, fr_key r, fr_value r, fr_valid_from r, fr_valid_to r)) (db_facts db') =
    map (\<lambda>r. (fr_id r, fr_key r, fr_value r, fr_valid_from r, fr_valid_to r)) (db_facts db)"
    unfolding facts by (rule update_where_keeps) simp
  ultimately show ?thesis by simp
qed

theorem correct_fact_acl_is_now_acl_witness:
  "\<exists>n db'. correct_fact_acl 9 1 sample_key [6] Internal SourceUnshare Mirrored None sample_facts_db
      = Inr (n, db') \<and>
    current_fact (sample_scope [5]) sample_key db' = None \<and>
    fact_as_of (sample_scope [5]) sample_key 15 db' = None"
proof -
  have "isl (correct_fact_acl 9 1 sample_key [6] Internal SourceUnshare Mirrored None sample_facts_db)
      = False" by code_simp
  then obtain n db' where c:
    "correct_fact_acl 9 1 sample_key [6] Internal SourceUnshare Mirrored None sample_facts_db = Inr (n, db')"
    by (cases "correct_fact_acl 9 1 sample_key [6] Internal SourceUnshare Mirrored None sample_facts_db")
      auto
  moreover have "sc_tenant_id (sample_scope [5]) = 1"
    "set (sc_principals (sample_scope [5])) \<inter> set [6] = {} \<or>
     sc_max_confidentiality (sample_scope [5]) < Internal" by code_simp+
  ultimately show ?thesis using correct_fact_acl_is_now_acl [OF c] by blast
qed

text \<open>
  Delivering a write a second time, right after a delivery that was not a late event, changes
  nothing and reports \<open>Unchanged\<close>.
\<close>

theorem upsert_fact_replay:
  assumes ok: "facts_ok db" and up: "upsert_fact now nid w db = Inr (oc, db')"
    and oc: "oc \<noteq> StaleEvent"
  shows "upsert_fact now' nid' w db' = Inr (Unchanged, db')"
proof -
  have "\<exists>row. abs_facts db' (fw_tenant_id w, fw_key w) = Some row \<and> fr_value row = fw_value w"
    using upsert_fact_register [OF ok up] oc
    by (auto simp: register_upsert_def Let_def split: option.splits if_splits)
  then show ?thesis by (auto simp: upsert_fact_def abs_facts_def)
qed

theorem upsert_fact_replay_witness:
  "upsert_fact 1 3 (sample_write ''won'' 20) sample_facts_db = Inr (Unchanged, sample_facts_db)"
proof (rule upsert_fact_replay [OF _ sample_upserts(2)])
  show "facts_ok (sample_db\<lparr>db_facts := [fact_row_of 0 1 (sample_write ''open'' 10) None]\<rparr>)"
    by code_simp
qed simp

end
