(* ===== verification/Chunk_Store.thy ===== *)
theory Chunk_Store
  imports Fact_Store
begin

text \<open>
  The chunk store of the Postgres adapter (\<^verbatim>\<open>crates/verity-storage/src/postgres.rs\<close>): document
  deliveries with the shrink close, the scoped reads that share the recall predicate, document
  retirement, the in-place ACL correction and the token sweep of a deprovisioned principal.
  \<open>fresh i\<close> is the \<open>i\<close>-th UUID an operation generates; the ids of audit and ledger rows are not
  checked for collisions.
\<close>

section \<open>Deliveries\<close>

definition of_document :: "tenant_id \<Rightarrow> string \<Rightarrow> string \<Rightarrow> chunk_row \<Rightarrow> bool" where
  "of_document t source doc c \<longleftrightarrow>
     ch_tenant_id c = t \<and> ch_source c = source \<and> ch_document_id c = doc"

definition chunk_current :: "chunk_row \<Rightarrow> bool" where
  "chunk_current c \<longleftrightarrow> ch_valid_to c = None"

definition close_chunk :: "instant \<Rightarrow> chunk_row \<Rightarrow> chunk_row" where
  "close_chunk t c = c\<lparr>ch_valid_to := Some t\<rparr>"

definition chunk_row_of :: "uuid \<Rightarrow> chunk_write \<Rightarrow> chunk_row" where
  "chunk_row_of i c =
     \<lparr>ch_id = i, ch_tenant_id = cw_tenant_id c, ch_source = cw_source c,
      ch_document_id = cw_document_id c, ch_seq = cw_seq c, ch_content = cw_content c,
      ch_content_hash = cw_content_hash c, ch_embedding = cw_embedding c,
      ch_visibility = cw_visibility c, ch_entity_tags = cw_entity_tags c,
      ch_confidentiality = cw_confidentiality c, ch_trust_tier = cw_trust_tier c,
      ch_valid_from = cw_valid_from c, ch_valid_to = None, ch_provenance = cw_provenance c,
      ch_acl_provenance = cw_acl_provenance c, ch_kind = ''content'', ch_categories = [],
      ch_support_tier = None, ch_derived_from = cw_derived_from c\<rparr>"

text \<open>The natural key \<^verbatim>\<open>UNIQUE (tenant_id, source, document_id, seq, valid_from)\<close>.\<close>

definition chunk_key :: "chunk_row \<Rightarrow> tenant_id \<times> string \<times> string \<times> int \<times> instant" where
  "chunk_key c = (ch_tenant_id c, ch_source c, ch_document_id c, ch_seq c, ch_valid_from c)"

text \<open>\<^verbatim>\<open>INSERT INTO chunks ... ON CONFLICT (natural key) DO NOTHING\<close>, with the rows it added.\<close>

definition insert_chunk_row :: "chunk_row \<Rightarrow> database \<Rightarrow> storage_error + (nat \<times> database)" where
  "insert_chunk_row c db =
     (if chunk_key c \<in> chunk_key ` set (db_chunks db) then Inr (0, db)
      else if ch_id c \<in> ch_id ` set (db_chunks db) then Inl (constraint_error ''chunks_pkey'')
      else if ch_tenant_id c \<notin> set (db_tenants db)
      then Inl (constraint_error ''chunks_tenant_id_fkey'')
      else if ch_provenance c \<notin> ep_id ` set (db_episodes db)
      then Inl (constraint_error ''chunks_provenance_fkey'')
      else Inr (1, db\<lparr>db_chunks := db_chunks db @ [c]\<rparr>))"

text \<open>One position: retire its previous current version, then insert the new one.\<close>

definition upsert_chunk :: "uuid \<Rightarrow> chunk_write \<Rightarrow> database \<Rightarrow> storage_error + (nat \<times> database)" where
  "upsert_chunk i c db =
     insert_chunk_row (chunk_row_of i c)
       (db\<lparr>db_chunks := update_where
             (\<lambda>r. of_document (cw_tenant_id c) (cw_source c) (cw_document_id c) r \<and>
                  ch_seq r = cw_seq c \<and> chunk_current r \<and> ch_valid_from r < cw_valid_from c)
             (close_chunk (cw_valid_from c)) (db_chunks db)\<rparr>)"

fun upsert_chunk_loop ::
  "(nat \<Rightarrow> uuid) \<Rightarrow> nat \<Rightarrow> chunk_write list \<Rightarrow> nat \<Rightarrow> database \<Rightarrow> storage_error + (nat \<times> database)" where
  "upsert_chunk_loop fresh i [] written db = Inr (written, db)"
| "upsert_chunk_loop fresh i (c # cs) written db =
     and_then (upsert_chunk (fresh i) c db)
       (\<lambda>(n, db'). upsert_chunk_loop fresh (Suc i) cs (written + n) db')"

text \<open>
  The tail table: per delivered document its newest time and highest position. The source keeps
  it in a hash map; its entries concern disjoint rows, so the order of the closes is immaterial
  and first-occurrence order is used.
\<close>

type_synonym tail_entry = "(tenant_id \<times> string \<times> string) \<times> (instant \<times> int)"

fun tail_add :: "chunk_write \<Rightarrow> tail_entry list \<Rightarrow> tail_entry list" where
  "tail_add c [] =
     [((cw_tenant_id c, cw_source c, cw_document_id c), (cw_valid_from c, cw_seq c))]"
| "tail_add c ((k, (from, seq)) # ts) =
     (if k = (cw_tenant_id c, cw_source c, cw_document_id c)
      then (k, (max from (cw_valid_from c), max seq (cw_seq c))) # ts
      else (k, (from, seq)) # tail_add c ts)"

definition tails_of :: "chunk_write list \<Rightarrow> tail_entry list" where
  "tails_of cs = foldl (\<lambda>ts c. tail_add c ts) [] cs"

definition in_tail :: "tail_entry \<Rightarrow> chunk_row \<Rightarrow> bool" where
  "in_tail e r \<longleftrightarrow> (case e of ((t, source, doc), (from, max_seq)) \<Rightarrow>
     of_document t source doc r \<and> max_seq < ch_seq r \<and> chunk_current r \<and> ch_valid_from r < from)"

definition close_tail :: "tail_entry \<Rightarrow> chunk_row list \<Rightarrow> chunk_row list" where
  "close_tail e rows = update_where (in_tail e) (close_chunk (fst (snd e))) rows"

fun close_tails :: "tail_entry list \<Rightarrow> chunk_row list \<Rightarrow> string list \<times> chunk_row list" where
  "close_tails [] rows = ([], rows)"
| "close_tails (e # es) rows =
     (let (tags, rows') = close_tails es (close_tail e rows)
      in (concat (map ch_entity_tags (filter (in_tail e) rows)) @ tags, rows'))"

definition upsert_chunks ::
  "(nat \<Rightarrow> uuid) \<Rightarrow> chunk_write list \<Rightarrow> database \<Rightarrow> storage_error + (nat \<times> database)" where
  "upsert_chunks fresh cs db =
     and_then (upsert_chunk_loop fresh 0 cs 0 db)
       (\<lambda>(written, db1).
          let (tail_tags, rows) = close_tails (tails_of cs) (db_chunks db1);
              db2 = db1\<lparr>db_chunks := rows\<rparr>;
              affected = concat (map cw_entity_tags cs) @ tail_tags
          in Inr (written,
               case cs of [] \<Rightarrow> db2
               | c # _ \<Rightarrow> fst (mark_briefs_stale_tx (cw_tenant_id c) affected db2)))"

section \<open>Scoped chunk reads\<close>

text \<open>
  The recall predicate: tenant partition, current rows, token overlap, confidentiality ceiling,
  and \<^verbatim>\<open>entity_scope_predicate\<close> for entity-bound scopes (published knowledge is entity-free and
  passes; a content chunk must carry tags, all inside the scope).
\<close>

definition entity_scope_predicate :: "scope \<Rightarrow> chunk_row \<Rightarrow> bool" where
  "entity_scope_predicate sc c \<longleftrightarrow>
     (if sc_entity_scope sc = [] then True
      else ch_kind c = ''knowledge'' \<or>
           (ch_entity_tags c \<noteq> [] \<and> set (ch_entity_tags c) \<subseteq> set (sc_entity_scope sc)))"

definition chunk_acl_visible :: "scope \<Rightarrow> chunk_row \<Rightarrow> bool" where
  "chunk_acl_visible sc c \<longleftrightarrow>
     ch_tenant_id c = sc_tenant_id sc \<and> chunk_current c \<and>
     set (ch_visibility c) \<inter> set (sc_principals sc) \<noteq> {} \<and>
     conf_code (ch_confidentiality c) \<le> conf_code (sc_max_confidentiality sc)"

record derivation_input =
  di_reference :: uuid
  di_episode_id :: episode_id
  di_visibility :: "principal_token list"
  di_confidentiality :: confidentiality

text \<open>The fold of one reference over the matching rows.\<close>

definition derivation_step ::
  "uuid \<Rightarrow> (episode_id option \<times> principal_token list option \<times> confidentiality) \<Rightarrow> chunk_row
   \<Rightarrow> (episode_id option \<times> principal_token list option \<times> confidentiality)" where
  "derivation_step reference acc row = (case acc of (ep, vis, conf) \<Rightarrow>
     if ch_id row \<noteq> reference \<and> ch_provenance row \<noteq> reference then acc
     else (Some (ch_provenance row),
           Some (case vis of None \<Rightarrow> ch_visibility row
                 | Some v \<Rightarrow> filter (\<lambda>t. t \<in> set (ch_visibility row)) v),
           max conf (ch_confidentiality row)))"

definition derivation_fold :: "chunk_row list \<Rightarrow> uuid \<Rightarrow> derivation_input option" where
  "derivation_fold rows reference =
     (case foldl (derivation_step reference) (None, None, Public) rows of
        (Some ep, Some vis, conf) \<Rightarrow>
          Some \<lparr>di_reference = reference, di_episode_id = ep, di_visibility = vis,
                di_confidentiality = conf\<rparr>
      | _ \<Rightarrow> None)"

definition resolve_derivation_inputs :: "scope \<Rightarrow> uuid list \<Rightarrow> database \<Rightarrow> derivation_input list" where
  "resolve_derivation_inputs sc refs db =
     (if sc_principals sc = [] \<or> refs = [] then []
      else let rows = filter (\<lambda>c. chunk_acl_visible sc c \<and>
                 (ch_id c \<in> set refs \<or> ch_provenance c \<in> set refs) \<and> entity_scope_predicate sc c)
                 (db_chunks db)
           in List.map_filter (derivation_fold rows) refs)"

text \<open>\<^verbatim>\<open>latest_chunks\<close>: the newest visible current chunks carrying an entity tag.\<close>

definition latest_chunks :: "scope \<Rightarrow> string \<Rightarrow> nat \<Rightarrow> database \<Rightarrow> chunk_row list" where
  "latest_chunks sc entity limit db =
     (if sc_principals sc = [] then []
      else if sc_entity_scope sc \<noteq> [] \<and> entity \<notin> set (sc_entity_scope sc) then []
      else take (min 100 (max 1 limit))
             (sort_key (\<lambda>c. - ch_valid_from c)
               (filter (\<lambda>c. chunk_acl_visible sc c \<and> entity \<in> set (ch_entity_tags c))
                 (db_chunks db))))"

section \<open>Retirement and ACL corrections\<close>

definition retire_document ::
  "instant \<Rightarrow> uuid \<Rightarrow> tenant_id \<Rightarrow> string \<Rightarrow> string \<Rightarrow> string \<Rightarrow> database
   \<Rightarrow> storage_error + (nat \<times> database)" where
  "retire_document now ledger_id t source doc reason db =
     (let P = (\<lambda>c. of_document t source doc c \<and> chunk_current c);
          retired = rows_affected P (db_chunks db)
      in if t \<notin> set (db_tenants db)
         then Inl (constraint_error ''document_retire_ledger_tenant_id_fkey'')
         else Inr (retired,
           db\<lparr>db_chunks := update_where P
                 (\<lambda>c. c\<lparr>ch_valid_to := Some now, ch_visibility := []\<rparr>) (db_chunks db),
              db_document_retire_ledger := db_document_retire_ledger db @
                [\<lparr>rl_id = ledger_id, rl_tenant_id = t, rl_source = source,
                  rl_document_id = doc, rl_reason = reason, rl_chunks_retired = int retired\<rparr>]\<rparr>))"

text \<open>\<^verbatim>\<open>SELECT max(confidentiality)\<close> over the document's current chunks.\<close>

definition current_chunk_confidentiality ::
  "tenant_id \<Rightarrow> string \<Rightarrow> string \<Rightarrow> database \<Rightarrow> confidentiality option" where
  "current_chunk_confidentiality t source doc db =
     (case filter (\<lambda>c. of_document t source doc c \<and> chunk_current c) (db_chunks db) of
        [] \<Rightarrow> None
      | c # cs \<Rightarrow> Some (foldl (\<lambda>m c. max m (ch_confidentiality c)) (ch_confidentiality c) cs))"

definition chunk_audit ::
  "uuid \<Rightarrow> chunk_row \<Rightarrow> principal_token list \<Rightarrow> confidentiality \<Rightarrow> acl_correction_reason
   \<Rightarrow> acl_provenance \<Rightarrow> string option \<Rightarrow> chunk_acl_audit_row" where
  "chunk_audit i c new_vis new_conf reason prov changed_by =
     \<lparr>ca_id = i, ca_tenant_id = ch_tenant_id c, ca_source = ch_source c,
      ca_document_id = ch_document_id c, ca_seq = ch_seq c, ca_chunk_id = ch_id c,
      ca_old_visibility = ch_visibility c, ca_new_visibility = new_vis,
      ca_old_confidentiality = ch_confidentiality c, ca_new_confidentiality = new_conf,
      ca_reason = acl_correction_reason_as_str reason,
      ca_acl_provenance = acl_provenance_as_str prov, ca_changed_by = changed_by\<rparr>"

definition set_chunk_acl :: "principal_token list \<Rightarrow> confidentiality \<Rightarrow> chunk_row \<Rightarrow> chunk_row" where
  "set_chunk_acl vis conf c = c\<lparr>ch_visibility := vis, ch_confidentiality := conf\<rparr>"

definition correct_chunk_acl ::
  "(nat \<Rightarrow> uuid) \<Rightarrow> tenant_id \<Rightarrow> string \<Rightarrow> string \<Rightarrow> principal_token list \<Rightarrow> confidentiality
   \<Rightarrow> acl_correction_reason \<Rightarrow> acl_provenance \<Rightarrow> string option \<Rightarrow> database \<Rightarrow> nat \<times> database" where
  "correct_chunk_acl fresh t source doc new_vis new_conf reason prov changed_by db =
     (let current = filter (\<lambda>c. of_document t source doc c \<and> chunk_current c) (db_chunks db);
          audit = map (\<lambda>(i, c). chunk_audit (fresh i) c new_vis new_conf reason prov changed_by)
                    (zip [0..<length current] current)
      in (rows_affected (of_document t source doc) (db_chunks db),
          db\<lparr>db_chunks := update_where (of_document t source doc) (set_chunk_acl new_vis new_conf)
                            (db_chunks db),
             db_chunk_acl_audit := db_chunk_acl_audit db @ audit\<rparr>))"

section \<open>The token sweep\<close>

definition sweep_batch :: nat where
  "sweep_batch = 5000"

text \<open>One row of a batch: strip the token from the row, audit it when it is current.\<close>

definition sweep_row ::
  "(nat \<Rightarrow> uuid) \<Rightarrow> principal_token \<Rightarrow> acl_correction_reason \<Rightarrow> string \<Rightarrow> nat \<times> database
   \<Rightarrow> chunk_row \<Rightarrow> nat \<times> database" where
  "sweep_row fresh token reason changed_by st row = (case st of (i, db) \<Rightarrow>
     let new_vis = filter (\<lambda>t. t \<noteq> token) (ch_visibility row);
         db1 = db\<lparr>db_chunks := update_where (\<lambda>c. ch_id c = ch_id row)
                 (\<lambda>c. c\<lparr>ch_visibility := new_vis\<rparr>) (db_chunks db)\<rparr>
     in if chunk_current row
        then (Suc i, db1\<lparr>db_chunk_acl_audit := db_chunk_acl_audit db1 @
               [chunk_audit (fresh i) row new_vis (ch_confidentiality row) reason AdminAssigned
                  (Some changed_by)]\<rparr>)
        else (i, db1))"

definition carries :: "tenant_id \<Rightarrow> principal_token \<Rightarrow> chunk_row \<Rightarrow> bool" where
  "carries t token c \<longleftrightarrow> ch_tenant_id c = t \<and> token \<in> set (ch_visibility c)"

definition after_cursor :: "uuid option \<Rightarrow> chunk_row \<Rightarrow> bool" where
  "after_cursor cur c \<longleftrightarrow> (case cur of None \<Rightarrow> True | Some l \<Rightarrow> l < ch_id c)"

definition next_batch ::
  "tenant_id \<Rightarrow> principal_token \<Rightarrow> uuid option \<Rightarrow> chunk_row list \<Rightarrow> chunk_row list" where
  "next_batch t token cur rows =
     take sweep_batch (sort_key ch_id (filter (\<lambda>c. carries t token c \<and> after_cursor cur c) rows))"

definition sweep_rows ::
  "(nat \<Rightarrow> uuid) \<Rightarrow> principal_token \<Rightarrow> acl_correction_reason \<Rightarrow> string \<Rightarrow> nat \<times> database
   \<Rightarrow> chunk_row list \<Rightarrow> nat \<times> database" where
  "sweep_rows fresh token reason changed_by st rows =
     foldl (sweep_row fresh token reason changed_by) st rows"

lemma sweep_row_chunks:
  "db_chunks (snd (sweep_row fresh token reason cb st row)) =
     update_where (\<lambda>c. ch_id c = ch_id row)
       (\<lambda>c. c\<lparr>ch_visibility := filter (\<lambda>t. t \<noteq> token) (ch_visibility row)\<rparr>) (db_chunks (snd st))"
  by (cases st) (simp add: sweep_row_def Let_def)

lemma sweep_row_carriers_le:
  "length (filter (carries t token) (db_chunks (snd (sweep_row fresh token reason cb st row))))
   \<le> length (filter (carries t token) (db_chunks (snd st)))"
  unfolding sweep_row_chunks by (rule filter_update_where_le) (simp add: carries_def)

lemma sweep_row_carriers_less:
  "row \<in> set (db_chunks (snd st)) \<Longrightarrow> carries t token row \<Longrightarrow>
   length (filter (carries t token) (db_chunks (snd (sweep_row fresh token reason cb st row))))
   < length (filter (carries t token) (db_chunks (snd st)))"
  unfolding sweep_row_chunks
  by (rule filter_update_where_less [where r = row]) (simp_all add: carries_def)

lemma sweep_rows_carriers_le:
  "length (filter (carries t token) (db_chunks (snd (sweep_rows fresh token reason cb st rows))))
   \<le> length (filter (carries t token) (db_chunks (snd st)))"
proof (induction rows arbitrary: st)
  case (Cons r rows)
  show ?case
    using Cons.IH [of "sweep_row fresh token reason cb st r"]
      sweep_row_carriers_le [of t token fresh reason cb st r]
    by (simp add: sweep_rows_def)
qed (simp add: sweep_rows_def)

lemma sweep_rows_carriers_less:
  assumes "rows \<noteq> []" "hd rows \<in> set (db_chunks (snd st))" "carries t token (hd rows)"
  shows "length (filter (carries t token) (db_chunks (snd (sweep_rows fresh token reason cb st rows))))
    < length (filter (carries t token) (db_chunks (snd st)))"
proof (cases rows)
  case (Cons r rs)
  let ?st = "sweep_row fresh token reason cb st r"
  have "sweep_rows fresh token reason cb st rows = sweep_rows fresh token reason cb ?st rs"
    by (simp add: Cons sweep_rows_def)
  with sweep_rows_carriers_le [of t token fresh reason cb ?st rs]
    sweep_row_carriers_less [of r st t token fresh reason cb] assms Cons
  show ?thesis by simp
qed (use assms in simp)

lemma next_batch_subset:
  "c \<in> set (next_batch t token cur rows) \<Longrightarrow> c \<in> set rows \<and> carries t token c \<and> after_cursor cur c"
  by (auto simp: next_batch_def dest: in_set_takeD)

text \<open>The batched loop; each batch strips at least one carrier, so it ends.\<close>

function retract_loop ::
  "(nat \<Rightarrow> uuid) \<Rightarrow> tenant_id \<Rightarrow> principal_token \<Rightarrow> acl_correction_reason \<Rightarrow> string
   \<Rightarrow> uuid option \<Rightarrow> nat \<Rightarrow> database \<Rightarrow> database" where
  "retract_loop fresh t token reason changed_by last_id i db =
     (let rows = next_batch t token last_id (db_chunks db)
      in if rows = [] then db
         else let (i', db') = sweep_rows fresh token reason changed_by (i, db) rows
              in if length rows < sweep_batch then db'
                 else retract_loop fresh t token reason changed_by (Some (ch_id (last rows))) i' db')"
  by pat_completeness auto
termination
proof (relation "measure (\<lambda>(fresh, t, token, reason, cb, l, i, db).
    length (filter (carries t token) (db_chunks db)))")
  fix fresh t token reason cb l i db rows x i' db'
  assume rows: "rows = next_batch t token l (db_chunks db)" "rows \<noteq> []"
    and x: "x = sweep_rows fresh token reason cb (i, db) rows" "(i', db') = x"
  have "hd rows \<in> set rows" using rows(2) by simp
  then have "hd rows \<in> set (db_chunks db)" "carries t token (hd rows)"
    using next_batch_subset unfolding rows(1) by blast+
  then have "length (filter (carries t token) (db_chunks db'))
      < length (filter (carries t token) (db_chunks db))"
    using sweep_rows_carriers_less [of rows "(i, db)" t token fresh reason cb] rows(2) x
    by (metis snd_conv)
  then show "((fresh, t, token, reason, cb, Some (ch_id (last rows)), i', db'),
      (fresh, t, token, reason, cb, l, i, db))
    \<in> measure (\<lambda>(fresh, t, token, reason, cb, l, i, db).
        length (filter (carries t token) (db_chunks db)))" by simp
qed simp

declare retract_loop.simps [simp del]

definition retract_token_from_chunks ::
  "(nat \<Rightarrow> uuid) \<Rightarrow> tenant_id \<Rightarrow> principal_token \<Rightarrow> acl_correction_reason \<Rightarrow> string
   \<Rightarrow> database \<Rightarrow> nat \<times> database" where
  "retract_token_from_chunks fresh t token reason changed_by db =
     (length (remdups (map (\<lambda>c. (ch_source c, ch_document_id c))
        (filter (\<lambda>c. chunk_current c \<and> carries t token c) (db_chunks db)))),
      retract_loop fresh t token reason changed_by None 0 db)"

section \<open>The sweep strips exactly the token\<close>

definition strip_token :: "principal_token \<Rightarrow> chunk_row \<Rightarrow> chunk_row" where
  "strip_token token c = c\<lparr>ch_visibility := filter (\<lambda>t. t \<noteq> token) (ch_visibility c)\<rparr>"

lemma strip_token_id [simp]: "ch_id (strip_token token c) = ch_id c"
  by (simp add: strip_token_def)

lemma strip_token_idem: "\<not> carries t token c \<Longrightarrow> ch_tenant_id c = t \<Longrightarrow> strip_token token c = c"
proof -
  assume "\<not> carries t token c" "ch_tenant_id c = t"
  then have "filter (\<lambda>t. t \<noteq> token) (ch_visibility c) = ch_visibility c"
    by (intro filter_True) (auto simp: carries_def)
  then show ?thesis by (simp add: strip_token_def)
qed

lemma sweep_row_strip:
  assumes "distinct (map ch_id (db_chunks (snd st)))" "row \<in> set (db_chunks (snd st))"
  shows "db_chunks (snd (sweep_row fresh token reason cb st row)) =
    update_where (\<lambda>c. ch_id c = ch_id row) (strip_token token) (db_chunks (snd st))"
proof -
  have "c = row" if "c \<in> set (db_chunks (snd st))" "ch_id c = ch_id row" for c
    using assms that by (auto simp: distinct_map inj_on_def)
  then show ?thesis
    unfolding sweep_row_chunks update_where_def by (auto simp: strip_token_def intro!: map_cong)
qed

lemma sweep_rows_strip:
  assumes "distinct (map ch_id (db_chunks (snd st)))" "distinct (map ch_id rows)"
    "set rows \<subseteq> set (db_chunks (snd st))"
  shows "db_chunks (snd (sweep_rows fresh token reason cb st rows)) =
    update_where (\<lambda>c. ch_id c \<in> ch_id ` set rows) (strip_token token) (db_chunks (snd st))"
  using assms
proof (induction rows arbitrary: st)
  case Nil
  then show ?case by (simp add: sweep_rows_def update_where_def)
next
  case (Cons r rows)
  let ?st = "sweep_row fresh token reason cb st r"
  let ?f = "\<lambda>c. if ch_id c = ch_id r then strip_token token c else c"
  have step: "db_chunks (snd ?st) = map ?f (db_chunks (snd st))"
    using sweep_row_strip [of st r] Cons.prems by (simp add: update_where_def)
  have ids: "map ch_id (db_chunks (snd ?st)) = map ch_id (db_chunks (snd st))"
    unfolding step by simp
  have "set rows \<subseteq> set (db_chunks (snd ?st))"
  proof
    fix c assume "c \<in> set rows"
    then have "ch_id c \<in> ch_id ` set rows" by simp
    moreover have "ch_id r \<notin> ch_id ` set rows" using Cons.prems(2) by simp
    ultimately have "ch_id c \<noteq> ch_id r" by metis
    moreover have "c \<in> set (db_chunks (snd st))" using Cons.prems(3) \<open>c \<in> set rows\<close> by auto
    ultimately have "c \<in> set (db_chunks (snd st))" "ch_id c \<noteq> ch_id r" by simp_all
    then show "c \<in> set (db_chunks (snd ?st))" unfolding step by force
  qed
  with Cons.IH [of ?st] Cons.prems ids have
    "db_chunks (snd (sweep_rows fresh token reason cb ?st rows)) =
      update_where (\<lambda>c. ch_id c \<in> ch_id ` set rows) (strip_token token) (db_chunks (snd ?st))"
    by simp
  then show ?case
    using Cons.prems(2) unfolding step sweep_rows_def update_where_def by auto
qed

lemma update_where_cong:
  "(\<And>r. r \<in> set rs \<Longrightarrow> P r = Q r) \<Longrightarrow> update_where P f rs = update_where Q f rs"
  by (auto simp: update_where_def)

text \<open>A batch is a prefix of the pending rows in id order: what is left lies behind its last row.\<close>

lemma next_batch_rest:
  assumes "distinct (map ch_id rows)" "c \<in> set rows" "carries t token c" "after_cursor cur c"
    and "c \<notin> set (next_batch t token cur rows)" "next_batch t token cur rows \<noteq> []"
  shows "sweep_batch \<le> length (next_batch t token cur rows)"
    and "ch_id (last (next_batch t token cur rows)) < ch_id c"
proof -
  define xs where "xs = sort_key ch_id (filter (\<lambda>c. carries t token c \<and> after_cursor cur c) rows)"
  have nb: "next_batch t token cur rows = take sweep_batch xs" by (simp add: next_batch_def xs_def)
  have "c \<in> set xs" using assms(2-4) by (simp add: xs_def)
  then have "c \<in> set (take sweep_batch xs) \<union> set (drop sweep_batch xs)"
    by (metis append_take_drop_id set_append)
  with assms(5) nb have drop: "c \<in> set (drop sweep_batch xs)" by auto
  then show "sweep_batch \<le> length (next_batch t token cur rows)"
    unfolding nb by (cases "sweep_batch \<le> length xs") auto
  have keys: "mset (map ch_id xs) = mset (map ch_id (filter (\<lambda>c. carries t token c \<and> after_cursor cur c) rows))"
    by (simp add: xs_def)
  have "distinct (map ch_id (filter (\<lambda>c. carries t token c \<and> after_cursor cur c) rows))"
    using assms(1) by (simp add: distinct_map_filter)
  with keys have "distinct (map ch_id xs)" by (metis mset_eq_imp_distinct_iff)
  moreover have "sorted (map ch_id xs)" by (simp add: xs_def)
  ultimately have "sorted_wrt (<) (map ch_id xs)" by (simp add: strict_sorted_iff)
  then have "sorted_wrt (<) (map ch_id (take sweep_batch xs) @ map ch_id (drop sweep_batch xs))"
    by (metis append_take_drop_id map_append)
  moreover have "last (take sweep_batch xs) \<in> set (take sweep_batch xs)"
    using assms(6) nb by (intro last_in_set) simp
  ultimately show "ch_id (last (next_batch t token cur rows)) < ch_id c"
    using drop unfolding nb sorted_wrt_append by auto
qed

lemma next_batch_distinct:
  assumes "distinct (map ch_id rows)"
  shows "distinct (map ch_id (next_batch t token cur rows))"
proof -
  have "distinct (map ch_id (filter (\<lambda>c. carries t token c \<and> after_cursor cur c) rows))"
    using assms by (simp add: distinct_map_filter)
  then have "distinct (map ch_id (sort_key ch_id (filter (\<lambda>c. carries t token c \<and> after_cursor cur c) rows)))"
    by (metis mset_eq_imp_distinct_iff mset_map mset_sort)
  then show ?thesis unfolding next_batch_def take_map [symmetric] by (rule distinct_take)
qed

lemma strip_not_carries: "\<not> carries t token (strip_token token c)"
  by (simp add: carries_def strip_token_def)

lemma retract_loop_strip:
  "distinct (map ch_id (db_chunks db)) \<Longrightarrow>
   db_chunks (retract_loop fresh t token reason cb cur i db) =
     update_where (\<lambda>c. carries t token c \<and> after_cursor cur c) (strip_token token) (db_chunks db)"
proof (induction fresh t token reason cb cur i db rule: retract_loop.induct)
  case (1 fresh t token reason cb cur i db)
  define rows where "rows = next_batch t token cur (db_chunks db)"
  obtain i' db' where st: "sweep_rows fresh token reason cb (i, db) rows = (i', db')" by fastforce
  let ?P = "\<lambda>c. carries t token c \<and> after_cursor cur c"
  note unfold_loop = retract_loop.simps [of fresh t token reason cb cur i db,
      folded rows_def, unfolded Let_def st prod.case]
  show ?case
  proof (cases "rows = []")
    case True
    then have "filter ?P (db_chunks db) = []"
      using mset_sort [of ch_id "filter ?P (db_chunks db)"]
      by (auto simp: rows_def next_batch_def sweep_batch_def)
    then have "update_where ?P (strip_token token) (db_chunks db) = db_chunks db"
      by (intro update_where_none) (auto simp: filter_empty_conv)
    with True show ?thesis by (simp add: unfold_loop)
  next
    case False
    have sub: "set rows \<subseteq> set (db_chunks db)" and carr: "\<And>c. c \<in> set rows \<Longrightarrow> ?P c"
      using next_batch_subset unfolding rows_def by blast+
    have ids: "ch_id c \<in> ch_id ` set rows \<longleftrightarrow> c \<in> set rows" if "c \<in> set (db_chunks db)" for c
      using 1(2) sub that by (auto simp: distinct_map inj_on_def)
    have chunks': "db_chunks db' =
        update_where (\<lambda>c. ch_id c \<in> ch_id ` set rows) (strip_token token) (db_chunks db)"
      using sweep_rows_strip [of "(i, db)" rows fresh token reason cb] sub 1(2)
        next_batch_distinct [OF 1(2), of t token cur, folded rows_def] by (simp add: st)
    note rest = next_batch_rest [OF 1(2), of _ t token cur, folded rows_def]
    show ?thesis
    proof (cases "length rows < sweep_batch")
      case True
      have "?P c = (ch_id c \<in> ch_id ` set rows)" if "c \<in> set (db_chunks db)" for c
        using ids [OF that] carr [of c] rest(1) [OF that] True False by fastforce
      then have "update_where ?P (strip_token token) (db_chunks db) = db_chunks db'"
        unfolding chunks' by (rule update_where_cong)
      with True False show ?thesis by (simp add: unfold_loop)
    next
      case long: False
      have "map ch_id (db_chunks db') = map ch_id (db_chunks db)"
        unfolding chunks' by (rule update_where_keeps) simp
      with 1 False long st rows_def have
        IH: "db_chunks (retract_loop fresh t token reason cb (Some (ch_id (last rows))) i' db') =
          update_where (\<lambda>c. carries t token c \<and> ch_id (last rows) < ch_id c) (strip_token token)
            (db_chunks db')"
        by (simp add: after_cursor_def)
      have "last rows \<in> set rows" using False by simp
      then have past: "after_cursor cur c" if "ch_id (last rows) < ch_id c" for c
        using carr [of "last rows"] that by (auto simp: after_cursor_def split: option.splits)
      have "update_where (\<lambda>c. carries t token c \<and> ch_id (last rows) < ch_id c) (strip_token token)
          (db_chunks db') = update_where ?P (strip_token token) (db_chunks db)"
        unfolding chunks' update_where_def map_map
      proof (rule map_cong [OF refl])
        fix c assume c: "c \<in> set (db_chunks db)"
        show "((\<lambda>r. if carries t token r \<and> ch_id (last rows) < ch_id r then strip_token token r else r) \<circ>
            (\<lambda>r. if ch_id r \<in> ch_id ` set rows then strip_token token r else r)) c =
          (if ?P c then strip_token token c else c)"
        proof (cases "c \<in> set rows")
          case True
          with ids [OF c] carr [of c] show ?thesis by (simp add: strip_not_carries)
        next
          case out: False
          have "(carries t token c \<and> ch_id (last rows) < ch_id c) = ?P c"
            using rest(2) [OF c _ _ out False] past [of c] by blast
          with out ids [OF c] show ?thesis by simp
        qed
      qed
      with IH long False show ?thesis by (simp add: unfold_loop)
    qed
  qed
qed

end
