(* ===== verification/Rank_Fusion.thy ===== *)
theory Rank_Fusion
  imports Chunk_Store
begin

text \<open>
  Reciprocal-rank fusion of the dense and the sparse leg of a recall (\<^verbatim>\<open>rrf_fuse\<close> of
  \<^verbatim>\<open>crates/verity-storage/src/postgres.rs\<close>). The scores are binary32 numbers: a value is the
  rational it denotes and every operation rounds to nearest, ties to even. The fused scores lie
  between $2^{-149}$ and $2^{128}$ by far (lemma \<open>fused_score_bounds\<close>), so neither underflow,
  overflow nor NaN occurs. The map of scores is iterated in the order \<open>iter\<close>, an arbitrary
  permutation, as the standard library's hash map leaves it open.
\<close>

section \<open>Binary32 arithmetic\<close>

definition f32_ulp_exp :: "rat \<Rightarrow> int" where
  "f32_ulp_exp q =
     (let (n, d) = quotient_of q; k = bitlen n - bitlen d - 24
      in if 2 ^ 24 \<le> q / pow2 k then k + 1 else k)"

definition round_f32 :: "rat \<Rightarrow> rat" where
  "round_f32 q =
     (if q = 0 then 0 else let e = f32_ulp_exp q in of_int (round_even (q / pow2 e)) * pow2 e)"

definition f32_add :: "rat \<Rightarrow> rat \<Rightarrow> rat" where
  "f32_add a b = round_f32 (a + b)"

definition f32_div :: "rat \<Rightarrow> rat \<Rightarrow> rat" where
  "f32_div a b = round_f32 (a / b)"

section \<open>Hits and fusion\<close>

record recall_hit =
  hit_chunk_id :: uuid
  hit_document_id :: string
  hit_seq :: int
  hit_content :: string
  hit_score :: f64
  hit_entity_tags :: "string list"
  hit_kind :: string
  hit_source :: string
  hit_source_synced_at :: "instant option"
  hit_support_tier :: "support_tier option"
  hit_acl_provenance :: acl_provenance
  hit_trust_tier :: trust_tier
  hit_valid_from :: instant
  hit_provenance :: episode_id

definition rrf_k :: rat where
  "rrf_k = 60"

definition contribution :: "nat \<Rightarrow> rat" where
  "contribution rank = f32_div 1 (f32_add (f32_add rrf_k (round_f32 (of_nat rank))) 1)"

text \<open>\<^verbatim>\<open>entry(id).and_modify(+= c).or_insert((c, hit))\<close>.\<close>

fun rrf_entry :: "rat \<Rightarrow> recall_hit \<Rightarrow> (rat \<times> recall_hit) list \<Rightarrow> (rat \<times> recall_hit) list" where
  "rrf_entry c h [] = [(c, h)]"
| "rrf_entry c h ((s, g) # m) =
     (if hit_chunk_id g = hit_chunk_id h then (f32_add s c, g) # m else (s, g) # rrf_entry c h m)"

fun rrf_list :: "nat \<Rightarrow> recall_hit list \<Rightarrow> (rat \<times> recall_hit) list \<Rightarrow> (rat \<times> recall_hit) list" where
  "rrf_list rank [] m = m"
| "rrf_list rank (h # hs) m = rrf_list (Suc rank) hs (rrf_entry (contribution rank) h m)"

definition rrf_scores :: "recall_hit list list \<Rightarrow> (rat \<times> recall_hit) list" where
  "rrf_scores ls = foldl (\<lambda>m l. rrf_list 0 l m) [] ls"

definition rrf_fuse ::
  "((rat \<times> recall_hit) list \<Rightarrow> (rat \<times> recall_hit) list) \<Rightarrow> recall_hit list list \<Rightarrow> nat \<Rightarrow> recall_hit list" where
  "rrf_fuse iter ls k =
     map (\<lambda>(s, h). h\<lparr>hit_score := Fin s\<rparr>) (take k (sort_key (\<lambda>(s, _). - s) (iter (rrf_scores ls))))"

section \<open>Rounding is monotone\<close>

lemma pow2_powi: "pow2 e = 2 powi e"
  by (auto simp: pow2_def power_int_def inverse_eq_divide power_one_over)

lemma pow2_pos [simp]: "0 < pow2 e"
  by (simp add: pow2_def)

lemma pow2_nonzero [simp]: "pow2 e \<noteq> 0"
  by (metis less_irrefl pow2_pos)

lemma pow2_Suc: "pow2 (e + 1) = 2 * pow2 e"
  by (simp add: pow2_powi power_int_add)

lemma pow2_mono: "e \<le> f \<Longrightarrow> pow2 e \<le> pow2 f"
  by (simp add: pow2_powi power_int_increasing)

lemma pow2_less_cancel: "pow2 e < pow2 f \<Longrightarrow> e < f"
  using pow2_mono [of f e] by (meson leD leI)

lemma round_even_bounds: "\<lfloor>q\<rfloor> \<le> round_even q" "round_even q \<le> \<lceil>q\<rceil>"
proof -
  show "\<lfloor>q\<rfloor> \<le> round_even q" by (simp add: round_even_def Let_def)
  have "q \<noteq> of_int \<lfloor>q\<rfloor> \<Longrightarrow> \<lceil>q\<rceil> = \<lfloor>q\<rfloor> + 1" by (simp add: ceiling_altdef)
  then show "round_even q \<le> \<lceil>q\<rceil>"
    by (cases "q = of_int \<lfloor>q\<rfloor>") (auto simp: round_even_def Let_def floor_le_ceiling)
qed

lemma round_even_mono: "p \<le> q \<Longrightarrow> round_even p \<le> round_even q"
proof (cases "\<lfloor>p\<rfloor> = \<lfloor>q\<rfloor>")
  case False
  assume "p \<le> q"
  with False have "\<lfloor>p\<rfloor> + 1 \<le> \<lfloor>q\<rfloor>" using floor_mono [of p q] by linarith
  moreover have "round_even p \<le> \<lfloor>p\<rfloor> + 1" by (simp add: round_even_def Let_def)
  ultimately show ?thesis using round_even_bounds(1) [of q] by linarith
qed (auto simp: round_even_def Let_def)

lemma bitlen_bounds_rat:
  assumes "0 < n"
  shows "pow2 (bitlen n - 1) \<le> of_int n" "of_int n < pow2 (bitlen n)"
proof -
  from assms have b: "0 < bitlen n" by (simp add: bitlen_nonneg less_le bitlen_eq_zero_iff)
  from bitlen_bounds [OF assms] have "2 ^ nat (bitlen n - 1) \<le> n" "n < 2 ^ nat (bitlen n)" by auto
  then have "(2::rat) ^ nat (bitlen n - 1) \<le> of_int n" "of_int n < (2::rat) ^ nat (bitlen n)"
    by (metis of_int_le_iff of_int_numeral of_int_power, metis of_int_less_iff of_int_numeral of_int_power)
  with b show "pow2 (bitlen n - 1) \<le> of_int n" "of_int n < pow2 (bitlen n)"
    by (simp_all add: pow2_def)
qed

lemma f32_mantissa:
  assumes "0 < q"
  shows "2 ^ 23 \<le> q / pow2 (f32_ulp_exp q)" "q / pow2 (f32_ulp_exp q) < 2 ^ 24"
proof -
  obtain n d where nd: "quotient_of q = (n, d)" by fastforce
  then have q: "q = of_int n / of_int d" and d: "0 < d"
    by (auto simp: quotient_of_div dest: quotient_of_denom_pos)
  with assms have n: "0 < n" by (simp add: zero_less_divide_iff)
  let ?k = "bitlen n - bitlen d - 24"
  have p: "pow2 (bitlen n) = pow2 ?k * 2 ^ 24 * pow2 (bitlen d)"
    by (simp add: pow2_powi power_int_diff power_int_add field_simps)
  have h: "pow2 (bitlen m) = 2 * pow2 (bitlen m - 1)" for m
    using pow2_Suc [of "bitlen m - 1"] by simp
  note bn = bitlen_bounds_rat [OF n] and bd = bitlen_bounds_rat [OF d]
  have pk: "0 < pow2 ?k" by simp
  have dpos: "(0::rat) < of_int d" using d by simp
  have "2 ^ 23 * pow2 ?k * of_int d < 2 ^ 23 * pow2 ?k * pow2 (bitlen d)"
    using bd(2) pk by (intro mult_strict_left_mono) simp_all
  also have "\<dots> = pow2 (bitlen n - 1)" using p h [of n] by simp
  also have "\<dots> \<le> of_int n" by (rule bn(1))
  finally have lo: "2 ^ 23 \<le> q / pow2 ?k"
    using dpos pk by (simp add: q field_simps)
  have "of_int n < pow2 ?k * 2 ^ 24 * (2 * pow2 (bitlen d - 1))"
    using bn(2) p h [of d] by simp
  also have "\<dots> \<le> pow2 ?k * 2 ^ 24 * (2 * of_int d)"
    using bd(1) less_imp_le [OF pk] by (intro mult_left_mono) simp_all
  finally have hi: "q / pow2 ?k < 2 ^ 25"
    using dpos pk by (simp add: q field_simps)
  have e: "f32_ulp_exp q = (if 2 ^ 24 \<le> q / pow2 ?k then ?k + 1 else ?k)"
    by (simp add: f32_ulp_exp_def nd Let_def)
  have half: "q / pow2 (?k + 1) = q / pow2 ?k / 2" by (simp only: pow2_Suc) simp
  show "2 ^ 23 \<le> q / pow2 (f32_ulp_exp q)" "q / pow2 (f32_ulp_exp q) < 2 ^ 24"
    using lo hi by (cases "2 ^ 24 \<le> q / pow2 ?k"; simp only: e half if_True if_False; simp)+
qed

lemma round_f32_eq:
  assumes "0 < q"
  shows "round_f32 q = of_int (round_even (q / pow2 (f32_ulp_exp q))) * pow2 (f32_ulp_exp q)"
  using assms by (simp add: round_f32_def Let_def)

lemma round_even_le: "q \<le> of_int n \<Longrightarrow> round_even q \<le> n"
  using round_even_bounds(2) [of q] by (meson ceiling_le_iff order_trans)

lemma round_even_ge: "of_int n \<le> q \<Longrightarrow> n \<le> round_even q"
  using round_even_bounds(1) [of q] by (meson le_floor_iff order_trans)

lemma round_f32_range:
  assumes "0 < q"
  shows "2 ^ 23 * pow2 (f32_ulp_exp q) \<le> round_f32 q" "round_f32 q \<le> 2 ^ 24 * pow2 (f32_ulp_exp q)"
proof -
  let ?e = "f32_ulp_exp q"
  note m = f32_mantissa [OF assms]
  have "(2 ^ 23::int) \<le> round_even (q / pow2 ?e)" by (rule round_even_ge) (use m in simp)
  moreover have "round_even (q / pow2 ?e) \<le> (2 ^ 24::int)" by (rule round_even_le) (use m in simp)
  ultimately have "(2 ^ 23::rat) \<le> of_int (round_even (q / pow2 ?e))" "of_int (round_even (q / pow2 ?e)) \<le> (2 ^ 24::rat)"
    by (metis of_int_le_iff of_int_numeral of_int_power)+
  then show "2 ^ 23 * pow2 ?e \<le> round_f32 q" "round_f32 q \<le> 2 ^ 24 * pow2 ?e"
    unfolding round_f32_eq [OF assms] by (simp_all add: less_imp_le)
qed

lemma round_f32_pos: "0 < q \<Longrightarrow> 0 < round_f32 q"
  using round_f32_range(1) [of q] by (rule less_le_trans [rotated]) simp_all

lemma round_f32_mono:
  assumes "0 < p" "p \<le> q"
  shows "round_f32 p \<le> round_f32 q"
proof -
  from assms have q: "0 < q" by simp
  let ?e = "f32_ulp_exp p" and ?f = "f32_ulp_exp q"
  note mp = f32_mantissa [OF assms(1)] and mq = f32_mantissa [OF q]
  consider "?e = ?f" | "?e < ?f" | "?f < ?e" by linarith
  then show ?thesis
  proof cases
    case 1
    from assms(2) have "p / pow2 ?f \<le> q / pow2 ?f" by (simp add: divide_right_mono less_imp_le)
    with 1 show ?thesis
      by (simp add: round_f32_eq assms(1) q round_even_mono less_imp_le)
  next
    case 2
    then have "2 * pow2 ?e \<le> pow2 ?f" using pow2_mono [of "?e + 1" ?f] by (simp add: pow2_Suc)
    with round_f32_range(2) [OF assms(1)] round_f32_range(1) [OF q] show ?thesis by simp
  next
    case 3
    then have "2 * pow2 ?f \<le> pow2 ?e" using pow2_mono [of "?f + 1" ?e] by (simp add: pow2_Suc)
    moreover from mp(1) have "2 ^ 23 * pow2 ?e \<le> p" by (simp add: field_simps)
    moreover from mq(2) have "q < 2 ^ 24 * pow2 ?f" by (simp add: field_simps)
    ultimately show ?thesis using assms(2) by simp
  qed
qed

lemma round_f32_0 [simp]: "round_f32 0 = 0"
  by (simp add: round_f32_def)

lemma round_f32_mono0: "0 \<le> p \<Longrightarrow> p \<le> q \<Longrightarrow> round_f32 p \<le> round_f32 q"
  using round_f32_mono [of p q] round_f32_pos [of q] by (cases "p = 0"; cases "q = 0") auto

text \<open>Rounding is idempotent on small multiples of an ulp, in particular on the literals used here.\<close>

lemma round_f32_sixty: "round_f32 60 = 60" "round_f32 1 = 1" "round_f32 61 = 61" "round_f32 (1 / 61) \<le> 1 / 60"
  by code_simp+

lemma round_f32_double: "round_f32 (2 * round_f32 (1 / 61)) \<le> 1 / 30"
  by code_simp

section \<open>Contributions\<close>

lemma denominator_pos: "0 < f32_add (f32_add rrf_k (round_f32 (of_nat r))) 1"
proof -
  have "0 \<le> round_f32 (of_nat r)" using round_f32_mono0 [of 0 "of_nat r"] by simp
  then have "0 < f32_add rrf_k (round_f32 (of_nat r))"
    unfolding f32_add_def rrf_k_def by (intro round_f32_pos) linarith
  then show ?thesis unfolding f32_add_def [of _ 1] by (intro round_f32_pos) linarith
qed

lemma contribution_pos: "0 < contribution rank"
  unfolding contribution_def f32_div_def by (intro round_f32_pos) (simp add: denominator_pos)

lemma contribution_antimono:
  assumes "i \<le> j"
  shows "contribution j \<le> contribution i"
proof -
  let ?d = "\<lambda>r. f32_add (f32_add rrf_k (round_f32 (of_nat r))) 1"
  have nonneg: "0 \<le> round_f32 (of_nat r)" for r using round_f32_mono0 [of 0 "of_nat r"] by simp
  have "round_f32 (of_nat i) \<le> round_f32 (of_nat j)" using assms by (intro round_f32_mono0) simp_all
  then have "f32_add rrf_k (round_f32 (of_nat i)) \<le> f32_add rrf_k (round_f32 (of_nat j))"
    unfolding f32_add_def rrf_k_def using nonneg [of i] by (intro round_f32_mono0) simp_all
  then have "?d i \<le> ?d j"
    using round_f32_mono0 [of 0 "rrf_k + round_f32 (of_nat i)"] nonneg [of i]
    unfolding f32_add_def rrf_k_def by (intro round_f32_mono0) simp_all
  then have "1 / ?d j \<le> 1 / ?d i" using denominator_pos [of i] denominator_pos [of j] by (intro divide_left_mono) simp_all
  then show ?thesis
    using denominator_pos [of j] unfolding contribution_def f32_div_def by (intro round_f32_mono) simp_all
qed

lemma contribution_le: "contribution rank \<le> round_f32 (1 / 61)"
proof -
  have "contribution 0 = round_f32 (1 / 61)"
    by (simp add: contribution_def f32_div_def f32_add_def rrf_k_def round_f32_sixty)
  with contribution_antimono [of 0 rank] show ?thesis by simp
qed

section \<open>The map of scores\<close>

fun rank_from :: "nat \<Rightarrow> uuid \<Rightarrow> recall_hit list \<Rightarrow> nat option" where
  "rank_from n i [] = None"
| "rank_from n i (h # hs) = (if hit_chunk_id h = i then Some n else rank_from (Suc n) i hs)"

abbreviation rank_of :: "uuid \<Rightarrow> recall_hit list \<Rightarrow> nat option" where
  "rank_of \<equiv> rank_from 0"

abbreviation hit_of :: "uuid \<Rightarrow> recall_hit list \<Rightarrow> recall_hit option" where
  "hit_of i hs \<equiv> List.find (\<lambda>h. hit_chunk_id h = i) hs"

definition entry_of :: "(rat \<times> recall_hit) list \<Rightarrow> uuid \<Rightarrow> (rat \<times> recall_hit) option" where
  "entry_of m i = List.find (\<lambda>e. hit_chunk_id (snd e) = i) m"

abbreviation entry_ids :: "(rat \<times> recall_hit) list \<Rightarrow> uuid list" where
  "entry_ids m \<equiv> map (\<lambda>e. hit_chunk_id (snd e)) m"

text \<open>The reference score: the rounded sum of the contributions of the ranks a chunk has.\<close>

definition fused_score :: "recall_hit list \<Rightarrow> recall_hit list \<Rightarrow> uuid \<Rightarrow> rat" where
  "fused_score dense sparse i = (case (rank_of i dense, rank_of i sparse) of
     (None, None) \<Rightarrow> 0
   | (Some a, None) \<Rightarrow> contribution a
   | (None, Some b) \<Rightarrow> contribution b
   | (Some a, Some b) \<Rightarrow> f32_add (contribution a) (contribution b))"

definition fused_hit :: "recall_hit list \<Rightarrow> recall_hit list \<Rightarrow> uuid \<Rightarrow> recall_hit option" where
  "fused_hit dense sparse i = (case hit_of i dense of None \<Rightarrow> hit_of i sparse | Some h \<Rightarrow> Some h)"

lemma rank_from_None: "rank_from n i hs = None \<longleftrightarrow> i \<notin> hit_chunk_id ` set hs"
  by (induction hs arbitrary: n) auto

lemma hit_of_None: "hit_of i hs = None \<longleftrightarrow> i \<notin> hit_chunk_id ` set hs"
  by (auto simp: find_None_filter)

lemma entry_of_rrf_entry:
  "entry_of (rrf_entry c h m) i =
     (if i = hit_chunk_id h
      then Some (case entry_of m i of None \<Rightarrow> (c, h) | Some (s, g) \<Rightarrow> (f32_add s c, g))
      else entry_of m i)"
  by (induction c h m rule: rrf_entry.induct) (auto simp: entry_of_def)

lemma entry_ids_rrf_entry:
  "set (entry_ids (rrf_entry c h m)) = insert (hit_chunk_id h) (set (entry_ids m))"
  "distinct (entry_ids m) \<Longrightarrow> distinct (entry_ids (rrf_entry c h m))"
proof -
  show ids: "set (entry_ids (rrf_entry c h m)) = insert (hit_chunk_id h) (set (entry_ids m))" for c h m
    by (induction c h m rule: rrf_entry.induct) auto
  show "distinct (entry_ids m) \<Longrightarrow> distinct (entry_ids (rrf_entry c h m))"
  proof (induction c h m rule: rrf_entry.induct)
    case (2 c h s g m)
    then show ?case using ids [of c h m] by (cases "hit_chunk_id g = hit_chunk_id h") auto
  qed simp
qed

lemma entry_ids_rrf_list:
  "set (entry_ids (rrf_list r l m)) = hit_chunk_id ` set l \<union> set (entry_ids m)"
  "distinct (entry_ids m) \<Longrightarrow> distinct (entry_ids (rrf_list r l m))"
  by (induction l arbitrary: r m)
    (simp_all add: entry_ids_rrf_entry(1) [simplified] entry_ids_rrf_entry(2))

lemma entry_of_rrf_list:
  assumes "distinct (map hit_chunk_id l)"
  shows "entry_of (rrf_list r l m) i =
    (case (rank_from r i l, hit_of i l) of
       (Some n, Some h) \<Rightarrow>
         Some (case entry_of m i of None \<Rightarrow> (contribution n, h) | Some (s, g) \<Rightarrow> (f32_add s (contribution n), g))
     | _ \<Rightarrow> entry_of m i)"
  using assms
proof (induction l arbitrary: r m)
  case (Cons h l)
  have "rank_from (Suc r) (hit_chunk_id h) l = None" using Cons.prems by (simp add: rank_from_None)
  with Cons show ?case by (auto simp: entry_of_rrf_entry split: option.splits)
qed simp

lemma rank_hit_of: "rank_from n i hs = None \<longleftrightarrow> hit_of i hs = None"
  by (simp only: rank_from_None hit_of_None)

lemma entry_of_rrf_scores:
  assumes "distinct (map hit_chunk_id dense)" "distinct (map hit_chunk_id sparse)"
  shows "entry_of (rrf_scores [dense, sparse]) i =
    map_option (\<lambda>h. (fused_score dense sparse i, h)) (fused_hit dense sparse i)"
  using rank_hit_of [of 0 i dense] rank_hit_of [of 0 i sparse]
  by (auto simp: rrf_scores_def entry_of_rrf_list assms fused_score_def fused_hit_def split: option.splits)
    (simp_all add: entry_of_def)

lemma entry_of_mem:
  assumes "distinct (entry_ids m)" "(s, h) \<in> set m"
  shows "entry_of m (hit_chunk_id h) = Some (s, h)"
proof -
  from assms(2) obtain i where i: "i < length m" "m ! i = (s, h)" by (auto simp: in_set_conv_nth)
  then show ?thesis unfolding entry_of_def find_Some_iff
  proof (intro exI [of _ i] conjI allI impI)
    fix j assume "j < i"
    with assms(1) i have "entry_ids m ! j \<noteq> entry_ids m ! i" by (subst nth_eq_iff_index_eq) simp_all
    with \<open>j < i\<close> i show "hit_chunk_id (snd (m ! j)) \<noteq> hit_chunk_id h" by simp
  qed simp_all
qed

lemma rrf_scores_entries:
  assumes "distinct (map hit_chunk_id dense)" "distinct (map hit_chunk_id sparse)"
    "(s, h) \<in> set (rrf_scores [dense, sparse])"
  shows "s = fused_score dense sparse (hit_chunk_id h)" "fused_hit dense sparse (hit_chunk_id h) = Some h"
proof -
  have "distinct (entry_ids (rrf_scores [dense, sparse]))" by (simp add: rrf_scores_def entry_ids_rrf_list(2))
  from entry_of_mem [OF this assms(3)] entry_of_rrf_scores [OF assms(1,2), of "hit_chunk_id h"]
  show "s = fused_score dense sparse (hit_chunk_id h)" "fused_hit dense sparse (hit_chunk_id h) = Some h"
    by auto
qed

section \<open>Fused scores\<close>

lemma f32_add_pos: "0 < a \<Longrightarrow> 0 < b \<Longrightarrow> 0 < f32_add a b"
  by (simp add: f32_add_def round_f32_pos)

lemma fused_score_bounds:
  "0 \<le> fused_score dense sparse i" "fused_score dense sparse i \<le> 1 / 30"
proof -
  show "0 \<le> fused_score dense sparse i"
    by (auto simp: fused_score_def contribution_pos f32_add_pos less_imp_le split: option.splits)
  have one: "contribution r \<le> 1 / 30" for r
    using contribution_le [of r] round_f32_sixty(4) by simp
  have "f32_add (contribution a) (contribution b) \<le> round_f32 (2 * round_f32 (1 / 61))" for a b
    unfolding f32_add_def using contribution_le [of a] contribution_le [of b] contribution_pos [of a] contribution_pos [of b]
    by (intro round_f32_mono) simp_all
  then have two: "f32_add (contribution a) (contribution b) \<le> 1 / 30" for a b
    using round_f32_double by (rule order_trans)
  show "fused_score dense sparse i \<le> 1 / 30"
    unfolding fused_score_def by (cases "rank_of i dense"; cases "rank_of i sparse"; simp only: prod.case option.case one two; simp)
qed

text \<open>A chunk that both legs rank at least as well as another (an absent chunk ranks last).\<close>

definition ranks_ahead :: "recall_hit list \<Rightarrow> uuid \<Rightarrow> uuid \<Rightarrow> bool" where
  "ranks_ahead l a b \<longleftrightarrow> (case (rank_of a l, rank_of b l) of
     (_, None) \<Rightarrow> True | (None, Some _) \<Rightarrow> False | (Some i, Some j) \<Rightarrow> i \<le> j)"

lemma le_f32_add: "f32_add a 0 \<le> f32_add a b" if "0 < a" "0 < b"
  unfolding f32_add_def using that by (intro round_f32_mono) simp_all

lemma pow2_diff: "pow2 (a - b) = pow2 a / pow2 b"
  by (simp add: pow2_powi power_int_diff)

lemma round_even_of_int [simp]: "round_even (of_int n) = n"
  by (simp add: round_even_def)

text \<open>A rounded value is its own rounding, so adding nothing changes no score.\<close>

lemma f32_ulp_exp_unique:
  assumes "0 < q" "2 ^ 23 \<le> q / pow2 e" "q / pow2 e < 2 ^ 24"
  shows "f32_ulp_exp q = e"
proof (rule ccontr)
  let ?f = "f32_ulp_exp q"
  have lo: "2 ^ 23 * pow2 x \<le> q" and hi: "q < 2 ^ 24 * pow2 x" if "2 ^ 23 \<le> q / pow2 x" "q / pow2 x < 2 ^ 24" for x
    using that by (simp_all add: field_simps)
  note m = f32_mantissa [OF assms(1)]
  assume "?f \<noteq> e"
  then consider "?f + 1 \<le> e" | "e + 1 \<le> ?f" by linarith
  then show False
  proof cases
    case 1
    then have "2 * pow2 ?f \<le> pow2 e" using pow2_mono [of "?f + 1" e] by (simp add: pow2_Suc)
    with lo [OF assms(2,3)] hi [OF m] show False by simp
  next
    case 2
    then have "2 * pow2 e \<le> pow2 ?f" using pow2_mono [of "e + 1" ?f] by (simp add: pow2_Suc)
    with lo [OF m] hi [OF assms(2,3)] show False by simp
  qed
qed

lemma round_f32_idem:
  assumes "0 < q"
  shows "round_f32 (round_f32 q) = round_f32 q"
proof -
  let ?e = "f32_ulp_exp q" and ?n = "round_even (q / pow2 (f32_ulp_exp q))"
  have r: "round_f32 q = of_int ?n * pow2 ?e" by (rule round_f32_eq [OF assms])
  note range = round_f32_range [OF assms]
  have pos: "0 < round_f32 q" by (rule round_f32_pos [OF assms])
  have n: "(2 ^ 23 :: rat) \<le> of_int ?n" "of_int ?n \<le> (2 ^ 24 :: rat)" using range by (simp_all add: r)
  show ?thesis
  proof (cases "of_int ?n = (2 ^ 24 :: rat)")
    case False
    with n have "f32_ulp_exp (round_f32 q) = ?e"
      by (intro f32_ulp_exp_unique [OF pos]) (simp_all add: r)
    then show ?thesis by (subst round_f32_eq [OF pos]) (simp add: r)
  next
    case True
    then have v: "round_f32 q = 2 ^ 23 * pow2 (?e + 1)" by (simp add: r pow2_Suc)
    then have "f32_ulp_exp (round_f32 q) = ?e + 1"
      by (intro f32_ulp_exp_unique [OF pos]) simp_all
    moreover have "round_even (2 ^ 23) = 2 ^ 23" using round_even_of_int [of "2 ^ 23"] by simp
    ultimately show ?thesis by (subst round_f32_eq [OF pos]) (simp add: v)
  qed
qed

lemma contribution_rounded: "f32_add (contribution r) 0 = contribution r"
  using denominator_pos [of r] by (simp add: f32_add_def [of _ 0] contribution_def f32_div_def round_f32_idem)

lemma fused_score_dominates:
  assumes "ranks_ahead dense a b" "ranks_ahead sparse a b"
  shows "fused_score dense sparse b \<le> fused_score dense sparse a"
proof -
  have mono: "f32_add (contribution j) (contribution l) \<le> f32_add (contribution i) (contribution k)" if "i \<le> j" "k \<le> l" for i j k l
    unfolding f32_add_def
    using contribution_antimono [OF that(1)] contribution_antimono [OF that(2)] contribution_pos [of j] contribution_pos [of l]
    by (intro round_f32_mono) simp_all
  have one: "contribution j \<le> f32_add (contribution i) (contribution k)" if "i \<le> j" for i j k
    using contribution_antimono [OF that] le_f32_add [OF contribution_pos contribution_pos, of i k]
    by (simp add: contribution_rounded)
  have other: "contribution l \<le> f32_add (contribution i) (contribution k)" if "k \<le> l" for i k l
    using one [OF that, of i] by (simp add: f32_add_def add.commute)
  show ?thesis
  proof (cases "rank_of b dense = None \<and> rank_of b sparse = None")
    case True
    then show ?thesis using fused_score_bounds(1) [of dense sparse a] by (simp add: fused_score_def)
  next
    case False
    with assms show ?thesis
      by (cases "rank_of a dense"; cases "rank_of a sparse"; cases "rank_of b dense"; cases "rank_of b sparse")
        (simp_all add: fused_score_def ranks_ahead_def contribution_antimono mono one other)
  qed
qed

section \<open>The fused ranking\<close>

lemma sorted_wrt_take_rest:
  assumes "sorted_wrt R xs" "x \<in> set (take k xs)" "y \<in> set (drop k xs)"
  shows "R x y"
  using assms by (metis append_take_drop_id sorted_wrt_append)

lemma sorted_wrt_sort_key: "sorted_wrt (\<lambda>a b. f a \<le> f b) (sort_key f xs)"
  using sorted_sort_key [of f xs] by (simp add: sorted_map)

definition ranked ::
  "((rat \<times> recall_hit) list \<Rightarrow> (rat \<times> recall_hit) list) \<Rightarrow> recall_hit list \<Rightarrow> recall_hit list \<Rightarrow> (rat \<times> recall_hit) list" where
  "ranked iter dense sparse = sort_key (\<lambda>(s, _). - s) (iter (rrf_scores [dense, sparse]))"

abbreviation permutes :: "('a list \<Rightarrow> 'a list) \<Rightarrow> bool" where
  "permutes iter \<equiv> (\<forall>xs. mset (iter xs) = mset xs)"

abbreviation distinct_hits :: "recall_hit list \<Rightarrow> bool" where
  "distinct_hits hs \<equiv> distinct (map hit_chunk_id hs)"

lemma set_ranked: "permutes iter \<Longrightarrow> set (ranked iter dense sparse) = set (rrf_scores [dense, sparse])"
  unfolding ranked_def by (metis set_mset_mset set_sort)

lemma ranked_entry:
  assumes "distinct_hits dense" "distinct_hits sparse" "permutes iter" "(s, h) \<in> set (ranked iter dense sparse)"
  shows "s = fused_score dense sparse (hit_chunk_id h)" "fused_hit dense sparse (hit_chunk_id h) = Some h"
  using rrf_scores_entries [OF assms(1,2)] assms(4) unfolding set_ranked [OF assms(3)] by blast+

lemma ranked_ids:
  assumes "permutes iter"
  shows "distinct (entry_ids (ranked iter dense sparse))"
    "set (entry_ids (ranked iter dense sparse)) = hit_chunk_id ` (set dense \<union> set sparse)"
proof -
  have "mset (entry_ids (ranked iter dense sparse)) = mset (entry_ids (rrf_scores [dense, sparse]))"
    by (simp add: ranked_def assms)
  moreover have "distinct (entry_ids (rrf_scores [dense, sparse]))"
    by (simp add: rrf_scores_def entry_ids_rrf_list(2))
  ultimately show "distinct (entry_ids (ranked iter dense sparse))" by (metis mset_eq_imp_distinct_iff)
  have "set (entry_ids (ranked iter dense sparse)) = set (entry_ids (rrf_scores [dense, sparse]))"
    by (simp only: set_map set_ranked [OF assms])
  then show "set (entry_ids (ranked iter dense sparse)) = hit_chunk_id ` (set dense \<union> set sparse)"
    by (simp add: rrf_scores_def entry_ids_rrf_list(1) [simplified] image_Un Un_commute)
qed

lemma ranked_sorted:
  assumes "distinct_hits dense" "distinct_hits sparse" "permutes iter"
  shows "sorted_wrt (\<lambda>g h. fused_score dense sparse (hit_chunk_id (snd h)) \<le> fused_score dense sparse (hit_chunk_id (snd g)))
    (ranked iter dense sparse)"
  unfolding ranked_def
proof (rule sorted_wrt_mono_rel [OF _ sorted_wrt_sort_key])
  fix g h assume "g \<in> set (sort_key (\<lambda>(s, _). - s) (iter (rrf_scores [dense, sparse])))"
    "h \<in> set (sort_key (\<lambda>(s, _). - s) (iter (rrf_scores [dense, sparse])))"
    and "(case g of (s, _) \<Rightarrow> - s) \<le> (case h of (s, _) \<Rightarrow> - s)"
  then show "fused_score dense sparse (hit_chunk_id (snd h)) \<le> fused_score dense sparse (hit_chunk_id (snd g))"
    using ranked_entry(1) [OF assms, of "fst g" "snd g"] ranked_entry(1) [OF assms, of "fst h" "snd h"]
    by (simp add: case_prod_beta ranked_def)
qed

lemma rrf_fuse_ids: "map hit_chunk_id (rrf_fuse iter [dense, sparse] k) = take k (entry_ids (ranked iter dense sparse))"
  by (simp add: rrf_fuse_def ranked_def take_map case_prod_beta comp_def)

lemma rrf_fuse_length: "length (rrf_fuse iter ls k) \<le> k"
  by (simp add: rrf_fuse_def)

lemma rrf_fuse_mem:
  "h \<in> set (rrf_fuse iter [dense, sparse] k) \<longleftrightarrow>
     (\<exists>s g. (s, g) \<in> set (take k (ranked iter dense sparse)) \<and> h = g\<lparr>hit_score := Fin s\<rparr>)"
  by (force simp: rrf_fuse_def ranked_def)

lemma fused_hit_mem: "fused_hit dense sparse i = Some g \<Longrightarrow> g \<in> set dense \<union> set sparse"
  by (auto simp: fused_hit_def split: option.splits dest: find_Some_filter)

text \<open>Every fused hit is a hit of one of the legs, with its score replaced.\<close>

lemma rrf_fuse_from:
  assumes "distinct_hits dense" "distinct_hits sparse" "permutes iter" "h \<in> set (rrf_fuse iter [dense, sparse] k)"
  shows "\<exists>g \<in> set dense \<union> set sparse. fused_hit dense sparse (hit_chunk_id h) = Some g \<and>
    h = g\<lparr>hit_score := Fin (fused_score dense sparse (hit_chunk_id h))\<rparr>"
proof -
  from assms(4) obtain s g where g: "(s, g) \<in> set (ranked iter dense sparse)" "h = g\<lparr>hit_score := Fin s\<rparr>"
    unfolding rrf_fuse_mem by (blast dest: in_set_takeD)
  from ranked_entry [OF assms(1,2,3) g(1)] fused_hit_mem [of dense sparse "hit_chunk_id g" g] g(2)
  show ?thesis by auto
qed

section \<open>Properties\<close>

text \<open>
  C15: Fusion returns the best of both legs: at most \<open>k\<close> distinct chunks, in order of the
  fused binary32 score, each a hit of a leg with nothing but its score replaced (the dense leg's copy
  if both have it); no chunk left out scores higher than one returned; and whatever order the
  hash map is read in, a chunk that both legs rank at least as well as another never scores below it.
\<close>

theorem rrf_fuse_top_k:
  assumes "distinct_hits dense" "distinct_hits sparse" "permutes iter"
  shows "distinct_hits (rrf_fuse iter [dense, sparse] k) \<and>
    length (rrf_fuse iter [dense, sparse] k) = min k (card (hit_chunk_id ` (set dense \<union> set sparse))) \<and>
    (\<forall>h \<in> set (rrf_fuse iter [dense, sparse] k).
       \<exists>g. fused_hit dense sparse (hit_chunk_id h) = Some g \<and>
         h = g\<lparr>hit_score := Fin (fused_score dense sparse (hit_chunk_id h))\<rparr>) \<and>
    sorted_wrt (\<lambda>g h. fused_score dense sparse (hit_chunk_id h) \<le> fused_score dense sparse (hit_chunk_id g))
      (rrf_fuse iter [dense, sparse] k) \<and>
    (\<forall>i \<in> hit_chunk_id ` (set dense \<union> set sparse) - hit_chunk_id ` set (rrf_fuse iter [dense, sparse] k).
       \<forall>h \<in> set (rrf_fuse iter [dense, sparse] k).
         fused_score dense sparse i \<le> fused_score dense sparse (hit_chunk_id h)) \<and>
    (\<forall>a b. ranks_ahead dense a b \<longrightarrow> ranks_ahead sparse a b \<longrightarrow>
       fused_score dense sparse b \<le> fused_score dense sparse a)"
proof (intro conjI ballI allI impI)
  let ?out = "rrf_fuse iter [dense, sparse] k" and ?r = "ranked iter dense sparse"
  let ?f = "fused_score dense sparse"
  note r = ranked_ids [OF assms(3), of dense sparse]
  show "distinct_hits ?out" using r(1) by (simp add: rrf_fuse_ids)
  have "length ?r = card (hit_chunk_id ` (set dense \<union> set sparse))"
    using distinct_card [OF r(1)] r(2) by simp
  moreover have "length ?out = min k (length ?r)" using arg_cong [OF rrf_fuse_ids, of length iter dense sparse k] by simp
  ultimately show "length ?out = min k (card (hit_chunk_id ` (set dense \<union> set sparse)))" by simp
  show "\<exists>g. fused_hit dense sparse (hit_chunk_id h) = Some g \<and> h = g\<lparr>hit_score := Fin (?f (hit_chunk_id h))\<rparr>"
    if "h \<in> set ?out" for h using rrf_fuse_from [OF assms that] by blast
  have "sorted_wrt (\<lambda>i j. ?f j \<le> ?f i) (entry_ids ?r)"
    using ranked_sorted [OF assms] by (simp add: sorted_wrt_map)
  then have s: "sorted_wrt (\<lambda>i j. ?f j \<le> ?f i) (map hit_chunk_id ?out @ drop k (entry_ids ?r))"
    unfolding rrf_fuse_ids append_take_drop_id .
  then show "sorted_wrt (\<lambda>g h. ?f (hit_chunk_id h) \<le> ?f (hit_chunk_id g)) ?out"
    by (simp add: sorted_wrt_append sorted_wrt_map)
  fix i h assume i: "i \<in> hit_chunk_id ` (set dense \<union> set sparse) - hit_chunk_id ` set ?out" and h: "h \<in> set ?out"
  from i r(2) have "i \<in> set (take k (entry_ids ?r) @ drop k (entry_ids ?r))" by simp
  with i have "i \<in> set (drop k (entry_ids ?r))" unfolding rrf_fuse_ids [symmetric] by auto
  with s h show "?f i \<le> ?f (hit_chunk_id h)" by (auto simp: sorted_wrt_append)
qed (rule fused_score_dominates)

definition sample_hit :: "uuid \<Rightarrow> recall_hit" where
  "sample_hit i = \<lparr>hit_chunk_id = i, hit_document_id = ''d'', hit_seq = 0, hit_content = ''c'', hit_score = NaN,
     hit_entity_tags = [], hit_kind = ''content'', hit_source = ''agent'', hit_source_synced_at = None,
     hit_support_tier = None, hit_acl_provenance = Mirrored, hit_trust_tier = Observation,
     hit_valid_from = 0, hit_provenance = 1\<rparr>"

theorem rrf_fuse_top_k_witness:
  "map hit_chunk_id (rrf_fuse rev [[sample_hit 1, sample_hit 2], [sample_hit 2]] 2) = [2, 1] \<and>
   distinct_hits (rrf_fuse rev [[sample_hit 1, sample_hit 2], [sample_hit 2]] 2)"
proof
  show "map hit_chunk_id (rrf_fuse rev [[sample_hit 1, sample_hit 2], [sample_hit 2]] 2) = [2, 1]" by code_simp
  show "distinct_hits (rrf_fuse rev [[sample_hit 1, sample_hit 2], [sample_hit 2]] 2)"
    using rrf_fuse_top_k [of "[sample_hit 1, sample_hit 2]" "[sample_hit 2]" rev 2] by (simp add: sample_hit_def)
qed

end
