(* ===== verification/Revocation.thy ===== *)
theory Revocation
  imports Core_Types
begin

text \<open>
  The revocation plane (\<^verbatim>\<open>crates/verity-server/src/revocation.rs\<close>) and the principal-token table
  (\<^verbatim>\<open>upsert_principal_tokens\<close> in \<^verbatim>\<open>main.rs\<close>): durable tombstones and revoked principals, their five
  second memoization per tenant, and the handle-relative subtraction every scoped read applies.
  The wall clock \<open>now\<close> is an argument; \<open>seconds n\<close> converts to the clock's unit.
\<close>

definition seconds :: "int \<Rightarrow> instant" where
  "seconds n = n * 1000000"

definition cache_ttl :: instant where
  "cache_ttl = seconds 5"

definition max_ttl_seconds :: int where
  "max_ttl_seconds = 12 * 60 * 60"

definition retention_secs :: int where
  "retention_secs = max_ttl_seconds + 3600"

section \<open>Tables\<close>

record revocation_row =
  rv_tenant_id :: tenant_id
  rv_principal :: string
  rv_token :: principal_token
  rv_at :: instant

record revoked_principal_row =
  rp_tenant_id :: tenant_id
  rp_token :: principal_token
  rp_principal :: string
  rp_revoked_at :: instant
  rp_reinstated_at :: "instant option"

record principal_row =
  pr_tenant_id :: tenant_id
  pr_principal :: string
  pr_token :: principal_token

record revocation_db =
  rd_revocations :: "revocation_row list"
  rd_revoked_principal :: "revoked_principal_row list"
  rd_principals :: "principal_row list"

section \<open>The plane\<close>

type_synonym tombstone_set = "(principal_token \<times> instant) list"
type_synonym revoked_set = "principal_token list"

text \<open>A memoized entry carries the instant it was loaded and lives for the cache's time to live.\<close>

record revocation_plane =
  pl_cache :: "tenant_id \<Rightarrow> (instant \<times> tombstone_set) option"
  pl_revoked :: "tenant_id \<Rightarrow> (instant \<times> revoked_set) option"
  pl_window_secs :: int
  pl_subtractions :: "nat option"

definition new_plane :: "int \<Rightarrow> revocation_plane" where
  "new_plane window_secs = \<lparr>pl_cache = Map.empty, pl_revoked = Map.empty,
     pl_window_secs = max window_secs 0, pl_subtractions = None\<rparr>"

definition live_entry :: "instant \<Rightarrow> (instant \<times> 'a) option \<Rightarrow> 'a option" where
  "live_entry now e = (case e of None \<Rightarrow> None | Some (loaded, v) \<Rightarrow>
     if now < loaded + cache_ttl then Some v else None)"

text \<open>\<^verbatim>\<open>SELECT token, min(at) ... WHERE at > now() - RETENTION GROUP BY token\<close>.\<close>

definition retained :: "instant \<Rightarrow> tenant_id \<Rightarrow> revocation_db \<Rightarrow> revocation_row list" where
  "retained now t db =
     filter (\<lambda>r. rv_tenant_id r = t \<and> now - seconds retention_secs < rv_at r) (rd_revocations db)"

definition min_at :: "principal_token \<Rightarrow> revocation_row list \<Rightarrow> instant" where
  "min_at token rows =
     (case map rv_at (filter (\<lambda>r. rv_token r = token) rows) of [] \<Rightarrow> 0 | a # as \<Rightarrow> foldl min a as)"

definition load_tombstones :: "instant \<Rightarrow> tenant_id \<Rightarrow> revocation_db \<Rightarrow> tombstone_set" where
  "load_tombstones now t db =
     (let rows = retained now t db
      in map (\<lambda>token. (token, min_at token rows)) (remdups (map rv_token rows)))"

definition retained_tombstones ::
  "instant \<Rightarrow> tenant_id \<Rightarrow> revocation_db \<Rightarrow> revocation_plane \<Rightarrow> tombstone_set \<times> revocation_plane" where
  "retained_tombstones now t db pl =
     (case live_entry now (pl_cache pl t) of
        Some hit \<Rightarrow> (hit, pl)
      | None \<Rightarrow> let ts = load_tombstones now t db
                in (ts, pl\<lparr>pl_cache := (pl_cache pl)(t \<mapsto> (now, ts))\<rparr>))"

definition load_revoked :: "tenant_id \<Rightarrow> revocation_db \<Rightarrow> revoked_set" where
  "load_revoked t db = map rp_token
     (filter (\<lambda>r. rp_tenant_id r = t \<and> rp_reinstated_at r = None) (rd_revoked_principal db))"

definition revoked_set ::
  "instant \<Rightarrow> tenant_id \<Rightarrow> revocation_db \<Rightarrow> revocation_plane \<Rightarrow> revoked_set \<times> revocation_plane" where
  "revoked_set now t db pl =
     (case live_entry now (pl_revoked pl t) of
        Some hit \<Rightarrow> (hit, pl)
      | None \<Rightarrow> let rs = load_revoked t db
                in (rs, pl\<lparr>pl_revoked := (pl_revoked pl)(t \<mapsto> (now, rs))\<rparr>))"

definition revoke_principal ::
  "instant \<Rightarrow> tenant_id \<Rightarrow> string \<Rightarrow> principal_token \<Rightarrow> revocation_db \<times> revocation_plane
   \<Rightarrow> revocation_db \<times> revocation_plane" where
  "revoke_principal now t who token st =
     (let (db, pl) = st;
          P = (\<lambda>r. rp_tenant_id r = t \<and> rp_token r = token);
          rows = (if list_ex P (rd_revoked_principal db)
                  then update_where P (\<lambda>r. r\<lparr>rp_reinstated_at := None, rp_revoked_at := now,
                                             rp_principal := who\<rparr>) (rd_revoked_principal db)
                  else rd_revoked_principal db @
                    [\<lparr>rp_tenant_id = t, rp_token = token, rp_principal = who,
                      rp_revoked_at = now, rp_reinstated_at = None\<rparr>])
      in (db\<lparr>rd_revoked_principal := rows\<rparr>, pl\<lparr>pl_revoked := (pl_revoked pl)(t := None)\<rparr>))"

definition reinstate_principal ::
  "instant \<Rightarrow> tenant_id \<Rightarrow> principal_token \<Rightarrow> revocation_db \<times> revocation_plane
   \<Rightarrow> bool \<times> (revocation_db \<times> revocation_plane)" where
  "reinstate_principal now t token st =
     (let (db, pl) = st;
          P = (\<lambda>r. rp_tenant_id r = t \<and> rp_token r = token \<and> rp_reinstated_at r = None)
      in (0 < rows_affected P (rd_revoked_principal db),
          (db\<lparr>rd_revoked_principal := update_where P (\<lambda>r. r\<lparr>rp_reinstated_at := Some now\<rparr>)
                (rd_revoked_principal db)\<rparr>,
           pl\<lparr>pl_revoked := (pl_revoked pl)(t := None)\<rparr>)))"

text \<open>The drop rule on the two loaded sets.\<close>

definition keeps_token :: "revoked_set \<Rightarrow> tombstone_set \<Rightarrow> instant \<Rightarrow> principal_token \<Rightarrow> bool" where
  "keeps_token revoked tombstones issued_at t \<longleftrightarrow>
     t \<notin> set revoked \<and> (case map_of tombstones t of None \<Rightarrow> True | Some first_at \<Rightarrow> first_at < issued_at)"

definition subtract ::
  "instant \<Rightarrow> tenant_id \<Rightarrow> principal_token list \<Rightarrow> instant \<Rightarrow> revocation_db \<Rightarrow> revocation_plane
   \<Rightarrow> principal_token list \<times> revocation_plane" where
  "subtract now t principals issued_at db pl =
     (let (tombstones, pl1) = retained_tombstones now t db pl;
          (revoked, pl2) = revoked_set now t db pl1
      in if tombstones = [] \<and> revoked = [] then (principals, pl2)
         else let kept = filter (keeps_token revoked tombstones issued_at) principals;
                  dropped = length principals - length kept
              in (kept, pl2\<lparr>pl_subtractions := map_option (\<lambda>c. c + dropped) (pl_subtractions pl2)\<rparr>))"

definition subtract_window ::
  "instant \<Rightarrow> tenant_id \<Rightarrow> principal_token list \<Rightarrow> revocation_db \<Rightarrow> revocation_plane
   \<Rightarrow> principal_token list \<times> revocation_plane" where
  "subtract_window now t principals db pl =
     subtract now t principals (now - seconds (pl_window_secs pl)) db pl"

definition record_revocations ::
  "instant \<Rightarrow> tenant_id \<Rightarrow> string list \<Rightarrow> (string \<times> principal_token) list
   \<Rightarrow> revocation_db \<times> revocation_plane \<Rightarrow> nat \<times> (revocation_db \<times> revocation_plane)" where
  "record_revocations now t affected lost st =
     (let (db, pl) = st;
          rows = concat (map (\<lambda>p. map (\<lambda>(_, token).
            \<lparr>rv_tenant_id = t, rv_principal = p, rv_token = token, rv_at = now\<rparr>) lost) affected)
      in (length rows,
          (db\<lparr>rd_revocations := rd_revocations db @ rows\<rparr>,
           pl\<lparr>pl_cache := (pl_cache pl)(t := None)\<rparr>)))"

section \<open>Principal tokens\<close>

text \<open>Look a principal up, or give it the next unused number of the tenant.\<close>

definition next_token :: "tenant_id \<Rightarrow> principal_row list \<Rightarrow> principal_token" where
  "next_token t rows =
     (case map pr_token (filter (\<lambda>r. pr_tenant_id r = t) rows) of [] \<Rightarrow> 0 + 1 | a # as \<Rightarrow> foldl max a as + 1)"

definition upsert_principal ::
  "tenant_id \<Rightarrow> string \<Rightarrow> principal_row list \<Rightarrow> principal_token \<times> principal_row list" where
  "upsert_principal t p rows =
     (case List.find (\<lambda>r. pr_tenant_id r = t \<and> pr_principal r = p) rows of
        Some r \<Rightarrow> (pr_token r, rows)
      | None \<Rightarrow> let n = next_token t rows
                in (n, rows @ [\<lparr>pr_tenant_id = t, pr_principal = p, pr_token = n\<rparr>]))"

fun upsert_principal_tokens ::
  "tenant_id \<Rightarrow> string list \<Rightarrow> principal_row list \<Rightarrow> (string \<times> principal_token) list \<times> principal_row list" where
  "upsert_principal_tokens t [] rows = ([], rows)"
| "upsert_principal_tokens t (p # ps) rows =
     (let (token, rows1) = upsert_principal t p rows;
          (mappings, rows2) = upsert_principal_tokens t ps rows1
      in ((p, token) # mappings, rows2))"

text \<open>\<^verbatim>\<open>PRIMARY KEY (tenant_id, principal)\<close> and \<^verbatim>\<open>UNIQUE (tenant_id, token)\<close>.\<close>

definition principals_ok :: "principal_row list \<Rightarrow> bool" where
  "principals_ok rows \<longleftrightarrow> distinct (map (\<lambda>r. (pr_tenant_id r, pr_principal r)) rows) \<and>
     distinct (map (\<lambda>r. (pr_tenant_id r, pr_token r)) rows)"

section \<open>Lemmas\<close>

lemma foldl_min_Min: "foldl min (a :: int) as = Min (insert a (set as))"
proof (induction as arbitrary: a)
  case (Cons b as)
  have "Min (insert (min a b) (set as)) = Min (insert a (insert b (set as)))"
    by (cases "set as = {}") (simp_all add: min.assoc)
  with Cons show ?case by simp
qed simp

lemma foldl_max_Max: "foldl max (a :: int) as = Max (insert a (set as))"
proof (induction as arbitrary: a)
  case (Cons b as)
  have "Max (insert (max a b) (set as)) = Max (insert a (insert b (set as)))"
    by (cases "set as = {}") (simp_all add: max.assoc)
  with Cons show ?case by simp
qed simp

lemma min_at_Min:
  assumes "r \<in> set rows" "rv_token r = token"
  shows "min_at token rows = Min (rv_at ` {r \<in> set rows. rv_token r = token})"
proof -
  let ?as = "map rv_at (filter (\<lambda>r. rv_token r = token) rows)"
  have "?as \<noteq> []" using assms by (auto simp: filter_empty_conv)
  then obtain a as where as: "?as = a # as" by (cases ?as) auto
  have "set ?as = rv_at ` {r \<in> set rows. rv_token r = token}" by auto
  with as show ?thesis unfolding min_at_def by (simp only: list.case foldl_min_Min list.set)
qed

lemma min_at_le:
  assumes "r \<in> set rows" "rv_token r = token"
  shows "min_at token rows \<le> rv_at r"
  unfolding min_at_Min [OF assms] by (rule Min_le) (use assms in auto)

lemma min_at_in:
  assumes "r \<in> set rows" "rv_token r = token"
  shows "\<exists>r \<in> set rows. rv_token r = token \<and> rv_at r = min_at token rows"
proof -
  have "min_at token rows \<in> rv_at ` {r \<in> set rows. rv_token r = token}"
    unfolding min_at_Min [OF assms] by (rule Min_in) (use assms in auto)
  then show ?thesis by auto
qed

lemma map_of_load_tombstones:
  "map_of (load_tombstones now t db) token =
     (if token \<in> rv_token ` set (retained now t db) then Some (min_at token (retained now t db)) else None)"
proof -
  have "map_of (map (\<lambda>k. (k, f k)) ks) token = (if token \<in> set ks then Some (f token) else None)"
    for f :: "principal_token \<Rightarrow> instant" and ks by (induction ks) auto
  then show ?thesis by (simp add: load_tombstones_def Let_def)
qed

lemma load_tombstones_Nil: "load_tombstones now t db = [] \<longleftrightarrow> retained now t db = []"
  by (simp add: load_tombstones_def Let_def)

text \<open>The set a plane answers with: its live entry, or what the table holds now.\<close>

definition seen_tombstones :: "instant \<Rightarrow> tenant_id \<Rightarrow> revocation_db \<Rightarrow> revocation_plane \<Rightarrow> tombstone_set" where
  "seen_tombstones now t db pl = fst (retained_tombstones now t db pl)"

definition seen_revoked :: "instant \<Rightarrow> tenant_id \<Rightarrow> revocation_db \<Rightarrow> revocation_plane \<Rightarrow> revoked_set" where
  "seen_revoked now t db pl = fst (revoked_set now t db pl)"

lemma revoked_set_other: "pl_revoked (snd (retained_tombstones now t db pl)) = pl_revoked pl"
  by (simp add: retained_tombstones_def Let_def split: option.split)

lemma subtract_filter:
  "fst (subtract now t principals issued_at db pl) =
     filter (keeps_token (seen_revoked now t db pl) (seen_tombstones now t db pl) issued_at) principals"
proof -
  obtain ts pl1 where ts: "retained_tombstones now t db pl = (ts, pl1)" by fastforce
  obtain rs pl2 where rs: "revoked_set now t db pl1 = (rs, pl2)" by fastforce
  have "pl_revoked pl1 = pl_revoked pl" using revoked_set_other [of now t db pl] ts by simp
  then have "fst (revoked_set now t db pl1) = seen_revoked now t db pl"
    by (simp add: seen_revoked_def revoked_set_def Let_def split: option.split)
  then have seen: "seen_tombstones now t db pl = ts" "seen_revoked now t db pl = rs"
    by (simp_all add: seen_tombstones_def ts rs)
  have "filter (keeps_token [] [] issued_at) principals = principals"
    by (rule filter_True) (simp add: keeps_token_def)
  then show ?thesis by (simp add: subtract_def ts rs seen Let_def)
qed

text \<open>A subtraction leaves both sets memoized, so a second one at the same instant sees the same sets.\<close>

lemma seen_eq:
  "seen_tombstones now t db pl = (case live_entry now (pl_cache pl t) of Some h \<Rightarrow> h | None \<Rightarrow> load_tombstones now t db)"
  "seen_revoked now t db pl = (case live_entry now (pl_revoked pl t) of Some h \<Rightarrow> h | None \<Rightarrow> load_revoked t db)"
  by (simp_all add: seen_tombstones_def seen_revoked_def retained_tombstones_def revoked_set_def Let_def
      split: option.split)

lemma cache_ttl_pos: "0 < cache_ttl"
  by (simp add: cache_ttl_def seconds_def)

lemma retained_tombstones_live:
  "live_entry now (pl_cache (snd (retained_tombstones now t db pl)) t) = Some (seen_tombstones now t db pl)"
  by (auto simp: seen_tombstones_def retained_tombstones_def live_entry_def Let_def cache_ttl_pos split: option.splits)

lemma revoked_set_live:
  "live_entry now (pl_revoked (snd (revoked_set now t db pl)) t) = Some (seen_revoked now t db pl)"
  by (auto simp: seen_revoked_def revoked_set_def live_entry_def Let_def cache_ttl_pos split: option.splits)

lemma revoked_set_cache: "pl_cache (snd (revoked_set now t db pl)) = pl_cache pl"
  by (simp add: revoked_set_def Let_def split: option.split)

lemma revoked_set_again:
  "seen_tombstones now t db' (snd (revoked_set now t db pl)) = seen_tombstones now t db' pl"
  "seen_revoked now t db' (snd (revoked_set now t db pl)) = seen_revoked now t db pl"
  by (simp_all add: seen_eq(1) revoked_set_cache seen_eq(2) [of now t db'] revoked_set_live)

lemma subtract_again:
  assumes "subtract now t ps issued_at db pl = (kept, pl')"
  shows "seen_tombstones now t db' pl' = seen_tombstones now t db pl"
    and "seen_revoked now t db' pl' = seen_revoked now t db pl"
proof -
  obtain ts pl1 where ts: "retained_tombstones now t db pl = (ts, pl1)" by fastforce
  obtain rs pl2 where rs: "revoked_set now t db pl1 = (rs, pl2)" by fastforce
  have pl': "pl_cache pl' = pl_cache pl2" "pl_revoked pl' = pl_revoked pl2"
    using assms by (auto simp: subtract_def ts rs Let_def split: if_splits)
  have same: "pl_revoked pl1 = pl_revoked pl" using revoked_set_other [of now t db pl] ts by simp
  have "live_entry now (pl_cache pl' t) = Some (seen_tombstones now t db pl)"
    using retained_tombstones_live [of now t db pl] revoked_set_cache [of now t db pl1] pl' by (simp add: ts rs)
  then show "seen_tombstones now t db' pl' = seen_tombstones now t db pl"
    by (simp add: seen_eq(1) [of now t db'])
  have "live_entry now (pl_revoked pl' t) = Some (seen_revoked now t db pl1)"
    using revoked_set_live [of now t db pl1] pl' by (simp add: rs)
  moreover have "seen_revoked now t db pl1 = seen_revoked now t db pl"
    by (simp add: seen_eq(2) same)
  ultimately show "seen_revoked now t db' pl' = seen_revoked now t db pl"
    by (simp add: seen_eq(2) [of now t db'])
qed

text \<open>The principal table plays no part in what a subtraction sees.\<close>

lemma seen_principals [simp]:
  "seen_tombstones now t (db\<lparr>rd_principals := rows\<rparr>) pl = seen_tombstones now t db pl"
  "seen_revoked now t (db\<lparr>rd_principals := rows\<rparr>) pl = seen_revoked now t db pl"
  by (simp_all add: seen_eq load_tombstones_def load_revoked_def retained_def split: option.split)

lemma seen_uncached:
  "pl_cache pl t = None \<Longrightarrow> seen_tombstones now t db pl = load_tombstones now t db"
  "pl_revoked pl t = None \<Longrightarrow> seen_revoked now t db pl = load_revoked t db"
  by (simp_all add: seen_tombstones_def seen_revoked_def retained_tombstones_def revoked_set_def
      live_entry_def Let_def)

lemma kept_iff:
  "t \<in> set (fst (subtract now tn ps issued_at db pl)) \<longleftrightarrow> t \<in> set ps \<and>
     keeps_token (seen_revoked now tn db pl) (seen_tombstones now tn db pl) issued_at t"
  by (simp add: subtract_filter)

lemma seconds_mono: "a \<le> b \<Longrightarrow> seconds a \<le> seconds b"
  by (simp add: seconds_def)

text \<open>Retention outlives every handle: a tombstone set after minting is still retained at expiry.\<close>

lemma retention_covers_handle:
  "issued_at \<le> rv_at r \<Longrightarrow> now \<le> issued_at + seconds max_ttl_seconds \<Longrightarrow>
   now - seconds retention_secs < rv_at r"
  by (simp add: seconds_def retention_secs_def)

section \<open>Properties\<close>

text \<open>
  After a group removal is recorded, a handle minted before it loses each lost token at every later
  instant of its life, provided the token has no tombstone older than the handle.
\<close>

lemma record_revocations_seen:
  assumes rec: "record_revocations now t affected lost (db, pl) = (n, (db', pl'))"
    and lost: "(g, token) \<in> set lost" "affected \<noteq> []"
    and handle: "issued_at \<le> now" "now' \<le> issued_at + seconds max_ttl_seconds"
    and first: "\<And>r. r \<in> set (rd_revocations db) \<Longrightarrow> rv_tenant_id r = t \<Longrightarrow> rv_token r = token \<Longrightarrow> issued_at \<le> rv_at r"
  shows "\<not> keeps_token (seen_revoked now' t db' pl') (seen_tombstones now' t db' pl') issued_at token"
proof -
  define new where "new = concat (map (\<lambda>p. map (\<lambda>(_, token).
    \<lparr>rv_tenant_id = t, rv_principal = p, rv_token = token, rv_at = now\<rparr>) lost) affected)"
  have db': "rd_revocations db' = rd_revocations db @ new" and pl': "pl_cache pl' t = None"
    using rec by (auto simp: record_revocations_def Let_def new_def)
  from lost obtain p where "p \<in> set affected" by (cases affected) auto
  with lost have r: "\<lparr>rv_tenant_id = t, rv_principal = p, rv_token = token, rv_at = now\<rparr> \<in> set new"
    (is "?r \<in> _") by (force simp: new_def)
  have after: "issued_at \<le> rv_at x" if "x \<in> set (retained now' t db')" "rv_token x = token" for x
  proof -
    from that have "x \<in> set (rd_revocations db) \<or> x \<in> set new" "rv_tenant_id x = t"
      by (auto simp: retained_def db')
    moreover have "rv_at x = now" if "x \<in> set new" using that by (auto simp: new_def)
    ultimately show ?thesis using that(2) first handle(1) by blast
  qed
  have "now' - seconds retention_secs < rv_at ?r"
    by (rule retention_covers_handle [OF _ handle(2)]) (use handle(1) in simp)
  with r have ret: "?r \<in> set (retained now' t db')" by (simp add: retained_def db')
  have "issued_at \<le> min_at token (retained now' t db')"
    using min_at_in [OF ret, of token] after by force
  moreover have "token \<in> rv_token ` set (retained now' t db')" using ret by force
  ultimately show ?thesis
    by (simp add: keeps_token_def seen_uncached(1) [OF pl'] map_of_load_tombstones)
qed

definition sample_rev_db :: revocation_db where
  "sample_rev_db = \<lparr>rd_revocations = [], rd_revoked_principal = [], rd_principals = []\<rparr>"

text \<open>A deprovisioned principal's token is dropped from every handle, however fresh.\<close>

lemma revoke_principal_seen:
  assumes r: "revoke_principal now t who token (db, pl) = (db', pl')"
  shows "\<not> keeps_token (seen_revoked now' t db' pl') tombstones issued_at token"
proof -
  have pl': "pl_revoked pl' t = None" using r by (auto simp: revoke_principal_def Let_def)
  let ?P = "\<lambda>r. rp_tenant_id r = t \<and> rp_token r = token"
  let ?f = "\<lambda>r. r\<lparr>rp_reinstated_at := None, rp_revoked_at := now, rp_principal := who\<rparr>"
  have "token \<in> set (load_revoked t db')"
  proof (cases "list_ex ?P (rd_revoked_principal db)")
    case True
    then obtain r where "r \<in> set (rd_revoked_principal db)" "?P r" by (auto simp: list_ex_iff)
    then have "?f r \<in> set (update_where ?P ?f (rd_revoked_principal db))" by (auto simp: update_where_def)
    moreover have "rd_revoked_principal db' = update_where ?P ?f (rd_revoked_principal db)"
      using r True by (auto simp: revoke_principal_def Let_def)
    ultimately have "?f r \<in> set (filter (\<lambda>r. rp_tenant_id r = t \<and> rp_reinstated_at r = None) (rd_revoked_principal db'))"
      using \<open>?P r\<close> by simp
    then have "rp_token (?f r) \<in> set (load_revoked t db')" unfolding load_revoked_def set_map by (rule imageI)
    with \<open>?P r\<close> show ?thesis by simp
  next
    case False
    let ?new = "\<lparr>rp_tenant_id = t, rp_token = token, rp_principal = who, rp_revoked_at = now, rp_reinstated_at = None\<rparr>"
    from False r have "rd_revoked_principal db' = rd_revoked_principal db @ [?new]"
      by (auto simp: revoke_principal_def Let_def)
    then have "load_revoked t db' = load_revoked t db @ [token]" by (simp add: load_revoked_def)
    then show ?thesis by simp
  qed
  then show ?thesis by (simp add: keeps_token_def seen_uncached(2) [OF pl'])
qed

text \<open>
  An older tombstone hides a newer one: when a token was revoked before a handle was minted
  and again afterwards, both still retained, the subtraction keeps the token, although a tombstone
  at or after the mint instant exists.
\<close>

theorem subtract_older_tombstone_masks_newer:
  assumes rows: "r1 \<in> set (rd_revocations db)" "r2 \<in> set (rd_revocations db)"
      "rv_tenant_id r1 = t" "rv_tenant_id r2 = t" "rv_token r1 = token" "rv_token r2 = token"
    and times: "now - seconds retention_secs < rv_at r1" "rv_at r1 < issued_at" "issued_at \<le> rv_at r2"
    and plane: "pl_cache pl t = None" "pl_revoked pl t = None" "token \<notin> set (load_revoked t db)"
    and p: "token \<in> set ps"
  shows "token \<in> set (fst (subtract now t ps issued_at db pl))"
proof -
  have r1: "r1 \<in> set (retained now t db)" using rows times by (simp add: retained_def)
  from min_at_le [OF r1] rows times(2) have "min_at token (retained now t db) < issued_at" by force
  moreover have "token \<in> rv_token ` set (retained now t db)" using r1 rows(5) by force
  ultimately show ?thesis
    using p plane(3)
    by (simp add: kept_iff keeps_token_def seen_uncached(1) [OF plane(1)] seen_uncached(2) [OF plane(2)]
        map_of_load_tombstones)
qed

definition twice_revoked_db :: revocation_db where
  "twice_revoked_db = sample_rev_db\<lparr>rd_revocations :=
     [\<lparr>rv_tenant_id = 1, rv_principal = ''user:a'', rv_token = 7, rv_at = 100\<rparr>,
      \<lparr>rv_tenant_id = 1, rv_principal = ''user:a'', rv_token = 7, rv_at = 300\<rparr>]\<rparr>"

theorem subtract_older_tombstone_masks_newer_witness:
  "7 \<in> set (fst (subtract 400 1 [7, 9] 200 twice_revoked_db (new_plane 300)))"
  by (rule subtract_older_tombstone_masks_newer [of
        "\<lparr>rv_tenant_id = 1, rv_principal = ''user:a'', rv_token = 7, rv_at = 100\<rparr>" _
        "\<lparr>rv_tenant_id = 1, rv_principal = ''user:a'', rv_token = 7, rv_at = 300\<rparr>"])
    (simp_all add: twice_revoked_db_def sample_rev_db_def new_plane_def load_revoked_def
      seconds_def retention_secs_def max_ttl_seconds_def)

section \<open>Token allocation\<close>

lemma next_token_fresh:
  "r \<in> set rows \<Longrightarrow> pr_tenant_id r = t \<Longrightarrow> pr_token r < next_token t rows"
proof -
  assume r: "r \<in> set rows" "pr_tenant_id r = t"
  let ?ts = "map pr_token (filter (\<lambda>r. pr_tenant_id r = t) rows)"
  from r have "pr_token r \<in> set ?ts" by auto
  moreover from this obtain a as where as: "?ts = a # as" by (cases ?ts) auto
  ultimately have "pr_token r \<le> Max (insert a (set as))" by (metis List.finite_set Max_ge list.set(2))
  with as show ?thesis by (simp add: next_token_def foldl_max_Max del: Max_insert)
qed

lemma upsert_principal_ok:
  assumes "principals_ok rows" "upsert_principal t p rows = (n, rows')"
  shows "principals_ok rows'" "set rows \<subseteq> set rows'"
    "\<lparr>pr_tenant_id = t, pr_principal = p, pr_token = n\<rparr> \<in> set rows'"
proof -
  let ?P = "\<lambda>r. pr_tenant_id r = t \<and> pr_principal r = p"
  have "principals_ok rows' \<and> set rows \<subseteq> set rows' \<and> \<lparr>pr_tenant_id = t, pr_principal = p, pr_token = n\<rparr> \<in> set rows'"
  proof (cases "List.find ?P rows")
    case (Some r)
    then have "r \<in> set rows" "?P r" using find_Some_filter by fastforce+
    moreover from this have "\<lparr>pr_tenant_id = t, pr_principal = p, pr_token = pr_token r\<rparr> = r" by simp
    ultimately have "\<lparr>pr_tenant_id = t, pr_principal = p, pr_token = pr_token r\<rparr> \<in> set rows" by metis
    moreover from assms(2) Some have "n = pr_token r" "rows' = rows" by (simp_all add: upsert_principal_def)
    ultimately show ?thesis using assms(1) by blast
  next
    case None
    let ?new = "\<lparr>pr_tenant_id = t, pr_principal = p, pr_token = next_token t rows\<rparr>"
    from None assms(2) have rows': "rows' = rows @ [?new]" "n = next_token t rows"
      by (auto simp: upsert_principal_def Let_def)
    have "(t, p) \<notin> (\<lambda>r. (pr_tenant_id r, pr_principal r)) ` set rows"
      using None by (auto simp: find_None_filter)
    moreover have "(t, next_token t rows) \<notin> (\<lambda>r. (pr_tenant_id r, pr_token r)) ` set rows"
      using next_token_fresh by force
    ultimately show ?thesis using assms(1) rows' by (simp add: principals_ok_def subset_insertI)
  qed
  then show "principals_ok rows'" "set rows \<subseteq> set rows'"
    "\<lparr>pr_tenant_id = t, pr_principal = p, pr_token = n\<rparr> \<in> set rows'" by simp_all
qed

lemma upsert_principal_tokens_ok:
  assumes "principals_ok rows" "upsert_principal_tokens t ps rows = (ms, rows')"
  shows "principals_ok rows' \<and> set rows \<subseteq> set rows' \<and> map fst ms = ps \<and>
    (\<forall>(p, n) \<in> set ms. \<lparr>pr_tenant_id = t, pr_principal = p, pr_token = n\<rparr> \<in> set rows')"
  using assms
proof (induction ps arbitrary: rows ms)
  case (Cons p ps)
  obtain n rows1 where one: "upsert_principal t p rows = (n, rows1)" by fastforce
  obtain ms' where rest: "upsert_principal_tokens t ps rows1 = (ms', rows')" "ms = (p, n) # ms'"
    using Cons.prems(2) one by (auto split: prod.splits)
  note ok = upsert_principal_ok [OF Cons.prems(1) one]
  from Cons.IH [OF ok(1) rest(1)] ok rest(2) show ?case by auto
qed simp

text \<open>
  Token allocation is a stable injective numbering: the table keeps one token per principal
  and one principal per token and tenant, existing assignments are never changed, and every
  returned pair is the table's own.
\<close>

theorem upsert_principal_tokens_numbering:
  assumes "principals_ok rows" "upsert_principal_tokens t ps rows = (ms, rows')"
  shows "principals_ok rows' \<and> set rows \<subseteq> set rows' \<and> map fst ms = ps \<and>
    (\<forall>(p, n) \<in> set ms. \<lparr>pr_tenant_id = t, pr_principal = p, pr_token = n\<rparr> \<in> set rows')"
  using assms by (rule upsert_principal_tokens_ok)

theorem upsert_principal_tokens_numbering_witness:
  "principals_ok (snd (upsert_principal_tokens 1 [''user:a'', ''group:g'', ''user:a''] []))"
  using upsert_principal_tokens_numbering [of "[]" 1 "[''user:a'', ''group:g'', ''user:a'']"]
  by (simp add: principals_ok_def split: prod.splits)

end
