(* ===== verification/Scope_Handle.thy ===== *)
theory Scope_Handle
  imports Revocation
begin

text \<open>
  Scope handles (\<^verbatim>\<open>crates/verity-server/src/scope.rs\<close>): minting, verification, signed media
  addresses and the signing-key decoder; the principal syntax and the SpiceDB id escaping of
  \<^verbatim>\<open>rebac.rs\<close>. Byte strings are \<open>string\<close>s of 8-bit characters. The MAC (\<open>mac key msg\<close>), the
  URL-safe base64 codec (\<open>enc\<close>, \<open>dec\<close>) and the JSON codec of the payload (\<open>ser\<close>, \<open>de\<close>) are library
  code and stay parameters; what a theorem needs of them is among its assumptions.
\<close>

section \<open>Handles\<close>

record scope_payload =
  sp_tenant_id :: tenant_id
  sp_principals :: "principal_token list"
  sp_entity_scope :: "string list"
  sp_max_confidentiality :: confidentiality
  sp_actor_sub :: "string option"
  sp_actor_azp :: "string option"
  sp_subject :: "string option"
  sp_issued_at :: instant
  sp_expires_at :: instant

definition to_scope :: "scope_payload \<Rightarrow> scope" where
  "to_scope p = \<lparr>sc_tenant_id = sp_tenant_id p, sc_principals = sp_principals p,
     sc_entity_scope = sp_entity_scope p, sc_max_confidentiality = sp_max_confidentiality p\<rparr>"

datatype scope_error = Malformed | BadSignature | Expired

definition handle_prefix :: string where
  "handle_prefix = ''vs_''"

definition clamp :: "int \<Rightarrow> int \<Rightarrow> int \<Rightarrow> int" where
  "clamp lo hi x = max lo (min hi x)"

definition mint ::
  "(string \<Rightarrow> string \<Rightarrow> string) \<Rightarrow> (string \<Rightarrow> string) \<Rightarrow> (scope_payload \<Rightarrow> string) \<Rightarrow> string \<Rightarrow> instant
   \<Rightarrow> scope_payload \<Rightarrow> int \<Rightarrow> string \<times> instant" where
  "mint mac enc ser key now payload ttl_seconds =
     (let ttl = clamp 60 max_ttl_seconds ttl_seconds;
          p = payload\<lparr>sp_issued_at := now, sp_expires_at := now + seconds ttl\<rparr>;
          body = ser p
      in (handle_prefix @ enc body @ ''.'' @ enc (mac key body), sp_expires_at p))"

definition verify ::
  "(string \<Rightarrow> string \<Rightarrow> string) \<Rightarrow> (string \<Rightarrow> string option) \<Rightarrow> (string \<Rightarrow> scope_payload option) \<Rightarrow> string
   \<Rightarrow> instant \<Rightarrow> string \<Rightarrow> scope_error + scope_payload" where
  "verify mac dec de key now handle =
     (case strip_prefix handle_prefix handle of
        None \<Rightarrow> Inl Malformed
      | Some rest \<Rightarrow>
          (case split_once CHR ''.'' rest of
             None \<Rightarrow> Inl Malformed
           | Some (body_b64, sig_b64) \<Rightarrow>
               (case dec body_b64 of
                  None \<Rightarrow> Inl Malformed
                | Some body \<Rightarrow>
                    (case dec sig_b64 of
                       None \<Rightarrow> Inl Malformed
                     | Some sig \<Rightarrow>
                         if sig \<noteq> mac key body then Inl BadSignature
                         else (case de body of
                                 None \<Rightarrow> Inl Malformed
                               | Some payload \<Rightarrow>
                                   if sp_expires_at payload < now then Inl Expired else Inr payload)))))"

definition sign_bytes ::
  "(string \<Rightarrow> string \<Rightarrow> string) \<Rightarrow> (string \<Rightarrow> string) \<Rightarrow> string \<Rightarrow> string \<Rightarrow> string \<Rightarrow> string" where
  "sign_bytes mac enc key domain msg = enc (mac key (domain @ '':'' @ msg))"

definition verify_bytes ::
  "(string \<Rightarrow> string \<Rightarrow> string) \<Rightarrow> (string \<Rightarrow> string option) \<Rightarrow> string \<Rightarrow> string \<Rightarrow> string \<Rightarrow> string
   \<Rightarrow> scope_error + unit" where
  "verify_bytes mac dec key domain msg sig =
     (case dec sig of None \<Rightarrow> Inl Malformed
      | Some s \<Rightarrow> if s = mac key (domain @ '':'' @ msg) then Inr () else Inl BadSignature)"

definition media_message :: "(uuid \<Rightarrow> string) \<Rightarrow> uuid \<Rightarrow> int \<Rightarrow> string" where
  "media_message uuid_str media_id expires_at =
     ''media:'' @ uuid_str media_id @ '':'' @ int_to_string expires_at"

definition sign_media ::
  "(string \<Rightarrow> string \<Rightarrow> string) \<Rightarrow> (string \<Rightarrow> string) \<Rightarrow> (uuid \<Rightarrow> string) \<Rightarrow> string \<Rightarrow> uuid \<Rightarrow> int \<Rightarrow> string" where
  "sign_media mac enc uuid_str key media_id expires_at =
     enc (mac key (media_message uuid_str media_id expires_at))"

text \<open>The expiry of a media address is in whole seconds.\<close>

definition verify_media ::
  "(string \<Rightarrow> string \<Rightarrow> string) \<Rightarrow> (string \<Rightarrow> string option) \<Rightarrow> (uuid \<Rightarrow> string) \<Rightarrow> string \<Rightarrow> instant
   \<Rightarrow> uuid \<Rightarrow> int \<Rightarrow> string \<Rightarrow> scope_error + unit" where
  "verify_media mac dec uuid_str key now media_id expires_at sig =
     (if expires_at < now div 1000000 then Inl Expired
      else case dec sig of None \<Rightarrow> Inl Malformed
        | Some s \<Rightarrow> if s = mac key (media_message uuid_str media_id expires_at) then Inr ()
                    else Inl BadSignature)"

section \<open>Hexadecimal\<close>

definition hex_value :: "char \<Rightarrow> nat option" where
  "hex_value c =
     (if is_ascii_digit c then Some (of_char c - 48)
      else if of_char c \<in> {97..102::nat} then Some (of_char c - 87)
      else if of_char c \<in> {65..70::nat} then Some (of_char c - 55) else None)"

fun hex_digits :: "nat \<Rightarrow> string \<Rightarrow> nat option" where
  "hex_digits n [] = Some n"
| "hex_digits n (c # cs) = (case hex_value c of None \<Rightarrow> None | Some v \<Rightarrow> hex_digits (16 * n + v) cs)"

text \<open>\<^verbatim>\<open>u8::from_str_radix(s, 16)\<close>: an optional plus sign, then digits, within eight bits.\<close>

definition u8_from_hex :: "string \<Rightarrow> char option" where
  "u8_from_hex s =
     (let ds = (case s of [] \<Rightarrow> [] | c # cs \<Rightarrow> if c = CHR ''+'' \<and> cs \<noteq> [] then cs else s)
      in if ds = [] then None
         else case hex_digits 0 ds of None \<Rightarrow> None
           | Some n \<Rightarrow> if n < 256 then Some (char_of n) else None)"

fun hex_pairs :: "string \<Rightarrow> string option" where
  "hex_pairs [] = Some []"
| "hex_pairs [c] = None"
| "hex_pairs (a # b # cs) =
     (case u8_from_hex [a, b] of None \<Rightarrow> None
      | Some byte \<Rightarrow> map_option ((#) byte) (hex_pairs cs))"

text \<open>\<^verbatim>\<open>const_hex_decode\<close>: trimmed text of 64 characters, read pairwise.\<close>

definition const_hex_decode :: "string \<Rightarrow> string option" where
  "const_hex_decode hex = (let h = trim hex in if length h \<noteq> 64 then None else hex_pairs h)"

section \<open>Principals\<close>

datatype principal_kind = UserPrincipal | GroupPrincipal

definition parse_principal :: "string \<Rightarrow> (principal_kind \<times> string) option" where
  "parse_principal s =
     (case strip_prefix ''user:'' s of
        Some (c # cs) \<Rightarrow> Some (UserPrincipal, c # cs)
      | _ \<Rightarrow> (case strip_prefix ''group:'' s of
                Some (c # cs) \<Rightarrow> Some (GroupPrincipal, c # cs)
              | _ \<Rightarrow> None))"

text \<open>\<^verbatim>\<open>escape_id\<close>: the object-id alphabet passes, every other byte becomes \<^verbatim>\<open>=XX\<close>.\<close>

definition passes_id :: "char \<Rightarrow> bool" where
  "passes_id c \<longleftrightarrow> is_ascii_alphanumeric c \<or> c = CHR ''_'' \<or> c = CHR ''-''"

definition upper_hex_digit :: "nat \<Rightarrow> char" where
  "upper_hex_digit n = (if n < 10 then char_of (48 + n) else char_of (55 + n))"

definition escape_byte :: "char \<Rightarrow> string" where
  "escape_byte c =
     (if passes_id c then [c]
      else [CHR ''='', upper_hex_digit (of_char c div 16), upper_hex_digit (of_char c mod 16)])"

definition escape_id :: "string \<Rightarrow> string" where
  "escape_id raw = concat (map escape_byte raw)"

text \<open>\<^verbatim>\<open>unescape_id\<close>; the final UTF-8 check is \<open>utf8_ok\<close>.\<close>

fun unescape_bytes :: "string \<Rightarrow> string option" where
  "unescape_bytes [] = Some []"
| "unescape_bytes (c # cs) =
     (if c = CHR ''='' then
        (case cs of a # b # rest \<Rightarrow>
           (case u8_from_hex [a, b] of None \<Rightarrow> None
            | Some byte \<Rightarrow> map_option ((#) byte) (unescape_bytes rest))
         | _ \<Rightarrow> None)
      else map_option ((#) c) (unescape_bytes cs))"

definition unescape_id :: "(string \<Rightarrow> bool) \<Rightarrow> string \<Rightarrow> string option" where
  "unescape_id utf8_ok esc =
     (case unescape_bytes esc of None \<Rightarrow> None | Some s \<Rightarrow> if utf8_ok s then Some s else None)"

definition object_id :: "(uuid \<Rightarrow> string) \<Rightarrow> tenant_id \<Rightarrow> string \<Rightarrow> string" where
  "object_id uuid_str t name = uuid_str t @ ''_'' @ escape_id name"

definition parse_object_id :: "(string \<Rightarrow> bool) \<Rightarrow> (uuid \<Rightarrow> string) \<Rightarrow> tenant_id \<Rightarrow> string \<Rightarrow> string option" where
  "parse_object_id utf8_ok uuid_str t oid =
     (case strip_prefix (uuid_str t @ ''_'') oid of None \<Rightarrow> None | Some rest \<Rightarrow> unescape_id utf8_ok rest)"

section \<open>Lemmas\<close>

lemma clamp_bounds: "lo \<le> hi \<Longrightarrow> lo \<le> clamp lo hi x \<and> clamp lo hi x \<le> hi"
  by (simp add: clamp_def)

lemma verify_of_parts:
  assumes "CHR ''.'' \<notin> set b"
  shows "verify mac dec de key now (handle_prefix @ b @ ''.'' @ s) =
    (case dec b of None \<Rightarrow> Inl Malformed
     | Some body \<Rightarrow>
         (case dec s of None \<Rightarrow> Inl Malformed
          | Some sig \<Rightarrow>
              if sig \<noteq> mac key body then Inl BadSignature
              else (case de body of None \<Rightarrow> Inl Malformed
                    | Some payload \<Rightarrow>
                        if sp_expires_at payload < now then Inl Expired else Inr payload)))"
  using split_once_append [OF assms, of s] by (simp add: verify_def)

lemma verify_Inr_parts:
  assumes "verify mac dec de key now handle = Inr p"
  obtains b s where "handle = handle_prefix @ b @ ''.'' @ s" "CHR ''.'' \<notin> set b"
proof -
  from assms obtain rest where rest: "strip_prefix handle_prefix handle = Some rest"
    by (cases "strip_prefix handle_prefix handle") (simp_all add: verify_def)
  with assms obtain b s where "split_once CHR ''.'' rest = Some (b, s)"
    by (cases "split_once CHR ''.'' rest") (auto simp: verify_def)
  with rest that show thesis by (auto simp: split_once_Some)
qed

lemma upper_hex_digit_props:
  assumes "d < 16"
  shows "hex_value (upper_hex_digit d) = Some d" "upper_hex_digit d \<noteq> CHR ''+''" "passes_id (upper_hex_digit d)"
proof -
  have code: "of_char (upper_hex_digit d) = (if d < 10 then 48 + d else 55 + d)"
    using assms by (simp add: upper_hex_digit_def)
  show "hex_value (upper_hex_digit d) = Some d"
    using assms by (auto simp: hex_value_def is_ascii_digit_def code)
  show "upper_hex_digit d \<noteq> CHR ''+''"
  proof
    assume "upper_hex_digit d = CHR ''+''"
    with code show False using assms by (simp split: if_splits)
  qed
  show "passes_id (upper_hex_digit d)"
    using assms by (auto simp: passes_id_def is_ascii_alphanumeric_def is_ascii_digit_def
        is_ascii_uppercase_def code)
qed

lemma u8_from_hex_upper:
  assumes "n < 256"
  shows "u8_from_hex [upper_hex_digit (n div 16), upper_hex_digit (n mod 16)] = Some (char_of n)"
proof -
  have "n div 16 < 16" "n mod 16 < 16" using assms by auto
  with upper_hex_digit_props(1,2) assms show ?thesis by (simp add: u8_from_hex_def)
qed

lemma unescape_escape_byte: "unescape_bytes (escape_byte c @ s) = map_option ((#) c) (unescape_bytes s)"
proof (cases "passes_id c")
  case True
  then have "c \<noteq> CHR ''=''"
    by (auto simp: passes_id_def is_ascii_alphanumeric_def is_ascii_digit_def is_ascii_lowercase_def
        is_ascii_uppercase_def)
  with True show ?thesis by (simp add: escape_byte_def)
next
  case False
  have "of_char c < (256 :: nat)" by simp
  from u8_from_hex_upper [OF this] False show ?thesis by (simp add: escape_byte_def)
qed

lemma unescape_escape: "unescape_bytes (escape_id s) = Some s"
proof (induction s)
  case (Cons c s)
  then show ?case by (simp add: escape_id_def unescape_escape_byte)
qed (simp add: escape_id_def)

lemma escape_byte_no_sep: "c \<in> set (escape_byte d) \<Longrightarrow> passes_id c \<or> c = CHR ''=''"
proof -
  assume c: "c \<in> set (escape_byte d)"
  have "of_char d < (256 :: nat)" by simp
  then have "of_char d div 16 < (16 :: nat)" "of_char d mod 16 < (16 :: nat)"
    by (simp_all add: less_mult_imp_div_less)
  with c upper_hex_digit_props(3) show ?thesis by (auto simp: escape_byte_def split: if_splits)
qed

lemma escape_id_chars: "c \<in> set (escape_id s) \<Longrightarrow> passes_id c \<or> c = CHR ''=''"
  by (auto simp: escape_id_def dest: escape_byte_no_sep)

lemma escape_id_no_dot: "CHR ''.'' \<notin> set (escape_id s)"
  using escape_id_chars [of "CHR ''.''" s]
  by (auto simp: passes_id_def is_ascii_alphanumeric_def is_ascii_digit_def
      is_ascii_lowercase_def is_ascii_uppercase_def)

section \<open>Properties\<close>

text \<open>
  C12: A minted handle verifies to exactly the payload that was signed, stamped with the mint instant,
  at every instant up to its expiry, and is refused as expired after it; its lifetime is between one
  minute and twelve hours whatever the caller asked for. Needed of the libraries: base64 decodes
  what it encoded and emits no dot, and the JSON of the signed payload reads back.
\<close>

theorem mint_verify_roundtrip:
  fixes payload :: scope_payload and now :: instant and ttl :: int
  defines "signed \<equiv> payload\<lparr>sp_issued_at := now,
     sp_expires_at := now + seconds (clamp 60 max_ttl_seconds ttl)\<rparr>"
  assumes b64: "\<And>x. dec (enc x) = Some x" "\<And>x. CHR ''.'' \<notin> set (enc x)"
    and json: "de (ser signed) = Some signed"
  shows "let (handle, expires) = mint mac enc ser key now payload ttl
    in now + seconds 60 \<le> expires \<and> expires \<le> now + seconds max_ttl_seconds \<and>
       verify mac dec de key now' handle =
         (if expires < now' then Inl Expired
          else Inr (payload\<lparr>sp_issued_at := now, sp_expires_at := expires\<rparr>))"
proof -
  have ttl: "60 \<le> clamp 60 max_ttl_seconds ttl" "clamp 60 max_ttl_seconds ttl \<le> max_ttl_seconds"
    using clamp_bounds [of 60 max_ttl_seconds ttl] by (simp_all add: max_ttl_seconds_def)
  have "verify mac dec de key now' (handle_prefix @ enc (ser signed) @ ''.'' @ enc (mac key (ser signed))) =
      (if sp_expires_at signed < now' then Inl Expired else Inr signed)"
    by (simp only: verify_of_parts [OF b64(2)] b64(1) json option.case simp_thms if_False)
  with ttl show ?thesis
    by (simp add: mint_def Let_def signed_def seconds_def)
qed

definition sample_payload :: scope_payload where
  "sample_payload = \<lparr>sp_tenant_id = 1, sp_principals = [5], sp_entity_scope = [],
     sp_max_confidentiality = Internal, sp_actor_sub = None, sp_actor_azp = None,
     sp_subject = None, sp_issued_at = 0, sp_expires_at = 0\<rparr>"

theorem mint_verify_roundtrip_witness:
  "let (handle, expires) = mint (\<lambda>k m. k @ m) escape_id (\<lambda>p. ''{}'') ''key'' 7 sample_payload 5
   in expires = 60000007 \<and>
      verify (\<lambda>k m. k @ m) unescape_bytes
        (\<lambda>s. if s = ''{}'' then Some (sample_payload\<lparr>sp_issued_at := 7, sp_expires_at := 60000007\<rparr>) else None)
        ''key'' 60000008 handle = Inl Expired"
  using mint_verify_roundtrip [where mac = "\<lambda>k m. k @ m" and enc = escape_id and dec = unescape_bytes
      and ser = "\<lambda>p. ''{}''" and key = "''key''" and now = 7 and payload = sample_payload and ttl = 5
      and now' = 60000008 and
      de = "\<lambda>s. if s = ''{}'' then Some (sample_payload\<lparr>sp_issued_at := 7, sp_expires_at := 60000007\<rparr>) else None"]
  by (simp add: unescape_escape escape_id_no_dot mint_def clamp_def max_ttl_seconds_def seconds_def Let_def)

text \<open>
  C13: A handle that verifies carries the server's own signature over the exact bytes the payload was
  read from, and has not expired; no other text is accepted, whatever its payload claims. So a
  party that cannot produce the MAC of a body cannot widen any field of a scope.
\<close>

theorem verify_accepts_only_signed:
  "verify mac dec de key now handle = Inr p \<longleftrightarrow>
     (\<exists>b s body. handle = handle_prefix @ b @ ''.'' @ s \<and> CHR ''.'' \<notin> set b \<and> dec b = Some body \<and>
        dec s = Some (mac key body) \<and> de body = Some p \<and> now \<le> sp_expires_at p)"
  (is "?l \<longleftrightarrow> ?r")
proof
  assume ?l
  then obtain b s where h: "handle = handle_prefix @ b @ ''.'' @ s" and b: "CHR ''.'' \<notin> set b"
    by (rule verify_Inr_parts)
  from \<open>?l\<close> obtain body where "dec b = Some body" "dec s = Some (mac key body)" "de body = Some p"
      "now \<le> sp_expires_at p"
    unfolding h verify_of_parts [OF b] by (auto split: option.splits if_splits)
  with h b show ?r by blast
next
  assume ?r
  then show ?l by (elim exE conjE) (simp only: verify_of_parts option.case simp_thms if_False not_less [symmetric])
qed

text \<open>
  SpiceDB object ids are reversible and tenant-fenced: the id of a name reads back as that name
  for the tenant it was built for, the escaped name stays within the id alphabet, and another
  tenant's reader refuses the id. Needed of the UUID printer: the two tenants print to texts of the
  same length, different when the tenants are.
\<close>

theorem object_id_roundtrip:
  assumes uuid: "uuid_str t' = uuid_str t \<longleftrightarrow> t' = t" "length (uuid_str t') = length (uuid_str t)"
    and utf8: "utf8_ok name"
  shows "parse_object_id utf8_ok uuid_str t' (object_id uuid_str t name) = (if t' = t then Some name else None) \<and>
    list_all (\<lambda>c. passes_id c \<or> c = CHR ''='') (escape_id name)"
proof -
  have "strip_prefix (uuid_str t' @ ''_'') (uuid_str t @ ''_'' @ escape_id name) =
      (if t' = t then Some (escape_id name) else None)"
  proof (cases "t' = t")
    case True
    then show ?thesis using strip_prefix_append [of "uuid_str t @ ''_''" "escape_id name"] by simp
  next
    case False
    then have "uuid_str t @ ''_'' @ escape_id name \<noteq> (uuid_str t' @ ''_'') @ r" for r
      using uuid by auto
    then have "strip_prefix (uuid_str t' @ ''_'') (uuid_str t @ ''_'' @ escape_id name) \<noteq> Some r" for r
      by (simp only: strip_prefix_Some not_False_eq_True)
    then show ?thesis
      using False by (cases "strip_prefix (uuid_str t' @ ''_'') (uuid_str t @ ''_'' @ escape_id name)") simp_all
  qed
  with utf8 show ?thesis
    by (auto simp: parse_object_id_def object_id_def unescape_id_def unescape_escape list_all_iff
        dest: escape_id_chars)
qed

theorem object_id_roundtrip_witness:
  "object_id (\<lambda>t. if t = 1 then ''aa'' else ''bb'') 1 ''a@b'' = ''aa_a=40b'' \<and>
   parse_object_id (\<lambda>_. True) (\<lambda>t. if t = 1 then ''aa'' else ''bb'') 2 ''aa_a=40b'' = None"
proof -
  let ?u = "\<lambda>t :: tenant_id. if t = 1 then ''aa'' else ''bb''"
  have id: "object_id ?u 1 ''a@b'' = ''aa_a=40b''" by code_simp
  from object_id_roundtrip [of ?u 2 1 "\<lambda>_. True" "''a@b''"]
  have "parse_object_id (\<lambda>_. True) ?u 2 (object_id ?u 1 ''a@b'') = None" by simp
  with id show ?thesis by simp
qed

text \<open>
  Domain-separated signatures verify for the bytes and domain they were made for, and for another
  message only when its MAC is the same; a signed media address verifies until its expiry second and
  is refused as expired after it.
\<close>

theorem signatures_roundtrip:
  assumes b64: "\<And>x. dec (enc x) = Some x"
  shows "verify_bytes mac dec key d' msg' (sign_bytes mac enc key d msg) =
      (if mac key (d @ '':'' @ msg) = mac key (d' @ '':'' @ msg') then Inr () else Inl BadSignature) \<and>
    verify_media mac dec uuid_str key now m e (sign_media mac enc uuid_str key m e) =
      (if e < now div 1000000 then Inl Expired else Inr ())"
  by (simp add: verify_bytes_def sign_bytes_def verify_media_def sign_media_def b64)

theorem signatures_roundtrip_witness:
  "verify_bytes (\<lambda>k m. k @ m) unescape_bytes ''k'' ''purge'' ''a'' (sign_bytes (\<lambda>k m. k @ m) escape_id ''k'' ''purge'' ''b'') =
     Inl BadSignature"
  using signatures_roundtrip [of unescape_bytes escape_id "\<lambda>k m. k @ m" "''k''" "''purge''" "''a''" "''purge''" "''b''"]
  by (simp add: unescape_escape)

end
