(* ===== verification/Chunk_Delivery.thy ===== *)
theory Chunk_Delivery
  imports Chunk_Store
begin

text \<open>
  Proofs about the chunk store: the table invariant, what a delivery makes the current view of
  its document, replays and late deliveries, and the effect of retirement, ACL correction, the
  token sweep and lineage resolution on readers.
\<close>

section \<open>The table invariant\<close>

definition chunks_ok :: "database \<Rightarrow> bool" where
  "chunks_ok db \<longleftrightarrow>
     distinct (map ch_id (db_chunks db)) \<and> distinct (map chunk_key (db_chunks db)) \<and>
     list_all (\<lambda>c. ch_tenant_id c \<in> set (db_tenants db)) (db_chunks db) \<and>
     list_all (\<lambda>c. ch_provenance c \<in> ep_id ` set (db_episodes db)) (db_chunks db)"

lemma close_chunk_sel [simp]:
  "ch_id (close_chunk t c) = ch_id c" "ch_tenant_id (close_chunk t c) = ch_tenant_id c"
  "ch_source (close_chunk t c) = ch_source c" "ch_document_id (close_chunk t c) = ch_document_id c"
  "ch_seq (close_chunk t c) = ch_seq c" "ch_valid_from (close_chunk t c) = ch_valid_from c"
  "ch_valid_to (close_chunk t c) = Some t" "ch_provenance (close_chunk t c) = ch_provenance c"
  by (simp_all add: close_chunk_def)

lemma close_chunk_pred [simp]:
  "chunk_key (close_chunk t c) = chunk_key c"
  "of_document tn s d (close_chunk t c) = of_document tn s d c"
  "\<not> chunk_current (close_chunk t c)"
  by (simp_all add: chunk_key_def of_document_def chunk_current_def)

lemma chunk_row_of_sel [simp]:
  "ch_id (chunk_row_of i c) = i" "ch_tenant_id (chunk_row_of i c) = cw_tenant_id c"
  "ch_source (chunk_row_of i c) = cw_source c"
  "ch_document_id (chunk_row_of i c) = cw_document_id c" "ch_seq (chunk_row_of i c) = cw_seq c"
  "ch_valid_from (chunk_row_of i c) = cw_valid_from c" "ch_valid_to (chunk_row_of i c) = None"
  "ch_provenance (chunk_row_of i c) = cw_provenance c" "chunk_current (chunk_row_of i c)"
  by (simp_all add: chunk_row_of_def chunk_current_def)

text \<open>A statement that rewrites rows in place without touching their identity.\<close>

lemma chunks_ok_update [verity_inv]:
  assumes ok: "chunks_ok db"
    and f: "\<And>c. ch_id (f c) = ch_id c" "\<And>c. chunk_key (f c) = chunk_key c"
      "\<And>c. ch_provenance (f c) = ch_provenance c"
    and db': "db_chunks db' = update_where P f (db_chunks db)"
      "db_tenants db' = db_tenants db" "db_episodes db' = db_episodes db"
  shows "chunks_ok db'"
proof -
  have tn: "ch_tenant_id (f c) = ch_tenant_id c" for c using f(2) [of c] by (simp add: chunk_key_def)
  have "map ch_id (db_chunks db') = map ch_id (db_chunks db)"
    "map chunk_key (db_chunks db') = map chunk_key (db_chunks db)"
    unfolding db' by (rule update_where_keeps; rule f)+
  then show ?thesis
    using ok unfolding chunks_ok_def db' by (simp add: list_all_update_where f tn)
qed

lemma chunks_ok_insert:
  assumes ok: "chunks_ok db" and ins: "insert_chunk_row c db = Inr (n, db')"
  shows "chunks_ok db'"
proof (cases "chunk_key c \<in> chunk_key ` set (db_chunks db)")
  case True
  with ok ins show ?thesis by (simp add: insert_chunk_row_def)
next
  case False
  with ins have "ch_id c \<notin> ch_id ` set (db_chunks db)" "ch_tenant_id c \<in> set (db_tenants db)"
    "ch_provenance c \<in> ep_id ` set (db_episodes db)"
    "db' = db\<lparr>db_chunks := db_chunks db @ [c]\<rparr>"
    unfolding insert_chunk_row_def by (simp_all split: if_splits)
  with False ok show ?thesis unfolding chunks_ok_def by simp
qed

lemma chunks_ok_upsert_chunk:
  assumes "chunks_ok db" "upsert_chunk i c db = Inr (n, db')"
  shows "chunks_ok db'"
  using assms(2) unfolding upsert_chunk_def
  by (rule chunks_ok_insert [rotated])
    (rule chunks_ok_update [OF assms(1), where f = "close_chunk (cw_valid_from c)"]; simp)

lemma chunks_ok_loop:
  "chunks_ok db \<Longrightarrow> upsert_chunk_loop fresh i cs n db = Inr (m, db') \<Longrightarrow> chunks_ok db'"
  by (induction fresh i cs n db rule: upsert_chunk_loop.induct)
    (auto simp: and_then_Inr dest: chunks_ok_upsert_chunk)

lemma close_tails_keeps:
  assumes "\<And>t c. g (close_chunk t c) = g c"
  shows "map g (snd (close_tails es rows)) = map g rows"
proof (induction es rows rule: close_tails.induct)
  case (2 e es rows)
  have "map g (close_tail e rows) = map g rows"
    unfolding close_tail_def by (rule update_where_keeps) (rule assms)
  with 2 show ?case by (simp add: case_prod_beta Let_def)
qed simp

lemma list_all_map_eq: "map g xs = map g ys \<Longrightarrow> list_all (\<lambda>x. Q (g x)) xs = list_all (\<lambda>x. Q (g x)) ys"
  by (metis list.pred_map comp_apply list.pred_cong)

lemma chunks_ok_map:
  assumes "chunks_ok db" "map ch_id (db_chunks db') = map ch_id (db_chunks db)"
    "map chunk_key (db_chunks db') = map chunk_key (db_chunks db)"
    "map ch_provenance (db_chunks db') = map ch_provenance (db_chunks db)"
    "map ch_tenant_id (db_chunks db') = map ch_tenant_id (db_chunks db)"
    "db_tenants db' = db_tenants db" "db_episodes db' = db_episodes db"
  shows "chunks_ok db'"
  using assms(1) list_all_map_eq [OF assms(4), of "\<lambda>p. p \<in> ep_id ` set (db_episodes db)"]
    list_all_map_eq [OF assms(5), of "\<lambda>t. t \<in> set (db_tenants db)"]
  unfolding chunks_ok_def assms(2,3,6,7) by simp

lemma upsert_chunks_Inr:
  assumes "upsert_chunks fresh cs db = Inr (n, db')"
  obtains db1 where "upsert_chunk_loop fresh 0 cs 0 db = Inr (n, db1)"
    "db_chunks db' = snd (close_tails (tails_of cs) (db_chunks db1))"
    "db_tenants db' = db_tenants db1" "db_episodes db' = db_episodes db1"
    "db_facts db' = db_facts db1"
proof -
  from assms obtain db1 where loop: "upsert_chunk_loop fresh 0 cs 0 db = Inr (n, db1)"
    by (auto simp: upsert_chunks_def and_then_Inr case_prod_beta Let_def)
  obtain tags rows where ct: "close_tails (tails_of cs) (db_chunks db1) = (tags, rows)" by fastforce
  let ?db2 = "db1\<lparr>db_chunks := rows\<rparr>"
  from assms loop ct have "db' = (case cs of [] \<Rightarrow> ?db2
      | c # _ \<Rightarrow> fst (mark_briefs_stale_tx (cw_tenant_id c) (concat (map cw_entity_tags cs) @ tags) ?db2))"
    by (auto simp: upsert_chunks_def Let_def)
  then have "db_chunks db' = rows" "db_tenants db' = db_tenants db1"
    "db_episodes db' = db_episodes db1" "db_facts db' = db_facts db1"
    by (cases cs; simp)+
  with loop ct that show thesis by simp
qed

lemma chunks_ok_upsert_chunks [verity_inv]:
  assumes "chunks_ok db" "upsert_chunks fresh cs db = Inr (n, db')"
  shows "chunks_ok db'"
  using assms(2)
proof (rule upsert_chunks_Inr)
  fix db1 assume db1: "upsert_chunk_loop fresh 0 cs 0 db = Inr (n, db1)"
    "db_chunks db' = snd (close_tails (tails_of cs) (db_chunks db1))"
    "db_tenants db' = db_tenants db1" "db_episodes db' = db_episodes db1"
  have "chunks_ok db1" by (rule chunks_ok_loop [OF assms(1) db1(1)])
  then show ?thesis
    by (rule chunks_ok_map) (use db1(2-) in \<open>simp_all add: close_tails_keeps\<close>)
qed

section \<open>A delivery is the document's current view\<close>

text \<open>The writes of one delivery: one document, one time, positions distinct.\<close>

definition delivery_of ::
  "tenant_id \<Rightarrow> string \<Rightarrow> string \<Rightarrow> instant \<Rightarrow> chunk_write list \<Rightarrow> bool" where
  "delivery_of t s d v cs \<longleftrightarrow>
     list_all (\<lambda>c. cw_tenant_id c = t \<and> cw_source c = s \<and> cw_document_id c = d \<and>
                   cw_valid_from c = v) cs \<and> distinct (map cw_seq cs)"

definition delivered_rows :: "(nat \<Rightarrow> uuid) \<Rightarrow> nat \<Rightarrow> chunk_write list \<Rightarrow> chunk_row list" where
  "delivered_rows fresh i cs = map (\<lambda>(j, c). chunk_row_of (fresh j) c) (zip [i..<i + length cs] cs)"

lemma delivered_rows_Nil [simp]: "delivered_rows fresh i [] = []"
  by (simp add: delivered_rows_def)

lemma delivered_rows_Cons [simp]:
  "delivered_rows fresh i (c # cs) = chunk_row_of (fresh i) c # delivered_rows fresh (Suc i) cs"
proof -
  have "[i..<i + length (c # cs)] = i # [Suc i..<Suc i + length cs]"
    by (subst upt_conv_Cons) simp_all
  then show ?thesis by (simp add: delivered_rows_def del: upt_Suc)
qed

lemma delivered_row_current: "r \<in> set (delivered_rows fresh i cs) \<Longrightarrow> chunk_current r"
  by (auto simp: delivered_rows_def)

lemma delivered_row_of:
  "delivery_of t s d v cs \<Longrightarrow> r \<in> set (delivered_rows fresh i cs) \<Longrightarrow>
   of_document t s d r \<and> ch_valid_from r = v \<and> ch_seq r \<in> set (map cw_seq cs)"
  by (auto simp: delivered_rows_def delivery_of_def list_all_iff of_document_def dest: set_zip_rightD)

definition position_pred ::
  "tenant_id \<Rightarrow> string \<Rightarrow> string \<Rightarrow> instant \<Rightarrow> int set \<Rightarrow> chunk_row \<Rightarrow> bool" where
  "position_pred t s d v S r \<longleftrightarrow>
     of_document t s d r \<and> ch_seq r \<in> S \<and> chunk_current r \<and> ch_valid_from r < v"

lemma close_twice:
  "update_where (position_pred t s d v S) (close_chunk v)
     (update_where (position_pred t s d v S') (close_chunk v) rows) =
   update_where (position_pred t s d v (S' \<union> S)) (close_chunk v) rows"
  by (induction rows) (auto simp: position_pred_def)

text \<open>What the per-position loop leaves: the delivered positions closed, the new rows appended.\<close>

lemma upsert_chunk_loop_delivery:
  assumes "delivery_of t s d v cs"
    and "\<And>r. r \<in> set (db_chunks db) \<Longrightarrow> of_document t s d r \<Longrightarrow> ch_seq r \<in> set (map cw_seq cs) \<Longrightarrow>
           ch_valid_from r \<noteq> v"
    and "inj fresh" and "\<And>j. i \<le> j \<Longrightarrow> fresh j \<notin> ch_id ` set (db_chunks db)"
    and "t \<in> set (db_tenants db)"
    and "list_all (\<lambda>c. cw_provenance c \<in> ep_id ` set (db_episodes db)) cs"
  shows "upsert_chunk_loop fresh i cs n db = Inr (n + length cs,
    db\<lparr>db_chunks := update_where (position_pred t s d v (set (map cw_seq cs))) (close_chunk v)
         (db_chunks db) @ delivered_rows fresh i cs\<rparr>)"
  using assms
proof (induction cs arbitrary: i n db)
  case Nil
  have "update_where (position_pred t s d v {}) (close_chunk v) (db_chunks db) = db_chunks db"
    by (rule update_where_none) (simp add: position_pred_def)
  then show ?case by simp
next
  case (Cons c cs)
  let ?rows = "update_where (position_pred t s d v {cw_seq c}) (close_chunk v) (db_chunks db)"
  let ?new = "chunk_row_of (fresh i) c"
  let ?db1 = "db\<lparr>db_chunks := ?rows @ [?new]\<rparr>"
  have c: "cw_tenant_id c = t" "cw_source c = s" "cw_document_id c = d" "cw_valid_from c = v"
    "cw_seq c \<notin> set (map cw_seq cs)" and cs: "delivery_of t s d v cs"
    using Cons.prems(1) by (auto simp: delivery_of_def)
  have pred: "(\<lambda>r. of_document t s d r \<and> ch_seq r = cw_seq c \<and> chunk_current r \<and> ch_valid_from r < v)
      = position_pred t s d v {cw_seq c}" by (auto simp: position_pred_def fun_eq_iff)
  have keys: "map chunk_key ?rows = map chunk_key (db_chunks db)"
    and ids: "map ch_id ?rows = map ch_id (db_chunks db)"
    by (rule update_where_keeps; simp)+
  have key_new: "chunk_key ?new \<notin> chunk_key ` set ?rows"
  proof
    assume "chunk_key ?new \<in> chunk_key ` set ?rows"
    then have "chunk_key ?new \<in> chunk_key ` set (db_chunks db)" using keys by (metis list.set_map)
    then obtain r where "r \<in> set (db_chunks db)" "chunk_key ?new = chunk_key r" by auto
    with c Cons.prems(2) [of r] show False by (auto simp: chunk_key_def of_document_def)
  qed
  have id_rows: "ch_id ` set ?rows = ch_id ` set (db_chunks db)" using ids by (metis list.set_map)
  have step: "upsert_chunk (fresh i) c db = Inr (1, ?db1)"
    using key_new id_rows Cons.prems(4) [of i] Cons.prems(5,6) c
    by (simp add: upsert_chunk_def pred insert_chunk_row_def)
  have IH: "upsert_chunk_loop fresh (Suc i) cs (n + 1) ?db1 = Inr (n + 1 + length cs,
      ?db1\<lparr>db_chunks := update_where (position_pred t s d v (set (map cw_seq cs))) (close_chunk v)
         (db_chunks ?db1) @ delivered_rows fresh (Suc i) cs\<rparr>)"
  proof (rule Cons.IH [OF cs _ Cons.prems(3)])
    fix r assume r: "r \<in> set (db_chunks ?db1)" "of_document t s d r" "ch_seq r \<in> set (map cw_seq cs)"
    with c(5) have "r \<in> set ?rows" by auto
    then show "ch_valid_from r \<noteq> v"
      using r(2,3) Cons.prems(2) by (cases rule: mem_update_where) auto
  next
    fix j assume "Suc i \<le> j"
    then have "fresh j \<noteq> fresh i" "fresh j \<notin> ch_id ` set (db_chunks db)"
      using Cons.prems(3,4) by (auto dest: injD)
    with id_rows show "fresh j \<notin> ch_id ` set (db_chunks ?db1)" by simp
  qed (use Cons.prems(5,6) in simp_all)
  have new_kept: "update_where (position_pred t s d v (set (map cw_seq cs))) (close_chunk v) (?rows @ [?new])
      = update_where (position_pred t s d v (set (map cw_seq (c # cs)))) (close_chunk v) (db_chunks db) @ [?new]"
  proof -
    have "\<not> position_pred t s d v (set (map cw_seq cs)) ?new" using c by (simp add: position_pred_def)
    moreover have "{cw_seq c} \<union> set (map cw_seq cs) = set (map cw_seq (c # cs))" by simp
    moreover have "update_where P f (xs @ ys) = update_where P f xs @ update_where P f ys"
      for P f and xs ys :: "chunk_row list" by (simp add: update_where_def)
    ultimately show ?thesis using close_twice [of t s d v "set (map cw_seq cs)" "{cw_seq c}"] by simp
  qed
  show ?case using step IH new_kept by simp
qed

lemma Max_insert_max:
  "finite (S :: int set) \<Longrightarrow> Max (insert (max m x) S) = Max (insert m (insert x S))"
  by (cases "S = {}") (simp_all add: max.assoc)

lemma tails_of_step:
  "list_all (\<lambda>c. cw_tenant_id c = t \<and> cw_source c = s \<and> cw_document_id c = d \<and> cw_valid_from c = v) cs \<Longrightarrow>
   foldl (\<lambda>ts c. tail_add c ts) [((t, s, d), (v, m))] cs =
     [((t, s, d), (v, Max (insert m (set (map cw_seq cs)))))]"
proof (induction cs arbitrary: m)
  case (Cons c cs)
  then show ?case by (simp add: Max_insert_max)
qed simp

lemma tails_of_delivery:
  assumes "delivery_of t s d v cs" "cs \<noteq> []"
  shows "tails_of cs = [((t, s, d), (v, Max (set (map cw_seq cs))))]"
proof (cases cs)
  case (Cons c cs')
  then show ?thesis
    using assms tails_of_step [of t s d v cs' "cw_seq c"] by (simp add: tails_of_def delivery_of_def)
qed (use assms in simp)

lemma upsert_chunks_delivery:
  assumes d: "delivery_of t s d v cs" "cs \<noteq> []"
    and old: "\<And>r. r \<in> set (db_chunks db) \<Longrightarrow> of_document t s d r \<Longrightarrow>
      ch_seq r \<in> set (map cw_seq cs) \<Longrightarrow> ch_valid_from r \<noteq> v"
    and fresh: "inj fresh" "\<And>j. fresh j \<notin> ch_id ` set (db_chunks db)"
    and fk: "t \<in> set (db_tenants db)"
      "list_all (\<lambda>c. cw_provenance c \<in> ep_id ` set (db_episodes db)) cs"
  obtains db' where "upsert_chunks fresh cs db = Inr (length cs, db')"
    "db_chunks db' = update_where (in_tail ((t, s, d), (v, Max (set (map cw_seq cs))))) (close_chunk v)
       (update_where (position_pred t s d v (set (map cw_seq cs))) (close_chunk v) (db_chunks db)
        @ delivered_rows fresh 0 cs)"
proof -
  have loop: "upsert_chunk_loop fresh 0 cs 0 db = Inr (length cs,
    db\<lparr>db_chunks := update_where (position_pred t s d v (set (map cw_seq cs))) (close_chunk v)
         (db_chunks db) @ delivered_rows fresh 0 cs\<rparr>)" (is "_ = Inr (_, ?db1)")
    using upsert_chunk_loop_delivery [OF d(1) old fresh fk, where n = 0] by simp
  obtain db' where up: "upsert_chunks fresh cs db = Inr (length cs, db')"
    by (simp add: upsert_chunks_def loop case_prod_beta Let_def)
  then have "db_chunks db' = snd (close_tails (tails_of cs) (db_chunks ?db1))"
    by (rule upsert_chunks_Inr) (simp add: loop)
  with up that show thesis
    by (simp add: tails_of_delivery [OF d] close_tail_def)
qed

lemma filter_update_where_out:
  assumes "\<And>r. P r \<Longrightarrow> \<not> Q (f r)"
  shows "filter Q (update_where P f rs) = filter (\<lambda>r. Q r \<and> \<not> P r) rs"
  using assms by (induction rs) auto

lemma filter_update_where_same:
  assumes "\<And>r. P r \<Longrightarrow> \<not> Q r \<and> \<not> Q (f r)"
  shows "filter Q (update_where P f rs) = filter Q rs"
  using assms by (induction rs) auto

text \<open>Sample data: a document of two chunks, and its one-chunk successor.\<close>

definition sample_chunk :: "int \<Rightarrow> instant \<Rightarrow> string \<Rightarrow> chunk_write" where
  "sample_chunk seq from text =
     \<lparr>cw_tenant_id = 1, cw_source = ''drive'', cw_document_id = ''doc'', cw_seq = seq,
      cw_content = text, cw_content_hash = text, cw_embedding = None, cw_visibility = [5, 6],
      cw_entity_tags = [''acme''], cw_confidentiality = Internal, cw_trust_tier = Authoritative,
      cw_valid_from = from, cw_provenance = 10, cw_acl_provenance = Mirrored,
      cw_derived_from = []\<rparr>"

definition sample_chunks_db :: database where
  "sample_chunks_db = sample_db\<lparr>db_chunks :=
     [chunk_row_of 1 (sample_chunk 0 10 ''a''), chunk_row_of 2 (sample_chunk 1 10 ''b'')]\<rparr>"

lemma sample_chunks_ok: "chunks_ok sample_chunks_db"
  by code_simp

lemma sample_fresh: "inj (\<lambda>j. j + 100 :: nat)" "j + 100 \<notin> ch_id ` set (db_chunks sample_chunks_db)"
  by (simp_all add: sample_chunks_db_def)

text \<open>
  C4: A newer delivery of a document is all of its current view: with positions counted from
  zero, exactly the delivered chunks are current afterwards (replaced positions and the stale
  tail of a longer previous version are closed), every chunk is reported written, and the
  chunks of other documents are untouched.
\<close>

theorem upsert_chunks_current_view:
  assumes d: "delivery_of t s d v cs" "map cw_seq cs = map int [0..<length cs]" "cs \<noteq> []"
    and old: "\<And>r. r \<in> set (db_chunks db) \<Longrightarrow> of_document t s d r \<Longrightarrow> ch_valid_from r < v \<and> 0 \<le> ch_seq r"
    and fresh: "inj fresh" "\<And>j. fresh j \<notin> ch_id ` set (db_chunks db)"
    and fk: "t \<in> set (db_tenants db)"
      "list_all (\<lambda>c. cw_provenance c \<in> ep_id ` set (db_episodes db)) cs"
  shows "\<exists>db'. upsert_chunks fresh cs db = Inr (length cs, db') \<and>
    filter (\<lambda>r. of_document t s d r \<and> chunk_current r) (db_chunks db') = delivered_rows fresh 0 cs \<and>
    filter (\<lambda>r. \<not> of_document t s d r) (db_chunks db') = filter (\<lambda>r. \<not> of_document t s d r) (db_chunks db)"
proof -
  define S M where "S = set (map cw_seq cs)" and "M = Max S"
  have S: "S = {0..<int (length cs)}"
    unfolding S_def d(2) by (simp add: image_int_atLeastLessThan)
  have "finite S" "S \<noteq> {}" using d(3) by (simp_all add: S_def)
  then have M: "M \<in> S" "\<And>x. x \<in> S \<Longrightarrow> x \<le> M" by (simp_all add: M_def)
  have covered: "x \<in> S \<or> M < x" if "0 \<le> x" for x
    using that M S by (cases "x \<in> S") (auto simp: not_less)
  obtain db' where up: "upsert_chunks fresh cs db = Inr (length cs, db')"
    and rows: "db_chunks db' = update_where (in_tail ((t, s, d), (v, M))) (close_chunk v)
       (update_where (position_pred t s d v S) (close_chunk v) (db_chunks db) @ delivered_rows fresh 0 cs)"
    by (rule upsert_chunks_delivery [OF d(1,3) _ fresh fk])
      (use old in \<open>auto simp: S_def M_def dest!: old\<close>)
  let ?new = "delivered_rows fresh 0 cs"
  let ?cur = "\<lambda>r. of_document t s d r \<and> chunk_current r"
  have new: "of_document t s d r" "chunk_current r" "ch_valid_from r = v" if "r \<in> set ?new" for r
    using delivered_row_of [OF d(1) that] delivered_row_current [OF that] by simp_all
  have "filter ?cur (db_chunks db') =
      filter (\<lambda>r. (?cur r \<and> \<not> in_tail ((t, s, d), (v, M)) r) \<and> \<not> position_pred t s d v S r) (db_chunks db)
      @ filter (\<lambda>r. ?cur r \<and> \<not> in_tail ((t, s, d), (v, M)) r) ?new"
    unfolding rows
    by (subst filter_update_where_out, simp, subst filter_append, subst filter_update_where_out) simp_all
  moreover have "filter (\<lambda>r. (?cur r \<and> \<not> in_tail ((t, s, d), (v, M)) r) \<and> \<not> position_pred t s d v S r)
      (db_chunks db) = []"
    using old covered by (force simp: filter_empty_conv in_tail_def position_pred_def)
  moreover have "filter (\<lambda>r. ?cur r \<and> \<not> in_tail ((t, s, d), (v, M)) r) ?new = ?new"
    using new by (intro filter_True) (simp add: in_tail_def)
  moreover have "filter (\<lambda>r. \<not> of_document t s d r) (db_chunks db') =
      filter (\<lambda>r. \<not> of_document t s d r) (db_chunks db)"
  proof -
    have "filter (\<lambda>r. \<not> of_document t s d r) (update_where (in_tail ((t, s, d), (v, M))) (close_chunk v) xs)
        = filter (\<lambda>r. \<not> of_document t s d r) xs" for xs
      by (rule filter_update_where_same) (simp add: in_tail_def)
    moreover have "filter (\<lambda>r. \<not> of_document t s d r) (update_where (position_pred t s d v S) (close_chunk v) xs)
        = filter (\<lambda>r. \<not> of_document t s d r) xs" for xs
      by (rule filter_update_where_same) (simp add: position_pred_def)
    moreover have "filter (\<lambda>r. \<not> of_document t s d r) ?new = []"
      using new by (simp add: filter_empty_conv)
    ultimately show ?thesis unfolding rows by simp
  qed
  ultimately show ?thesis using up by simp
qed

theorem upsert_chunks_current_view_witness:
  "\<exists>db'. upsert_chunks (\<lambda>j. j + 100) [sample_chunk 0 20 ''c''] sample_chunks_db
       = Inr (length [sample_chunk 0 20 ''c''], db') \<and>
    filter (\<lambda>r. of_document 1 ''drive'' ''doc'' r \<and> chunk_current r) (db_chunks db') =
      delivered_rows (\<lambda>j. j + 100) 0 [sample_chunk 0 20 ''c''] \<and>
    filter (\<lambda>r. \<not> of_document 1 ''drive'' ''doc'' r) (db_chunks db') =
      filter (\<lambda>r. \<not> of_document 1 ''drive'' ''doc'' r) (db_chunks sample_chunks_db)"
proof (rule upsert_chunks_current_view [where v = 20])
  have "list_all (\<lambda>r. ch_valid_from r < 20 \<and> 0 \<le> ch_seq r) (db_chunks sample_chunks_db)" by code_simp
  then show "ch_valid_from r < 20 \<and> 0 \<le> ch_seq r" if "r \<in> set (db_chunks sample_chunks_db)" for r
    using that by (simp add: list_all_iff)
  show "delivery_of 1 ''drive'' ''doc'' 20 [sample_chunk 0 20 ''c'']" by code_simp
  show "map cw_seq [sample_chunk 0 20 ''c''] = map int [0..<length [sample_chunk 0 20 ''c'']]" by code_simp
  show "1 \<in> set (db_tenants sample_chunks_db)" by code_simp
  show "list_all (\<lambda>c. cw_provenance c \<in> ep_id ` set (db_episodes sample_chunks_db))
      [sample_chunk 0 20 ''c'']" by code_simp
qed (use sample_fresh in auto)

section \<open>Replays and late deliveries\<close>

text \<open>A write has settled when its natural key is stored and no older row holds its position.\<close>

definition write_key :: "chunk_write \<Rightarrow> tenant_id \<times> string \<times> string \<times> int \<times> instant" where
  "write_key c = (cw_tenant_id c, cw_source c, cw_document_id c, cw_seq c, cw_valid_from c)"

definition settled :: "chunk_write \<Rightarrow> chunk_row list \<Rightarrow> bool" where
  "settled c rows \<longleftrightarrow> write_key c \<in> chunk_key ` set rows \<and>
     (\<forall>r \<in> set rows. \<not> (of_document (cw_tenant_id c) (cw_source c) (cw_document_id c) r \<and>
        ch_seq r = cw_seq c \<and> chunk_current r \<and> ch_valid_from r < cw_valid_from c))"

lemma chunk_key_row_of [simp]: "chunk_key (chunk_row_of i c) = write_key c"
  by (simp add: chunk_key_def write_key_def)

lemma settled_close:
  assumes "settled c rows"
  shows "settled c (update_where P (close_chunk v) rows)"
proof -
  have "map chunk_key (update_where P (close_chunk v) rows) = map chunk_key rows"
    by (rule update_where_keeps) simp
  then have "chunk_key ` set (update_where P (close_chunk v) rows) = chunk_key ` set rows"
    by (metis list.set_map)
  moreover have "\<not> (of_document (cw_tenant_id c) (cw_source c) (cw_document_id c) r \<and>
      ch_seq r = cw_seq c \<and> chunk_current r \<and> ch_valid_from r < cw_valid_from c)"
    if "r \<in> set (update_where P (close_chunk v) rows)" for r
    using that assms by (cases rule: mem_update_where) (auto simp: settled_def)
  ultimately show ?thesis using assms unfolding settled_def by simp
qed

lemma settled_append:
  "settled c rows \<Longrightarrow> ch_valid_from n = cw_valid_from c \<Longrightarrow> settled c (rows @ [n])"
  by (auto simp: settled_def)

lemma insert_chunk_row_chunks:
  "insert_chunk_row c db = Inr (n, db') \<Longrightarrow>
     chunk_key c \<in> chunk_key ` set (db_chunks db) \<and> n = 0 \<and> db' = db \<or>
     n = 1 \<and> db_chunks db' = db_chunks db @ [c]"
  by (auto simp: insert_chunk_row_def split: if_splits)

lemma upsert_chunk_settles:
  assumes up: "upsert_chunk i c db = Inr (n, db')"
  shows "settled c (db_chunks db')"
proof -
  let ?P = "\<lambda>r. of_document (cw_tenant_id c) (cw_source c) (cw_document_id c) r \<and>
    ch_seq r = cw_seq c \<and> chunk_current r \<and> ch_valid_from r < cw_valid_from c"
  let ?rows = "update_where ?P (close_chunk (cw_valid_from c)) (db_chunks db)"
  have none: "\<not> ?P r" if "r \<in> set ?rows" for r
    using that by (cases rule: mem_update_where) auto
  from insert_chunk_row_chunks [OF up [unfolded upsert_chunk_def]]
  consider "chunk_key (chunk_row_of i c) \<in> chunk_key ` set ?rows" "db_chunks db' = ?rows"
    | "db_chunks db' = ?rows @ [chunk_row_of i c]"
    by auto
  then show ?thesis
  proof cases
    case 1
    then have "write_key c \<in> chunk_key ` set ?rows" by simp
    then show ?thesis unfolding settled_def 1(2) by (intro conjI ballI none)
  next
    case 2
    have "write_key c \<in> chunk_key ` set (?rows @ [chunk_row_of i c])" by simp
    moreover have "\<not> ?P r" if "r \<in> set (?rows @ [chunk_row_of i c])" for r
      using that none [of r] by auto
    ultimately show ?thesis unfolding settled_def 2 by (intro conjI ballI)
  qed
qed

lemma upsert_chunk_keeps_settled:
  assumes up: "upsert_chunk i c db = Inr (n, db')" and st: "settled c' (db_chunks db)"
    and v: "cw_valid_from c = cw_valid_from c'"
  shows "settled c' (db_chunks db')"
proof -
  let ?P = "\<lambda>r. of_document (cw_tenant_id c) (cw_source c) (cw_document_id c) r \<and>
    ch_seq r = cw_seq c \<and> chunk_current r \<and> ch_valid_from r < cw_valid_from c"
  let ?rows = "update_where ?P (close_chunk (cw_valid_from c)) (db_chunks db)"
  have rows: "settled c' ?rows" by (rule settled_close [OF st])
  from insert_chunk_row_chunks [OF up [unfolded upsert_chunk_def]]
  consider "db_chunks db' = ?rows" | "db_chunks db' = ?rows @ [chunk_row_of i c]" by auto
  then show ?thesis using rows settled_append [OF rows] v by cases simp_all
qed

lemma upsert_chunk_loop_settles:
  assumes "upsert_chunk_loop fresh i cs n db = Inr (m, db')"
    and "\<And>c. c \<in> set cs \<union> D \<Longrightarrow> cw_valid_from c = v" and "\<And>c. c \<in> D \<Longrightarrow> settled c (db_chunks db)"
  shows "c \<in> set cs \<union> D \<Longrightarrow> settled c (db_chunks db')"
  using assms
proof (induction cs arbitrary: i n db D)
  case (Cons x cs)
  from Cons.prems(2) obtain k db1 where step: "upsert_chunk (fresh i) x db = Inr (k, db1)"
    and rest: "upsert_chunk_loop fresh (Suc i) cs (n + k) db1 = Inr (m, db')"
    by (auto simp: and_then_Inr)
  have "settled y (db_chunks db1)" if "y \<in> insert x D" for y
  proof (cases "y = x")
    case True
    with upsert_chunk_settles [OF step] show ?thesis by simp
  next
    case False
    with that Cons.prems show ?thesis
      by (intro upsert_chunk_keeps_settled [OF step]) auto
  qed
  from Cons.IH [OF _ rest _ this] Cons.prems(1,3) show ?case by auto
qed simp

lemma upsert_chunk_settled_noop:
  assumes "settled c (db_chunks db)"
  shows "upsert_chunk i c db = Inr (0, db)"
proof -
  let ?P = "\<lambda>r. of_document (cw_tenant_id c) (cw_source c) (cw_document_id c) r \<and>
    ch_seq r = cw_seq c \<and> chunk_current r \<and> ch_valid_from r < cw_valid_from c"
  have "update_where ?P (close_chunk (cw_valid_from c)) (db_chunks db) = db_chunks db"
    by (rule update_where_none) (use assms in \<open>auto simp: settled_def\<close>)
  moreover have "chunk_key (chunk_row_of i c) \<in> chunk_key ` set (db_chunks db)"
    using assms unfolding settled_def by simp
  ultimately show ?thesis by (simp add: upsert_chunk_def insert_chunk_row_def)
qed

lemma upsert_chunk_loop_noop:
  "list_all (\<lambda>c. settled c (db_chunks db)) cs \<Longrightarrow> upsert_chunk_loop fresh i cs n db = Inr (n, db)"
  by (induction cs arbitrary: i n) (simp_all add: upsert_chunk_settled_noop)

text \<open>
  Replaying a delivery is a no-op on the chunk table: after any successful delivery of one
  document at one time, early or late, delivering the same chunks again writes no row and
  leaves every row as it was.
\<close>

theorem upsert_chunks_replay:
  assumes d: "delivery_of t s d v cs" and up: "upsert_chunks fresh cs db = Inr (n, db')"
  shows "\<exists>db''. upsert_chunks fresh' cs db' = Inr (0, db'') \<and> db_chunks db'' = db_chunks db'"
proof (cases "cs = []")
  case True
  with up show ?thesis by (auto simp: upsert_chunks_def tails_of_def)
next
  case False
  let ?e = "((t, s, d), (v, Max (set (map cw_seq cs))))"
  note tails = tails_of_delivery [OF d False]
  from up obtain db1 where loop: "upsert_chunk_loop fresh 0 cs 0 db = Inr (n, db1)"
    and rows: "db_chunks db' = update_where (in_tail ?e) (close_chunk v) (db_chunks db1)"
    by (rule upsert_chunks_Inr) (simp add: tails close_tail_def)
  have "settled c (db_chunks db1)" if "c \<in> set cs" for c
    using upsert_chunk_loop_settles [OF loop, of "{}" v] that d
    by (simp add: delivery_of_def list_all_iff)
  then have "list_all (\<lambda>c. settled c (db_chunks db')) cs"
    unfolding list_all_iff rows by (simp add: settled_close)
  then have again: "upsert_chunk_loop fresh' 0 cs 0 db' = Inr (0, db')"
    by (rule upsert_chunk_loop_noop)
  have "\<not> in_tail ?e r" if "r \<in> set (db_chunks db')" for r
    using that unfolding rows by (cases rule: mem_update_where) (auto simp: in_tail_def)
  then have "close_tail ?e (db_chunks db') = db_chunks db'"
    unfolding close_tail_def by (intro update_where_none) auto
  then have idle: "snd (close_tails (tails_of cs) (db_chunks db')) = db_chunks db'"
    by (simp add: tails)
  obtain db'' where up2: "upsert_chunks fresh' cs db' = Inr (0, db'')"
    by (simp add: upsert_chunks_def again case_prod_beta Let_def)
  then have "db_chunks db'' = db_chunks db'"
    by (rule upsert_chunks_Inr) (simp add: again idle)
  with up2 show ?thesis by blast
qed

theorem upsert_chunks_replay_witness:
  "\<exists>db' db''. upsert_chunks (\<lambda>j. j + 100) [sample_chunk 0 20 ''c''] sample_chunks_db = Inr (1, db') \<and>
     upsert_chunks (\<lambda>j. j + 200) [sample_chunk 0 20 ''c''] db' = Inr (0, db'') \<and>
     db_chunks db'' = db_chunks db'"
proof -
  have "(case upsert_chunks (\<lambda>j. j + 100) [sample_chunk 0 20 ''c''] sample_chunks_db of
      Inr (n, _) \<Rightarrow> n = 1 | Inl _ \<Rightarrow> False)" by code_simp
  then obtain db' where up: "upsert_chunks (\<lambda>j. j + 100) [sample_chunk 0 20 ''c''] sample_chunks_db = Inr (1, db')"
    by (auto split: sum.splits)
  have "delivery_of 1 ''drive'' ''doc'' 20 [sample_chunk 0 20 ''c'']" by code_simp
  from upsert_chunks_replay [OF this up] up show ?thesis by blast
qed

text \<open>
  A late delivery duplicates a position: when a newer version of a chunk is current and an
  older version of the same position arrives, the older row is inserted as current beside it, so
  both are served until the next newer delivery.
\<close>

theorem upsert_chunks_late_two_current:
  assumes r: "r \<in> set (db_chunks db)" "of_document t s d r" "ch_seq r = cw_seq c" "chunk_current r"
    "v < ch_valid_from r"
    and c: "delivery_of t s d v [c]" "write_key c \<notin> chunk_key ` set (db_chunks db)"
    and fresh: "inj fresh" "\<And>j. fresh j \<notin> ch_id ` set (db_chunks db)"
    and fk: "t \<in> set (db_tenants db)" "cw_provenance c \<in> ep_id ` set (db_episodes db)"
  shows "\<exists>db'. upsert_chunks fresh [c] db = Inr (1, db') \<and>
    {r, chunk_row_of (fresh 0) c} \<subseteq>
      {x \<in> set (db_chunks db'). of_document t s d x \<and> ch_seq x = cw_seq c \<and> chunk_current x}"
proof -
  have v: "cw_valid_from c = v" "cw_tenant_id c = t" "cw_source c = s" "cw_document_id c = d"
    using c(1) by (simp_all add: delivery_of_def)
  have old: "ch_valid_from x \<noteq> v"
    if "x \<in> set (db_chunks db)" "of_document t s d x" "ch_seq x \<in> set (map cw_seq [c])" for x
  proof
    assume "ch_valid_from x = v"
    with that v have "chunk_key x = write_key c"
      by (simp add: chunk_key_def write_key_def of_document_def)
    with that(1) c(2) show False by (metis image_eqI)
  qed
  obtain db' where up: "upsert_chunks fresh [c] db = Inr (length [c], db')" and
    rows: "db_chunks db' = update_where (in_tail ((t, s, d), (v, Max (set (map cw_seq [c]))))) (close_chunk v)
       (update_where (position_pred t s d v (set (map cw_seq [c]))) (close_chunk v) (db_chunks db)
        @ delivered_rows fresh 0 [c])"
    by (rule upsert_chunks_delivery [OF c(1) _ old fresh fk(1)]) (use fk(2) in simp_all)
  have "\<not> position_pred t s d v (set (map cw_seq [c])) r"
    "\<not> in_tail ((t, s, d), (v, Max (set (map cw_seq [c])))) r"
    using r by (auto simp: position_pred_def in_tail_def)
  then have "r \<in> set (db_chunks db')" using r(1) unfolding rows by (auto simp: update_where_def)
  moreover have "\<not> in_tail ((t, s, d), (v, Max (set (map cw_seq [c])))) (chunk_row_of (fresh 0) c)"
    using v by (simp add: in_tail_def)
  then have "chunk_row_of (fresh 0) c \<in> set (db_chunks db')"
    unfolding rows by (auto simp: update_where_def)
  moreover have "of_document t s d (chunk_row_of (fresh 0) c)" using v by (simp add: of_document_def)
  ultimately show ?thesis using up r(2-4) by auto
qed

theorem upsert_chunks_late_two_current_witness:
  "\<exists>db'. upsert_chunks (\<lambda>j. j + 100) [sample_chunk 0 5 ''z''] sample_chunks_db = Inr (1, db') \<and>
    {chunk_row_of 1 (sample_chunk 0 10 ''a''), chunk_row_of (0 + 100) (sample_chunk 0 5 ''z'')} \<subseteq>
      {x \<in> set (db_chunks db'). of_document 1 ''drive'' ''doc'' x \<and>
         ch_seq x = cw_seq (sample_chunk 0 5 ''z'') \<and> chunk_current x}"
proof (rule upsert_chunks_late_two_current [where v = 5])
  show "delivery_of 1 ''drive'' ''doc'' 5 [sample_chunk 0 5 ''z'']" by code_simp
  show "chunk_row_of 1 (sample_chunk 0 10 ''a'') \<in> set (db_chunks sample_chunks_db)" by code_simp
  show "of_document 1 ''drive'' ''doc'' (chunk_row_of 1 (sample_chunk 0 10 ''a''))" by code_simp
  show "ch_seq (chunk_row_of 1 (sample_chunk 0 10 ''a'')) = cw_seq (sample_chunk 0 5 ''z'')" by code_simp
  show "chunk_current (chunk_row_of 1 (sample_chunk 0 10 ''a''))" by code_simp
  show "5 < ch_valid_from (chunk_row_of 1 (sample_chunk 0 10 ''a''))" by code_simp
  show "write_key (sample_chunk 0 5 ''z'') \<notin> chunk_key ` set (db_chunks sample_chunks_db)" by code_simp
  show "1 \<in> set (db_tenants sample_chunks_db)" by code_simp
  show "cw_provenance (sample_chunk 0 5 ''z'') \<in> ep_id ` set (db_episodes sample_chunks_db)" by code_simp
qed (use sample_fresh in auto)

section \<open>Retirement, ACL corrections, the sweep\<close>

lemma strip_token_key [simp]: "chunk_key (strip_token token c) = chunk_key c"
  "ch_provenance (strip_token token c) = ch_provenance c"
  by (simp_all add: strip_token_def chunk_key_def)

lemma set_chunk_acl_sel [simp]:
  "ch_id (set_chunk_acl v c r) = ch_id r" "chunk_key (set_chunk_acl v c r) = chunk_key r"
  "ch_provenance (set_chunk_acl v c r) = ch_provenance r" "ch_content (set_chunk_acl v c r) = ch_content r"
  "ch_visibility (set_chunk_acl v c r) = v" "ch_confidentiality (set_chunk_acl v c r) = c"
  "of_document t s d (set_chunk_acl v c r) = of_document t s d r"
  "chunk_current (set_chunk_acl v c r) = chunk_current r"
  by (simp_all add: set_chunk_acl_def chunk_key_def of_document_def chunk_current_def)

text \<open>
  Retiring a document leaves no current chunk of it, reports how many there were, writes one
  ledger row every time it is driven, and a second retirement retires nothing and changes no
  chunk.
\<close>

theorem retire_document_closes_lineage:
  assumes r: "retire_document now l t s d reason db = Inr (n, db')"
  shows "n = length (filter (\<lambda>c. of_document t s d c \<and> chunk_current c) (db_chunks db)) \<and>
    filter (\<lambda>c. of_document t s d c \<and> chunk_current c) (db_chunks db') = [] \<and>
    length (db_document_retire_ledger db') = length (db_document_retire_ledger db) + 1 \<and>
    (\<exists>db''. retire_document now' l' t s d reason' db' = Inr (0, db'') \<and> db_chunks db'' = db_chunks db')"
proof -
  let ?P = "\<lambda>c. of_document t s d c \<and> chunk_current c"
  let ?f = "\<lambda>c. c\<lparr>ch_valid_to := Some now, ch_visibility := []\<rparr>"
  have tn: "t \<in> set (db_tenants db)" and n: "n = rows_affected ?P (db_chunks db)"
    and rows: "db_chunks db' = update_where ?P ?f (db_chunks db)" and tn': "db_tenants db' = db_tenants db"
    and ledger: "length (db_document_retire_ledger db') = length (db_document_retire_ledger db) + 1"
    using r by (auto simp: retire_document_def Let_def split: if_splits)
  have none: "filter ?P (db_chunks db') = []"
    unfolding rows
    by (subst filter_update_where_out) (simp add: chunk_current_def, auto simp: filter_empty_conv)
  have "update_where ?P f (db_chunks db') = db_chunks db'" for f
    by (rule update_where_none) (use none in \<open>auto simp: filter_empty_conv\<close>)
  moreover have "rows_affected ?P (db_chunks db') = 0" using none by (simp add: rows_affected_def)
  ultimately have "\<exists>db''. retire_document now' l' t s d reason' db' = Inr (0, db'') \<and> db_chunks db'' = db_chunks db'"
    using tn tn' by (simp add: retire_document_def Let_def)
  with n none ledger show ?thesis by (simp add: rows_affected_def)
qed

theorem retire_document_closes_lineage_witness:
  "\<exists>db'. retire_document 50 9 1 ''drive'' ''doc'' ''removed'' sample_chunks_db = Inr (2, db') \<and>
    filter (\<lambda>c. of_document 1 ''drive'' ''doc'' c \<and> chunk_current c) (db_chunks db') = []"
proof -
  have "(case retire_document 50 9 1 ''drive'' ''doc'' ''removed'' sample_chunks_db of
      Inr (n, _) \<Rightarrow> n = 2 | Inl _ \<Rightarrow> False)" by code_simp
  then obtain db' where r: "retire_document 50 9 1 ''drive'' ''doc'' ''removed'' sample_chunks_db = Inr (2, db')"
    by (auto split: sum.splits)
  from retire_document_closes_lineage [OF r] r show ?thesis by blast
qed

text \<open>
  A chunk ACL correction rewrites every version of the document at once: afterwards no scope
  without a token of the new set, or below the new class, reads any of its chunks through the
  lineage, recall or entity predicates; positions, times and contents stay.
\<close>

theorem correct_chunk_acl_is_now_acl:
  assumes out: "set (sc_principals sc) \<inter> set vis = {} \<or> sc_max_confidentiality sc < conf"
    and c: "correct_chunk_acl fresh t s d vis conf re p cb db = (n, db')"
  shows "list_all (\<lambda>c. of_document t s d c \<longrightarrow> \<not> chunk_acl_visible sc c) (db_chunks db') \<and>
    map (\<lambda>c. (chunk_key c, ch_content c, ch_provenance c)) (db_chunks db') =
    map (\<lambda>c. (chunk_key c, ch_content c, ch_provenance c)) (db_chunks db) \<and>
    n = length (filter (of_document t s d) (db_chunks db))"
proof -
  have rows: "db_chunks db' = update_where (of_document t s d) (set_chunk_acl vis conf) (db_chunks db)"
    and n: "n = length (filter (of_document t s d) (db_chunks db))"
    using c by (auto simp: correct_chunk_acl_def Let_def rows_affected_def)
  have "\<not> chunk_acl_visible sc x" if x: "x \<in> set (db_chunks db')" "of_document t s d x" for x
    using x(1) unfolding rows
  proof (cases rule: mem_update_where)
    case (1 y)
    have "\<not> (conf \<le> sc_max_confidentiality sc) \<or> set vis \<inter> set (sc_principals sc) = {}"
      using out by auto
    with 1 show ?thesis by (auto simp: chunk_acl_visible_def)
  next
    case 2
    with x(2) show ?thesis by simp
  qed
  moreover have "map (\<lambda>c. (chunk_key c, ch_content c, ch_provenance c)) (db_chunks db') =
    map (\<lambda>c. (chunk_key c, ch_content c, ch_provenance c)) (db_chunks db)"
    unfolding rows by (rule update_where_keeps) simp
  ultimately show ?thesis using n by (auto simp: list_all_iff)
qed

theorem correct_chunk_acl_is_now_acl_witness:
  "\<exists>n db'. correct_chunk_acl (\<lambda>j. j) 1 ''drive'' ''doc'' [6] Internal SourceUnshare Mirrored None
      sample_chunks_db = (n, db') \<and>
    list_all (\<lambda>c. of_document 1 ''drive'' ''doc'' c \<longrightarrow> \<not> chunk_acl_visible (sample_scope [5]) c) (db_chunks db')"
proof -
  obtain n db' where c: "correct_chunk_acl (\<lambda>j. j) 1 ''drive'' ''doc'' [6] Internal SourceUnshare Mirrored None
      sample_chunks_db = (n, db')" by fastforce
  have "set (sc_principals (sample_scope [5])) \<inter> set [6] = {} \<or>
      sc_max_confidentiality (sample_scope [5]) < Internal" by code_simp
  from correct_chunk_acl_is_now_acl [OF this c] c show ?thesis by blast
qed

text \<open>
  The batched sweep of a revoked token ends and does exactly one thing: every chunk of the
  tenant, current or superseded, loses that token and keeps its other grants and its class, and
  no chunk of another tenant changes; the reported number is that of the documents whose current
  chunks carried it.
\<close>

theorem retract_token_strips_exactly:
  assumes ok: "chunks_ok db"
  shows "db_chunks (snd (retract_token_from_chunks fresh t token reason cb db)) =
      map (\<lambda>c. if ch_tenant_id c = t then strip_token token c else c) (db_chunks db) \<and>
    fst (retract_token_from_chunks fresh t token reason cb db) =
      card {(ch_source c, ch_document_id c) |c. c \<in> set (db_chunks db) \<and> chunk_current c \<and> carries t token c}"
proof -
  have "distinct (map ch_id (db_chunks db))" using ok by (simp add: chunks_ok_def)
  then have "db_chunks (snd (retract_token_from_chunks fresh t token reason cb db)) =
      update_where (carries t token) (strip_token token) (db_chunks db)"
    by (simp add: retract_token_from_chunks_def retract_loop_strip after_cursor_def)
  also have "\<dots> = map (\<lambda>c. if ch_tenant_id c = t then strip_token token c else c) (db_chunks db)"
    unfolding update_where_def
    by (rule map_cong [OF refl]) (auto simp: strip_token_idem carries_def)
  finally have "db_chunks (snd (retract_token_from_chunks fresh t token reason cb db)) =
      map (\<lambda>c. if ch_tenant_id c = t then strip_token token c else c) (db_chunks db)" .
  moreover have "set (map (\<lambda>c. (ch_source c, ch_document_id c))
      (filter (\<lambda>c. chunk_current c \<and> carries t token c) (db_chunks db))) =
    {(ch_source c, ch_document_id c) |c. c \<in> set (db_chunks db) \<and> chunk_current c \<and> carries t token c}"
    by auto
  ultimately show ?thesis
    by (simp add: retract_token_from_chunks_def length_remdups_card_conv)
qed

theorem retract_token_strips_exactly_witness:
  "db_chunks (snd (retract_token_from_chunks (\<lambda>j. j) 1 5 PrincipalRevoke ''admin'' sample_chunks_db)) =
    map (\<lambda>c. if ch_tenant_id c = 1 then strip_token 5 c else c) (db_chunks sample_chunks_db)"
  using retract_token_strips_exactly [OF sample_chunks_ok] by blast

section \<open>Lineage resolution\<close>

definition cites :: "uuid \<Rightarrow> chunk_row \<Rightarrow> bool" where
  "cites reference c \<longleftrightarrow> ch_id c = reference \<or> ch_provenance c = reference"

lemma derivation_foldl:
  "let M = {r \<in> set rows. cites reference r};
       (ep, vis, conf) = foldl (derivation_step reference) (None, None, Public) rows
   in if M = {} then ep = None \<and> vis = None
      else (\<exists>p v. ep = Some p \<and> vis = Some v \<and> set v = (\<Inter>r \<in> M. set (ch_visibility r)) \<and>
              p \<in> ch_provenance ` M \<and> (\<forall>r \<in> M. ch_confidentiality r \<le> conf))"
proof (induction rows rule: rev_induct)
  case (snoc r rows)
  let ?M = "{r \<in> set rows. cites reference r}"
  obtain ep vis conf where acc: "foldl (derivation_step reference) (None, None, Public) rows = (ep, vis, conf)"
    by (metis prod_cases3)
  note IH = snoc.IH [unfolded acc Let_def prod.case]
  show ?case
  proof (cases "cites reference r")
    case False
    then have M: "{x \<in> set (rows @ [r]). cites reference x} = ?M" by auto
    from False have "foldl (derivation_step reference) (None, None, Public) (rows @ [r]) = (ep, vis, conf)"
      by (simp add: acc derivation_step_def cites_def)
    with IH show ?thesis unfolding M Let_def by simp
  next
    case True
    then have M: "{x \<in> set (rows @ [r]). cites reference x} = insert r ?M" by auto
    from True have step: "foldl (derivation_step reference) (None, None, Public) (rows @ [r]) =
        (Some (ch_provenance r),
         Some (case vis of None \<Rightarrow> ch_visibility r | Some v \<Rightarrow> filter (\<lambda>t. t \<in> set (ch_visibility r)) v),
         max conf (ch_confidentiality r))"
      by (auto simp: acc derivation_step_def cites_def)
    show ?thesis
    proof (cases "?M = {}")
      case True
      from IH [unfolded if_P [OF True]] have "vis = None" by simp
      with True show ?thesis unfolding M True step Let_def by (simp only: prod.case) simp
    next
      case False
      from IH [unfolded if_not_P [OF False]] obtain v where v: "vis = Some v"
        "set v = (\<Inter>r \<in> ?M. set (ch_visibility r))" "\<forall>r \<in> ?M. ch_confidentiality r \<le> conf" by blast
      have vis': "set (filter (\<lambda>t. t \<in> set (ch_visibility r)) v) = (\<Inter>x \<in> insert r ?M. set (ch_visibility x))"
        unfolding INT_insert v(2) [symmetric] by auto
      have conf': "\<forall>x \<in> insert r ?M. ch_confidentiality x \<le> max conf (ch_confidentiality r)"
        using v(3) by (auto simp: le_max_iff_disj)
      show ?thesis unfolding M step Let_def prod.case v(1) option.case using vis' conf' by simp
    qed
  qed
qed simp

lemma derivation_fold_Some:
  assumes "derivation_fold rows reference = Some i"
  shows "di_reference i = reference"
    and "\<exists>r \<in> set rows. cites reference r \<and> di_episode_id i = ch_provenance r"
    and "set (di_visibility i) = (\<Inter>r \<in> {r \<in> set rows. cites reference r}. set (ch_visibility r))"
    and "\<And>r. r \<in> set rows \<Longrightarrow> cites reference r \<Longrightarrow> ch_confidentiality r \<le> di_confidentiality i"
proof -
  obtain ep vis conf where acc: "foldl (derivation_step reference) (None, None, Public) rows = (ep, vis, conf)"
    by (metis prod_cases3)
  from assms acc obtain p v where pv: "ep = Some p" "vis = Some v"
    and i: "i = \<lparr>di_reference = reference, di_episode_id = p, di_visibility = v, di_confidentiality = conf\<rparr>"
    by (auto simp: derivation_fold_def split: option.splits)
  note char = derivation_foldl [of rows reference, unfolded acc Let_def prod.case]
  have ne: "{r \<in> set rows. cites reference r} \<noteq> {}"
  proof
    assume "{r \<in> set rows. cites reference r} = {}"
    from char [unfolded this] pv show False by simp
  qed
  from char [unfolded if_not_P [OF ne]] pv have all: "set v = (\<Inter>r \<in> {r \<in> set rows. cites reference r}. set (ch_visibility r))"
    "p \<in> ch_provenance ` {r \<in> set rows. cites reference r}"
    "\<forall>r \<in> {r \<in> set rows. cites reference r}. ch_confidentiality r \<le> conf" by blast+
  show "di_reference i = reference" by (simp add: i)
  show "\<exists>r \<in> set rows. cites reference r \<and> di_episode_id i = ch_provenance r" using all(2) by (auto simp: i)
  show "set (di_visibility i) = (\<Inter>r \<in> {r \<in> set rows. cites reference r}. set (ch_visibility r))"
    using all(1) by (simp add: i)
  show "ch_confidentiality r \<le> di_confidentiality i" if "r \<in> set rows" "cites reference r" for r
    using all(3) that by (simp add: i)
qed

text \<open>What the writer may read and cites: the rows lineage resolution folds.\<close>

definition citable :: "scope \<Rightarrow> chunk_row \<Rightarrow> bool" where
  "citable sc c \<longleftrightarrow> chunk_acl_visible sc c \<and> entity_scope_predicate sc c"

lemma resolve_derivation_inputs_mem:
  assumes "i \<in> set (resolve_derivation_inputs sc refs db)"
  shows "di_reference i \<in> set refs"
    and "\<exists>c \<in> set (db_chunks db). citable sc c \<and> cites (di_reference i) c"
    and "\<And>c. c \<in> set (db_chunks db) \<Longrightarrow> citable sc c \<Longrightarrow> cites (di_reference i) c \<Longrightarrow>
           set (di_visibility i) \<subseteq> set (ch_visibility c) \<and> ch_confidentiality c \<le> di_confidentiality i"
proof -
  define rows where "rows = filter (\<lambda>c. chunk_acl_visible sc c \<and>
     (ch_id c \<in> set refs \<or> ch_provenance c \<in> set refs) \<and> entity_scope_predicate sc c) (db_chunks db)"
  from assms obtain r where r: "r \<in> set refs" "derivation_fold rows r = Some i"
    by (auto simp: resolve_derivation_inputs_def rows_def Let_def map_filter_def split: if_splits)
  note char = derivation_fold_Some [OF r(2)]
  show ref: "di_reference i \<in> set refs" using r(1) char(1) by simp
  show "\<exists>c \<in> set (db_chunks db). citable sc c \<and> cites (di_reference i) c"
    using char(1,2) by (auto simp: rows_def citable_def)
  show "set (di_visibility i) \<subseteq> set (ch_visibility c) \<and> ch_confidentiality c \<le> di_confidentiality i"
    if c: "c \<in> set (db_chunks db)" "citable sc c" "cites (di_reference i) c" for c
  proof -
    have "c \<in> set rows" using c r(1) char(1) by (auto simp: rows_def citable_def cites_def)
    with char(1,3,4) c(3) show ?thesis by auto
  qed
qed

end
