(* ===== verification/Server_Scope.thy ===== *)
theory Server_Scope
  imports Scope_Handle Chunk_Delivery
begin

text \<open>
  From a handle to the scope a read enforces (\<^verbatim>\<open>crates/verity-server/src/main.rs\<close>): minting with
  purpose packs and identity resolution (\<^verbatim>\<open>open_scope\<close>), and the read-path choke \<^verbatim>\<open>scope_for\<close> with the
  revocation subtraction and the staleness fence. \<open>server_env\<close> is the configuration with the library
  code and the SpiceDB client as fields; \<open>server_state\<close> is what the handlers change. One handler call
  reads the clock once (\<open>now\<close>) and the process uptime once (\<open>uptime\<close>, in seconds). A refusal is a
  value of \<open>refusal\<close>; the state a handler had reached when it refused is kept, since each statement
  commits on its own.
\<close>

section \<open>Watch health\<close>

record watch_status =
  ws_enabled :: bool
  ws_connected :: bool
  ws_degraded :: bool
  ws_gaps :: nat
  ws_last_advance_secs :: nat
  ws_last_error :: "string option"

definition new_watch :: watch_status where
  "new_watch = \<lparr>ws_enabled = False, ws_connected = False, ws_degraded = False, ws_gaps = 0,
     ws_last_advance_secs = 0, ws_last_error = None\<rparr>"

text \<open>\<^verbatim>\<open>u64::saturating_add\<close>; natural subtraction is \<^verbatim>\<open>saturating_sub\<close>.\<close>

definition saturating_add :: "nat \<Rightarrow> nat \<Rightarrow> nat" where
  "saturating_add a b = min (2 ^ 64 - 1) (a + b)"

definition mark_advance :: "nat \<Rightarrow> watch_status \<Rightarrow> watch_status" where
  "mark_advance uptime w = w\<lparr>ws_last_advance_secs := saturating_add uptime 1\<rparr>"

definition lag_seconds_cached :: "nat \<Rightarrow> watch_status \<Rightarrow> nat option" where
  "lag_seconds_cached uptime w =
     (if ws_last_advance_secs w = 0 then None
      else Some (saturating_add uptime 1 - ws_last_advance_secs w))"

definition is_stale :: "nat \<Rightarrow> nat \<Rightarrow> watch_status \<Rightarrow> bool" where
  "is_stale uptime bound_secs w =
     (if \<not> ws_enabled w then False
      else if ws_degraded w \<or> \<not> ws_connected w then True
      else case lag_seconds_cached uptime w of None \<Rightarrow> True | Some lag \<Rightarrow> bound_secs < lag)"

definition set_connected :: "bool \<Rightarrow> watch_status \<Rightarrow> watch_status" where
  "set_connected on w = w\<lparr>ws_connected := on\<rparr>"

definition mark_gap :: "string \<Rightarrow> watch_status \<Rightarrow> watch_status" where
  "mark_gap msg w = w\<lparr>ws_degraded := True, ws_gaps := ws_gaps w + 1, ws_last_error := Some msg\<rparr>"

section \<open>The identity plane\<close>

datatype rebac_error = Transport string | Api nat string | RebacMalformed string

fun contains_text :: "string \<Rightarrow> string \<Rightarrow> bool" where
  "contains_text p [] = starts_with p []"
| "contains_text p (c # cs) = (starts_with p (c # cs) \<or> contains_text p cs)"

fun is_max_depth :: "rebac_error \<Rightarrow> bool" where
  "is_max_depth (Api _ body) = contains_text ''MAXIMUM_DEPTH_EXCEEDED'' body"
| "is_max_depth _ = False"

text \<open>\<^verbatim>\<open>user_groups\<close>: what SpiceDB answers for a user of a tenant, as group principals.\<close>

type_synonym rebac = "tenant_id \<Rightarrow> string \<Rightarrow> rebac_error + string list"

section \<open>Purpose packs\<close>

record purpose_rule =
  pu_max_confidentiality :: confidentiality
  pu_require_entity_scope :: bool

type_synonym purpose_pack = "(string \<times> purpose_rule) list"

definition parse_confidentiality :: "string \<Rightarrow> confidentiality option" where
  "parse_confidentiality s =
     (let l = to_ascii_lowercase s
      in if l = ''public'' then Some Public
         else if l = ''internal'' then Some Internal
         else if l = ''confidential'' then Some Confidential
         else if l = ''restricted'' then Some Restricted
         else None)"

text \<open>A raw rule is the YAML text of the ceiling and the entity requirement.\<close>

fun purpose_pack_parse :: "(string \<times> string \<times> bool) list \<Rightarrow> (string \<times> string) + purpose_pack" where
  "purpose_pack_parse [] = Inr []"
| "purpose_pack_parse ((name, max_conf, require) # raw) =
     (case parse_confidentiality max_conf of
        None \<Rightarrow> Inl (name, max_conf)
      | Some c \<Rightarrow> and_then (purpose_pack_parse raw) (\<lambda>pack.
          Inr ((name, \<lparr>pu_max_confidentiality = c, pu_require_entity_scope = require\<rparr>) # pack)))"

definition default_pack :: "(string \<times> string \<times> bool) list" where
  "default_pack = [(''support_conversation'', ''internal'', True), (''sales_negotiation'', ''confidential'', True),
     (''marketing'', ''public'', False), (''analytics'', ''internal'', False), (''audit'', ''restricted'', False)]"

definition purpose_get :: "purpose_pack \<Rightarrow> string \<Rightarrow> purpose_rule option" where
  "purpose_get pack purpose = map_of pack purpose"

section \<open>Configuration and state\<close>

record minter =
  mi_key :: string
  mi_mac :: "string \<Rightarrow> string \<Rightarrow> string"
  mi_enc :: "string \<Rightarrow> string"
  mi_dec :: "string \<Rightarrow> string option"
  mi_ser :: "scope_payload \<Rightarrow> string"
  mi_de :: "string \<Rightarrow> scope_payload option"

record server_env =
  en_minter :: minter
  en_rebac :: "rebac option"
  en_allow_restricted_without_rebac :: bool
  en_watch_staleness_fence_secs :: nat
  en_purposes :: purpose_pack
  en_remember_require_lineage :: bool
  en_encode :: "string \<Rightarrow> rat list option"
  en_uuid_str :: "uuid \<Rightarrow> string"
  en_md5ish :: "string \<Rightarrow> string"

record audit_row =
  au_tenant_id :: tenant_id
  au_actor_sub :: "string option"
  au_actor_azp :: "string option"
  au_verb :: string
  au_principals :: "principal_token list"
  au_entity_scope :: "string list"
  au_confidentiality :: int
  au_query_summary :: "string option"
  au_result_ids :: "uuid list"

record server_state =
  sv_db :: database
  sv_rev :: revocation_db
  sv_plane :: revocation_plane
  sv_watch :: watch_status
  sv_fences :: nat
  sv_audit :: "audit_row list"
  sv_freshness :: "(tenant_id \<times> string \<times> instant) list"

datatype refusal =
    ScopeRefused scope_error
  | TenantUnknown
  | PurposeUnknown string
  | PurposeNeedsEntities string
  | SubjectAndPrincipals
  | SubjectNotUser
  | IdentityFailed rebac_error
  | SubjectNeedsRebac
  | EntitiesOutsideScope
  | RebacFailed rebac_error
  | LineageNotVisible "uuid list"
  | PolicyOutside string
  | LineageRequired
  | StorageFailed storage_error
  | AclMalformed
  | AclQuarantined
  | TargetAmbiguous
  | NothingRewritten string
  | ReasonUnknown string
  | Panic

fun status_of :: "refusal \<Rightarrow> nat" where
  "status_of (ScopeRefused _) = 401"
| "status_of TenantUnknown = 404"
| "status_of (PurposeUnknown _) = 422"
| "status_of (PurposeNeedsEntities _) = 422"
| "status_of SubjectAndPrincipals = 422"
| "status_of SubjectNotUser = 422"
| "status_of (IdentityFailed _) = 502"
| "status_of SubjectNeedsRebac = 422"
| "status_of EntitiesOutsideScope = 403"
| "status_of (RebacFailed _) = 500"
| "status_of (LineageNotVisible _) = 403"
| "status_of (PolicyOutside _) = 422"
| "status_of LineageRequired = 422"
| "status_of (StorageFailed _) = 500"
| "status_of AclMalformed = 422"
| "status_of AclQuarantined = 422"
| "status_of TargetAmbiguous = 422"
| "status_of (NothingRewritten _) = 404"
| "status_of (ReasonUnknown _) = 422"
| "status_of Panic = 500"

type_synonym 'a handler_result = "(refusal + 'a) \<times> server_state"

text \<open>\<^verbatim>\<open>?\<close> on a step that may have changed the state.\<close>

fun bind_h :: "'a handler_result \<Rightarrow> ('a \<Rightarrow> server_state \<Rightarrow> 'b handler_result) \<Rightarrow> 'b handler_result" where
  "bind_h (Inl e, st) f = (Inl e, st)"
| "bind_h (Inr a, st) f = f a st"

definition spawn_audit :: "scope_payload \<Rightarrow> string \<Rightarrow> string option \<Rightarrow> uuid list \<Rightarrow> server_state \<Rightarrow> server_state" where
  "spawn_audit p verb query_summary result_ids st = st\<lparr>sv_audit := sv_audit st @
     [\<lparr>au_tenant_id = sp_tenant_id p, au_actor_sub = sp_actor_sub p, au_actor_azp = sp_actor_azp p,
       au_verb = verb, au_principals = sp_principals p, au_entity_scope = sp_entity_scope p,
       au_confidentiality = conf_code (sp_max_confidentiality p),
       au_query_summary = map_option (take 120) query_summary, au_result_ids = result_ids\<rparr>]\<rparr>"

definition record_sample :: "tenant_id \<Rightarrow> string \<Rightarrow> instant \<Rightarrow> server_state \<Rightarrow> server_state" where
  "record_sample t source event_at st = st\<lparr>sv_freshness := sv_freshness st @ [(t, source, event_at)]\<rparr>"

section \<open>Compiling a handle into a scope\<close>

definition verify_scope :: "server_env \<Rightarrow> instant \<Rightarrow> string \<Rightarrow> refusal + scope_payload" where
  "verify_scope env now handle =
     (let m = en_minter env
      in case verify (mi_mac m) (mi_dec m) (mi_de m) (mi_key m) now handle of
           Inl e \<Rightarrow> Inl (ScopeRefused e) | Inr p \<Rightarrow> Inr p)"

text \<open>Look the tokens of the principals up (allocating), and apply the handle-relative subtraction.\<close>

definition upsert_tokens :: "tenant_id \<Rightarrow> string list \<Rightarrow> server_state \<Rightarrow> principal_token list \<times> server_state" where
  "upsert_tokens t ps st =
     (let (ms, rows) = upsert_principal_tokens t ps (rd_principals (sv_rev st))
      in (map snd ms, st\<lparr>sv_rev := (sv_rev st)\<lparr>rd_principals := rows\<rparr>\<rparr>))"

definition subtract_st ::
  "instant \<Rightarrow> tenant_id \<Rightarrow> principal_token list \<Rightarrow> instant \<Rightarrow> server_state \<Rightarrow> principal_token list \<times> server_state" where
  "subtract_st now t tokens issued_at st =
     (let (kept, pl) = subtract now t tokens issued_at (sv_rev st) (sv_plane st)
      in (kept, st\<lparr>sv_plane := pl\<rparr>))"

definition live_resolved_tokens ::
  "rebac \<Rightarrow> instant \<Rightarrow> scope_payload \<Rightarrow> string \<Rightarrow> server_state \<Rightarrow> principal_token list handler_result" where
  "live_resolved_tokens rebac now p subject st =
     (case parse_principal subject of
        Some (UserPrincipal, name) \<Rightarrow>
          (case rebac (sp_tenant_id p) name of
             Inl e \<Rightarrow> (Inl (RebacFailed e), st)
           | Inr groups \<Rightarrow>
               let (tokens, st1) = upsert_tokens (sp_tenant_id p) (subject # groups) st;
                   (kept, st2) = subtract_st now (sp_tenant_id p) tokens (sp_issued_at p) st1
               in (Inr kept, st2))
      | _ \<Rightarrow> (Inl SubjectNotUser, st))"

definition fence_stale_scope ::
  "server_env \<Rightarrow> instant \<Rightarrow> nat \<Rightarrow> scope_payload \<Rightarrow> scope \<Rightarrow> server_state \<Rightarrow> scope handler_result" where
  "fence_stale_scope env now uptime p sc st =
     (if \<not> is_stale uptime (en_watch_staleness_fence_secs env) (sv_watch st) then (Inr sc, st)
      else let st1 = st\<lparr>sv_fences := sv_fences st + 1\<rparr>
           in case (en_rebac env, sp_subject p) of
                (Some rebac, Some subject) \<Rightarrow>
                  bind_h (live_resolved_tokens rebac now p subject st1)
                    (\<lambda>fresh st2. (Inr (sc\<lparr>sc_principals := fresh\<rparr>), st2))
              | _ \<Rightarrow> (Inr (sc\<lparr>sc_principals := []\<rparr>), st1))"

text \<open>Without a permissions engine no tier-3 row is served, unless configured otherwise.\<close>

definition no_rebac_ceiling :: "server_env \<Rightarrow> confidentiality \<Rightarrow> confidentiality" where
  "no_rebac_ceiling env c =
     (if en_rebac env = None \<and> \<not> en_allow_restricted_without_rebac env then min c Confidential else c)"

definition scope_for ::
  "server_env \<Rightarrow> instant \<Rightarrow> nat \<Rightarrow> scope_payload \<Rightarrow> server_state \<Rightarrow> scope handler_result" where
  "scope_for env now uptime p st =
     (let sc = to_scope p;
          sc1 = sc\<lparr>sc_max_confidentiality := no_rebac_ceiling env (sc_max_confidentiality sc)\<rparr>;
          (kept, st1) = subtract_st now (sc_tenant_id sc1) (sc_principals sc1) (sp_issued_at p) st
      in fence_stale_scope env now uptime p (sc1\<lparr>sc_principals := kept\<rparr>) st1)"

definition resolve_entities :: "scope_payload \<Rightarrow> string list \<Rightarrow> refusal + string list" where
  "resolve_entities p requested =
     (if sp_entity_scope p = [] then Inr requested
      else if requested = [] then Inr (sp_entity_scope p)
      else if list_all (\<lambda>e. e \<in> set (sp_entity_scope p)) requested then Inr requested
      else Inl EntitiesOutsideScope)"

section \<open>Minting\<close>

record open_scope_request =
  os_tenant_id :: tenant_id
  os_principals :: "principal_token list"
  os_subject :: "string option"
  os_entity_scope :: "string list"
  os_max_confidentiality :: confidentiality
  os_actor_sub :: "string option"
  os_actor_azp :: "string option"
  os_ttl_seconds :: int
  os_purpose :: "string option"

definition ensure_tenant :: "tenant_id \<Rightarrow> database \<Rightarrow> storage_error + unit" where
  "ensure_tenant t db = (if t \<in> set (db_tenants db) then Inr () else Inl (UnknownTenant t))"

text \<open>The purpose clamp: the effective ceiling, or the refusal.\<close>

definition purpose_ceiling :: "purpose_pack \<Rightarrow> open_scope_request \<Rightarrow> refusal + confidentiality" where
  "purpose_ceiling pack req =
     (case os_purpose req of
        None \<Rightarrow> Inr (os_max_confidentiality req)
      | Some purpose \<Rightarrow>
          (case purpose_get pack purpose of
             None \<Rightarrow> Inl (PurposeUnknown purpose)
           | Some rule \<Rightarrow>
               if pu_require_entity_scope rule \<and> os_entity_scope req = []
               then Inl (PurposeNeedsEntities purpose)
               else Inr (min (os_max_confidentiality req) (pu_max_confidentiality rule))))"

text \<open>The groups of a subject: a membership cycle degrades to none, any other error refuses.\<close>

definition subject_groups :: "rebac \<Rightarrow> tenant_id \<Rightarrow> string \<Rightarrow> refusal + string list" where
  "subject_groups rebac t name =
     (case rebac t name of
        Inr groups \<Rightarrow> Inr groups
      | Inl e \<Rightarrow> if is_max_depth e then Inr [] else Inl (IdentityFailed e))"

definition resolve_subject ::
  "rebac \<Rightarrow> instant \<Rightarrow> tenant_id \<Rightarrow> string \<Rightarrow> string \<Rightarrow> server_state \<Rightarrow> principal_token list handler_result" where
  "resolve_subject rebac now t subject name st =
     (case subject_groups rebac t name of
        Inl e \<Rightarrow> (Inl e, st)
      | Inr groups \<Rightarrow>
          let (self, st1) = upsert_tokens t [subject] st;
              (revoked, pl) = revoked_set now t (sv_rev st1) (sv_plane st1);
              st2 = st1\<lparr>sv_plane := pl\<rparr>;
              subject_revoked = hd self \<in> set revoked;
              (tokens, st3) = upsert_tokens t ((if subject_revoked then [] else [subject]) @ groups) st2;
              (kept, pl') = subtract_window now t tokens (sv_rev st3) (sv_plane st3)
          in (Inr kept, st3\<lparr>sv_plane := pl'\<rparr>))"

definition mint_principals ::
  "server_env \<Rightarrow> instant \<Rightarrow> open_scope_request \<Rightarrow> server_state \<Rightarrow> principal_token list handler_result" where
  "mint_principals env now req st =
     (case (en_rebac env, os_subject req) of
        (Some rebac, Some subject) \<Rightarrow>
          if os_principals req \<noteq> [] then (Inl SubjectAndPrincipals, st)
          else (case parse_principal subject of
                  Some (UserPrincipal, name) \<Rightarrow> resolve_subject rebac now (os_tenant_id req) subject name st
                | _ \<Rightarrow> (Inl SubjectNotUser, st))
      | (None, Some _) \<Rightarrow> (Inl SubjectNeedsRebac, st)
      | (_, None) \<Rightarrow> (Inr (os_principals req), st))"

definition open_scope ::
  "server_env \<Rightarrow> instant \<Rightarrow> open_scope_request \<Rightarrow> server_state \<Rightarrow> (string \<times> instant) handler_result" where
  "open_scope env now req st =
     (case ensure_tenant (os_tenant_id req) (sv_db st) of
        Inl _ \<Rightarrow> (Inl TenantUnknown, st)
      | Inr _ \<Rightarrow>
          (case purpose_ceiling (en_purposes env) req of
             Inl e \<Rightarrow> (Inl e, st)
           | Inr max_conf \<Rightarrow>
               bind_h (mint_principals env now req st)
                 (\<lambda>principals st1.
                    let m = en_minter env
                    in (Inr (mint (mi_mac m) (mi_enc m) (mi_ser m) (mi_key m) now
                          \<lparr>sp_tenant_id = os_tenant_id req, sp_principals = principals,
                           sp_entity_scope = os_entity_scope req,
                           sp_max_confidentiality = no_rebac_ceiling env max_conf,
                           sp_actor_sub = os_actor_sub req, sp_actor_azp = os_actor_azp req,
                           sp_subject = os_subject req, sp_issued_at = now, sp_expires_at = now\<rparr>
                          (os_ttl_seconds req)), st1))))"

section \<open>Lemmas\<close>

lemma bind_h_Inr:
  "bind_h x f = (Inr b, st') \<longleftrightarrow> (\<exists>a st. x = (Inr a, st) \<and> f a st = (Inr b, st'))"
  by (cases x; cases "fst x") auto

lemma no_rebac_ceiling_le: "no_rebac_ceiling env c \<le> c"
  by (simp add: no_rebac_ceiling_def)

text \<open>What a read of the tenant sees of the revocation plane.\<close>

definition allowed :: "instant \<Rightarrow> scope_payload \<Rightarrow> server_state \<Rightarrow> principal_token \<Rightarrow> bool" where
  "allowed now p st = keeps_token (seen_revoked now (sp_tenant_id p) (sv_rev st) (sv_plane st))
     (seen_tombstones now (sp_tenant_id p) (sv_rev st) (sv_plane st)) (sp_issued_at p)"

lemma subtract_st_eq:
  assumes "subtract_st now (sp_tenant_id p) tokens (sp_issued_at p) st = (kept, st')"
  shows "kept = filter (allowed now p st) tokens" "allowed now p st' = allowed now p st"
    "sv_watch st' = sv_watch st" "sv_rev st' = sv_rev st" "sv_db st' = sv_db st" "sv_audit st' = sv_audit st"
proof -
  obtain pl where sub: "subtract now (sp_tenant_id p) tokens (sp_issued_at p) (sv_rev st) (sv_plane st) = (kept, pl)"
    and st': "st' = st\<lparr>sv_plane := pl\<rparr>"
    using assms by (auto simp: subtract_st_def split: prod.splits)
  show "kept = filter (allowed now p st) tokens"
    using subtract_filter [of now "sp_tenant_id p" tokens "sp_issued_at p" "sv_rev st" "sv_plane st"] sub
    by (simp add: allowed_def)
  show "allowed now p st' = allowed now p st" by (simp add: allowed_def st' subtract_again [OF sub])
  show "sv_watch st' = sv_watch st" "sv_rev st' = sv_rev st" "sv_db st' = sv_db st" "sv_audit st' = sv_audit st"
    by (simp_all add: st')
qed

lemma upsert_tokens_eq:
  assumes "upsert_tokens t ps st = (tokens, st')"
  shows "allowed now p st' = allowed now p st" "sv_db st' = sv_db st" "sv_audit st' = sv_audit st"
    and "principals_ok (rd_principals (sv_rev st)) \<Longrightarrow> tok \<in> set tokens \<Longrightarrow>
      \<exists>q \<in> set ps. \<lparr>pr_tenant_id = t, pr_principal = q, pr_token = tok\<rparr> \<in> set (rd_principals (sv_rev st'))"
proof -
  obtain ms rows where up: "upsert_principal_tokens t ps (rd_principals (sv_rev st)) = (ms, rows)"
    and eq: "tokens = map snd ms" "st' = st\<lparr>sv_rev := (sv_rev st)\<lparr>rd_principals := rows\<rparr>\<rparr>"
    using assms by (auto simp: upsert_tokens_def split: prod.splits)
  show "allowed now p st' = allowed now p st" "sv_db st' = sv_db st" "sv_audit st' = sv_audit st"
    by (simp_all add: allowed_def eq)
  assume ok: "principals_ok (rd_principals (sv_rev st))" and tok: "tok \<in> set tokens"
  note num = upsert_principal_tokens_ok [OF ok up]
  from tok obtain q where q: "(q, tok) \<in> set ms" by (auto simp: eq)
  then have "q \<in> fst ` set ms" by force
  with num have "q \<in> set ps" by (metis set_map)
  with q num show "\<exists>q \<in> set ps. \<lparr>pr_tenant_id = t, pr_principal = q, pr_token = tok\<rparr> \<in> set (rd_principals (sv_rev st'))"
    by (auto simp: eq)
qed

text \<open>The fence's live resolution yields tokens of the subject and its current groups, none revoked.\<close>

lemma live_resolved_tokens_Inr:
  assumes "live_resolved_tokens rebac now p subject st = (Inr kept, st')"
  shows "\<forall>tok \<in> set kept. allowed now p st tok"
    and "sv_db st' = sv_db st" "sv_audit st' = sv_audit st"
    and "principals_ok (rd_principals (sv_rev st)) \<Longrightarrow> tok \<in> set kept \<Longrightarrow>
      \<exists>name groups. parse_principal subject = Some (UserPrincipal, name) \<and>
        rebac (sp_tenant_id p) name = Inr groups \<and>
        (\<exists>q \<in> set (subject # groups). \<lparr>pr_tenant_id = sp_tenant_id p, pr_principal = q, pr_token = tok\<rparr>
            \<in> set (rd_principals (sv_rev st')))"
proof -
  from assms obtain name where name: "parse_principal subject = Some (UserPrincipal, name)"
    by (auto simp: live_resolved_tokens_def split: option.splits principal_kind.splits)
  with assms obtain groups where groups: "rebac (sp_tenant_id p) name = Inr groups"
    by (auto simp: live_resolved_tokens_def split: sum.splits)
  obtain tokens st1 where up: "upsert_tokens (sp_tenant_id p) (subject # groups) st = (tokens, st1)"
    by fastforce
  with assms name groups have sub: "subtract_st now (sp_tenant_id p) tokens (sp_issued_at p) st1 = (kept, st')"
    by (auto simp: live_resolved_tokens_def split: prod.splits)
  note s = subtract_st_eq [OF sub] and u = upsert_tokens_eq [OF up]
  show "\<forall>tok \<in> set kept. allowed now p st tok" using s(1) u(1) by simp
  show "sv_db st' = sv_db st" "sv_audit st' = sv_audit st" using s u by simp_all
  assume "principals_ok (rd_principals (sv_rev st))" "tok \<in> set kept"
  with s(1,4) u(4) [of tok] name groups
  show "\<exists>name groups. parse_principal subject = Some (UserPrincipal, name) \<and>
        rebac (sp_tenant_id p) name = Inr groups \<and>
        (\<exists>q \<in> set (subject # groups). \<lparr>pr_tenant_id = sp_tenant_id p, pr_principal = q, pr_token = tok\<rparr>
            \<in> set (rd_principals (sv_rev st')))"
    by simp
qed

lemma scope_for_cases:
  assumes "scope_for env now uptime p st = (Inr sc, st')"
  obtains st1 ps where
    "sc = (to_scope p)\<lparr>sc_max_confidentiality := no_rebac_ceiling env (sp_max_confidentiality p), sc_principals := ps\<rparr>"
    "allowed now p st1 = allowed now p st" "sv_rev st1 = sv_rev st" "sv_db st1 = sv_db st" "sv_audit st1 = sv_audit st"
    "if \<not> is_stale uptime (en_watch_staleness_fence_secs env) (sv_watch st)
     then ps = filter (allowed now p st) (sp_principals p) \<and> st' = st1
     else case (en_rebac env, sp_subject p) of
       (Some rebac, Some subject) \<Rightarrow> live_resolved_tokens rebac now p subject st1 = (Inr ps, st')
     | _ \<Rightarrow> ps = [] \<and> st' = st1"
proof -
  obtain kept st0 where sub: "subtract_st now (sp_tenant_id p) (sp_principals p) (sp_issued_at p) st = (kept, st0)"
    by fastforce
  note s = subtract_st_eq [OF sub]
  let ?sc = "\<lambda>ps. (to_scope p)\<lparr>sc_max_confidentiality := no_rebac_ceiling env (sp_max_confidentiality p), sc_principals := ps\<rparr>"
  let ?stale = "is_stale uptime (en_watch_staleness_fence_secs env) (sv_watch st)"
  from assms sub have f: "fence_stale_scope env now uptime p (?sc kept) st0 = (Inr sc, st')"
    by (simp add: scope_for_def to_scope_def split: prod.splits)
  show thesis
  proof (cases ?stale)
    case False
    with f s(3) have "sc = ?sc kept" "st' = st0" by (simp_all add: fence_stale_scope_def)
    then show thesis
      by (rule_tac that [of kept st0]) (use False s in \<open>simp_all only: if_True not_False_eq_True simp_thms\<close>)
  next
    case True
    define st1 where "st1 = st0\<lparr>sv_fences := sv_fences st0 + 1\<rparr>"
    have st1: "allowed now p st1 = allowed now p st" "sv_rev st1 = sv_rev st" "sv_db st1 = sv_db st"
      "sv_audit st1 = sv_audit st"
      using s by (simp_all add: st1_def allowed_def)
    show thesis
    proof (cases "en_rebac env = None \<or> sp_subject p = None")
      case none: True
      with f True s(3) have "sc = ?sc []" "st' = st1"
        by (auto simp: fence_stale_scope_def st1_def Let_def split: option.splits)
      then show thesis
        by (rule_tac that [of "[]" st1]) (use True st1 none in \<open>auto split: option.splits\<close>)
    next
      case False
      then obtain rebac subject where some: "en_rebac env = Some rebac" "sp_subject p = Some subject" by auto
      with f True s(3) obtain fresh where "live_resolved_tokens rebac now p subject st1 = (Inr fresh, st')" "sc = ?sc fresh"
        by (auto simp: fence_stale_scope_def st1_def Let_def bind_h_Inr)
      then show thesis
        by (rule_tac that [of fresh st1]) (use True st1 some in simp_all)
    qed
  qed
qed

lemma scope_for_allowed:
  assumes "scope_for env now uptime p st = (Inr sc, st')"
  shows "list_all (allowed now p st) (sc_principals sc)" "sv_db st' = sv_db st" "sv_audit st' = sv_audit st"
proof -
  from assms have "list_all (allowed now p st) (sc_principals sc) \<and> sv_db st' = sv_db st \<and> sv_audit st' = sv_audit st"
  proof (rule scope_for_cases)
    fix st1 ps
    assume sc: "sc = (to_scope p)\<lparr>sc_max_confidentiality := no_rebac_ceiling env (sp_max_confidentiality p), sc_principals := ps\<rparr>"
      and st1: "allowed now p st1 = allowed now p st" "sv_db st1 = sv_db st" "sv_audit st1 = sv_audit st"
      and ps: "if \<not> is_stale uptime (en_watch_staleness_fence_secs env) (sv_watch st)
       then ps = filter (allowed now p st) (sp_principals p) \<and> st' = st1
       else case (en_rebac env, sp_subject p) of
         (Some rebac, Some subject) \<Rightarrow> live_resolved_tokens rebac now p subject st1 = (Inr ps, st')
       | _ \<Rightarrow> ps = [] \<and> st' = st1"
    show ?thesis
    proof (cases "\<exists>rebac subject. live_resolved_tokens rebac now p subject st1 = (Inr ps, st')")
      case True
      then obtain rebac subject where "live_resolved_tokens rebac now p subject st1 = (Inr ps, st')" by blast
      from live_resolved_tokens_Inr [OF this] st1 sc show ?thesis by (simp add: list_all_iff)
    next
      case False
      with ps have "list_all (allowed now p st) ps \<and> st' = st1"
        by (auto simp: list_all_iff split: if_splits option.splits)
      with st1 sc show ?thesis by simp
    qed
  qed
  then show "list_all (allowed now p st) (sc_principals sc)" "sv_db st' = sv_db st" "sv_audit st' = sv_audit st"
    by simp_all
qed

lemma resolve_subject_Inr:
  assumes "resolve_subject rebac now t subject name st = (Inr kept, st')"
  obtains groups where "subject_groups rebac t name = Inr groups"
    "\<forall>tok \<in> set kept. tok \<notin> set (seen_revoked now t (sv_rev st) (sv_plane st))"
    "principals_ok (rd_principals (sv_rev st)) \<Longrightarrow> \<forall>tok \<in> set kept. \<exists>q \<in> set (subject # groups).
       \<lparr>pr_tenant_id = t, pr_principal = q, pr_token = tok\<rparr> \<in> set (rd_principals (sv_rev st'))"
proof -
  from assms obtain groups where groups: "subject_groups rebac t name = Inr groups"
    by (auto simp: resolve_subject_def split: sum.splits)
  obtain self rows1 where up1: "upsert_principal_tokens t [subject] (rd_principals (sv_rev st)) = (self, rows1)" by fastforce
  define rev1 where "rev1 = (sv_rev st)\<lparr>rd_principals := rows1\<rparr>"
  obtain revoked pl where rs: "revoked_set now t rev1 (sv_plane st) = (revoked, pl)" by fastforce
  define who where "who = (if hd (map snd self) \<in> set revoked then [] else [subject]) @ groups"
  obtain ms rows2 where up2: "upsert_principal_tokens t who rows1 = (ms, rows2)" by fastforce
  define rev2 where "rev2 = rev1\<lparr>rd_principals := rows2\<rparr>"
  obtain kept' pl' where sub: "subtract now t (map snd ms) (now - seconds (pl_window_secs pl)) rev2 pl = (kept', pl')"
    by fastforce
  have eq: "kept' = kept" "rd_principals (sv_rev st') = rows2"
    using assms groups up1 rs up2 sub
    by (auto simp: resolve_subject_def upsert_tokens_def Let_def subtract_window_def rev1_def rev2_def who_def)
  have "seen_revoked now t rev2 pl = seen_revoked now t (sv_rev st) (sv_plane st)"
    using revoked_set_again(2) [of now t rev2 rev1 "sv_plane st"] rs by (simp add: rev1_def)
  moreover have "kept = filter (keeps_token (seen_revoked now t rev2 pl) (seen_tombstones now t rev2 pl)
      (now - seconds (pl_window_secs pl))) (map snd ms)"
    using subtract_filter [of now t "map snd ms" "now - seconds (pl_window_secs pl)" rev2 pl] sub eq by simp
  ultimately have rev: "\<forall>tok \<in> set kept. tok \<notin> set (seen_revoked now t (sv_rev st) (sv_plane st))"
    and sub: "set kept \<subseteq> snd ` set ms" by (auto simp: keeps_token_def)
  have "\<forall>tok \<in> set kept. \<exists>q \<in> set (subject # groups).
       \<lparr>pr_tenant_id = t, pr_principal = q, pr_token = tok\<rparr> \<in> set (rd_principals (sv_rev st'))"
    if ok: "principals_ok (rd_principals (sv_rev st))"
  proof
    fix tok assume "tok \<in> set kept"
    with sub obtain q where q: "(q, tok) \<in> set ms" by auto
    from upsert_principal_tokens_ok [OF ok up1] have "principals_ok rows1" by simp
    note num = upsert_principal_tokens_ok [OF this up2]
    from q have "q \<in> fst ` set ms" by force
    with num have "q \<in> set who" by (metis set_map)
    then have "q \<in> set (subject # groups)" by (auto simp: who_def split: if_splits)
    with q num eq show "\<exists>q \<in> set (subject # groups).
       \<lparr>pr_tenant_id = t, pr_principal = q, pr_token = tok\<rparr> \<in> set (rd_principals (sv_rev st'))" by auto
  qed
  with groups rev that show thesis by blast
qed

section \<open>Sample server\<close>

text \<open>A transparent codec, one tenant, the default purposes; SpiceDB knows one group of one user.\<close>

definition sample_minter :: minter where
  "sample_minter = \<lparr>mi_key = ''k'', mi_mac = (\<lambda>k m. k @ m), mi_enc = escape_id, mi_dec = unescape_bytes,
     mi_ser = (\<lambda>p. ''{}''), mi_de = (\<lambda>s. Some sample_payload)\<rparr>"

definition sample_rebac :: rebac where
  "sample_rebac t name =
     (if name = ''a'' then Inr [''group:g''] else if name = ''loop'' then Inl (Api 400 ''MAXIMUM_DEPTH_EXCEEDED'')
      else Inl (Transport ''down''))"

definition sample_env :: server_env where
  "sample_env = \<lparr>en_minter = sample_minter, en_rebac = Some sample_rebac,
     en_allow_restricted_without_rebac = False, en_watch_staleness_fence_secs = 30,
     en_purposes = [(''support'', \<lparr>pu_max_confidentiality = Internal, pu_require_entity_scope = True\<rparr>)],
     en_remember_require_lineage = False, en_encode = (\<lambda>_. None), en_uuid_str = nat_to_string,
     en_md5ish = (\<lambda>_. ''0'')\<rparr>"

definition sample_state :: server_state where
  "sample_state = \<lparr>sv_db = sample_chunks_db, sv_rev = sample_rev_db, sv_plane = new_plane 300,
     sv_watch = new_watch, sv_fences = 0, sv_audit = [], sv_freshness = []\<rparr>"

section \<open>Properties\<close>



text \<open>The witness compiles the fenced branch: the subject's own token and its live group's.\<close>

definition stale_state :: server_state where
  "stale_state = sample_state\<lparr>sv_watch := new_watch\<lparr>ws_enabled := True\<rparr>\<rparr>"

definition subject_payload :: scope_payload where
  "subject_payload = sample_payload\<lparr>sp_principals := [1], sp_subject := Some ''user:a''\<rparr>"


text \<open>
  The fence can widen: a handle minted when its subject had no groups carries the subject's own
  token only; read while the watch is down, after the subject joined a group, it compiles to a scope
  that also holds the group's token, which the signed payload never named.
\<close>

theorem fence_widens_beyond_handle:
  "\<exists>sc st'. scope_for sample_env 0 0 subject_payload stale_state = (Inr sc, st') \<and>
     sp_principals subject_payload = [1] \<and> sc_principals sc = [1, 2]"
proof -
  let ?r = "scope_for sample_env 0 0 subject_payload stale_state"
  have ok: "case ?r of (Inr sc, _) \<Rightarrow> sc_principals sc = [1, 2] | _ \<Rightarrow> False" by code_simp
  then obtain sc st' where "?r = (Inr sc, st')" by (cases ?r; cases "fst ?r") auto
  with ok show ?thesis by (simp add: subject_payload_def sample_payload_def)
qed

text \<open>
  A recorded removal reaches every read: once the loss of a group token is recorded, no scope
  compiled from a handle minted before it, on the normal or the fenced path, holds the token for as
  long as the handle can live, provided the token has no tombstone older than the handle.
\<close>

theorem revocation_reaches_every_scope:
  assumes rec: "record_revocations now (sp_tenant_id p) affected lost (sv_rev st, sv_plane st) = (n, (rev', pl'))"
    and lost: "(g, token) \<in> set lost" "affected \<noteq> []"
    and handle: "sp_issued_at p \<le> now" "now' \<le> sp_issued_at p + seconds max_ttl_seconds"
    and first: "\<And>r. r \<in> set (rd_revocations (sv_rev st)) \<Longrightarrow> rv_tenant_id r = sp_tenant_id p \<Longrightarrow>
      rv_token r = token \<Longrightarrow> sp_issued_at p \<le> rv_at r"
    and read: "scope_for env now' uptime p (st\<lparr>sv_rev := rev', sv_plane := pl'\<rparr>) = (Inr sc, st')"
  shows "token \<notin> set (sc_principals sc)"
proof -
  have "\<not> keeps_token (seen_revoked now' (sp_tenant_id p) rev' pl') (seen_tombstones now' (sp_tenant_id p) rev' pl')
      (sp_issued_at p) token"
    by (rule record_revocations_seen [OF rec lost handle]) (rule first)
  with scope_for_allowed(1) [OF read] show ?thesis by (auto simp: list_all_iff allowed_def)
qed

theorem revocation_reaches_every_scope_witness:
  "case record_revocations 100 1 [''user:a''] [(''group:g'', 5)] (sv_rev sample_state, sv_plane sample_state) of
     (n, (rev', pl')) \<Rightarrow>
       (case scope_for sample_env 200 0 sample_payload (sample_state\<lparr>sv_rev := rev', sv_plane := pl'\<rparr>) of
          (Inr sc, _) \<Rightarrow> 5 \<notin> set (sc_principals sc) | _ \<Rightarrow> False)"
proof -
  obtain n rev' pl' where rec: "record_revocations 100 (sp_tenant_id sample_payload) [''user:a''] [(''group:g'', 5)]
      (sv_rev sample_state, sv_plane sample_state) = (n, (rev', pl'))" by (metis prod_cases3)
  let ?r = "scope_for sample_env 200 0 sample_payload (sample_state\<lparr>sv_rev := rev', sv_plane := pl'\<rparr>)"
  have "case record_revocations 100 1 [''user:a''] [(''group:g'', 5)] (sv_rev sample_state, sv_plane sample_state) of
     (n, (rev', pl')) \<Rightarrow>
       (case scope_for sample_env 200 0 sample_payload (sample_state\<lparr>sv_rev := rev', sv_plane := pl'\<rparr>) of
          (Inr sc, _) \<Rightarrow> True | _ \<Rightarrow> False)" by code_simp
  with rec obtain sc st' where r: "?r = (Inr sc, st')"
    by (cases ?r; cases "fst ?r") (auto simp: sample_payload_def)
  have "5 \<notin> set (sc_principals sc)"
    by (rule revocation_reaches_every_scope [OF rec _ _ _ _ _ r])
      (simp_all add: sample_payload_def sample_state_def sample_rev_db_def seconds_def max_ttl_seconds_def)
  with rec r show ?thesis by (simp add: sample_payload_def)
qed

text \<open>
  A deprovisioned principal is out for good: after \<open>revoke_principal\<close> no compiled scope of the tenant
  holds the token, at any later time, for any handle, on either path.
\<close>

theorem deprovisioned_never_in_scope:
  assumes "revoke_principal now (sp_tenant_id p) who token (sv_rev st, sv_plane st) = (rev', pl')"
    and "scope_for env now' uptime p (st\<lparr>sv_rev := rev', sv_plane := pl'\<rparr>) = (Inr sc, st')"
  shows "token \<notin> set (sc_principals sc)"
  using revoke_principal_seen [OF assms(1)] scope_for_allowed(1) [OF assms(2)]
  by (auto simp: list_all_iff allowed_def)

theorem deprovisioned_never_in_scope_witness:
  "case revoke_principal 100 1 ''user:a'' 5 (sv_rev sample_state, sv_plane sample_state) of
     (rev', pl') \<Rightarrow>
       (case scope_for sample_env 200 0 sample_payload (sample_state\<lparr>sv_rev := rev', sv_plane := pl'\<rparr>) of
          (Inr sc, _) \<Rightarrow> 5 \<notin> set (sc_principals sc) | _ \<Rightarrow> False)"
proof -
  obtain rev' pl' where rec: "revoke_principal 100 (sp_tenant_id sample_payload) ''user:a'' 5
      (sv_rev sample_state, sv_plane sample_state) = (rev', pl')" by fastforce
  let ?r = "scope_for sample_env 200 0 sample_payload (sample_state\<lparr>sv_rev := rev', sv_plane := pl'\<rparr>)"
  have "case revoke_principal 100 1 ''user:a'' 5 (sv_rev sample_state, sv_plane sample_state) of
     (rev', pl') \<Rightarrow>
       (case scope_for sample_env 200 0 sample_payload (sample_state\<lparr>sv_rev := rev', sv_plane := pl'\<rparr>) of
          (Inr sc, _) \<Rightarrow> True | _ \<Rightarrow> False)" by code_simp
  with rec obtain sc st' where r: "?r = (Inr sc, st')"
    by (cases ?r; cases "fst ?r") (auto simp: sample_payload_def)
  from deprovisioned_never_in_scope [OF rec r] rec r show ?thesis by (simp add: sample_payload_def)
qed

text \<open>
  C11: Minting never grants more than was asked for and than the purpose allows: the tenant exists, the
  ceiling is at most the request's, the purpose's, and Confidential without a permissions engine; a
  purpose that requires entities got some; a handle for a subject carries only tokens of the
  subject and of groups SpiceDB lists for it, none of a deprovisioned principal, and never
  self-asserted principals.
\<close>

theorem open_scope_mints_clamped:
  assumes "open_scope env now req st = (Inr h, st')"
  shows "\<exists>p. h = mint (mi_mac (en_minter env)) (mi_enc (en_minter env)) (mi_ser (en_minter env))
        (mi_key (en_minter env)) now p (os_ttl_seconds req) \<and>
    sp_tenant_id p = os_tenant_id req \<and> os_tenant_id req \<in> set (db_tenants (sv_db st)) \<and>
    sp_entity_scope p = os_entity_scope req \<and> sp_subject p = os_subject req \<and>
    sp_max_confidentiality p \<le> os_max_confidentiality req \<and>
    (en_rebac env = None \<and> \<not> en_allow_restricted_without_rebac env \<longrightarrow> sp_max_confidentiality p \<le> Confidential) \<and>
    (\<forall>purpose. os_purpose req = Some purpose \<longrightarrow> (\<exists>rule. purpose_get (en_purposes env) purpose = Some rule \<and>
       sp_max_confidentiality p \<le> pu_max_confidentiality rule \<and>
       (pu_require_entity_scope rule \<longrightarrow> sp_entity_scope p \<noteq> []))) \<and>
    (case os_subject req of
       None \<Rightarrow> sp_principals p = os_principals req
     | Some subject \<Rightarrow> os_principals req = [] \<and> (\<exists>rebac name groups.
         en_rebac env = Some rebac \<and> parse_principal subject = Some (UserPrincipal, name) \<and>
         subject_groups rebac (os_tenant_id req) name = Inr groups \<and>
         (\<forall>tok \<in> set (sp_principals p). tok \<notin> set (seen_revoked now (os_tenant_id req) (sv_rev st) (sv_plane st))) \<and>
         (principals_ok (rd_principals (sv_rev st)) \<longrightarrow> (\<forall>tok \<in> set (sp_principals p). \<exists>q \<in> set (subject # groups).
            \<lparr>pr_tenant_id = os_tenant_id req, pr_principal = q, pr_token = tok\<rparr> \<in> set (rd_principals (sv_rev st'))))))"
proof -
  let ?t = "os_tenant_id req"
  from assms obtain c where tenant: "?t \<in> set (db_tenants (sv_db st))" and c: "purpose_ceiling (en_purposes env) req = Inr c"
    by (auto simp: open_scope_def ensure_tenant_def split: sum.splits if_splits)
  with assms obtain ps st1 where ps: "mint_principals env now req st = (Inr ps, st1)"
    and st1: "st' = st1"
    and h: "h = mint (mi_mac (en_minter env)) (mi_enc (en_minter env)) (mi_ser (en_minter env))
        (mi_key (en_minter env)) now \<lparr>sp_tenant_id = ?t, sp_principals = ps,
           sp_entity_scope = os_entity_scope req, sp_max_confidentiality = no_rebac_ceiling env c,
           sp_actor_sub = os_actor_sub req, sp_actor_azp = os_actor_azp req,
           sp_subject = os_subject req, sp_issued_at = now, sp_expires_at = now\<rparr> (os_ttl_seconds req)"
      (is "_ = mint _ _ _ _ _ ?p _")
    by (auto simp: open_scope_def ensure_tenant_def bind_h_Inr Let_def)
  have le: "no_rebac_ceiling env c \<le> c" by (rule no_rebac_ceiling_le)
  have c_le: "c \<le> os_max_confidentiality req" and purpose: "\<forall>purpose. os_purpose req = Some purpose \<longrightarrow>
      (\<exists>rule. purpose_get (en_purposes env) purpose = Some rule \<and> c \<le> pu_max_confidentiality rule \<and>
        (pu_require_entity_scope rule \<longrightarrow> os_entity_scope req \<noteq> []))"
    using c by (auto simp: purpose_ceiling_def split: option.splits if_splits)
  have who: "case os_subject req of
       None \<Rightarrow> ps = os_principals req
     | Some subject \<Rightarrow> os_principals req = [] \<and> (\<exists>rebac name groups.
         en_rebac env = Some rebac \<and> parse_principal subject = Some (UserPrincipal, name) \<and>
         subject_groups rebac ?t name = Inr groups \<and>
         (\<forall>tok \<in> set ps. tok \<notin> set (seen_revoked now ?t (sv_rev st) (sv_plane st))) \<and>
         (principals_ok (rd_principals (sv_rev st)) \<longrightarrow> (\<forall>tok \<in> set ps. \<exists>q \<in> set (subject # groups).
            \<lparr>pr_tenant_id = ?t, pr_principal = q, pr_token = tok\<rparr> \<in> set (rd_principals (sv_rev st')))))"
  proof (cases "os_subject req")
    case None
    with ps show ?thesis by (cases "en_rebac env") (simp_all add: mint_principals_def)
  next
    case (Some subject)
    from ps Some obtain rebac name where rebac: "en_rebac env = Some rebac"
      and name: "parse_principal subject = Some (UserPrincipal, name)" "os_principals req = []"
      and res: "resolve_subject rebac now ?t subject name st = (Inr ps, st')"
      unfolding st1
      by (auto simp: mint_principals_def split: option.splits if_splits principal_kind.splits)
    from res show ?thesis by (rule resolve_subject_Inr) (use Some rebac name in auto)
  qed
  have conf: "en_rebac env = None \<and> \<not> en_allow_restricted_without_rebac env \<longrightarrow> no_rebac_ceiling env c \<le> Confidential"
    by (simp add: no_rebac_ceiling_def)
  have c_le': "no_rebac_ceiling env c \<le> os_max_confidentiality req" using le c_le by (rule order_trans)
  have purpose': "\<forall>purpose. os_purpose req = Some purpose \<longrightarrow>
      (\<exists>rule. purpose_get (en_purposes env) purpose = Some rule \<and>
        no_rebac_ceiling env c \<le> pu_max_confidentiality rule \<and>
        (pu_require_entity_scope rule \<longrightarrow> os_entity_scope req \<noteq> []))"
    using purpose le by (meson order_trans)
  show ?thesis
    by (rule exI [of _ ?p], simp only: scope_payload.select_convs, intro conjI)
      (fact h tenant refl c_le' conf purpose' who)+
qed

definition sample_request :: open_scope_request where
  "sample_request = \<lparr>os_tenant_id = 1, os_principals = [], os_subject = Some ''user:a'', os_entity_scope = [''acme''],
     os_max_confidentiality = Restricted, os_actor_sub = None, os_actor_azp = None, os_ttl_seconds = 300,
     os_purpose = Some ''support''\<rparr>"

theorem open_scope_mints_clamped_witness:
  "\<exists>h st' p. open_scope sample_env 0 sample_request sample_state = (Inr h, st') \<and>
     h = mint (\<lambda>k m. k @ m) escape_id (\<lambda>p. ''{}'') ''k'' 0 p 300 \<and> sp_max_confidentiality p \<le> Internal"
proof -
  let ?r = "open_scope sample_env 0 sample_request sample_state"
  have "case ?r of (Inr h, _) \<Rightarrow> True | _ \<Rightarrow> False" by code_simp
  then obtain h st' where r: "?r = (Inr h, st')" by (cases ?r; cases "fst ?r") auto
  from open_scope_mints_clamped [OF r] obtain p where
    "h = mint (mi_mac (en_minter sample_env)) (mi_enc (en_minter sample_env)) (mi_ser (en_minter sample_env))
        (mi_key (en_minter sample_env)) 0 p (os_ttl_seconds sample_request)"
    "\<forall>purpose. os_purpose sample_request = Some purpose \<longrightarrow> (\<exists>rule. purpose_get (en_purposes sample_env) purpose = Some rule \<and>
       sp_max_confidentiality p \<le> pu_max_confidentiality rule \<and> (pu_require_entity_scope rule \<longrightarrow> sp_entity_scope p \<noteq> []))"
    by blast
  with r show ?thesis
    by (auto simp: sample_env_def sample_minter_def sample_request_def purpose_get_def)
qed

end
