(* ===== verification/Embedding_Migration.thy ===== *)
theory Embedding_Migration
  imports Server_Scope
begin

text \<open>
  The second-embedding migration: the \<^verbatim>\<open>embedding_v2\<close> column, the model registry, the per-tenant
  query route with its in-memory cache (\<^verbatim>\<open>crates/verity-storage/src/postgres.rs\<close>) and the two
  admin routes that drive it, \<^verbatim>\<open>admin_reembed_batch\<close> and \<^verbatim>\<open>admin_reembed_cutover\<close>
  (\<^verbatim>\<open>crates/verity-server/src/main.rs\<close>). The new column is a map from chunk ids, so the rows of
  the chunk table keep their shape. The admin token has been checked before a route runs. The
  encoder is a parameter that may fail on a text; a failure ends the request before a vector is written.
\<close>

section \<open>State\<close>

record embedding_state =
  es_v2 :: "uuid \<rightharpoonup> rat list \<times> string"
  es_models :: "(string \<times> int) list"
  es_settings :: "(tenant_id option \<times> string) list"
  es_routes :: "tenant_id \<rightharpoonup> embedding_route"

definition empty_embeddings :: embedding_state where
  "empty_embeddings = \<lparr>es_v2 = Map.empty, es_models = [], es_settings = [], es_routes = Map.empty\<rparr>"

section \<open>Routes\<close>

text \<open>The \<^verbatim>\<open>settings\<close> rows of key \<^verbatim>\<open>embedding_route\<close>: the tenant's row wins over the global one.\<close>

definition stored_route :: "tenant_id \<Rightarrow> (tenant_id option \<times> string) list \<Rightarrow> string option" where
  "stored_route t rows = (case map_of rows (Some t) of None \<Rightarrow> map_of rows None | Some v \<Rightarrow> Some v)"

definition route_of :: "string option \<Rightarrow> embedding_route" where
  "route_of v = (case v of None \<Rightarrow> V1 | Some s \<Rightarrow> embedding_route_from_str_lossy s)"

definition embedding_route_for :: "tenant_id \<Rightarrow> embedding_state \<Rightarrow> embedding_route \<times> embedding_state" where
  "embedding_route_for t es =
     (case es_routes es t of
        Some route \<Rightarrow> (route, es)
      | None \<Rightarrow>
          let route = route_of (stored_route t (es_settings es))
          in (route, es\<lparr>es_routes := (es_routes es)(t \<mapsto> route)\<rparr>))"

definition set_embedding_route :: "tenant_id option \<Rightarrow> embedding_route \<Rightarrow> embedding_state \<Rightarrow> embedding_state" where
  "set_embedding_route tenant route es =
     es\<lparr>es_settings := (tenant, embedding_route_as_str route) # filter (\<lambda>r. fst r \<noteq> tenant) (es_settings es),
        es_routes := Map.empty\<rparr>"

section \<open>Backfill\<close>

definition register_embedding_model :: "string \<Rightarrow> int \<Rightarrow> embedding_state \<Rightarrow> embedding_state" where
  "register_embedding_model model width es =
     (if model \<in> fst ` set (es_models es) then es else es\<lparr>es_models := es_models es @ [(model, width)]\<rparr>)"

definition of_tenant :: "tenant_id option \<Rightarrow> chunk_row \<Rightarrow> bool" where
  "of_tenant tenant c \<longleftrightarrow> (case tenant of None \<Rightarrow> True | Some t \<Rightarrow> ch_tenant_id c = t)"

text \<open>The current chunks that have a first embedding.\<close>

definition embedded :: "tenant_id option \<Rightarrow> chunk_row \<Rightarrow> bool" where
  "embedded tenant c \<longleftrightarrow> of_tenant tenant c \<and> chunk_current c \<and> ch_embedding c \<noteq> None"

definition chunks_needing_v2 :: "tenant_id option \<Rightarrow> int \<Rightarrow> database \<Rightarrow> embedding_state \<Rightarrow> (uuid \<times> string) list" where
  "chunks_needing_v2 tenant limit db es =
     map (\<lambda>c. (ch_id c, ch_content c))
       (take (nat (min 10000 (max 1 limit)))
         (sort_key ch_id (filter (\<lambda>c. embedded tenant c \<and> es_v2 es (ch_id c) = None) (db_chunks db))))"

fun fill_embedding_v2 ::
  "string \<Rightarrow> (uuid \<times> rat list) list \<Rightarrow> database \<Rightarrow> embedding_state \<Rightarrow> nat \<times> embedding_state" where
  "fill_embedding_v2 model [] db es = (0, es)"
| "fill_embedding_v2 model ((i, v) # rows) db es =
     (if i \<in> ch_id ` set (db_chunks db) \<and> es_v2 es i = None
      then let (n, es') = fill_embedding_v2 model rows db (es\<lparr>es_v2 := (es_v2 es)(i \<mapsto> (v, model))\<rparr>) in (Suc n, es')
      else fill_embedding_v2 model rows db es)"

definition embedding_v2_coverage :: "tenant_id option \<Rightarrow> database \<Rightarrow> embedding_state \<Rightarrow> embedding_coverage" where
  "embedding_v2_coverage tenant db es =
     (let rows = filter (embedded tenant) (db_chunks db)
      in \<lparr>ec_total = int (length rows),
          ec_covered = int (length (filter (\<lambda>c. es_v2 es (ch_id c) \<noteq> None) rows))\<rparr>)"

section \<open>Admin routes\<close>

record reembed_batch_request =
  rb_tenant :: "tenant_id option"
  rb_model :: string
  rb_batch :: int

record reembed_batch_report =
  rr_scanned :: nat
  rr_written :: nat
  rr_coverage :: embedding_coverage
  rr_done :: bool

datatype reembed_refusal =
    SparseOnly
  | ReembedTenantUnknown storage_error
  | CoverageIncomplete embedding_coverage
  | EncodeFailed string

fun reembed_status :: "reembed_refusal \<Rightarrow> nat" where
  "reembed_status SparseOnly = 503"
| "reembed_status (ReembedTenantUnknown _) = 404"
| "reembed_status (CoverageIncomplete _) = 409"
| "reembed_status (EncodeFailed _) = 500"

definition encoder_dim :: int where
  "encoder_dim = 384"

definition ensure_opt_tenant :: "tenant_id option \<Rightarrow> database \<Rightarrow> reembed_refusal + unit" where
  "ensure_opt_tenant tenant db = (case tenant of None \<Rightarrow> Inr () | Some t \<Rightarrow>
     (case ensure_tenant t db of Inl e \<Rightarrow> Inl (ReembedTenantUnknown e) | Inr u \<Rightarrow> Inr u))"

type_synonym text_encoder = "string \<Rightarrow> string + rat list"

text \<open>The encoding loop: the first text the encoder refuses ends it, whatever was encoded before.\<close>

fun encode_pending :: "text_encoder \<Rightarrow> (uuid \<times> string) list \<Rightarrow> reembed_refusal + (uuid \<times> rat list) list" where
  "encode_pending encode [] = Inr []"
| "encode_pending encode ((i, content) # rows) =
     (case encode content of
        Inl e \<Rightarrow> Inl (EncodeFailed e)
      | Inr v \<Rightarrow> (case encode_pending encode rows of Inl e \<Rightarrow> Inl e | Inr filled \<Rightarrow> Inr ((i, v) # filled)))"

text \<open>\<open>encoder\<close> is absent on a sparse-only server.\<close>

definition admin_reembed_batch ::
  "text_encoder option \<Rightarrow> reembed_batch_request \<Rightarrow> database \<Rightarrow> embedding_state
   \<Rightarrow> (reembed_refusal + reembed_batch_report) \<times> embedding_state" where
  "admin_reembed_batch encoder req db es =
     (case encoder of
        None \<Rightarrow> (Inl SparseOnly, es)
      | Some encode \<Rightarrow>
          (case ensure_opt_tenant (rb_tenant req) db of
             Inl e \<Rightarrow> (Inl e, es)
           | Inr _ \<Rightarrow>
               let es1 = register_embedding_model (rb_model req) encoder_dim es;
                   pending = chunks_needing_v2 (rb_tenant req) (min 10000 (max 1 (rb_batch req))) db es1
               in (case encode_pending encode pending of
                     Inl e \<Rightarrow> (Inl e, es1)
                   | Inr filled \<Rightarrow>
                       let (written, es2) = fill_embedding_v2 (rb_model req) filled db es1
                       in (Inr \<lparr>rr_scanned = length pending, rr_written = written,
                                rr_coverage = embedding_v2_coverage (rb_tenant req) db es2,
                                rr_done = pending = []\<rparr>, es2))))"

record cutover_request =
  co_tenant :: "tenant_id option"
  co_route :: embedding_route
  co_force :: bool

definition admin_reembed_cutover ::
  "cutover_request \<Rightarrow> database \<Rightarrow> embedding_state \<Rightarrow> (reembed_refusal + embedding_coverage) \<times> embedding_state" where
  "admin_reembed_cutover req db es =
     (case ensure_opt_tenant (co_tenant req) db of
        Inl e \<Rightarrow> (Inl e, es)
      | Inr _ \<Rightarrow>
          let coverage = embedding_v2_coverage (co_tenant req) db es
          in if co_route req = V2 \<and> \<not> is_complete coverage \<and> \<not> co_force req
             then (Inl (CoverageIncomplete coverage), es)
             else (Inr coverage, set_embedding_route (co_tenant req) (co_route req) es))"

section \<open>Backfill lemmas\<close>

lemma fill_embedding_v2_keeps:
  "es_v2 es i \<noteq> None \<Longrightarrow> es_v2 (snd (fill_embedding_v2 model rows db es)) i = es_v2 es i"
  by (induction model rows db es rule: fill_embedding_v2.induct) (auto simp: case_prod_beta Let_def)

lemma fill_embedding_v2_fills:
  "i \<in> fst ` set rows \<Longrightarrow> i \<in> ch_id ` set (db_chunks db) \<Longrightarrow>
     es_v2 (snd (fill_embedding_v2 model rows db es)) i \<noteq> None"
proof (induction model rows db es rule: fill_embedding_v2.induct)
  case (2 model j v rows db es)
  show ?case
  proof (cases "i = j")
    case True
    then show ?thesis
      using 2(4) fill_embedding_v2_keeps [of "es\<lparr>es_v2 := (es_v2 es)(i \<mapsto> (v, model))\<rparr>" i model rows db]
        fill_embedding_v2_keeps [of es i model rows db]
      by (auto simp: case_prod_beta Let_def)
  next
    case False
    with 2 show ?thesis by (auto simp: case_prod_beta Let_def)
  qed
qed simp

lemma fill_embedding_v2_frame:
  "es_routes (snd (fill_embedding_v2 model rows db es)) = es_routes es"
  "es_settings (snd (fill_embedding_v2 model rows db es)) = es_settings es"
  by (induction model rows db es rule: fill_embedding_v2.induct) (auto simp: case_prod_beta Let_def)

abbreviation uncovered :: "tenant_id option \<Rightarrow> database \<Rightarrow> embedding_state \<Rightarrow> chunk_row list" where
  "uncovered tenant db es \<equiv> filter (\<lambda>c. embedded tenant c \<and> es_v2 es (ch_id c) = None) (db_chunks db)"

lemma is_complete_iff:
  "is_complete (embedding_v2_coverage tenant db es) \<longleftrightarrow> uncovered tenant db es = []"
proof -
  let ?rows = "filter (embedded tenant) (db_chunks db)"
  have "length (filter (\<lambda>c. es_v2 es (ch_id c) \<noteq> None) ?rows) + length (filter (\<lambda>c. \<not> es_v2 es (ch_id c) \<noteq> None) ?rows) = length ?rows"
    by (rule sum_length_filter_compl)
  moreover have "filter (\<lambda>c. \<not> es_v2 es (ch_id c) \<noteq> None) ?rows = uncovered tenant db es"
    unfolding filter_filter by (rule filter_cong) (simp_all del: not_None_eq)
  ultimately have "length (filter (\<lambda>c. es_v2 es (ch_id c) \<noteq> None) ?rows) + length (uncovered tenant db es) = length ?rows"
    by (simp only:)
  moreover have "is_complete (embedding_v2_coverage tenant db es) \<longleftrightarrow>
      int (length ?rows) = 0 \<or> int (length ?rows) \<le> int (length (filter (\<lambda>c. es_v2 es (ch_id c) \<noteq> None) ?rows))"
    by (simp only: is_complete_def embedding_v2_coverage_def Let_def embedding_coverage.select_convs)
  moreover have "uncovered tenant db es = [] \<longleftrightarrow> length (uncovered tenant db es) = 0" by (simp only: length_0_conv)
  ultimately show ?thesis by linarith
qed

lemma register_embedding_model_v2 [simp]: "es_v2 (register_embedding_model model width es) = es_v2 es"
  by (simp add: register_embedding_model_def)

definition batch_step ::
  "text_encoder \<Rightarrow> reembed_batch_request \<Rightarrow> database \<Rightarrow> embedding_state \<Rightarrow> embedding_state" where
  "batch_step encode req db es = snd (admin_reembed_batch (Some encode) req db es)"

lemma filter_strictly_shorter:
  assumes "\<And>x. x \<in> set xs \<Longrightarrow> Q x \<Longrightarrow> P x" "x \<in> set xs" "P x" "\<not> Q x"
  shows "length (filter Q xs) < length (filter P xs)"
proof -
  have "filter Q xs = filter Q (filter P xs)" using assms(1) by (auto intro: filter_cong)
  also have "length \<dots> < length (filter P xs)" using assms(2-4) by (intro length_filter_less [of x]) simp_all
  finally show ?thesis .
qed

lemma encode_pending_Inr:
  assumes "\<And>i content. (i, content) \<in> set rows \<Longrightarrow> \<exists>v. encode content = Inr v"
  obtains filled where "encode_pending encode rows = Inr filled" "map fst filled = map fst rows"
proof -
  have "\<exists>filled. encode_pending encode rows = Inr filled \<and> map fst filled = map fst rows"
    using assms
  proof (induction rows)
    case (Cons r rows)
    obtain i content where r: "r = (i, content)" by (rule prod.exhaust)
    from Cons.prems [of i content] r obtain v where "encode content = Inr v" by auto
    moreover from Cons obtain filled where "encode_pending encode rows = Inr filled" "map fst filled = map fst rows"
      by (metis list.set_intros(2))
    ultimately show ?case by (simp add: r)
  qed simp
  with that show ?thesis by blast
qed

text \<open>The texts that the tenant's backfill still has to encode, all of which the encoder accepts.\<close>

abbreviation encodable :: "text_encoder \<Rightarrow> tenant_id option \<Rightarrow> database \<Rightarrow> embedding_state \<Rightarrow> bool" where
  "encodable encode tenant db es \<equiv> list_all (\<lambda>c. \<not> isl (encode (ch_content c))) (uncovered tenant db es)"

lemma pending_encodable:
  assumes "encodable encode tenant db es" "(i, content) \<in> set (chunks_needing_v2 tenant limit db es)"
  shows "\<exists>v. encode content = Inr v"
proof -
  from assms(2) obtain c where "c \<in> set (sort_key ch_id (uncovered tenant db es))" "content = ch_content c"
    unfolding chunks_needing_v2_def by (auto dest: in_set_takeD)
  with assms(1) show ?thesis by (auto simp: list_all_iff isl_def) (metis sum.collapse(2) sum.exhaust)
qed

lemma chunks_needing_v2_registered [simp]:
  "chunks_needing_v2 tenant limit db (register_embedding_model model width es) = chunks_needing_v2 tenant limit db es"
  by (simp add: chunks_needing_v2_def)

text \<open>A batch keeps what is covered and covers at least one more chunk while one is missing.\<close>

lemma batch_step_keeps:
  assumes "es_v2 (batch_step encode req db es) i = None"
  shows "es_v2 es i = None"
proof (rule ccontr)
  assume "es_v2 es i \<noteq> None"
  then obtain x where x: "es_v2 es i = Some x" by blast
  then have "es_v2 (snd (fill_embedding_v2 model rows db (register_embedding_model m width es))) i = Some x" for model rows m width
    by (subst fill_embedding_v2_keeps) simp_all
  with assms x show False
    by (simp add: batch_step_def admin_reembed_batch_def Let_def case_prod_beta split: sum.splits)
qed

lemma batch_step_progress:
  assumes "ensure_opt_tenant (rb_tenant req) db = Inr ()" "uncovered (rb_tenant req) db es \<noteq> []"
    "encodable encode (rb_tenant req) db es"
  shows "length (uncovered (rb_tenant req) db (batch_step encode req db es)) < length (uncovered (rb_tenant req) db es)"
proof -
  let ?m = "rb_model req" and ?u = "uncovered (rb_tenant req) db es"
  define es1 where "es1 = register_embedding_model ?m encoder_dim es"
  define pending where "pending = chunks_needing_v2 (rb_tenant req) (min 10000 (max 1 (rb_batch req))) db es"
  obtain filled where filled: "encode_pending encode pending = Inr filled" "map fst filled = map fst pending"
    using encode_pending_Inr [of pending encode] pending_encodable [OF assms(3)] unfolding pending_def by metis
  have step: "batch_step encode req db es = snd (fill_embedding_v2 ?m filled db es1)"
    using assms(1) filled(1)
    by (simp add: batch_step_def admin_reembed_batch_def Let_def case_prod_beta es1_def pending_def)
  from assms(2) have "length (sort_key ch_id ?u) \<noteq> 0" by (simp only: length_sort length_0_conv not_False_eq_True)
  then obtain c cs where c: "sort_key ch_id ?u = c # cs" by (cases "sort_key ch_id ?u") simp_all
  then have mem: "c \<in> set ?u" by (metis list.set_intros(1) set_sort)
  have "nat (min 10000 (max 1 (min 10000 (max 1 (rb_batch req))))) \<noteq> 0" by simp
  then obtain n where "nat (min 10000 (max 1 (min 10000 (max 1 (rb_batch req))))) = Suc n" using not0_implies_Suc by blast
  with c have "ch_id c \<in> set (map fst pending)"
    by (simp add: pending_def chunks_needing_v2_def)
  then have "ch_id c \<in> fst ` set filled" unfolding filled(2) [symmetric] by simp
  then have covered: "es_v2 (batch_step encode req db es) (ch_id c) \<noteq> None"
    unfolding step using mem by (intro fill_embedding_v2_fills) auto
  show ?thesis
    using mem covered batch_step_keeps by (intro filter_strictly_shorter [of _ _ _ c]) auto
qed

lemma batch_step_done: "uncovered (rb_tenant req) db es = [] \<Longrightarrow> uncovered (rb_tenant req) db (batch_step encode req db es) = []"
  unfolding filter_empty_conv using batch_step_keeps by blast

lemma batch_step_encodable:
  "encodable encode (rb_tenant req) db es \<Longrightarrow> encodable encode (rb_tenant req) db (batch_step encode req db es)"
  using batch_step_keeps [of encode req db es] by (auto simp: list_all_iff)

lemma batches_encodable:
  "encodable encode (rb_tenant req) db es \<Longrightarrow> encodable encode (rb_tenant req) db ((batch_step encode req db ^^ n) es)"
  by (induction n) (use batch_step_encodable in auto)

lemma batches_complete:
  assumes "ensure_opt_tenant (rb_tenant req) db = Inr ()" "encodable encode (rb_tenant req) db es"
  shows "length (uncovered (rb_tenant req) db ((batch_step encode req db ^^ n) es)) \<le> length (uncovered (rb_tenant req) db es) - n"
proof (induction n)
  case (Suc n)
  let ?e = "(batch_step encode req db ^^ n) es"
  show ?case
  proof (cases "uncovered (rb_tenant req) db ?e = []")
    case True
    then show ?thesis by (simp only: funpow.simps comp_apply batch_step_done list.size)
  next
    case False
    from batch_step_progress [OF assms(1) False batches_encodable [OF assms(2)]] Suc show ?thesis
      unfolding funpow.simps comp_apply by linarith
  qed
qed simp

text \<open>
  One text the encoder refuses stops the backfill at its chunk: a batch that reaches the chunk answers
  500 and writes no vector, and as the order is by id every later batch reaches it again.
\<close>

lemma refused_text_stalls_backfill:
  assumes "ensure_opt_tenant (rb_tenant req) db = Inr ()"
    and "sort_key ch_id (uncovered (rb_tenant req) db es) = c # cs" "encode (ch_content c) = Inl e"
  shows "fst (admin_reembed_batch (Some encode) req db es) = Inl (EncodeFailed e)"
    "es_v2 ((batch_step encode req db ^^ n) es) = es_v2 es"
proof -
  have fail: "fst (admin_reembed_batch (Some encode) req db es2) = Inl (EncodeFailed e) \<and>
      es_v2 (batch_step encode req db es2) = es_v2 es2" if "es_v2 es2 = es_v2 es" for es2
  proof -
    have "sort_key ch_id (uncovered (rb_tenant req) db es2) = c # cs" using assms(2) that by simp
    moreover have "nat (min 10000 (max 1 (min 10000 (max 1 (rb_batch req))))) \<noteq> 0" by simp
    then obtain m where "nat (min 10000 (max 1 (min 10000 (max 1 (rb_batch req))))) = Suc m" using not0_implies_Suc by blast
    ultimately have "chunks_needing_v2 (rb_tenant req) (min 10000 (max 1 (rb_batch req))) db es2 =
        (ch_id c, ch_content c) # map (\<lambda>c. (ch_id c, ch_content c)) (take m cs)"
      by (simp add: chunks_needing_v2_def)
    then show ?thesis using assms(1,3) by (simp add: batch_step_def admin_reembed_batch_def)
  qed
  then show "fst (admin_reembed_batch (Some encode) req db es) = Inl (EncodeFailed e)" by simp
  show "es_v2 ((batch_step encode req db ^^ n) es) = es_v2 es" using fail by (induction n) auto
qed

section \<open>Sample\<close>

definition sample_reembed :: reembed_batch_request where
  "sample_reembed = \<lparr>rb_tenant = Some 1, rb_model = ''m'', rb_batch = 1\<rparr>"

definition embedded_chunk :: "uuid \<Rightarrow> chunk_row" where
  "embedded_chunk i = \<lparr>ch_id = i, ch_tenant_id = 1, ch_source = ''s'', ch_document_id = ''d'', ch_seq = int i,
     ch_content = ''text'', ch_content_hash = ''h'', ch_embedding = Some [1, 0], ch_visibility = [5],
     ch_entity_tags = [], ch_confidentiality = Public, ch_trust_tier = Observation, ch_valid_from = 0,
     ch_valid_to = None, ch_provenance = 50, ch_acl_provenance = Mirrored, ch_kind = ''content'',
     ch_categories = [], ch_support_tier = None, ch_derived_from = []\<rparr>"

definition embedded_db :: database where
  "embedded_db = sample_db\<lparr>db_chunks := [embedded_chunk 1, embedded_chunk 2]\<rparr>"

section \<open>Properties\<close>

text \<open>
  C27: The backfill finishes on texts the encoder accepts. Its scope is the tenant's current chunks
  that have a first embedding (of all tenants, when the request names none). If the encoder succeeds on
  the text of each of those that still lacks a second one, then repeating batches, of any size the
  request asks for, as often as there are such chunks covers every chunk in scope; the next batch then
  reports that it is done, and the cutover to the new route is accepted without force. Encoder
  failures are a branch of the route: the lemma before shows that a refused text stalls the backfill.
\<close>

theorem reembed_completes:
  assumes "ensure_opt_tenant (rb_tenant req) db = Inr ()"
    and "encodable encode (rb_tenant req) db es"
    and "es' = (batch_step encode req db ^^ length (uncovered (rb_tenant req) db es)) es"
  shows "is_complete (embedding_v2_coverage (rb_tenant req) db es') \<and>
    (\<exists>report es''. admin_reembed_batch (Some encode) req db es' = (Inr report, es'') \<and> rr_done report \<and> rr_written report = 0) \<and>
    (\<exists>cov. admin_reembed_cutover \<lparr>co_tenant = rb_tenant req, co_route = V2, co_force = False\<rparr> db es' =
       (Inr cov, set_embedding_route (rb_tenant req) V2 es'))"
proof -
  have u: "uncovered (rb_tenant req) db es' = []"
    using batches_complete [OF assms(1,2), where n = "length (uncovered (rb_tenant req) db es)"] by (simp add: assms(3))
  then have c: "is_complete (embedding_v2_coverage (rb_tenant req) db es')" by (simp only: is_complete_iff)
  from u have none: "chunks_needing_v2 (rb_tenant req) limit db (register_embedding_model (rb_model req) encoder_dim es') = []" for limit
    by (simp add: chunks_needing_v2_def)
  then have "encode_pending encode (chunks_needing_v2 (rb_tenant req) limit db (register_embedding_model (rb_model req) encoder_dim es')) = Inr []" for limit
    by (simp only: encode_pending.simps)
  with none c show ?thesis
    by (simp add: admin_reembed_batch_def admin_reembed_cutover_def assms(1) Let_def del: chunks_needing_v2_registered)
qed

theorem reembed_completes_witness:
  "is_complete (embedding_v2_coverage (Some 1) embedded_db
     ((batch_step (\<lambda>_. Inr [0, 1]) sample_reembed embedded_db ^^ 2) empty_embeddings)) \<and>
   \<not> is_complete (embedding_v2_coverage (Some 1) embedded_db empty_embeddings)"
proof
  have len: "length (uncovered (rb_tenant sample_reembed) embedded_db empty_embeddings) = 2" by code_simp
  have ok: "ensure_opt_tenant (rb_tenant sample_reembed) embedded_db = Inr ()" by code_simp
  have enc: "encodable (\<lambda>_. Inr [0, 1]) (rb_tenant sample_reembed) embedded_db empty_embeddings" by (simp add: list_all_iff)
  show "is_complete (embedding_v2_coverage (Some 1) embedded_db
     ((batch_step (\<lambda>_. Inr [0, 1]) sample_reembed embedded_db ^^ 2) empty_embeddings))"
    using reembed_completes [OF ok enc refl] unfolding len
    by (simp add: sample_reembed_def)
  show "\<not> is_complete (embedding_v2_coverage (Some 1) embedded_db empty_embeddings)" by code_simp
qed

text \<open>
  An unforced cutover to the new route leaves no current embedded chunk behind: each has a vector
  on the new route, so the dense leg ranks the same rows as before.
\<close>

lemma cutover_covers:
  assumes "admin_reembed_cutover req db es = (Inr cov, es')" "co_route req = V2" "\<not> co_force req"
  shows "\<forall>c \<in> set (db_chunks db). embedded (co_tenant req) c \<longrightarrow> es_v2 es' (ch_id c) \<noteq> None"
    and "\<And>t. co_tenant req = Some t \<Longrightarrow> fst (embedding_route_for t es') = V2"
proof -
  from assms have "is_complete (embedding_v2_coverage (co_tenant req) db es)"
    and es': "es' = set_embedding_route (co_tenant req) V2 es"
    by (auto simp: admin_reembed_cutover_def Let_def split: sum.splits if_splits)
  then show "\<forall>c \<in> set (db_chunks db). embedded (co_tenant req) c \<longrightarrow> es_v2 es' (ch_id c) \<noteq> None"
    by (auto simp: is_complete_iff filter_empty_conv set_embedding_route_def)
  show "fst (embedding_route_for t es') = V2" if "co_tenant req = Some t" for t
    using that by (simp add: es' embedding_route_for_def set_embedding_route_def stored_route_def route_of_def
        embedding_route_from_str_lossy_def Let_def)
qed

text \<open>
  The gate counts a vector of any model: a chunk filled under an abandoned model is neither
  re-embedded under the target model nor counted as missing, and the cutover goes through.
\<close>

lemma cutover_mixes_models:
  "case fill_embedding_v2 ''old'' [(1, [9, 9])] embedded_db empty_embeddings of (_, es) \<Rightarrow>
     (let es' = batch_step (\<lambda>_. Inr [0, 1]) (sample_reembed\<lparr>rb_batch := 100\<rparr>) embedded_db es
      in es_v2 es' 1 = Some ([9, 9], ''old'') \<and> es_v2 es' 2 = Some ([0, 1], ''m'') \<and>
         fst (admin_reembed_cutover \<lparr>co_tenant = Some 1, co_route = V2, co_force = False\<rparr> embedded_db es') =
           Inr \<lparr>ec_total = 2, ec_covered = 2\<rparr>)"
  by code_simp

text \<open>A cached route is never re-read: another process's cutover is not seen.\<close>

lemma cached_route_stays:
  assumes "es_routes es t = Some route"
  shows "embedding_route_for t (es\<lparr>es_settings := settings\<rparr>) = (route, es\<lparr>es_settings := settings\<rparr>)"
  using assms by (simp add: embedding_route_for_def)

end
