(* ===== verification/Action_Log.thy ===== *)
theory Action_Log
  imports Chunk_Delivery
begin

text \<open>
  The activity timeline and the materialized briefs of the Postgres adapter
  (\<^verbatim>\<open>crates/verity-storage/src/postgres.rs\<close>): idempotent action recording, the scoped timeline
  query with its SQL \<^verbatim>\<open>LIKE\<close> prefix filter, and the brief refresh with its derived visibility.
\<close>

section \<open>Recording actions\<close>

text \<open>
  The serialized action is the episode's payload; only its tag is carried here
  (\<open>payload_of\<close> is the serializer).
\<close>

definition action_episode :: "(action_write \<Rightarrow> json) \<Rightarrow> action_write \<Rightarrow> new_episode" where
  "action_episode payload_of a =
     \<lparr>ne_tenant_id = aw_tenant_id a, ne_source = ''agent'', ne_source_entity = Some (aw_action_id a),
      ne_kind = AgentAction, ne_payload = payload_of a,
      ne_content_hash = ''action-'' @ aw_action_id a, ne_trust_tier = Observation,
      ne_writer_sub = aw_actor_sub a, ne_writer_azp = aw_actor_azp a\<rparr>"

text \<open>\<^verbatim>\<open>insert_action_chunk\<close>: the summary as a Tier-2 chunk.\<close>

definition action_chunk :: "uuid \<Rightarrow> action_write \<Rightarrow> episode_id \<Rightarrow> chunk_row" where
  "action_chunk i a episode =
     \<lparr>ch_id = i, ch_tenant_id = aw_tenant_id a, ch_source = ''agent'',
      ch_document_id = ''action:'' @ aw_action_id a, ch_seq = 0,
      ch_content = aw_action_type a @ '': '' @ aw_summary a,
      ch_content_hash = ''action-'' @ aw_action_id a, ch_embedding = None,
      ch_visibility = aw_visibility a, ch_entity_tags = aw_entities a,
      ch_confidentiality = aw_confidentiality a, ch_trust_tier = Observation,
      ch_valid_from = aw_occurred_at a, ch_valid_to = None, ch_provenance = episode,
      ch_acl_provenance = AdminAssigned, ch_kind = ''content'', ch_categories = [],
      ch_support_tier = None, ch_derived_from = []\<rparr>"

definition record_action ::
  "(action_write \<Rightarrow> json) \<Rightarrow> instant \<Rightarrow> (nat \<Rightarrow> uuid) \<Rightarrow> action_write \<Rightarrow> database
   \<Rightarrow> storage_error + (bool \<times> database)" where
  "record_action payload_of now fresh a db =
     and_then (insert_episode_tx now (fresh 0) (action_episode payload_of a) db) (\<lambda>db1.
       if list_ex (\<lambda>r. aw_tenant_id (ac_write r) = aw_tenant_id a \<and>
                       aw_action_id (ac_write r) = aw_action_id a) (db_actions db1)
       then Inr (False, db)
       else if list_ex (\<lambda>r. ac_id r = fresh 1) (db_actions db1)
       then Inl (constraint_error ''actions_pkey'')
       else
         let db2 = db1\<lparr>db_actions := db_actions db1 @
               [\<lparr>ac_id = fresh 1, ac_write = a, ac_recorded_at = now, ac_provenance = fresh 0\<rparr>]\<rparr>
         in and_then (insert_chunk_row (action_chunk (fresh 2) a (fresh 0)) db2) (\<lambda>(_, db3).
              Inr (True, fst (mark_briefs_stale_tx (aw_tenant_id a) (aw_entities a) db3))))"

section \<open>The timeline query\<close>

record activity_query =
  aq_scope :: scope
  aq_entity :: string
  aq_since :: "instant option"
  aq_action_types :: "string list"
  aq_actors :: "string list"
  aq_limit :: nat

definition ends_with :: "string \<Rightarrow> string \<Rightarrow> bool" where
  "ends_with suf s \<longleftrightarrow> strip_prefix (rev suf) (rev s) \<noteq> None"

text \<open>\<^verbatim>\<open>trim_end_matches\<close> with a two-character pattern removes it as often as it occurs.\<close>

fun trim_start_pair :: "char \<Rightarrow> char \<Rightarrow> string \<Rightarrow> string" where
  "trim_start_pair a b (c # d # s) = (if c = a \<and> d = b then trim_start_pair a b s else c # d # s)"
| "trim_start_pair a b s = s"

definition trim_end_dot_star :: "string \<Rightarrow> string" where
  "trim_end_dot_star s = rev (trim_start_pair CHR ''*'' CHR ''.'' (rev s))"

text \<open>
  SQL \<^verbatim>\<open>LIKE\<close>: a percent sign matches any text, an underscore any one character, a backslash
  makes the next character literal (a pattern ending in one raises an error there, and matches
  nothing here).
\<close>

fun sql_like :: "string \<Rightarrow> string \<Rightarrow> bool" where
  "sql_like [] s \<longleftrightarrow> s = []"
| "sql_like (p # ps) s \<longleftrightarrow>
     (if p = CHR ''%'' then sql_like ps s \<or> (case s of [] \<Rightarrow> False | _ # cs \<Rightarrow> sql_like (p # ps) cs)
      else case s of [] \<Rightarrow> False
        | c # cs \<Rightarrow>
            if p = CHR ''_'' then sql_like ps cs
            else if p = CHR 0x5C then (case ps of [] \<Rightarrow> False | q # qs \<Rightarrow> q = c \<and> sql_like qs cs)
            else p = c \<and> sql_like ps cs)"

definition activity :: "activity_query \<Rightarrow> database \<Rightarrow> action_row list" where
  "activity q db =
     (let sc = aq_scope q in
      if sc_principals sc = [] then []
      else if sc_entity_scope sc \<noteq> [] \<and> aq_entity q \<notin> set (sc_entity_scope sc) then []
      else
        let exact = filter (\<lambda>t. \<not> ends_with ''.*'' t) (aq_action_types q);
            prefixes = map trim_end_dot_star (filter (ends_with ''.*'') (aq_action_types q));
            keep = (\<lambda>r. let a = ac_write r in
              aw_tenant_id a = sc_tenant_id sc \<and> aq_entity q \<in> set (aw_entities a) \<and>
              set (aw_visibility a) \<inter> set (sc_principals sc) \<noteq> {} \<and>
              conf_code (aw_confidentiality a) \<le> conf_code (sc_max_confidentiality sc) \<and>
              (case aq_since q of None \<Rightarrow> True | Some t \<Rightarrow> t \<le> aw_occurred_at a) \<and>
              (exact = [] \<and> prefixes = [] \<or> aw_action_type a \<in> set exact \<or>
               list_ex (\<lambda>p. sql_like (p @ ''.%'') (aw_action_type a)) prefixes) \<and>
              (aq_actors q = [] \<or> (\<exists>z \<in> set (aq_actors q). aw_actor_azp a = Some z)))
        in take (min 500 (max 1 (aq_limit q)))
             (sort_key (\<lambda>r. - aw_occurred_at (ac_write r)) (filter keep (db_actions db))))"

section \<open>Briefs\<close>

text \<open>\<^verbatim>\<open>intersect_visibilities\<close>: sorted and deduplicated; no source means visible to nobody.\<close>

fun intersect_loop :: "principal_token list \<Rightarrow> principal_token list list \<Rightarrow> principal_token list" where
  "intersect_loop acc [] = acc"
| "intersect_loop acc (l # ls) =
     (let acc' = filter (\<lambda>t. t \<in> set l) acc in if acc' = [] then [] else intersect_loop acc' ls)"

definition intersect_visibilities :: "principal_token list list \<Rightarrow> principal_token list" where
  "intersect_visibilities ls =
     (case ls of [] \<Rightarrow> [] | first # rest \<Rightarrow> intersect_loop (remdups_adj (sort first)) rest)"

text \<open>
  \<^verbatim>\<open>refresh_brief\<close>: the ten newest chunks and actions of the entity, whose common audience becomes
  the brief's. The rendered body is \<open>render\<close> of those rows.
\<close>

definition brief_chunks :: "tenant_id \<Rightarrow> string \<Rightarrow> database \<Rightarrow> chunk_row list" where
  "brief_chunks t entity db =
     take 10 (sort_key (\<lambda>c. - ch_valid_from c)
       (filter (\<lambda>c. ch_tenant_id c = t \<and> chunk_current c \<and> entity \<in> set (ch_entity_tags c))
         (db_chunks db)))"

definition brief_actions :: "tenant_id \<Rightarrow> string \<Rightarrow> database \<Rightarrow> action_row list" where
  "brief_actions t entity db =
     take 10 (sort_key (\<lambda>r. - aw_occurred_at (ac_write r))
       (filter (\<lambda>r. aw_tenant_id (ac_write r) = t \<and> entity \<in> set (aw_entities (ac_write r)))
         (db_actions db)))"

definition brief_key :: "brief_row \<Rightarrow> tenant_id \<times> string" where
  "brief_key b = (br_tenant_id b, br_entity b)"

definition refresh_brief ::
  "(chunk_row list \<Rightarrow> action_row list \<Rightarrow> json) \<Rightarrow> instant \<Rightarrow> tenant_id \<Rightarrow> string \<Rightarrow> database
   \<Rightarrow> storage_error + (brief_row \<times> database)" where
  "refresh_brief render now t entity db =
     (let mems = brief_chunks t entity db; acts = brief_actions t entity db;
          vis = intersect_visibilities (map ch_visibility mems @ map (\<lambda>r. aw_visibility (ac_write r)) acts);
          put = (\<lambda>b. b\<lparr>br_body := render mems acts, br_source_visibility := vis,
                       br_is_stale := False, br_last_synced_at := Some now\<rparr>);
          P = (\<lambda>b. br_tenant_id b = t \<and> br_entity b = entity)
      in case List.find P (db_briefs db) of
           Some b \<Rightarrow> Inr (put b, db\<lparr>db_briefs := update_where P put (db_briefs db)\<rparr>)
         | None \<Rightarrow>
             if t \<notin> set (db_tenants db) then Inl (constraint_error ''briefs_tenant_id_fkey'')
             else let b = put \<lparr>br_tenant_id = t, br_entity = entity, br_body = JNull,
                               br_source_visibility = [], br_is_stale = False,
                               br_last_synced_at = None, br_source_version = 0\<rparr>
                  in Inr (b, db\<lparr>db_briefs := db_briefs db @ [b]\<rparr>))"

definition get_brief :: "tenant_id \<Rightarrow> string \<Rightarrow> database \<Rightarrow> brief_row option" where
  "get_brief t entity db = List.find (\<lambda>b. br_tenant_id b = t \<and> br_entity b = entity) (db_briefs db)"

text \<open>\<^verbatim>\<open>refresh_stale_briefs\<close> refreshes the briefs that were stale when it started.\<close>

fun refresh_all ::
  "(chunk_row list \<Rightarrow> action_row list \<Rightarrow> json) \<Rightarrow> instant \<Rightarrow> tenant_id \<Rightarrow> string list \<Rightarrow> nat
   \<Rightarrow> database \<Rightarrow> storage_error + (nat \<times> database)" where
  "refresh_all render now t [] n db = Inr (n, db)"
| "refresh_all render now t (e # es) n db =
     and_then (refresh_brief render now t e db)
       (\<lambda>(_, db'). refresh_all render now t es (Suc n) db')"

definition refresh_stale_briefs ::
  "(chunk_row list \<Rightarrow> action_row list \<Rightarrow> json) \<Rightarrow> instant \<Rightarrow> tenant_id \<Rightarrow> database
   \<Rightarrow> storage_error + (nat \<times> database)" where
  "refresh_stale_briefs render now t db =
     refresh_all render now t
       (map br_entity (filter (\<lambda>b. br_tenant_id b = t \<and> br_is_stale b) (db_briefs db))) 0 db"

section \<open>Lemmas\<close>

lemma intersect_loop_set: "set (intersect_loop acc ls) = set acc \<inter> (\<Inter>l \<in> set ls. set l)"
proof (induction acc ls rule: intersect_loop.induct)
  case (2 acc l ls)
  show ?case
  proof (cases "filter (\<lambda>t. t \<in> set l) acc = []")
    case True
    then have "set acc \<inter> set l = {}" by (auto simp: filter_empty_conv)
    with True show ?thesis by (auto simp: Let_def)
  next
    case False
    with 2 show ?thesis by (auto simp: Let_def)
  qed
qed simp

lemma intersect_visibilities_set:
  "set (intersect_visibilities ls) = (if ls = [] then {} else (\<Inter>l \<in> set ls. set l))"
  by (cases ls) (simp_all add: intersect_visibilities_def intersect_loop_set)

lemma intersect_visibilities_Nil [simp]: "intersect_visibilities [] = []"
  by (simp add: intersect_visibilities_def)

lemma sql_like_percent: "sql_like ''%'' s"
  by (induction s) simp_all

lemma sql_like_plain:
  assumes "CHR ''%'' \<notin> set p" "CHR ''_'' \<notin> set p" "CHR 0x5C \<notin> set p"
  shows "sql_like (p @ q) s \<longleftrightarrow> (\<exists>r. s = p @ r \<and> sql_like q r)"
  using assms
proof (induction p arbitrary: s)
  case (Cons a p)
  then show ?case by (cases s) auto
qed simp

text \<open>
  A timeline prefix pattern without SQL metacharacters selects exactly the action types that
  start with the prefix and a dot.
\<close>

theorem activity_prefix_exact:
  assumes "CHR ''%'' \<notin> set p" "CHR ''_'' \<notin> set p" "CHR 0x5C \<notin> set p"
  shows "sql_like (p @ ''.%'') s \<longleftrightarrow> starts_with (p @ ''.'') s"
proof -
  have "sql_like ''.%'' r \<longleftrightarrow> (\<exists>u. r = CHR ''.'' # u)" for r
    using sql_like_percent by (cases r) auto
  with sql_like_plain [OF assms] show ?thesis by (auto simp: starts_with_iff)
qed

theorem activity_prefix_exact_witness:
  "sql_like (''email'' @ ''.%'') ''email.sent'' \<longleftrightarrow> starts_with (''email'' @ ''.'') ''email.sent''"
  by (rule activity_prefix_exact) simp_all

text \<open>An underscore in the prefix is a wildcard: another verb is selected too.\<close>

lemma activity_prefix_underscore: "sql_like (trim_end_dot_star ''user_login.*'' @ ''.%'') ''userXlogin.ok''"
  by code_simp

lemma record_action_new:
  assumes "record_action payload_of now fresh a db = Inr (True, db')"
  shows "\<exists>r \<in> set (db_actions db'). ac_write r = a"
    and "\<And>b. b \<in> set (db_briefs db') \<Longrightarrow> br_tenant_id b = aw_tenant_id a \<Longrightarrow>
      br_entity b \<in> set (aw_entities a) \<Longrightarrow> br_is_stale b"
proof -
  from assms obtain db1 db3 n where
    ins: "insert_chunk_row (action_chunk (fresh 2) a (fresh 0))
      (db1\<lparr>db_actions := db_actions db1 @
         [\<lparr>ac_id = fresh 1, ac_write = a, ac_recorded_at = now, ac_provenance = fresh 0\<rparr>]\<rparr>) = Inr (n, db3)"
    and db': "db' = fst (mark_briefs_stale_tx (aw_tenant_id a) (aw_entities a) db3)"
    by (auto simp: record_action_def and_then_Inr Let_def split: if_splits)
  have "\<exists>r \<in> set (db_actions db3). ac_write r = a"
    using ins by (auto simp: insert_chunk_row_def split: if_splits)
  then show "\<exists>r \<in> set (db_actions db'). ac_write r = a" by (simp add: db')
  show "br_is_stale b" if "b \<in> set (db_briefs db')" "br_tenant_id b = aw_tenant_id a"
    "br_entity b \<in> set (aw_entities a)" for b
    using mark_briefs_stale_marks that unfolding db' by blast
qed

text \<open>
  Recording an action is idempotent on its client key: once recorded, it is on the timeline
  and every brief of its entities is stale; recording it again, under whatever fresh ids, reports
  a replay and leaves the database exactly as it was.
\<close>

theorem record_action_idempotent:
  assumes first: "record_action payload_of now fresh a db = Inr (True, db')"
    and ids: "fresh' 0 \<notin> ep_id ` set (db_episodes db')" "aw_tenant_id a \<in> set (db_tenants db')"
  shows "(\<exists>r \<in> set (db_actions db'). ac_write r = a) \<and>
    list_all (\<lambda>b. br_tenant_id b = aw_tenant_id a \<and> br_entity b \<in> set (aw_entities a) \<longrightarrow> br_is_stale b)
      (db_briefs db') \<and>
    record_action payload_of now' fresh' a db' = Inr (False, db')"
proof -
  note new = record_action_new [OF first]
  obtain db1 where ep: "insert_episode_tx now' (fresh' 0) (action_episode payload_of a) db' = Inr db1"
    "db_actions db1 = db_actions db'"
    using ids by (simp add: insert_episode_tx_def action_episode_def)
  moreover have "list_ex (\<lambda>r. aw_tenant_id (ac_write r) = aw_tenant_id a \<and>
      aw_action_id (ac_write r) = aw_action_id a) (db_actions db')"
    using new(1) by (auto simp: list_ex_iff)
  ultimately have "record_action payload_of now' fresh' a db' = Inr (False, db')"
    by (simp add: record_action_def)
  with new show ?thesis by (auto simp: list_all_iff)
qed

definition sample_action :: action_write where
  "sample_action =
     \<lparr>aw_tenant_id = 1, aw_action_id = ''q1'', aw_actor_sub = None, aw_actor_azp = Some ''bot'',
      aw_action_type = ''quote.issued'', aw_entities = [''acme''], aw_summary = ''sent'',
      aw_payload = JNull, aw_outcome = Succeeded, aw_occurred_at = 30, aw_visibility = [5],
      aw_confidentiality = Internal\<rparr>"

theorem record_action_idempotent_witness:
  "\<exists>db'. record_action (\<lambda>_. JNull) 30 (\<lambda>j. j + 100) sample_action sample_db = Inr (True, db') \<and>
     record_action (\<lambda>_. JNull) 31 (\<lambda>j. j + 200) sample_action db' = Inr (False, db')"
proof -
  have chk: "(case record_action (\<lambda>_. JNull) 30 (\<lambda>j. j + 100) sample_action sample_db of
      Inr (b, d) \<Rightarrow> b \<and> 0 + 200 \<notin> ep_id ` set (db_episodes d) \<and> aw_tenant_id sample_action \<in> set (db_tenants d)
    | Inl _ \<Rightarrow> False)" by code_simp
  then obtain db' where up: "record_action (\<lambda>_. JNull) 30 (\<lambda>j. j + 100) sample_action sample_db = Inr (True, db')"
    by (auto split: sum.splits)
  have "0 + 200 \<notin> ep_id ` set (db_episodes db')" "aw_tenant_id sample_action \<in> set (db_tenants db')"
    using chk [unfolded up] by simp_all
  from record_action_idempotent [where fresh' = "\<lambda>j. j + 200" and now' = 31, OF up this] up
  show ?thesis by blast
qed

text \<open>
  A refreshed brief is visible only to the common audience of everything it was built from:
  its visibility is the intersection over the rendered chunks and actions, and empty when there
  are none; it reads as fresh and keeps its version.
\<close>

theorem refresh_brief_derived_visibility:
  assumes "refresh_brief render now t entity db = Inr (b, db')"
  shows "set (br_source_visibility b) =
      (let sources = map ch_visibility (brief_chunks t entity db) @
                     map (\<lambda>r. aw_visibility (ac_write r)) (brief_actions t entity db)
       in if sources = [] then {} else (\<Inter>v \<in> set sources. set v)) \<and>
    \<not> br_is_stale b \<and> get_brief t entity db' = Some b \<and>
    br_source_version b = (case get_brief t entity db of None \<Rightarrow> 0 | Some b0 \<Rightarrow> br_source_version b0)"
proof -
  define mems acts where "mems = brief_chunks t entity db" and "acts = brief_actions t entity db"
  define srcs where "srcs = map ch_visibility mems @ map (\<lambda>r. aw_visibility (ac_write r)) acts"
  define put where "put = (\<lambda>b :: brief_row. b\<lparr>br_body := render mems acts,
    br_source_visibility := intersect_visibilities srcs, br_is_stale := False,
    br_last_synced_at := Some now\<rparr>)"
  define P where "P = (\<lambda>b :: brief_row. br_tenant_id b = t \<and> br_entity b = entity)"
  have put: "P (put x) = P x" "br_source_visibility (put x) = intersect_visibilities srcs"
    "\<not> br_is_stale (put x)" "br_source_version (put x) = br_source_version x" for x
    by (simp_all add: put_def P_def)
  note def = refresh_brief_def [of render now t entity db, folded mems_def acts_def,
      folded srcs_def put_def P_def, unfolded Let_def, folded srcs_def, folded put_def P_def]
  have "\<exists>x. b = put x \<and> get_brief t entity db' = Some b \<and>
    br_source_version x = (case get_brief t entity db of None \<Rightarrow> 0 | Some b0 \<Rightarrow> br_source_version b0)"
  proof (cases "List.find P (db_briefs db)")
    case None
    let ?x = "\<lparr>br_tenant_id = t, br_entity = entity, br_body = JNull, br_source_visibility = [],
      br_is_stale = False, br_last_synced_at = None, br_source_version = 0\<rparr>"
    from assms None have b: "b = put ?x" and db': "db_briefs db' = db_briefs db @ [b]"
      unfolding def by (auto simp: put_def split: if_splits)
    have "P b" unfolding b put(1) by (simp add: P_def)
    then have "get_brief t entity db' = Some b"
      unfolding get_brief_def P_def [symmetric] db' find_append None by simp
    moreover have "get_brief t entity db = None" using None by (simp add: get_brief_def P_def)
    ultimately show ?thesis using b by (intro exI [of _ ?x]) simp
  next
    case (Some b0)
    from assms Some have b: "b = put b0" and db': "db_briefs db' = update_where P put (db_briefs db)"
      unfolding def by (auto simp: put_def)
    have "List.find P (update_where P put rs) = map_option put (List.find P rs)" for rs
      by (induction rs) (simp_all add: put)
    with Some have "get_brief t entity db' = Some b"
      unfolding get_brief_def P_def [symmetric] db' b by simp
    moreover have "get_brief t entity db = Some b0" using Some by (simp add: get_brief_def P_def)
    ultimately show ?thesis using b by auto
  qed
  then show ?thesis
    unfolding mems_def [symmetric] acts_def [symmetric] Let_def srcs_def [symmetric]
    using put by (auto simp: intersect_visibilities_set)
qed

theorem refresh_brief_derived_visibility_witness:
  "\<exists>b db'. refresh_brief (\<lambda>_ _. JNull) 40 1 ''acme'' sample_chunks_db = Inr (b, db') \<and>
     set (br_source_visibility b) = {5, 6} \<and> \<not> br_is_stale b"
proof -
  have "\<not> isl (refresh_brief (\<lambda>_ _. JNull) 40 1 ''acme'' sample_chunks_db)" by code_simp
  then obtain b db' where r: "refresh_brief (\<lambda>_ _. JNull) 40 1 ''acme'' sample_chunks_db = Inr (b, db')"
    by (cases "refresh_brief (\<lambda>_ _. JNull) 40 1 ''acme'' sample_chunks_db") auto
  have "(let sources = map ch_visibility (brief_chunks 1 ''acme'' sample_chunks_db) @
      map (\<lambda>r. aw_visibility (ac_write r)) (brief_actions 1 ''acme'' sample_chunks_db)
    in if sources = [] then {} else (\<Inter>v \<in> set sources. set v)) = {5, 6}" by code_simp
  with refresh_brief_derived_visibility [OF r] r show ?thesis by auto
qed

end
