(* ===== verification/Knowledge_Store.thy ===== *)
theory Knowledge_Store
  imports Action_Log
begin

text \<open>
  The knowledge plane of the Postgres adapter (\<^verbatim>\<open>crates/verity-storage/src/postgres.rs\<close>): the
  proposal gate with rejection memory, de-identification and exact-statement accrual, the
  promotion gates of publishing, and \<open>forget\<close> with its retraction cascade. \<open>uuid_str\<close> is the text
  form of a UUID. Text comparison ignores case on ASCII.
\<close>

section \<open>Items\<close>

record knowledge_item =
  ki_id :: uuid
  ki_statement :: string
  ki_categories :: "string list"
  ki_status :: knowledge_status
  ki_quarantine_reason :: "string option"
  ki_distinct_entities :: int
  ki_support_tier :: "support_tier option"
  ki_episode_count :: int
  ki_writer_count :: int
  ki_has_tier1_evidence :: bool
  ki_merge_reason :: "string option"
  ki_first_seen :: instant
  ki_last_reinforced :: instant
  ki_published_at :: "instant option"

definition row_to_knowledge :: "knowledge_row \<Rightarrow> knowledge_item" where
  "row_to_knowledge k =
     \<lparr>ki_id = kn_id k, ki_statement = kn_statement k, ki_categories = kn_categories k,
      ki_status = kn_status k, ki_quarantine_reason = kn_quarantine_reason k,
      ki_distinct_entities = kn_distinct_entities k,
      ki_support_tier = support_tier_from_distinct (kn_distinct_entities k),
      ki_episode_count = kn_episode_count k, ki_writer_count = kn_writer_count k,
      ki_has_tier1_evidence = kn_has_tier1_evidence k, ki_merge_reason = kn_merge_reason k,
      ki_first_seen = kn_first_seen k, ki_last_reinforced = kn_last_reinforced k,
      ki_published_at = kn_published_at k\<rparr>"

definition get_knowledge :: "tenant_id \<Rightarrow> uuid \<Rightarrow> database \<Rightarrow> storage_error + knowledge_item" where
  "get_knowledge t i db =
     (case List.find (\<lambda>k. kn_tenant_id k = t \<and> kn_id k = i) (db_knowledge db) of
        None \<Rightarrow> Inl (Database ''no rows returned'')
      | Some k \<Rightarrow> Inr (row_to_knowledge k))"

definition list_knowledge :: "tenant_id \<Rightarrow> knowledge_status option \<Rightarrow> database \<Rightarrow> knowledge_item list" where
  "list_knowledge t status db =
     map row_to_knowledge (take 200 (sort_key (\<lambda>k. - kn_first_seen k)
       (filter (\<lambda>k. kn_tenant_id k = t \<and> (case status of None \<Rightarrow> True | Some s \<Rightarrow> kn_status k = s))
         (db_knowledge db))))"

section \<open>Proposing\<close>

record knowledge_proposal =
  kp_tenant_id :: tenant_id
  kp_statement :: string
  kp_categories :: "string list"
  kp_evidence :: "episode_id list"
  kp_proposed_by_sub :: "string option"
  kp_proposed_by_azp :: "string option"
  kp_canonical_statement :: "string option"

definition canon_of :: "knowledge_proposal \<Rightarrow> string option" where
  "canon_of p = (case kp_canonical_statement p of None \<Rightarrow> None
     | Some c \<Rightarrow> let c' = trim c in if c' = [] then None else Some c')"

text \<open>Rejection memory: the canonical form when there is one, else the exact statement.\<close>

definition rejected_match :: "knowledge_proposal \<Rightarrow> knowledge_row \<Rightarrow> bool" where
  "rejected_match p k \<longleftrightarrow> kn_tenant_id k = kp_tenant_id p \<and> kn_status k = Rejected \<and>
     (case canon_of p of Some c \<Rightarrow> kn_canonical_statement k = Some c
      | None \<Rightarrow> kn_statement k = kp_statement p)"

definition rejected_memory :: "knowledge_proposal \<Rightarrow> database \<Rightarrow> knowledge_row option" where
  "rejected_memory p db =
     (case sort_key (\<lambda>k. case kn_rejected_at k of Some t \<Rightarrow> (0 :: nat, - t) | None \<Rightarrow> (1, 0))
             (filter (rejected_match p) (db_knowledge db)) of
        [] \<Rightarrow> None | k # _ \<Rightarrow> Some k)"

definition evidence_rows :: "knowledge_proposal \<Rightarrow> database \<Rightarrow> episode_row list" where
  "evidence_rows p db =
     filter (\<lambda>e. ep_tenant_id e = kp_tenant_id p \<and> ep_id e \<in> set (kp_evidence p)) (db_episodes db)"

text \<open>The entity lexicon: chunk tags, action entities and fact entity ids of the tenant.\<close>

definition lexicon :: "tenant_id \<Rightarrow> database \<Rightarrow> string list" where
  "lexicon t db = remdups
     (concat (map ch_entity_tags (filter (\<lambda>c. ch_tenant_id c = t) (db_chunks db))) @
      concat (map (\<lambda>r. aw_entities (ac_write r))
        (filter (\<lambda>r. aw_tenant_id (ac_write r) = t) (db_actions db))) @
      map (\<lambda>r. fk_entity_id (fr_key r)) (filter (\<lambda>r. fr_tenant_id r = t) (db_facts db)))"

fun contains :: "string \<Rightarrow> string \<Rightarrow> bool" where
  "contains sub [] = (sub = [])"
| "contains sub (c # cs) = (starts_with sub (c # cs) \<or> contains sub cs)"

definition leaks_term :: "string \<Rightarrow> string \<Rightarrow> bool" where
  "leaks_term statement t \<longleftrightarrow>
     4 \<le> length t \<and> contains (to_ascii_lowercase t) (to_ascii_lowercase statement)"

definition leaked_by :: "string \<Rightarrow> string \<Rightarrow> string option" where
  "leaked_by statement term =
     List.find (leaks_term statement) [term, last (split_on CHR '':'' term)]"

fun find_map :: "('a \<Rightarrow> 'b option) \<Rightarrow> 'a list \<Rightarrow> 'b option" where
  "find_map f [] = None"
| "find_map f (x # xs) = (case f x of None \<Rightarrow> find_map f xs | Some y \<Rightarrow> Some y)"

definition leaked :: "string \<Rightarrow> string list \<Rightarrow> string option" where
  "leaked statement terms = find_map (leaked_by statement) terms"

text \<open>The first occurrences, in order: push when not yet contained.\<close>

definition push_new :: "'a list \<Rightarrow> 'a \<Rightarrow> 'a list" where
  "push_new xs x = (if x \<in> set xs then xs else xs @ [x])"

definition distinct_of :: "('e \<Rightarrow> 'a option) \<Rightarrow> 'e list \<Rightarrow> 'a list" where
  "distinct_of f es = foldl (\<lambda>xs e. case f e of None \<Rightarrow> xs | Some x \<Rightarrow> push_new xs x) [] es"

text \<open>\<^verbatim>\<open>{term:?}\<close>: quoted, with quotes, backslashes and line controls escaped.\<close>

definition debug_char :: "char \<Rightarrow> string" where
  "debug_char c =
     (if c = CHR 0x22 then [CHR 0x5C, CHR 0x22] else if c = CHR 0x5C then [CHR 0x5C, CHR 0x5C]
      else if c = CHR 0x0A then [CHR 0x5C, CHR ''n''] else if c = CHR 0x0D then [CHR 0x5C, CHR ''r'']
      else if c = CHR 0x09 then [CHR 0x5C, CHR ''t''] else [c])"

definition debug_str :: "string \<Rightarrow> string" where
  "debug_str s = [CHR 0x22] @ concat (map debug_char s) @ [CHR 0x22]"

text \<open>\<^verbatim>\<open>INSERT INTO knowledge_evidence ... ON CONFLICT DO NOTHING\<close> for each episode.\<close>

definition add_evidence ::
  "uuid \<Rightarrow> knowledge_evidence_row list \<Rightarrow> episode_row \<Rightarrow> knowledge_evidence_row list" where
  "add_evidence kid rows e =
     (if list_ex (\<lambda>r. ke_knowledge_id r = kid \<and> ke_episode_id r = ep_id e) rows then rows
      else rows @ [\<lparr>ke_knowledge_id = kid, ke_episode_id = ep_id e, ke_entity = ep_source_entity e,
                    ke_writer_azp = ep_writer_azp e, ke_trust_tier = ep_trust_tier e\<rparr>])"

definition evidence_of :: "uuid \<Rightarrow> database \<Rightarrow> knowledge_evidence_row list" where
  "evidence_of kid db = filter (\<lambda>r. ke_knowledge_id r = kid) (db_knowledge_evidence db)"

text \<open>\<^verbatim>\<open>count(DISTINCT col)\<close>: nulls do not count.\<close>

definition count_distinct :: "('e \<Rightarrow> 'a option) \<Rightarrow> 'e list \<Rightarrow> nat" where
  "count_distinct f rows = card (set (List.map_filter f rows))"

definition accrue :: "knowledge_proposal \<Rightarrow> knowledge_row \<Rightarrow> episode_row list \<Rightarrow> database \<Rightarrow> database" where
  "accrue p twin evidence db =
     (let db1 = db\<lparr>db_knowledge_evidence :=
            foldl (add_evidence (kn_id twin)) (db_knowledge_evidence db) evidence\<rparr>;
          rows = evidence_of (kn_id twin) db1
      in db1\<lparr>db_knowledge := update_where (\<lambda>k. kn_id k = kn_id twin)
           (\<lambda>k. k\<lparr>kn_categories := remdups (kn_categories k @ kp_categories p),
                  kn_distinct_entities := int (count_distinct ke_entity rows),
                  kn_episode_count := int (length rows),
                  kn_writer_count := int (count_distinct ke_writer_azp rows),
                  kn_has_tier1_evidence := list_ex (\<lambda>r. ke_trust_tier r = 1) rows,
                  kn_merge_reason := (case kn_merge_reason k of
                      None \<Rightarrow> Some ''exact-statement accrual (propose fast path)''
                    | Some m \<Rightarrow> Some m)\<rparr>)
           (db_knowledge db1)\<rparr>)"

definition twin_match :: "knowledge_proposal \<Rightarrow> knowledge_row \<Rightarrow> bool" where
  "twin_match p k \<longleftrightarrow> kn_tenant_id k = kp_tenant_id p \<and> (kn_status k = Candidate \<or> kn_status k = Eligible) \<and>
     ((\<exists>c. canon_of p = Some c \<and> kn_canonical_statement k = Some c) \<or> kn_statement k = kp_statement p)"

definition find_twin :: "knowledge_proposal \<Rightarrow> database \<Rightarrow> knowledge_row option" where
  "find_twin p db =
     (case sort_key kn_id (filter (twin_match p) (db_knowledge db)) of [] \<Rightarrow> None | k # _ \<Rightarrow> Some k)"

definition proposal_row ::
  "instant \<Rightarrow> uuid \<Rightarrow> knowledge_proposal \<Rightarrow> episode_row list \<Rightarrow> string option \<Rightarrow> knowledge_row" where
  "proposal_row now i p evidence leak =
     \<lparr>kn_id = i, kn_tenant_id = kp_tenant_id p, kn_statement = kp_statement p,
      kn_categories = kp_categories p,
      kn_status = (case leak of Some _ \<Rightarrow> KQuarantined | None \<Rightarrow> Candidate),
      kn_quarantine_reason = map_option
        (\<lambda>term. ''statement contains known entity identifier '' @ debug_str term) leak,
      kn_distinct_entities = as_i32 (length (distinct_of ep_source_entity evidence)),
      kn_episode_count = as_i32 (length evidence),
      kn_writer_count = as_i32 (length (distinct_of ep_writer_azp evidence)),
      kn_has_tier1_evidence = list_ex (\<lambda>e. ep_trust_tier e = 1) evidence,
      kn_proposed_by_sub = kp_proposed_by_sub p, kn_proposed_by_azp = kp_proposed_by_azp p,
      kn_first_seen = now, kn_last_reinforced = now,
      kn_canonical_statement = canon_of p, kn_merge_reason = None, kn_published_at = None,
      kn_rejected_at = None, kn_invalidated_at = None, kn_invalidated_reason = None\<rparr>"

definition insert_proposal ::
  "instant \<Rightarrow> uuid \<Rightarrow> knowledge_proposal \<Rightarrow> episode_row list \<Rightarrow> string option \<Rightarrow> database
   \<Rightarrow> storage_error + database" where
  "insert_proposal now i p evidence leak db =
     (if kp_tenant_id p \<notin> set (db_tenants db) then Inl (constraint_error ''knowledge_tenant_id_fkey'')
      else if i \<in> kn_id ` set (db_knowledge db) then Inl (constraint_error ''knowledge_pkey'')
      else Inr (db\<lparr>db_knowledge := db_knowledge db @ [proposal_row now i p evidence leak],
                   db_knowledge_evidence := foldl (add_evidence i) (db_knowledge_evidence db) evidence\<rparr>))"

definition propose_knowledge ::
  "instant \<Rightarrow> uuid \<Rightarrow> knowledge_proposal \<Rightarrow> database \<Rightarrow> storage_error + (knowledge_item \<times> database)" where
  "propose_knowledge now i p db =
     (case rejected_memory p db of
        Some k \<Rightarrow> and_then (get_knowledge (kp_tenant_id p) (kn_id k) db) (\<lambda>item. Inr (item, db))
      | None \<Rightarrow>
          let evidence = evidence_rows p db;
              leak = leaked (kp_statement p) (lexicon (kp_tenant_id p) db);
              twin = (if leak = None then find_twin p db else None)
          in case twin of
               Some k \<Rightarrow>
                 let db' = accrue p k evidence db
                 in and_then (get_knowledge (kp_tenant_id p) (kn_id k) db') (\<lambda>item. Inr (item, db'))
             | None \<Rightarrow>
                 and_then (insert_proposal now i p evidence leak db) (\<lambda>db'.
                   and_then (get_knowledge (kp_tenant_id p) i db') (\<lambda>item. Inr (item, db'))))"

section \<open>Publishing\<close>

definition knowledge_document :: "(uuid \<Rightarrow> string) \<Rightarrow> uuid \<Rightarrow> string" where
  "knowledge_document uuid_str i = ''knowledge:'' @ uuid_str i"

definition knowledge_chunk ::
  "(uuid \<Rightarrow> string) \<Rightarrow> instant \<Rightarrow> uuid \<Rightarrow> uuid \<Rightarrow> knowledge_row \<Rightarrow> principal_token list
   \<Rightarrow> rat list option \<Rightarrow> chunk_row" where
  "knowledge_chunk uuid_str now cid episode k visibility embedding =
     \<lparr>ch_id = cid, ch_tenant_id = kn_tenant_id k, ch_source = ''knowledge'',
      ch_document_id = knowledge_document uuid_str (kn_id k), ch_seq = 0,
      ch_content = kn_statement k, ch_content_hash = ''knowledge-'' @ uuid_str (kn_id k),
      ch_embedding = embedding, ch_visibility = visibility, ch_entity_tags = [],
      ch_confidentiality = Internal, ch_trust_tier = Observation, ch_valid_from = now,
      ch_valid_to = None, ch_provenance = episode, ch_acl_provenance = AdminAssigned,
      ch_kind = ''knowledge'', ch_categories = kn_categories k,
      ch_support_tier = map_option support_tier_as_str (support_tier_from_distinct (kn_distinct_entities k)),
      ch_derived_from = []\<rparr>"

definition publish_episode :: "(uuid \<Rightarrow> string) \<Rightarrow> knowledge_row \<Rightarrow> new_episode" where
  "publish_episode uuid_str k =
     \<lparr>ne_tenant_id = kn_tenant_id k, ne_source = ''knowledge'',
      ne_source_entity = Some (uuid_str (kn_id k)), ne_kind = KnowledgePublish,
      ne_payload = JObject [(''knowledge_id'', JString (uuid_str (kn_id k))),
                            (''statement'', JString (kn_statement k))],
      ne_content_hash = ''knowledge-'' @ uuid_str (kn_id k), ne_trust_tier = Observation,
      ne_writer_sub = None, ne_writer_azp = None\<rparr>"

definition publish_knowledge ::
  "(uuid \<Rightarrow> string) \<Rightarrow> instant \<Rightarrow> (nat \<Rightarrow> uuid) \<Rightarrow> tenant_id \<Rightarrow> uuid \<Rightarrow> principal_token list \<Rightarrow> int
   \<Rightarrow> rat list option \<Rightarrow> database \<Rightarrow> storage_error + (knowledge_item \<times> database)" where
  "publish_knowledge uuid_str now fresh t i visibility k_min embedding db =
     (if visibility = [] then Inl (InvalidInput ''publishing requires a non-empty visibility set'')
      else case List.find (\<lambda>k. kn_tenant_id k = t \<and> kn_id k = i) (db_knowledge db) of
        None \<Rightarrow> Inl (InvalidInput ''unknown knowledge item'')
      | Some k \<Rightarrow>
          if kn_status k \<noteq> Candidate \<and> kn_status k \<noteq> Eligible
          then Inl (InvalidInput (''only candidate/eligible items can be published (status: '' @
                 knowledge_status_as_str (kn_status k) @ '')''))
          else if kn_distinct_entities k < k_min
          then Inl (InvalidInput (''k-support unmet: '' @ int_to_string (kn_distinct_entities k) @
                 '' distinct entities < k_min '' @ int_to_string k_min))
          else if kn_writer_count k < 2 \<and> \<not> kn_has_tier1_evidence k
          then Inl (InvalidInput ''corroboration unmet: needs >=2 distinct writers or tier-1 evidence'')
          else
            let chunk = knowledge_chunk uuid_str now (fresh 1) (fresh 0) k visibility embedding
            in and_then (insert_episode_tx now (fresh 0) (publish_episode uuid_str k) db) (\<lambda>db1.
                 if chunk_key chunk \<in> chunk_key ` set (db_chunks db1)
                 then Inl (constraint_error ''chunks_natural_key'')
                 else and_then (insert_chunk_row chunk db1) (\<lambda>(_, db2).
                   let db3 = db2\<lparr>db_knowledge := update_where (\<lambda>r. kn_id r = i)
                         (\<lambda>r. r\<lparr>kn_status := Published, kn_published_at := Some now\<rparr>) (db_knowledge db2)\<rparr>
                   in and_then (get_knowledge t i db3) (\<lambda>item. Inr (item, db3)))))"

section \<open>Forgetting\<close>

text \<open>One item of the retraction cascade: withdraw the evidence, recount, pull below three.\<close>

definition withdraw_support ::
  "(uuid \<Rightarrow> string) \<Rightarrow> instant \<Rightarrow> tenant_id \<Rightarrow> episode_id \<Rightarrow> database \<Rightarrow> uuid \<Rightarrow> database" where
  "withdraw_support uuid_str now t episode db kid =
     (let db1 = db\<lparr>db_knowledge_evidence := filter
            (\<lambda>r. \<not> (ke_knowledge_id r = kid \<and> ke_episode_id r = episode)) (db_knowledge_evidence db)\<rparr>;
          rows = evidence_of kid db1;
          distinct_entities = count_distinct ke_entity rows;
          db2 = db1\<lparr>db_knowledge := update_where (\<lambda>k. kn_id k = kid)
            (\<lambda>k. k\<lparr>kn_distinct_entities := as_i32 distinct_entities,
                   kn_episode_count := as_i32 (length rows)\<rparr>) (db_knowledge db1)\<rparr>;
          pub = (\<lambda>k. kn_id k = kid \<and> kn_status k = Published)
      in if distinct_entities < 3
         then let db3 = db2\<lparr>db_knowledge := update_where pub
                (\<lambda>k. k\<lparr>kn_status := Invalidated, kn_invalidated_at := Some now,
                       kn_invalidated_reason := Some ''support_withdrawn''\<rparr>) (db_knowledge db2)\<rparr>
              in if 0 < rows_affected pub (db_knowledge db2)
                 then db3\<lparr>db_chunks := update_where
                        (\<lambda>c. ch_tenant_id c = t \<and> ch_document_id c = knowledge_document uuid_str kid \<and>
                             chunk_current c)
                        (close_chunk now) (db_chunks db3)\<rparr>
                 else db3
         else db2)"

definition supported_by :: "tenant_id \<Rightarrow> episode_id \<Rightarrow> database \<Rightarrow> uuid list" where
  "supported_by t episode db =
     map ke_knowledge_id (filter (\<lambda>r. ke_episode_id r = episode \<and>
       list_ex (\<lambda>k. kn_id k = ke_knowledge_id r \<and> kn_tenant_id k = t) (db_knowledge db))
       (db_knowledge_evidence db))"

definition close_fact_at :: "instant \<Rightarrow> fact_row \<Rightarrow> fact_row" where
  "close_fact_at now r = r\<lparr>fr_valid_to := Some now\<rparr>"

fun forget ::
  "(uuid \<Rightarrow> string) \<Rightarrow> instant \<Rightarrow> tenant_id \<Rightarrow> forget_ref \<Rightarrow> database \<Rightarrow> nat \<times> database" where
  "forget uuid_str now t (ForgetChunk i) db =
     (let P = (\<lambda>c. ch_tenant_id c = t \<and> ch_id c = i \<and> chunk_current c)
      in (rows_affected P (db_chunks db),
          db\<lparr>db_chunks := update_where P (close_chunk now) (db_chunks db)\<rparr>))"
| "forget uuid_str now t (ForgetEpisode e) db =
     (let P = (\<lambda>c. ch_tenant_id c = t \<and> ch_provenance c = e \<and> chunk_current c);
          Q = (\<lambda>r. fr_tenant_id r = t \<and> fr_provenance r = e \<and> is_current r);
          db1 = db\<lparr>db_chunks := update_where P (close_chunk now) (db_chunks db),
                   db_facts := update_where Q (close_fact_at now) (db_facts db)\<rparr>
      in (rows_affected P (db_chunks db) + rows_affected Q (db_facts db),
          foldl (withdraw_support uuid_str now t e) db1 (supported_by t e db1)))"

section \<open>Lemmas\<close>

lemma twin_match_code [code]:
  "twin_match p k \<longleftrightarrow> kn_tenant_id k = kp_tenant_id p \<and> (kn_status k = Candidate \<or> kn_status k = Eligible) \<and>
     ((case canon_of p of None \<Rightarrow> False | Some c \<Rightarrow> kn_canonical_statement k = Some c) \<or> kn_statement k = kp_statement p)"
  by (auto simp: twin_match_def split: option.splits)

lemma get_knowledge_Inr:
  "get_knowledge t i db = Inr item \<longleftrightarrow>
     (\<exists>k. List.find (\<lambda>k. kn_tenant_id k = t \<and> kn_id k = i) (db_knowledge db) = Some k \<and>
          item = row_to_knowledge k)"
  by (auto simp: get_knowledge_def split: option.splits)

lemma row_to_knowledge_sel [simp]:
  "ki_status (row_to_knowledge k) = kn_status k" "ki_id (row_to_knowledge k) = kn_id k"
  "ki_distinct_entities (row_to_knowledge k) = kn_distinct_entities k"
  by (simp_all add: row_to_knowledge_def)

lemma knowledge_chunk_sel [simp]:
  "ch_kind (knowledge_chunk us now c e k v emb) = ''knowledge''"
  "ch_entity_tags (knowledge_chunk us now c e k v emb) = []"
  "ch_visibility (knowledge_chunk us now c e k v emb) = v"
  "ch_content (knowledge_chunk us now c e k v emb) = kn_statement k"
  by (simp_all add: knowledge_chunk_def)

lemma publish_knowledge_Inr:
  assumes "publish_knowledge uuid_str now fresh t i vis k_min emb db = Inr (item, db')"
  obtains k db2 where "List.find (\<lambda>k. kn_tenant_id k = t \<and> kn_id k = i) (db_knowledge db) = Some k"
    "vis \<noteq> []" "kn_status k = Candidate \<or> kn_status k = Eligible" "k_min \<le> kn_distinct_entities k"
    "2 \<le> kn_writer_count k \<or> kn_has_tier1_evidence k"
    "db_chunks db' = db_chunks db @ [knowledge_chunk uuid_str now (fresh 1) (fresh 0) k vis emb]"
    "db_knowledge db' = update_where (\<lambda>r. kn_id r = i)
       (\<lambda>r. r\<lparr>kn_status := Published, kn_published_at := Some now\<rparr>) (db_knowledge db)"
    "get_knowledge t i db' = Inr item"
proof -
  from assms obtain k where vis: "vis \<noteq> []"
    and k: "List.find (\<lambda>k. kn_tenant_id k = t \<and> kn_id k = i) (db_knowledge db) = Some k"
    by (auto simp: publish_knowledge_def split: if_splits option.splits)
  define chunk where "chunk = knowledge_chunk uuid_str now (fresh 1) (fresh 0) k vis emb"
  define pub where "pub = (\<lambda>r :: knowledge_row. r\<lparr>kn_status := Published, kn_published_at := Some now\<rparr>)"
  note unfolded = assms [unfolded publish_knowledge_def k option.case Let_def, folded chunk_def pub_def]
  from unfolded vis have st: "kn_status k = Candidate \<or> kn_status k = Eligible"
    by (auto split: if_splits)
  moreover from unfolded vis st have d: "k_min \<le> kn_distinct_entities k"
    by (auto split: if_splits)
  moreover from unfolded vis st d have w: "2 \<le> kn_writer_count k \<or> kn_has_tier1_evidence k"
    by (auto split: if_splits)
  ultimately obtain db1 db2 n where ep: "insert_episode_tx now (fresh 0) (publish_episode uuid_str k) db = Inr db1"
    and new: "chunk_key chunk \<notin> chunk_key ` set (db_chunks db1)"
    and ins: "insert_chunk_row chunk db1 = Inr (n, db2)"
    and db': "db' = db2\<lparr>db_knowledge := update_where (\<lambda>r. kn_id r = i) pub (db_knowledge db2)\<rparr>"
    and got: "get_knowledge t i db' = Inr item"
    using unfolded vis by (auto simp: and_then_Inr split: if_splits)
  have db1: "db_chunks db1 = db_chunks db" "db_knowledge db1 = db_knowledge db"
    using ep by (auto simp: insert_episode_tx_def split: if_splits)
  have "db2 = db1\<lparr>db_chunks := db_chunks db1 @ [chunk]\<rparr>"
    using ins new by (auto simp: insert_chunk_row_def split: if_splits)
  then have "db_chunks db' = db_chunks db @ [chunk]"
    "db_knowledge db' = update_where (\<lambda>r. kn_id r = i) pub (db_knowledge db)"
    by (simp_all add: db' db1)
  with k vis st d w got show thesis by (intro that) (simp_all add: chunk_def pub_def)
qed

lemma find_update_where_pred:
  "(\<And>r. P (f r) = P r) \<Longrightarrow> List.find P (update_where Q f rs) =
     map_option (\<lambda>r. if Q r then f r else r) (List.find P rs)"
  by (induction rs) simp_all

text \<open>
  C6: Publishing passes every promotion gate or changes nothing: a success means a non-empty
  audience, a candidate or eligible item, at least \<open>k_min\<close> distinct entities, and two writers or
  tier-1 evidence; the item is then published and the one new chunk is the entity-free knowledge
  artifact with exactly the given audience and the bucketed tier.
\<close>

theorem publish_knowledge_gates:
  assumes "publish_knowledge uuid_str now fresh t i vis k_min emb db = Inr (item, db')"
  shows "\<exists>k \<in> set (db_knowledge db). kn_tenant_id k = t \<and> kn_id k = i \<and> vis \<noteq> [] \<and>
    (kn_status k = Candidate \<or> kn_status k = Eligible) \<and> k_min \<le> kn_distinct_entities k \<and>
    (2 \<le> kn_writer_count k \<or> kn_has_tier1_evidence k) \<and> ki_status item = Published \<and>
    (\<exists>c. db_chunks db' = db_chunks db @ [c] \<and> ch_kind c = ''knowledge'' \<and> ch_entity_tags c = [] \<and>
         ch_visibility c = vis \<and> ch_content c = kn_statement k \<and>
         ch_support_tier c = map_option support_tier_as_str (support_tier_from_distinct (kn_distinct_entities k)))"
  using assms
proof (rule publish_knowledge_Inr)
  fix k
  assume k: "List.find (\<lambda>k. kn_tenant_id k = t \<and> kn_id k = i) (db_knowledge db) = Some k"
    and gates: "vis \<noteq> []" "kn_status k = Candidate \<or> kn_status k = Eligible"
      "k_min \<le> kn_distinct_entities k" "2 \<le> kn_writer_count k \<or> kn_has_tier1_evidence k"
    and chunks: "db_chunks db' = db_chunks db @ [knowledge_chunk uuid_str now (fresh 1) (fresh 0) k vis emb]"
    and kn: "db_knowledge db' = update_where (\<lambda>r. kn_id r = i)
       (\<lambda>r. r\<lparr>kn_status := Published, kn_published_at := Some now\<rparr>) (db_knowledge db)"
    and got: "get_knowledge t i db' = Inr item"
  have mem: "k \<in> set (db_knowledge db)" "kn_tenant_id k = t" "kn_id k = i"
    using find_Some_filter [OF k] by simp_all
  have "List.find (\<lambda>k. kn_tenant_id k = t \<and> kn_id k = i) (db_knowledge db') =
      Some (k\<lparr>kn_status := Published, kn_published_at := Some now\<rparr>)"
    unfolding kn by (subst find_update_where_pred) (simp_all add: k mem)
  with got have "ki_status item = Published" by (auto simp: get_knowledge_Inr)
  moreover have "ch_support_tier (knowledge_chunk uuid_str now (fresh 1) (fresh 0) k vis emb) =
      map_option support_tier_as_str (support_tier_from_distinct (kn_distinct_entities k))"
    by (simp add: knowledge_chunk_def)
  ultimately show ?thesis using mem gates chunks by auto
qed

definition sample_knowledge :: "knowledge_status \<Rightarrow> knowledge_row" where
  "sample_knowledge st =
     (proposal_row 0 7 \<lparr>kp_tenant_id = 1, kp_statement = ''vendors reply late'', kp_categories = [],
        kp_evidence = [], kp_proposed_by_sub = None, kp_proposed_by_azp = None,
        kp_canonical_statement = None\<rparr> [] None)
     \<lparr>kn_status := st, kn_distinct_entities := 3, kn_writer_count := 1, kn_has_tier1_evidence := True\<rparr>"

theorem publish_knowledge_gates_witness:
  "\<exists>item db'. publish_knowledge (\<lambda>_. ''u'') 60 (\<lambda>j. j + 100) 1 7 [5] 3 None
      (sample_db\<lparr>db_knowledge := [sample_knowledge Candidate]\<rparr>) = Inr (item, db') \<and> ki_status item = Published"
proof -
  let ?r = "publish_knowledge (\<lambda>_. ''u'') 60 (\<lambda>j. j + 100) 1 7 [5] 3 None
      (sample_db\<lparr>db_knowledge := [sample_knowledge Candidate]\<rparr>)"
  have "\<not> isl ?r" by code_simp
  then obtain item db' where r: "?r = Inr (item, db')" by (cases ?r) auto
  from publish_knowledge_gates [OF r] r show ?thesis by blast
qed

text \<open>
  Rejection is remembered: proposing a canonical form (or, without one, the exact statement)
  that a reviewer rejected returns the rejected item and leaves the database unchanged.
\<close>

theorem propose_knowledge_rejection_memory:
  assumes "k \<in> set (db_knowledge db)" "rejected_match p k" "distinct (map kn_id (db_knowledge db))"
  shows "\<exists>item. propose_knowledge now i p db = Inr (item, db) \<and> ki_status item = Rejected"
proof -
  let ?f = "\<lambda>k. case kn_rejected_at k of Some t \<Rightarrow> (0 :: nat, - t) | None \<Rightarrow> (1, 0)"
  let ?xs = "filter (rejected_match p) (db_knowledge db)"
  have "set (sort_key ?f ?xs) \<noteq> {}" using assms(1,2) by auto
  then obtain r rs where s: "sort_key ?f ?xs = r # rs" by (cases "sort_key ?f ?xs") auto
  then have "r \<in> set (sort_key ?f ?xs)" by simp
  then have r: "r \<in> set (db_knowledge db)" "rejected_match p r" by auto
  have mem: "rejected_memory p db = Some r" by (simp add: rejected_memory_def s)
  have "List.find (\<lambda>k. kn_tenant_id k = kp_tenant_id p \<and> kn_id k = kn_id r) (db_knowledge db) = Some r"
  proof (rule filter_unique_find)
    fix x y assume "x \<in> set (db_knowledge db)" "y \<in> set (db_knowledge db)"
      "kn_tenant_id x = kp_tenant_id p \<and> kn_id x = kn_id r"
      "kn_tenant_id y = kp_tenant_id p \<and> kn_id y = kn_id r"
    with assms(3) show "x = y" by (auto simp: distinct_map inj_on_def)
  qed (use r in \<open>auto simp: rejected_match_def\<close>)
  with mem r(2) show ?thesis
    by (simp add: propose_knowledge_def get_knowledge_def rejected_match_def)
qed

definition sample_proposal :: "string \<Rightarrow> knowledge_proposal" where
  "sample_proposal st = \<lparr>kp_tenant_id = 1, kp_statement = st, kp_categories = [],
     kp_evidence = [10, 11], kp_proposed_by_sub = None, kp_proposed_by_azp = None,
     kp_canonical_statement = None\<rparr>"

theorem propose_knowledge_rejection_memory_witness:
  "\<exists>item. propose_knowledge 70 8 (sample_proposal ''vendors reply late'')
     (sample_db\<lparr>db_knowledge := [sample_knowledge Rejected]\<rparr>) =
     Inr (item, sample_db\<lparr>db_knowledge := [sample_knowledge Rejected]\<rparr>) \<and> ki_status item = Rejected"
  by (rule propose_knowledge_rejection_memory [of "sample_knowledge Rejected"]; code_simp)

text \<open>
  A statement that names a known entity is quarantined and stays unpublishable: the proposal
  is stored with the identifier as its reason, and publishing it afterwards is refused whatever
  its support.
\<close>

theorem propose_knowledge_quarantines:
  assumes leak: "leaked (kp_statement p) (lexicon (kp_tenant_id p) db) = Some term"
    and new: "rejected_memory p db = None" "i \<notin> kn_id ` set (db_knowledge db)"
      "kp_tenant_id p \<in> set (db_tenants db)"
  shows "\<exists>item db'. propose_knowledge now i p db = Inr (item, db') \<and> ki_status item = KQuarantined \<and>
    isl (publish_knowledge uuid_str now' fresh (kp_tenant_id p) i vis k_min emb db')"
proof -
  let ?row = "proposal_row now i p (evidence_rows p db) (Some term)"
  let ?db = "db\<lparr>db_knowledge := db_knowledge db @ [?row],
    db_knowledge_evidence := foldl (add_evidence i) (db_knowledge_evidence db) (evidence_rows p db)\<rparr>"
  have "List.find (\<lambda>k. kn_tenant_id k = kp_tenant_id p \<and> kn_id k = i) (db_knowledge db) = None"
    using new(2) by (auto simp: find_None_filter)
  then have found: "List.find (\<lambda>k. kn_tenant_id k = kp_tenant_id p \<and> kn_id k = i) (db_knowledge ?db) = Some ?row"
    by (simp add: find_append proposal_row_def)
  have st: "kn_status ?row = KQuarantined" by (simp add: proposal_row_def)
  have "propose_knowledge now i p db = Inr (row_to_knowledge ?row, ?db)"
    using new leak found by (simp add: propose_knowledge_def insert_proposal_def get_knowledge_def Let_def)
  moreover have "isl (publish_knowledge uuid_str now' fresh (kp_tenant_id p) i vis k_min emb ?db)"
    unfolding publish_knowledge_def found using st by simp
  ultimately show ?thesis using st by (intro exI conjI) (assumption, simp, assumption)
qed

theorem propose_knowledge_quarantines_witness:
  "\<exists>item db'. propose_knowledge 70 8 (sample_proposal ''Acme pays late'') sample_chunks_db = Inr (item, db') \<and>
     ki_status item = KQuarantined \<and> isl (publish_knowledge (\<lambda>_. ''u'') 71 (\<lambda>j. j + 100)
       (kp_tenant_id (sample_proposal ''Acme pays late'')) 8 [5] 3 None db')"
  by (rule propose_knowledge_quarantines [of _ _ "''acme''"]; code_simp)

section \<open>The retraction cascade\<close>

definition without :: "uuid \<Rightarrow> episode_id \<Rightarrow> knowledge_evidence_row list \<Rightarrow> knowledge_evidence_row list" where
  "without kid e rows = filter (\<lambda>r. \<not> (ke_knowledge_id r = kid \<and> ke_episode_id r = e)) rows"

definition support :: "uuid \<Rightarrow> knowledge_evidence_row list \<Rightarrow> nat" where
  "support kid rows = count_distinct ke_entity (filter (\<lambda>r. ke_knowledge_id r = kid) rows)"

definition published_in :: "uuid \<Rightarrow> knowledge_row list \<Rightarrow> bool" where
  "published_in kid ks \<longleftrightarrow> (\<exists>k \<in> set ks. kn_id k = kid \<and> kn_status k = Published)"

definition served_document :: "(uuid \<Rightarrow> string) \<Rightarrow> tenant_id \<Rightarrow> uuid \<Rightarrow> chunk_row \<Rightarrow> bool" where
  "served_document uuid_str t kid c \<longleftrightarrow>
     ch_tenant_id c = t \<and> ch_document_id c = knowledge_document uuid_str kid \<and> chunk_current c"

lemma withdraw_support_evidence:
  "db_knowledge_evidence (withdraw_support us now t e db kid) = without kid e (db_knowledge_evidence db)"
  by (simp add: withdraw_support_def Let_def without_def)

lemma withdraw_support_tables [simp]:
  "db_facts (withdraw_support us now t e db kid) = db_facts db"
  "db_tenants (withdraw_support us now t e db kid) = db_tenants db"
  "db_episodes (withdraw_support us now t e db kid) = db_episodes db"
  by (simp_all add: withdraw_support_def Let_def)

lemma published_in_recount:
  "published_in kid' (update_where (\<lambda>k. kn_id k = kid) (\<lambda>k. k\<lparr>kn_distinct_entities := a, kn_episode_count := b\<rparr>) ks)
   \<longleftrightarrow> published_in kid' ks"
  by (induction ks) (simp_all add: published_in_def)

lemma published_in_invalidate:
  "published_in kid' (update_where (\<lambda>k. kn_id k = kid \<and> kn_status k = Published)
      (\<lambda>k. k\<lparr>kn_status := Invalidated, kn_invalidated_at := a, kn_invalidated_reason := b\<rparr>) ks)
   \<longleftrightarrow> published_in kid' ks \<and> kid' \<noteq> kid"
  by (induction ks) (auto simp: published_in_def)

lemma withdraw_support_published:
  "published_in kid' (db_knowledge (withdraw_support us now t e db kid)) \<longleftrightarrow>
     published_in kid' (db_knowledge db) \<and>
     (kid' = kid \<longrightarrow> 3 \<le> support kid (without kid e (db_knowledge_evidence db)))"
  by (auto simp: withdraw_support_def Let_def published_in_recount published_in_invalidate support_def
      without_def evidence_of_def)

lemma rows_affected_published:
  "0 < rows_affected (\<lambda>k. kn_id k = kid \<and> kn_status k = Published) ks \<longleftrightarrow> published_in kid ks"
  by (auto simp: rows_affected_def published_in_def filter_empty_conv)

lemma withdraw_support_chunks:
  "db_chunks (withdraw_support us now t e db kid) =
     (if support kid (without kid e (db_knowledge_evidence db)) < 3 \<and> published_in kid (db_knowledge db)
      then update_where (served_document us t kid) (close_chunk now) (db_chunks db)
      else db_chunks db)"
proof -
  have "served_document us t kid = (\<lambda>c. ch_tenant_id c = t \<and>
      ch_document_id c = knowledge_document us kid \<and> chunk_current c)"
    by (rule ext) (simp add: served_document_def)
  then show ?thesis
    unfolding withdraw_support_def Let_def rows_affected_published
    by (simp add: published_in_recount support_def without_def evidence_of_def)
qed

lemma served_close_mono:
  "list_all (\<lambda>c. \<not> (C c \<and> chunk_current c)) rows \<Longrightarrow> (\<And>c. C (close_chunk now c) = C c) \<Longrightarrow>
   list_all (\<lambda>c. \<not> (C c \<and> chunk_current c)) (update_where P (close_chunk now) rows)"
  by (induction rows) auto

text \<open>The cascade only ever closes chunks.\<close>

lemma withdraw_support_closed:
  assumes "list_all (\<lambda>c. \<not> (C c \<and> chunk_current c)) (db_chunks db)" "\<And>c. C (close_chunk now c) = C c"
  shows "list_all (\<lambda>c. \<not> (C c \<and> chunk_current c)) (db_chunks (withdraw_support us now t e db kid))"
  unfolding withdraw_support_chunks using served_close_mono [OF assms] assms(1) by simp

lemma support_without_other: "kid' \<noteq> kid \<Longrightarrow> support kid' (without kid e rows) = support kid' rows"
  by (simp add: support_def without_def) (metis (no_types, lifting) filter_cong)

text \<open>What the cascade establishes for each item it visits.\<close>

definition withdrawn :: "(uuid \<Rightarrow> string) \<Rightarrow> tenant_id \<Rightarrow> episode_id \<Rightarrow> bool \<Rightarrow> uuid \<Rightarrow> database \<Rightarrow> bool" where
  "withdrawn us t e was_published kid db \<longleftrightarrow>
     list_all (\<lambda>r. \<not> (ke_knowledge_id r = kid \<and> ke_episode_id r = e)) (db_knowledge_evidence db) \<and>
     (published_in kid (db_knowledge db) \<longrightarrow> 3 \<le> support kid (db_knowledge_evidence db)) \<and>
     (was_published \<longrightarrow> published_in kid (db_knowledge db) \<or>
        list_all (\<lambda>c. \<not> served_document us t kid c) (db_chunks db))"

definition fate :: "(uuid \<Rightarrow> string) \<Rightarrow> tenant_id \<Rightarrow> bool \<Rightarrow> uuid \<Rightarrow> database \<Rightarrow> bool" where
  "fate us t was_published kid db \<longleftrightarrow>
     (was_published \<longrightarrow> published_in kid (db_knowledge db) \<or>
        list_all (\<lambda>c. \<not> served_document us t kid c) (db_chunks db))"

lemma served_document_split:
  "served_document us t kid c \<longleftrightarrow>
     (ch_tenant_id c = t \<and> ch_document_id c = knowledge_document us kid) \<and> chunk_current c"
  by (auto simp: served_document_def)

lemma list_all_closed:
  "(\<And>r. R r \<Longrightarrow> P r) \<Longrightarrow> (\<And>r. \<not> R (f r)) \<Longrightarrow> list_all (\<lambda>r. \<not> R r) (update_where P f rs)"
  by (induction rs) auto

lemma fate_step:
  assumes "fate us t w kid' db"
  shows "fate us t w kid' (withdraw_support us now t e db kid)"
proof (cases "w \<and> list_all (\<lambda>c. \<not> served_document us t kid' c) (db_chunks db)")
  case True
  let ?C = "\<lambda>c. ch_tenant_id c = t \<and> ch_document_id c = knowledge_document us kid'"
  from True have "list_all (\<lambda>c. \<not> (?C c \<and> chunk_current c)) (db_chunks db)"
    by (simp only: served_document_split)
  then have "list_all (\<lambda>c. \<not> (?C c \<and> chunk_current c)) (db_chunks (withdraw_support us now t e db kid))"
    by (rule withdraw_support_closed) simp
  then show ?thesis unfolding fate_def served_document_split by blast
next
  case False
  with assms have pub: "w \<longrightarrow> published_in kid' (db_knowledge db)" by (auto simp: fate_def)
  show ?thesis
  proof (cases "kid' = kid \<and> support kid (without kid e (db_knowledge_evidence db)) < 3")
    case True
    have "list_all (\<lambda>c. \<not> served_document us t kid c)
        (update_where (served_document us t kid) (close_chunk now) (db_chunks db))"
      by (rule list_all_closed) (simp_all add: served_document_def)
    with True pub show ?thesis by (auto simp: fate_def withdraw_support_chunks)
  next
    case False
    with pub show ?thesis by (auto simp: fate_def withdraw_support_published)
  qed
qed

lemma withdrawn_here:
  assumes "fate us t w kid db"
  shows "withdrawn us t e w kid (withdraw_support us now t e db kid)"
  using fate_step [OF assms, of now e kid]
  by (auto simp: withdrawn_def fate_def withdraw_support_evidence withdraw_support_published without_def list_all_iff)

lemma withdrawn_kept:
  assumes "withdrawn us t e w kid' db" "kid' \<noteq> kid"
  shows "withdrawn us t e w kid' (withdraw_support us now t e db kid)"
proof -
  have "fate us t w kid' db" using assms(1) by (simp add: withdrawn_def fate_def)
  from fate_step [OF this, of now e kid] assms show ?thesis
    by (auto simp: withdrawn_def fate_def withdraw_support_evidence withdraw_support_published
        support_without_other) (auto simp: without_def list_all_iff)
qed

lemma cascade_withdrawn:
  assumes "\<And>kid. fate us t (w kid) kid db" "\<And>kid. kid \<in> D \<Longrightarrow> withdrawn us t e (w kid) kid db"
    and "kid \<in> set kids \<union> D"
  shows "withdrawn us t e (w kid) kid (foldl (withdraw_support us now t e) db kids)"
  using assms
proof (induction kids arbitrary: db D)
  case (Cons x kids)
  let ?db = "withdraw_support us now t e db x"
  have "withdrawn us t e (w k) k ?db" if "k \<in> insert x D" for k
  proof (cases "k = x")
    case True
    with withdrawn_here [OF Cons.prems(1)] show ?thesis by simp
  next
    case False
    with that Cons.prems(2) show ?thesis by (intro withdrawn_kept) auto
  qed
  with Cons.IH [of ?db "insert x D"] fate_step [OF Cons.prems(1)] Cons.prems(3) show ?case by auto
qed simp

lemma cascade_closed:
  assumes "list_all (\<lambda>c. \<not> (C c \<and> chunk_current c)) (db_chunks db)" "\<And>c. C (close_chunk now c) = C c"
  shows "list_all (\<lambda>c. \<not> (C c \<and> chunk_current c))
    (db_chunks (foldl (withdraw_support us now t e) db kids))"
  using assms(1)
proof (induction kids arbitrary: db)
  case (Cons kid kids)
  from Cons.IH [OF withdraw_support_closed [OF Cons.prems assms(2)]] show ?case by simp
qed simp

lemma cascade_facts [simp]:
  "db_facts (foldl (withdraw_support us now t e) db kids) = db_facts db"
  "db_tenants (foldl (withdraw_support us now t e) db kids) = db_tenants db"
  "db_episodes (foldl (withdraw_support us now t e) db kids) = db_episodes db"
  by (induction kids arbitrary: db) simp_all

lemma forget_episode_facts:
  "db_facts (snd (forget us now t (ForgetEpisode e) db)) =
     update_where (\<lambda>r. fr_tenant_id r = t \<and> fr_provenance r = e \<and> is_current r) (close_fact_at now) (db_facts db)"
  "db_tenants (snd (forget us now t (ForgetEpisode e) db)) = db_tenants db"
  "db_episodes (snd (forget us now t (ForgetEpisode e) db)) = db_episodes db"
  by (simp_all add: Let_def)

lemma forget_chunk_facts:
  "db_facts (snd (forget us now t (ForgetChunk i) db)) = db_facts db"
  "db_tenants (snd (forget us now t (ForgetChunk i) db)) = db_tenants db"
  "db_episodes (snd (forget us now t (ForgetChunk i) db)) = db_episodes db"
  by (simp_all add: Let_def)

lemma close_fact_at_sel [simp]:
  "fr_id (close_fact_at now r) = fr_id r" "fr_tenant_id (close_fact_at now r) = fr_tenant_id r"
  "fr_key (close_fact_at now r) = fr_key r" "fr_provenance (close_fact_at now r) = fr_provenance r"
  "\<not> is_current (close_fact_at now r)" "of_key t k (close_fact_at now r) = of_key t k r"
  by (simp_all add: close_fact_at_def is_current_def of_key_def)

lemma facts_ok_forget [verity_inv]:
  assumes "facts_ok db"
  shows "facts_ok (snd (forget us now t r db))"
proof (cases r)
  case (ForgetChunk i)
  with assms show ?thesis
    unfolding facts_ok_def ForgetChunk forget_chunk_facts by simp
next
  case (ForgetEpisode e)
  show ?thesis
    by (rule facts_ok_close [OF assms, where f = "close_fact_at now" and
          P = "\<lambda>r. fr_tenant_id r = t \<and> fr_provenance r = e \<and> is_current r"])
      (unfold ForgetEpisode forget_episode_facts, simp_all)
qed

text \<open>
  C5: Forgetting an episode withdraws everything derived from it: no chunk or fact of the tenant
  that it produced stays current, no item of the tenant keeps it as evidence, an item it supported
  is still published only with at least three distinct entities left, and a published item that
  lost its support has no current chunk left to serve.
\<close>

theorem forget_episode_cascade:
  assumes "forget us now t (ForgetEpisode e) db = (n, db')"
  shows "list_all (\<lambda>c. \<not> ((ch_tenant_id c = t \<and> ch_provenance c = e) \<and> chunk_current c)) (db_chunks db') \<and>
    list_all (\<lambda>r. \<not> (fr_tenant_id r = t \<and> fr_provenance r = e \<and> is_current r)) (db_facts db') \<and>
    (\<forall>kid \<in> set (supported_by t e db).
       list_all (\<lambda>r. \<not> (ke_knowledge_id r = kid \<and> ke_episode_id r = e)) (db_knowledge_evidence db') \<and>
       (published_in kid (db_knowledge db') \<longrightarrow> 3 \<le> support kid (db_knowledge_evidence db')) \<and>
       (published_in kid (db_knowledge db) \<longrightarrow> published_in kid (db_knowledge db') \<or>
          list_all (\<lambda>c. \<not> served_document us t kid c) (db_chunks db')))"
proof -
  let ?P = "\<lambda>c. ch_tenant_id c = t \<and> ch_provenance c = e \<and> chunk_current c"
  let ?Q = "\<lambda>r. fr_tenant_id r = t \<and> fr_provenance r = e \<and> is_current r"
  define db1 where "db1 = db\<lparr>db_chunks := update_where ?P (close_chunk now) (db_chunks db),
    db_facts := update_where ?Q (close_fact_at now) (db_facts db)\<rparr>"
  have rows1: "db_chunks db1 = update_where ?P (close_chunk now) (db_chunks db)"
    "db_facts db1 = update_where ?Q (close_fact_at now) (db_facts db)" by (simp_all add: db1_def)
  have sup: "supported_by t e db1 = supported_by t e db" and kn: "db_knowledge db1 = db_knowledge db"
    by (simp_all add: supported_by_def db1_def)
  have db': "db' = foldl (withdraw_support us now t e) db1 (supported_by t e db)"
    using assms by (simp add: Let_def db1_def [symmetric] sup)
  have "list_all (\<lambda>c. \<not> ((ch_tenant_id c = t \<and> ch_provenance c = e) \<and> chunk_current c)) (db_chunks db1)"
    unfolding rows1 by (rule list_all_closed) simp_all
  then have chunks: "list_all (\<lambda>c. \<not> ((ch_tenant_id c = t \<and> ch_provenance c = e) \<and> chunk_current c)) (db_chunks db')"
    unfolding db' by (rule cascade_closed) simp
  have facts: "list_all (\<lambda>r. \<not> ?Q r) (db_facts db')"
    unfolding db' cascade_facts rows1 by (rule list_all_closed) simp_all
  have "withdrawn us t e (published_in kid (db_knowledge db)) kid db'" if "kid \<in> set (supported_by t e db)" for kid
    unfolding db'
    by (rule cascade_withdrawn [where D = "{}" and w = "\<lambda>k. published_in k (db_knowledge db)"])
      (use that in \<open>simp_all add: fate_def kn\<close>)
  with chunks facts show ?thesis unfolding withdrawn_def by blast
qed

definition sample_support :: "uuid \<Rightarrow> uuid \<Rightarrow> string \<Rightarrow> knowledge_evidence_row" where
  "sample_support k e entity = \<lparr>ke_knowledge_id = k, ke_episode_id = e, ke_entity = Some entity,
     ke_writer_azp = Some ''a'', ke_trust_tier = (if e = 10 then 1 else 2)\<rparr>"

definition sample_support_db :: "knowledge_status \<Rightarrow> database" where
  "sample_support_db st = sample_db\<lparr>db_knowledge := [sample_knowledge st],
     db_knowledge_evidence := [sample_support 7 10 ''acme'', sample_support 7 11 ''beta'',
       sample_support 7 12 ''gamma'', sample_support 7 13 ''delta'']\<rparr>"

theorem forget_episode_cascade_witness:
  "\<exists>n db'. forget (\<lambda>_. ''u'') 80 1 (ForgetEpisode 10) (sample_support_db Published) = (n, db') \<and>
    7 \<in> set (supported_by 1 10 (sample_support_db Published)) \<and>
    list_all (\<lambda>r. \<not> (ke_knowledge_id r = 7 \<and> ke_episode_id r = 10)) (db_knowledge_evidence db')"
proof -
  obtain n db' where f: "forget (\<lambda>_. ''u'') 80 1 (ForgetEpisode 10) (sample_support_db Published) = (n, db')"
    by fastforce
  have "7 \<in> set (supported_by 1 10 (sample_support_db Published))" by code_simp
  with forget_episode_cascade [OF f] f show ?thesis by blast
qed

text \<open>
  The cascade recounts entities and episodes only: after the one tier-1 episode behind a
  candidate is forgotten, the item still counts as tier-1 backed and is published although its
  remaining evidence has a single writer and no tier-1 episode.
\<close>

theorem forget_keeps_stale_corroboration:
  "\<exists>n db' item db''.
     forget (\<lambda>_. ''u'') 80 1 (ForgetEpisode 10) (sample_support_db Candidate) = (n, db') \<and>
     count_distinct ke_writer_azp (evidence_of 7 db') = 1 \<and>
     list_all (\<lambda>r. ke_trust_tier r \<noteq> 1) (evidence_of 7 db') \<and>
     publish_knowledge (\<lambda>_. ''u'') 81 (\<lambda>j. j + 100) 1 7 [5] 3 None db' = Inr (item, db'') \<and>
     ki_status item = Published"
proof -
  obtain n db' where f: "forget (\<lambda>_. ''u'') 80 1 (ForgetEpisode 10) (sample_support_db Candidate) = (n, db')"
    by fastforce
  have "let db' = snd (forget (\<lambda>_. ''u'') 80 1 (ForgetEpisode 10) (sample_support_db Candidate)) in
    count_distinct ke_writer_azp (evidence_of 7 db') = 1 \<and>
    list_all (\<lambda>r. ke_trust_tier r \<noteq> 1) (evidence_of 7 db') \<and>
    (case publish_knowledge (\<lambda>_. ''u'') 81 (\<lambda>j. j + 100) 1 7 [5] 3 None db' of
       Inr (item, _) \<Rightarrow> ki_status item = Published | Inl _ \<Rightarrow> False)" by code_simp
  note this [unfolded f snd_conv Let_def]
  then have c: "count_distinct ke_writer_azp (evidence_of 7 db') = 1"
    "list_all (\<lambda>r. ke_trust_tier r \<noteq> 1) (evidence_of 7 db')"
    "case publish_knowledge (\<lambda>_. ''u'') 81 (\<lambda>j. j + 100) 1 7 [5] 3 None db' of
       Inr (item, _) \<Rightarrow> ki_status item = Published | Inl _ \<Rightarrow> False" by blast+
  from c(3) obtain item db'' where
    "publish_knowledge (\<lambda>_. ''u'') 81 (\<lambda>j. j + 100) 1 7 [5] 3 None db' = Inr (item, db'')"
    "ki_status item = Published" by (auto split: sum.splits)
  with f c(1,2) show ?thesis by blast
qed

end
