(* ===== verification/Fact_Cache.thy ===== *)
theory Fact_Cache
  imports Knowledge_Store
begin

text \<open>
  The in-process fact cache \<^verbatim>\<open>CachedAdapter\<close> (\<^verbatim>\<open>crates/verity-storage/src/cache.rs\<close>) over a
  backend: reads through a scope-independent cache, write-through invalidation. The adapter is
  generic in its inner storage, as in the source; the locale \<open>fact_backend\<close> states what it relies
  on and proves coherence once, and the Postgres model is shown to provide it.
\<close>

section \<open>The adapter\<close>

type_synonym fact_cache = "tenant_id \<times> fact_key \<Rightarrow> fact_row option"

record 'db cached_adapter =
  ca_inner :: 'db
  ca_facts :: fact_cache

definition new_cache :: "'db \<Rightarrow> 'db cached_adapter" where
  "new_cache inner = \<lparr>ca_inner = inner, ca_facts = Map.empty\<rparr>"

definition flush_facts :: "'db cached_adapter \<Rightarrow> 'db cached_adapter" where
  "flush_facts st = st\<lparr>ca_facts := Map.empty\<rparr>"

text \<open>The bounded cache may drop any entry at any time.\<close>

definition evict :: "tenant_id \<times> fact_key \<Rightarrow> 'db cached_adapter \<Rightarrow> 'db cached_adapter" where
  "evict tk st = st\<lparr>ca_facts := (ca_facts st)(tk := None)\<rparr>"

definition visible_only :: "scope \<Rightarrow> fact_row option \<Rightarrow> fact_row option" where
  "visible_only sc r = (case r of None \<Rightarrow> None | Some f \<Rightarrow> if fact_visible sc f then Some f else None)"

definition after_upsert ::
  "fact_upsert_outcome \<Rightarrow> tenant_id \<times> fact_key \<Rightarrow> 'db cached_adapter \<Rightarrow> 'db cached_adapter" where
  "after_upsert outcome tk st = (if outcome = Inserted \<or> outcome = Superseded then evict tk st else st)"

definition cached_upsert_fact ::
  "(fact_write \<Rightarrow> 'db \<Rightarrow> storage_error + (fact_upsert_outcome \<times> 'db)) \<Rightarrow> fact_write
   \<Rightarrow> 'db cached_adapter \<Rightarrow> storage_error + (fact_upsert_outcome \<times> 'db cached_adapter)" where
  "cached_upsert_fact upsert w st =
     and_then (upsert w (ca_inner st)) (\<lambda>(outcome, db').
       Inr (outcome, after_upsert outcome (fw_tenant_id w, fw_key w) (st\<lparr>ca_inner := db'\<rparr>)))"

text \<open>
  A read is a lookup and, on a miss, two separate moments: the awaited fetch from the inner
  adapter and the fill of the cache with what it returned.
\<close>

definition cache_lookup :: "scope \<Rightarrow> fact_key \<Rightarrow> 'db cached_adapter \<Rightarrow> fact_row option" where
  "cache_lookup sc k st = ca_facts st (sc_tenant_id sc, k)"

definition cache_fill ::
  "scope \<Rightarrow> fact_key \<Rightarrow> fact_row option \<Rightarrow> 'db cached_adapter \<Rightarrow> fact_row option \<times> 'db cached_adapter" where
  "cache_fill sc k row st =
     (visible_only sc row,
      case row of None \<Rightarrow> st
      | Some f \<Rightarrow> st\<lparr>ca_facts := (ca_facts st)((sc_tenant_id sc, k) \<mapsto> f)\<rparr>)"

definition cached_current_fact ::
  "(scope \<Rightarrow> fact_key \<Rightarrow> 'db \<Rightarrow> fact_row option) \<Rightarrow> scope \<Rightarrow> fact_key \<Rightarrow> 'db cached_adapter
   \<Rightarrow> fact_row option \<times> 'db cached_adapter" where
  "cached_current_fact read sc k st =
     (case cache_lookup sc k st of
        Some hit \<Rightarrow> (visible_only sc (Some hit), st)
      | None \<Rightarrow> cache_fill sc k (read sc k (ca_inner st)) st)"

definition cached_fact_as_of ::
  "(scope \<Rightarrow> fact_key \<Rightarrow> instant \<Rightarrow> 'db \<Rightarrow> fact_row option) \<Rightarrow> scope \<Rightarrow> fact_key \<Rightarrow> instant
   \<Rightarrow> 'db cached_adapter \<Rightarrow> fact_row option" where
  "cached_fact_as_of read_at sc k t st = visible_only sc (read_at sc k t (ca_inner st))"

definition after_retire :: "nat \<Rightarrow> 'db cached_adapter \<Rightarrow> 'db cached_adapter" where
  "after_retire retired st = (if 0 < retired then flush_facts st else st)"

definition cached_retire_entity ::
  "('db \<Rightarrow> nat \<times> 'db) \<Rightarrow> 'db cached_adapter \<Rightarrow> nat \<times> 'db cached_adapter" where
  "cached_retire_entity retire st =
     (let (retired, db') = retire (ca_inner st) in (retired, after_retire retired (st\<lparr>ca_inner := db'\<rparr>)))"

definition after_forget :: "nat \<Rightarrow> forget_ref \<Rightarrow> 'db cached_adapter \<Rightarrow> 'db cached_adapter" where
  "after_forget retired r st =
     (if 0 < retired \<and> (case r of ForgetEpisode _ \<Rightarrow> True | ForgetChunk _ \<Rightarrow> False)
      then flush_facts st else st)"

definition cached_forget ::
  "(forget_ref \<Rightarrow> 'db \<Rightarrow> nat \<times> 'db) \<Rightarrow> forget_ref \<Rightarrow> 'db cached_adapter \<Rightarrow> nat \<times> 'db cached_adapter" where
  "cached_forget forget_inner r st =
     (let (retired, db') = forget_inner r (ca_inner st)
      in (retired, after_forget retired r (st\<lparr>ca_inner := db'\<rparr>)))"

text \<open>Every other operation passes through to the inner adapter and leaves the cache alone.\<close>

definition pass_through :: "('db \<Rightarrow> 'db) \<Rightarrow> 'db cached_adapter \<Rightarrow> 'db cached_adapter" where
  "pass_through f st = st\<lparr>ca_inner := f (ca_inner st)\<rparr>"

text \<open>
  \<^verbatim>\<open>dispatch_acl_correction\<close> reaches the inner adapter: the correction is not seen by the cache.
\<close>

definition inner_correct_fact_acl ::
  "uuid \<Rightarrow> tenant_id \<Rightarrow> fact_key \<Rightarrow> principal_token list \<Rightarrow> confidentiality \<Rightarrow> acl_correction_reason
   \<Rightarrow> acl_provenance \<Rightarrow> string option \<Rightarrow> database cached_adapter
   \<Rightarrow> storage_error + (nat \<times> database cached_adapter)" where
  "inner_correct_fact_acl a t k vis conf reason prov cb st =
     and_then (correct_fact_acl a t k vis conf reason prov cb (ca_inner st))
       (\<lambda>(n, db'). Inr (n, st\<lparr>ca_inner := db'\<rparr>))"

section \<open>Interleaved operations\<close>

text \<open>
  The adapter is called concurrently and every call awaits the inner adapter, so the moments of
  different calls interleave: a miss fetches now and fills later, and a write commits now and
  invalidates later. The running adapter is therefore the adapter with the calls in flight.

  \<^item> \<open>cr_fetches\<close>: misses that have fetched a row and not yet filled the cache, each with a mark
    telling whether a committed change of that key's current row has overtaken it;
  \<^item> \<open>cr_writes\<close>: writes that have committed and not yet invalidated, each with the keys whose
    current row it changed;
  \<^item> \<open>cr_behind\<close>: cached keys whose row was changed behind the cache, through \<^verbatim>\<open>inner()\<close>, or was
    filled by an overtaken fetch; a key leaves when its entry does.

  The marks, the key sets and \<open>cr_behind\<close> are bookkeeping of the proof: no operation reads them.
\<close>

type_synonym cache_key = "tenant_id \<times> fact_key"

record pending_fetch =
  pf_scope :: scope
  pf_key :: fact_key
  pf_row :: fact_row
  pf_overtaken :: bool

datatype pending_write =
    PendUpsert fact_upsert_outcome cache_key
  | PendRetire nat
  | PendForget nat forget_ref
  | PendPurge

record 'db cache_run =
  cr_adapter :: "'db cached_adapter"
  cr_fetches :: "pending_fetch list"
  cr_writes :: "(cache_key set \<times> pending_write) list"
  cr_behind :: "cache_key set"

definition start_run :: "'db cached_adapter \<Rightarrow> 'db cache_run" where
  "start_run ad = \<lparr>cr_adapter = ad, cr_fetches = [], cr_writes = [], cr_behind = {}\<rparr>"

abbreviation run_inner :: "'db cache_run \<Rightarrow> 'db" where
  "run_inner st \<equiv> ca_inner (cr_adapter st)"

definition cached_keys :: "'db cached_adapter \<Rightarrow> cache_key set" where
  "cached_keys ad = {tk. ca_facts ad tk \<noteq> None}"

definition fetch_key :: "pending_fetch \<Rightarrow> cache_key" where
  "fetch_key p = (sc_tenant_id (pf_scope p), pf_key p)"

definition overtake :: "cache_key set \<Rightarrow> pending_fetch \<Rightarrow> pending_fetch" where
  "overtake T p = (if fetch_key p \<in> T then p\<lparr>pf_overtaken := True\<rparr> else p)"

definition begin_fetch :: "scope \<Rightarrow> fact_key \<Rightarrow> fact_row \<Rightarrow> 'db cache_run \<Rightarrow> 'db cache_run" where
  "begin_fetch sc k f st = st\<lparr>cr_fetches :=
     \<lparr>pf_scope = sc, pf_key = k, pf_row = f, pf_overtaken = False\<rparr> # cr_fetches st\<rparr>"

definition end_fetch :: "pending_fetch \<Rightarrow> pending_fetch list \<Rightarrow> 'db cache_run \<Rightarrow> 'db cache_run" where
  "end_fetch p rest st = st\<lparr>
     cr_adapter := snd (cache_fill (pf_scope p) (pf_key p) (Some (pf_row p)) (cr_adapter st)),
     cr_fetches := rest,
     cr_behind := (if pf_overtaken p then insert (fetch_key p) (cr_behind st)
                   else cr_behind st - {fetch_key p})\<rparr>"

text \<open>\<open>T\<close> is the set of keys whose current row differs between the two database states.\<close>

definition commit_write ::
  "cache_key set \<Rightarrow> 'db \<Rightarrow> pending_write \<Rightarrow> 'db cache_run \<Rightarrow> 'db cache_run" where
  "commit_write T db' p st = st\<lparr>
     cr_adapter := (cr_adapter st)\<lparr>ca_inner := db'\<rparr>,
     cr_fetches := map (overtake T) (cr_fetches st),
     cr_writes := (T, p) # cr_writes st\<rparr>"

definition write_behind :: "cache_key set \<Rightarrow> 'db \<Rightarrow> 'db cache_run \<Rightarrow> 'db cache_run" where
  "write_behind T db' st = st\<lparr>
     cr_adapter := (cr_adapter st)\<lparr>ca_inner := db'\<rparr>,
     cr_fetches := map (overtake T) (cr_fetches st),
     cr_behind := cr_behind st \<union> (T \<inter> cached_keys (cr_adapter st))\<rparr>"

fun invalidation :: "pending_write \<Rightarrow> 'db cached_adapter \<Rightarrow> 'db cached_adapter" where
  "invalidation (PendUpsert oc tk) ad = after_upsert oc tk ad"
| "invalidation (PendRetire n) ad = after_retire n ad"
| "invalidation (PendForget n r) ad = after_forget n r ad"
| "invalidation PendPurge ad = flush_facts ad"

definition end_write ::
  "pending_write \<Rightarrow> (cache_key set \<times> pending_write) list \<Rightarrow> 'db cache_run \<Rightarrow> 'db cache_run" where
  "end_write p rest st = st\<lparr>
     cr_adapter := invalidation p (cr_adapter st),
     cr_writes := rest,
     cr_behind := cr_behind st \<inter> cached_keys (invalidation p (cr_adapter st))\<rparr>"

definition drop_entry :: "cache_key \<Rightarrow> 'db cache_run \<Rightarrow> 'db cache_run" where
  "drop_entry tk st = st\<lparr>cr_adapter := evict tk (cr_adapter st), cr_behind := cr_behind st - {tk}\<rparr>"

text \<open>The keys for which a cached read may differ from the store's.\<close>

definition suspect :: "'db cache_run \<Rightarrow> cache_key set" where
  "suspect st = cr_behind st \<union> (\<Union>(T, p) \<in> set (cr_writes st). T)"

lemma adapter_inner [simp]:
  "ca_inner (evict tk ad) = ca_inner ad" "ca_inner (flush_facts ad) = ca_inner ad"
  "ca_inner (after_upsert oc tk ad) = ca_inner ad" "ca_inner (after_retire n ad) = ca_inner ad"
  "ca_inner (after_forget n r ad) = ca_inner ad" "ca_inner (invalidation p ad) = ca_inner ad"
  "ca_inner (snd (cache_fill sc k row ad)) = ca_inner ad"
  by (simp_all add: evict_def flush_facts_def after_upsert_def after_retire_def after_forget_def cache_fill_def
      split: option.split)
    (cases p; simp add: evict_def flush_facts_def after_upsert_def after_retire_def after_forget_def)

lemma invalidation_facts: "ca_facts (invalidation p ad) tk = Some r \<Longrightarrow> ca_facts ad tk = Some r"
  by (cases p) (auto simp: evict_def flush_facts_def after_upsert_def after_retire_def after_forget_def
      split: if_splits)

lemma fetch_key_overtake [simp]: "fetch_key (overtake T p) = fetch_key p" "pf_row (overtake T p) = pf_row p"
  by (simp_all add: overtake_def fetch_key_def)

lemma overtaken_iff: "pf_overtaken (overtake T p) \<longleftrightarrow> pf_overtaken p \<or> fetch_key p \<in> T"
  by (simp add: overtake_def)

section \<open>What the cache relies on\<close>

text \<open>
  A backend has a register of current rows, each filed under its own key; its scoped read is the
  register behind \<open>fact_visible\<close>; a write touches its own key only, and only when it reports an insertion or a
  supersession; a retirement that reports no row leaves the register alone.
\<close>

locale fact_backend =
  fixes ok :: "'db \<Rightarrow> bool"
    and register :: "'db \<Rightarrow> tenant_id \<times> fact_key \<Rightarrow> fact_row option"
    and read :: "scope \<Rightarrow> fact_key \<Rightarrow> 'db \<Rightarrow> fact_row option"
    and upsert :: "instant \<Rightarrow> uuid \<Rightarrow> fact_write \<Rightarrow> 'db \<Rightarrow> storage_error + (fact_upsert_outcome \<times> 'db)"
    and retire :: "tenant_id \<Rightarrow> string \<Rightarrow> string \<Rightarrow> instant \<Rightarrow> 'db \<Rightarrow> nat \<times> 'db"
    and forget_inner :: "instant \<Rightarrow> tenant_id \<Rightarrow> forget_ref \<Rightarrow> 'db \<Rightarrow> nat \<times> 'db"
  assumes read_gated: "ok db \<Longrightarrow> read sc k db = visible_only sc (register db (sc_tenant_id sc, k))"
    and register_key: "ok db \<Longrightarrow> register db tk = Some row \<Longrightarrow> of_key (fst tk) (snd tk) row"
    and upsert_ok: "ok db \<Longrightarrow> upsert now i w db = Inr (oc, db') \<Longrightarrow> ok db'"
    and upsert_other: "ok db \<Longrightarrow> upsert now i w db = Inr (oc, db') \<Longrightarrow>
      tk \<noteq> (fw_tenant_id w, fw_key w) \<or> oc = Unchanged \<or> oc = StaleEvent \<Longrightarrow> register db' tk = register db tk"
    and retire_ok: "ok db \<Longrightarrow> retire t s e da db = (n, db') \<Longrightarrow> ok db'"
    and retire_none: "ok db \<Longrightarrow> retire t s e da db = (0, db') \<Longrightarrow> register db' = register db"
    and forget_ok: "ok db \<Longrightarrow> forget_inner now t r db = (n, db') \<Longrightarrow> ok db'"
    and forget_none: "ok db \<Longrightarrow> forget_inner now t (ForgetEpisode ep) db = (0, db') \<Longrightarrow> register db' = register db"
    and forget_chunk: "ok db \<Longrightarrow> forget_inner now t (ForgetChunk i) db = (n, db') \<Longrightarrow> register db' = register db"
begin

definition changed :: "'db \<Rightarrow> 'db \<Rightarrow> cache_key set" where
  "changed db db' = {tk. register db' tk \<noteq> register db tk}"

text \<open>An invalidation drops every key its write changed.\<close>

definition covers :: "cache_key set \<Rightarrow> pending_write \<Rightarrow> bool" where
  "covers T p \<longleftrightarrow> (\<forall>ad tk. tk \<in> T \<longrightarrow> ca_facts (invalidation p (ad :: 'db cached_adapter)) tk = None)"

definition coherent :: "'db cache_run \<Rightarrow> bool" where
  "coherent st \<longleftrightarrow> ok (run_inner st)
     \<and> (\<forall>tk r. ca_facts (cr_adapter st) tk = Some r \<longrightarrow> of_key (fst tk) (snd tk) r)
     \<and> (\<forall>tk r. ca_facts (cr_adapter st) tk = Some r \<longrightarrow> tk \<notin> suspect st \<longrightarrow> register (run_inner st) tk = Some r)
     \<and> (\<forall>p \<in> set (cr_fetches st). of_key (fst (fetch_key p)) (snd (fetch_key p)) (pf_row p))
     \<and> (\<forall>p \<in> set (cr_fetches st). \<not> pf_overtaken p \<longrightarrow> register (run_inner st) (fetch_key p) = Some (pf_row p))
     \<and> (\<forall>(T, p) \<in> set (cr_writes st). covers T p)"

lemma coherent_start: "ok db \<Longrightarrow> coherent (start_run (new_cache db))"
  by (simp add: coherent_def start_run_def new_cache_def)

lemma coherent_drop: "coherent st \<Longrightarrow> coherent (drop_entry tk st)"
  by (auto simp: coherent_def drop_entry_def suspect_def evict_def)

lemma read_register: "ok db \<Longrightarrow> read sc k db = Some f \<Longrightarrow> register db (sc_tenant_id sc, k) = Some f"
  by (auto simp: read_gated visible_only_def split: option.splits if_splits)

lemma coherent_begin_fetch:
  assumes "coherent st" "read sc k (run_inner st) = Some f"
  shows "coherent (begin_fetch sc k f st)"
  using assms read_register [OF _ assms(2)] register_key
  by (auto simp: coherent_def begin_fetch_def suspect_def fetch_key_def)

lemma coherent_end_fetch:
  assumes st: "coherent st" and p: "cr_fetches st = ps @ p # qs"
  shows "coherent (end_fetch p (ps @ qs) st)"
proof -
  have fill: "ca_facts (snd (cache_fill (pf_scope p) (pf_key p) (Some (pf_row p)) (cr_adapter st))) =
      (ca_facts (cr_adapter st))(fetch_key p \<mapsto> pf_row p)"
    by (simp add: cache_fill_def fetch_key_def)
  show ?thesis
    using st unfolding coherent_def end_fetch_def suspect_def p
    by (auto simp: fill simp del: split_paired_All)
qed

lemma coherent_db:
  assumes "coherent st" "ok db'"
  shows "coherent (write_behind (changed (run_inner st) db') db' st)"
  using assms
  by (auto simp: coherent_def write_behind_def suspect_def changed_def cached_keys_def overtaken_iff)

lemma coherent_commit:
  assumes "coherent st" "ok db'" "covers (changed (run_inner st) db') p"
  shows "coherent (commit_write (changed (run_inner st) db') db' p st)"
  using assms
  by (auto simp: coherent_def commit_write_def suspect_def changed_def overtaken_iff)

lemma coherent_end_write:
  assumes st: "coherent st" and w: "cr_writes st = ws @ (T, p) # vs"
  shows "coherent (end_write p (ws @ vs) st)"
proof -
  have "covers T p" using st w by (auto simp: coherent_def)
  then have gone: "tk \<notin> T" if "ca_facts (invalidation p (cr_adapter st)) tk = Some r" for tk r
    using that unfolding covers_def by (metis option.distinct(1))
  show ?thesis
    using st gone unfolding coherent_def end_write_def suspect_def w
    by (simp add: cached_keys_def del: split_paired_All) (blast dest: invalidation_facts)
qed

lemma covers_upsert:
  assumes "ok db" "upsert now i w db = Inr (oc, db')"
  shows "covers (changed db db') (PendUpsert oc (fw_tenant_id w, fw_key w))"
proof -
  have "changed db db' \<subseteq> {(fw_tenant_id w, fw_key w)}" using upsert_other [OF assms] by (auto simp: changed_def)
  moreover have "changed db db' = {}" if "oc = Unchanged \<or> oc = StaleEvent"
    using upsert_other [OF assms] that by (auto simp: changed_def)
  ultimately show ?thesis
    by (cases oc) (auto simp: covers_def after_upsert_def evict_def)
qed

lemma covers_retire:
  assumes "ok db" "retire t s e da db = (n, db')"
  shows "covers (changed db db') (PendRetire n)"
  using retire_none [OF assms(1), of t s e da db'] assms(2)
  by (cases "n = 0") (auto simp: covers_def changed_def after_retire_def flush_facts_def)

lemma covers_forget:
  assumes "ok db" "forget_inner now t r db = (n, db')"
  shows "covers (changed db db') (PendForget n r)"
  using forget_none [OF assms(1), of now t _ db'] forget_chunk [OF assms(1), of now t _ n db'] assms(2)
  by (cases "n = 0"; cases r) (auto simp: covers_def changed_def after_forget_def flush_facts_def)

lemma covers_purge: "covers T PendPurge"
  by (simp add: covers_def flush_facts_def)

text \<open>In a coherent state the cached read of a key that is not suspect answers what the backend
  would, and no cached read leaves its tenant, its key or its scope.\<close>

lemma cached_read:
  assumes "coherent st" "(sc_tenant_id sc, k) \<notin> suspect st"
  shows "fst (cached_current_fact read sc k (cr_adapter st)) = read sc k (run_inner st)"
  using assms
  by (auto simp: cached_current_fact_def cache_lookup_def cache_fill_def coherent_def read_gated
      visible_only_def split: option.splits)

lemma cached_read_gated:
  assumes st: "coherent st" and r: "fst (cached_current_fact read sc k (cr_adapter st)) = Some r"
  shows "of_key (sc_tenant_id sc) k r \<and> fact_visible sc r"
proof (cases "cache_lookup sc k (cr_adapter st)")
  case None
  with st r show ?thesis using read_register register_key
    by (fastforce simp: cached_current_fact_def cache_fill_def coherent_def visible_only_def
        split: option.splits if_splits)
next
  case (Some h)
  with st r show ?thesis
    by (auto simp: cached_current_fact_def cache_lookup_def coherent_def visible_only_def split: if_splits)
qed

end

section \<open>The Postgres model is a backend\<close>

lemma current_row_facts_eq: "db_facts db' = db_facts db \<Longrightarrow> abs_facts db' = abs_facts db"
  by (simp add: abs_facts_def fun_eq_iff)

lemma retire_entity_none: "retire_entity t s e da db = (0, db') \<Longrightarrow> db_facts db' = db_facts db"
  by (auto simp: retire_entity_def Let_def rows_affected_0 intro!: update_where_none)

lemma forget_episode_none:
  assumes "forget us now t (ForgetEpisode e) db = (0, db')"
  shows "db_facts db' = db_facts db"
proof -
  let ?Q = "\<lambda>r. fr_tenant_id r = t \<and> fr_provenance r = e \<and> is_current r"
  have "db_facts db' = update_where ?Q (close_fact_at now) (db_facts db)"
    using assms forget_episode_facts(1) [of us now t e db] by simp
  moreover have "rows_affected ?Q (db_facts db) = 0" using assms by (simp add: Let_def)
  ultimately show ?thesis by (simp add: rows_affected_0 update_where_none)
qed

interpretation pg: fact_backend facts_ok abs_facts current_fact upsert_fact retire_entity "forget uuid_str"
  for uuid_str
proof unfold_locales
  fix db :: database
  show "current_fact sc k db = visible_only sc (abs_facts db (sc_tenant_id sc, k))" if "facts_ok db" for sc k
    using current_fact_register [OF that] by (simp add: visible_only_def)
  show "of_key (fst tk) (snd tk) r" if "abs_facts db tk = Some r" for tk r
    using that by (auto simp: abs_facts_def dest: current_row_Some)
  show "facts_ok db'" if "facts_ok db" "upsert_fact now i w db = Inr (oc, db')" for now i w oc db'
    using that by (rule facts_ok_upsert)
  show "abs_facts db' tk = abs_facts db tk"
    if "facts_ok db" "upsert_fact now i w db = Inr (oc, db')"
      "tk \<noteq> (fw_tenant_id w, fw_key w) \<or> oc = Unchanged \<or> oc = StaleEvent" for now i w oc db' tk
    using upsert_fact_register [OF that(1,2)] that(3)
    by (auto simp: register_upsert_def Let_def split: option.splits if_splits)
  show "facts_ok db'" if "facts_ok db" "retire_entity t s e da db = (n, db')" for t s e da n db'
    using facts_ok_retire_entity [OF that(1), of t s e da] that(2) by simp
  show "abs_facts db' = abs_facts db" if "retire_entity t s e da db = (0, db')" for t s e da db'
    by (rule current_row_facts_eq [OF retire_entity_none [OF that]])
  show "facts_ok db'" if "facts_ok db" "forget uuid_str now t r db = (n, db')" for now t r n db'
    using facts_ok_forget [OF that(1), of uuid_str now t r] that(2) by (metis snd_conv)
  show "abs_facts db' = abs_facts db" if "forget uuid_str now t (ForgetEpisode e) db = (0, db')" for now t e db'
    by (rule current_row_facts_eq [OF forget_episode_none [OF that]])
  show "abs_facts db' = abs_facts db" if "forget uuid_str now t (ForgetChunk i) db = (n, db')" for now t i n db'
    using forget_chunk_facts(1) [of uuid_str now t i db] that current_row_facts_eq by (metis snd_conv)
qed

section \<open>Reachable states\<close>

text \<open>
  Every interleaving of the moments of reads, upserts, entity deletions, forgets, purges,
  evictions by the bounded cache, ACL corrections through \<^verbatim>\<open>inner()\<close> and the operations that leave
  facts alone.
\<close>

inductive cached_reach :: "(uuid \<Rightarrow> string) \<Rightarrow> database cache_run \<Rightarrow> bool" for uuid_str where
  start: "facts_ok db \<Longrightarrow> cached_reach uuid_str (start_run (new_cache db))"
| fetch: "cached_reach uuid_str st \<Longrightarrow> current_fact sc k (run_inner st) = Some f \<Longrightarrow>
    cached_reach uuid_str (begin_fetch sc k f st)"
| fill: "cached_reach uuid_str st \<Longrightarrow> cr_fetches st = ps @ p # qs \<Longrightarrow>
    cached_reach uuid_str (end_fetch p (ps @ qs) st)"
| upsert: "cached_reach uuid_str st \<Longrightarrow> upsert_fact now i w (run_inner st) = Inr (oc, db') \<Longrightarrow>
    cached_reach uuid_str
      (commit_write (pg.changed (run_inner st) db') db' (PendUpsert oc (fw_tenant_id w, fw_key w)) st)"
| retire: "cached_reach uuid_str st \<Longrightarrow> retire_entity t s e da (run_inner st) = (n, db') \<Longrightarrow>
    cached_reach uuid_str (commit_write (pg.changed (run_inner st) db') db' (PendRetire n) st)"
| forget: "cached_reach uuid_str st \<Longrightarrow> forget uuid_str now t r (run_inner st) = (n, db') \<Longrightarrow>
    cached_reach uuid_str (commit_write (pg.changed (run_inner st) db') db' (PendForget n r) st)"
| purge: "cached_reach uuid_str st \<Longrightarrow> facts_ok db' \<Longrightarrow>
    cached_reach uuid_str (commit_write (pg.changed (run_inner st) db') db' PendPurge st)"
| invalidate: "cached_reach uuid_str st \<Longrightarrow> cr_writes st = ws @ (T, p) # vs \<Longrightarrow>
    cached_reach uuid_str (end_write p (ws @ vs) st)"
| correct: "cached_reach uuid_str st \<Longrightarrow>
    inner_correct_fact_acl a t k vis conf reason prov cb (cr_adapter st) = Inr (n, ad') \<Longrightarrow>
    cached_reach uuid_str (write_behind (pg.changed (run_inner st) (ca_inner ad')) (ca_inner ad') st)"
| evict: "cached_reach uuid_str st \<Longrightarrow> cached_reach uuid_str (drop_entry tk st)"
| pass: "cached_reach uuid_str st \<Longrightarrow> facts_ok (f (run_inner st)) \<Longrightarrow>
    db_facts (f (run_inner st)) = db_facts (run_inner st) \<Longrightarrow>
    cached_reach uuid_str (st\<lparr>cr_adapter := pass_through f (cr_adapter st)\<rparr>)"

lemma coherent_facts_ok: "pg.coherent st \<Longrightarrow> facts_ok (run_inner st)"
  by (simp add: pg.coherent_def)

lemma coherent_pass:
  assumes "pg.coherent st" "facts_ok (f (run_inner st))" "db_facts (f (run_inner st)) = db_facts (run_inner st)"
  shows "pg.coherent (st\<lparr>cr_adapter := pass_through f (cr_adapter st)\<rparr>)"
  using assms current_row_facts_eq [OF assms(3)]
  by (simp add: pg.coherent_def pass_through_def suspect_def)

lemma cached_reach_coherent: "cached_reach uuid_str st \<Longrightarrow> pg.coherent st"
proof (induction rule: cached_reach.induct)
  case (start db)
  then show ?case by (rule pg.coherent_start)
next
  case (fetch st sc k f)
  from fetch.IH fetch.hyps(2) show ?case by (rule pg.coherent_begin_fetch)
next
  case (fill st ps p qs)
  from fill.IH fill.hyps(2) show ?case by (rule pg.coherent_end_fetch)
next
  case (upsert st now i w oc db')
  note ok = coherent_facts_ok [OF upsert.IH]
  show ?case
    by (rule pg.coherent_commit [OF upsert.IH facts_ok_upsert [OF ok upsert.hyps(2)] pg.covers_upsert [OF ok upsert.hyps(2)]])
next
  case (retire st t s e da n db')
  note ok = coherent_facts_ok [OF retire.IH]
  show ?case
    by (rule pg.coherent_commit [OF retire.IH pg.retire_ok [OF ok retire.hyps(2)] pg.covers_retire [OF ok retire.hyps(2)]])
next
  case (forget st now t r n db')
  note ok = coherent_facts_ok [OF forget.IH]
  show ?case
    by (rule pg.coherent_commit [OF forget.IH pg.forget_ok [OF ok forget.hyps(2)] pg.covers_forget [OF ok forget.hyps(2)]])
next
  case (purge st db')
  from purge.IH purge.hyps(2) show ?case by (rule pg.coherent_commit [OF _ _ pg.covers_purge])
next
  case (invalidate st ws T p vs)
  from invalidate.IH invalidate.hyps(2) show ?case by (rule pg.coherent_end_write)
next
  case (correct st a t k vis conf reason prov cb n ad')
  obtain db' where c: "correct_fact_acl a t k vis conf reason prov cb (run_inner st) = Inr (n, db')"
    and "ca_inner ad' = db'"
    using correct.hyps(2) by (auto simp: inner_correct_fact_acl_def and_then_Inr)
  with facts_ok_correct_fact_acl [OF coherent_facts_ok [OF correct.IH] c] correct.IH show ?case
    by (simp add: pg.coherent_db)
next
  case (evict st tk)
  from evict.IH show ?case by (rule pg.coherent_drop)
next
  case (pass st f)
  from pass.IH pass.hyps(2,3) show ?case by (rule coherent_pass)
qed

text \<open>
  C3: In every state the running adapter can reach, however its reads, upserts, entity deletions,
  forgets, purges, evictions and ACL corrections interleave, a cached point read answers exactly
  what the store's scoped read would, for every key that is not suspect; and for every key it
  answers only with a row of the scope's tenant and of that key which the scope's gate admits. A
  key is suspect only while a write that changed it has committed and not yet invalidated, or
  while the cache holds an entry for it that was changed by an ACL correction through
  \<^verbatim>\<open>inner()\<close> or filled by a miss that such a change overtook between its fetch and its fill. Those
  two cases are real, so the promise of \<^verbatim>\<open>cache.rs\<close> that the cache can never serve a superseded
  value holds only outside them (\<open>acl_correction_leaves_stale_cache\<close>,
  \<open>read_fill_race_serves_superseded\<close>).
\<close>

theorem cached_current_fact_transparent:
  assumes "cached_reach uuid_str st"
  shows "((sc_tenant_id sc, k) \<notin> suspect st \<longrightarrow>
      fst (cached_current_fact current_fact sc k (cr_adapter st)) = current_fact sc k (run_inner st)) \<and>
    (case fst (cached_current_fact current_fact sc k (cr_adapter st)) of None \<Rightarrow> True
     | Some r \<Rightarrow> of_key (sc_tenant_id sc) k r \<and> fact_visible sc r)"
  using pg.cached_read [OF cached_reach_coherent [OF assms]]
    pg.cached_read_gated [OF cached_reach_coherent [OF assms]]
  by (simp split: option.split)

text \<open>A warm cache: the sample fact has been fetched and filled by a reader holding token 5.\<close>

definition sample_current :: fact_row where
  "sample_current = fact_row_of 0 2 (sample_write ''won'' 20) None"

lemma sample_current: "current_fact (sample_scope [5]) sample_key sample_facts_db = Some sample_current"
  unfolding sample_current_def by code_simp

lemma sample_current_visible: "fact_visible (sample_scope [5]) sample_current"
  unfolding sample_current_def by code_simp

lemma sample_tenant: "sc_tenant_id (sample_scope ps) = 1"
  by (simp add: sample_scope_def)

definition fetched_state :: "database cache_run" where
  "fetched_state = begin_fetch (sample_scope [5]) sample_key sample_current (start_run (new_cache sample_facts_db))"

definition sample_fetch :: pending_fetch where
  "sample_fetch = \<lparr>pf_scope = sample_scope [5], pf_key = sample_key, pf_row = sample_current, pf_overtaken = False\<rparr>"

definition warm_state :: "database cache_run" where
  "warm_state = end_fetch sample_fetch [] fetched_state"

lemmas sample_run_defs = fetched_state_def warm_state_def start_run_def begin_fetch_def end_fetch_def
  sample_fetch_def new_cache_def

lemma fetched_state_reach: "cached_reach uuid_str fetched_state"
  unfolding fetched_state_def
  by (rule cached_reach.fetch [OF cached_reach.start [OF sample_facts_ok]])
    (simp add: start_run_def new_cache_def sample_current)

lemma warm_state_reach: "cached_reach uuid_str warm_state"
  using cached_reach.fill [OF fetched_state_reach, of "[]" sample_fetch "[]"]
  by (simp add: warm_state_def fetched_state_def sample_fetch_def begin_fetch_def start_run_def)

lemma warm_state_suspect: "suspect warm_state = {}"
  by (simp add: suspect_def sample_run_defs)

theorem cached_current_fact_transparent_witness:
  "cached_reach (\<lambda>_. ''u'') warm_state \<and> (sc_tenant_id (sample_scope [6]), sample_key) \<notin> suspect warm_state \<and>
   cr_adapter warm_state \<noteq> new_cache sample_facts_db \<and>
   fst (cached_current_fact current_fact (sample_scope [6]) sample_key (cr_adapter warm_state)) =
     current_fact (sample_scope [6]) sample_key (run_inner warm_state)"
  using cached_current_fact_transparent [OF warm_state_reach [where uuid_str = "\<lambda>_. ''u''"], of "sample_scope [6]" sample_key]
    warm_state_reach [where uuid_str = "\<lambda>_. ''u''"]
  by (simp add: warm_state_suspect) (simp add: sample_run_defs cache_fill_def fun_eq_iff)

section \<open>Where the cache is stale\<close>

text \<open>
  An un-share does not reach the cache: once a fact is cached, correcting its ACL through the
  inner adapter leaves the cached row in place, and the cached read goes on returning it to the
  principal that lost access although the store itself answers nothing.
\<close>

theorem acl_correction_leaves_stale_cache:
  "\<exists>st' r. cached_reach uuid_str st' \<and> cr_writes st' = [] \<and> cr_fetches st' = [] \<and>
     (1, sample_key) \<in> suspect st' \<and>
     current_fact (sample_scope [5]) sample_key (run_inner st') = None \<and>
     fst (cached_current_fact current_fact (sample_scope [5]) sample_key (cr_adapter st')) = Some r"
proof -
  let ?d = "correct_fact_acl 9 1 sample_key [6] Internal SourceUnshare Mirrored None sample_facts_db"
  have "case ?d of Inr (n, db') \<Rightarrow> current_fact (sample_scope [5]) sample_key db' = None | Inl _ \<Rightarrow> False"
    by code_simp
  then obtain n db' where d: "?d = Inr (n, db')" and gone: "current_fact (sample_scope [5]) sample_key db' = None"
    by (auto split: sum.splits)
  define ad' where "ad' = (cr_adapter warm_state)\<lparr>ca_inner := db'\<rparr>"
  have c: "inner_correct_fact_acl 9 1 sample_key [6] Internal SourceUnshare Mirrored None (cr_adapter warm_state) = Inr (n, ad')"
    using d by (simp add: inner_correct_fact_acl_def and_then_Inr ad'_def) (simp add: sample_run_defs cache_fill_def)
  have none: "current_fact (sample_scope [5]) sample_key (ca_inner ad') = None" using gone by (simp add: ad'_def)
  let ?st = "write_behind (pg.changed (run_inner warm_state) (ca_inner ad')) (ca_inner ad') warm_state"
  have reach: "cached_reach uuid_str ?st" by (rule cached_reach.correct [OF warm_state_reach c])
  have warm: "ca_facts (cr_adapter warm_state) (1, sample_key) = Some sample_current"
    by (simp add: sample_run_defs cache_fill_def sample_tenant)
  have served: "fst (cached_current_fact current_fact (sample_scope [5]) sample_key (cr_adapter ?st)) = Some sample_current"
    using warm by (simp add: cached_current_fact_def cache_lookup_def write_behind_def visible_only_def
        sample_tenant sample_current_visible)
  have "(1, sample_key) \<in> suspect ?st"
  proof (rule ccontr)
    assume "(1, sample_key) \<notin> suspect ?st"
    then have "fst (cached_current_fact current_fact (sample_scope [5]) sample_key (cr_adapter ?st)) =
        current_fact (sample_scope [5]) sample_key (run_inner ?st)"
      by (intro pg.cached_read [OF cached_reach_coherent [OF reach]]) (simp add: sample_scope_def)
    with served none show False by (simp add: write_behind_def)
  qed
  moreover have "cr_writes ?st = []" "cr_fetches ?st = []" by (simp_all add: write_behind_def sample_run_defs)
  moreover have "current_fact (sample_scope [5]) sample_key (run_inner ?st) = None" using none by (simp add: write_behind_def)
  ultimately show ?thesis using reach served by blast
qed

text \<open>
  A miss that straddles a write poisons the cache: when a read has fetched the current row and
  an upsert supersedes it, commits and invalidates before the fill, the fill stores the superseded
  row, and with no call left in flight later reads return it although the store has the new value.
\<close>

theorem read_fill_race_serves_superseded:
  "\<exists>st'. cached_reach uuid_str st' \<and> cr_writes st' = [] \<and> cr_fetches st' = [] \<and>
     fst (cached_current_fact current_fact (sample_scope [5]) sample_key (cr_adapter st')) = Some sample_current \<and>
     current_fact (sample_scope [5]) sample_key (run_inner st') \<noteq> Some sample_current"
proof -
  let ?u = "upsert_fact 0 3 (sample_write ''lost'' 30) sample_facts_db"
  have "case ?u of Inr (oc, db') \<Rightarrow>
      current_fact (sample_scope [5]) sample_key db' \<noteq> Some sample_current | Inl _ \<Rightarrow> False"
    unfolding sample_current_def by code_simp
  then obtain oc db' where u: "?u = Inr (oc, db')"
    and new: "current_fact (sample_scope [5]) sample_key db' \<noteq> Some sample_current"
    by (auto split: sum.splits)
  let ?T = "pg.changed (run_inner fetched_state) db'"
  let ?p = "PendUpsert oc (fw_tenant_id (sample_write ''lost'' 30), fw_key (sample_write ''lost'' 30))"
  let ?s1 = "commit_write ?T db' ?p fetched_state"
  let ?s2 = "end_write ?p [] ?s1"
  let ?s3 = "end_fetch (overtake ?T sample_fetch) [] ?s2"
  have r1: "cached_reach uuid_str ?s1"
    by (rule cached_reach.upsert [OF fetched_state_reach]) (use u in \<open>simp add: sample_run_defs\<close>)
  have r2: "cached_reach uuid_str ?s2"
    using cached_reach.invalidate [OF r1, of "[]" ?T ?p "[]"] by (simp add: commit_write_def sample_run_defs)
  have r3: "cached_reach uuid_str ?s3"
    using cached_reach.fill [OF r2, of "[]" "overtake ?T sample_fetch" "[]"]
    by (simp add: end_write_def commit_write_def sample_run_defs)
  have "ca_facts (cr_adapter ?s3) (1, sample_key) = Some sample_current"
    by (simp add: end_fetch_def cache_fill_def overtake_def sample_fetch_def sample_scope_def)
  then have "fst (cached_current_fact current_fact (sample_scope [5]) sample_key (cr_adapter ?s3)) = Some sample_current"
    by (simp add: cached_current_fact_def cache_lookup_def visible_only_def sample_tenant sample_current_visible)
  moreover have "current_fact (sample_scope [5]) sample_key (run_inner ?s3) \<noteq> Some sample_current"
    using new by (simp add: end_fetch_def end_write_def commit_write_def)
  moreover have "cr_writes ?s3 = []" "cr_fetches ?s3 = []" by (simp_all add: end_fetch_def end_write_def)
  ultimately show ?thesis using r3 by blast
qed

end
