(* ===== verification/Recall.thy ===== *)
theory Recall
  imports Rank_Fusion Embedding_Migration Fact_Cache
begin

text \<open>
  The read path of \<^verbatim>\<open>recall\<close> and \<^verbatim>\<open>get\<close>: the dense and the sparse leg with their SQL
  predicates and the fusion (\<^verbatim>\<open>crates/verity-storage/src/postgres.rs\<close>), the per-source freshness
  gate (\<^verbatim>\<open>crates/verity-server/src/source_freshness.rs\<close>) and the two handlers
  (\<^verbatim>\<open>crates/verity-server/src/main.rs\<close>). The index extensions are a parameter record: the order
  in which the HNSW index yields rows, the distance and score functions, the text match and the
  planner's row estimate. What the query plan never changes, the \<^verbatim>\<open>WHERE\<close> clause, is modelled.
  Latency and request counters are left out; the two counters the code keeps of its decisions
  (exact scans, fence drops) are kept.
\<close>

section \<open>The search engine and the state\<close>

record search_engine =
  se_distance :: "rat list \<Rightarrow> rat list \<Rightarrow> f64"
  se_dense_score :: "rat list \<Rightarrow> rat list \<Rightarrow> f64"
  se_index_scan :: "embedding_route \<Rightarrow> rat list \<Rightarrow> chunk_row list \<Rightarrow> chunk_row list"
  se_plan_rows :: "embedding_route \<Rightarrow> scope \<Rightarrow> chunk_row list \<Rightarrow> int option"
  se_match :: "string \<Rightarrow> string \<Rightarrow> bool"
  se_bm25 :: "chunk_row list \<Rightarrow> string \<Rightarrow> chunk_row \<Rightarrow> f64"
  se_iter :: "(rat \<times> recall_hit) list \<Rightarrow> (rat \<times> recall_hit) list"

type_synonym synced_sources = "string \<rightharpoonup> instant"

record connector_status_row =
  cs_tenant_id :: tenant_id
  cs_source :: string
  cs_updated_at :: instant

record recall_state =
  rs_server :: server_state
  rs_embeddings :: embedding_state
  rs_connector_status :: "connector_status_row list"
  rs_synced :: "tenant_id \<Rightarrow> (instant \<times> synced_sources) option"
  rs_facts :: fact_cache
  rs_exact_scans :: nat
  rs_fence_drops :: nat

record recall_query =
  qy_scope :: scope
  qy_embedding :: "rat list option"
  qy_text :: "string option"
  qy_k :: nat

section \<open>The two legs\<close>

text \<open>
  \<^verbatim>\<open>s as f32\<close>: rounding to nearest binary32, ties to even, with subnormals below the least normal exponent
  and overflow to infinity.
\<close>

fun f64_as_f32 :: "f64 \<Rightarrow> f64" where
  "f64_as_f32 (Fin q) =
     (if q = 0 then Fin 0
      else let e = max (f32_ulp_exp \<bar>q\<bar>) (- 149); r = of_int (round_even (\<bar>q\<bar> / pow2 e)) * pow2 e
           in if 2 ^ 128 \<le> r then Inf (q < 0) else Fin (if q < 0 then - r else r))"
| "f64_as_f32 x = x"

definition row_to_hit :: "f64 \<Rightarrow> chunk_row \<Rightarrow> recall_hit" where
  "row_to_hit score c =
     \<lparr>hit_chunk_id = ch_id c, hit_document_id = ch_document_id c, hit_seq = ch_seq c,
      hit_content = ch_content c, hit_score = f64_as_f32 score, hit_entity_tags = ch_entity_tags c,
      hit_kind = ch_kind c, hit_source = ch_source c, hit_source_synced_at = None,
      hit_support_tier = (case ch_support_tier c of None \<Rightarrow> None | Some s \<Rightarrow> support_tier_from_str s),
      hit_acl_provenance = ch_acl_provenance c, hit_trust_tier = ch_trust_tier c,
      hit_valid_from = ch_valid_from c, hit_provenance = ch_provenance c\<rparr>"

text \<open>The order of \<^verbatim>\<open>double precision\<close> in SQL: NaN is the greatest value.\<close>

fun pg_float_key :: "f64 \<Rightarrow> int \<times> rat" where
  "pg_float_key (Inf True) = (0, 0)"
| "pg_float_key (Fin q) = (1, q)"
| "pg_float_key (Inf False) = (2, 0)"
| "pg_float_key NaN = (3, 0)"

definition pg_desc_key :: "f64 \<Rightarrow> int \<times> rat" where
  "pg_desc_key x = (case pg_float_key x of (a, b) \<Rightarrow> (- a, - b))"

definition exact_scan_max_rows :: int where
  "exact_scan_max_rows = 20000"

definition i64_max :: int where
  "i64_max = 2 ^ 63 - 1"

text \<open>The vector column a route searches.\<close>

definition route_column :: "embedding_route \<Rightarrow> embedding_state \<Rightarrow> chunk_row \<Rightarrow> rat list option" where
  "route_column route es c =
     (case route of V1 \<Rightarrow> ch_embedding c | V2 \<Rightarrow> map_option fst (es_v2 es (ch_id c)))"

definition dense_row :: "embedding_route \<Rightarrow> embedding_state \<Rightarrow> scope \<Rightarrow> chunk_row \<Rightarrow> bool" where
  "dense_row route es sc c \<longleftrightarrow>
     chunk_acl_visible sc c \<and> route_column route es c \<noteq> None \<and> entity_scope_predicate sc c"

definition recall_dense ::
  "search_engine \<Rightarrow> recall_query \<Rightarrow> rat list \<Rightarrow> recall_state \<Rightarrow> recall_hit list \<times> recall_state" where
  "recall_dense eng q embedding st =
     (let sc = qy_scope q;
          (route, es) = embedding_route_for (sc_tenant_id sc) (rs_embeddings st);
          rows = db_chunks (sv_db (rs_server st));
          vec = (\<lambda>c. the (route_column route es c));
          estimated_rows = (case se_plan_rows eng route sc rows of None \<Rightarrow> i64_max | Some n \<Rightarrow> n);
          exact = estimated_rows \<le> exact_scan_max_rows;
          ordered =
            (if exact
             then sort_key (\<lambda>c. pg_float_key (se_distance eng (vec c) embedding)) (filter (dense_row route es sc) rows)
             else filter (dense_row route es sc) (se_index_scan eng route embedding rows))
      in (map (\<lambda>c. row_to_hit (se_dense_score eng (vec c) embedding) c) (take (qy_k q) ordered),
          st\<lparr>rs_embeddings := es, rs_exact_scans := rs_exact_scans st + (if exact then 1 else 0)\<rparr>))"

text \<open>
  The sparse leg: one statement for unbound scopes; for entity-bound ones a candidate set with a
  coarser entity filter (any shared tag, or published knowledge), then the exact containment test.
\<close>

definition bm25_base :: "search_engine \<Rightarrow> scope \<Rightarrow> string \<Rightarrow> chunk_row \<Rightarrow> bool" where
  "bm25_base eng sc query c \<longleftrightarrow> se_match eng query (ch_content c) \<and>
     set (ch_visibility c) \<inter> set (sc_principals sc) \<noteq> {} \<and>
     ch_tenant_id c = sc_tenant_id sc \<and> chunk_current c \<and>
     conf_code (ch_confidentiality c) \<le> conf_code (sc_max_confidentiality sc)"

definition bm25_candidates :: "search_engine \<Rightarrow> scope \<Rightarrow> string \<Rightarrow> chunk_row list \<Rightarrow> chunk_row list" where
  "bm25_candidates eng sc query rows =
     filter (\<lambda>c. bm25_base eng sc query c \<and>
       (set (ch_entity_tags c) \<inter> set (sc_entity_scope sc) \<noteq> {} \<or> ch_kind c = ''knowledge'')) rows"

definition recall_bm25 :: "search_engine \<Rightarrow> recall_query \<Rightarrow> string \<Rightarrow> database \<Rightarrow> recall_hit list" where
  "recall_bm25 eng q query db =
     (let sc = qy_scope q; rows = db_chunks db; score = se_bm25 eng rows query;
          ranked_rows =
            (if sc_entity_scope sc = []
             then sort_key (\<lambda>c. pg_desc_key (score c)) (filter (bm25_base eng sc query) rows)
             else sort_key (\<lambda>c. pg_desc_key (score c))
                    (filter (\<lambda>c. ch_kind c = ''knowledge'' \<or>
                         ch_entity_tags c \<noteq> [] \<and> set (ch_entity_tags c) \<subseteq> set (sc_entity_scope sc))
                      (bm25_candidates eng sc query rows)))
      in map (\<lambda>c. row_to_hit (score c) c) (take (qy_k q) ranked_rows))"

definition recall_storage ::
  "search_engine \<Rightarrow> recall_query \<Rightarrow> recall_state \<Rightarrow> (storage_error + recall_hit list) \<times> recall_state" where
  "recall_storage eng q st =
     (if sc_principals (qy_scope q) = [] then (Inr [], st)
      else case (qy_embedding q, qy_text q) of
        (Some embedding, Some query) \<Rightarrow>
          let (dense, st1) = recall_dense eng q embedding st;
              sparse = recall_bm25 eng q query (sv_db (rs_server st))
          in (Inr (rrf_fuse (se_iter eng) [dense, sparse] (qy_k q)), st1)
      | (Some embedding, None) \<Rightarrow>
          let (dense, st1) = recall_dense eng q embedding st in (Inr dense, st1)
      | (None, Some query) \<Rightarrow> (Inr (recall_bm25 eng q query (sv_db (rs_server st))), st)
      | (None, None) \<Rightarrow> (Inl (InvalidInput ''recall requires an embedding, text, or both''), st))"

section \<open>The per-source freshness gate\<close>

definition connector_chunk_sources :: "string list" where
  "connector_chunk_sources = [''gdrive'', ''gmail'', ''hubspot'', ''salesforce'', ''notion'', ''intercom'',
     ''sharepoint'', ''slack'', ''zoom'']"

datatype freshness_verdict = Exempt | Fresh instant | Stale instant | NeverSynced

fun passes :: "freshness_verdict \<Rightarrow> bool" where
  "passes Exempt = True"
| "passes (Fresh _) = True"
| "passes (Stale _) = False"
| "passes NeverSynced = False"

text \<open>\<^verbatim>\<open>as i64\<close> on a \<^verbatim>\<open>u64\<close>, and the whole seconds of a duration, truncated towards zero.\<close>

definition u64_as_i64 :: "nat \<Rightarrow> int" where
  "u64_as_i64 n = (let m = int n mod 2 ^ 64 in if m < 2 ^ 63 then m else m - 2 ^ 64)"

definition num_seconds :: "int \<Rightarrow> int" where
  "num_seconds d = (if 0 \<le> d then d div 1000000 else - ((- d) div 1000000))"

definition verdict :: "string \<Rightarrow> instant option \<Rightarrow> instant \<Rightarrow> nat \<Rightarrow> freshness_verdict" where
  "verdict source synced_at now max_secs =
     (if source = ''agent'' \<or> starts_with ''webhook:'' source \<or> starts_with ''folder:'' source then Exempt
      else case synced_at of
        Some at' \<Rightarrow> if num_seconds (now - at') \<le> u64_as_i64 max_secs then Fresh at' else Stale at'
      | None \<Rightarrow> if source \<in> set connector_chunk_sources then NeverSynced else Exempt)"

definition effective_max_secs :: "nat option \<Rightarrow> nat option \<Rightarrow> nat option" where
  "effective_max_secs requested configured = (case (requested, configured) of
     (Some r, Some e) \<Rightarrow> Some (min r e) | (None, e) \<Rightarrow> e | (r, None) \<Rightarrow> r)"

definition parse_max_secs_env :: "string option \<Rightarrow> string + nat option" where
  "parse_max_secs_env raw = (case map_option trim raw of
     None \<Rightarrow> Inr None
   | Some v \<Rightarrow> if v = [] then Inr None
       else case parse_usize v of None \<Rightarrow> Inl v | Some n \<Rightarrow> Inr (Some n))"

definition synced_map :: "instant \<Rightarrow> tenant_id \<Rightarrow> recall_state \<Rightarrow> synced_sources \<times> recall_state" where
  "synced_map now t st =
     (case live_entry now (rs_synced st t) of
        Some hit \<Rightarrow> (hit, st)
      | None \<Rightarrow>
          let m = map_of (map (\<lambda>r. (cs_source r, cs_updated_at r))
                (filter (\<lambda>r. cs_tenant_id r = t) (rs_connector_status st)))
          in (m, st\<lparr>rs_synced := (rs_synced st)(t \<mapsto> (now, m))\<rparr>))"

record gate_outcome =
  go_hits :: "recall_hit list"
  go_dropped :: nat
  go_stale_sources :: "string list"

definition annotate :: "synced_sources \<Rightarrow> recall_hit \<Rightarrow> recall_hit" where
  "annotate synced h = h\<lparr>hit_source_synced_at := synced (hit_source h)\<rparr>"

definition annotate_and_gate ::
  "recall_hit list \<Rightarrow> synced_sources \<Rightarrow> nat option \<Rightarrow> instant \<Rightarrow> nat \<Rightarrow> gate_outcome" where
  "annotate_and_gate hits synced max_secs now k =
     (let hits1 = map (annotate synced) hits
      in case max_secs of
           None \<Rightarrow> \<lparr>go_hits = hits1, go_dropped = 0, go_stale_sources = []\<rparr>
         | Some m \<Rightarrow>
             let ok = (\<lambda>h. passes (verdict (hit_source h) (synced (hit_source h)) now m));
                 kept = filter ok hits1
             in \<lparr>go_hits = take k kept, go_dropped = length hits1 - length kept,
                 go_stale_sources = sort (remdups (map hit_source (filter (\<lambda>h. \<not> ok h) hits1)))\<rparr>)"

definition is_ascii_graphic :: "char \<Rightarrow> bool" where
  "is_ascii_graphic c \<longleftrightarrow> 33 \<le> (of_char c :: nat) \<and> (of_char c :: nat) \<le> 126"

definition sanitize_header_token :: "string \<Rightarrow> string" where
  "sanitize_header_token s =
     map (\<lambda>c. if is_ascii_graphic c \<and> c \<noteq> CHR '','' \<and> c \<noteq> CHR '';'' then c else CHR ''_'') s"

definition fence_header_value :: "nat \<Rightarrow> string list \<Rightarrow> string" where
  "fence_header_value dropped stale =
     ''dropped='' @ nat_to_string dropped @ ''; stale='' @ join '','' (map sanitize_header_token stale)"

section \<open>The handlers\<close>

record recall_request =
  rc_scope_handle :: string
  rc_text :: "string option"
  rc_embedding :: "rat list option"
  rc_k :: nat
  rc_max_source_staleness_secs :: "nat option"

text \<open>\<open>configured\<close> is \<^verbatim>\<open>VERITY_SOURCE_FRESHNESS_MAX_SECS\<close>; the result carries the fence header.\<close>

definition recall ::
  "server_env \<Rightarrow> search_engine \<Rightarrow> nat option \<Rightarrow> instant \<Rightarrow> nat \<Rightarrow> recall_request \<Rightarrow> recall_state
   \<Rightarrow> (refusal + string option \<times> recall_hit list) \<times> recall_state" where
  "recall env eng configured now uptime req st =
     (case verify_scope env now (rc_scope_handle req) of
        Inl e \<Rightarrow> (Inl e, st)
      | Inr payload \<Rightarrow>
          let embedding = (case (rc_embedding req, rc_text req) of
                (Some e, _) \<Rightarrow> Some e | (None, Some query) \<Rightarrow> en_encode env query | (None, None) \<Rightarrow> None);
              effective = effective_max_secs (rc_max_source_staleness_secs req) configured;
              k = min (rc_k req) 100;
              fetch_k = (if effective \<noteq> None then min (k * 2) 100 else k)
          in case scope_for env now uptime payload (rs_server st) of
               (Inl e, sv) \<Rightarrow> (Inl e, st\<lparr>rs_server := sv\<rparr>)
             | (Inr sc, sv) \<Rightarrow>
                 (case recall_storage eng \<lparr>qy_scope = sc, qy_embedding = embedding, qy_text = rc_text req, qy_k = fetch_k\<rparr>
                         (st\<lparr>rs_server := sv\<rparr>) of
                    (Inl e, st1) \<Rightarrow> (Inl (StorageFailed e), st1)
                  | (Inr hits, st1) \<Rightarrow>
                      let (synced, st2) = synced_map now (sc_tenant_id sc) st1;
                          outcome = annotate_and_gate hits synced effective now k;
                          header = (if 0 < go_dropped outcome
                            then Some (fence_header_value (go_dropped outcome) (go_stale_sources outcome)) else None);
                          st3 = st2\<lparr>rs_fence_drops := rs_fence_drops st2 + go_dropped outcome,
                            rs_server := spawn_audit payload ''recall'' (rc_text req)
                              (map hit_chunk_id (go_hits outcome)) (rs_server st2)\<rparr>
                      in (Inr (header, go_hits outcome), st3)))"

datatype get_refusal = GetRefused refusal | NoValue

definition get_status :: "get_refusal \<Rightarrow> nat" where
  "get_status r = (case r of GetRefused e \<Rightarrow> status_of e | NoValue \<Rightarrow> 404)"

text \<open>The point read goes through the caching adapter.\<close>

definition get_record ::
  "server_env \<Rightarrow> instant \<Rightarrow> nat \<Rightarrow> fact_key \<Rightarrow> string \<Rightarrow> instant option \<Rightarrow> recall_state
   \<Rightarrow> (get_refusal + fact_row) \<times> recall_state" where
  "get_record env now uptime key handle as_of st =
     (case verify_scope env now handle of
        Inl e \<Rightarrow> (Inl (GetRefused e), st)
      | Inr payload \<Rightarrow>
          (case scope_for env now uptime payload (rs_server st) of
             (Inl e, sv) \<Rightarrow> (Inl (GetRefused e), st\<lparr>rs_server := sv\<rparr>)
           | (Inr sc, sv) \<Rightarrow>
               let adapter = \<lparr>ca_inner = sv_db sv, ca_facts = rs_facts st\<rparr>;
                   (result, adapter') = (case as_of of
                       Some t \<Rightarrow> (cached_fact_as_of fact_as_of sc key t adapter, adapter)
                     | None \<Rightarrow> cached_current_fact current_fact sc key adapter);
                   st1 = st\<lparr>rs_server := sv, rs_facts := ca_facts adapter'\<rparr>
               in case result of
                    Some row \<Rightarrow>
                      (Inr row, st1\<lparr>rs_server := spawn_audit payload ''get''
                         (Some (fk_source key @ ''/'' @ fk_entity_id key @ ''/'' @ fk_field key)) [fr_id row] sv\<rparr>)
                  | None \<Rightarrow> (Inl NoValue, st1)))"

section \<open>The engine and the rows it may serve\<close>

text \<open>What the code relies on: an index scan yields rows of the table, none twice.\<close>

definition engine_ok :: "search_engine \<Rightarrow> bool" where
  "engine_ok eng \<longleftrightarrow> (\<forall>route e rows. mset (se_index_scan eng route e rows) \<subseteq># mset rows) \<and> permutes (se_iter eng)"

definition serves :: "scope \<Rightarrow> database \<Rightarrow> recall_hit \<Rightarrow> bool" where
  "serves sc db h \<longleftrightarrow> (\<exists>c \<in> set (db_chunks db). chunk_acl_visible sc c \<and> entity_scope_predicate sc c \<and>
     h = (row_to_hit (hit_score h) c)\<lparr>hit_score := hit_score h, hit_source_synced_at := hit_source_synced_at h\<rparr>)"

lemma row_to_hit_id [simp]: "hit_chunk_id (row_to_hit s c) = ch_id c"
  by (simp add: row_to_hit_def)

lemma serves_row:
  "c \<in> set (db_chunks db) \<Longrightarrow> chunk_acl_visible sc c \<Longrightarrow> entity_scope_predicate sc c \<Longrightarrow> serves sc db (row_to_hit s c)"
  by (auto simp: serves_def row_to_hit_def)

lemma serves_update [simp]:
  "serves sc db (h\<lparr>hit_score := s\<rparr>) = serves sc db h"
  "serves sc db (annotate synced h) = serves sc db h"
  by (cases h; simp add: serves_def row_to_hit_def annotate_def)+

lemma mset_sub_distinct:
  assumes "mset xs \<subseteq># mset ys" "distinct (map f ys)"
  shows "distinct (map f xs)"
proof -
  from assms(1) obtain M where "mset ys = mset xs + M" by (auto simp: mset_subset_eq_exists_conv)
  moreover obtain zs where "mset zs = M" using ex_mset by blast
  ultimately have "mset (map f ys) = mset (map f (xs @ zs))" by simp
  with assms(2) have "distinct (map f (xs @ zs))" by (metis mset_eq_imp_distinct_iff)
  then show ?thesis by simp
qed

lemma distinct_take_sort_filter:
  "distinct (map f xs) \<Longrightarrow> distinct (map f (take k (sort_key g (filter P xs))))"
  "distinct (map f xs) \<Longrightarrow> distinct (map f (take k (filter P xs)))"
proof -
  assume d: "distinct (map f xs)"
  then have "mset (filter P xs) \<subseteq># mset xs" by simp
  from mset_sub_distinct [OF this d] have f: "distinct (map f (filter P xs))" .
  then have "distinct (map f (sort_key g (filter P xs)))" by (rule mset_sub_distinct [rotated]) simp
  with f show "distinct (map f (take k (sort_key g (filter P xs))))" "distinct (map f (take k (filter P xs)))"
    by (simp_all add: take_map [symmetric])
qed

lemma recall_dense_hits:
  assumes "engine_ok eng" "recall_dense eng q e st = (hits, st')"
  shows "h \<in> set hits \<Longrightarrow> serves (qy_scope q) (sv_db (rs_server st)) h"
    and "distinct (map ch_id (db_chunks (sv_db (rs_server st)))) \<Longrightarrow> distinct_hits hits"
    and "length hits \<le> qy_k q" "rs_server st' = rs_server st" "rs_synced st' = rs_synced st"
      "rs_connector_status st' = rs_connector_status st" "rs_fence_drops st' = rs_fence_drops st"
proof -
  obtain route es where r: "embedding_route_for (sc_tenant_id (qy_scope q)) (rs_embeddings st) = (route, es)" by fastforce
  let ?rows = "db_chunks (sv_db (rs_server st))"
  define cand where "cand = (if (case se_plan_rows eng route (qy_scope q) ?rows of None \<Rightarrow> i64_max | Some n \<Rightarrow> n) \<le> exact_scan_max_rows
      then sort_key (\<lambda>c. pg_float_key (se_distance eng (the (route_column route es c)) e)) (filter (dense_row route es (qy_scope q)) ?rows)
      else filter (dense_row route es (qy_scope q)) (se_index_scan eng route e ?rows))"
  have hits: "hits = map (\<lambda>c. row_to_hit (se_dense_score eng (the (route_column route es c)) e) c) (take (qy_k q) cand)"
    using assms(2) by (auto simp: recall_dense_def r cand_def Let_def)
  have scan: "mset (se_index_scan eng route e ?rows) \<subseteq># mset ?rows" using assms(1) by (simp add: engine_ok_def)
  have mem: "c \<in> set ?rows \<and> dense_row route es (qy_scope q) c" if "c \<in> set cand" for c
    using that set_mset_mono [OF scan] by (auto simp: cand_def split: if_splits)
  show "h \<in> set hits \<Longrightarrow> serves (qy_scope q) (sv_db (rs_server st)) h"
    using mem by (auto simp: hits dense_row_def intro!: serves_row dest: in_set_takeD)
  have ids: "map hit_chunk_id hits = map ch_id (take (qy_k q) cand)" by (simp add: hits)
  show "distinct_hits hits" if d: "distinct (map ch_id ?rows)"
    unfolding ids cand_def
    by (simp add: distinct_take_sort_filter(1) [OF d] distinct_take_sort_filter(2) [OF mset_sub_distinct [OF scan d]])
  show "length hits \<le> qy_k q" by (simp add: hits)
  show "rs_server st' = rs_server st" "rs_synced st' = rs_synced st" "rs_connector_status st' = rs_connector_status st"
    "rs_fence_drops st' = rs_fence_drops st"
    using assms(2) by (auto simp: recall_dense_def r Let_def)
qed

lemma bm25_base_acl: "bm25_base eng sc query c \<longleftrightarrow> se_match eng query (ch_content c) \<and> chunk_acl_visible sc c"
  by (auto simp: bm25_base_def chunk_acl_visible_def)

text \<open>
  The two-stage statement of entity-bound scopes selects what the one-stage predicate selects: a
  non-empty tag set inside the scope always shares a tag with it.
\<close>

lemma recall_bm25_eq:
  "recall_bm25 eng q query db =
     map (\<lambda>c. row_to_hit (se_bm25 eng (db_chunks db) query c) c)
       (take (qy_k q) (sort_key (\<lambda>c. pg_desc_key (se_bm25 eng (db_chunks db) query c))
         (filter (\<lambda>c. se_match eng query (ch_content c) \<and> chunk_acl_visible (qy_scope q) c \<and>
            entity_scope_predicate (qy_scope q) c) (db_chunks db))))"
proof -
  have share: "set (ch_entity_tags c) \<inter> S \<noteq> {}" if "ch_entity_tags c \<noteq> []" "set (ch_entity_tags c) \<subseteq> S" for c S
    using that by (cases "ch_entity_tags c") auto
  have "filter (\<lambda>c. ch_kind c = ''knowledge'' \<or> ch_entity_tags c \<noteq> [] \<and> set (ch_entity_tags c) \<subseteq> set (sc_entity_scope (qy_scope q)))
      (bm25_candidates eng (qy_scope q) query (db_chunks db)) =
    filter (\<lambda>c. se_match eng query (ch_content c) \<and> chunk_acl_visible (qy_scope q) c \<and> entity_scope_predicate (qy_scope q) c) (db_chunks db)"
    if "sc_entity_scope (qy_scope q) \<noteq> []"
    unfolding bm25_candidates_def filter_filter using that share
    by (intro filter_cong) (auto simp: entity_scope_predicate_def bm25_base_acl)
  moreover have "bm25_base eng (qy_scope q) query =
     (\<lambda>c. se_match eng query (ch_content c) \<and> chunk_acl_visible (qy_scope q) c \<and> entity_scope_predicate (qy_scope q) c)"
    if "sc_entity_scope (qy_scope q) = []" using that by (auto simp: entity_scope_predicate_def bm25_base_acl fun_eq_iff)
  ultimately show ?thesis by (simp add: recall_bm25_def Let_def)
qed

lemma recall_bm25_hits:
  shows "h \<in> set (recall_bm25 eng q query db) \<Longrightarrow> serves (qy_scope q) db h"
    and "distinct (map ch_id (db_chunks db)) \<Longrightarrow> distinct_hits (recall_bm25 eng q query db)"
    and "length (recall_bm25 eng q query db) \<le> qy_k q"
proof -
  show "h \<in> set (recall_bm25 eng q query db) \<Longrightarrow> serves (qy_scope q) db h"
    by (auto simp: recall_bm25_eq intro!: serves_row dest!: in_set_takeD)
  show "distinct_hits (recall_bm25 eng q query db)" if "distinct (map ch_id (db_chunks db))"
    using distinct_take_sort_filter(1) [OF that] by (simp add: recall_bm25_eq comp_def)
qed (simp add: recall_bm25_eq)

lemma recall_storage_hits:
  assumes eng: "engine_ok eng" and ids: "distinct (map ch_id (db_chunks (sv_db (rs_server st))))"
    and r: "recall_storage eng q st = (Inr hits, st')"
  shows "(\<forall>h \<in> set hits. serves (qy_scope q) (sv_db (rs_server st)) h) \<and> distinct_hits hits \<and> length hits \<le> qy_k q \<and>
    (sc_principals (qy_scope q) = [] \<longrightarrow> hits = []) \<and> rs_server st' = rs_server st \<and>
    rs_synced st' = rs_synced st \<and> rs_connector_status st' = rs_connector_status st \<and> rs_fence_drops st' = rs_fence_drops st"
proof (cases "sc_principals (qy_scope q) = []")
  case True
  with r show ?thesis by (simp add: recall_storage_def)
next
  case False
  note bm = recall_bm25_hits(2) [OF ids] recall_bm25_hits(1,3)
  show ?thesis
  proof (cases "qy_embedding q")
    case None
    with False r obtain query where "qy_text q = Some query"
      by (auto simp: recall_storage_def split: option.splits)
    with None False r show ?thesis using bm by (auto simp: recall_storage_def)
  next
    case (Some e)
    obtain dense st1 where d: "recall_dense eng q e st = (dense, st1)" by fastforce
    note dh = recall_dense_hits [OF eng d]
    show ?thesis
    proof (cases "qy_text q")
      case None
      with Some False r d show ?thesis using dh(1,3-) dh(2) [OF ids] by (simp add: recall_storage_def)
    next
      case (Some query)
      let ?sparse = "recall_bm25 eng q query (sv_db (rs_server st))"
      from Some \<open>qy_embedding q = Some e\<close> False r d
      have hits: "hits = rrf_fuse (se_iter eng) [dense, ?sparse] (qy_k q)" and st': "st' = st1"
        by (simp_all add: recall_storage_def)
      have perm: "permutes (se_iter eng)" using eng by (simp add: engine_ok_def)
      note d2 = dh(2) [OF ids] and s2 = recall_bm25_hits(2) [OF ids, of eng q query]
      have "serves (qy_scope q) (sv_db (rs_server st)) h" if h: "h \<in> set hits" for h
      proof -
        from rrf_fuse_from [OF d2 s2 perm h [unfolded hits]] obtain g where
          g: "g \<in> set dense \<union> set ?sparse" and hg: "h = g\<lparr>hit_score := Fin (fused_score dense ?sparse (hit_chunk_id h))\<rparr>"
          by blast
        from g have "serves (qy_scope q) (sv_db (rs_server st)) g" using dh(1) recall_bm25_hits(1) by blast
        then show ?thesis by (subst hg) simp
      qed
      moreover have "distinct_hits hits" "length hits \<le> qy_k q"
        using ranked_ids(1) [OF perm, of dense ?sparse] by (simp_all add: hits rrf_fuse_ids rrf_fuse_length)
      ultimately show ?thesis using False dh(4-) st' by simp
    qed
  qed
qed

section \<open>The gate and the handler\<close>

lemma annotate_sel [simp]:
  "hit_chunk_id (annotate synced h) = hit_chunk_id h" "hit_source (annotate synced h) = hit_source h"
  "hit_source_synced_at (annotate synced h) = synced (hit_source h)"
  by (simp_all add: annotate_def)

lemma annotate_and_gate_hits:
  "go_hits (annotate_and_gate hits synced max_secs now k) =
     (case max_secs of None \<Rightarrow> map (annotate synced) hits
      | Some m \<Rightarrow> take k (map (annotate synced)
          (filter (\<lambda>h. passes (verdict (hit_source h) (synced (hit_source h)) now m)) hits)))"
  by (auto simp: annotate_and_gate_def Let_def filter_map comp_def split: option.splits)

lemma annotate_and_gate_dropped:
  "go_dropped (annotate_and_gate hits synced max_secs now k) = 0 \<longleftrightarrow>
     (\<forall>m. max_secs = Some m \<longrightarrow> (\<forall>h \<in> set hits. passes (verdict (hit_source h) (synced (hit_source h)) now m)))"
proof (cases max_secs)
  case (Some m)
  let ?ok = "\<lambda>h. passes (verdict (hit_source h) (synced (hit_source h)) now m)"
  have "go_dropped (annotate_and_gate hits synced max_secs now k) = length hits - length (filter ?ok hits)"
    by (simp add: annotate_and_gate_def Let_def Some filter_map comp_def)
  moreover have "length hits - length (filter ?ok hits) = 0 \<longleftrightarrow> (\<forall>h \<in> set hits. ?ok h)"
  proof
    assume "length hits - length (filter ?ok hits) = 0"
    then show "\<forall>h \<in> set hits. ?ok h" using length_filter_less [of _ hits ?ok] by fastforce
  qed simp
  ultimately show ?thesis using Some by simp
qed (simp add: annotate_and_gate_def Let_def)

text \<open>The steps of a successful recall.\<close>

lemma recall_cases:
  assumes "recall env eng configured now uptime req st = (Inr (header, hits), st')"
  obtains payload sc sv q fetched st1 synced st2 where
    "verify_scope env now (rc_scope_handle req) = Inr payload"
    "scope_for env now uptime payload (rs_server st) = (Inr sc, sv)"
    "qy_scope q = sc" "qy_k q \<le> 100" "effective_max_secs (rc_max_source_staleness_secs req) configured = None \<Longrightarrow> qy_k q = min (rc_k req) 100"
    "recall_storage eng q (st\<lparr>rs_server := sv\<rparr>) = (Inr fetched, st1)"
    "synced_map now (sc_tenant_id sc) st1 = (synced, st2)"
    "hits = go_hits (annotate_and_gate fetched synced (effective_max_secs (rc_max_source_staleness_secs req) configured) now (min (rc_k req) 100))"
    "header = None \<longleftrightarrow> go_dropped (annotate_and_gate fetched synced (effective_max_secs (rc_max_source_staleness_secs req) configured) now (min (rc_k req) 100)) = 0"
    "rs_server st' = spawn_audit payload ''recall'' (rc_text req) (map hit_chunk_id hits) (rs_server st2)"
proof -
  let ?eff = "effective_max_secs (rc_max_source_staleness_secs req) configured"
  let ?k = "min (rc_k req) 100"
  define q where "q sc = \<lparr>qy_scope = sc, qy_embedding = (case (rc_embedding req, rc_text req) of
                (Some e, _) \<Rightarrow> Some e | (None, Some query) \<Rightarrow> en_encode env query | (None, None) \<Rightarrow> None),
       qy_text = rc_text req, qy_k = (if ?eff \<noteq> None then min (?k * 2) 100 else ?k)\<rparr>" for sc
  from assms obtain payload where p: "verify_scope env now (rc_scope_handle req) = Inr payload"
    by (auto simp: recall_def split: sum.splits)
  with assms obtain sc sv where s: "scope_for env now uptime payload (rs_server st) = (Inr sc, sv)"
    by (cases "scope_for env now uptime payload (rs_server st)"; cases "fst (scope_for env now uptime payload (rs_server st))")
      (auto simp: recall_def Let_def)
  with assms p obtain fetched st1 where f: "recall_storage eng (q sc) (st\<lparr>rs_server := sv\<rparr>) = (Inr fetched, st1)"
    by (cases "recall_storage eng (q sc) (st\<lparr>rs_server := sv\<rparr>)"; cases "fst (recall_storage eng (q sc) (st\<lparr>rs_server := sv\<rparr>))")
      (auto simp: recall_def Let_def q_def)
  obtain synced st2 where y: "synced_map now (sc_tenant_id sc) st1 = (synced, st2)" by fastforce
  let ?o = "annotate_and_gate fetched synced ?eff now ?k"
  from assms p s f y have o: "hits = go_hits ?o"
    "header = (if 0 < go_dropped ?o then Some (fence_header_value (go_dropped ?o) (go_stale_sources ?o)) else None)"
    "rs_server st' = spawn_audit payload ''recall'' (rc_text req) (map hit_chunk_id (go_hits ?o)) (rs_server st2)"
    by (auto simp: recall_def Let_def q_def)
  show thesis
  proof (rule that [OF p s _ _ _ f y o(1)])
    show "qy_scope (q sc) = sc" "qy_k (q sc) \<le> 100" "?eff = None \<Longrightarrow> qy_k (q sc) = ?k"
      by (simp_all add: q_def)
    show "header = None \<longleftrightarrow> go_dropped ?o = 0" by (simp add: o(2))
    show "rs_server st' = spawn_audit payload ''recall'' (rc_text req) (map hit_chunk_id hits) (rs_server st2)"
      using o(1,3) by simp
  qed
qed

lemma synced_map_server: "synced_map now t st = (m, st') \<Longrightarrow> rs_server st' = rs_server st"
  by (auto simp: synced_map_def Let_def split: option.splits)

lemma scope_for_bounds:
  assumes "scope_for env now uptime p st = (Inr sc, st')"
  shows "sc_tenant_id sc = sp_tenant_id p" "sc_entity_scope sc = sp_entity_scope p"
    "sc_max_confidentiality sc \<le> sp_max_confidentiality p"
  using assms by (rule scope_for_cases; simp add: to_scope_def no_rebac_ceiling_le)+

section \<open>Sample\<close>

definition sample_engine :: search_engine where
  "sample_engine = \<lparr>se_distance = (\<lambda>a b. Fin 0), se_dense_score = (\<lambda>a b. Fin 1), se_index_scan = (\<lambda>r e rows. rows),
     se_plan_rows = (\<lambda>r sc rows. Some (int (length rows))), se_match = (\<lambda>q c. True),
     se_bm25 = (\<lambda>rows q c. Fin 1), se_iter = (\<lambda>xs. xs)\<rparr>"

lemma sample_engine_ok: "engine_ok sample_engine"
  by (simp add: engine_ok_def sample_engine_def)

definition sample_recall_state :: recall_state where
  "sample_recall_state = \<lparr>rs_server = sample_state\<lparr>sv_db := embedded_db\<rparr>, rs_embeddings = empty_embeddings,
     rs_connector_status = [\<lparr>cs_tenant_id = 1, cs_source = ''s'', cs_updated_at = 0\<rparr>], rs_synced = Map.empty,
     rs_facts = Map.empty, rs_exact_scans = 0, rs_fence_drops = 0\<rparr>"

definition sample_recall_request :: recall_request where
  "sample_recall_request = \<lparr>rc_scope_handle = fst (mint (\<lambda>k m. k @ m) escape_id (\<lambda>p. ''{}'') ''k'' 0 sample_payload 60), rc_text = Some ''q'',
     rc_embedding = None, rc_k = 8, rc_max_source_staleness_secs = Some 60\<rparr>"

section \<open>Properties\<close>

text \<open>
  C14: Recall serves exactly what the handle may see: every hit a request gets back is a stored
  chunk, shown with its own content and labels, that is current, of the handle's tenant, shared
  with an unrevoked principal of the compiled scope, within the handle's class, and for an
  entity-bound handle published knowledge or a chunk tagged inside the binding. Hits are distinct, at
  most \<open>k\<close> and 100, none for an empty scope, and the audit trail names exactly the ids returned.
\<close>

theorem recall_serves_scope:
  assumes "engine_ok eng" "distinct (map ch_id (db_chunks (sv_db (rs_server st))))"
    and "recall env eng configured now uptime req st = (Inr (header, hits), st')"
  shows "\<exists>payload sc sv. verify_scope env now (rc_scope_handle req) = Inr payload \<and>
    scope_for env now uptime payload (rs_server st) = (Inr sc, sv) \<and>
    (\<forall>h \<in> set hits. \<exists>c \<in> set (db_chunks (sv_db (rs_server st))).
       h = (row_to_hit (hit_score h) c)\<lparr>hit_score := hit_score h, hit_source_synced_at := hit_source_synced_at h\<rparr> \<and>
       chunk_current c \<and> ch_tenant_id c = sp_tenant_id payload \<and>
       (\<exists>tok \<in> set (ch_visibility c) \<inter> set (sc_principals sc). allowed now payload (rs_server st) tok) \<and>
       ch_confidentiality c \<le> sp_max_confidentiality payload \<and>
       (sp_entity_scope payload \<noteq> [] \<longrightarrow> ch_kind c = ''knowledge'' \<or>
          ch_entity_tags c \<noteq> [] \<and> set (ch_entity_tags c) \<subseteq> set (sp_entity_scope payload))) \<and>
    distinct_hits hits \<and> length hits \<le> min (rc_k req) 100 \<and> (sc_principals sc = [] \<longrightarrow> hits = []) \<and>
    sv_audit (rs_server st') = sv_audit (spawn_audit payload ''recall'' (rc_text req) (map hit_chunk_id hits) (rs_server st))"
  using assms(3)
proof (rule recall_cases)
  fix payload sc sv q fetched st1 synced st2
  let ?eff = "effective_max_secs (rc_max_source_staleness_secs req) configured" and ?k = "min (rc_k req) 100"
  assume p: "verify_scope env now (rc_scope_handle req) = Inr payload"
    and s: "scope_for env now uptime payload (rs_server st) = (Inr sc, sv)"
    and q: "qy_scope q = sc" "?eff = None \<Longrightarrow> qy_k q = ?k"
    and f: "recall_storage eng q (st\<lparr>rs_server := sv\<rparr>) = (Inr fetched, st1)"
    and y: "synced_map now (sc_tenant_id sc) st1 = (synced, st2)"
    and hits: "hits = go_hits (annotate_and_gate fetched synced ?eff now ?k)"
    and sv': "rs_server st' = spawn_audit payload ''recall'' (rc_text req) (map hit_chunk_id hits) (rs_server st2)"
  note al = scope_for_allowed [OF s] and b = scope_for_bounds [OF s]
  have ids: "distinct (map ch_id (db_chunks (sv_db (rs_server (st\<lparr>rs_server := sv\<rparr>)))))" using assms(2) al(2) by simp
  note r = recall_storage_hits [OF assms(1) ids f]
  have served: "serves sc (sv_db (rs_server st)) h" if "h \<in> set hits" for h
    using that r q(1) al(2) by (auto simp: hits annotate_and_gate_hits split: option.splits dest!: in_set_takeD)
  have "distinct_hits hits"
    using r distinct_take_sort_filter(2) [of hit_chunk_id fetched]
    by (auto simp: hits annotate_and_gate_hits comp_def take_map split: option.splits)
  moreover have "length hits \<le> ?k"
    using r q(2) by (auto simp: hits annotate_and_gate_hits split: option.splits)
  moreover have "sc_principals sc = [] \<longrightarrow> hits = []"
    using r q(1) by (auto simp: hits annotate_and_gate_hits split: option.splits)
  moreover have "sv_audit (rs_server st') = sv_audit (spawn_audit payload ''recall'' (rc_text req) (map hit_chunk_id hits) (rs_server st))"
    using r synced_map_server [OF y] al(3) by (simp add: sv' spawn_audit_def)
  moreover have "\<exists>c \<in> set (db_chunks (sv_db (rs_server st))).
       h = (row_to_hit (hit_score h) c)\<lparr>hit_score := hit_score h, hit_source_synced_at := hit_source_synced_at h\<rparr> \<and>
       chunk_current c \<and> ch_tenant_id c = sp_tenant_id payload \<and>
       (\<exists>tok \<in> set (ch_visibility c) \<inter> set (sc_principals sc). allowed now payload (rs_server st) tok) \<and>
       ch_confidentiality c \<le> sp_max_confidentiality payload \<and>
       (sp_entity_scope payload \<noteq> [] \<longrightarrow> ch_kind c = ''knowledge'' \<or>
          ch_entity_tags c \<noteq> [] \<and> set (ch_entity_tags c) \<subseteq> set (sp_entity_scope payload))" if h: "h \<in> set hits" for h
  proof -
    from served [OF h] obtain c where c: "c \<in> set (db_chunks (sv_db (rs_server st)))" "chunk_acl_visible sc c"
      "entity_scope_predicate sc c" and hc: "h = (row_to_hit (hit_score h) c)\<lparr>hit_score := hit_score h, hit_source_synced_at := hit_source_synced_at h\<rparr>"
      unfolding serves_def by blast
    from c(2) obtain tok where "tok \<in> set (ch_visibility c) \<inter> set (sc_principals sc)" by (auto simp: chunk_acl_visible_def)
    with al(1) have "\<exists>tok \<in> set (ch_visibility c) \<inter> set (sc_principals sc). allowed now payload (rs_server st) tok"
      by (auto simp: list_all_iff)
    with c hc b show ?thesis
      by (intro bexI [OF _ c(1)]) (auto simp: chunk_acl_visible_def entity_scope_predicate_def split: if_splits)
  qed
  ultimately show ?thesis using p s by blast
qed

theorem recall_serves_scope_witness:
  "case recall sample_env sample_engine None 0 0 sample_recall_request sample_recall_state of
     (Inr (header, hits), st') \<Rightarrow> map hit_chunk_id hits = [1, 2] \<and> distinct_hits hits \<and> length hits \<le> 8
   | _ \<Rightarrow> False"
proof -
  let ?r = "recall sample_env sample_engine None 0 0 sample_recall_request sample_recall_state"
  have ok: "case ?r of (Inr (header, hits), st') \<Rightarrow> map hit_chunk_id hits = [1, 2] | _ \<Rightarrow> False" by code_simp
  then obtain header hits st' where r: "?r = (Inr (header, hits), st')"
    by (cases ?r; cases "fst ?r") auto
  have ids: "distinct (map ch_id (db_chunks (sv_db (rs_server sample_recall_state))))" by code_simp
  from recall_serves_scope [OF sample_engine_ok ids r] ok r show ?thesis
    by (auto simp: sample_recall_request_def)
qed

text \<open>
  The freshness fence drops and discloses: with a bound in force, every hit returned comes from a
  source that is not a polling connector or whose last heartbeat, shown on the hit, is within the
  stricter of the requested and the configured bound; and the response carries the fence header
  exactly when a hit the scope may see was dropped.
\<close>

theorem recall_source_fence:
  assumes "recall env eng configured now uptime req st = (Inr (header, hits), st')"
    and "effective_max_secs (rc_max_source_staleness_secs req) configured = Some m"
  shows "(\<forall>h \<in> set hits. passes (verdict (hit_source h) (hit_source_synced_at h) now m)) \<and>
    (\<exists>payload sc sv q fetched st1. verify_scope env now (rc_scope_handle req) = Inr payload \<and>
       scope_for env now uptime payload (rs_server st) = (Inr sc, sv) \<and> qy_scope q = sc \<and>
       recall_storage eng q (st\<lparr>rs_server := sv\<rparr>) = (Inr fetched, st1) \<and>
       (header = None \<longleftrightarrow> (\<forall>h \<in> set fetched.
          passes (verdict (hit_source h) (fst (synced_map now (sc_tenant_id sc) st1) (hit_source h)) now m))))"
  using assms(1)
proof (rule recall_cases)
  fix payload sc sv q fetched st1 synced st2
  let ?k = "min (rc_k req) 100"
  assume p: "verify_scope env now (rc_scope_handle req) = Inr payload"
    and s: "scope_for env now uptime payload (rs_server st) = (Inr sc, sv)" and q: "qy_scope q = sc"
    and f: "recall_storage eng q (st\<lparr>rs_server := sv\<rparr>) = (Inr fetched, st1)"
    and y: "synced_map now (sc_tenant_id sc) st1 = (synced, st2)"
    and hits: "hits = go_hits (annotate_and_gate fetched synced (effective_max_secs (rc_max_source_staleness_secs req) configured) now ?k)"
    and hd: "header = None \<longleftrightarrow> go_dropped (annotate_and_gate fetched synced (effective_max_secs (rc_max_source_staleness_secs req) configured) now ?k) = 0"
  have "passes (verdict (hit_source h) (hit_source_synced_at h) now m)" if "h \<in> set hits" for h
    using that by (auto simp: hits annotate_and_gate_hits assms(2) dest!: in_set_takeD)
  moreover have "header = None \<longleftrightarrow> (\<forall>h \<in> set fetched.
      passes (verdict (hit_source h) (fst (synced_map now (sc_tenant_id sc) st1) (hit_source h)) now m))"
    unfolding hd annotate_and_gate_dropped y by (simp add: assms(2))
  ultimately show ?thesis using p s q f by blast
qed

theorem recall_source_fence_witness:
  "case recall sample_env sample_engine (Some 5) 0 0 sample_recall_request
      (sample_recall_state\<lparr>rs_connector_status := [\<lparr>cs_tenant_id = 1, cs_source = ''s'', cs_updated_at = - 6000000\<rparr>]\<rparr>) of
     (Inr (header, hits), _) \<Rightarrow> header = Some ''dropped=2; stale=s'' \<and> hits = [] \<and>
        (\<forall>h \<in> set hits. passes (verdict (hit_source h) (hit_source_synced_at h) 0 5))
   | _ \<Rightarrow> False"
proof -
  let ?r = "recall sample_env sample_engine (Some 5) 0 0 sample_recall_request
      (sample_recall_state\<lparr>rs_connector_status := [\<lparr>cs_tenant_id = 1, cs_source = ''s'', cs_updated_at = - 6000000\<rparr>]\<rparr>)"
  have ok: "case ?r of (Inr (header, hits), _) \<Rightarrow> header = Some ''dropped=2; stale=s'' \<and> hits = [] | _ \<Rightarrow> False" by code_simp
  then obtain header hits st' where r: "?r = (Inr (header, hits), st')" by (cases ?r; cases "fst ?r") auto
  have e: "effective_max_secs (rc_max_source_staleness_secs sample_recall_request) (Some 5) = Some 5"
    by (simp add: sample_recall_request_def effective_max_secs_def)
  from recall_source_fence [OF r e] ok r show ?thesis by simp
qed

text \<open>
  A point read answers with a row of the requested key that the compiled scope may see, whether it
  comes from the cache, the current table or the history; the read is audited.
\<close>

lemma get_record_visible:
  assumes "get_record env now uptime key handle as_of st = (Inr row, st')"
  shows "\<exists>payload sc sv. verify_scope env now handle = Inr payload \<and>
    scope_for env now uptime payload (rs_server st) = (Inr sc, sv) \<and> fact_visible sc row \<and>
    sv_audit (rs_server st') = sv_audit (spawn_audit payload ''get''
       (Some (fk_source key @ ''/'' @ fk_entity_id key @ ''/'' @ fk_field key)) [fr_id row] (rs_server st))"
proof -
  from assms obtain payload where p: "verify_scope env now handle = Inr payload"
    by (auto simp: get_record_def split: sum.splits)
  with assms obtain sc sv where s: "scope_for env now uptime payload (rs_server st) = (Inr sc, sv)"
    by (cases "scope_for env now uptime payload (rs_server st)"; cases "fst (scope_for env now uptime payload (rs_server st))")
      (auto simp: get_record_def)
  let ?a = "\<lparr>ca_inner = sv_db sv, ca_facts = rs_facts st\<rparr>"
  have vis: "visible_only sc r = Some row \<Longrightarrow> fact_visible sc row" for r
    by (auto simp: visible_only_def split: option.splits if_splits)
  have "fact_visible sc row"
    using assms vis by (auto simp: get_record_def p s cached_fact_as_of_def cached_current_fact_def cache_fill_def Let_def
        split: option.splits prod.splits)
  moreover have "sv_audit (rs_server st') = sv_audit (spawn_audit payload ''get''
       (Some (fk_source key @ ''/'' @ fk_entity_id key @ ''/'' @ fk_field key)) [fr_id row] sv)"
    using assms by (auto simp: get_record_def p s Let_def split: option.splits prod.splits)
  ultimately show ?thesis using p s scope_for_allowed(3) [OF s] by (auto simp: spawn_audit_def)
qed

text \<open>
  A requested bound of $2^{63}$ seconds or more wraps to a negative one, and a source that has just
  beaten is dropped.
\<close>

lemma verdict_wraps: "verdict ''gdrive'' (Some now) now (2 ^ 63) = Stale now"
  by (simp add: verdict_def starts_with_def num_seconds_def u64_as_i64_def)

end
