(* ===== verification/Merged_Record.thy ===== *)
theory Merged_Record
  imports Server_Scope
begin

text \<open>
  The cross-source merged entity view: alias and precedence tables, the precedence resolver and
  \<^verbatim>\<open>merged_record\<close> (\<^verbatim>\<open>crates/verity-storage/src/postgres.rs\<close>), with the routes that maintain and
  serve it (\<^verbatim>\<open>crates/verity-server/src/main.rs\<close>). A map that the source keeps in a \<^verbatim>\<open>HashMap\<close> and
  only looks up is a map; the field groups end in a \<^verbatim>\<open>BTreeMap\<close>, so the result lists the fields in
  order. The admin token has been checked before an admin route runs.
\<close>

section \<open>Tables\<close>

record alias_member =
  am_source :: string
  am_entity_id :: string

record alias_row =
  al_tenant_id :: tenant_id
  al_member :: alias_member
  al_canonical :: string

record precedence_row =
  pc_tenant_id :: tenant_id
  pc_canonical :: string
  pc_field :: string
  pc_source_order :: "string list"

record resolution_tables =
  rt_aliases :: "alias_row list"
  rt_precedence :: "precedence_row list"
  rt_link_meta :: "entity_link_meta list"

definition upsert_entity_alias ::
  "tenant_id \<Rightarrow> string \<Rightarrow> string \<Rightarrow> string \<Rightarrow> resolution_tables \<Rightarrow> resolution_tables" where
  "upsert_entity_alias t source entity canonical rt =
     (let m = \<lparr>am_source = source, am_entity_id = entity\<rparr>;
          hit = (\<lambda>r. al_tenant_id r = t \<and> al_member r = m)
      in if list_ex hit (rt_aliases rt)
         then rt\<lparr>rt_aliases := update_where hit (\<lambda>r. r\<lparr>al_canonical := canonical\<rparr>) (rt_aliases rt)\<rparr>
         else rt\<lparr>rt_aliases := rt_aliases rt @ [\<lparr>al_tenant_id = t, al_member = m, al_canonical = canonical\<rparr>]\<rparr>)"

definition set_entity_precedence ::
  "tenant_id \<Rightarrow> string \<Rightarrow> string \<Rightarrow> string list \<Rightarrow> resolution_tables \<Rightarrow> resolution_tables" where
  "set_entity_precedence t canonical field order rt =
     (let hit = (\<lambda>r. pc_tenant_id r = t \<and> pc_canonical r = canonical \<and> pc_field r = field)
      in if list_ex hit (rt_precedence rt)
         then rt\<lparr>rt_precedence := update_where hit (\<lambda>r. r\<lparr>pc_source_order := order\<rparr>) (rt_precedence rt)\<rparr>
         else rt\<lparr>rt_precedence := rt_precedence rt @
                [\<lparr>pc_tenant_id = t, pc_canonical = canonical, pc_field = field, pc_source_order = order\<rparr>]\<rparr>)"

definition list_entity_aliases :: "tenant_id \<Rightarrow> string \<Rightarrow> resolution_tables \<Rightarrow> alias_member list" where
  "list_entity_aliases t canonical rt =
     sort_key (\<lambda>m. (am_source m, am_entity_id m))
       (map al_member (filter (\<lambda>r. al_tenant_id r = t \<and> al_canonical r = canonical) (rt_aliases rt)))"

definition resolve_canonical :: "tenant_id \<Rightarrow> string \<Rightarrow> string \<Rightarrow> resolution_tables \<Rightarrow> string option" where
  "resolve_canonical t source entity rt =
     map_option al_canonical (List.find (\<lambda>r. al_tenant_id r = t \<and>
        al_member r = \<lparr>am_source = source, am_entity_id = entity\<rparr>) (rt_aliases rt))"

text \<open>A ledger reference is split at its first colon; one that names no member stands for itself.\<close>

definition resolve_canonical_for_ref :: "tenant_id \<Rightarrow> string \<Rightarrow> resolution_tables \<Rightarrow> string" where
  "resolve_canonical_for_ref t reff rt =
     (if starts_with ''key:'' reff \<or> starts_with ''chunk:'' reff then reff
      else case split_once CHR '':'' reff of
        None \<Rightarrow> reff
      | Some (source, entity) \<Rightarrow>
          if source = [] \<or> entity = [] then reff
          else case resolve_canonical t source entity rt of None \<Rightarrow> reff | Some c \<Rightarrow> c)"

section \<open>Precedence\<close>

record precedence_config =
  pf_per_field :: "string \<rightharpoonup> string list"
  pf_entity_default :: "string list option"
  pf_global_default :: "string list option"

definition precedence_default :: precedence_config where
  "precedence_default = \<lparr>pf_per_field = Map.empty, pf_entity_default = None, pf_global_default = None\<rparr>"

definition precedence_insert :: "string \<Rightarrow> precedence_row \<Rightarrow> precedence_config \<Rightarrow> precedence_config" where
  "precedence_insert canonical row cfg =
     (let field = pc_field row; order = pc_source_order row
      in if pc_canonical row = canonical
         then if field = ''*'' then cfg\<lparr>pf_entity_default := Some order\<rparr>
              else cfg\<lparr>pf_per_field := (pf_per_field cfg)(field \<mapsto> order)\<rparr>
         else if field = ''*'' then cfg\<lparr>pf_global_default := Some order\<rparr>
              else cfg\<lparr>pf_per_field := (case pf_per_field cfg field of
                     None \<Rightarrow> (pf_per_field cfg)(field \<mapsto> order) | Some _ \<Rightarrow> pf_per_field cfg)\<rparr>)"

definition precedence_resolve :: "precedence_config \<Rightarrow> string \<Rightarrow> string list" where
  "precedence_resolve cfg field =
     (case pf_per_field cfg field of Some order \<Rightarrow> order
      | None \<Rightarrow> (case pf_entity_default cfg of Some order \<Rightarrow> order
      | None \<Rightarrow> (case pf_global_default cfg of Some order \<Rightarrow> order | None \<Rightarrow> [])))"

definition load_precedence :: "tenant_id \<Rightarrow> string \<Rightarrow> resolution_tables \<Rightarrow> precedence_config" where
  "load_precedence t canonical rt =
     foldl (\<lambda>cfg row. precedence_insert canonical row cfg) precedence_default
       (filter (\<lambda>r. pc_tenant_id r = t \<and> pc_canonical r \<in> {canonical, ''*''}) (rt_precedence rt))"

fun position :: "string \<Rightarrow> string list \<Rightarrow> nat option" where
  "position s [] = None"
| "position s (x # xs) = (if x = s then Some 0 else map_option Suc (position s xs))"

definition precedence_rank :: "string list \<Rightarrow> string \<Rightarrow> nat" where
  "precedence_rank order source = (case position source order of Some i \<Rightarrow> i | None \<Rightarrow> length order)"

section \<open>The merged record\<close>

record merged_alternative =
  ma_source :: string
  ma_value :: json
  ma_entity_id :: string
  ma_valid_from :: instant
  ma_provenance :: episode_id

record merged_field =
  mf_value :: json
  mf_winning_source :: string
  mf_winning_entity_id :: string
  mf_valid_from :: instant
  mf_provenance :: episode_id
  mf_alternatives :: "merged_alternative list"

record merged_record_view =
  mr_tenant_id :: tenant_id
  mr_canonical_entity :: string
  mr_members :: "alias_member list"
  mr_fields :: "(string \<times> merged_field) list"

text \<open>\<^verbatim>\<open>visibility && $p AND confidentiality <= $c\<close>, absent on the admin plane.\<close>

definition merged_visible :: "scope option \<Rightarrow> fact_row \<Rightarrow> bool" where
  "merged_visible sc r = (case sc of None \<Rightarrow> True | Some s \<Rightarrow>
     set (fr_visibility r) \<inter> set (sc_principals s) \<noteq> {} \<and>
     conf_code (fr_confidentiality r) \<le> conf_code (sc_max_confidentiality s))"

definition composed_ref :: "string \<Rightarrow> string \<Rightarrow> string" where
  "composed_ref source entity = source @ '':'' @ entity"

text \<open>The join with the member list yields a row once per member whose composed reference matches.\<close>

definition gather_facts :: "tenant_id \<Rightarrow> string \<Rightarrow> alias_member list \<Rightarrow> scope option \<Rightarrow> fact_row list \<Rightarrow> fact_row list" where
  "gather_facts t canonical members sc rows =
     (let live = filter (\<lambda>r. fr_tenant_id r = t \<and> is_current r \<and> merged_visible sc r) rows
      in if members = [] then filter (\<lambda>r. fk_entity_id (fr_key r) = canonical) live
         else concat (map (\<lambda>r. map (\<lambda>_. r)
                (filter (\<lambda>m. composed_ref (fk_source (fr_key r)) (fk_entity_id (fr_key r)) =
                             composed_ref (am_source m) (am_entity_id m)) members)) live))"

definition entity_fence :: "scope option \<Rightarrow> fact_row list \<Rightarrow> fact_row list" where
  "entity_fence sc rows = (case sc of None \<Rightarrow> rows | Some s \<Rightarrow>
     if sc_entity_scope s = [] then rows
     else filter (\<lambda>r. fk_entity_id (fr_key r) \<in> set (sc_entity_scope s)) rows)"

definition merge_key :: "string list \<Rightarrow> fact_row \<Rightarrow> nat \<times> int \<times> string \<times> string" where
  "merge_key order r = (precedence_rank order (fk_source (fr_key r)), - fr_valid_from r,
     fk_source (fr_key r), fk_entity_id (fr_key r))"

definition alternative_of :: "fact_row \<Rightarrow> merged_alternative" where
  "alternative_of r = \<lparr>ma_source = fk_source (fr_key r), ma_value = fr_value r,
     ma_entity_id = fk_entity_id (fr_key r), ma_valid_from = fr_valid_from r, ma_provenance = fr_provenance r\<rparr>"

definition field_of :: "fact_row list \<Rightarrow> merged_field" where
  "field_of rs = (let w = hd rs in
     \<lparr>mf_value = fr_value w, mf_winning_source = fk_source (fr_key w), mf_winning_entity_id = fk_entity_id (fr_key w),
      mf_valid_from = fr_valid_from w, mf_provenance = fr_provenance w, mf_alternatives = map alternative_of (tl rs)\<rparr>)"

definition field_facts :: "string \<Rightarrow> fact_row list \<Rightarrow> fact_row list" where
  "field_facts field rows = filter (\<lambda>r. fk_field (fr_key r) = field) rows"

definition merge_fields :: "precedence_config \<Rightarrow> fact_row list \<Rightarrow> (string \<times> merged_field) list" where
  "merge_fields cfg rows =
     map (\<lambda>field. (field, field_of (sort_key (merge_key (precedence_resolve cfg field)) (field_facts field rows))))
       (sort (remdups (map (\<lambda>r. fk_field (fr_key r)) rows)))"

definition merged_record_inner ::
  "tenant_id \<Rightarrow> string \<Rightarrow> scope option \<Rightarrow> resolution_tables \<Rightarrow> database \<Rightarrow> merged_record_view" where
  "merged_record_inner t canonical sc rt db =
     (if (case sc of None \<Rightarrow> False | Some s \<Rightarrow> sc_principals s = [])
      then \<lparr>mr_tenant_id = t, mr_canonical_entity = canonical, mr_members = [], mr_fields = []\<rparr>
      else let members = list_entity_aliases t canonical rt;
               rows = entity_fence sc (gather_facts t canonical members sc (db_facts db))
           in \<lparr>mr_tenant_id = t, mr_canonical_entity = canonical, mr_members = members,
               mr_fields = merge_fields (load_precedence t canonical rt) rows\<rparr>)"

definition merged_record :: "scope \<Rightarrow> string \<Rightarrow> resolution_tables \<Rightarrow> database \<Rightarrow> merged_record_view" where
  "merged_record sc canonical rt db = merged_record_inner (sc_tenant_id sc) canonical (Some sc) rt db"

definition merged_record_admin :: "tenant_id \<Rightarrow> string \<Rightarrow> resolution_tables \<Rightarrow> database \<Rightarrow> merged_record_view" where
  "merged_record_admin t canonical rt db = merged_record_inner t canonical None rt db"

section \<open>Routes\<close>

definition link_meta_for_canonical :: "tenant_id \<Rightarrow> string \<Rightarrow> resolution_tables \<Rightarrow> entity_link_meta option" where
  "link_meta_for_canonical t canonical rt =
     (case sort_key (\<lambda>m. (- lm_evidence_count m, lm_subject_ref m))
         (filter (\<lambda>m. lm_tenant_id m = t \<and> lm_canonical_entity m = canonical \<and> lm_subject_kind m = ''alias_member'')
           (rt_link_meta rt)) of
        [] \<Rightarrow> None | m # _ \<Rightarrow> Some m)"

fun upsert_members :: "tenant_id \<Rightarrow> string \<Rightarrow> alias_member list \<Rightarrow> resolution_tables \<Rightarrow> resolution_tables" where
  "upsert_members t canonical [] rt = rt"
| "upsert_members t canonical (m # ms) rt =
     upsert_members t canonical ms (upsert_entity_alias t (am_source m) (am_entity_id m) canonical rt)"

definition admin_entity_aliases ::
  "tenant_id \<Rightarrow> string \<Rightarrow> alias_member list \<Rightarrow> database \<Rightarrow> resolution_tables \<Rightarrow> (storage_error + nat) \<times> resolution_tables" where
  "admin_entity_aliases t canonical members db rt =
     (case ensure_tenant t db of
        Inl e \<Rightarrow> (Inl e, rt)
      | Inr _ \<Rightarrow> (Inr (length members), upsert_members t canonical members rt))"

definition admin_entity_precedence ::
  "tenant_id \<Rightarrow> string \<Rightarrow> string \<Rightarrow> string list \<Rightarrow> database \<Rightarrow> resolution_tables \<Rightarrow> (storage_error + unit) \<times> resolution_tables" where
  "admin_entity_precedence t canonical field order db rt =
     (case ensure_tenant t db of
        Inl e \<Rightarrow> (Inl e, rt)
      | Inr _ \<Rightarrow> (Inr (), set_entity_precedence t canonical field order rt))"

definition get_merged_entity ::
  "server_env \<Rightarrow> instant \<Rightarrow> nat \<Rightarrow> string \<Rightarrow> string \<Rightarrow> resolution_tables \<Rightarrow> server_state
   \<Rightarrow> (merged_record_view \<times> entity_link_meta option) handler_result" where
  "get_merged_entity env now uptime canonical handle rt st =
     (case verify_scope env now handle of
        Inl e \<Rightarrow> (Inl e, st)
      | Inr payload \<Rightarrow>
          bind_h (scope_for env now uptime payload st) (\<lambda>sc st1.
            let merged = merged_record sc canonical rt (sv_db st1);
                badge = link_meta_for_canonical (sp_tenant_id payload) canonical rt
            in (Inr (merged, badge),
                spawn_audit payload ''merged_entity'' (Some canonical) (map (\<lambda>f. mf_provenance (snd f)) (mr_fields merged)) st1)))"

section \<open>Precedence is most-specific-wins\<close>

definition stored_order :: "string \<Rightarrow> string \<Rightarrow> precedence_row list \<Rightarrow> string list option" where
  "stored_order c f rows = map_option pc_source_order (List.find (\<lambda>r. pc_canonical r = c \<and> pc_field r = f) rows)"

abbreviation load_rows :: "string \<Rightarrow> precedence_row list \<Rightarrow> precedence_config" where
  "load_rows canonical rows \<equiv> foldl (\<lambda>cfg row. precedence_insert canonical row cfg) precedence_default rows"

lemma stored_order_snoc:
  assumes "(pc_canonical r, pc_field r) \<notin> (\<lambda>r. (pc_canonical r, pc_field r)) ` set rows"
  shows "stored_order c f (rows @ [r]) =
    (if pc_canonical r = c \<and> pc_field r = f then Some (pc_source_order r) else stored_order c f rows)"
proof -
  have "List.find (\<lambda>r. pc_canonical r = c \<and> pc_field r = f) rows = None" if "pc_canonical r = c" "pc_field r = f"
    using assms that by (auto simp: find_None_filter image_iff)
  then show ?thesis by (auto simp: stored_order_def find_append split: option.splits)
qed

lemma load_rows_slots:
  assumes "distinct (map (\<lambda>r. (pc_canonical r, pc_field r)) rows)" "\<forall>r \<in> set rows. pc_canonical r \<in> {canonical, ''*''}"
  shows "pf_entity_default (load_rows canonical rows) = stored_order canonical ''*'' rows \<and>
    pf_global_default (load_rows canonical rows) = (if canonical = ''*'' then None else stored_order ''*'' ''*'' rows) \<and>
    (\<forall>f. pf_per_field (load_rows canonical rows) f =
      (if f = ''*'' then None else case stored_order canonical f rows of Some o' \<Rightarrow> Some o'
       | None \<Rightarrow> if canonical = ''*'' then None else stored_order ''*'' f rows))"
  using assms
proof (induction rows rule: rev_induct)
  case (snoc r rows)
  have new: "(pc_canonical r, pc_field r) \<notin> (\<lambda>r. (pc_canonical r, pc_field r)) ` set rows" using snoc.prems(1) by auto
  from snoc.prems have c: "pc_canonical r = canonical \<or> pc_canonical r = ''*''" by simp
  have none: "stored_order (pc_canonical r) (pc_field r) rows = None"
    using new by (auto simp: stored_order_def find_None_filter image_iff)
  define cfg where "cfg = load_rows canonical rows"
  have fold: "load_rows canonical (rows @ [r]) = precedence_insert canonical r cfg" by (simp add: cfg_def)
  have IH: "pf_entity_default cfg = stored_order canonical ''*'' rows"
    "pf_global_default cfg = (if canonical = ''*'' then None else stored_order ''*'' ''*'' rows)"
    "\<And>f. pf_per_field cfg f =
      (if f = ''*'' then None else case stored_order canonical f rows of Some o' \<Rightarrow> Some o'
       | None \<Rightarrow> if canonical = ''*'' then None else stored_order ''*'' f rows)"
    unfolding cfg_def using snoc by simp_all
  show ?case
    using c none unfolding fold by (cases "pc_canonical r = canonical"; cases "pc_field r = ''*''")
      (auto simp: stored_order_snoc [OF new] precedence_insert_def Let_def IH split: option.splits)
qed (simp_all add: precedence_default_def stored_order_def)

definition precedence_rows :: "tenant_id \<Rightarrow> string \<Rightarrow> resolution_tables \<Rightarrow> precedence_row list" where
  "precedence_rows t canonical rt = filter (\<lambda>r. pc_tenant_id r = t \<and> pc_canonical r \<in> {canonical, ''*''}) (rt_precedence rt)"

definition precedence_ok :: "resolution_tables \<Rightarrow> bool" where
  "precedence_ok rt \<longleftrightarrow> distinct (map (\<lambda>r. (pc_tenant_id r, pc_canonical r, pc_field r)) (rt_precedence rt))"

lemma precedence_rows_distinct:
  assumes "precedence_ok rt"
  shows "distinct (map (\<lambda>r. (pc_canonical r, pc_field r)) (precedence_rows t canonical rt))"
proof -
  have "distinct (map (\<lambda>r. (pc_tenant_id r, pc_canonical r, pc_field r)) (precedence_rows t canonical rt))"
    using assms by (auto simp: precedence_ok_def precedence_rows_def intro: distinct_map_filter)
  then show ?thesis by (auto simp: distinct_map precedence_rows_def inj_on_def)
qed

text \<open>
  The order in force for a field: the entity's own order for the field, else the global order for
  that field, else the entity's default, else the global default. The order the rows are read in
  plays no part.
\<close>

lemma precedence_order:
  assumes "precedence_ok rt" "field \<noteq> ''*''" "canonical \<noteq> ''*''"
  shows "precedence_resolve (load_precedence t canonical rt) field =
    (let rows = precedence_rows t canonical rt in
     case stored_order canonical field rows of Some o' \<Rightarrow> o'
     | None \<Rightarrow> (case stored_order ''*'' field rows of Some o' \<Rightarrow> o'
     | None \<Rightarrow> (case stored_order canonical ''*'' rows of Some o' \<Rightarrow> o'
     | None \<Rightarrow> (case stored_order ''*'' ''*'' rows of Some o' \<Rightarrow> o' | None \<Rightarrow> []))))"
proof -
  have "\<forall>r \<in> set (precedence_rows t canonical rt). pc_canonical r \<in> {canonical, ''*''}" by (simp add: precedence_rows_def)
  note slots = load_rows_slots [OF precedence_rows_distinct [OF assms(1)] this]
  have "load_precedence t canonical rt = load_rows canonical (precedence_rows t canonical rt)"
    by (simp add: load_precedence_def precedence_rows_def)
  with slots assms(2,3) show ?thesis
    by (simp add: precedence_resolve_def Let_def split: option.split)
qed

text \<open>An entity's default order does not override a global order for the field.\<close>

lemma entity_default_loses_to_global_field:
  "precedence_resolve (load_precedence 1 ''acme''
     \<lparr>rt_aliases = [], rt_precedence =
       [\<lparr>pc_tenant_id = 1, pc_canonical = ''acme'', pc_field = ''*'', pc_source_order = [''crm'']\<rparr>,
        \<lparr>pc_tenant_id = 1, pc_canonical = ''*'', pc_field = ''amount'', pc_source_order = [''erp'']\<rparr>], rt_link_meta = []\<rparr>) ''amount'' = [''erp'']"
  by code_simp

section \<open>What the merge is made of\<close>

definition member_fact :: "string \<Rightarrow> alias_member list \<Rightarrow> fact_row \<Rightarrow> bool" where
  "member_fact canonical members r \<longleftrightarrow>
     (if members = [] then fk_entity_id (fr_key r) = canonical
      else \<exists>m \<in> set members. composed_ref (fk_source (fr_key r)) (fk_entity_id (fr_key r)) =
             composed_ref (am_source m) (am_entity_id m))"

definition candidate :: "scope \<Rightarrow> string \<Rightarrow> resolution_tables \<Rightarrow> database \<Rightarrow> fact_row \<Rightarrow> bool" where
  "candidate sc canonical rt db r \<longleftrightarrow> r \<in> set (db_facts db) \<and> fr_tenant_id r = sc_tenant_id sc \<and> is_current r \<and>
     fact_visible sc r \<and> member_fact canonical (list_entity_aliases (sc_tenant_id sc) canonical rt) r"

abbreviation visible_facts :: "scope \<Rightarrow> fact_row list \<Rightarrow> fact_row list" where
  "visible_facts sc rows \<equiv> filter (\<lambda>r. fr_tenant_id r = sc_tenant_id sc \<and> is_current r \<and> fact_visible sc r) rows"

lemma fact_visible_merged:
  "fact_visible sc r \<longleftrightarrow> merged_visible (Some sc) r \<and>
     (sc_entity_scope sc = [] \<or> fk_entity_id (fr_key r) \<in> set (sc_entity_scope sc))"
  by (auto simp: fact_visible_iff merged_visible_def)

lemma filter_concat_const:
  "filter P (concat (map (\<lambda>r. map (\<lambda>_. r) (g r)) xs)) = concat (map (\<lambda>r. map (\<lambda>_. r) (g r)) (filter P xs))"
  by (induction xs) (auto simp: filter_map comp_def)

text \<open>Only the rows the caller may see reach the merge.\<close>

lemma gathered_visible:
  "entity_fence (Some sc) (gather_facts (sc_tenant_id sc) canonical members (Some sc) rows) =
     gather_facts (sc_tenant_id sc) canonical members (Some sc) (visible_facts sc rows)"
proof -
  have live: "filter (\<lambda>r. fr_tenant_id r = sc_tenant_id sc \<and> is_current r \<and> merged_visible (Some sc) r) (visible_facts sc rows) =
      visible_facts sc rows"
    by (rule filter_True) (simp add: fact_visible_merged)
  have fence: "visible_facts sc rows = (if sc_entity_scope sc = [] then \<lambda>x. x else filter (\<lambda>r. fk_entity_id (fr_key r) \<in> set (sc_entity_scope sc)))
      (filter (\<lambda>r. fr_tenant_id r = sc_tenant_id sc \<and> is_current r \<and> merged_visible (Some sc) r) rows)"
    by (auto simp: fact_visible_merged intro: filter_cong)
  show ?thesis
    unfolding gather_facts_def Let_def live
    by (simp only: fence) (auto simp: entity_fence_def filter_concat_const intro!: filter_cong)
qed

lemma set_gathered:
  "set (gather_facts (sc_tenant_id sc) canonical members (Some sc) (visible_facts sc rows)) =
     {r \<in> set rows. fr_tenant_id r = sc_tenant_id sc \<and> is_current r \<and> fact_visible sc r \<and> member_fact canonical members r}"
  by (auto simp: gather_facts_def Let_def member_fact_def fact_visible_merged)

lemma merged_record_fields:
  "sc_principals sc \<noteq> [] \<Longrightarrow> mr_fields (merged_record sc canonical rt db) =
     merge_fields (load_precedence (sc_tenant_id sc) canonical rt)
       (gather_facts (sc_tenant_id sc) canonical (list_entity_aliases (sc_tenant_id sc) canonical rt) (Some sc)
          (visible_facts sc (db_facts db)))"
  by (simp add: merged_record_def merged_record_inner_def Let_def gathered_visible)

lemma sort_key_hd_least:
  assumes "r \<in> set rows"
  shows "f (hd (sort_key f rows)) \<le> f r" "hd (sort_key f rows) \<in> set rows"
proof -
  from assms obtain x xs where x: "sort_key f rows = x # xs"
    by (metis list.exhaust empty_iff list.set(1) set_sort)
  then have "set rows = set (x # xs)" by (metis set_sort)
  with assms x sorted_sort_key [of f rows] show "f (hd (sort_key f rows)) \<le> f r" "hd (sort_key f rows) \<in> set rows"
    by auto
qed

lemma merge_fields_mem:
  assumes "(field, mf) \<in> set (merge_fields cfg rows)"
  shows "\<exists>r \<in> set rows. fk_field (fr_key r) = field \<and>
      mf_value mf = fr_value r \<and> mf_winning_source mf = fk_source (fr_key r) \<and>
      mf_winning_entity_id mf = fk_entity_id (fr_key r) \<and> mf_valid_from mf = fr_valid_from r \<and> mf_provenance mf = fr_provenance r \<and>
      (\<forall>r' \<in> set rows. fk_field (fr_key r') = field \<longrightarrow>
         merge_key (precedence_resolve cfg field) r \<le> merge_key (precedence_resolve cfg field) r')"
    and "\<forall>a \<in> set (mf_alternatives mf). \<exists>r \<in> set rows. fk_field (fr_key r) = field \<and> a = alternative_of r"
proof -
  let ?k = "merge_key (precedence_resolve cfg field)" and ?fs = "field_facts field rows"
  from assms have mf: "mf = field_of (sort_key ?k ?fs)" and "field \<in> (\<lambda>r. fk_field (fr_key r)) ` set rows"
    by (auto simp: merge_fields_def)
  then obtain r0 where r0: "r0 \<in> set ?fs" by (auto simp: field_facts_def)
  note w = sort_key_hd_least [OF r0, of ?k]
  show "\<exists>r \<in> set rows. fk_field (fr_key r) = field \<and>
      mf_value mf = fr_value r \<and> mf_winning_source mf = fk_source (fr_key r) \<and>
      mf_winning_entity_id mf = fk_entity_id (fr_key r) \<and> mf_valid_from mf = fr_valid_from r \<and> mf_provenance mf = fr_provenance r \<and>
      (\<forall>r' \<in> set rows. fk_field (fr_key r') = field \<longrightarrow> ?k r \<le> ?k r')"
  proof (intro bexI [of _ "hd (sort_key ?k ?fs)"] conjI ballI impI)
    fix r' assume "r' \<in> set rows" "fk_field (fr_key r') = field"
    then have "r' \<in> set ?fs" by (simp add: field_facts_def)
    from sort_key_hd_least(1) [OF this, of ?k] show "?k (hd (sort_key ?k ?fs)) \<le> ?k r'" .
  qed (use w in \<open>auto simp: mf field_of_def Let_def field_facts_def\<close>)
  show "\<forall>a \<in> set (mf_alternatives mf). \<exists>r \<in> set rows. fk_field (fr_key r) = field \<and> a = alternative_of r"
  proof
    fix a assume "a \<in> set (mf_alternatives mf)"
    then obtain r where "r \<in> set (tl (sort_key ?k ?fs))" "a = alternative_of r" by (auto simp: mf field_of_def Let_def)
    then have "r \<in> set ?fs" by (metis list.set_sel(2) set_sort tl_Nil)
    with \<open>a = alternative_of r\<close> show "\<exists>r \<in> set rows. fk_field (fr_key r) = field \<and> a = alternative_of r"
      by (auto simp: field_facts_def)
  qed
qed

lemma merge_fields_domain: "fst ` set (merge_fields cfg rows) = (\<lambda>r. fk_field (fr_key r)) ` set rows"
  by (force simp: merge_fields_def)

section \<open>Sample\<close>

definition sample_fact_row :: "uuid \<Rightarrow> string \<Rightarrow> string \<Rightarrow> string \<Rightarrow> string \<Rightarrow> principal_token list \<Rightarrow> fact_row" where
  "sample_fact_row i source entity field v vis =
     \<lparr>fr_id = i, fr_tenant_id = 1, fr_key = \<lparr>fk_source = source, fk_entity_id = entity, fk_field = field\<rparr>,
      fr_value = JString v, fr_valid_from = 0, fr_valid_to = None, fr_superseded_by = None, fr_recorded_at = 0,
      fr_visibility = vis, fr_confidentiality = Public, fr_provenance = 50, fr_acl_provenance = Mirrored\<rparr>"

definition sample_tables :: resolution_tables where
  "sample_tables = \<lparr>rt_aliases =
     [\<lparr>al_tenant_id = 1, al_member = \<lparr>am_source = ''crm'', am_entity_id = ''1''\<rparr>, al_canonical = ''acme''\<rparr>,
      \<lparr>al_tenant_id = 1, al_member = \<lparr>am_source = ''erp'', am_entity_id = ''9''\<rparr>, al_canonical = ''acme''\<rparr>],
     rt_precedence = [\<lparr>pc_tenant_id = 1, pc_canonical = ''acme'', pc_field = ''*'', pc_source_order = [''erp'', ''crm'']\<rparr>],
     rt_link_meta = []\<rparr>"

definition sample_merge_db :: database where
  "sample_merge_db = sample_db\<lparr>db_facts :=
     [sample_fact_row 1 ''crm'' ''1'' ''amount'' ''10'' [5], sample_fact_row 2 ''erp'' ''9'' ''amount'' ''99'' [6]]\<rparr>"

section \<open>Properties\<close>

text \<open>
  C16: The merged view is made of what the caller may see: the fields shown are those with a
  visible current fact of a member; each shows the value of the visible fact that comes first by source
  precedence, then recency, then source and entity; every alternative listed is such a fact
  too. Facts the caller may not see have no influence at all: with the hidden rows of the table
  replaced by any others, the response is the same.
\<close>

theorem merged_record_visible_only:
  assumes "sc_principals sc \<noteq> []" "visible_facts sc (db_facts db') = visible_facts sc (db_facts db)"
  shows "fst ` set (mr_fields (merged_record sc canonical rt db)) = {fk_field (fr_key r) |r. candidate sc canonical rt db r} \<and>
    (\<forall>(field, mf) \<in> set (mr_fields (merged_record sc canonical rt db)).
       (\<exists>r. candidate sc canonical rt db r \<and> fk_field (fr_key r) = field \<and> mf_value mf = fr_value r \<and>
          mf_winning_source mf = fk_source (fr_key r) \<and> mf_winning_entity_id mf = fk_entity_id (fr_key r) \<and>
          (\<forall>r'. candidate sc canonical rt db r' \<longrightarrow> fk_field (fr_key r') = field \<longrightarrow>
             merge_key (precedence_resolve (load_precedence (sc_tenant_id sc) canonical rt) field) r \<le>
             merge_key (precedence_resolve (load_precedence (sc_tenant_id sc) canonical rt) field) r')) \<and>
       (\<forall>a \<in> set (mf_alternatives mf). \<exists>r. candidate sc canonical rt db r \<and> fk_field (fr_key r) = field \<and> a = alternative_of r)) \<and>
    merged_record sc canonical rt db' = merged_record sc canonical rt db"
proof (intro conjI)
  let ?ms = "list_entity_aliases (sc_tenant_id sc) canonical rt"
  let ?rows = "gather_facts (sc_tenant_id sc) canonical ?ms (Some sc) (visible_facts sc (db_facts db))"
  note flds = merged_record_fields [OF assms(1), of canonical rt db]
  have cand: "set ?rows = {r. candidate sc canonical rt db r}" by (auto simp: set_gathered candidate_def)
  show "fst ` set (mr_fields (merged_record sc canonical rt db)) = {fk_field (fr_key r) |r. candidate sc canonical rt db r}"
    unfolding flds merge_fields_domain cand by auto
  show "\<forall>(field, mf) \<in> set (mr_fields (merged_record sc canonical rt db)).
       (\<exists>r. candidate sc canonical rt db r \<and> fk_field (fr_key r) = field \<and> mf_value mf = fr_value r \<and>
          mf_winning_source mf = fk_source (fr_key r) \<and> mf_winning_entity_id mf = fk_entity_id (fr_key r) \<and>
          (\<forall>r'. candidate sc canonical rt db r' \<longrightarrow> fk_field (fr_key r') = field \<longrightarrow>
             merge_key (precedence_resolve (load_precedence (sc_tenant_id sc) canonical rt) field) r \<le>
             merge_key (precedence_resolve (load_precedence (sc_tenant_id sc) canonical rt) field) r')) \<and>
       (\<forall>a \<in> set (mf_alternatives mf). \<exists>r. candidate sc canonical rt db r \<and> fk_field (fr_key r) = field \<and> a = alternative_of r)"
  proof (rule ballI, rule case_prodI2)
    fix p field mf assume "p \<in> set (mr_fields (merged_record sc canonical rt db))" "p = (field, mf)"
    then have "(field, mf) \<in> set (merge_fields (load_precedence (sc_tenant_id sc) canonical rt) ?rows)" by (simp add: flds)
    from merge_fields_mem [OF this, unfolded cand] show
       "(\<exists>r. candidate sc canonical rt db r \<and> fk_field (fr_key r) = field \<and> mf_value mf = fr_value r \<and>
          mf_winning_source mf = fk_source (fr_key r) \<and> mf_winning_entity_id mf = fk_entity_id (fr_key r) \<and>
          (\<forall>r'. candidate sc canonical rt db r' \<longrightarrow> fk_field (fr_key r') = field \<longrightarrow>
             merge_key (precedence_resolve (load_precedence (sc_tenant_id sc) canonical rt) field) r \<le>
             merge_key (precedence_resolve (load_precedence (sc_tenant_id sc) canonical rt) field) r')) \<and>
       (\<forall>a \<in> set (mf_alternatives mf). \<exists>r. candidate sc canonical rt db r \<and> fk_field (fr_key r) = field \<and> a = alternative_of r)"
      by blast
  qed
  show "merged_record sc canonical rt db' = merged_record sc canonical rt db"
    using assms(1) by (simp add: merged_record_def merged_record_inner_def Let_def gathered_visible assms(2))
qed

theorem merged_record_visible_only_witness:
  "case mr_fields (merged_record (sample_scope [5]) ''acme'' sample_tables sample_merge_db) of
     [(field, mf)] \<Rightarrow> field = ''amount'' \<and> mf_value mf = JString ''10'' \<and> mf_alternatives mf = []
   | _ \<Rightarrow> False"
proof -
  let ?db' = "sample_merge_db\<lparr>db_facts := [sample_fact_row 1 ''crm'' ''1'' ''amount'' ''10'' [5]]\<rparr>"
  have v: "visible_facts (sample_scope [5]) (db_facts ?db') = visible_facts (sample_scope [5]) (db_facts sample_merge_db)"
    and p: "sc_principals (sample_scope [5]) \<noteq> []" by code_simp+
  have "case mr_fields (merged_record (sample_scope [5]) ''acme'' sample_tables ?db') of
     [(field, mf)] \<Rightarrow> field = ''amount'' \<and> mf_value mf = JString ''10'' \<and> mf_alternatives mf = []
   | _ \<Rightarrow> False" by code_simp
  with merged_record_visible_only [OF p v, of "''acme''" sample_tables] show ?thesis by simp
qed

text \<open>
  The member list is not gated: a caller that may see no fact of an entity, here one bound to another entity,
  still learns the sources and ids it is known by.
\<close>

lemma merged_members_ungated:
  "merged_record ((sample_scope [5])\<lparr>sc_entity_scope := [''other'']\<rparr>) ''acme'' sample_tables sample_merge_db =
     \<lparr>mr_tenant_id = 1, mr_canonical_entity = ''acme'', mr_members =
        [\<lparr>am_source = ''crm'', am_entity_id = ''1''\<rparr>, \<lparr>am_source = ''erp'', am_entity_id = ''9''\<rparr>], mr_fields = []\<rparr>"
  by code_simp

text \<open>
  Composed references are ambiguous: a fact of source \<^verbatim>\<open>crm\<close> and entity \<^verbatim>\<open>x:1\<close> is merged into
  the entity that lists the member \<^verbatim>\<open>1\<close> of source \<^verbatim>\<open>crm:x\<close>.
\<close>

lemma merged_ref_collision:
  "mr_fields (merged_record (sample_scope [5]) ''acme''
     (upsert_entity_alias 1 ''crm:x'' ''1'' ''acme'' \<lparr>rt_aliases = [], rt_precedence = [], rt_link_meta = []\<rparr>)
     (sample_db\<lparr>db_facts := [sample_fact_row 1 ''crm'' ''x:1'' ''amount'' ''10'' [5]]\<rparr>)) \<noteq> []"
  by code_simp

end
