(* ===== verification/Remember.thy ===== *)
theory Remember
  imports Server_Scope
begin

text \<open>
  The agent write path \<^verbatim>\<open>remember\<close> and the ACL-correction and retirement routes
  (\<^verbatim>\<open>crates/verity-server/src/main.rs\<close>, \<^verbatim>\<open>parse_inline_acl\<close> of \<^verbatim>\<open>ingest.rs\<close>). The episode id and the
  chunk ids are arguments. The audit insert, which the server spawns, is an append to the audit
  log at the point of the spawn. Summaries take the first 120 bytes. The reply's JSON is the tuple
  of its varying parts.
\<close>

section \<open>Remember\<close>

record remember_request =
  rq_scope_handle :: string
  rq_observation :: string
  rq_entities :: "string list"
  rq_derived_from :: "uuid list option"
  rq_visibility_policy :: "string list option"

text \<open>The policy loop: known tokens inside the ceiling, once each, or the principal that is not.\<close>

fun policy_loop ::
  "(string \<Rightarrow> principal_token option) \<Rightarrow> principal_token list \<Rightarrow> string list \<Rightarrow> principal_token list
   \<Rightarrow> refusal + principal_token list" where
  "policy_loop by_principal max_set [] tokens = Inr tokens"
| "policy_loop by_principal max_set (q # qs) tokens =
     (case by_principal q of
        Some token \<Rightarrow>
          if token \<in> set max_set
          then policy_loop by_principal max_set qs (if token \<in> set tokens then tokens else tokens @ [token])
          else Inl (PolicyOutside q)
      | None \<Rightarrow> Inl (PolicyOutside q))"

definition resolve_visibility_policy ::
  "principal_row list \<Rightarrow> scope \<Rightarrow> string list \<Rightarrow> principal_token list \<Rightarrow> refusal + principal_token list" where
  "resolve_visibility_policy rows sc policy max_set =
     (let known = map (\<lambda>r. (pr_principal r, pr_token r))
            (filter (\<lambda>r. pr_tenant_id r = sc_tenant_id sc \<and> pr_principal r \<in> set policy) rows)
      in policy_loop (map_of (rev known)) max_set policy [])"

text \<open>One input of the lineage loop: narrow the audience, raise the class, collect the episode.\<close>

definition lineage_step ::
  "principal_token list \<times> confidentiality \<times> episode_id list \<Rightarrow> derivation_input
   \<Rightarrow> principal_token list \<times> confidentiality \<times> episode_id list" where
  "lineage_step acc i = (case acc of (vis, conf, eps) \<Rightarrow>
     (filter (\<lambda>t. t \<in> set (di_visibility i)) vis, max conf (di_confidentiality i),
      if di_episode_id i \<in> set eps then eps else eps @ [di_episode_id i]))"

definition resolve_lineage ::
  "scope \<Rightarrow> uuid list \<Rightarrow> database \<Rightarrow> refusal + (episode_id list \<times> (principal_token list \<times> confidentiality) option)" where
  "resolve_lineage sc refs db =
     (if refs = [] then Inr ([], None)
      else let inputs = resolve_derivation_inputs sc refs db;
               unresolved = filter (\<lambda>r. r \<notin> di_reference ` set inputs) refs
           in if unresolved \<noteq> [] then Inl (LineageNotVisible unresolved)
              else case inputs of [] \<Rightarrow> Inl Panic
                | i # _ \<Rightarrow>
                    let (vis, conf, eps) = foldl lineage_step (di_visibility i, di_confidentiality i, []) inputs
                    in Inr (eps, Some (vis, conf)))"

definition choose_acl ::
  "server_env \<Rightarrow> scope_payload \<Rightarrow> scope \<Rightarrow> uuid list \<Rightarrow> (principal_token list \<times> confidentiality) option
   \<Rightarrow> string list option \<Rightarrow> server_state
   \<Rightarrow> (principal_token list \<times> acl_provenance \<times> confidentiality) handler_result" where
  "choose_acl env p sc refs lineage policy st =
     (let rows = rd_principals (sv_rev st)
      in case (lineage, policy) of
           (Some (vis, conf), Some pol) \<Rightarrow>
             (case resolve_visibility_policy rows sc pol vis of
                Inr tokens \<Rightarrow> (Inr (tokens, Declared, conf), st)
              | Inl e \<Rightarrow> (Inl e, spawn_audit p ''remember_refused''
                           (Some ''visibility_policy widened past lineage intersection'') refs st))
         | (None, Some pol) \<Rightarrow>
             if en_remember_require_lineage env then (Inl LineageRequired, st)
             else (case resolve_visibility_policy rows sc pol (sc_principals sc) of
                     Inr tokens \<Rightarrow> (Inr (tokens, Declared, sp_max_confidentiality p), st)
                   | Inl e \<Rightarrow> (Inl e, st))
         | (Some (vis, conf), None) \<Rightarrow> (Inr (vis, Derived, conf), st)
         | (None, None) \<Rightarrow>
             if en_remember_require_lineage env then (Inl LineageRequired, st)
             else (Inr (sc_principals sc, WriterScoped, sp_max_confidentiality p), st))"

definition observation_episode ::
  "server_env \<Rightarrow> scope_payload \<Rightarrow> string \<Rightarrow> string list \<Rightarrow> episode_id list \<Rightarrow> new_episode" where
  "observation_episode env p observation entities eps =
     \<lparr>ne_tenant_id = sp_tenant_id p, ne_source = ''agent'',
      ne_source_entity = (case entities of [] \<Rightarrow> None | e # _ \<Rightarrow> Some e), ne_kind = ObservationEpisode,
      ne_payload = JObject ((if eps = [] then [] else
          [(''derived_from'', JArray (map (\<lambda>e. JString (en_uuid_str env e)) eps))]) @
        [(''entities'', JArray (map JString entities)), (''observation'', JString observation)]),
      ne_content_hash = en_md5ish env observation, ne_trust_tier = Observation,
      ne_writer_sub = sp_actor_sub p, ne_writer_azp = sp_actor_azp p\<rparr>"

definition observation_chunk ::
  "server_env \<Rightarrow> scope_payload \<Rightarrow> instant \<Rightarrow> episode_id \<Rightarrow> string \<Rightarrow> string list
   \<Rightarrow> principal_token list \<times> acl_provenance \<times> confidentiality \<Rightarrow> episode_id list \<Rightarrow> chunk_write" where
  "observation_chunk env p now eid observation entities acl eps = (case acl of (vis, prov, conf) \<Rightarrow>
     \<lparr>cw_tenant_id = sp_tenant_id p, cw_source = ''agent'', cw_document_id = ''obs:'' @ en_uuid_str env eid,
      cw_seq = 0, cw_content = observation, cw_content_hash = ''obs-'' @ en_uuid_str env eid,
      cw_embedding = en_encode env observation, cw_visibility = vis, cw_entity_tags = entities,
      cw_confidentiality = conf, cw_trust_tier = Observation, cw_valid_from = now,
      cw_provenance = eid, cw_acl_provenance = prov, cw_derived_from = eps\<rparr>)"

definition write_observation ::
  "server_env \<Rightarrow> instant \<Rightarrow> episode_id \<Rightarrow> (nat \<Rightarrow> uuid) \<Rightarrow> scope_payload \<Rightarrow> string \<Rightarrow> string list \<Rightarrow> uuid list
   \<Rightarrow> principal_token list \<times> acl_provenance \<times> confidentiality \<Rightarrow> episode_id list \<Rightarrow> server_state
   \<Rightarrow> (episode_id \<times> nat \<times> acl_provenance) handler_result" where
  "write_observation env now eid fresh p observation entities refs acl eps st =
     (case insert_episode_tx now eid (observation_episode env p observation entities eps) (sv_db st) of
        Inl e \<Rightarrow> (Inl (StorageFailed e), st)
      | Inr db1 \<Rightarrow>
          (case upsert_chunks fresh [observation_chunk env p now eid observation entities acl eps] db1 of
             Inl e \<Rightarrow> (Inl (StorageFailed e), st\<lparr>sv_db := db1\<rparr>)
           | Inr (_, db2) \<Rightarrow>
               (Inr (eid, length (fst acl), fst (snd acl)),
                record_sample (sp_tenant_id p) ''agent'' now
                  (spawn_audit p ''remember'' (Some (take 120 observation)) (eid # refs) (st\<lparr>sv_db := db2\<rparr>)))))"

definition remember ::
  "server_env \<Rightarrow> instant \<Rightarrow> nat \<Rightarrow> episode_id \<Rightarrow> (nat \<Rightarrow> uuid) \<Rightarrow> remember_request \<Rightarrow> server_state
   \<Rightarrow> (episode_id \<times> nat \<times> acl_provenance) handler_result" where
  "remember env now uptime eid fresh req st =
     bind_h (verify_scope env now (rq_scope_handle req), st) (\<lambda>p st.
     bind_h (resolve_entities p (rq_entities req), st) (\<lambda>entities st.
     bind_h (scope_for env now uptime p st) (\<lambda>sc st1.
       let refs = (case rq_derived_from req of None \<Rightarrow> [] | Some rs \<Rightarrow> rs)
       in case resolve_lineage sc refs (sv_db st1) of
            Inl (LineageNotVisible unresolved) \<Rightarrow>
              (Inl (LineageNotVisible unresolved), spawn_audit p ''remember_refused''
                 (Some ''derived_from refs not visible in this scope'') refs st1)
          | Inl e \<Rightarrow> (Inl e, st1)
          | Inr (eps, lineage) \<Rightarrow>
              bind_h (choose_acl env p sc refs lineage (rq_visibility_policy req) st1)
                (\<lambda>acl st2. write_observation env now eid fresh p (rq_observation req) entities refs acl eps st2))))"

section \<open>ACL corrections and retirement\<close>

definition i64_as_i32 :: "int \<Rightarrow> int" where
  "i64_as_i32 n = (n + 2 ^ 31) mod 2 ^ 32 - 2 ^ 31"

fun json_as_i64 :: "json \<Rightarrow> int option" where
  "json_as_i64 (JNumber n) = as_i64 n"
| "json_as_i64 _ = None"

text \<open>A unit variant reads from its name, or from a one-entry object with a null.\<close>

fun variant_name :: "json \<Rightarrow> string option" where
  "variant_name (JString s) = Some s"
| "variant_name (JObject [(k, JNull)]) = Some k"
| "variant_name _ = None"

definition confidentiality_from_value :: "json \<Rightarrow> confidentiality option" where
  "confidentiality_from_value v =
     (case variant_name v of None \<Rightarrow> None | Some s \<Rightarrow>
        if s = ''Public'' \<or> s = ''public'' then Some Public
        else if s = ''Internal'' \<or> s = ''internal'' then Some Internal
        else if s = ''Confidential'' \<or> s = ''confidential'' then Some Confidential
        else if s = ''Restricted'' \<or> s = ''restricted'' then Some Restricted
        else None)"

definition acl_provenance_from_value :: "json \<Rightarrow> acl_provenance option" where
  "acl_provenance_from_value v =
     (case variant_name v of None \<Rightarrow> None | Some s \<Rightarrow>
        List.find (\<lambda>p. acl_provenance_as_str p = s)
          [Mirrored, Approximated, AdminAssigned, Quarantined, Derived, WriterScoped, Declared])"

record resolved_acl =
  ra_visibility :: "principal_token list"
  ra_confidentiality :: confidentiality
  ra_provenance :: acl_provenance

fun collect_tokens :: "json list \<Rightarrow> principal_token list option" where
  "collect_tokens [] = Some []"
| "collect_tokens (v # vs) =
     (case json_as_i64 v of None \<Rightarrow> None
      | Some n \<Rightarrow> map_option ((#) (i64_as_i32 n)) (collect_tokens vs))"

definition parse_inline_acl :: "json \<Rightarrow> resolved_acl option" where
  "parse_inline_acl payload =
     (case json_get payload ''verity_acl'' of
        Some (JObject block) \<Rightarrow>
          (case Option.bind (Option.bind (map_of block ''visibility'') as_array) collect_tokens of
             None \<Rightarrow> None
           | Some vis \<Rightarrow>
               (case (case map_of block ''confidentiality'' of None \<Rightarrow> Some Internal
                      | Some v \<Rightarrow> confidentiality_from_value v) of
                  None \<Rightarrow> None
                | Some conf \<Rightarrow>
                    (case (case map_of block ''acl_provenance'' of None \<Rightarrow> Some Mirrored
                           | Some v \<Rightarrow> acl_provenance_from_value v) of
                       None \<Rightarrow> None
                     | Some prov \<Rightarrow>
                         Some \<lparr>ra_visibility = vis, ra_confidentiality = conf, ra_provenance = prov\<rparr>)))
      | _ \<Rightarrow> None)"

record acl_change_request =
  aq_tenant_id :: tenant_id
  aq_source :: string
  aq_object :: "string option"
  aq_fact :: "(string \<times> string) option"
  aq_verity_acl :: json

text \<open>\<^verbatim>\<open>storage_status\<close>.\<close>

fun storage_status :: "storage_error \<Rightarrow> refusal" where
  "storage_status (UnknownTenant _) = TenantUnknown"
| "storage_status (InvalidInput msg) = ReasonUnknown msg"
| "storage_status (Database msg) = StorageFailed (Database msg)"

definition clamp_up :: "acl_correction_reason \<Rightarrow> confidentiality option \<Rightarrow> confidentiality \<Rightarrow> confidentiality" where
  "clamp_up reason cur conf =
     (if reason = SourceUnshare then (case cur of Some c \<Rightarrow> max conf c | None \<Rightarrow> conf) else conf)"

definition dispatch_acl_correction ::
  "(nat \<Rightarrow> uuid) \<Rightarrow> acl_change_request \<Rightarrow> acl_correction_reason \<Rightarrow> string \<Rightarrow> database
   \<Rightarrow> (refusal + (string \<times> nat)) \<times> database" where
  "dispatch_acl_correction fresh req reason changed_by db =
     (case parse_inline_acl (JObject [(''verity_acl'', aq_verity_acl req)]) of
        None \<Rightarrow> (Inl AclMalformed, db)
      | Some acl \<Rightarrow>
          if ra_provenance acl = Quarantined then (Inl AclQuarantined, db)
          else (case ensure_tenant (aq_tenant_id req) db of
            Inl e \<Rightarrow> (Inl (storage_status e), db)
          | Inr _ \<Rightarrow>
              (case (aq_object req, aq_fact req) of
                 (Some doc, None) \<Rightarrow>
                   let conf = clamp_up reason
                         (current_chunk_confidentiality (aq_tenant_id req) (aq_source req) doc db) (ra_confidentiality acl);
                       (n, db') = correct_chunk_acl fresh (aq_tenant_id req) (aq_source req) doc (ra_visibility acl)
                         conf reason (ra_provenance acl) (Some changed_by) db
                   in (if n = 0 then Inl (NothingRewritten doc) else Inr (''document'', n), db')
               | (None, Some (entity, field)) \<Rightarrow>
                   let key = \<lparr>fk_source = aq_source req, fk_entity_id = entity, fk_field = field\<rparr>;
                       conf = clamp_up reason (current_fact_confidentiality (aq_tenant_id req) key db) (ra_confidentiality acl)
                   in (case correct_fact_acl (fresh 0) (aq_tenant_id req) key (ra_visibility acl) conf reason
                             (ra_provenance acl) (Some changed_by) db of
                         Inl e \<Rightarrow> (Inl (storage_status e), db)
                       | Inr (n, db') \<Rightarrow>
                           (if n = 0 then Inl (NothingRewritten (entity @ ''/'' @ field)) else Inr (''fact'', n), db'))
               | _ \<Rightarrow> (Inl TargetAmbiguous, db))))"

text \<open>The two routes, behind the admin check.\<close>

definition ingest_acl_change ::
  "(nat \<Rightarrow> uuid) \<Rightarrow> acl_change_request \<Rightarrow> database \<Rightarrow> (refusal + (string \<times> nat)) \<times> database" where
  "ingest_acl_change fresh req db =
     dispatch_acl_correction fresh req SourceUnshare (''connector:'' @ aq_source req) db"

definition admin_correct_acl ::
  "(nat \<Rightarrow> uuid) \<Rightarrow> acl_change_request \<Rightarrow> string \<Rightarrow> database \<Rightarrow> (refusal + (string \<times> nat)) \<times> database" where
  "admin_correct_acl fresh req actor_fingerprint db =
     dispatch_acl_correction fresh req AdminCorrection actor_fingerprint db"

definition retire_reasons :: "string list" where
  "retire_reasons = [''removed'', ''quarantined'', ''acl_unresolvable'']"

definition admin_retire_document ::
  "instant \<Rightarrow> uuid \<Rightarrow> tenant_id \<Rightarrow> string \<Rightarrow> string \<Rightarrow> string \<Rightarrow> database \<Rightarrow> (refusal + nat) \<times> database" where
  "admin_retire_document now ledger_id t source doc reason db =
     (if reason \<notin> set retire_reasons then (Inl (ReasonUnknown reason), db)
      else case ensure_tenant t db of
        Inl e \<Rightarrow> (Inl (storage_status e), db)
      | Inr _ \<Rightarrow>
          (case retire_document now ledger_id t source doc reason db of
             Inl e \<Rightarrow> (Inl (storage_status e), db)
           | Inr (n, db') \<Rightarrow> (Inr n, db')))"

section \<open>Lemmas\<close>

lemma policy_loop_subset:
  "policy_loop m ms qs acc = Inr tokens \<Longrightarrow> set tokens \<subseteq> set acc \<union> set ms"
  by (induction qs arbitrary: acc) (fastforce split: option.splits if_splits)+

lemma resolve_visibility_policy_subset:
  "resolve_visibility_policy rows sc pol ms = Inr tokens \<Longrightarrow> set tokens \<subseteq> set ms"
  using policy_loop_subset by (fastforce simp: resolve_visibility_policy_def Let_def)

lemma choose_acl_Inr:
  assumes "choose_acl env p sc refs lineage policy st = (Inr (vis, prov, conf), st')"
  shows "st' = st"
    and "case lineage of None \<Rightarrow> set vis \<subseteq> set (sc_principals sc) \<and> conf = sp_max_confidentiality p \<and>
           \<not> en_remember_require_lineage env
         | Some (v, c) \<Rightarrow> set vis \<subseteq> set v \<and> conf = c"
    and "policy = None \<Longrightarrow> vis = (case lineage of None \<Rightarrow> sc_principals sc | Some (v, c) \<Rightarrow> v)"
  using assms
  by (auto simp: choose_acl_def Let_def split: option.splits sum.splits if_splits
      dest: resolve_visibility_policy_subset [THEN subsetD])

lemma lineage_fold:
  assumes "foldl lineage_step (vis, conf, eps) is = (vis', conf', eps')"
  shows "set vis' = set vis \<inter> (\<Inter>i \<in> set is. set (di_visibility i))" "conf \<le> conf'"
    "i \<in> set is \<Longrightarrow> di_confidentiality i \<le> conf'"
proof -
  have "set vis' = set vis \<inter> (\<Inter>i \<in> set is. set (di_visibility i)) \<and> conf \<le> conf' \<and>
    (i \<in> set is \<longrightarrow> di_confidentiality i \<le> conf')"
    using assms
  proof (induction "is" arbitrary: vis conf eps)
    case (Cons j js)
    from Cons.prems obtain eps1 where
      "foldl lineage_step (filter (\<lambda>t. t \<in> set (di_visibility j)) vis, max conf (di_confidentiality j), eps1) js = (vis', conf', eps')"
      by (simp add: lineage_step_def [of "(vis, conf, eps)" j])
    from Cons.IH [OF this] show ?case by auto
  qed simp
  then show "set vis' = set vis \<inter> (\<Inter>i \<in> set is. set (di_visibility i))" "conf \<le> conf'"
    "i \<in> set is \<Longrightarrow> di_confidentiality i \<le> conf'" by simp_all
qed

text \<open>The rows a writer cites and may read: current, in its scope, named by id or by episode.\<close>

definition cited_rows :: "scope \<Rightarrow> uuid list \<Rightarrow> database \<Rightarrow> chunk_row set" where
  "cited_rows sc refs db = {c \<in> set (db_chunks db). citable sc c \<and> (\<exists>ref \<in> set refs. cites ref c)}"

lemma input_visibility:
  assumes "i \<in> set (resolve_derivation_inputs sc refs db)"
  shows "set (di_visibility i) = (\<Inter>c \<in> cited_rows sc [di_reference i] db. set (ch_visibility c))"
proof -
  define rows where "rows = filter (\<lambda>c. chunk_acl_visible sc c \<and>
     (ch_id c \<in> set refs \<or> ch_provenance c \<in> set refs) \<and> entity_scope_predicate sc c) (db_chunks db)"
  from assms obtain r where r: "r \<in> set refs" "derivation_fold rows r = Some i"
    by (auto simp: resolve_derivation_inputs_def rows_def Let_def map_filter_def split: if_splits)
  have ref: "di_reference i = r" by (rule derivation_fold_Some(1) [OF r(2)])
  have "{c \<in> set rows. cites r c} = cited_rows sc [r] db"
    using r(1) by (auto simp: rows_def cited_rows_def citable_def cites_def)
  with derivation_fold_Some(3) [OF r(2)] show ?thesis by (simp add: ref)
qed

text \<open>Every reference resolves, or the request is refused and names those that do not.\<close>

lemma resolve_lineage_refs:
  "(\<exists>out. resolve_lineage sc refs db = Inr out) \<longleftrightarrow>
     (\<forall>r \<in> set refs. \<exists>i \<in> set (resolve_derivation_inputs sc refs db). di_reference i = r)"
  "resolve_lineage sc refs db \<noteq> Inl Panic"
proof -
  let ?is = "resolve_derivation_inputs sc refs db"
  have un: "filter (\<lambda>r. r \<notin> di_reference ` set ?is) refs = [] \<longleftrightarrow>
      (\<forall>r \<in> set refs. \<exists>i \<in> set ?is. di_reference i = r)"
    by (auto simp: filter_empty_conv)
  have ne: "?is \<noteq> []" if "refs \<noteq> []" "\<forall>r \<in> set refs. \<exists>i \<in> set ?is. di_reference i = r"
    using that by (cases refs) auto
  show "(\<exists>out. resolve_lineage sc refs db = Inr out) \<longleftrightarrow> (\<forall>r \<in> set refs. \<exists>i \<in> set ?is. di_reference i = r)"
    using ne by (auto simp: resolve_lineage_def Let_def un split: list.splits prod.splits)
  show "resolve_lineage sc refs db \<noteq> Inl Panic"
    using ne by (auto simp: resolve_lineage_def Let_def un split: list.splits prod.splits)
qed

lemma resolve_lineage_Inr:
  assumes "resolve_lineage sc refs db = Inr (eps, lineage)"
  shows "refs = [] \<Longrightarrow> lineage = None"
    and "refs \<noteq> [] \<Longrightarrow> \<exists>vis conf. lineage = Some (vis, conf) \<and>
       set vis = (\<Inter>c \<in> cited_rows sc refs db. set (ch_visibility c)) \<and>
       (\<forall>c \<in> cited_rows sc refs db. ch_confidentiality c \<le> conf)"
    and "ref \<in> set refs \<Longrightarrow> cited_rows sc [ref] db \<noteq> {}"
proof -
  let ?is = "resolve_derivation_inputs sc refs db"
  show "refs = [] \<Longrightarrow> lineage = None" using assms by (simp add: resolve_lineage_def)
  from resolve_lineage_refs(1) [of sc refs db] assms
  have all: "\<forall>r \<in> set refs. \<exists>i \<in> set ?is. di_reference i = r" by blast
  then show "ref \<in> set refs \<Longrightarrow> cited_rows sc [ref] db \<noteq> {}"
    using resolve_derivation_inputs_mem(2) by (fastforce simp: cited_rows_def)
  have cited: "(\<Union>i \<in> set ?is. cited_rows sc [di_reference i] db) = cited_rows sc refs db"
    using all resolve_derivation_inputs_mem(1) by (fastforce simp: cited_rows_def)
  assume ne: "refs \<noteq> []"
  from assms ne obtain j js where is_eq: "?is = j # js"
    by (auto simp: resolve_lineage_def Let_def split: if_splits list.splits)
  obtain vis conf eps' where f: "foldl lineage_step (di_visibility j, di_confidentiality j, []) ?is = (vis, conf, eps')"
    by (metis prod_cases3)
  from assms ne is_eq f have lin: "lineage = Some (vis, conf)"
    by (auto simp: resolve_lineage_def Let_def split: if_splits prod.splits)
  have "set vis = (\<Inter>i \<in> set ?is. set (di_visibility i))" using lineage_fold(1) [OF f] is_eq by auto
  also have "\<dots> = (\<Inter>i \<in> set ?is. \<Inter>c \<in> cited_rows sc [di_reference i] db. set (ch_visibility c))"
    by (rule INF_cong [OF refl]) (rule input_visibility)
  also have "\<dots> = (\<Inter>c \<in> cited_rows sc refs db. set (ch_visibility c))" unfolding cited [symmetric] by blast
  finally have vis: "set vis = (\<Inter>c \<in> cited_rows sc refs db. set (ch_visibility c))" .
  have "ch_confidentiality c \<le> conf" if c: "c \<in> cited_rows sc refs db" for c
  proof -
    from c cited obtain i where i: "i \<in> set ?is" "c \<in> cited_rows sc [di_reference i] db" by blast
    from lineage_fold(3) [OF f i(1)] resolve_derivation_inputs_mem(3) [OF i(1), of c] i(2) show ?thesis
      by (auto simp: cited_rows_def)
  qed
  with lin vis show "\<exists>vis conf. lineage = Some (vis, conf) \<and>
       set vis = (\<Inter>c \<in> cited_rows sc refs db. set (ch_visibility c)) \<and>
       (\<forall>c \<in> cited_rows sc refs db. ch_confidentiality c \<le> conf)" by blast
qed

lemma upsert_one_labels:
  assumes up: "upsert_chunks fresh [c] db = Inr (n, db')" and g: "\<And>t c. g (close_chunk t c) = g c"
  shows "map g (db_chunks db') = map g (db_chunks db) \<and> n = 0 \<and> write_key c \<in> chunk_key ` set (db_chunks db) \<or>
    map g (db_chunks db') = map g (db_chunks db) @ [g (chunk_row_of (fresh 0) c)] \<and> n = 1"
  using up
proof (rule upsert_chunks_Inr)
  fix db1
  assume loop: "upsert_chunk_loop fresh 0 [c] 0 db = Inr (n, db1)"
    and rows: "db_chunks db' = snd (close_tails (tails_of [c]) (db_chunks db1))"
  from loop have one: "upsert_chunk (fresh 0) c db = Inr (n, db1)" by (auto simp: and_then_Inr)
  let ?P = "\<lambda>r. of_document (cw_tenant_id c) (cw_source c) (cw_document_id c) r \<and>
    ch_seq r = cw_seq c \<and> chunk_current r \<and> ch_valid_from r < cw_valid_from c"
  let ?rows = "update_where ?P (close_chunk (cw_valid_from c)) (db_chunks db)"
  have keep: "map g ?rows = map g (db_chunks db)" "map chunk_key ?rows = map chunk_key (db_chunks db)"
    by (rule update_where_keeps; simp add: g)+
  have "chunk_key ` set ?rows = chunk_key ` set (db_chunks db)"
    using arg_cong [OF keep(2), of set] by (simp only: set_map)
  with insert_chunk_row_chunks [OF one [unfolded upsert_chunk_def]]
  have "write_key c \<in> chunk_key ` set (db_chunks db) \<and> n = 0 \<and> db_chunks db1 = ?rows \<or>
      n = 1 \<and> db_chunks db1 = ?rows @ [chunk_row_of (fresh 0) c]" by auto
  moreover have "map g (db_chunks db') = map g (db_chunks db1)"
    unfolding rows by (rule close_tails_keeps) (rule g)
  ultimately show ?thesis using keep(1) by auto
qed

lemma remember_Inr:
  assumes "remember env now uptime eid fresh req st = (Inr out, st')"
  obtains p entities sc st1 eps lineage acl where
    "verify_scope env now (rq_scope_handle req) = Inr p"
    "resolve_entities p (rq_entities req) = Inr entities"
    "scope_for env now uptime p st = (Inr sc, st1)"
    "resolve_lineage sc (case rq_derived_from req of None \<Rightarrow> [] | Some rs \<Rightarrow> rs) (sv_db st) = Inr (eps, lineage)"
    "choose_acl env p sc (case rq_derived_from req of None \<Rightarrow> [] | Some rs \<Rightarrow> rs) lineage
       (rq_visibility_policy req) st1 = (Inr acl, st1)"
    "write_observation env now eid fresh p (rq_observation req) entities
       (case rq_derived_from req of None \<Rightarrow> [] | Some rs \<Rightarrow> rs) acl eps st1 = (Inr out, st')"
proof -
  let ?refs = "case rq_derived_from req of None \<Rightarrow> [] | Some rs \<Rightarrow> rs"
  from assms obtain p entities sc st1 where
    p: "verify_scope env now (rq_scope_handle req) = Inr p" "resolve_entities p (rq_entities req) = Inr entities"
      "scope_for env now uptime p st = (Inr sc, st1)"
    and rest: "(case resolve_lineage sc ?refs (sv_db st1) of
            Inl (LineageNotVisible unresolved) \<Rightarrow>
              (Inl (LineageNotVisible unresolved), spawn_audit p ''remember_refused''
                 (Some ''derived_from refs not visible in this scope'') ?refs st1)
          | Inl e \<Rightarrow> (Inl e, st1)
          | Inr (eps, lineage) \<Rightarrow>
              bind_h (choose_acl env p sc ?refs lineage (rq_visibility_policy req) st1)
                (\<lambda>acl st2. write_observation env now eid fresh p (rq_observation req) entities ?refs acl eps st2))
        = (Inr out, st')"
    unfolding remember_def bind_h_Inr Let_def by auto
  have db: "sv_db st1 = sv_db st" by (rule scope_for_allowed(2) [OF p(3)])
  from rest obtain eps lineage where lin: "resolve_lineage sc ?refs (sv_db st) = Inr (eps, lineage)"
    unfolding db by (auto split: sum.splits refusal.splits)
  with rest obtain acl st2 where acl: "choose_acl env p sc ?refs lineage (rq_visibility_policy req) st1 = (Inr acl, st2)"
    and w: "write_observation env now eid fresh p (rq_observation req) entities ?refs acl eps st2 = (Inr out, st')"
    by (auto simp: db bind_h_Inr)
  obtain vis prov conf where "acl = (vis, prov, conf)" by (metis prod_cases3)
  with acl have "st2 = st1" using choose_acl_Inr(1) by blast
  with that p lin acl w show thesis by blast
qed

lemma write_observation_Inr:
  assumes "write_observation env now eid fresh p obs entities refs acl eps st = (Inr out, st')"
  obtains db1 n where "db_chunks db1 = db_chunks (sv_db st)" "eid \<notin> ep_id ` set (db_episodes (sv_db st))"
    "upsert_chunks fresh [observation_chunk env p now eid obs entities acl eps] db1 = Inr (n, sv_db st')"
    "out = (eid, length (fst acl), fst (snd acl))"
proof -
  from assms obtain db1 where ep: "insert_episode_tx now eid (observation_episode env p obs entities eps) (sv_db st) = Inr db1"
    by (auto simp: write_observation_def split: sum.splits)
  with assms obtain n db2 where up: "upsert_chunks fresh [observation_chunk env p now eid obs entities acl eps] db1 = Inr (n, db2)"
    by (auto simp: write_observation_def split: sum.splits)
  from assms ep up have "sv_db st' = db2" "out = (eid, length (fst acl), fst (snd acl))"
    by (auto simp: write_observation_def record_sample_def spawn_audit_def)
  moreover from ep have "db_chunks db1 = db_chunks (sv_db st)" "eid \<notin> ep_id ` set (db_episodes (sv_db st))"
    by (auto simp: insert_episode_tx_def split: if_splits)
  ultimately show thesis using that up by blast
qed

text \<open>The rows an observation adds carry the chosen label and nothing else.\<close>

definition chunk_label :: "chunk_row \<Rightarrow> episode_id \<times> principal_token list \<times> confidentiality \<times> acl_provenance \<times> string list \<times> episode_id list" where
  "chunk_label c = (ch_provenance c, ch_visibility c, ch_confidentiality c, ch_acl_provenance c, ch_entity_tags c, ch_derived_from c)"

lemma chunk_label_close [simp]: "chunk_label (close_chunk t c) = chunk_label c"
  by (simp add: chunk_label_def close_chunk_def)

lemma write_observation_row:
  assumes w: "write_observation env now eid fresh p obs entities refs (vis, prov, conf) eps st = (Inr out, st')"
    and ok: "chunks_ok (sv_db st)"
  shows "r \<in> set (db_chunks (sv_db st')) \<Longrightarrow> ch_provenance r = eid \<Longrightarrow>
      chunk_label r = (eid, vis, conf, prov, entities, eps)"
    and "\<not> list_ex (of_document (sp_tenant_id p) ''agent'' (''obs:'' @ en_uuid_str env eid)) (db_chunks (sv_db st)) \<Longrightarrow>
      \<exists>r \<in> set (db_chunks (sv_db st')). chunk_label r = (eid, vis, conf, prov, entities, eps)"
proof -
  let ?c = "observation_chunk env p now eid obs entities (vis, prov, conf) eps"
  obtain db1 n where db1: "db_chunks db1 = db_chunks (sv_db st)" "eid \<notin> ep_id ` set (db_episodes (sv_db st))"
    and up: "upsert_chunks fresh [?c] db1 = Inr (n, sv_db st')"
    using w by (rule write_observation_Inr)
  have new: "chunk_label (chunk_row_of (fresh 0) ?c) = (eid, vis, conf, prov, entities, eps)"
    by (simp add: chunk_label_def chunk_row_of_def observation_chunk_def)
  from upsert_one_labels [OF up, of chunk_label] new db1(1)
  consider "map chunk_label (db_chunks (sv_db st')) = map chunk_label (db_chunks (sv_db st))"
      "write_key ?c \<in> chunk_key ` set (db_chunks (sv_db st))"
    | "map chunk_label (db_chunks (sv_db st')) = map chunk_label (db_chunks (sv_db st)) @ [(eid, vis, conf, prov, entities, eps)]"
    by auto
  note labels = this
  have old: "ch_provenance c \<noteq> eid" if "c \<in> set (db_chunks (sv_db st))" for c
    using ok db1(2) that by (auto simp: chunks_ok_def list_all_iff)
  have old_label: "chunk_label r \<noteq> chunk_label c" if "ch_provenance r = eid" "c \<in> set (db_chunks (sv_db st))" for r c
    using old [OF that(2)] that(1) by (simp add: chunk_label_def)
  show "chunk_label r = (eid, vis, conf, prov, entities, eps)"
    if r: "r \<in> set (db_chunks (sv_db st'))" "ch_provenance r = eid"
  proof -
    from r(1) have "chunk_label r \<in> set (map chunk_label (db_chunks (sv_db st')))" by simp
    with labels show ?thesis using old_label [OF r(2)] by cases auto
  qed
  assume no: "\<not> list_ex (of_document (sp_tenant_id p) ''agent'' (''obs:'' @ en_uuid_str env eid)) (db_chunks (sv_db st))"
  have "write_key ?c \<notin> chunk_key ` set (db_chunks (sv_db st))"
    using no by (auto simp: write_key_def observation_chunk_def chunk_key_def list_ex_iff of_document_def)
  with labels have "map chunk_label (db_chunks (sv_db st')) =
      map chunk_label (db_chunks (sv_db st)) @ [(eid, vis, conf, prov, entities, eps)]" by cases blast+
  then have "(eid, vis, conf, prov, entities, eps) \<in> set (map chunk_label (db_chunks (sv_db st')))" by simp
  then show "\<exists>r \<in> set (db_chunks (sv_db st')). chunk_label r = (eid, vis, conf, prov, entities, eps)" by auto
qed

lemma resolve_entities_within:
  "resolve_entities p requested = Inr entities \<Longrightarrow> sp_entity_scope p \<noteq> [] \<Longrightarrow>
     entities \<noteq> [] \<and> set entities \<subseteq> set (sp_entity_scope p)"
  by (auto simp: resolve_entities_def list_all_iff split: if_splits)

section \<open>Properties\<close>

text \<open>
  C9: What an agent writes carries the label of what it cites, or of itself. A successful \<^verbatim>\<open>remember\<close> adds a
  row under its own episode id. With declared lineage every reference named at least one row the
  writer can read, the row's audience lies inside the intersection of the audiences of all the
  cited rows the writer can read, and is exactly that intersection when no policy narrows it, and
  its class is at least theirs; rows of a cited episode that are hidden from the writer take no
  part, and the intersection may name principals the writer does not hold. Without lineage the
  audience lies inside the writer's compiled principals, is exactly those when no policy narrows
  it, and the class is the handle's ceiling. In an entity-bound scope the row's tags are non-empty
  and inside the scope.
\<close>

theorem remember_inherits_label:
  assumes run: "remember env now uptime eid fresh req st = (Inr out, st')"
    and scope: "verify_scope env now (rq_scope_handle req) = Inr p" "scope_for env now uptime p st = (Inr sc, st1)"
    and ok: "chunks_ok (sv_db st)"
    and refs: "refs = (case rq_derived_from req of None \<Rightarrow> [] | Some rs \<Rightarrow> rs)"
    and cited: "cited = cited_rows sc refs (sv_db st)"
  shows "(\<not> list_ex (of_document (sp_tenant_id p) ''agent'' (''obs:'' @ en_uuid_str env eid)) (db_chunks (sv_db st)) \<longrightarrow>
       (\<exists>r \<in> set (db_chunks (sv_db st')). ch_provenance r = eid)) \<and>
    (\<forall>ref \<in> set refs. cited_rows sc [ref] (sv_db st) \<noteq> {}) \<and>
    (\<forall>r \<in> set (db_chunks (sv_db st')). ch_provenance r = eid \<longrightarrow>
       (if refs = []
        then set (ch_visibility r) \<subseteq> set (sc_principals sc) \<and> ch_confidentiality r = sp_max_confidentiality p \<and>
             (rq_visibility_policy req = None \<longrightarrow> ch_visibility r = sc_principals sc)
        else set (ch_visibility r) \<subseteq> (\<Inter>c \<in> cited. set (ch_visibility c)) \<and>
             (\<forall>c \<in> cited. ch_confidentiality c \<le> ch_confidentiality r) \<and>
             (rq_visibility_policy req = None \<longrightarrow> set (ch_visibility r) = (\<Inter>c \<in> cited. set (ch_visibility c)))) \<and>
       (sp_entity_scope p \<noteq> [] \<longrightarrow> ch_entity_tags r \<noteq> [] \<and> set (ch_entity_tags r) \<subseteq> set (sp_entity_scope p)))"
  using run
proof (rule remember_Inr)
  fix p' entities sc' st1' eps lineage acl
  assume same: "verify_scope env now (rq_scope_handle req) = Inr p'" "scope_for env now uptime p' st = (Inr sc', st1')"
    and ents: "resolve_entities p' (rq_entities req) = Inr entities"
    and lin: "resolve_lineage sc' (case rq_derived_from req of None \<Rightarrow> [] | Some rs \<Rightarrow> rs) (sv_db st) = Inr (eps, lineage)"
    and acl: "choose_acl env p' sc' (case rq_derived_from req of None \<Rightarrow> [] | Some rs \<Rightarrow> rs) lineage
       (rq_visibility_policy req) st1' = (Inr acl, st1')"
    and w: "write_observation env now eid fresh p' (rq_observation req) entities
       (case rq_derived_from req of None \<Rightarrow> [] | Some rs \<Rightarrow> rs) acl eps st1' = (Inr out, st')"
  from same scope have eq: "p' = p" "sc' = sc" "st1' = st1" by auto
  obtain vis prov conf where a: "acl = (vis, prov, conf)" by (metis prod_cases3)
  have db: "sv_db st1 = sv_db st" by (rule scope_for_allowed(2) [OF scope(2)])
  note row = write_observation_row [OF w [unfolded a eq], unfolded db, OF ok]
  note bound = choose_acl_Inr(2,3) [OF acl [unfolded a eq]]
  note lineage = resolve_lineage_Inr [OF lin [folded refs, unfolded eq]]
  have label: "if refs = [] then set vis \<subseteq> set (sc_principals sc) \<and> conf = sp_max_confidentiality p \<and>
       (rq_visibility_policy req = None \<longrightarrow> vis = sc_principals sc)
     else set vis \<subseteq> (\<Inter>c \<in> cited. set (ch_visibility c)) \<and> (\<forall>c \<in> cited. ch_confidentiality c \<le> conf) \<and>
       (rq_visibility_policy req = None \<longrightarrow> set vis = (\<Inter>c \<in> cited. set (ch_visibility c)))"
  proof (cases "refs = []")
    case True
    with lineage(1) bound show ?thesis by simp
  next
    case False
    from lineage(2) [OF False] obtain v c where l: "lineage = Some (v, c)"
      "set v = (\<Inter>c \<in> cited. set (ch_visibility c))" "\<forall>d \<in> cited. ch_confidentiality d \<le> c"
      unfolding cited by blast
    have "set vis \<subseteq> set v" "conf = c" "rq_visibility_policy req = None \<Longrightarrow> vis = v" using bound l(1) by simp_all
    with l False show ?thesis by simp
  qed
  have "\<exists>r \<in> set (db_chunks (sv_db st')). ch_provenance r = eid"
    if "\<not> list_ex (of_document (sp_tenant_id p) ''agent'' (''obs:'' @ en_uuid_str env eid)) (db_chunks (sv_db st))"
    using row(2) [OF that] by (auto simp: chunk_label_def)
  moreover have "ch_visibility r = vis \<and> ch_confidentiality r = conf \<and> ch_entity_tags r = entities"
    if "r \<in> set (db_chunks (sv_db st'))" "ch_provenance r = eid" for r
    using row(1) [OF that] by (simp add: chunk_label_def)
  ultimately show ?thesis
    using label lineage(3) resolve_entities_within [OF ents [unfolded eq]]
    by (intro conjI ballI impI) (simp_all only:, simp_all)
qed

definition sample_handle :: string where
  "sample_handle = fst (mint (\<lambda>k m. k @ m) escape_id (\<lambda>p. ''{}'') ''k'' 0 sample_payload 60)"

definition sample_remember :: "uuid list option \<Rightarrow> remember_request" where
  "sample_remember refs = \<lparr>rq_scope_handle = sample_handle, rq_observation = ''renewal at risk'',
     rq_entities = [''acme''], rq_derived_from = refs, rq_visibility_policy = None\<rparr>"

theorem remember_inherits_label_witness:
  "case remember sample_env 0 0 50 (\<lambda>j. j + 100) (sample_remember (Some [1])) sample_state of
     (Inr _, st') \<Rightarrow> (\<exists>r \<in> set (db_chunks (sv_db st')). ch_provenance r = 50) | _ \<Rightarrow> False"
proof -
  let ?r = "remember sample_env 0 0 50 (\<lambda>j. j + 100) (sample_remember (Some [1])) sample_state"
  let ?s = "scope_for sample_env 0 0 sample_payload sample_state"
  have "case ?r of (Inr _, _) \<Rightarrow> True | _ \<Rightarrow> False" by code_simp
  then obtain out st' where r: "?r = (Inr out, st')" by (cases ?r; cases "fst ?r") auto
  have "case ?s of (Inr _, _) \<Rightarrow> True | _ \<Rightarrow> False" by code_simp
  then obtain sc st1 where s: "?s = (Inr sc, st1)" by (cases ?s; cases "fst ?s") auto
  have v: "verify_scope sample_env 0 (rq_scope_handle (sample_remember (Some [1]))) = Inr sample_payload"
    by code_simp
  have ok: "chunks_ok (sv_db sample_state)" using sample_chunks_ok by (simp add: sample_state_def)
  have fresh: "\<not> list_ex (of_document (sp_tenant_id sample_payload) ''agent'' (''obs:'' @ en_uuid_str sample_env 50))
      (db_chunks (sv_db sample_state))" by code_simp
  from remember_inherits_label [OF r v s ok refl refl] fresh r show ?thesis by simp
qed

text \<open>
  C40: A reference the writer cannot see refuses the whole write: when some cited id has no chunk
  visible in the compiled scope, the request is answered 403 naming that id, the database is
  unchanged, and one audit row records the attempt.
\<close>

theorem remember_refuses_invisible_lineage:
  assumes scope: "verify_scope env now (rq_scope_handle req) = Inr p" "scope_for env now uptime p st = (Inr sc, st1)"
    and ents: "resolve_entities p (rq_entities req) = Inr entities"
    and cited: "rq_derived_from req = Some refs" "ref \<in> set refs"
    and hidden: "list_all (\<lambda>c. \<not> (citable sc c \<and> cites ref c)) (db_chunks (sv_db st))"
  shows "\<exists>unresolved st'. remember env now uptime eid fresh req st = (Inl (LineageNotVisible unresolved), st') \<and>
    ref \<in> set unresolved \<and> status_of (LineageNotVisible unresolved) = 403 \<and>
    sv_db st' = sv_db st \<and> length (sv_audit st') = length (sv_audit st) + 1"
proof -
  let ?is = "resolve_derivation_inputs sc refs (sv_db st)"
  have "di_reference i \<noteq> ref" if "i \<in> set ?is" for i
    using resolve_derivation_inputs_mem(2) [OF that] hidden by (auto simp: list_all_iff)
  then have un: "ref \<in> set (filter (\<lambda>r. r \<notin> di_reference ` set ?is) refs)" (is "_ \<in> set ?un")
    using cited(2) by auto
  have db: "sv_db st1 = sv_db st" "sv_audit st1 = sv_audit st" by (rule scope_for_allowed [OF scope(2)])+
  from un cited(2) have "resolve_lineage sc refs (sv_db st1) = Inl (LineageNotVisible ?un)"
    by (auto simp: resolve_lineage_def Let_def db filter_empty_conv)
  then have "remember env now uptime eid fresh req st = (Inl (LineageNotVisible ?un), spawn_audit p ''remember_refused''
                 (Some ''derived_from refs not visible in this scope'') refs st1)"
    by (simp add: remember_def scope ents cited(1))
  with un db show ?thesis by (auto simp: spawn_audit_def)
qed

theorem remember_refuses_invisible_lineage_witness:
  "\<exists>unresolved st'. remember sample_env 0 0 50 (\<lambda>j. j + 100) (sample_remember (Some [1, 77])) sample_state =
     (Inl (LineageNotVisible unresolved), st') \<and> 77 \<in> set unresolved \<and> sv_db st' = sv_db sample_state"
proof -
  let ?s = "scope_for sample_env 0 0 sample_payload sample_state"
  have "case ?s of (Inr sc, _) \<Rightarrow> list_all (\<lambda>c. \<not> (citable sc c \<and> cites 77 c)) (db_chunks (sv_db sample_state)) | _ \<Rightarrow> False"
    by code_simp
  then obtain sc st1 where s: "?s = (Inr sc, st1)"
    and hidden: "list_all (\<lambda>c. \<not> (citable sc c \<and> cites 77 c)) (db_chunks (sv_db sample_state))"
    by (cases ?s; cases "fst ?s") auto
  have v: "verify_scope sample_env 0 (rq_scope_handle (sample_remember (Some [1, 77]))) = Inr sample_payload"
    by code_simp
  have e: "resolve_entities sample_payload (rq_entities (sample_remember (Some [1, 77]))) = Inr [''acme'']" by code_simp
  have d: "rq_derived_from (sample_remember (Some [1, 77])) = Some [1, 77]" by (simp add: sample_remember_def)
  from remember_refuses_invisible_lineage [OF v s e d _ hidden] show ?thesis by force
qed

lemma scope_for_keeps_db: "sv_db (snd (scope_for env now uptime p st)) = sv_db st"
  by (auto simp: scope_for_def subtract_st_def fence_stale_scope_def live_resolved_tokens_def upsert_tokens_def Let_def
      split: prod.splits option.splits sum.splits principal_kind.splits)

lemma scope_for_no_panic: "fst (scope_for env now uptime p st) \<noteq> Inl Panic"
  by (auto simp: scope_for_def subtract_st_def fence_stale_scope_def live_resolved_tokens_def upsert_tokens_def Let_def
      split: prod.splits option.splits sum.splits principal_kind.splits)

lemma policy_loop_Inl: "policy_loop m ms qs acc = Inl e \<Longrightarrow> \<exists>q. e = PolicyOutside q"
  by (induction qs arbitrary: acc) (auto split: option.splits if_splits)

lemma resolve_visibility_policy_Inl:
  "resolve_visibility_policy rows sc pol ms = Inl e \<Longrightarrow> \<exists>q. e = PolicyOutside q"
  by (simp add: resolve_visibility_policy_def Let_def policy_loop_Inl)

lemma choose_acl_Inl:
  assumes "choose_acl env p sc refs lineage policy st = (Inl e, st')"
  shows "e \<noteq> Panic" "sv_db st' = sv_db st"
  using assms
  by (auto simp: choose_acl_def Let_def spawn_audit_def split: option.splits sum.splits if_splits
      dest: resolve_visibility_policy_Inl)

lemma write_observation_Inl:
  "write_observation env now eid fresh p obs entities refs acl eps st = (Inl e, st') \<Longrightarrow> \<exists>x. e = StorageFailed x"
  by (auto simp: write_observation_def split: sum.splits)

lemma remember_tail_Inl:
  assumes "(case resolve_lineage sc refs (sv_db st1) of
            Inl (LineageNotVisible unresolved) \<Rightarrow>
              (Inl (LineageNotVisible unresolved), spawn_audit p ''remember_refused''
                 (Some ''derived_from refs not visible in this scope'') refs st1)
          | Inl e \<Rightarrow> (Inl e, st1)
          | Inr (eps, lineage) \<Rightarrow>
              bind_h (choose_acl env p sc refs lineage policy st1)
                (\<lambda>acl st2. write_observation env now eid fresh p obs entities refs acl eps st2)) = (Inl e, st')"
  shows "e \<noteq> Panic \<and> ((\<nexists>x. e = StorageFailed x) \<longrightarrow> sv_db st' = sv_db st1)"
proof (cases "resolve_lineage sc refs (sv_db st1)")
  case (Inl e')
  with assms resolve_lineage_refs(2) [of sc refs "sv_db st1"] show ?thesis
    by (cases e') (auto simp: spawn_audit_def)
next
  case (Inr out)
  obtain eps lineage where "out = (eps, lineage)" by fastforce
  with Inr assms have b: "bind_h (choose_acl env p sc refs lineage policy st1)
      (\<lambda>acl st2. write_observation env now eid fresh p obs entities refs acl eps st2) = (Inl e, st')" by simp
  obtain a st2 where c: "choose_acl env p sc refs lineage policy st1 = (a, st2)" by fastforce
  show ?thesis
  proof (cases a)
    case (Inl e')
    with b c have "e' = e" "st2 = st'" by simp_all
    with choose_acl_Inl [OF c [unfolded Inl]] show ?thesis by simp
  next
    case (Inr acl)
    with b c write_observation_Inl show ?thesis by fastforce
  qed
qed

text \<open>
  A refused \<^verbatim>\<open>remember\<close> leaves no trace in memory: whenever the answer is a refusal other than a
  storage failure, the database is the one before; and the indexing of the first lineage input
  never panics.
\<close>

theorem remember_refusal_writes_nothing:
  assumes "remember env now uptime eid fresh req st = (Inl e, st')"
  shows "e \<noteq> Panic \<and> ((\<nexists>x. e = StorageFailed x) \<longrightarrow> sv_db st' = sv_db st)"
proof (cases "verify_scope env now (rq_scope_handle req)")
  case (Inl x)
  with assms show ?thesis by (auto simp: remember_def verify_scope_def Let_def split: sum.splits)
next
  case p: (Inr p)
  show ?thesis
  proof (cases "resolve_entities p (rq_entities req)")
    case (Inl x)
    with assms p show ?thesis by (auto simp: remember_def resolve_entities_def split: if_splits)
  next
    case ents: (Inr entities)
    obtain a st1 where sc: "scope_for env now uptime p st = (a, st1)" by fastforce
    have db: "sv_db st1 = sv_db st" using scope_for_keeps_db [of env now uptime p st] sc by simp
    show ?thesis
    proof (cases a)
      case (Inl x)
      with assms p ents sc db scope_for_no_panic [of env now uptime p st] show ?thesis by (auto simp: remember_def)
    next
      case (Inr scope)
      from assms [unfolded remember_def p ents sc Inr bind_h.simps Let_def]
      have "e \<noteq> Panic \<and> ((\<nexists>x. e = StorageFailed x) \<longrightarrow> sv_db st' = sv_db st1)" by (rule remember_tail_Inl)
      with db show ?thesis by simp
    qed
  qed
qed

theorem remember_refusal_writes_nothing_witness:
  "case remember sample_env 1 0 50 (\<lambda>j. j + 100) (sample_remember None) sample_state of
     (Inl e, st') \<Rightarrow> e = ScopeRefused Expired \<and> sv_db st' = sv_db sample_state | _ \<Rightarrow> False"
proof -
  let ?r = "remember sample_env 1 0 50 (\<lambda>j. j + 100) (sample_remember None) sample_state"
  have ok: "case ?r of (Inl e, _) \<Rightarrow> e = ScopeRefused Expired | _ \<Rightarrow> False" by code_simp
  then obtain st' where r: "?r = (Inl (ScopeRefused Expired), st')" by (cases ?r; cases "fst ?r") auto
  from remember_refusal_writes_nothing [OF r] r show ?thesis by simp
qed

text \<open>
  An out-of-range token is read as another principal: an inline ACL naming the number
  \<open>2^32 + n\<close> is accepted and grants token \<open>n\<close>, for every 32-bit \<open>n\<close>.
\<close>

theorem parse_inline_acl_wraps_tokens:
  assumes "n < 2 ^ 31"
  shows "map_option ra_visibility (parse_inline_acl (JObject [(''verity_acl'',
    JObject [(''visibility'', JArray [JNumber (PosInt (2 ^ 32 + n))])])])) = Some [int n]"
proof -
  have "(int n + 2 ^ 31 + 2 ^ 32) mod 2 ^ 32 = int n + 2 ^ 31" using assms by (simp only: mod_add_self2) simp
  then have "i64_as_i32 (2 ^ 32 + int n) = int n" by (simp add: i64_as_i32_def add_ac)
  moreover have "2 ^ 32 + n < (2 ^ 63 :: nat)" using assms by simp
  ultimately show ?thesis by (simp add: parse_inline_acl_def)
qed

theorem parse_inline_acl_wraps_tokens_witness:
  "map_option ra_visibility (parse_inline_acl (JObject [(''verity_acl'',
    JObject [(''visibility'', JArray [JNumber (PosInt (2 ^ 32 + 7))])])])) = Some [7]"
  by (rule trans [OF parse_inline_acl_wraps_tokens]) simp_all

lemma foldl_max_conf:
  "c \<in> set cs \<or> ch_confidentiality c \<le> m \<Longrightarrow> ch_confidentiality c \<le> foldl (\<lambda>m c. max m (ch_confidentiality c)) m cs"
proof (induction cs arbitrary: m)
  case (Cons x cs)
  have "c \<in> set cs \<or> ch_confidentiality c \<le> max m (ch_confidentiality x)" using Cons.prems by (auto simp: le_max_iff_disj)
  then show ?case by (simp add: Cons.IH)
qed simp

lemma current_chunk_confidentiality_ge:
  assumes "c \<in> set (db_chunks db)" "of_document t source doc c" "chunk_current c"
  shows "\<exists>m. current_chunk_confidentiality t source doc db = Some m \<and> ch_confidentiality c \<le> m"
proof -
  let ?rows = "filter (\<lambda>c. of_document t source doc c \<and> chunk_current c) (db_chunks db)"
  from assms have "c \<in> set ?rows" by simp
  then obtain d ds where "?rows = d # ds" "c = d \<or> c \<in> set ds" by (cases ?rows) auto
  then show ?thesis using foldl_max_conf [of c ds] by (auto simp: current_chunk_confidentiality_def)
qed

lemma clamp_up_ge: "clamp_up SourceUnshare (Some m) conf \<ge> m"
  by (simp add: clamp_up_def)

lemma unshare_document:
  assumes "ingest_acl_change fresh req db = (Inr out, db')" "aq_object req = Some doc"
    and "parse_inline_acl (JObject [(''verity_acl'', aq_verity_acl req)]) = Some acl"
  shows "db_chunks db' = update_where (of_document (aq_tenant_id req) (aq_source req) doc)
    (set_chunk_acl (ra_visibility acl) (clamp_up SourceUnshare
       (current_chunk_confidentiality (aq_tenant_id req) (aq_source req) doc db) (ra_confidentiality acl))) (db_chunks db)"
  using assms
  by (auto simp: ingest_acl_change_def dispatch_acl_correction_def correct_chunk_acl_def Let_def
      split: if_splits sum.splits option.splits)

lemma unshare_fact:
  assumes "ingest_acl_change fresh req db = (Inr out, db')" "aq_fact req = Some (entity, field)"
    and "parse_inline_acl (JObject [(''verity_acl'', aq_verity_acl req)]) = Some acl"
    and "key = \<lparr>fk_source = aq_source req, fk_entity_id = entity, fk_field = field\<rparr>"
  shows "db_facts db' = update_where (of_key (aq_tenant_id req) key)
    (set_fact_acl (ra_visibility acl) (clamp_up SourceUnshare
       (current_fact_confidentiality (aq_tenant_id req) key db) (ra_confidentiality acl))) (db_facts db)"
  using assms
  by (auto simp: ingest_acl_change_def dispatch_acl_correction_def correct_fact_acl_def Let_def
      split: if_splits sum.splits option.splits)

text \<open>
  An un-share through the connector route never lowers a class: after a successful correction of
  a document every version carries exactly the requested audience and a class at least as high
  as any current chunk had; the same holds for a fact and its current row.
\<close>

theorem unshare_never_downgrades:
  assumes "ingest_acl_change fresh req db = (Inr out, db')"
    and "parse_inline_acl (JObject [(''verity_acl'', aq_verity_acl req)]) = Some acl"
  shows "(\<forall>doc. aq_object req = Some doc \<longrightarrow>
      (\<forall>r \<in> set (db_chunks db'). of_document (aq_tenant_id req) (aq_source req) doc r \<longrightarrow>
         ch_visibility r = ra_visibility acl \<and>
         (\<forall>c \<in> set (db_chunks db). of_document (aq_tenant_id req) (aq_source req) doc c \<and> chunk_current c \<longrightarrow>
            ch_confidentiality c \<le> ch_confidentiality r))) \<and>
    (\<forall>entity field. aq_fact req = Some (entity, field) \<longrightarrow>
      (\<forall>r \<in> set (db_facts db'). of_key (aq_tenant_id req)
           \<lparr>fk_source = aq_source req, fk_entity_id = entity, fk_field = field\<rparr> r \<longrightarrow>
         fr_visibility r = ra_visibility acl \<and>
         (\<forall>c. current_row (aq_tenant_id req) \<lparr>fk_source = aq_source req, fk_entity_id = entity, fk_field = field\<rparr>
              (db_facts db) = Some c \<longrightarrow> fr_confidentiality c \<le> fr_confidentiality r)))"
proof -
  have "ch_visibility r = ra_visibility acl \<and>
      (\<forall>c \<in> set (db_chunks db). of_document (aq_tenant_id req) (aq_source req) doc c \<and> chunk_current c \<longrightarrow>
         ch_confidentiality c \<le> ch_confidentiality r)"
    if doc: "aq_object req = Some doc" and r: "r \<in> set (db_chunks db')" "of_document (aq_tenant_id req) (aq_source req) doc r"
    for doc r
    using r(1) unfolding unshare_document [OF assms(1) doc assms(2)]
  proof (cases rule: mem_update_where)
    case (1 c)
    have "ch_confidentiality d \<le> clamp_up SourceUnshare
        (current_chunk_confidentiality (aq_tenant_id req) (aq_source req) doc db) (ra_confidentiality acl)"
      if d: "d \<in> set (db_chunks db)" "of_document (aq_tenant_id req) (aq_source req) doc d" "chunk_current d" for d
    proof -
      obtain m where m: "current_chunk_confidentiality (aq_tenant_id req) (aq_source req) doc db = Some m"
        "ch_confidentiality d \<le> m" using current_chunk_confidentiality_ge [OF d] by blast
      show ?thesis unfolding m(1) using m(2) clamp_up_ge by (rule order_trans)
    qed
    with 1 show ?thesis by (simp add: set_chunk_acl_def)
  next
    case 2
    with r(2) show ?thesis by simp
  qed
  moreover have "fr_visibility r = ra_visibility acl \<and>
      (\<forall>c. current_row (aq_tenant_id req) key (db_facts db) = Some c \<longrightarrow> fr_confidentiality c \<le> fr_confidentiality r)"
    if f: "aq_fact req = Some (entity, field)"
      and key: "key = \<lparr>fk_source = aq_source req, fk_entity_id = entity, fk_field = field\<rparr>"
      and r: "r \<in> set (db_facts db')" "of_key (aq_tenant_id req) key r" for entity field key r
    using r(1) unfolding unshare_fact [OF assms(1) f assms(2) key]
  proof (cases rule: mem_update_where)
    case (1 c)
    then show ?thesis
      using clamp_up_ge by (auto simp: set_fact_acl_def current_fact_confidentiality_def)
  next
    case 2
    with r(2) show ?thesis by simp
  qed
  ultimately show ?thesis by blast
qed

definition sample_acl_change :: acl_change_request where
  "sample_acl_change = \<lparr>aq_tenant_id = 1, aq_source = ''drive'', aq_object = Some ''doc'', aq_fact = None,
     aq_verity_acl = JObject [(''visibility'', JArray [JNumber (PosInt 6)]), (''confidentiality'', JString ''public'')]\<rparr>"

theorem unshare_never_downgrades_witness:
  "case ingest_acl_change (\<lambda>j. j) sample_acl_change sample_chunks_db of
     (Inr _, db') \<Rightarrow> list_all (\<lambda>r. of_document 1 ''drive'' ''doc'' r \<longrightarrow> ch_visibility r = [6] \<and> Internal \<le> ch_confidentiality r)
       (db_chunks db') | _ \<Rightarrow> False"
proof -
  let ?r = "ingest_acl_change (\<lambda>j. j) sample_acl_change sample_chunks_db"
  have p: "parse_inline_acl (JObject [(''verity_acl'', aq_verity_acl sample_acl_change)]) =
      Some \<lparr>ra_visibility = [6], ra_confidentiality = Public, ra_provenance = Mirrored\<rparr>"
    by (simp add: sample_acl_change_def parse_inline_acl_def confidentiality_from_value_def i64_as_i32_def)
  have db: "1 \<in> set (db_tenants sample_chunks_db)" "rows_affected (of_document 1 ''drive'' ''doc'') (db_chunks sample_chunks_db) = 2"
    by code_simp+
  have "case ?r of (Inr _, _) \<Rightarrow> True | _ \<Rightarrow> False"
    unfolding ingest_acl_change_def dispatch_acl_correction_def p
    using db by (simp add: sample_acl_change_def ensure_tenant_def correct_chunk_acl_def Let_def)
  then obtain out db' where r: "?r = (Inr out, db')" by (cases ?r; cases "fst ?r") auto
  let ?c = "chunk_row_of 1 (sample_chunk 0 10 ''a'')"
  have c: "?c \<in> set (db_chunks sample_chunks_db)"
    "of_document 1 ''drive'' ''doc'' ?c \<and> chunk_current ?c" "ch_confidentiality ?c = Internal" by code_simp+
  have "ch_visibility r = [6] \<and> Internal \<le> ch_confidentiality r"
    if "r \<in> set (db_chunks db')" "of_document 1 ''drive'' ''doc'' r" for r
  proof -
    have req: "aq_object sample_acl_change = Some ''doc''" "aq_tenant_id sample_acl_change = 1"
      "aq_source sample_acl_change = ''drive''" by (simp_all add: sample_acl_change_def)
    from unshare_never_downgrades [OF r p, THEN conjunct1, rule_format, OF req(1), unfolded req(2,3), OF that]
    have "ch_visibility r = [6] \<and> ch_confidentiality ?c \<le> ch_confidentiality r"
      using c(1,2) by (simp only: resolved_acl.simps)
    with c(3) show ?thesis by simp
  qed
  then show ?thesis by (simp add: r list_all_iff)
qed

end
