(* ===== verification/Union_Find.thy ===== *)
theory Union_Find
  imports Core_Types
begin

text \<open>
  The union-find of the entity fold (\<^verbatim>\<open>struct UnionFind\<close> of
  \<^verbatim>\<open>crates/verity-storage/src/resolve/fold.rs\<close>): parent pointers in an ordered map, no path
  compression, the larger root pointing at the smaller. \<open>find_root\<close> follows pointers in a loop;
  that it ends is proved, not built in. The interface a client needs is the locale
  \<open>disjoint_sets\<close>: roots exist, and uniting two nodes merges exactly their two classes.
\<close>

section \<open>Operations\<close>

type_synonym union_find = "(string, string) btree_map"

definition uf_touch :: "string \<Rightarrow> union_find \<Rightarrow> union_find" where
  "uf_touch x u = bt_update x x (\<lambda>p. p) u"

partial_function (option) find_root :: "union_find \<Rightarrow> string \<Rightarrow> string option" where
  "find_root u cur =
     (case bt_get u cur of
        Some p \<Rightarrow> if p \<noteq> cur then find_root u p else Some cur
      | None \<Rightarrow> Some cur)"

declare find_root.simps [code]

definition uf_union :: "string \<Rightarrow> string \<Rightarrow> union_find \<Rightarrow> union_find option" where
  "uf_union x y u =
     (let u1 = uf_touch y (uf_touch x u)
      in Option.bind (find_root u1 x) (\<lambda>rx.
         Option.bind (find_root u1 y) (\<lambda>ry.
           if rx = ry then Some u1
           else let (small, large) = (if rx \<le> ry then (rx, ry) else (ry, rx))
                in Some (bt_insert large small u1))))"

definition uf_members :: "union_find \<Rightarrow> string list" where
  "uf_members u = bt_keys u"

section \<open>The interface\<close>

locale disjoint_sets =
  fixes empty :: 'u
    and touch :: "'a \<Rightarrow> 'u \<Rightarrow> 'u"
    and unite :: "'a \<Rightarrow> 'a \<Rightarrow> 'u \<Rightarrow> 'u option"
    and root :: "'u \<Rightarrow> 'a \<Rightarrow> 'a option"
    and nodes :: "'u \<Rightarrow> 'a set"
    and invar :: "'u \<Rightarrow> bool"
  assumes invar_empty: "invar empty"
    and root_empty: "root empty a = Some a"
    and nodes_empty: "nodes empty = {}"
    and invar_touch: "invar u \<Longrightarrow> invar (touch x u)"
    and root_touch: "invar u \<Longrightarrow> root (touch x u) a = root u a"
    and nodes_touch: "invar u \<Longrightarrow> nodes (touch x u) = insert x (nodes u)"
    and root_total: "invar u \<Longrightarrow> \<exists>r. root u a = Some r"
    and unite_total: "invar u \<Longrightarrow> \<exists>u'. unite x y u = Some u' \<and> invar u' \<and> nodes u' = insert x (insert y (nodes u))"
    and unite_root: "invar u \<Longrightarrow> unite x y u = Some u' \<Longrightarrow>
      root u' a = root u' b \<longleftrightarrow> root u a = root u b \<or>
        root u a = root u x \<and> root u b = root u y \<or> root u a = root u y \<and> root u b = root u x"
begin

fun unite_all :: "('a \<times> 'a) list \<Rightarrow> 'u \<Rightarrow> 'u option" where
  "unite_all [] u = Some u"
| "unite_all ((x, y) # es) u = Option.bind (unite x y u) (unite_all es)"

definition linked :: "('a \<times> 'a) set \<Rightarrow> 'a \<Rightarrow> 'a \<Rightarrow> bool" where
  "linked E a b \<longleftrightarrow> (a, b) \<in> (E \<union> E\<inverse>)\<^sup>*"

lemma linked_refl: "linked E a a"
  by (simp add: linked_def)

lemma linked_sym: "linked E a b \<Longrightarrow> linked E b a"
proof -
  have "(E \<union> E\<inverse>)\<inverse> = E \<union> E\<inverse>" by auto
  then show "linked E a b \<Longrightarrow> linked E b a" unfolding linked_def by (metis rtrancl_converseI)
qed

lemma linked_trans: "linked E a b \<Longrightarrow> linked E b c \<Longrightarrow> linked E a c"
  by (simp add: linked_def)

lemma linked_mono: "E \<subseteq> F \<Longrightarrow> linked E a b \<Longrightarrow> linked F a b"
  unfolding linked_def by (rule set_mp [OF rtrancl_mono]) auto

lemma linked_edge: "(a, b) \<in> E \<Longrightarrow> linked E a b"
  by (auto simp: linked_def)

text \<open>One more edge joins the classes of its two ends.\<close>

lemma linked_insert:
  "linked (insert (x, y) E) a b \<longleftrightarrow> linked E a b \<or> linked E a x \<and> linked E y b \<or> linked E a y \<and> linked E x b"
  (is "_ \<longleftrightarrow> ?r a b")
proof
  assume "linked (insert (x, y) E) a b"
  then have "(a, b) \<in> (insert (x, y) E \<union> (insert (x, y) E)\<inverse>)\<^sup>*" by (simp add: linked_def)
  then show "?r a b"
  proof (induction rule: rtrancl_induct)
    case base
    then show ?case by (simp add: linked_refl)
  next
    case (step c d)
    from step.hyps(2) consider "linked E c d" | "c = x" "d = y" | "c = y" "d = x"
      by (auto simp: linked_def)
    then show ?case
      using step.IH by cases (auto intro: linked_refl linked_trans linked_sym)
  qed
next
  let ?F = "insert (x, y) E"
  have m: "linked ?F a b" if "linked E a b" for a b by (rule linked_mono [OF _ that]) auto
  have e: "linked ?F x y" by (rule linked_edge) simp
  assume "?r a b"
  with m e linked_sym [OF e] show "linked ?F a b" by (blast intro: linked_trans)
qed

text \<open>Uniting along a list of edges: total, and the classes are the connected components.\<close>

lemma unite_all_components:
  assumes "invar u" "\<And>a b. root u a = root u b \<longleftrightarrow> linked E a b"
  shows "\<exists>u'. unite_all es u = Some u' \<and> invar u' \<and> nodes u' = nodes u \<union> fst ` set es \<union> snd ` set es \<and>
    (\<forall>a b. root u' a = root u' b \<longleftrightarrow> linked (E \<union> set es) a b)"
  using assms
proof (induction es arbitrary: u E)
  case (Cons e es)
  obtain x y where e: "e = (x, y)" by fastforce
  obtain u1 where u1: "unite x y u = Some u1" "invar u1" "nodes u1 = insert x (insert y (nodes u))"
    using unite_total [OF Cons.prems(1)] by blast
  have "root u1 a = root u1 b \<longleftrightarrow> linked (insert (x, y) E) a b" for a b
    unfolding unite_root [OF Cons.prems(1) u1(1)] linked_insert Cons.prems(2)
    using linked_sym by blast
  from Cons.IH [OF u1(2) this] u1 show ?case by (auto simp: e)
qed auto

lemma touch_all:
  "invar u \<Longrightarrow> invar (foldl (\<lambda>u x. touch x u) u xs) \<and> nodes (foldl (\<lambda>u x. touch x u) u xs) = nodes u \<union> set xs \<and>
     root (foldl (\<lambda>u x. touch x u) u xs) = root u"
proof (induction xs arbitrary: u)
  case (Cons x xs)
  have "root (touch x u) = root u" using root_touch [OF Cons.prems] by auto
  with Cons.IH [OF invar_touch [OF Cons.prems]] show ?case
    using nodes_touch [OF Cons.prems] by auto
qed simp

lemma build_components:
  "\<exists>u'. unite_all es (foldl (\<lambda>u x. touch x u) empty xs) = Some u' \<and> invar u' \<and>
    nodes u' = set xs \<union> fst ` set es \<union> snd ` set es \<and>
    (\<forall>a b. root u' a = root u' b \<longleftrightarrow> linked (set es) a b)"
proof -
  let ?u = "foldl (\<lambda>u x. touch x u) empty xs"
  have u: "invar ?u" "nodes ?u = set xs" "root ?u = root empty"
    using touch_all [OF invar_empty, of xs] nodes_empty by auto
  have "root ?u a = root ?u b \<longleftrightarrow> linked {} a b" for a b
    by (simp add: u(3) root_empty linked_def)
  from unite_all_components [OF u(1) this, of es] u(2) show ?thesis by auto
qed

end

section \<open>Parent pointers implement it\<close>

text \<open>Pointers lead to smaller or equal known nodes.\<close>

definition uf_ok :: "union_find \<Rightarrow> bool" where
  "uf_ok u \<longleftrightarrow> bt_ok u \<and> (\<forall>k p. bt_get u k = Some p \<longrightarrow> p \<le> k \<and> bt_get u p \<noteq> None)"

definition below :: "union_find \<Rightarrow> string \<Rightarrow> nat" where
  "below u x = card {k \<in> set (bt_keys u). k < x}"

lemma below_less: "p < x \<Longrightarrow> bt_get u p \<noteq> None \<Longrightarrow> below u p < below u x"
  unfolding below_def by (rule psubset_card_mono) (auto simp: bt_get_keys)

lemma find_root_induct [case_names step]:
  assumes "\<And>x. (\<And>p. bt_get u x = Some p \<Longrightarrow> p \<noteq> x \<Longrightarrow> P p) \<Longrightarrow> P x" and "uf_ok u"
  shows "P x"
proof (induction "below u x" arbitrary: x rule: less_induct)
  case less
  show ?case
  proof (rule assms(1))
    fix p assume p: "bt_get u x = Some p" "p \<noteq> x"
    with assms(2) have "p < x" "bt_get u p \<noteq> None" by (auto simp: uf_ok_def less_le)
    then show "P p" by (intro less below_less)
  qed
qed

lemma find_root_total:
  assumes "uf_ok u"
  shows "\<exists>r. find_root u x = Some r \<and> r \<le> x \<and> (bt_get u r = None \<and> r = x \<or> bt_get u r = Some r)"
proof (induction x rule: find_root_induct [OF _ assms, consumes 0, case_names step])
  case (step x)
  show ?case
  proof (cases "bt_get u x")
    case None
    then show ?thesis by (simp add: find_root.simps)
  next
    case (Some p)
    show ?thesis
    proof (cases "p = x")
      case True
      with Some show ?thesis by (simp add: find_root.simps)
    next
      case False
      from step [OF Some False] obtain r where r: "find_root u p = Some r" "r \<le> p"
        "bt_get u r = None \<and> r = p \<or> bt_get u r = Some r" by blast
      from Some assms have "p \<le> x" "bt_get u p \<noteq> None" by (auto simp: uf_ok_def)
      with r False Some show ?thesis by (auto simp: find_root.simps [of u x])
    qed
  qed
qed

lemma find_root_unknown: "bt_get u x = None \<Longrightarrow> find_root u x = Some x"
  by (simp add: find_root.simps)

lemma find_root_self: "bt_get u r = Some r \<Longrightarrow> find_root u r = Some r"
  by (simp add: find_root.simps)

lemma uf_touch_get: "bt_ok u \<Longrightarrow> bt_get (uf_touch x u) a = (if a = x \<and> bt_get u x = None then Some x else bt_get u a)"
  by (auto simp: uf_touch_def bt_get_update split: option.split)

lemma uf_touch_ok: "uf_ok u \<Longrightarrow> uf_ok (uf_touch x u)"
  unfolding uf_ok_def by (auto simp: uf_touch_get) (auto simp: uf_touch_def bt_ok_update)

lemma uf_touch_keys: "set (bt_keys (uf_touch x u)) = insert x (set (bt_keys u))"
  by (simp add: uf_touch_def bt_keys_update)

lemma uf_touch_root:
  assumes "uf_ok u"
  shows "find_root (uf_touch x u) a = find_root u a"
proof (induction a rule: find_root_induct [OF _ assms, consumes 0, case_names step])
  case (step a)
  have ok: "bt_ok u" using assms by (simp add: uf_ok_def)
  show ?case
    using step by (subst (1 2) find_root.simps) (auto simp: uf_touch_get [OF ok] split: option.split)
qed

lemma link_roots:
  assumes ok: "uf_ok u" and roots: "bt_get u small = Some small" "bt_get u large = Some large" "small < large"
  shows "uf_ok (bt_insert large small u)"
    and "find_root (bt_insert large small u) a =
      (if find_root u a = Some large then Some small else find_root u a)"
proof -
  let ?v = "bt_insert large small u"
  have get: "bt_get ?v k = (if k = large then Some small else bt_get u k)" for k
    using ok by (simp add: bt_insert_def bt_get_update uf_ok_def)
  show "uf_ok ?v"
    using ok roots unfolding uf_ok_def get by (auto simp: bt_insert_def bt_ok_update)
  show "find_root ?v a = (if find_root u a = Some large then Some small else find_root u a)"
  proof (induction a rule: find_root_induct [OF _ ok, consumes 0, case_names step])
    case (step a)
    have small: "find_root ?v small = Some small"
      using roots by (intro find_root_self) (auto simp: get)
    show ?case
    proof (cases "bt_get u a")
      case None
      with roots have "a \<noteq> large" by auto
      with None show ?thesis by (simp add: find_root.simps [of _ a] get)
    next
      case (Some p)
      show ?thesis
      proof (cases "p = a")
        case True
        with Some small roots show ?thesis by (auto simp: find_root.simps [of _ a] get)
      next
        case False
        with Some roots have "a \<noteq> large" by auto
        with step [OF Some False] Some False show ?thesis by (simp add: find_root.simps [of _ a] get)
      qed
    qed
  qed
qed

lemma touched_root:
  assumes "uf_ok u" "bt_get u x \<noteq> None"
  obtains r where "find_root u x = Some r" "bt_get u r = Some r"
  using find_root_total [OF assms(1), of x] assms(2) by auto

lemma uf_union_spec:
  assumes ok: "uf_ok u"
  shows "\<exists>u'. uf_union x y u = Some u' \<and> uf_ok u' \<and> set (bt_keys u') = insert x (insert y (set (bt_keys u))) \<and>
    (\<forall>a b. find_root u' a = find_root u' b \<longleftrightarrow> find_root u a = find_root u b \<or>
      find_root u a = find_root u x \<and> find_root u b = find_root u y \<or>
      find_root u a = find_root u y \<and> find_root u b = find_root u x)"
proof -
  define u1 where "u1 = uf_touch y (uf_touch x u)"
  have ok1: "uf_ok u1" unfolding u1_def by (intro uf_touch_ok ok)
  have keys1: "set (bt_keys u1) = insert x (insert y (set (bt_keys u)))" by (auto simp: u1_def uf_touch_keys)
  have root1: "find_root u1 a = find_root u a" for a by (simp add: u1_def uf_touch_root uf_touch_ok ok)
  have known: "bt_get u1 x \<noteq> None" "bt_get u1 y \<noteq> None" by (simp_all add: bt_get_keys keys1)
  obtain rx where rx: "find_root u1 x = Some rx" "bt_get u1 rx = Some rx" by (rule touched_root [OF ok1 known(1)])
  obtain ry where ry: "find_root u1 y = Some ry" "bt_get u1 ry = Some ry" by (rule touched_root [OF ok1 known(2)])
  have unfold: "uf_union x y u = (if rx = ry then Some u1
      else Some (bt_insert (max rx ry) (min rx ry) u1))"
    using rx ry by (simp add: uf_union_def u1_def [symmetric] max_def min_def)
  show ?thesis
  proof (cases "rx = ry")
    case True
    with unfold ok1 keys1 rx ry root1 show ?thesis by auto
  next
    case False
    let ?s = "min rx ry" and ?l = "max rx ry"
    have ends: "bt_get u1 ?s = Some ?s" "bt_get u1 ?l = Some ?l" "?s < ?l"
      using rx ry False by (auto simp: min_def max_def)
    note link = link_roots [OF ok1 ends]
    have keys: "set (bt_keys (bt_insert ?l ?s u1)) = set (bt_keys u1)"
      using ends(2) bt_get_keys [of u1 ?l] by (auto simp: bt_insert_def bt_keys_update)
    have "find_root (bt_insert ?l ?s u1) a = find_root (bt_insert ?l ?s u1) b \<longleftrightarrow>
        find_root u1 a = find_root u1 b \<or>
        find_root u1 a = Some rx \<and> find_root u1 b = Some ry \<or> find_root u1 a = Some ry \<and> find_root u1 b = Some rx" for a b
      unfolding link(2) using False by (auto simp: min_def max_def)
    with unfold link(1) keys keys1 False root1 rx ry show ?thesis by auto
  qed
qed

interpretation uf: disjoint_sets "[]" uf_touch uf_union find_root "\<lambda>u. set (bt_keys u)" uf_ok
proof
  show "uf_ok []" by (simp add: uf_ok_def bt_get_def)
  show "find_root [] a = Some a" for a by (simp add: find_root.simps bt_get_def)
  show "set (bt_keys ([] :: union_find)) = {}" by (simp add: bt_keys_def)
  fix u :: union_find and x y a b
  assume ok: "uf_ok u"
  show "uf_ok (uf_touch x u)" by (rule uf_touch_ok [OF ok])
  show "find_root (uf_touch x u) a = find_root u a" by (rule uf_touch_root [OF ok])
  show "set (bt_keys (uf_touch x u)) = insert x (set (bt_keys u))" by (rule uf_touch_keys)
  show "\<exists>r. find_root u a = Some r" using find_root_total [OF ok] by blast
  show "\<exists>u'. uf_union x y u = Some u' \<and> uf_ok u' \<and> set (bt_keys u') = insert x (insert y (set (bt_keys u)))"
    using uf_union_spec [OF ok] by blast
  fix u' assume "uf_union x y u = Some u'"
  then show "find_root u' a = find_root u' b \<longleftrightarrow> find_root u a = find_root u b \<or>
      find_root u a = find_root u x \<and> find_root u b = find_root u y \<or>
      find_root u a = find_root u y \<and> find_root u b = find_root u x"
    using uf_union_spec [OF ok, of x y] by auto
qed

text \<open>The root is the least node of its class.\<close>

lemma find_root_le: "uf_ok u \<Longrightarrow> find_root u x = Some r \<Longrightarrow> r \<le> x"
  using find_root_total [of u x] by auto

end
