(* ===== verification/Entity_Fold.thy ===== *)
theory Entity_Fold
  imports Union_Find
begin

text \<open>
  The entity fold (\<^verbatim>\<open>crates/verity-storage/src/resolve/fold.rs\<close>, with \<^verbatim>\<open>KnownCanonicals\<close> of
  \<^verbatim>\<open>tier3.rs\<close>): live evidence rows and the tenant's key policy in, a plan of alias, tag and badge
  writes out. One definition per pass of \<^verbatim>\<open>fold_with_known_canonicals\<close>. Ordered maps and sets are
  the sorted lists of the prelude; a set of pairs or strings is a strictly ascending list. The
  only loop that could fail to end is \<open>find_root\<close>, so the fold is option-valued and its totality is
  a theorem. Debug assertions (live rows only) are left out.
\<close>

section \<open>The plan\<close>

record member_ref =
  mr_source :: string
  mr_entity_id :: string

record alias_write =
  al_source :: string
  al_entity_id :: string
  al_canonical_entity :: string

record chunk_tag_write =
  ct_subject_ref :: string
  ct_tags :: "string list"

datatype review_reason =
    AntiLinkSplit
  | SizeCapExceeded nat int
  | KeyFanOut string nat
  | ClusterDrift string string

record review_item =
  ri_refs :: "string list"
  ri_reason :: review_reason
  ri_evidence :: "uuid list"

record fold_plan =
  fp_aliases :: "alias_write list"
  fp_chunk_tags :: "chunk_tag_write list"
  fp_link_meta :: "entity_link_meta list"
  fp_review :: "review_item list"
  fp_canonicals :: "string list"

definition empty_plan :: fold_plan where
  "empty_plan = \<lparr>fp_aliases = [], fp_chunk_tags = [], fp_link_meta = [], fp_review = [], fp_canonicals = []\<rparr>"

text \<open>The derived orders, as sort keys: field by field, variants by position.\<close>

fun reason_key :: "review_reason \<Rightarrow> nat \<times> nat \<times> int \<times> string \<times> nat \<times> string \<times> string" where
  "reason_key AntiLinkSplit = (0, 0, 0, [], 0, [], [])"
| "reason_key (SizeCapExceeded n cap) = (1, n, cap, [], 0, [], [])"
| "reason_key (KeyFanOut key members) = (2, 0, 0, key, members, [], [])"
| "reason_key (ClusterDrift l r) = (3, 0, 0, [], 0, l, r)"

definition review_key :: "review_item \<Rightarrow> string list \<times> (nat \<times> nat \<times> int \<times> string \<times> nat \<times> string \<times> string) \<times> uuid list" where
  "review_key i = (ri_refs i, reason_key (ri_reason i), ri_evidence i)"

definition alias_key :: "alias_write \<Rightarrow> string \<times> string \<times> string" where
  "alias_key a = (al_source a, al_entity_id a, al_canonical_entity a)"

definition tag_key :: "chunk_tag_write \<Rightarrow> string \<times> string list" where
  "tag_key t = (ct_subject_ref t, ct_tags t)"

definition meta_key :: "entity_link_meta \<Rightarrow> string \<times> string \<times> string" where
  "meta_key m = (lm_subject_kind m, lm_subject_ref m, lm_canonical_entity m)"

section \<open>Configuration\<close>

record fold_config =
  fc_tenant_id :: tenant_id
  fc_rows :: "(string \<times> string, entity_resolution_config) btree_map"
  fc_fallback :: entity_resolution_config

definition fold_config_new :: "tenant_id \<Rightarrow> entity_resolution_config list \<Rightarrow> entity_resolution_config \<Rightarrow> fold_config" where
  "fold_config_new t rows fallback =
     \<lparr>fc_tenant_id = t,
      fc_rows = foldl (\<lambda>m c. bt_insert (rc_key_kind c, rc_key_namespace c) c m) [] rows,
      fc_fallback = fallback\<rparr>"

definition fold_config_defaults :: "tenant_id \<Rightarrow> fold_config" where
  "fold_config_defaults t =
     \<lparr>fc_tenant_id = t, fc_rows = [], fc_fallback = resolution_config_defaults t ''*'' ''*''\<rparr>"

definition config_get :: "fold_config \<Rightarrow> string \<Rightarrow> string \<Rightarrow> entity_resolution_config" where
  "config_get cfg key_kind key_namespace =
     (case bt_get (fc_rows cfg) (key_kind, key_namespace) of
        Some c \<Rightarrow> c
      | None \<Rightarrow> (case bt_get (fc_rows cfg) (key_kind, ''*'') of Some c \<Rightarrow> c | None \<Rightarrow> fc_fallback cfg))"

definition component_size_cap :: "fold_config \<Rightarrow> int option" where
  "component_size_cap cfg = rc_component_size_cap (fc_fallback cfg)"

section \<open>References\<close>

definition is_key_node :: "string \<Rightarrow> bool" where
  "is_key_node r = starts_with ''key:'' r"

definition is_chunk_ref :: "string \<Rightarrow> bool" where
  "is_chunk_ref r = starts_with ''chunk:'' r"

definition split_member_ref :: "string \<Rightarrow> member_ref option" where
  "split_member_ref r =
     (if is_key_node r \<or> is_chunk_ref r then None
      else case split_once CHR '':'' r of None \<Rightarrow> None
        | Some (source, entity_id) \<Rightarrow>
            if source = [] \<or> entity_id = [] then None
            else Some \<lparr>mr_source = source, mr_entity_id = entity_id\<rparr>)"

definition parse_chunk_ref :: "string \<Rightarrow> (string \<times> string \<times> int) option" where
  "parse_chunk_ref r =
     (case strip_prefix ''chunk:'' r of None \<Rightarrow> None
      | Some rest \<Rightarrow>
          (case split_once CHR '':'' rest of None \<Rightarrow> None
           | Some (source, tail) \<Rightarrow>
               (case rsplit_once CHR '':'' tail of None \<Rightarrow> None
                | Some (document_id, seq_str) \<Rightarrow>
                    if source = [] \<or> document_id = [] then None
                    else map_option (\<lambda>seq. (source, document_id, seq)) (parse_i32 seq_str))))"

definition unordered_pair :: "string \<Rightarrow> string \<Rightarrow> string \<times> string" where
  "unordered_pair x y = (if x \<le> y then (x, y) else (y, x))"

definition evidence_pair :: "evidence_row \<Rightarrow> string \<times> string" where
  "evidence_pair e = unordered_pair (ev_left_ref e) (ev_right_ref e)"

section \<open>Candidate edges\<close>

record edge_evidence =
  ee_evidence_ids :: "uuid list"
  ee_strong_single_key :: bool
  ee_via_key_node :: "string option"
  ee_best_method :: "string option"
  ee_best_tier :: int
  ee_dominant_key_kind :: string
  ee_dominant_namespace :: string

definition default_edge :: edge_evidence where
  "default_edge = \<lparr>ee_evidence_ids = [], ee_strong_single_key = False, ee_via_key_node = None,
     ee_best_method = None, ee_best_tier = 0, ee_dominant_key_kind = [], ee_dominant_namespace = []\<rparr>"

definition strong_method :: "string \<Rightarrow> bool" where
  "strong_method m \<longleftrightarrow> m \<in> {''crm_fk'', ''external_id'', ''admin_crosswalk'', ''human_confirmed''}"

definition key_kind_of :: "evidence_row \<Rightarrow> string" where
  "key_kind_of e =
     (if ev_method e = ''domain_match'' then ''domain''
      else if ev_method e = ''email_exact'' then ''email''
      else if ev_method e = ''external_id'' then ''external_id''
      else if ev_method e = ''crm_fk'' then ''crm_fk''
      else if ev_method e = ''admin_crosswalk'' then ''admin''
      else ''*'')"

definition namespace_of :: "evidence_row \<Rightarrow> string" where
  "namespace_of e = (case ev_key_namespace e of None \<Rightarrow> ''*'' | Some n \<Rightarrow> n)"

definition record_edge_meta :: "evidence_row \<Rightarrow> edge_evidence \<Rightarrow> edge_evidence" where
  "record_edge_meta e entry =
     (let entry1 = (if ee_best_method entry = None \<or> ev_tier e < ee_best_tier entry
                    then entry\<lparr>ee_best_method := Some (ev_method e), ee_best_tier := ev_tier e,
                               ee_dominant_key_kind := key_kind_of e, ee_dominant_namespace := namespace_of e\<rparr>
                    else entry)
      in if strong_method (ev_method e) then entry1\<lparr>ee_strong_single_key := True\<rparr> else entry1)"

type_synonym edge_map = "(string \<times> string, edge_evidence) btree_map"
type_synonym key_stars = "(string, string list) btree_map"
type_synonym pair_keys = "(string \<times> string, (string \<times> string) list) btree_map"
type_synonym candidates = "edge_map \<times> key_stars \<times> pair_keys"

definition star_edge :: "evidence_row \<Rightarrow> string \<Rightarrow> string \<Rightarrow> edge_map \<times> pair_keys \<Rightarrow> string \<Rightarrow> edge_map \<times> pair_keys" where
  "star_edge e key_ref member_ref acc other =
     (if other = member_ref then acc
      else let pair = unordered_pair member_ref other
           in (bt_update pair default_edge
                 (\<lambda>entry. record_edge_meta e (entry\<lparr>ee_evidence_ids := ee_evidence_ids entry @ [ev_evidence_id e],
                                                  ee_via_key_node := Some key_ref\<rparr>)) (fst acc),
               bt_update pair [] (insort_insert (key_kind_of e, case ev_key_value e of None \<Rightarrow> [] | Some v \<Rightarrow> v))
                 (snd acc)))"

definition add_candidate_edge :: "candidates \<Rightarrow> evidence_row \<Rightarrow> candidates" where
  "add_candidate_edge c e = (case c of (edges, key_star, keys) \<Rightarrow>
     let left_is_key = is_key_node (ev_left_ref e); right_is_key = is_key_node (ev_right_ref e)
     in if left_is_key \<noteq> right_is_key then
          let (key_ref, member_ref) = (if left_is_key then (ev_left_ref e, ev_right_ref e)
                                       else (ev_right_ref e, ev_left_ref e));
              key_star1 = bt_update key_ref [] (insort_insert member_ref) key_star;
              leaves = (case bt_get key_star1 key_ref of None \<Rightarrow> [] | Some ls \<Rightarrow> ls);
              (edges1, keys1) = foldl (star_edge e key_ref member_ref) (edges, keys) leaves
          in (edges1, key_star1, keys1)
        else if left_is_key \<and> right_is_key then (edges, key_star, keys)
        else let pair = evidence_pair e
             in (bt_update pair default_edge
                   (\<lambda>entry. record_edge_meta e (let entry1 = entry\<lparr>ee_evidence_ids := ee_evidence_ids entry @ [ev_evidence_id e]\<rparr>
                      in if strong_method (ev_method e) then entry1\<lparr>ee_strong_single_key := True\<rparr> else entry1)) edges,
                 key_star,
                 bt_update pair [] (insort_insert (key_kind_of e, case ev_key_value e of None \<Rightarrow> ev_method e | Some v \<Rightarrow> v))
                   keys))"

section \<open>The passes\<close>

text \<open>The working order.\<close>

definition fold_evidence :: "evidence_row list \<Rightarrow> fold_config \<Rightarrow> evidence_row list" where
  "fold_evidence live cfg =
     sort_key (\<lambda>e. (ev_valid_from e, ev_evidence_id e)) (filter (\<lambda>e. ev_tenant_id e = fc_tenant_id cfg) live)"

text \<open>Pass 1: anti-links with their evidence, and human confirmations.\<close>

type_synonym roles = "(string \<times> string) list \<times> (string \<times> string, uuid list) btree_map \<times> (string \<times> string) list"

definition role_step :: "roles \<Rightarrow> evidence_row \<Rightarrow> roles" where
  "role_step r e = (case r of (anti_links, anti_link_ev, human_confirmed) \<Rightarrow>
     let pair = evidence_pair e;
         note_anti = (insort_insert pair anti_links, bt_update pair [] (\<lambda>ids. ids @ [ev_evidence_id e]) anti_link_ev)
     in if ev_polarity e < 0 then (fst note_anti, snd note_anti, human_confirmed)
        else let human1 = (if ev_method e = ''human_confirmed'' then insort_insert pair human_confirmed else human_confirmed)
             in if ev_method e = ''human_rejected'' then (fst note_anti, snd note_anti, human1)
                else (anti_links, anti_link_ev, human1))"

definition fold_roles :: "evidence_row list \<Rightarrow> roles" where
  "fold_roles evidence = foldl role_step ([], [], []) evidence"

text \<open>Pass 2: which rows propose an edge.\<close>

definition proposes_edge :: "fold_config \<Rightarrow> (string \<times> string) list \<Rightarrow> evidence_row \<Rightarrow> bool" where
  "proposes_edge cfg human_confirmed e \<longleftrightarrow>
     \<not> (ev_polarity e < 0 \<or> ev_method e = ''human_rejected'') \<and>
     (let c = config_get cfg (key_kind_of e) (namespace_of e)
      in rc_eligible_as_edge c \<and>
         (case ev_key_value e of Some v \<Rightarrow> v \<notin> set (rc_denylist_values c) | None \<Rightarrow> True) \<and>
         (if ev_tier e = 1 then rc_auto_merge_tier1 c
          else if ev_tier e = 2 then evidence_pair e \<in> set human_confirmed
          else False))"

definition fold_candidates :: "fold_config \<Rightarrow> (string \<times> string) list \<Rightarrow> evidence_row list \<Rightarrow> candidates" where
  "fold_candidates cfg human_confirmed evidence =
     foldl add_candidate_edge
       (foldl add_candidate_edge ([], [], []) (filter (proposes_edge cfg human_confirmed) evidence))
       (filter (\<lambda>e. ev_method e = ''human_confirmed'' \<and> 0 \<le> ev_polarity e) evidence)"

text \<open>Pass 3: edges short of independent keys.\<close>

definition short_of_keys :: "fold_config \<Rightarrow> (string \<times> string) list \<Rightarrow> pair_keys \<Rightarrow> (string \<times> string) \<times> edge_evidence \<Rightarrow> bool" where
  "short_of_keys cfg human_confirmed keys = (\<lambda>(pair, ev).
     \<not> (ee_strong_single_key ev \<or> pair \<in> set human_confirmed) \<and>
     as_i16 (case bt_get keys pair of None \<Rightarrow> 0 | Some ks \<Rightarrow> length ks) <
       max (rc_min_independent_keys (config_get cfg (ee_dominant_key_kind ev) (ee_dominant_namespace ev))) 1)"

text \<open>Pass 4: fanned-out keys.\<close>

definition key_node_kind :: "string \<Rightarrow> string" where
  "key_node_kind key_ref =
     (case strip_prefix ''key:'' key_ref of None \<Rightarrow> []
      | Some r \<Rightarrow> (case split_once CHR '':'' r of None \<Rightarrow> [] | Some (k, _) \<Rightarrow> k))"

definition fans_out :: "string \<times> string list \<Rightarrow> bool" where
  "fans_out = (\<lambda>(key_ref, leaves). 2 < length leaves \<and> key_node_kind key_ref \<notin> {''external_id'', ''crm_fk'', ''admin''})"

definition collect_ids :: "uuid list list \<Rightarrow> uuid list" where
  "collect_ids idss = foldl (\<lambda>acc i. insort_insert i acc) [] (concat idss)"

definition key_star_evidence :: "edge_map \<Rightarrow> string \<Rightarrow> uuid list" where
  "key_star_evidence edges key_ref =
     collect_ids (map (ee_evidence_ids \<circ> snd) (filter (\<lambda>(_, ev). ee_via_key_node ev = Some key_ref) edges))"

definition fanout_review :: "edge_map \<Rightarrow> string \<times> string list \<Rightarrow> review_item" where
  "fanout_review edges = (\<lambda>(key_ref, leaves).
     \<lparr>ri_refs = sort (leaves @ [key_ref]), ri_reason = KeyFanOut key_ref (length leaves),
      ri_evidence = key_star_evidence edges key_ref\<rparr>)"

text \<open>Pass 5: the edges that weld.\<close>

definition surviving_edges ::
  "fold_config \<Rightarrow> (string \<times> string) list \<Rightarrow> candidates \<Rightarrow> (string \<times> string) list" where
  "surviving_edges cfg human_confirmed c = (case c of (edges, key_star, keys) \<Rightarrow>
     let suppressed = map fst (filter (short_of_keys cfg human_confirmed keys) edges);
         suppressed_key_nodes = map fst (filter fans_out key_star)
     in map fst (filter (\<lambda>(pair, ev). pair \<notin> set suppressed \<and>
          (case ee_via_key_node ev of None \<Rightarrow> True | Some k \<Rightarrow> k \<notin> set suppressed_key_nodes)) edges))"

fun union_edges :: "(string \<times> string) list \<Rightarrow> union_find \<Rightarrow> union_find option" where
  "union_edges [] u = Some u"
| "union_edges ((a, b) # es) u = Option.bind (uf_union a b u) (union_edges es)"

definition touch_refs :: "evidence_row list \<Rightarrow> union_find" where
  "touch_refs evidence = foldl (\<lambda>u e. uf_touch (ev_right_ref e) (uf_touch (ev_left_ref e) u)) [] evidence"

text \<open>Pass 6: components by root.\<close>

fun group_members :: "union_find \<Rightarrow> string list \<Rightarrow> (string, string list) btree_map \<Rightarrow> (string, string list) btree_map option" where
  "group_members u [] m = Some m"
| "group_members u (r # rs) m =
     Option.bind (find_root u r) (\<lambda>root. group_members u rs (bt_update root [] (insort_insert r) m))"

definition component_evidence :: "edge_map \<Rightarrow> string list \<Rightarrow> uuid list" where
  "component_evidence edges members =
     collect_ids (map (ee_evidence_ids \<circ> snd) (filter (\<lambda>((a, b), _). a \<in> set members \<and> b \<in> set members) edges))"

definition member_less :: "member_ref \<Rightarrow> member_ref \<Rightarrow> bool" where
  "member_less a b \<longleftrightarrow> (mr_source a, mr_entity_id a) < (mr_source b, mr_entity_id b)"

definition canon_of :: "member_ref \<Rightarrow> string" where
  "canon_of m = ''canon:'' @ mr_source m @ '':'' @ mr_entity_id m"

definition canonical_for :: "member_ref list \<Rightarrow> string option" where
  "canonical_for ms = (case ms of [] \<Rightarrow> None
     | m # rest \<Rightarrow> Some (canon_of (foldl (\<lambda>a b. if member_less b a then b else a) m rest)))"

definition badge_step ::
  "(string \<times> string) list \<Rightarrow> uuid list \<times> int \<times> string option \<times> bool \<times> bool \<Rightarrow> (string \<times> string) \<times> edge_evidence
   \<Rightarrow> uuid list \<times> int \<times> string option \<times> bool \<times> bool" where
  "badge_step human_confirmed acc p = (case acc of (just, best_tier, best_method, any_human, any_det) \<Rightarrow>
     case p of (pair, ev) \<Rightarrow>
       let (best_tier1, best_method1) =
             (case ee_best_method ev of None \<Rightarrow> (best_tier, best_method)
              | Some m \<Rightarrow> if ee_best_tier ev < best_tier then (ee_best_tier ev, Some m) else (best_tier, best_method))
       in (foldl (\<lambda>acc i. insort_insert i acc) just (ee_evidence_ids ev), best_tier1, best_method1,
           any_human \<or> pair \<in> set human_confirmed, any_det \<or> ee_best_tier ev = 1))"

definition component_badge ::
  "edge_map \<Rightarrow> (string \<times> string) list \<Rightarrow> string list \<Rightarrow> string option \<times> string \<times> uuid list \<times> int" where
  "component_badge edges human_confirmed members =
     (let (just, _, best_method, any_human, any_det) =
            foldl (badge_step human_confirmed) ([], 2 ^ 15 - 1, None, False, False)
              (filter (\<lambda>((a, b), _). a \<in> set members \<and> b \<in> set members) edges)
      in (best_method,
          if any_det then ''deterministic'' else if any_human then ''human_confirmed'' else ''approximated'',
          just, as_i16 (length just)))"

definition alias_of :: "string \<Rightarrow> member_ref \<Rightarrow> alias_write" where
  "alias_of canonical m = \<lparr>al_source = mr_source m, al_entity_id = mr_entity_id m, al_canonical_entity = canonical\<rparr>"

definition meta_of ::
  "tenant_id \<Rightarrow> string \<Rightarrow> string option \<times> string \<times> uuid list \<times> int \<Rightarrow> member_ref \<Rightarrow> entity_link_meta" where
  "meta_of t canonical badge m = (case badge of (method, confidence, just, cnt) \<Rightarrow>
     \<lparr>lm_tenant_id = t, lm_subject_kind = ''alias_member'', lm_subject_ref = mr_source m @ '':'' @ mr_entity_id m,
      lm_canonical_entity = canonical, lm_confidence = confidence, lm_strongest_method = method,
      lm_justifying_evidence = just, lm_evidence_count = cnt\<rparr>)"

definition component_step ::
  "fold_config \<Rightarrow> roles \<Rightarrow> edge_map \<Rightarrow> fold_plan \<Rightarrow> string list \<Rightarrow> fold_plan" where
  "component_step cfg rs edges plan member_set = (case rs of (anti_links, anti_link_ev, human_confirmed) \<Rightarrow>
     let entity_members = List.map_filter split_member_ref member_set
     in if length entity_members < 2 then plan
        else let component_anti = filter (\<lambda>(a, b). a \<in> set member_set \<and> b \<in> set member_set) anti_links
        in if component_anti \<noteq> [] then
             plan\<lparr>fp_review := fp_review plan @ [\<lparr>ri_refs = member_set, ri_reason = AntiLinkSplit,
               ri_evidence = remdups_adj (sort (concat (map (\<lambda>p. case bt_get anti_link_ev p of None \<Rightarrow> [] | Some v \<Rightarrow> v)
                 component_anti)))\<rparr>]\<rparr>
        else if (case component_size_cap cfg of None \<Rightarrow> False | Some cap \<Rightarrow> cap < as_i32 (length entity_members)) then
             plan\<lparr>fp_review := fp_review plan @ [\<lparr>ri_refs = member_set,
               ri_reason = SizeCapExceeded (length entity_members) (case component_size_cap cfg of Some cap \<Rightarrow> cap | None \<Rightarrow> 0),
               ri_evidence = component_evidence edges member_set\<rparr>]\<rparr>
        else case canonical_for entity_members of None \<Rightarrow> plan
          | Some canonical \<Rightarrow>
              plan\<lparr>fp_canonicals := fp_canonicals plan @ [canonical],
                   fp_aliases := fp_aliases plan @ map (alias_of canonical) entity_members,
                   fp_link_meta := fp_link_meta plan @ map (meta_of (fc_tenant_id cfg) canonical
                     (component_badge edges human_confirmed member_set)) entity_members\<rparr>)"

text \<open>Pass 7: chunk tags.\<close>

definition chunk_side :: "evidence_row \<Rightarrow> (string \<times> string) option" where
  "chunk_side e =
     (if is_chunk_ref (ev_left_ref e) then Some (ev_left_ref e, ev_right_ref e)
      else if is_chunk_ref (ev_right_ref e) then Some (ev_right_ref e, ev_left_ref e)
      else None)"

definition tag_candidate_step ::
  "(string, string list) btree_map \<times> (string, bool) btree_map \<Rightarrow> evidence_row
   \<Rightarrow> (string, string list) btree_map \<times> (string, bool) btree_map" where
  "tag_candidate_step acc e = (case acc of (cands, cosignal) \<Rightarrow>
     if ev_polarity e < 0 then acc
     else case chunk_side e of None \<Rightarrow> acc
       | Some (chunk_ref, other) \<Rightarrow>
           (bt_update chunk_ref [] (insort_insert other) cands,
            bt_update chunk_ref False (\<lambda>b. b)
              (if ev_tier e \<le> 2 \<or> ev_method e = ''human_confirmed'' then bt_insert chunk_ref True cosignal else cosignal)))"

definition touches_chunk :: "string \<Rightarrow> evidence_row \<Rightarrow> bool" where
  "touches_chunk chunk_ref e \<longleftrightarrow>
     is_chunk_ref (ev_left_ref e) \<and> ev_left_ref e = chunk_ref \<or> is_chunk_ref (ev_right_ref e) \<and> ev_right_ref e = chunk_ref"

definition chunk_tag_evidence :: "evidence_row list \<Rightarrow> string \<Rightarrow> uuid list" where
  "chunk_tag_evidence evidence chunk_ref = collect_ids [map ev_evidence_id (filter (touches_chunk chunk_ref) evidence)]"

definition tag_choice :: "string list \<Rightarrow> bool \<Rightarrow> string list \<Rightarrow> string \<Rightarrow> string list" where
  "tag_choice folded cosignal tags cand =
     (if cand \<in> set folded then insort_insert cand tags
      else case split_member_ref cand of None \<Rightarrow> tags
        | Some m \<Rightarrow> if cosignal \<and> canon_of m \<in> set folded then insort_insert (canon_of m) tags else tags)"

definition tag_step ::
  "evidence_row list \<Rightarrow> fold_config \<Rightarrow> string list \<Rightarrow> (string, bool) btree_map \<Rightarrow> fold_plan \<Rightarrow> string \<times> string list \<Rightarrow> fold_plan" where
  "tag_step evidence cfg folded chunk_cosignal plan = (\<lambda>(chunk_ref, cands).
     let ns = (case List.find (touches_chunk chunk_ref) evidence of None \<Rightarrow> ''*''
               | Some e \<Rightarrow> (case ev_key_namespace e of None \<Rightarrow> ''*'' | Some n \<Rightarrow> n));
         c = config_get cfg ''*'' ns;
         cosignal = (case bt_get chunk_cosignal chunk_ref of None \<Rightarrow> False | Some b \<Rightarrow> b)
     in if \<not> (rc_auto_link_tier3 c \<or> cosignal) then plan
        else let tags = foldl (tag_choice folded cosignal) [] cands
        in if tags = [] then plan
           else plan\<lparr>fp_chunk_tags := fp_chunk_tags plan @ [\<lparr>ct_subject_ref = chunk_ref, ct_tags = sort tags\<rparr>],
                     fp_link_meta := fp_link_meta plan @ map (\<lambda>t.
                       \<lparr>lm_tenant_id = fc_tenant_id cfg, lm_subject_kind = ''chunk_tag'', lm_subject_ref = chunk_ref,
                        lm_canonical_entity = t,
                        lm_confidence = (if rc_auto_link_tier3 c \<and> \<not> cosignal then ''approximated'' else ''deterministic''),
                        lm_strongest_method = Some ''llm_mention'',
                        lm_justifying_evidence = chunk_tag_evidence evidence chunk_ref, lm_evidence_count = 1\<rparr>)
                       (sort tags)\<rparr>)"

definition materialize_chunk_tags :: "evidence_row list \<Rightarrow> fold_config \<Rightarrow> string list \<Rightarrow> fold_plan \<Rightarrow> fold_plan" where
  "materialize_chunk_tags evidence cfg folded plan =
     (let (cands, cosignal) = foldl tag_candidate_step ([], []) evidence
      in foldl (tag_step evidence cfg folded cosignal) plan cands)"

definition sort_plan :: "fold_plan \<Rightarrow> fold_plan" where
  "sort_plan plan =
     \<lparr>fp_aliases = sort_key alias_key (fp_aliases plan), fp_chunk_tags = sort_key tag_key (fp_chunk_tags plan),
      fp_link_meta = sort_key meta_key (fp_link_meta plan), fp_review = sort_key review_key (fp_review plan),
      fp_canonicals = remdups_adj (sort (fp_canonicals plan))\<rparr>"

definition fold_with_known_canonicals ::
  "evidence_row list \<Rightarrow> fold_config \<Rightarrow> string list \<Rightarrow> fold_plan option" where
  "fold_with_known_canonicals live cfg known =
     (let evidence = fold_evidence live cfg;
          rs = fold_roles evidence;
          human = snd (snd rs);
          cands = fold_candidates cfg human evidence;
          edges = fst cands
      in Option.bind (union_edges (surviving_edges cfg human cands) (touch_refs evidence)) (\<lambda>u.
         Option.bind (group_members u (uf_members u) []) (\<lambda>components.
           let plan0 = empty_plan\<lparr>fp_review := map (fanout_review edges) (filter fans_out (fst (snd cands)))\<rparr>;
               plan1 = foldl (component_step cfg rs edges) plan0 (map snd components)
           in Some (sort_plan (materialize_chunk_tags evidence cfg (known @ fp_canonicals plan1) plan1)))))"

definition fold_plain :: "evidence_row list \<Rightarrow> fold_config \<Rightarrow> fold_plan option" where
  "fold_plain live cfg = fold_with_known_canonicals live cfg []"

section \<open>The incremental fold\<close>

definition default_large_component_floor :: nat where
  "default_large_component_floor = 8"

definition alias_ref :: "alias_write \<Rightarrow> string" where
  "alias_ref a = al_source a @ '':'' @ al_entity_id a"

definition new_components :: "alias_write list \<Rightarrow> (string, string list) btree_map" where
  "new_components aliases =
     foldl (\<lambda>m a. bt_update (al_canonical_entity a) [] (\<lambda>rs. rs @ [alias_ref a]) m) [] aliases"

definition prior_set :: "(string, string) btree_map \<Rightarrow> string list \<Rightarrow> string list" where
  "prior_set prior members =
     foldl (\<lambda>acc m. case bt_get prior m of None \<Rightarrow> acc | Some pc \<Rightarrow> insort_insert pc acc) [] members"

definition badge_confidence :: "fold_plan \<Rightarrow> string \<Rightarrow> string" where
  "badge_confidence plan canonical =
     (case List.find (\<lambda>m. lm_canonical_entity m = canonical \<and> lm_subject_kind m = ''alias_member'') (fp_link_meta plan) of
        None \<Rightarrow> ''approximated'' | Some m \<Rightarrow> lm_confidence m)"

definition drifts ::
  "fold_plan \<Rightarrow> (string, string) btree_map \<Rightarrow> (string, nat) btree_map \<Rightarrow> nat \<Rightarrow> string \<times> string list \<Rightarrow> bool" where
  "drifts plan prior sizes floor_size = (\<lambda>(new_canonical, members).
     let ps = prior_set prior members;
         any_large = list_ex (\<lambda>pc. floor_size \<le> (case bt_get sizes pc of None \<Rightarrow> 0 | Some n \<Rightarrow> n)) ps;
         conf = badge_confidence plan new_canonical
     in 2 \<le> length ps \<and> (any_large \<or> conf \<noteq> ''deterministic'' \<and> conf \<noteq> ''human_confirmed''))"

definition drift_review :: "fold_plan \<Rightarrow> (string, string) btree_map \<Rightarrow> string \<times> string list \<Rightarrow> review_item" where
  "drift_review plan prior = (\<lambda>(new_canonical, members).
     let ps = prior_set prior members
     in \<lparr>ri_refs = sort members,
         ri_reason = ClusterDrift (case ps of [] \<Rightarrow> [] | p # _ \<Rightarrow> p) (case ps of _ # q # _ \<Rightarrow> q | _ \<Rightarrow> []),
         ri_evidence = collect_ids (map lm_justifying_evidence
           (filter (\<lambda>m. lm_canonical_entity m = new_canonical) (fp_link_meta plan)))\<rparr>)"

definition refold_incremental ::
  "evidence_row list \<Rightarrow> fold_config \<Rightarrow> (string, string) btree_map \<Rightarrow> (string, nat) btree_map \<Rightarrow> nat \<Rightarrow> fold_plan option" where
  "refold_incremental neighborhood cfg prior sizes floor_size =
     map_option (\<lambda>plan.
       let drifting = filter (drifts plan prior sizes floor_size) (new_components (fp_aliases plan));
           dropped = map fst drifting
       in if dropped = [] then plan
          else plan\<lparr>fp_aliases := filter (\<lambda>a. al_canonical_entity a \<notin> set dropped) (fp_aliases plan),
                    fp_link_meta := filter (\<lambda>m. lm_canonical_entity m \<notin> set dropped) (fp_link_meta plan),
                    fp_canonicals := filter (\<lambda>c. c \<notin> set dropped) (fp_canonicals plan),
                    fp_review := sort_key review_key (fp_review plan @ map (drift_review plan prior) drifting)\<rparr>)
       (fold_plain neighborhood cfg)"

end
