(* ===== verification/Fold_Properties.thy ===== *)
theory Fold_Properties
  imports Fold_Safety
begin

text \<open>
  The fold's guarantees stated over live evidence rows and the written plan, with the defects the
  model exhibits at the end. \<open>sample_evidence\<close> builds the rows the witnesses run on.
\<close>

section \<open>Evidence behind an edge\<close>

text \<open>Rows of the tenant that may weld: an edge the policy admits, or a human confirmation.\<close>

definition merge_grade :: "fold_config \<Rightarrow> evidence_row list \<Rightarrow> evidence_row \<Rightarrow> bool" where
  "merge_grade cfg live e \<longleftrightarrow> e \<in> set live \<and> ev_tenant_id e = fc_tenant_id cfg \<and> 0 \<le> ev_polarity e \<and>
     (ev_method e = ''human_confirmed'' \<or>
      (ev_tier e = 1 \<or> ev_tier e = 2) \<and> ev_method e \<noteq> ''human_rejected'' \<and>
      rc_eligible_as_edge (config_get cfg (key_kind_of e) (namespace_of e)) \<and>
      (case ev_key_value e of Some v \<Rightarrow> v \<notin> set (rc_denylist_values (config_get cfg (key_kind_of e) (namespace_of e)))
       | None \<Rightarrow> True) \<and>
      (ev_tier e = 1 \<longrightarrow> rc_auto_merge_tier1 (config_get cfg (key_kind_of e) (namespace_of e))) \<and>
      (ev_tier e = 2 \<longrightarrow> (\<exists>h \<in> set live. ev_tenant_id h = fc_tenant_id cfg \<and> 0 \<le> ev_polarity h \<and>
         ev_method h = ''human_confirmed'' \<and> {ev_left_ref h, ev_right_ref h} = {ev_left_ref e, ev_right_ref e})))"

definition joins :: "evidence_row \<Rightarrow> string \<Rightarrow> string \<Rightarrow> bool" where
  "joins e x y \<longleftrightarrow> {ev_left_ref e, ev_right_ref e} = {x, y}"

text \<open>Two references are backed by one row, or by two rows that share a key node.\<close>

definition backed :: "(evidence_row \<Rightarrow> bool) \<Rightarrow> string \<Rightarrow> string \<Rightarrow> bool" where
  "backed G x y \<longleftrightarrow> (\<exists>e. G e \<and> joins e x y) \<or>
     (\<exists>k e e'. is_key_node k \<and> G e \<and> G e' \<and> joins e k x \<and> joins e' k y)"

lemma joins_sym: "joins e x y \<longleftrightarrow> joins e y x"
  by (auto simp: joins_def)

lemma backed_sym: "backed G x y \<longleftrightarrow> backed G y x"
  unfolding backed_def joins_sym [of _ y x] by blast

lemma joins_pair: "unordered_pair (ev_left_ref e) (ev_right_ref e) = (x, y) \<Longrightarrow> joins e x y"
  by (auto simp: joins_def unordered_pair_def split: if_splits)

lemma backed_pair: "unordered_pair x y = (a, b) \<Longrightarrow> backed G x y \<longleftrightarrow> backed G a b"
  using backed_sym by (auto simp: unordered_pair_def split: if_splits)

definition cands_ok :: "(evidence_row \<Rightarrow> bool) \<Rightarrow> candidates \<Rightarrow> bool" where
  "cands_ok G c = (case c of (edges, key_star, keys) \<Rightarrow> bt_ok key_star \<and>
     (\<forall>(a, b) \<in> set (bt_keys edges). backed G a b) \<and>
     (\<forall>k ls. bt_get key_star k = Some ls \<longrightarrow> is_key_node k \<and> (\<forall>l \<in> set ls. \<exists>e. G e \<and> joins e k l)))"

lemma star_fold_edges:
  assumes "\<And>l. l \<in> set leaves \<Longrightarrow> backed G m l" "\<forall>(a, b) \<in> set (bt_keys (fst acc)). backed G a b"
  shows "\<forall>(a, b) \<in> set (bt_keys (fst (foldl (star_edge e k m) acc leaves))). backed G a b"
  using assms
proof (induction leaves arbitrary: acc)
  case (Cons l leaves)
  have "\<forall>(a, b) \<in> set (bt_keys (fst (star_edge e k m acc l))). backed G a b"
  proof (cases "l = m")
    case True
    with Cons.prems show ?thesis by (simp add: star_edge_def)
  next
    case False
    obtain a b where ab: "unordered_pair m l = (a, b)" by fastforce
    have "backed G a b" using Cons.prems(1) [of l] backed_pair [OF ab, of G] by simp
    with Cons.prems(2) False ab show ?thesis by (auto simp: star_edge_def Let_def bt_keys_update)
  qed
  with Cons show ?case by simp
qed simp

lemma add_candidate_edge_ok:
  assumes "cands_ok G c" "G e"
  shows "cands_ok G (add_candidate_edge c e)"
proof -
  obtain edges star keys where c: "c = (edges, star, keys)" by (metis prod_cases3)
  let ?l = "is_key_node (ev_left_ref e)" and ?r = "is_key_node (ev_right_ref e)"
  consider (star) "?l \<noteq> ?r" | (both) "?l" "?r" | (direct) "\<not> ?l" "\<not> ?r" by blast
  then show ?thesis
  proof cases
    case star
    define k where "k = (if ?l then ev_left_ref e else ev_right_ref e)"
    define m where "m = (if ?l then ev_right_ref e else ev_left_ref e)"
    define star1 where "star1 = bt_update k [] (insort_insert m) star"
    define leaves where "leaves = (case bt_get star1 k of None \<Rightarrow> [] | Some ls \<Rightarrow> ls)"
    have unfold: "add_candidate_edge c e =
        (fst (foldl (star_edge e k m) (edges, keys) leaves), star1, snd (foldl (star_edge e k m) (edges, keys) leaves))"
      using star by (auto simp: add_candidate_edge_def c Let_def k_def m_def star1_def leaves_def split: prod.splits)
    have key: "is_key_node k" and j: "joins e k m" using star by (auto simp: k_def m_def joins_def)
    have ok: "bt_ok star" using assms(1) by (simp add: cands_ok_def c)
    have get: "bt_get star1 q = (if q = k then Some (insort_insert m (case bt_get star k of None \<Rightarrow> [] | Some v \<Rightarrow> v)) else bt_get star q)" for q
      by (simp add: star1_def bt_get_update [OF ok])
    have old: "\<exists>e. G e \<and> joins e q l" if "bt_get star q = Some ls" "l \<in> set ls" for q ls l
      using assms(1) that by (auto simp: cands_ok_def c)
    have leaf: "\<exists>e. G e \<and> joins e q l" if "bt_get star1 q = Some ls" "l \<in> set ls" for q ls l
      using that old [of q] assms(2) j
      by (cases "bt_get star k") (auto simp: get set_insort_insert split: if_splits)
    have keys: "is_key_node q" if "bt_get star1 q = Some ls" for q ls
      using that key assms(1) by (auto simp: get cands_ok_def c split: if_splits)
    have "backed G m l" if "l \<in> set leaves" for l
    proof -
      from that obtain ls where "bt_get star1 k = Some ls" "l \<in> set ls"
        by (cases "bt_get star1 k") (simp_all add: leaves_def)
      with leaf have "\<exists>e. G e \<and> joins e k l" by blast
      then show ?thesis using key j assms(2) unfolding backed_def by blast
    qed
    from star_fold_edges [OF this, where acc = "(edges, keys)"] assms(1)
    have "\<forall>(a, b) \<in> set (bt_keys (fst (foldl (star_edge e k m) (edges, keys) leaves))). backed G a b"
      by (simp add: cands_ok_def c)
    then show ?thesis unfolding unfold cands_ok_def using leaf keys ok
      by (auto simp: star1_def bt_ok_update)
  next
    case both
    with assms(1) show ?thesis by (simp add: add_candidate_edge_def c)
  next
    case direct
    obtain a b where ab: "evidence_pair e = (a, b)" by fastforce
    have "backed G a b" using assms(2) joins_pair ab unfolding backed_def evidence_pair_def by blast
    with direct assms(1) ab show ?thesis
      by (auto simp: add_candidate_edge_def c Let_def cands_ok_def bt_keys_update)
  qed
qed

lemma add_candidates_ok: "cands_ok G c \<Longrightarrow> \<forall>e \<in> set es. G e \<Longrightarrow> cands_ok G (foldl add_candidate_edge c es)"
  by (induction es arbitrary: c) (simp_all add: add_candidate_edge_ok)

section \<open>Roles\<close>

definition anti_row :: "evidence_row \<Rightarrow> bool" where
  "anti_row e \<longleftrightarrow> ev_polarity e < 0 \<or> ev_method e = ''human_rejected''"

lemma fold_roles_sets:
  "set (fst (fold_roles es)) = evidence_pair ` {e \<in> set es. anti_row e}"
  "set (snd (snd (fold_roles es))) = evidence_pair ` {e \<in> set es. 0 \<le> ev_polarity e \<and> ev_method e = ''human_confirmed''}"
proof -
  have "set (fst (foldl role_step r es)) = set (fst r) \<union> evidence_pair ` {e \<in> set es. anti_row e} \<and>
    set (snd (snd (foldl role_step r es))) = set (snd (snd r)) \<union>
      evidence_pair ` {e \<in> set es. 0 \<le> ev_polarity e \<and> ev_method e = ''human_confirmed''}" for r
  proof (induction es arbitrary: r)
    case (Cons e es)
    have "set (fst (role_step r e)) = set (fst r) \<union> (if anti_row e then {evidence_pair e} else {})"
      "set (snd (snd (role_step r e))) = set (snd (snd r)) \<union>
        (if 0 \<le> ev_polarity e \<and> ev_method e = ''human_confirmed'' then {evidence_pair e} else {})"
      by (cases r; auto simp: role_step_def Let_def anti_row_def set_insort_insert)+
    with Cons show ?case by auto
  qed simp
  from this [of "([], [], [])"] show
    "set (fst (fold_roles es)) = evidence_pair ` {e \<in> set es. anti_row e}"
    "set (snd (snd (fold_roles es))) = evidence_pair ` {e \<in> set es. 0 \<le> ev_polarity e \<and> ev_method e = ''human_confirmed''}"
    by (simp_all add: fold_roles_def)
qed

lemma set_fold_evidence: "set (fold_evidence live cfg) = {e \<in> set live. ev_tenant_id e = fc_tenant_id cfg}"
  by (simp add: fold_evidence_def)

lemma run_edges_backed:
  assumes "(a, b) \<in> set (run_edges live cfg)"
  shows "backed (merge_grade cfg live) a b"
proof -
  let ?ev = "fold_evidence live cfg" and ?human = "snd (snd (run_roles live cfg))"
  have human: "\<exists>h \<in> set live. ev_tenant_id h = fc_tenant_id cfg \<and> 0 \<le> ev_polarity h \<and>
      ev_method h = ''human_confirmed'' \<and> {ev_left_ref h, ev_right_ref h} = {ev_left_ref e, ev_right_ref e}"
    if "evidence_pair e \<in> set ?human" for e
  proof -
    from that obtain h where h: "h \<in> set ?ev" "0 \<le> ev_polarity h" "ev_method h = ''human_confirmed''" "evidence_pair e = evidence_pair h"
      by (auto simp: run_roles_def fold_roles_sets(2))
    obtain x y where "evidence_pair h = (x, y)" by fastforce
    with h(4) have "joins h x y" "joins e x y" by (auto simp: evidence_pair_def intro: joins_pair)
    with h show ?thesis by (auto simp: set_fold_evidence joins_def)
  qed
  have grade: "merge_grade cfg live e" if "e \<in> set ?ev" "proposes_edge cfg ?human e" for e
    using that human [of e] by (auto simp: merge_grade_def proposes_edge_def set_fold_evidence Let_def not_less split: if_splits)
  have conf: "merge_grade cfg live e" if "e \<in> set ?ev" "ev_method e = ''human_confirmed''" "0 \<le> ev_polarity e" for e
    using that by (simp add: merge_grade_def set_fold_evidence)
  have "cands_ok (merge_grade cfg live) (fold_candidates cfg ?human ?ev)"
    unfolding fold_candidates_def
    by (intro add_candidates_ok) (auto simp: grade conf cands_ok_def bt_get_def bt_keys_def)
  with assms show ?thesis
    by (auto simp: run_edges_def surviving_edges_def cands_ok_def bt_keys_def Let_def split: prod.splits)
qed

section \<open>The drift guard\<close>

lemma new_components_ok: "bt_ok (new_components as)"
  unfolding new_components_def by (induction as rule: rev_induct) (simp_all add: bt_ok_update)

lemma new_components_member:
  "a \<in> set as \<Longrightarrow> \<exists>ms. (al_canonical_entity a, ms) \<in> set (new_components as) \<and>
     {alias_ref b | b. b \<in> set as \<and> al_canonical_entity b = al_canonical_entity a} \<subseteq> set ms"
proof -
  let ?ok = "\<lambda>as a. \<exists>ms. bt_get (new_components as) (al_canonical_entity a) = Some ms \<and>
     {alias_ref b | b. b \<in> set as \<and> al_canonical_entity b = al_canonical_entity a} \<subseteq> set ms"
  have "\<forall>a \<in> set as. ?ok as a"
  proof (induction as rule: rev_induct)
    case (snoc x as)
    have step: "new_components (as @ [x]) =
      bt_update (al_canonical_entity x) [] (\<lambda>rs. rs @ [alias_ref x]) (new_components as)"
      by (simp add: new_components_def)
    note get = bt_get_update [OF new_components_ok [of as]]
    have none: "b \<notin> set as" if "bt_get (new_components as) (al_canonical_entity x) = None"
      "al_canonical_entity b = al_canonical_entity x" for b
      using snoc that by (metis option.distinct(1))
    show ?case
    proof
      fix a assume "a \<in> set (as @ [x])"
      show "?ok (as @ [x]) a"
      proof (cases "al_canonical_entity a = al_canonical_entity x")
        case True
        show ?thesis
        proof (cases "bt_get (new_components as) (al_canonical_entity x)")
          case None
          with none True show ?thesis by (fastforce simp: step get)
        next
          case (Some ms)
          have "{alias_ref b | b. b \<in> set as \<and> al_canonical_entity b = al_canonical_entity x} \<subseteq> set ms"
            using snoc Some by fastforce
          with Some True show ?thesis by (auto simp: step get)
        qed
      next
        case False
        with snoc \<open>a \<in> _\<close> have "?ok as a" by auto
        with False show ?thesis by (fastforce simp: step get)
      qed
    qed
  qed simp
  then show "a \<in> set as \<Longrightarrow> ?thesis" by (simp add: bt_get_mem [OF new_components_ok])
qed

lemma set_prior_set: "set (prior_set prior ms) = {p. \<exists>m \<in> set ms. bt_get prior m = Some p}"
  unfolding prior_set_def
  by (induction ms rule: rev_induct) (auto simp: set_insort_insert split: option.splits)

lemma two_in_list:
  assumes "x \<in> set xs" "y \<in> set xs" "x \<noteq> y" shows "2 \<le> length xs"
proof -
  have "card {x, y} \<le> card (set xs)" using assms by (intro card_mono) auto
  with assms(3) show ?thesis using card_length [of xs] by simp
qed

lemma refold_incremental_keeps:
  assumes "refold_incremental live cfg prior sizes fl = Some plan" "a \<in> set (fp_aliases plan)"
  obtains plan0 where "fold_plain live cfg = Some plan0" "a \<in> set (fp_aliases plan0)"
    "set (fp_aliases plan) \<subseteq> set (fp_aliases plan0)"
    "badge_confidence plan (al_canonical_entity a) = badge_confidence plan0 (al_canonical_entity a)"
    "\<And>ms. (al_canonical_entity a, ms) \<in> set (new_components (fp_aliases plan0)) \<Longrightarrow>
       \<not> drifts plan0 prior sizes fl (al_canonical_entity a, ms)"
proof -
  obtain plan0 where p0: "fold_plain live cfg = Some plan0"
    using assms(1) by (auto simp: refold_incremental_def)
  define dropped where "dropped = map fst (filter (drifts plan0 prior sizes fl) (new_components (fp_aliases plan0)))"
  have al: "fp_aliases plan = filter (\<lambda>a. al_canonical_entity a \<notin> set dropped) (fp_aliases plan0)"
    and lm: "fp_link_meta plan = filter (\<lambda>m. lm_canonical_entity m \<notin> set dropped) (fp_link_meta plan0)"
    using assms(1) unfolding refold_incremental_def p0 option.map Let_def dropped_def [symmetric]
    by (cases "dropped = []"; auto)+
  have a: "a \<in> set (fp_aliases plan0)" "al_canonical_entity a \<notin> set dropped" using assms(2) al by auto
  have find: "List.find P (filter Q xs) = List.find P xs" if "\<And>x. P x \<Longrightarrow> Q x"
    for P Q and xs :: "entity_link_meta list" using that by (induction xs) auto
  have "badge_confidence plan (al_canonical_entity a) = badge_confidence plan0 (al_canonical_entity a)"
    unfolding badge_confidence_def lm using a(2) by (subst find) auto
  moreover have "\<not> drifts plan0 prior sizes fl (al_canonical_entity a, ms)"
    if "(al_canonical_entity a, ms) \<in> set (new_components (fp_aliases plan0))" for ms
    using a(2) that by (force simp: dropped_def)
  ultimately show thesis using that [OF p0 a(1)] al by auto
qed

section \<open>Sample data\<close>

definition sample_evidence :: "nat \<Rightarrow> string \<Rightarrow> string \<Rightarrow> int \<Rightarrow> string \<Rightarrow> string option \<Rightarrow> int \<Rightarrow> evidence_row" where
  "sample_evidence i l r tier m kv pol = \<lparr>ev_evidence_id = i, ev_tenant_id = 1, ev_left_ref = l, ev_right_ref = r,
    ev_tier = tier, ev_method = m, ev_key_value = kv, ev_key_namespace = None, ev_score = None,
    ev_evidence_l0_ref = None, ev_polarity = pol, ev_valid_from = int i, ev_valid_to = None, ev_superseded_by = None\<rparr>"

definition linked_pair :: "evidence_row list" where
  "linked_pair = [sample_evidence 1 ''crm:a'' ''erp:b'' 1 ''crm_fk'' None 1]"

definition sample_alias :: "string \<Rightarrow> string \<Rightarrow> alias_write" where
  "sample_alias src i = \<lparr>al_source = src, al_entity_id = i, al_canonical_entity = ''canon:crm:a''\<rparr>"

lemma linked_pair_plan:
  "\<exists>plan. fold_with_known_canonicals linked_pair (fold_config_defaults 1) [] = Some plan \<and>
     fp_aliases plan = [sample_alias ''crm'' ''a'', sample_alias ''erp'' ''b'']"
proof -
  let ?r = "fold_with_known_canonicals linked_pair (fold_config_defaults 1) []"
  have "map_option fp_aliases ?r = Some [sample_alias ''crm'' ''a'', sample_alias ''erp'' ''b'']" by code_simp
  then show ?thesis by (cases ?r) auto
qed

section \<open>Properties\<close>

text \<open>
  C31: The fold always returns: on every evidence set and policy, including the parent-pointer walks of
  its union-find, it ends with a plan.
\<close>

theorem fold_total: "\<exists>plan. fold_with_known_canonicals live cfg known = Some plan"
  using fold_result [of live cfg known] by blast

text \<open>
  C30: Canonical entities are the connected components: two written aliases share a canonical entity
  exactly when the surviving edges connect their references, and each alias' canonical is the name
  of a member of its own component.
\<close>

theorem fold_canonicals_are_components:
  assumes "fold_with_known_canonicals live cfg known = Some plan"
    and "a \<in> set (fp_aliases plan)" "b \<in> set (fp_aliases plan)"
  shows "al_canonical_entity a = al_canonical_entity b \<longleftrightarrow>
    (alias_ref a, alias_ref b) \<in> (set (run_edges live cfg) \<union> (set (run_edges live cfg))\<inverse>)\<^sup>*"
  using fold_aliases_component(1) [OF assms] by (simp add: uf.linked_def)

theorem fold_canonicals_are_components_witness:
  "(alias_ref (sample_alias ''crm'' ''a''), alias_ref (sample_alias ''erp'' ''b'')) \<in>
     (set (run_edges linked_pair (fold_config_defaults 1)) \<union> (set (run_edges linked_pair (fold_config_defaults 1)))\<inverse>)\<^sup>*"
proof -
  obtain plan where p: "fold_with_known_canonicals linked_pair (fold_config_defaults 1) [] = Some plan"
    "fp_aliases plan = [sample_alias ''crm'' ''a'', sample_alias ''erp'' ''b'']" using linked_pair_plan by blast
  from fold_canonicals_are_components [OF p(1), of "sample_alias ''crm'' ''a''" "sample_alias ''erp'' ''b''"] p(2)
  show ?thesis by (simp add: sample_alias_def)
qed

text \<open>
  C29: No merge without merge-grade evidence: references that share a canonical entity are connected by
  steps each backed by live rows of the tenant that are human-confirmed, or tier 1 under an
  admitting policy, or tier 2 with a human confirmation of the same pair; directly, or through a
  shared key node. Tier-3 mentions and denylisted or ineligible keys never contribute.
\<close>

theorem fold_merges_are_backed:
  assumes "fold_with_known_canonicals live cfg known = Some plan"
    and "a \<in> set (fp_aliases plan)" "b \<in> set (fp_aliases plan)" "al_canonical_entity a = al_canonical_entity b"
  shows "(alias_ref a, alias_ref b) \<in> {(x, y). backed (merge_grade cfg live) x y}\<^sup>*"
proof -
  let ?E = "set (run_edges live cfg)" and ?B = "{(x, y). backed (merge_grade cfg live) x y}"
  from fold_aliases_component(1) [OF assms(1-3)] assms(4)
  have "(alias_ref a, alias_ref b) \<in> (?E \<union> ?E\<inverse>)\<^sup>*" by (simp add: uf.linked_def)
  moreover have "?E \<union> ?E\<inverse> \<subseteq> ?B" using run_edges_backed backed_sym by fastforce
  ultimately show ?thesis using rtrancl_mono by blast
qed

theorem fold_merges_are_backed_witness:
  "(''crm:a'', ''erp:b'') \<in> {(x, y). backed (merge_grade (fold_config_defaults 1) linked_pair) x y}\<^sup>*"
proof -
  obtain plan where p: "fold_with_known_canonicals linked_pair (fold_config_defaults 1) [] = Some plan"
    "fp_aliases plan = [sample_alias ''crm'' ''a'', sample_alias ''erp'' ''b'']" using linked_pair_plan by blast
  from fold_merges_are_backed [OF p(1), of "sample_alias ''crm'' ''a''" "sample_alias ''erp'' ''b''"] p(2)
  show ?thesis by (simp add: sample_alias_def alias_ref_def)
qed

text \<open>
  C28: Anti-links are permanent: whenever a live row of the tenant is negative or a human rejection,
  its two references never end up under one canonical entity, whatever positive evidence exists.
\<close>

theorem fold_respects_anti_links:
  assumes "fold_with_known_canonicals live cfg known = Some plan"
    and "e \<in> set live" "ev_tenant_id e = fc_tenant_id cfg" "anti_row e"
    and "a \<in> set (fp_aliases plan)" "b \<in> set (fp_aliases plan)"
    and "alias_ref a = ev_left_ref e" "alias_ref b = ev_right_ref e"
  shows "al_canonical_entity a \<noteq> al_canonical_entity b"
proof
  assume "al_canonical_entity a = al_canonical_entity b"
  with fold_aliases_component(2) [OF assms(1,5,6)] obtain ms where
    ms: "component_passes cfg (run_roles live cfg) ms" "ev_left_ref e \<in> set ms" "ev_right_ref e \<in> set ms"
    using assms(7,8) by metis
  have "evidence_pair e \<in> set (fst (run_roles live cfg))"
    using assms(2-4) by (simp add: run_roles_def fold_roles_sets(1) set_fold_evidence)
  with ms show False
    by (auto simp: component_passes_def list_ex_iff evidence_pair_def unordered_pair_def split: if_splits)
qed

definition anti_linked :: "evidence_row list" where
  "anti_linked = [sample_evidence 1 ''crm:a'' ''erp:b'' 1 ''crm_fk'' None 1, sample_evidence 2 ''hub:c'' ''crm:a'' 2 ''human_rejected'' None (-1),
     sample_evidence 3 ''hub:c'' ''sup:d'' 1 ''crm_fk'' None 1]"

theorem fold_respects_anti_links_witness:
  "case fold_with_known_canonicals anti_linked (fold_config_defaults 1) [] of None \<Rightarrow> False
   | Some plan \<Rightarrow> length (fp_aliases plan) = 4 \<and> al_canonical_entity (fp_aliases plan ! 2) \<noteq> al_canonical_entity (fp_aliases plan ! 0)"
proof -
  let ?r = "fold_with_known_canonicals anti_linked (fold_config_defaults 1) []"
  have "case ?r of None \<Rightarrow> False | Some plan \<Rightarrow> length (fp_aliases plan) = 4 \<and>
     alias_ref (fp_aliases plan ! 2) = ''hub:c'' \<and> alias_ref (fp_aliases plan ! 0) = ''crm:a''" by code_simp
  then obtain plan where p: "?r = Some plan" "length (fp_aliases plan) = 4"
    "alias_ref (fp_aliases plan ! 2) = ''hub:c''" "alias_ref (fp_aliases plan ! 0) = ''crm:a''"
    by (cases ?r) auto
  have "al_canonical_entity (fp_aliases plan ! 2) \<noteq> al_canonical_entity (fp_aliases plan ! 0)"
    by (rule fold_respects_anti_links [OF p(1), of "sample_evidence 2 ''hub:c'' ''crm:a'' 2 ''human_rejected'' None (-1)"])
      (use p in \<open>simp_all add: anti_linked_def anti_row_def sample_evidence_def fold_config_defaults_def\<close>)
  with p show ?thesis by simp
qed

text \<open>
  The plan does not depend on the order the evidence arrives in: with distinct evidence ids, any
  permutation of the rows folds to the same plan.
\<close>

theorem fold_order_independent:
  assumes "mset live = mset live'" "distinct (map ev_evidence_id live)"
  shows "fold_with_known_canonicals live cfg known = fold_with_known_canonicals live' cfg known"
proof -
  have inj: "inj_on (\<lambda>e. (ev_valid_from e, ev_evidence_id e)) (set live)"
    using assms(2) by (auto simp: distinct_map inj_on_def)
  have "fold_evidence live cfg = fold_evidence live' cfg"
    unfolding fold_evidence_def
    by (rule sort_key_perm_unique) (use assms(1) inj in \<open>simp_all add: inj_on_def\<close>)
  then show ?thesis by (simp add: fold_with_known_canonicals_def)
qed

theorem fold_order_independent_witness:
  "fold_with_known_canonicals (rev anti_linked) (fold_config_defaults 1) [] =
   fold_with_known_canonicals anti_linked (fold_config_defaults 1) []"
  by (rule fold_order_independent) (simp_all add: anti_linked_def sample_evidence_def)

text \<open>
  A fanned-out key undoes a human decision: a pair a human confirmed directly stays unmerged when
  its two members also share a medium key with a third one, since the shared key's star overwrites
  the edge's origin and the fan-out guard then drops the edge.
\<close>

theorem fanout_drops_confirmed_pair:
  "map_option fp_aliases (fold_plain [sample_evidence 1 ''crm:a'' ''erp:b'' 2 ''human_confirmed'' None 1,
     sample_evidence 2 ''crm:a'' ''key:domain:x'' 1 ''domain_match'' (Some ''x'') 1,
     sample_evidence 3 ''erp:b'' ''key:domain:x'' 1 ''domain_match'' (Some ''x'') 1,
     sample_evidence 4 ''hub:c'' ''key:domain:x'' 1 ''domain_match'' (Some ''x'') 1] (fold_config_defaults 1)) = Some []"
  by code_simp

text \<open>
  The incremental fold never silently fuses grown clusters: two references it writes under one
  canonical entity that belonged to different canonicals before come from components below the size
  floor, and the fused component carries a deterministic or human-confirmed badge.
\<close>

theorem refold_guards_drift:
  assumes "refold_incremental live cfg prior sizes fl = Some plan"
    and "a \<in> set (fp_aliases plan)" "b \<in> set (fp_aliases plan)" "al_canonical_entity a = al_canonical_entity b"
    and "bt_get prior (alias_ref a) = Some p" "bt_get prior (alias_ref b) = Some q" "p \<noteq> q"
  shows "(case bt_get sizes p of None \<Rightarrow> 0 | Some n \<Rightarrow> n) < fl \<and> (case bt_get sizes q of None \<Rightarrow> 0 | Some n \<Rightarrow> n) < fl \<and>
    badge_confidence plan (al_canonical_entity a) \<in> {''deterministic'', ''human_confirmed''}"
proof -
  from refold_incremental_keeps [OF assms(1,2)] obtain plan0 where p0: "a \<in> set (fp_aliases plan0)"
    "set (fp_aliases plan) \<subseteq> set (fp_aliases plan0)"
    "badge_confidence plan (al_canonical_entity a) = badge_confidence plan0 (al_canonical_entity a)"
    "\<And>ms. (al_canonical_entity a, ms) \<in> set (new_components (fp_aliases plan0)) \<Longrightarrow>
       \<not> drifts plan0 prior sizes fl (al_canonical_entity a, ms)" by blast
  from new_components_member [OF p0(1)] obtain ms where
    ms: "(al_canonical_entity a, ms) \<in> set (new_components (fp_aliases plan0))"
      "alias_ref a \<in> set ms" "alias_ref b \<in> set ms" using p0 assms(3,4) by fastforce
  have pq: "p \<in> set (prior_set prior ms)" "q \<in> set (prior_set prior ms)"
    using ms(2,3) assms(5,6) by (auto simp: set_prior_set)
  with p0(4) [OF ms(1)] two_in_list [OF pq assms(7)] show ?thesis
    by (auto simp: drifts_def Let_def list_ex_iff p0(3) not_le)
qed

theorem refold_guards_drift_witness:
  "case refold_incremental linked_pair (fold_config_defaults 1) [(''crm:a'', ''canon:crm:a''), (''erp:b'', ''canon:erp:b'')]
      [(''canon:crm:a'', 2), (''canon:erp:b'', 3)] default_large_component_floor of None \<Rightarrow> False
   | Some plan \<Rightarrow> fp_aliases plan = [sample_alias ''crm'' ''a'', sample_alias ''erp'' ''b''] \<and>
       badge_confidence plan ''canon:crm:a'' \<in> {''deterministic'', ''human_confirmed''}"
proof -
  let ?r = "refold_incremental linked_pair (fold_config_defaults 1) [(''crm:a'', ''canon:crm:a''), (''erp:b'', ''canon:erp:b'')]
      [(''canon:crm:a'', 2), (''canon:erp:b'', 3)] default_large_component_floor"
  have "map_option fp_aliases ?r = Some [sample_alias ''crm'' ''a'', sample_alias ''erp'' ''b'']" by code_simp
  then obtain plan where p: "?r = Some plan" "fp_aliases plan = [sample_alias ''crm'' ''a'', sample_alias ''erp'' ''b'']"
    by (cases ?r) auto
  have "badge_confidence plan (al_canonical_entity (sample_alias ''crm'' ''a'')) \<in> {''deterministic'', ''human_confirmed''}"
    using refold_guards_drift [OF p(1), of "sample_alias ''crm'' ''a''" "sample_alias ''erp'' ''b''" "''canon:crm:a''" "''canon:erp:b''"]
    by (simp add: p(2) sample_alias_def alias_ref_def bt_get_def)
  with p show ?thesis by (simp add: sample_alias_def)
qed

text \<open>
  A component the drift guard drops still tags chunks: the guard removes the fused canonical from the
  aliases, badges and canonicals, but the chunk tag that names it stays in the plan.
\<close>

lemma drift_guard_keeps_chunk_tags:
  "map_option (\<lambda>plan. (fp_aliases plan, fp_canonicals plan, fp_chunk_tags plan))
     (refold_incremental (linked_pair @ [sample_evidence 2 ''chunk:d:doc:0'' ''canon:crm:a'' 2 ''llm_mention'' None 1])
        (fold_config_defaults 1) [(''crm:a'', ''canon:crm:a''), (''erp:b'', ''canon:erp:b'')]
        [(''canon:crm:a'', 9)] default_large_component_floor) =
   Some ([], [], [\<lparr>ct_subject_ref = ''chunk:d:doc:0'', ct_tags = [''canon:crm:a'']\<rparr>])"
  by code_simp

end
