(* ===== verification/Manifest_Path.thy ===== *)
theory Manifest_Path
  imports Json_Value
begin

text \<open>
  The dot-path dialect of connector manifests (\<^verbatim>\<open>verity-manifest/src/path.rs\<close>) with the hard limits
  of the crate: parsing, the bounded walk over a payload, and the iterative depth check that runs
  before any evaluation. A printer for parsed paths and a recursive depth serve as references.
\<close>

section \<open>Limits\<close>

definition max_manifest_bytes :: nat where "max_manifest_bytes = 64 * 1024"
definition max_entities :: nat where "max_entities = 64"
definition max_map_fields :: nat where "max_map_fields = 128"
definition max_expr_chars :: nat where "max_expr_chars = 512"
definition max_path_segments :: nat where "max_path_segments = 32"
definition max_array_index :: nat where "max_array_index = 10000"
definition max_payload_depth :: nat where "max_payload_depth = 64"
definition max_value_bytes :: nat where "max_value_bytes = 64 * 1024"
definition max_output_bytes :: nat where "max_output_bytes = 512 * 1024"
definition max_principals :: nat where "max_principals = 1024"

section \<open>Syntax\<close>

datatype path_error = TooLong | TooDeep | EmptyPath | BadSyntax string | IndexTooLarge

datatype accessor = Index nat | All

record segment =
  sg_key :: string
  sg_accessors :: "accessor list"

record path =
  pa_segments :: "segment list"
  pa_text :: string

datatype expr = Now | PathExpr path

section \<open>Parsing\<close>

definition is_key_char :: "char \<Rightarrow> bool" where
  "is_key_char c \<longleftrightarrow> is_ascii_alphanumeric c \<or> c \<in> {CHR ''_'', CHR ''$'', CHR ''-''}"

definition parse_accessor :: "string \<Rightarrow> string \<Rightarrow> path_error + accessor" where
  "parse_accessor raw inside =
     (if inside = [] then Inr All
      else case parse_usize inside of
        None \<Rightarrow> Inl (BadSyntax raw)
      | Some idx \<Rightarrow> if max_array_index < idx then Inl IndexTooLarge else Inr (Index idx))"

function parse_accessors :: "string \<Rightarrow> string \<Rightarrow> path_error + accessor list" where
  "parse_accessors raw rest =
     (case rest of
        [] \<Rightarrow> Inr []
      | c # stripped \<Rightarrow>
          if c \<noteq> CHR ''['' then Inl (BadSyntax raw)
          else case split_once CHR '']'' stripped of
            None \<Rightarrow> Inl (BadSyntax raw)
          | Some (inside, rest') \<Rightarrow>
              and_then (parse_accessor raw inside) (\<lambda>a.
                and_then (parse_accessors raw rest') (\<lambda>as. Inr (a # as))))"
  by auto
termination by (relation "measure (length \<circ> snd)") (auto simp: split_once_Some)

declare parse_accessors.simps [simp del]

definition parse_segment :: "string \<Rightarrow> path_error + segment" where
  "parse_segment raw =
     (let key = takeWhile (\<lambda>c. c \<noteq> CHR ''['') raw; rest = dropWhile (\<lambda>c. c \<noteq> CHR ''['') raw
      in if key = [] \<or> \<not> list_all is_key_char key then Inl (BadSyntax raw)
         else and_then (parse_accessors raw rest) (\<lambda>as. Inr \<lparr>sg_key = key, sg_accessors = as\<rparr>))"

fun parse_segments :: "nat \<Rightarrow> string list \<Rightarrow> path_error + segment list" where
  "parse_segments n [] = Inr []"
| "parse_segments n (raw # raws) =
     (if max_path_segments \<le> n then Inl TooDeep
      else and_then (parse_segment raw) (\<lambda>s. and_then (parse_segments (Suc n) raws) (\<lambda>ss. Inr (s # ss))))"

text \<open>
  Strings are byte lists in UTF-8; \<^verbatim>\<open>chars().count()\<close> counts the bytes that are not continuation bytes,
  \<^verbatim>\<open>len()\<close> counts all of them.
\<close>

definition char_count :: "string \<Rightarrow> nat" where
  "char_count s = length (filter (\<lambda>c. of_char c div 64 \<noteq> (2 :: nat)) s)"

definition path_parse :: "string \<Rightarrow> path_error + path" where
  "path_parse s0 =
     (let s = trim s0
      in if s = [] then Inl EmptyPath
         else if max_expr_chars < char_count s then Inl TooLong
         else and_then (parse_segments 0 (split_on CHR ''.'' s)) (\<lambda>ss. Inr \<lparr>pa_segments = ss, pa_text = s\<rparr>))"

definition expr_parse :: "string \<Rightarrow> path_error + expr" where
  "expr_parse s0 =
     (let s = trim s0
      in if s = ''$now()'' then Inr Now else and_then (path_parse s) (\<lambda>p. Inr (PathExpr p)))"

fun expr_as_text :: "expr \<Rightarrow> string" where
  "expr_as_text Now = ''$now()''"
| "expr_as_text (PathExpr p) = pa_text p"

section \<open>Evaluation\<close>

fun access :: "accessor \<Rightarrow> json \<Rightarrow> json list" where
  "access (Index i) hit = (case json_get_index hit i of None \<Rightarrow> [] | Some v \<Rightarrow> [v])"
| "access All hit = (case as_array hit of None \<Rightarrow> [] | Some items \<Rightarrow> items)"

definition eval_segment :: "segment \<Rightarrow> json \<Rightarrow> json list" where
  "eval_segment s v =
     (case json_get v (sg_key s) of None \<Rightarrow> []
      | Some child \<Rightarrow> foldl (\<lambda>hits a. concat (map (access a) hits)) [child] (sg_accessors s))"

fun eval_segments :: "segment list \<Rightarrow> json list \<Rightarrow> json list" where
  "eval_segments [] current = current"
| "eval_segments (s # ss) current =
     (let next_hits = concat (map (eval_segment s) current)
      in if next_hits = [] then [] else eval_segments ss next_hits)"

definition path_eval :: "path \<Rightarrow> json \<Rightarrow> json list" where
  "path_eval p payload = eval_segments (pa_segments p) [payload]"

definition eval_scalar :: "path \<Rightarrow> json \<Rightarrow> json option" where
  "eval_scalar p payload = (case path_eval p payload of [one] \<Rightarrow> Some one | _ \<Rightarrow> None)"

section \<open>Payload depth\<close>

fun children :: "json \<Rightarrow> json list" where
  "children (JArray items) = items"
| "children (JObject m) = map snd m"
| "children _ = []"

fun json_nodes :: "json \<Rightarrow> nat" where
  "json_nodes (JArray items) = Suc (sum_list (map json_nodes items))"
| "json_nodes (JObject m) = Suc (sum_list (map (\<lambda>(_, v). json_nodes v) m))"
| "json_nodes _ = 1"

lemma sum_list_children: "sum_list (map json_nodes (children v)) < json_nodes v"
  by (cases v) (simp_all add: comp_def case_prod_unfold)

text \<open>The work stack, its top first; a pushed batch is popped from its last element.\<close>

function depth_loop :: "(json \<times> nat) list \<Rightarrow> nat \<Rightarrow> nat" where
  "depth_loop [] depth = depth"
| "depth_loop ((v, d) # stack) depth =
     (let depth' = max depth d
      in if max_payload_depth < d then d
         else depth_loop (rev (map (\<lambda>i. (i, d + 1)) (children v)) @ stack) depth')"
  by pat_completeness auto
termination
  by (relation "measure (\<lambda>(stack, _). sum_list (map (json_nodes \<circ> fst) stack))")
    (simp_all add: rev_map [symmetric] comp_def sum_list_rev sum_list_children)

definition value_depth :: "json \<Rightarrow> nat" where
  "value_depth v = depth_loop [(v, 1)] 0"

section \<open>Printing parsed paths\<close>

fun print_accessor :: "accessor \<Rightarrow> string" where
  "print_accessor (Index i) = ''['' @ nat_to_string i @ '']''"
| "print_accessor All = ''[]''"

definition print_segment :: "segment \<Rightarrow> string" where
  "print_segment s = sg_key s @ concat (map print_accessor (sg_accessors s))"

definition print_path :: "segment list \<Rightarrow> string" where
  "print_path ss = join ''.'' (map print_segment ss)"

fun accessor_ok :: "accessor \<Rightarrow> bool" where
  "accessor_ok (Index i) \<longleftrightarrow> i \<le> max_array_index"
| "accessor_ok All \<longleftrightarrow> True"

definition segment_ok :: "segment \<Rightarrow> bool" where
  "segment_ok s \<longleftrightarrow> sg_key s \<noteq> [] \<and> list_all is_key_char (sg_key s) \<and> list_all accessor_ok (sg_accessors s)"

lemma key_char_facts:
  "is_key_char c \<Longrightarrow> c \<noteq> CHR ''['' \<and> c \<noteq> CHR ''.'' \<and> \<not> is_whitespace c"
  by (auto simp: is_key_char_def is_ascii_alphanumeric_def is_ascii_digit_def is_ascii_lowercase_def
      is_ascii_uppercase_def is_whitespace_def)

lemma digit_char_facts:
  "is_ascii_digit c \<Longrightarrow> c \<noteq> CHR '']'' \<and> c \<noteq> CHR ''.'' \<and> c \<noteq> CHR ''+''"
  by (auto simp: is_ascii_digit_def)

lemma nat_to_string_free:
  "CHR '']'' \<notin> set (nat_to_string n)" "CHR ''.'' \<notin> set (nat_to_string n)"
  using nat_to_string_digits [of n] digit_char_facts by (auto simp: list_all_iff)

lemma print_accessor_no_dot: "CHR ''.'' \<notin> set (print_accessor a)"
  by (cases a) (simp_all add: nat_to_string_free)

lemma print_segment_no_dot: "segment_ok s \<Longrightarrow> CHR ''.'' \<notin> set (print_segment s)"
  using key_char_facts print_accessor_no_dot by (auto simp: print_segment_def segment_ok_def list_all_iff)

lemma parse_accessor_print:
  "accessor_ok (Index i) \<Longrightarrow> parse_accessor raw (nat_to_string i) = Inr (Index i)"
  using nat_to_string_nonempty [of i] parse_usize_nat_to_string [of i]
  by (simp add: parse_accessor_def max_array_index_def)

lemma parse_accessors_print:
  "list_all accessor_ok as \<Longrightarrow> parse_accessors raw (concat (map print_accessor as)) = Inr as"
proof (induction as)
  case Nil
  then show ?case by (simp add: parse_accessors.simps)
next
  case (Cons a as)
  have "split_once CHR '']'' (nat_to_string i @ '']'' @ r) = Some (nat_to_string i, r)" for i r
    using split_once_append [OF nat_to_string_free(1), of i r] by simp
  with Cons show ?case
    by (cases a) (simp_all add: parse_accessors.simps [of raw "CHR ''['' # s" for s] parse_accessor_print,
      simp_all add: parse_accessor_def)
qed

lemma parse_segment_print: "segment_ok s \<Longrightarrow> parse_segment (print_segment s) = Inr s"
proof -
  assume ok: "segment_ok s"
  have key: "\<forall>c \<in> set (sg_key s). c \<noteq> CHR ''[''"
    using ok key_char_facts by (auto simp: segment_ok_def list_all_iff)
  have hd: "dropWhile (\<lambda>c. c \<noteq> CHR ''['') (concat (map print_accessor as)) = concat (map print_accessor as) \<and>
    takeWhile (\<lambda>c. c \<noteq> CHR ''['') (concat (map print_accessor as)) = []" for as
  proof (cases as)
    case (Cons a as')
    then show ?thesis by (cases a) simp_all
  qed simp
  have "takeWhile (\<lambda>c. c \<noteq> CHR ''['') (print_segment s) = sg_key s"
    "dropWhile (\<lambda>c. c \<noteq> CHR ''['') (print_segment s) = concat (map print_accessor (sg_accessors s))"
    using key hd by (simp_all add: print_segment_def takeWhile_append2 dropWhile_append2)
  with ok show ?thesis by (simp add: parse_segment_def segment_ok_def parse_accessors_print)
qed

lemma parse_segments_print:
  "list_all segment_ok ss \<Longrightarrow> n + length ss \<le> max_path_segments \<Longrightarrow>
     parse_segments n (map print_segment ss) = Inr ss"
  by (induction ss arbitrary: n) (simp_all add: parse_segment_print)

section \<open>What a parse guarantees\<close>

lemma length_nat_to_string: "0 < n \<Longrightarrow> n < 10 ^ k \<Longrightarrow> length (nat_to_string n) \<le> k"
proof (induction n arbitrary: k rule: nat_to_string.induct)
  case (1 n)
  show ?case
  proof (cases "n < 10")
    case True
    with 1(2,3) show ?thesis by (cases k) (simp_all add: nat_to_string.simps [of n])
  next
    case False
    then obtain j where k: "k = Suc j" using 1(3) by (cases k) auto
    have "length (nat_to_string (n div 10)) \<le> j"
      using 1(1) [OF False, of j] 1(3) False by (simp add: k less_mult_imp_div_less div_greater_zero_iff)
    with False k show ?thesis by (simp add: nat_to_string.simps [of n])
  qed
qed

lemma digits_value_bound: "list_all is_ascii_digit ds \<Longrightarrow> digits_value ds < 10 ^ length ds"
proof (induction ds rule: rev_induct)
  case (snoc d ds)
  then have "digit_value d < 10" by (auto simp: digit_value_def is_ascii_digit_def)
  with snoc show ?case by (simp add: digits_value_append)
qed (simp add: digits_value_def)

lemma char_count_simps [simp]:
  "char_count [] = 0" "char_count (xs @ ys) = char_count xs + char_count ys"
  by (simp_all add: char_count_def)

lemma char_count_ascii [simp]: "of_char c < (128 :: nat) \<Longrightarrow> char_count (c # cs) = Suc (char_count cs)"
proof -
  assume "of_char c < (128 :: nat)"
  then have "of_char c div 64 < (2 :: nat)" by (simp add: less_mult_imp_div_less)
  then show ?thesis by (simp add: char_count_def)
qed

lemma char_count_le: "char_count s \<le> length s"
  by (simp add: char_count_def)

lemma char_count_Cons_le: "char_count s \<le> char_count (c # s)"
  by (simp add: char_count_def)

lemma char_count_digits: "list_all is_ascii_digit ds \<Longrightarrow> char_count ds = length ds"
  by (induction ds) (simp_all add: is_ascii_digit_def)

lemma char_count_print_index:
  assumes "parse_usize s = Some n" shows "char_count (nat_to_string n) \<le> char_count s"
proof -
  obtain ds where ds: "ds \<noteq> []" "list_all is_ascii_digit ds" "n = digits_value ds" "char_count ds \<le> char_count s"
    using assms by (cases s) (auto simp: parse_usize_def Let_def char_count_Cons_le split: if_splits)
  have "length (nat_to_string n) \<le> length ds"
  proof (cases "n = 0")
    case True
    with ds(1) show ?thesis by (cases ds) (simp_all add: nat_to_string.simps [of 0])
  next
    case False
    with ds digits_value_bound [OF ds(2)] length_nat_to_string [of n "length ds"] show ?thesis by simp
  qed
  with char_count_digits [OF ds(2)] ds(4) char_count_le [of "nat_to_string n"] show ?thesis by linarith
qed

lemma parse_accessor_ok:
  "parse_accessor raw inside = Inr a \<Longrightarrow> accessor_ok a \<and> char_count (print_accessor a) \<le> char_count inside + 2"
  by (auto simp: parse_accessor_def char_count_print_index split: if_splits option.splits)

lemma parse_accessors_ok:
  "parse_accessors raw rest = Inr as \<Longrightarrow>
     list_all accessor_ok as \<and> char_count (concat (map print_accessor as)) \<le> char_count rest"
proof (induction raw rest arbitrary: as rule: parse_accessors.induct)
  case (1 raw rest)
  show ?case
  proof (cases rest)
    case Nil
    with 1(2) show ?thesis by (simp add: parse_accessors.simps)
  next
    case (Cons c stripped)
    with 1(2) obtain inside rest' a as' where st: "c = CHR ''[''" "split_once CHR '']'' stripped = Some (inside, rest')"
      "parse_accessor raw inside = Inr a" "parse_accessors raw rest' = Inr as'" "as = a # as'"
      by (auto simp: parse_accessors.simps [of raw "c # stripped"] and_then_Inr split: if_splits option.splits)
    then have len: "char_count stripped = char_count inside + Suc (char_count rest')" by (simp add: split_once_Some)
    from 1(1) [OF Cons _ st(2) refl, of as'] st have "list_all accessor_ok as' \<and> char_count (concat (map print_accessor as')) \<le> char_count rest'"
      by simp
    with parse_accessor_ok [OF st(3)] st(1,5) Cons len show ?thesis by simp
  qed
qed

lemma parse_segment_ok:
  assumes "parse_segment raw = Inr s"
  shows "segment_ok s \<and> char_count (print_segment s) \<le> char_count raw"
proof -
  let ?rest = "dropWhile (\<lambda>c. c \<noteq> CHR ''['') raw"
  obtain as where as: "parse_accessors raw ?rest = Inr as" "s = \<lparr>sg_key = takeWhile (\<lambda>c. c \<noteq> CHR ''['') raw, sg_accessors = as\<rparr>"
    "takeWhile (\<lambda>c. c \<noteq> CHR ''['') raw \<noteq> []" "list_all is_key_char (takeWhile (\<lambda>c. c \<noteq> CHR ''['') raw)"
    using assms by (auto simp: parse_segment_def Let_def and_then_Inr split: if_splits)
  have "char_count (takeWhile (\<lambda>c. c \<noteq> CHR ''['') raw) + char_count ?rest = char_count raw"
    by (metis char_count_simps(2) takeWhile_dropWhile_id)
  with parse_accessors_ok [OF as(1)] as(2-) show ?thesis by (simp add: segment_ok_def print_segment_def)
qed

lemma parse_segments_ok:
  "parse_segments n raws = Inr ss \<Longrightarrow>
     list_all segment_ok ss \<and> list_all2 (\<lambda>s raw. char_count (print_segment s) \<le> char_count raw) ss raws \<and>
     (raws \<noteq> [] \<longrightarrow> n + length ss \<le> max_path_segments)"
proof (induction n raws arbitrary: ss rule: parse_segments.induct)
  case (2 n raw raws)
  then obtain s ss' where s: "parse_segment raw = Inr s" "parse_segments (Suc n) raws = Inr ss'" "ss = s # ss'"
    "n < max_path_segments" by (auto simp: and_then_Inr split: if_splits)
  from 2(1) [OF _ s(2)] s parse_segment_ok [OF s(1)] show ?case by (cases raws) auto
qed simp

lemma char_count_join_mono:
  "list_all2 (\<lambda>a b. char_count a \<le> char_count b) as bs \<Longrightarrow> char_count (join sep as) \<le> char_count (join sep bs)"
proof (induction as arbitrary: bs rule: induct_list012)
  case (3 a a' as)
  then obtain b b' bs' where "bs = b # b' # bs'" by (auto simp: list_all2_Cons1)
  with 3(2) [of "b' # bs'"] 3(3) show ?case by simp
qed (auto simp: list_all2_Cons1)

lemma trim_id: "s \<noteq> [] \<Longrightarrow> \<not> is_whitespace (hd s) \<Longrightarrow> \<not> is_whitespace (last s) \<Longrightarrow> trim s = s"
proof -
  assume s: "s \<noteq> []" "\<not> is_whitespace (hd s)" "\<not> is_whitespace (last s)"
  have "dropWhile is_whitespace (rev s) = rev s"
    using s(1,3) by (metis dropWhile_eq_self_iff hd_rev)
  moreover have "dropWhile is_whitespace s = s" using s(1,2) by (simp add: dropWhile_eq_self_iff)
  ultimately show ?thesis by (simp add: trim_def trim_start_def trim_end_def)
qed

lemma digit_not_whitespace: "is_ascii_digit c \<Longrightarrow> \<not> is_whitespace c"
  by (auto simp: is_ascii_digit_def is_whitespace_def)

lemma print_accessor_no_whitespace: "c \<in> set (print_accessor a) \<Longrightarrow> \<not> is_whitespace c"
  using nat_to_string_digits digit_not_whitespace by (cases a) (auto simp: list_all_iff is_whitespace_def)

lemma print_segment_ends:
  assumes "segment_ok s"
  shows "print_segment s \<noteq> [] \<and> \<not> is_whitespace (hd (print_segment s)) \<and> \<not> is_whitespace (last (print_segment s))"
proof -
  have "\<not> is_whitespace c" if "c \<in> set (print_segment s)" for c
    using that assms key_char_facts print_accessor_no_whitespace by (auto simp: print_segment_def segment_ok_def list_all_iff)
  moreover have "print_segment s \<noteq> []" using assms by (simp add: print_segment_def segment_ok_def)
  ultimately show ?thesis by simp
qed

lemma print_path_ends:
  "ss \<noteq> [] \<Longrightarrow> list_all segment_ok ss \<Longrightarrow>
     print_path ss \<noteq> [] \<and> \<not> is_whitespace (hd (print_path ss)) \<and> \<not> is_whitespace (last (print_path ss))"
proof (induction ss rule: induct_list012)
  case (3 s s' ss)
  then show ?case using print_segment_ends [of s] by (simp add: print_path_def)
qed (simp_all add: print_path_def print_segment_ends)

text \<open>
  Parsing and printing dot-paths round-trip: every accepted text prints back to a canonical text
  that parses to the same segments, with every key and index inside the dialect's limits.
\<close>

theorem path_roundtrip:
  assumes "path_parse s = Inr p"
  shows "path_parse (print_path (pa_segments p)) = Inr \<lparr>pa_segments = pa_segments p, pa_text = print_path (pa_segments p)\<rparr> \<and>
    list_all segment_ok (pa_segments p) \<and> 0 < length (pa_segments p) \<and> length (pa_segments p) \<le> max_path_segments"
proof -
  let ?t = "trim s" and ?ss = "pa_segments p"
  have t: "?t \<noteq> []" "char_count ?t \<le> max_expr_chars" "parse_segments 0 (split_on CHR ''.'' ?t) = Inr ?ss"
    using assms by (auto simp: path_parse_def Let_def and_then_Inr split: if_splits)
  from parse_segments_ok [OF t(3)] have ok: "list_all segment_ok ?ss" "length ?ss \<le> max_path_segments"
    and len: "list_all2 (\<lambda>s raw. char_count (print_segment s) \<le> char_count raw) ?ss (split_on CHR ''.'' ?t)"
    using split_on_nonempty by auto
  then have ne: "?ss \<noteq> []" by (metis list_all2_Nil split_on_nonempty)
  have "char_count (print_path ?ss) \<le> char_count ?t"
    using char_count_join_mono [of "map print_segment ?ss" "split_on CHR ''.'' ?t" "''.''"] len
    by (simp add: print_path_def list_all2_map1 join_split_on)
  moreover have "split_on CHR ''.'' (print_path ?ss) = map print_segment ?ss"
    unfolding print_path_def using ne ok(1) print_segment_no_dot
    by (intro split_on_join) (auto simp: list_all_iff)
  ultimately show ?thesis
    using t ok ne print_path_ends [OF ne ok(1)]
    by (simp add: path_parse_def trim_id parse_segments_print)
qed

theorem path_roundtrip_witness:
  "path_parse '' data.labels[].name '' = path_parse ''data.labels[].name'' \<and>
   path_parse ''data.labels[].name'' = Inr \<lparr>pa_segments = [\<lparr>sg_key = ''data'', sg_accessors = []\<rparr>,
      \<lparr>sg_key = ''labels'', sg_accessors = [All]\<rparr>, \<lparr>sg_key = ''name'', sg_accessors = []\<rparr>],
      pa_text = ''data.labels[].name''\<rparr>"
proof -
  let ?p = "\<lparr>pa_segments = [\<lparr>sg_key = ''data'', sg_accessors = []\<rparr>,
      \<lparr>sg_key = ''labels'', sg_accessors = [All]\<rparr>, \<lparr>sg_key = ''name'', sg_accessors = []\<rparr>],
      pa_text = ''data.labels[].name''\<rparr>"
  have p: "path_parse '' data.labels[].name '' = Inr ?p" by code_simp
  have t: "print_path (pa_segments ?p) = ''data.labels[].name''" by code_simp
  from path_roundtrip [OF p] p show ?thesis unfolding t by simp
qed

section \<open>The depth check\<close>

text \<open>The reference: nesting depth by recursion, a scalar being one level.\<close>

fun json_depth :: "json \<Rightarrow> nat" where
  "json_depth (JArray items) = Suc (foldr max (map json_depth items) 0)"
| "json_depth (JObject m) = Suc (foldr max (map (\<lambda>(_, v). json_depth v) m) 0)"
| "json_depth _ = 1"

lemma json_depth_children: "json_depth v = Suc (foldr max (map json_depth (children v)) 0)"
  by (cases v) (simp_all add: comp_def case_prod_unfold)

lemma foldr_max_le: "foldr max xs 0 \<le> n \<longleftrightarrow> (\<forall>x \<in> set xs. x \<le> (n :: nat))"
  by (induction xs) auto

lemma foldr_max_Max: "foldr max xs (a :: nat) = Max (insert a (set xs))"
  by (induction xs) (simp_all add: insert_commute)

text \<open>What the pending stack still reaches: an entry at level \<open>d\<close> reaches \<open>d - 1\<close> plus its depth.\<close>

definition reach :: "json \<times> nat \<Rightarrow> nat" where
  "reach = (\<lambda>(v, d). d + json_depth v - 1)"

lemma reach_le_cap:
  "1 \<le> d \<Longrightarrow> reach (v, d) \<le> n \<longleftrightarrow> d \<le> n \<and> (\<forall>c \<in> set (children v). reach (c, Suc d) \<le> n)"
  unfolding reach_def using foldr_max_le [of "map json_depth (children v)" "n - d"]
  by (auto simp: json_depth_children [of v])

lemma depth_loop_le:
  assumes "\<forall>(v, d) \<in> set stack. 1 \<le> d" "depth \<le> max_payload_depth" "n \<le> max_payload_depth"
  shows "depth_loop stack depth \<le> n \<longleftrightarrow> depth \<le> n \<and> (\<forall>e \<in> set stack. reach e \<le> n)"
  using assms
proof (induction stack depth rule: depth_loop.induct)
  case (2 v d stack depth)
  show ?case
  proof (cases "max_payload_depth < d")
    case True
    with 2(4) reach_le_cap [of d v n] 2(2) show ?thesis by (auto simp: Let_def)
  next
    case False
    have "depth_loop (rev (map (\<lambda>i. (i, d + 1)) (children v)) @ stack) (max depth d) \<le> n \<longleftrightarrow>
      max depth d \<le> n \<and> (\<forall>e \<in> set (rev (map (\<lambda>i. (i, d + 1)) (children v)) @ stack). reach e \<le> n)"
      by (rule "2.IH" [OF refl False]) (use 2 False in auto)
    with False reach_le_cap [of d v n] 2(2) show ?thesis by (auto simp: Let_def)
  qed
qed simp

lemma depth_loop_bound:
  "\<forall>(v, d) \<in> set stack. d \<le> Suc max_payload_depth \<Longrightarrow> depth \<le> Suc max_payload_depth \<Longrightarrow>
     depth_loop stack depth \<le> Suc max_payload_depth"
proof (induction stack depth rule: depth_loop.induct)
  case (2 v d stack depth)
  show ?case
  proof (cases "max_payload_depth < d")
    case True
    with 2(2) show ?thesis by (simp add: Let_def)
  next
    case False
    have "depth_loop (rev (map (\<lambda>i. (i, d + 1)) (children v)) @ stack) (max depth d) \<le> Suc max_payload_depth"
      by (rule "2.IH" [OF refl False]) (use 2(2,3) False in auto)
    with False show ?thesis by (simp add: Let_def)
  qed
qed simp

lemma value_depth_eq: "value_depth v = min (json_depth v) (Suc max_payload_depth)"
proof (rule antisym)
  have le: "value_depth v \<le> n \<longleftrightarrow> json_depth v \<le> n" if "n \<le> max_payload_depth" for n
    using that depth_loop_le [of "[(v, 1)]" 0 n] by (simp add: value_depth_def reach_def del: depth_loop.simps)
  have bound: "value_depth v \<le> Suc max_payload_depth"
    using depth_loop_bound [of "[(v, 1)]" 0] by (simp add: value_depth_def del: depth_loop.simps)
  show "value_depth v \<le> min (json_depth v) (Suc max_payload_depth)"
    using bound le [of "json_depth v"] by (cases "json_depth v \<le> max_payload_depth") auto
  show "min (json_depth v) (Suc max_payload_depth) \<le> value_depth v"
    using le [of "value_depth v"] by (cases "value_depth v \<le> max_payload_depth") auto
qed

text \<open>
  The iterative depth check computes the nesting depth exactly, saturated one above the cap: a
  payload passes the cap check if and only if its real depth is within it, and a hostile payload is
  never walked further than one level past the cap.
\<close>

theorem value_depth_saturates: "value_depth v = min (json_depth v) (Suc max_payload_depth)"
  by (rule value_depth_eq)

end
