(* ===== verification/Manifest_Predicate.thy ===== *)
theory Manifest_Predicate
  imports Manifest_Path
begin

text \<open>
  Route predicates of connector manifests (\<^verbatim>\<open>verity-manifest/src/predicate.rs\<close>): the tokenizer, the
  conjunction parser and matching. The tokenizer's scan is a \<^verbatim>\<open>while\<close> loop that does not always
  advance, so it is a partial function whose result \<open>None\<close> means that it never returns; the lemmas
  settle on which texts that happens.
\<close>

section \<open>Data\<close>

text \<open>\<open>BadPath\<close> is the source's \<^verbatim>\<open>Bad\<close> whose message wraps a path error.\<close>

datatype predicate_error = PredicateTooLong | PredicateEmpty | Bad string | BadPath string path_error

datatype literal = Str string | Num f64 | Bool bool | Null

datatype op = Eq literal | Ne literal | In "literal list"

record pred_term =
  te_path :: path
  te_op :: op

record predicate =
  pr_terms :: "pred_term list"
  pr_text :: string

datatype token = TPath string | TLit literal | TEq | TNe | TIn | TAnd | TLBracket | TRBracket | TComma

section \<open>Matching\<close>

fun literal_matches :: "literal \<Rightarrow> json \<Rightarrow> bool" where
  "literal_matches (Str s) (JString vs) = (s = vs)"
| "literal_matches (Num n) (JNumber vn) = (case as_f64 vn of None \<Rightarrow> False | Some f \<Rightarrow> f64_eq f n)"
| "literal_matches (Bool b) (JBool vb) = (b = vb)"
| "literal_matches Null JNull = True"
| "literal_matches _ _ = False"

fun op_matches :: "op \<Rightarrow> json \<Rightarrow> bool" where
  "op_matches (Eq lit) v = literal_matches lit v"
| "op_matches (Ne lit) v = (\<not> literal_matches lit v)"
| "op_matches (In lits) v = list_ex (\<lambda>l. literal_matches l v) lits"

definition term_matches :: "pred_term \<Rightarrow> json \<Rightarrow> bool" where
  "term_matches t payload =
     (case eval_scalar (te_path t) payload of None \<Rightarrow> False | Some v \<Rightarrow> op_matches (te_op t) v)"

definition predicate_matches :: "predicate \<Rightarrow> json \<Rightarrow> bool" where
  "predicate_matches p payload = list_all (\<lambda>t. term_matches t payload) (pr_terms p)"

section \<open>Tokenizing\<close>

definition is_blank :: "char \<Rightarrow> bool" where
  "is_blank c \<longleftrightarrow> c = CHR '' '' \<or> c = CHR 0x09 \<or> c = CHR 0x0A"

definition is_delim :: "char \<Rightarrow> bool" where
  "is_delim c \<longleftrightarrow> is_blank c \<or> c \<in> {CHR ''='', CHR ''!'', CHR ''['', CHR '']'', CHR '','', CHR 0x27}"

definition bare_word :: "string \<Rightarrow> string" where
  "bare_word cs = takeWhile (\<lambda>c. \<not> is_delim c) cs"

definition after_word :: "string \<Rightarrow> string" where
  "after_word cs = dropWhile (\<lambda>c. \<not> is_delim c) cs"

text \<open>Re-attaching \<^verbatim>\<open>[n]\<close> and \<^verbatim>\<open>[]\<close> accessors to the word they follow.\<close>

function attach_accessors :: "string \<Rightarrow> string \<Rightarrow> predicate_error + string \<times> string" where
  "attach_accessors path_text cs =
     (case cs of
        [] \<Rightarrow> Inr (path_text, [])
      | c # _ \<Rightarrow>
          if c = CHR ''['' then
            (case split_once CHR '']'' cs of
               None \<Rightarrow> Inl (Bad ''unterminated index'')
             | Some (inside, rest) \<Rightarrow>
                 attach_accessors (path_text @ inside @ '']'' @ bare_word rest) (after_word rest))
          else Inr (path_text, cs))"
  by auto
termination
  by (relation "measure (length \<circ> snd)")
    (auto simp: split_once_Some after_word_def less_Suc_eq_le intro!: le_trans [OF length_dropWhile_le])

declare attach_accessors.simps [simp del]

definition word_token :: "string \<Rightarrow> string \<Rightarrow> predicate_error + token \<times> string" where
  "word_token word rest =
     (if word = ''and'' then Inr (TAnd, rest)
      else if word = ''in'' then Inr (TIn, rest)
      else if word = ''true'' then Inr (TLit (Bool True), rest)
      else if word = ''false'' then Inr (TLit (Bool False), rest)
      else if word = ''null'' then Inr (TLit Null, rest)
      else case parse_f64 word of
        Some n \<Rightarrow> Inr (TLit (Num n), rest)
      | None \<Rightarrow> and_then (attach_accessors word rest) (\<lambda>(path_text, rest'). Inr (TPath path_text, rest')))"

partial_function (option) tokenize_loop :: "string \<Rightarrow> token list \<Rightarrow> (predicate_error + token list) option" where
  "tokenize_loop cs tokens =
     (case cs of
        [] \<Rightarrow> Some (Inr tokens)
      | c # r \<Rightarrow>
          if is_blank c then tokenize_loop r tokens
          else if c = CHR ''='' then tokenize_loop r (tokens @ [TEq])
          else if c = CHR ''!'' \<and> starts_with ''='' r then tokenize_loop (tl r) (tokens @ [TNe])
          else if c = CHR ''['' then tokenize_loop r (tokens @ [TLBracket])
          else if c = CHR '']'' then tokenize_loop r (tokens @ [TRBracket])
          else if c = CHR '','' then tokenize_loop r (tokens @ [TComma])
          else if c = CHR 0x27 then
            (case split_once CHR 0x27 r of
               None \<Rightarrow> Some (Inl (Bad ''unterminated string''))
             | Some (lit, r') \<Rightarrow> tokenize_loop r' (tokens @ [TLit (Str lit)]))
          else
            (case word_token (bare_word cs) (after_word cs) of
               Inl e \<Rightarrow> Some (Inl e)
             | Inr (token, r') \<Rightarrow> tokenize_loop r' (tokens @ [token])))"

declare tokenize_loop.simps [code]

definition tokenize :: "string \<Rightarrow> (predicate_error + token list) option" where
  "tokenize s =
     map_option (\<lambda>r. and_then r (\<lambda>tokens. if tokens = [] then Inl PredicateEmpty else Inr tokens))
       (tokenize_loop s [])"

section \<open>Parsing\<close>

fun parse_in_list :: "token list \<Rightarrow> predicate_error + literal list \<times> token list" where
  "parse_in_list (TLit lit # TComma # tail) = and_then (parse_in_list tail) (\<lambda>(lits, r). Inr (lit # lits, r))"
| "parse_in_list (TLit lit # TRBracket # tail) = Inr ([lit], tail)"
| "parse_in_list _ = Inl (Bad ''bad `in [...]` list'')"

definition parse_op :: "token list \<Rightarrow> predicate_error + op \<times> token list" where
  "parse_op rest =
     (case rest of
        TEq # TLit lit # tail \<Rightarrow> Inr (Eq lit, tail)
      | TNe # TLit lit # tail \<Rightarrow> Inr (Ne lit, tail)
      | TIn # TLBracket # tail \<Rightarrow> and_then (parse_in_list tail) (\<lambda>(lits, r). Inr (In lits, r))
      | _ \<Rightarrow> Inl (Bad ''expected `= <lit>`, `!= <lit>`, or `in [...]`''))"

definition parse_term :: "token list \<Rightarrow> predicate_error + pred_term \<times> token list" where
  "parse_term tokens =
     (case tokens of
        TPath path_text # rest \<Rightarrow>
          (case path_parse path_text of
             Inl e \<Rightarrow> Inl (BadPath path_text e)
           | Inr p \<Rightarrow> and_then (parse_op rest) (\<lambda>(o', tail). Inr (\<lparr>te_path = p, te_op = o'\<rparr>, tail)))
      | _ \<Rightarrow> Inl (Bad ''expected a dot-path''))"

lemma parse_in_list_shorter: "parse_in_list ts = Inr (ls, r) \<Longrightarrow> length r < length ts"
  by (induction ts arbitrary: ls rule: parse_in_list.induct) (auto simp: and_then_Inr)

lemma parse_op_shorter: "parse_op ts = Inr (q, r) \<Longrightarrow> length r < length ts"
  using parse_in_list_shorter
  by (fastforce simp: parse_op_def and_then_Inr split: list.splits token.splits)

lemma parse_term_shorter: "parse_term ts = Inr (t, r) \<Longrightarrow> length r < length ts"
  using parse_op_shorter
  by (fastforce simp: parse_term_def and_then_Inr split: list.splits token.splits sum.splits)

function parse_terms :: "token list \<Rightarrow> predicate_error + pred_term list" where
  "parse_terms tokens =
     (case parse_term tokens of
        Inl e \<Rightarrow> Inl e
      | Inr (t, remaining) \<Rightarrow>
          (case remaining of
             [] \<Rightarrow> Inr [t]
           | TAnd # x # tail \<Rightarrow> and_then (parse_terms (x # tail)) (\<lambda>ts. Inr (t # ts))
           | _ \<Rightarrow> Inl (Bad ''expected `and <term>`'')))"
  by auto
termination by (relation "measure length") (auto dest: parse_term_shorter)

declare parse_terms.simps [simp del]

definition predicate_parse :: "string \<Rightarrow> (predicate_error + predicate) option" where
  "predicate_parse s =
     (let text = trim s
      in if text = [] then Some (Inl PredicateEmpty)
         else if max_expr_chars < char_count text then Some (Inl PredicateTooLong)
         else map_option (\<lambda>r. and_then r (\<lambda>tokens. and_then (parse_terms tokens)
                (\<lambda>ts. Inr \<lparr>pr_terms = ts, pr_text = text\<rparr>))) (tokenize text))"

section \<open>When the scan advances\<close>

text \<open>Every exclamation mark is the start of \<^verbatim>\<open>!=\<close>.\<close>

fun bangs_paired :: "string \<Rightarrow> bool" where
  "bangs_paired [] = True"
| "bangs_paired (c # cs) = ((c = CHR ''!'' \<longrightarrow> starts_with ''='' cs) \<and> bangs_paired cs)"

lemma bangs_paired_suffix: "bangs_paired (a @ b) \<Longrightarrow> bangs_paired b"
  by (induction a) auto

lemma starts_with_eq: "starts_with ''='' cs \<longleftrightarrow> (\<exists>r. cs = CHR ''='' # r)"
  by (simp add: starts_with_iff)

lemma word_split: "bare_word cs @ after_word cs = cs"
  by (simp add: bare_word_def after_word_def)

lemma attach_accessors_suffix: "attach_accessors pt cs = Inr (t, r) \<Longrightarrow> \<exists>a. cs = a @ r"
proof (induction pt cs arbitrary: t r rule: attach_accessors.induct)
  case (1 pt cs)
  show ?case
  proof (cases "\<exists>r'. cs = CHR ''['' # r'")
    case True
    then obtain r' where cs: "cs = CHR ''['' # r'" by blast
    with "1.prems" obtain inside rest where sp: "split_once CHR '']'' cs = Some (inside, rest)"
      "attach_accessors (pt @ inside @ '']'' @ bare_word rest) (after_word rest) = Inr (t, r)"
      by (auto simp: attach_accessors.simps [of pt "CHR ''['' # r'"] split: option.splits prod.splits)
    from "1.IH" [OF cs refl sp(1) refl sp(2)] obtain a where "after_word rest = a @ r" by blast
    with sp(1) word_split [of rest] show ?thesis by (metis split_once_Some append.assoc append_Cons)
  next
    case False
    with "1.prems" have "cs = r" by (auto simp: attach_accessors.simps [of pt cs] split: list.splits if_splits)
    then show ?thesis by simp
  qed
qed

lemma word_token_suffix: "word_token w rest = Inr (t, r) \<Longrightarrow> \<exists>a. rest = a @ r"
  using attach_accessors_suffix [of w rest]
  by (auto simp: word_token_def and_then_Inr split: if_splits option.splits)

lemma word_token_advances:
  assumes "\<not> is_delim c" "word_token (bare_word (c # cs)) (after_word (c # cs)) = Inr (t, r)"
  shows "length r < length (c # cs) \<and> (\<exists>a. c # cs = a @ r)"
proof -
  from word_token_suffix [OF assms(2)] obtain a where a: "after_word (c # cs) = a @ r" by blast
  with assms(1) have "length r \<le> length cs"
    using word_split [of cs] by (simp add: after_word_def) (metis length_append length_dropWhile_le le_add2 le_trans)
  moreover have "c # cs = (bare_word (c # cs) @ a) @ r" using word_split [of "c # cs"] a by simp
  ultimately show ?thesis by (metis less_Suc_eq_le length_Cons)
qed

lemma not_delim: "\<lbrakk>\<not> is_blank c; c \<noteq> CHR ''=''; c \<noteq> CHR ''!''; c \<noteq> CHR ''[''; c \<noteq> CHR '']''; c \<noteq> CHR '','';
    c \<noteq> CHR 0x27\<rbrakk> \<Longrightarrow> \<not> is_delim c"
  by (simp add: is_delim_def)

lemma tokenize_loop_returns: "bangs_paired cs \<Longrightarrow> \<exists>r. tokenize_loop cs tokens = Some r"
proof (induction "length cs" arbitrary: cs tokens rule: less_induct)
  case less
  show ?case
  proof (cases cs)
    case Nil
    then show ?thesis by (simp add: tokenize_loop.simps)
  next
    case (Cons c r)
    have shorter: "\<exists>r. tokenize_loop cs' ts = Some r" if "length cs' < length cs" "\<exists>a. cs = a @ cs'" for cs' ts
      using less that bangs_paired_suffix by blast
    have step: "\<exists>q. tokenize_loop r ts = Some q" "\<exists>q. r \<noteq> [] \<longrightarrow> tokenize_loop (tl r) ts = Some q" for ts
      using shorter [of r ts] shorter [of "tl r" ts] Cons by (auto, cases r, auto)
    have quote: "\<exists>q. tokenize_loop r' ts = Some q" if "split_once CHR 0x27 r = Some (l, r')" for l r' ts
      using shorter [of r' ts] that Cons by (auto simp: split_once_Some)
    have word: "\<exists>q. tokenize_loop r' ts = Some q"
      if "\<not> is_delim c" "word_token (bare_word cs) (after_word cs) = Inr (t, r')" for t r' ts
      using word_token_advances [OF that(1), of r t r'] that(2) shorter [of r' ts] Cons by auto
    have bang: "r \<noteq> [] \<and> starts_with ''='' r" if "c = CHR ''!''"
      using less.prems Cons that by (auto simp: starts_with_eq)
    show ?thesis
      by (subst tokenize_loop.simps)
        (use step quote word bang not_delim [of c] Cons in \<open>auto split: option.splits sum.splits prod.splits\<close>)
  qed
qed

lemma tokenize_loop_lone_bang:
  assumes "\<not> starts_with ''='' r"
  shows "tokenize_loop (CHR ''!'' # r) tokens = None"
proof -
  have word: "bare_word (CHR ''!'' # r) = []" "after_word (CHR ''!'' # r) = CHR ''!'' # r"
    by (simp_all add: bare_word_def after_word_def is_delim_def)
  have "parse_f64 [] = None" by (simp add: parse_f64_def parse_unsigned_f64_def split_digits_def to_ascii_lowercase_def)
  then have token: "word_token [] (CHR ''!'' # r) = Inr (TPath [], CHR ''!'' # r)"
    by (simp add: word_token_def attach_accessors.simps)
  have "cs \<noteq> CHR ''!'' # r" if "tokenize_loop cs ts = Some y" for cs ts y
    by (rule tokenize_loop.raw_induct [OF _ that])
      (use assms word token in \<open>auto simp: is_blank_def split: if_splits; blast\<close>)
  then show ?thesis by (cases "tokenize_loop (CHR ''!'' # r) tokens") auto
qed

lemma bangs_paired_word: "\<not> bangs_paired cs \<Longrightarrow> \<not> bangs_paired (after_word cs)"
proof (induction cs)
  case (Cons c cs)
  then show ?case by (cases "is_delim c") (auto simp: after_word_def is_delim_def)
qed simp

lemma attach_accessors_plain: "CHR ''['' \<notin> set cs \<Longrightarrow> attach_accessors w cs = Inr (w, cs)"
  by (cases cs) (auto simp: attach_accessors.simps)

lemma after_word_free: "x \<notin> set cs \<Longrightarrow> x \<notin> set (after_word cs)"
  using set_dropWhileD [of x] by (auto simp: after_word_def)

lemma tokenize_loop_diverges:
  "\<lbrakk>\<not> bangs_paired cs; CHR 0x27 \<notin> set cs; CHR ''['' \<notin> set cs\<rbrakk> \<Longrightarrow> tokenize_loop cs tokens = None"
proof (induction "length cs" arbitrary: cs tokens rule: less_induct)
  case less
  then obtain c r where cs: "cs = c # r" by (cases cs) auto
  have plain: "tokenize_loop r ts = None" if "\<not> bangs_paired r" for ts
    using less that cs by simp
  consider (lone) "c = CHR ''!''" "\<not> starts_with ''='' r" | (ne) r2 where "c = CHR ''!''" "r = CHR ''='' # r2"
    | (other) "c \<noteq> CHR ''!''" by (auto simp: starts_with_eq)
  then show ?case
  proof cases
    case lone
    with cs show ?thesis by (simp add: tokenize_loop_lone_bang)
  next
    case ne
    with less cs have "tokenize_loop r2 ts = None" for ts by (simp add: starts_with_eq)
    with ne cs show ?thesis by (simp add: tokenize_loop.simps [of "CHR ''!'' # CHR ''='' # r2"] is_blank_def starts_with_eq)
  next
    case other
    have nb: "\<not> bangs_paired r" using other less(2) cs by simp
    have "tokenize_loop r' ts = None"
      if "\<not> is_delim c" "word_token (bare_word cs) (after_word cs) = Inr (t, r')" for t r' ts
    proof -
      from that(2) have r': "r' = after_word cs"
        by (auto simp: word_token_def and_then_Inr attach_accessors_plain [OF after_word_free [OF less(4)]]
            split: if_splits option.splits)
      have "length r' < length cs" using word_token_advances [OF that(1)] that(2) cs by blast
      with r' less after_word_free bangs_paired_word show ?thesis by simp
    qed
    moreover have "\<exists>t r'. word_token (bare_word cs) (after_word cs) = Inr (t, r')"
      by (auto simp: word_token_def attach_accessors_plain [OF after_word_free [OF less(4)]] split: option.splits)
    ultimately show ?thesis using other less(3,4) plain [OF nb] not_delim [of c] cs
      by (subst tokenize_loop.simps) (auto split: sum.splits)
  qed
qed

section \<open>Properties\<close>

text \<open>
  A route predicate in which every exclamation mark begins \<^verbatim>\<open>!=\<close> is always parsed or refused: the
  tokenizer and the conjunction parser return.
\<close>

theorem predicate_parse_returns:
  assumes "bangs_paired (trim s)"
  shows "\<exists>r. predicate_parse s = Some r"
  using tokenize_loop_returns [OF assms, of "[]"] by (auto simp: predicate_parse_def tokenize_def Let_def)

theorem predicate_parse_returns_witness:
  "\<exists>r. predicate_parse ''type != 'Issue' and action in ['create','update']'' = Some r"
  by (rule predicate_parse_returns) code_simp

text \<open>
  A lone exclamation mark hangs the tokenizer: on any text of acceptable length without quotes
  and brackets that holds an exclamation mark not followed by an equals sign, predicate parsing
  never returns.
\<close>

theorem predicate_parse_hangs:
  assumes "\<not> bangs_paired (trim s)" "CHR 0x27 \<notin> set (trim s)" "CHR ''['' \<notin> set (trim s)"
    "char_count (trim s) \<le> max_expr_chars"
  shows "predicate_parse s = None"
  using tokenize_loop_diverges [OF assms(1-3), of "[]"] assms(1,4)
  by (auto simp: predicate_parse_def tokenize_def Let_def)

theorem predicate_parse_hangs_witness: "predicate_parse ''done ! true'' = None"
  by (rule predicate_parse_hangs) code_simp+

end
