(* ===== verification/Manifest_Runtime.thy ===== *)
theory Manifest_Runtime
  imports Manifest_Predicate
begin

text \<open>
  Connector manifests (\<^verbatim>\<open>verity-manifest/src/schema.rs\<close>, \<^verbatim>\<open>runtime.rs\<close>): the manifest record, its
  parse-time validation, the activation gate, and the runtime that turns one inbound payload into a
  set of writes with an access envelope, or quarantines it.

  Error messages are constructors that carry the values the message interpolates. YAML reading,
  timestamp reading and printing (\<^verbatim>\<open>chrono\<close>) and JSON text (\<^verbatim>\<open>serde_json\<close>) are parameters. A result
  \<open>None\<close> means that predicate parsing never returned.
\<close>

section \<open>Schema\<close>

datatype tier = TierA | TierB | TierC

datatype auth_shape = StaticKey | ClientCredentials | RefreshToken | ServiceAccountJwt

record auth =
  au_ref :: string
  au_shape :: auth_shape

datatype signature_scheme = HmacSha256

record signature_spec =
  ss_scheme :: signature_scheme
  ss_header :: string
  ss_secret_ref :: string

record webhook_spec =
  ws_signature :: "signature_spec option"

record source_spec =
  so_name :: string
  so_tier :: "tier option"
  so_auth :: "auth option"
  so_webhook :: "webhook_spec option"

datatype operation = Upsert

record route =
  ro_when :: string
  ro_operation :: operation

record entity_spec =
  es_type :: string
  es_route :: route
  es_primary_key :: string
  es_valid_from :: "string option"
  es_observed_at :: "string option"
  es_map :: "(string, string) btree_map"
  es_content :: "string option"

record poll =
  po_endpoint :: string
  po_interval :: string
  po_cursor :: "string option"

datatype acl_mode = MapMode | StaticMode | QuarantineMode

datatype identity_namespace = Email | SourceNativeId | VerityGroup

record acl_policy =
  ap_mode :: acl_mode
  ap_identity_namespace :: "identity_namespace option"
  ap_principals :: "string option"
  ap_approximation :: bool
  ap_note :: "string option"
  ap_static_visibility :: "string list option"

record fixture_expect =
  fe_facts :: "string option"
  fe_chunks :: "string option"
  fe_acl_envelopes :: "string option"
  fe_quarantined :: bool
  fe_reason_contains :: "string option"

record fixture =
  fx_input :: string
  fx_expect :: fixture_expect

record manifest =
  mf_manifest_version :: nat
  mf_source :: source_spec
  mf_entities :: "entity_spec list"
  mf_poll :: "poll option"
  mf_acl_policy :: "acl_policy option"
  mf_fixtures :: "fixture list"

datatype invalid_reason =
    UnsupportedVersion nat
  | BadSourceName string
  | NotASecretRef string string
  | BadSecretName string string
  | EmptySignatureHeader
  | NoEntities
  | TooManyEntities
  | EmptyEntityType
  | BadRoute string predicate_error
  | BadExpr string string path_error
  | TooManyFields string
  | EmptyFieldName string
  | MapNeedsPrincipals
  | BadPrincipalsPath path_error
  | MapNeedsNamespace
  | StaticVisibilityInMap
  | PrincipalsInStatic
  | EmptyStaticVisibility
  | QuarantineTakesNothing
  | EmptyFixtureInput

datatype activation_refusal =
    NoAclPolicy
  | TierAApproximated
  | TierANeedsMap acl_mode
  | TierBNotApproximated
  | TierBNeedsNote
  | TierBNeedsMap acl_mode
  | TierCNeedsStatic acl_mode

datatype manifest_error =
    TooLarge
  | Yaml string
  | Invalid invalid_reason
  | ActivationRefused activation_refusal
  | Io string

section \<open>Validation\<close>

fun returning :: "('e + 'a) option \<Rightarrow> ('a \<Rightarrow> ('e + 'b) option) \<Rightarrow> ('e + 'b) option" where
  "returning None f = None"
| "returning (Some (Inl e)) f = Some (Inl e)"
| "returning (Some (Inr a)) f = f a"

definition map_err :: "('e \<Rightarrow> 'f) \<Rightarrow> 'e + 'a \<Rightarrow> 'f + 'a" where
  "map_err g r = (case r of Inl e \<Rightarrow> Inl (g e) | Inr a \<Rightarrow> Inr a)"

definition ensure :: "bool \<Rightarrow> 'e \<Rightarrow> 'e + unit" where
  "ensure b e = (if b then Inr () else Inl e)"

definition validate_secret_ref :: "string \<Rightarrow> string \<Rightarrow> manifest_error + unit" where
  "validate_secret_ref r what =
     (case strip_prefix ''secret://'' r of
        None \<Rightarrow> Inl (Invalid (NotASecretRef what r))
      | Some name \<Rightarrow>
          ensure (name \<noteq> [] \<and> list_all (\<lambda>c. is_ascii_alphanumeric c \<or> c \<in> {CHR ''_'', CHR ''-'', CHR ''.''}) name)
            (Invalid (BadSecretName what name)))"

definition policy_validate :: "acl_policy \<Rightarrow> manifest_error + unit" where
  "policy_validate p =
     (case ap_mode p of
        MapMode \<Rightarrow>
          (case ap_principals p of
             None \<Rightarrow> Inl (Invalid MapNeedsPrincipals)
           | Some principals \<Rightarrow>
               and_then (map_err (\<lambda>e. Invalid (BadPrincipalsPath e)) (path_parse principals)) (\<lambda>_.
               and_then (ensure (ap_identity_namespace p \<noteq> None) (Invalid MapNeedsNamespace)) (\<lambda>_.
                 ensure (ap_static_visibility p = None) (Invalid StaticVisibilityInMap))))
      | StaticMode \<Rightarrow>
          and_then (ensure (ap_principals p = None) (Invalid PrincipalsInStatic)) (\<lambda>_.
            case ap_static_visibility p of
              None \<Rightarrow> Inr ()
            | Some vis \<Rightarrow> ensure (vis \<noteq> [] \<and> \<not> list_ex (\<lambda>q. trim q = []) vis) (Invalid EmptyStaticVisibility))
      | QuarantineMode \<Rightarrow>
          ensure (ap_principals p = None \<and> ap_static_visibility p = None) (Invalid QuarantineTakesNothing))"

fun validate_map :: "string \<Rightarrow> (string \<times> string) list \<Rightarrow> manifest_error + unit" where
  "validate_map t [] = Inr ()"
| "validate_map t ((field, e) # rest) =
     and_then (ensure (trim field \<noteq> []) (Invalid (EmptyFieldName t))) (\<lambda>_.
     and_then (map_err (\<lambda>err. Invalid (BadExpr t (''map.'' @ field) err)) (expr_parse e)) (\<lambda>_.
       validate_map t rest))"

definition validate_opt :: "(string \<Rightarrow> path_error + 'a) \<Rightarrow> string \<Rightarrow> string \<Rightarrow> string option \<Rightarrow> manifest_error + unit" where
  "validate_opt parse t what e =
     (case e of None \<Rightarrow> Inr ()
      | Some text \<Rightarrow> and_then (map_err (\<lambda>err. Invalid (BadExpr t what err)) (parse text)) (\<lambda>_. Inr ()))"

definition validate_entity :: "entity_spec \<Rightarrow> (manifest_error + unit) option" where
  "validate_entity entity =
     (let t = es_type entity
      in if trim t = [] then Some (Inl (Invalid EmptyEntityType))
         else returning (map_option (map_err (\<lambda>e. Invalid (BadRoute t e))) (predicate_parse (ro_when (es_route entity)))) (\<lambda>_.
           Some (and_then (map_err (\<lambda>e. Invalid (BadExpr t ''primary_key'' e)) (path_parse (es_primary_key entity))) (\<lambda>_.
                 and_then (validate_opt expr_parse t ''valid_from'' (es_valid_from entity)) (\<lambda>_.
                 and_then (validate_opt expr_parse t ''observed_at'' (es_observed_at entity)) (\<lambda>_.
                 and_then (ensure (length (es_map entity) \<le> max_map_fields) (Invalid (TooManyFields t))) (\<lambda>_.
                 and_then (validate_map t (es_map entity)) (\<lambda>_.
                   validate_opt path_parse t ''content'' (es_content entity)))))))))"

fun validate_entities :: "entity_spec list \<Rightarrow> (manifest_error + unit) option" where
  "validate_entities [] = Some (Inr ())"
| "validate_entities (e # es) = returning (validate_entity e) (\<lambda>_. validate_entities es)"

definition validate_source :: "source_spec \<Rightarrow> manifest_error + unit" where
  "validate_source s =
     and_then (ensure (so_name s \<noteq> [] \<and>
         list_all (\<lambda>c. is_ascii_lowercase c \<or> is_ascii_digit c \<or> c = CHR ''_'' \<or> c = CHR ''-'') (so_name s))
       (Invalid (BadSourceName (so_name s)))) (\<lambda>_.
     and_then (case so_auth s of None \<Rightarrow> Inr () | Some a \<Rightarrow> validate_secret_ref (au_ref a) ''source.auth.ref'') (\<lambda>_.
       case Option.bind (so_webhook s) ws_signature of
         None \<Rightarrow> Inr ()
       | Some sig \<Rightarrow>
           and_then (validate_secret_ref (ss_secret_ref sig) ''webhook.signature.secret_ref'') (\<lambda>_.
             ensure (trim (ss_header sig) \<noteq> []) (Invalid EmptySignatureHeader))))"

definition manifest_validate :: "manifest \<Rightarrow> (manifest_error + unit) option" where
  "manifest_validate m =
     returning (Some (ensure (mf_manifest_version m = 1) (Invalid (UnsupportedVersion (mf_manifest_version m))))) (\<lambda>_.
     returning (Some (validate_source (mf_source m))) (\<lambda>_.
     returning (Some (ensure (mf_entities m \<noteq> []) (Invalid NoEntities))) (\<lambda>_.
     returning (Some (ensure (length (mf_entities m) \<le> max_entities) (Invalid TooManyEntities))) (\<lambda>_.
     returning (validate_entities (mf_entities m)) (\<lambda>_.
     returning (Some (case mf_acl_policy m of None \<Rightarrow> Inr () | Some p \<Rightarrow> policy_validate p)) (\<lambda>_.
       Some (ensure (\<not> list_ex (\<lambda>f. trim (fx_input f) = []) (mf_fixtures m)) (Invalid EmptyFixtureInput))))))))"

definition from_yaml :: "(string \<Rightarrow> string + manifest) \<Rightarrow> string \<Rightarrow> (manifest_error + manifest) option" where
  "from_yaml de yaml =
     (if max_manifest_bytes < length yaml then Some (Inl TooLarge)
      else case de yaml of
        Inl e \<Rightarrow> Some (Inl (Yaml e))
      | Inr m \<Rightarrow> returning (manifest_validate m) (\<lambda>_. Some (Inr m)))"

definition manifest_acl_mode :: "manifest \<Rightarrow> acl_mode" where
  "manifest_acl_mode m = (case mf_acl_policy m of None \<Rightarrow> QuarantineMode | Some p \<Rightarrow> ap_mode p)"

definition activation_check :: "manifest \<Rightarrow> manifest_error + unit" where
  "activation_check m =
     (case mf_acl_policy m of
        None \<Rightarrow> Inl (ActivationRefused NoAclPolicy)
      | Some p \<Rightarrow>
          (case so_tier (mf_source m) of
             Some TierA \<Rightarrow>
               if ap_mode p = MapMode
               then ensure (\<not> ap_approximation p) (ActivationRefused TierAApproximated)
               else Inl (ActivationRefused (TierANeedsMap (ap_mode p)))
           | Some TierB \<Rightarrow>
               if ap_mode p = MapMode
               then and_then (ensure (ap_approximation p) (ActivationRefused TierBNotApproximated)) (\<lambda>_.
                      ensure (trim (case ap_note p of None \<Rightarrow> [] | Some n \<Rightarrow> n) \<noteq> []) (ActivationRefused TierBNeedsNote))
               else Inl (ActivationRefused (TierBNeedsMap (ap_mode p)))
           | Some TierC \<Rightarrow>
               if ap_mode p = StaticMode then Inr () else Inl (ActivationRefused (TierCNeedsStatic (ap_mode p)))
           | None \<Rightarrow> Inr ()))"

section \<open>Runtime\<close>

record runtime_env =
  re_parse_rfc3339 :: "string \<Rightarrow> instant option"
  re_timestamp_millis :: "int \<Rightarrow> instant option"
  re_to_rfc3339 :: "instant \<Rightarrow> string"
  re_json_text :: "json \<Rightarrow> string"
  re_float_text :: "f64 \<Rightarrow> string"

datatype acl_envelope = StaticAcl "string list option" | MappedAcl "string list" bool

record entity_writes =
  ew_entity_type :: string
  ew_entity_id :: string
  ew_valid_from :: instant
  ew_fields :: "(string \<times> json) list"
  ew_content :: "string option"

datatype quarantine_reason =
    PayloadTooDeep
  | UnparseableRoute string
  | NoRouteMatched
  | UnparseableExpr string string path_error
  | PrimaryKeyMissing string string
  | ValidFromMissing string string
  | FieldMissing string string string
  | FieldTooLarge string string
  | OutputTooLarge
  | ContentMissing string string
  | ContentNotText string string
  | ContentTooLarge string
  | AclPolicyAbsent
  | AclModeQuarantine
  | AclMapWithoutPrincipals
  | AclMapWithoutNamespace
  | AclPathInvalid path_error
  | AclMatchedNothing string
  | AclTooManyPrincipals
  | AclNotScalar string json

datatype applied = Writes string "entity_writes list" acl_envelope | Quarantine quarantine_reason

fun scalar_to_string :: "runtime_env \<Rightarrow> json \<Rightarrow> string option" where
  "scalar_to_string env (JString s) = Some s"
| "scalar_to_string env (JNumber n) = Some (number_to_string (re_float_text env) n)"
| "scalar_to_string env (JBool b) = Some (if b then ''true'' else ''false'')"
| "scalar_to_string env _ = None"

fun namespaced_principal :: "identity_namespace \<Rightarrow> string \<Rightarrow> string \<Rightarrow> string" where
  "namespaced_principal Email source_name raw = ''user:'' @ raw"
| "namespaced_principal SourceNativeId source_name raw = source_name @ '':'' @ raw"
| "namespaced_principal VerityGroup source_name raw = ''group:'' @ raw"

fun eval_timestamp :: "runtime_env \<Rightarrow> instant \<Rightarrow> expr \<Rightarrow> json \<Rightarrow> instant option" where
  "eval_timestamp env now Now payload = Some now"
| "eval_timestamp env now (PathExpr p) payload =
     (case eval_scalar p payload of
        Some (JString s) \<Rightarrow> re_parse_rfc3339 env s
      | Some (JNumber n) \<Rightarrow> Option.bind (as_i64 n) (re_timestamp_millis env)
      | _ \<Rightarrow> None)"

definition parse_or :: "string \<Rightarrow> string \<Rightarrow> path_error + 'a \<Rightarrow> quarantine_reason + 'a" where
  "parse_or t what r = map_err (UnparseableExpr t what) r"

definition ok_or :: "'a option \<Rightarrow> 'e \<Rightarrow> 'e + 'a" where
  "ok_or v e = (case v of None \<Rightarrow> Inl e | Some a \<Rightarrow> Inr a)"

definition count_output :: "nat \<Rightarrow> nat \<Rightarrow> quarantine_reason + nat" where
  "count_output output bytes = (if max_output_bytes < output + bytes then Inl OutputTooLarge else Inr (output + bytes))"

definition field_value :: "runtime_env \<Rightarrow> instant \<Rightarrow> string \<Rightarrow> string \<Rightarrow> string \<Rightarrow> json \<Rightarrow> quarantine_reason + json" where
  "field_value env now t field text payload =
     and_then (parse_or t (''map.'' @ field) (expr_parse text)) (\<lambda>e.
       case e of Now \<Rightarrow> Inr (JString (re_to_rfc3339 env now))
       | PathExpr p \<Rightarrow> ok_or (eval_scalar p payload) (FieldMissing t field text))"

fun extract_fields ::
  "runtime_env \<Rightarrow> instant \<Rightarrow> string \<Rightarrow> json \<Rightarrow> (string \<times> string) list \<Rightarrow> nat
   \<Rightarrow> quarantine_reason + (string \<times> json) list \<times> nat" where
  "extract_fields env now t payload [] output = Inr ([], output)"
| "extract_fields env now t payload ((field, text) # rest) output =
     and_then (field_value env now t field text payload) (\<lambda>v.
       let bytes = length (re_json_text env v)
       in if max_value_bytes < bytes then Inl (FieldTooLarge t field)
          else and_then (count_output output bytes) (\<lambda>output1.
               and_then (extract_fields env now t payload rest output1) (\<lambda>(fields, output2).
                 Inr ((field, v) # fields, output2))))"

definition extract_content ::
  "entity_spec \<Rightarrow> json \<Rightarrow> nat \<Rightarrow> quarantine_reason + string option \<times> nat" where
  "extract_content entity payload output =
     (case es_content entity of
        None \<Rightarrow> Inr (None, output)
      | Some text \<Rightarrow>
          and_then (parse_or (es_type entity) ''content'' (path_parse text)) (\<lambda>p.
          and_then (ok_or (eval_scalar p payload) (ContentMissing (es_type entity) text)) (\<lambda>v.
          and_then (ok_or (as_str v) (ContentNotText (es_type entity) text)) (\<lambda>s.
            if max_value_bytes < length s then Inl (ContentTooLarge (es_type entity))
            else and_then (count_output output (length s)) (\<lambda>output1. Inr (Some s, output1))))))"

definition extract_entity ::
  "runtime_env \<Rightarrow> instant \<Rightarrow> entity_spec \<Rightarrow> json \<Rightarrow> nat \<Rightarrow> quarantine_reason + entity_writes \<times> nat" where
  "extract_entity env now entity payload output =
     (let t = es_type entity
      in and_then (parse_or t ''primary_key'' (path_parse (es_primary_key entity))) (\<lambda>pk.
         and_then (ok_or (Option.bind (eval_scalar pk payload) (scalar_to_string env))
                     (PrimaryKeyMissing t (es_primary_key entity))) (\<lambda>entity_id.
         and_then (case es_valid_from entity of
                     None \<Rightarrow> Inr now
                   | Some text \<Rightarrow> and_then (parse_or t ''valid_from'' (expr_parse text)) (\<lambda>e.
                       ok_or (eval_timestamp env now e payload) (ValidFromMissing t text))) (\<lambda>valid_from.
         and_then (extract_fields env now t payload (es_map entity) output) (\<lambda>(fields, output1).
         and_then (extract_content entity payload output1) (\<lambda>(content, output2).
           Inr (\<lparr>ew_entity_type = t, ew_entity_id = entity_id, ew_valid_from = valid_from,
                 ew_fields = fields, ew_content = content\<rparr>, output2)))))))"

fun acl_principals :: "runtime_env \<Rightarrow> identity_namespace \<Rightarrow> string \<Rightarrow> string \<Rightarrow> json list \<Rightarrow> quarantine_reason + string list" where
  "acl_principals env ns source_name e [] = Inr []"
| "acl_principals env ns source_name e (hit # hits) =
     and_then (ok_or (scalar_to_string env hit) (AclNotScalar e hit)) (\<lambda>raw.
     and_then (acl_principals env ns source_name e hits) (\<lambda>ps.
       Inr (namespaced_principal ns source_name raw # ps)))"

definition evaluate_acl :: "runtime_env \<Rightarrow> manifest \<Rightarrow> json \<Rightarrow> quarantine_reason + acl_envelope" where
  "evaluate_acl env m payload =
     (case mf_acl_policy m of
        None \<Rightarrow> Inl AclPolicyAbsent
      | Some policy \<Rightarrow>
          (case ap_mode policy of
             QuarantineMode \<Rightarrow> Inl AclModeQuarantine
           | StaticMode \<Rightarrow> Inr (StaticAcl (ap_static_visibility policy))
           | MapMode \<Rightarrow>
               and_then (ok_or (ap_principals policy) AclMapWithoutPrincipals) (\<lambda>e.
               and_then (map_err AclPathInvalid (path_parse e)) (\<lambda>p.
               and_then (ok_or (ap_identity_namespace policy) AclMapWithoutNamespace) (\<lambda>ns.
                 let hits = path_eval p payload
                 in if hits = [] then Inl (AclMatchedNothing e)
                    else if max_principals < length hits then Inl AclTooManyPrincipals
                    else and_then (acl_principals env ns (so_name (mf_source m)) e hits) (\<lambda>ps.
                           Inr (MappedAcl (remdups_adj (sort ps)) (ap_approximation policy))))))))"

fun apply_entities ::
  "runtime_env \<Rightarrow> instant \<Rightarrow> entity_spec list \<Rightarrow> json \<Rightarrow> nat \<Rightarrow> (quarantine_reason + entity_writes list) option" where
  "apply_entities env now [] payload output = Some (Inr [])"
| "apply_entities env now (entity # es) payload output =
     (case predicate_parse (ro_when (es_route entity)) of
        None \<Rightarrow> None
      | Some (Inl _) \<Rightarrow> Some (Inl (UnparseableRoute (es_type entity)))
      | Some (Inr when) \<Rightarrow>
          if \<not> predicate_matches when payload then apply_entities env now es payload output
          else (case extract_entity env now entity payload output of
                  Inl reason \<Rightarrow> Some (Inl reason)
                | Inr (w, output1) \<Rightarrow>
                    returning (apply_entities env now es payload output1) (\<lambda>ws. Some (Inr (w # ws)))))"

definition apply_manifest :: "runtime_env \<Rightarrow> instant \<Rightarrow> manifest \<Rightarrow> json \<Rightarrow> applied option" where
  "apply_manifest env now m payload =
     (if max_payload_depth < value_depth payload then Some (Quarantine PayloadTooDeep)
      else map_option (\<lambda>r. case r of
          Inl reason \<Rightarrow> Quarantine reason
        | Inr writes \<Rightarrow>
            if writes = [] then Quarantine NoRouteMatched
            else (case evaluate_acl env m payload of
                    Inl reason \<Rightarrow> Quarantine reason
                  | Inr acl \<Rightarrow> Writes (so_name (mf_source m)) writes acl))
        (apply_entities env now (mf_entities m) payload 0))"

end
