(* ===== verification/Manifest_Properties.thy ===== *)
theory Manifest_Properties
  imports Manifest_Runtime
begin

text \<open>
  What the manifest runtime guarantees: which entity blocks produce writes and from which payload
  values, the fail-closed access envelope, the tier contract of activated manifests, and that a
  validated manifest never fails for a syntactic reason.
\<close>

lemma ok_or_iff: "ok_or v e = Inr a \<longleftrightarrow> v = Some a" "ok_or v e = Inl x \<longleftrightarrow> v = None \<and> x = e"
  by (auto simp: ok_or_def split: option.splits)

lemma map_err_iff: "map_err g r = Inr a \<longleftrightarrow> r = Inr a" "map_err g r = Inl x \<longleftrightarrow> (\<exists>e. r = Inl e \<and> x = g e)"
  by (auto simp: map_err_def split: sum.splits)

lemma parse_or_iff:
  "parse_or t what r = Inr a \<longleftrightarrow> r = Inr a"
  "parse_or t what r = Inl x \<longleftrightarrow> (\<exists>e. r = Inl e \<and> x = UnparseableExpr t what e)"
  by (auto simp: parse_or_def map_err_iff)

lemma ensure_iff: "ensure b e = Inr u \<longleftrightarrow> b" "ensure b e = Inl x \<longleftrightarrow> \<not> b \<and> x = e"
  by (auto simp: ensure_def)

lemma count_output_iff:
  "count_output n k = Inr n' \<longleftrightarrow> n' = n + k \<and> n' \<le> max_output_bytes"
  "count_output n k = Inl x \<longleftrightarrow> max_output_bytes < n + k \<and> x = OutputTooLarge"
  by (auto simp: count_output_def)

lemmas result_iffs = and_then_Inr ok_or_iff map_err_iff parse_or_iff ensure_iff count_output_iff

lemma and_then_Inl: "and_then r f = Inl e \<longleftrightarrow> r = Inl e \<or> (\<exists>a. r = Inr a \<and> f a = Inl e)"
  by (cases r) auto

lemma returning_Inr: "returning r f = Some (Inr b) \<longleftrightarrow> (\<exists>a. r = Some (Inr a) \<and> f a = Some (Inr b))"
  by (cases "(r, f)" rule: returning.cases) auto

section \<open>Which blocks claim a payload\<close>

definition claims :: "entity_spec \<Rightarrow> json \<Rightarrow> bool" where
  "claims e payload =
     (case predicate_parse (ro_when (es_route e)) of Some (Inr p) \<Rightarrow> predicate_matches p payload | _ \<Rightarrow> False)"

text \<open>
  A text names a value of the payload when it is a dot-path that hits exactly one node; \<^verbatim>\<open>$now()\<close> stands
  for the clock instead. A mapped field is the printed clock or the one node its path names, whatever
  its kind; a timestamp is the clock, a text node that reads as one, or a number of milliseconds.
\<close>

definition names_value :: "string \<Rightarrow> json \<Rightarrow> json \<Rightarrow> bool" where
  "names_value text payload v \<longleftrightarrow> (\<exists>p. path_parse text = Inr p \<and> path_eval p payload = [v])"

definition field_written :: "runtime_env \<Rightarrow> instant \<Rightarrow> json \<Rightarrow> string \<Rightarrow> json \<Rightarrow> bool" where
  "field_written env now payload text v \<longleftrightarrow>
     (if trim text = ''$now()'' then v = JString (re_to_rfc3339 env now) else names_value (trim text) payload v) \<and>
     length (re_json_text env v) \<le> max_value_bytes"

definition timestamp_read :: "runtime_env \<Rightarrow> instant \<Rightarrow> json \<Rightarrow> string \<Rightarrow> instant \<Rightarrow> bool" where
  "timestamp_read env now payload text i \<longleftrightarrow>
     (if trim text = ''$now()'' then i = now
      else (\<exists>s. names_value (trim text) payload (JString s) \<and> re_parse_rfc3339 env s = Some i) \<or>
           (\<exists>n ms. names_value (trim text) payload (JNumber n) \<and> as_i64 n = Some ms \<and> re_timestamp_millis env ms = Some i))"

text \<open>A write came from a block: its key, instant, fields and content are the values the block's texts name.\<close>

definition written_by :: "runtime_env \<Rightarrow> instant \<Rightarrow> json \<Rightarrow> entity_spec \<Rightarrow> entity_writes \<Rightarrow> bool" where
  "written_by env now payload e w \<longleftrightarrow>
     ew_entity_type w = es_type e \<and>
     (\<exists>v. names_value (es_primary_key e) payload v \<and> scalar_to_string env v = Some (ew_entity_id w)) \<and>
     (case es_valid_from e of None \<Rightarrow> ew_valid_from w = now
      | Some text \<Rightarrow> timestamp_read env now payload text (ew_valid_from w)) \<and>
     map fst (ew_fields w) = map fst (es_map e) \<and>
     list_all2 (\<lambda>(_, text) (_, v). field_written env now payload text v) (es_map e) (ew_fields w) \<and>
     (case es_content e of None \<Rightarrow> ew_content w = None
      | Some text \<Rightarrow> \<exists>s. names_value text payload (JString s) \<and> ew_content w = Some s \<and> length s \<le> max_value_bytes)"

definition output_size :: "runtime_env \<Rightarrow> entity_writes \<Rightarrow> nat" where
  "output_size env w = sum_list (map (length \<circ> re_json_text env \<circ> snd) (ew_fields w)) +
     (case ew_content w of None \<Rightarrow> 0 | Some s \<Rightarrow> length s)"

lemma eval_scalar_Some: "eval_scalar p payload = Some v \<longleftrightarrow> path_eval p payload = [v]"
  by (auto simp: eval_scalar_def split: list.splits)

lemma expr_parse_Inr:
  "expr_parse text = Inr e \<longleftrightarrow> (if trim text = ''$now()'' then e = Now else \<exists>p. path_parse (trim text) = Inr p \<and> e = PathExpr p)"
  by (auto simp: expr_parse_def Let_def and_then_Inr)

lemma field_value_Inr:
  "field_value env now t field text payload = Inr v \<longleftrightarrow>
     (if trim text = ''$now()'' then v = JString (re_to_rfc3339 env now) else names_value (trim text) payload v)"
  by (auto simp: field_value_def result_iffs expr_parse_Inr names_value_def eval_scalar_Some)

lemma eval_timestamp_Some:
  "expr_parse text = Inr e \<Longrightarrow> eval_timestamp env now e payload = Some i \<Longrightarrow> timestamp_read env now payload text i"
  by (auto simp: timestamp_read_def names_value_def expr_parse_Inr eval_scalar_Some bind_eq_Some_conv
      split: if_splits option.splits json.splits)

lemma extract_fields_Inr:
  "extract_fields env now t payload m n = Inr (fs, n') \<Longrightarrow> n \<le> max_output_bytes \<Longrightarrow>
     map fst fs = map fst m \<and> list_all2 (\<lambda>(_, text) (_, v). field_written env now payload text v) m fs \<and>
     n' = n + sum_list (map (length \<circ> re_json_text env \<circ> snd) fs) \<and> n' \<le> max_output_bytes"
proof (induction m arbitrary: n fs)
  case (Cons ft m)
  obtain field tx where ft: "ft = (field, tx)" by fastforce
  from Cons.prems(1) obtain v rest where v: "field_value env now t field tx payload = Inr v"
    "n + length (re_json_text env v) \<le> max_output_bytes"
    "extract_fields env now t payload m (n + length (re_json_text env v)) = Inr (rest, n')" "fs = (field, v) # rest"
    "length (re_json_text env v) \<le> max_value_bytes"
    by (auto simp: ft result_iffs Let_def not_less split: if_splits)
  from Cons.IH [OF v(3,2)] v(1,4,5) ft show ?case by (simp add: field_value_Inr field_written_def)
qed auto

lemma as_str_Some: "as_str v = Some s \<longleftrightarrow> v = JString s"
  by (cases v) auto

lemma extract_content_Inr:
  "extract_content e payload n = Inr (content, n') \<Longrightarrow> n \<le> max_output_bytes \<Longrightarrow>
     (case es_content e of None \<Rightarrow> content = None
      | Some text \<Rightarrow> \<exists>s. names_value text payload (JString s) \<and> content = Some s \<and> length s \<le> max_value_bytes) \<and>
     n' = n + (case content of None \<Rightarrow> 0 | Some s \<Rightarrow> length s) \<and> n' \<le> max_output_bytes"
  by (cases "es_content e") (auto simp: extract_content_def result_iffs as_str_Some names_value_def eval_scalar_Some not_less split: if_splits)

lemma extract_entity_Inr:
  assumes "extract_entity env now e payload n = Inr (w, n')" "n \<le> max_output_bytes"
  shows "written_by env now payload e w \<and> n' = n + output_size env w \<and> n' \<le> max_output_bytes"
proof -
  from assms(1) obtain pk v i t fs n1 content where
    pk: "path_parse (es_primary_key e) = Inr pk" "eval_scalar pk payload = Some v" "scalar_to_string env v = Some i"
    and f: "extract_fields env now (es_type e) payload (es_map e) n = Inr (fs, n1)"
    and c: "extract_content e payload n1 = Inr (content, n')"
    and w: "w = \<lparr>ew_entity_type = es_type e, ew_entity_id = i, ew_valid_from = t, ew_fields = fs, ew_content = content\<rparr>"
    and t: "(case es_valid_from e of None \<Rightarrow> Inr now
       | Some text \<Rightarrow> and_then (parse_or (es_type e) ''valid_from'' (expr_parse text)) (\<lambda>x.
           ok_or (eval_timestamp env now x payload) (ValidFromMissing (es_type e) text))) = Inr t"
    unfolding extract_entity_def Let_def and_then_Inr by (auto simp: result_iffs bind_eq_Some_conv)
  have vf: "case es_valid_from e of None \<Rightarrow> t = now | Some text \<Rightarrow> timestamp_read env now payload text t"
    using t eval_timestamp_Some by (auto simp: result_iffs split: option.splits)
  from extract_fields_Inr [OF f assms(2)] have n1: "n1 = n + sum_list (map (length \<circ> re_json_text env \<circ> snd) fs)"
    "n1 \<le> max_output_bytes" by simp_all
  have "\<exists>v. names_value (es_primary_key e) payload v \<and> scalar_to_string env v = Some i"
    using pk by (auto simp: names_value_def eval_scalar_Some)
  with extract_fields_Inr [OF f assms(2)] extract_content_Inr [OF c n1(2)] n1 vf show ?thesis
    by (cases "es_content e"; cases "es_valid_from e") (simp_all add: w written_by_def output_size_def)
qed

lemma list_all2_set_left: "list_all2 R xs ys \<Longrightarrow> x \<in> set xs \<Longrightarrow> \<exists>y \<in> set ys. R x y"
  by (induction rule: list_all2_induct) auto

lemma written_by_fields:
  assumes "written_by env now payload e w" "(field, text) \<in> set (es_map e)"
  shows "trim text = ''$now()'' \<or> (\<exists>v. names_value (trim text) payload v)"
proof -
  have "list_all2 (\<lambda>(_, text) (_, v). field_written env now payload text v) (es_map e) (ew_fields w)"
    using assms(1) by (simp add: written_by_def)
  from list_all2_set_left [OF this assms(2)] show ?thesis by (auto simp: field_written_def split: if_splits)
qed

lemma apply_entities_Inr:
  "apply_entities env now es payload n = Some (Inr ws) \<Longrightarrow> n \<le> max_output_bytes \<Longrightarrow>
     list_all2 (written_by env now payload) (filter (\<lambda>e. claims e payload) es) ws \<and>
     n + sum_list (map (output_size env) ws) \<le> max_output_bytes"
proof (induction es arbitrary: n ws)
  case (Cons e es)
  from Cons.prems(1) obtain p where p: "predicate_parse (ro_when (es_route e)) = Some (Inr p)"
    by (auto split: option.splits sum.splits)
  show ?case
  proof (cases "predicate_matches p payload")
    case False
    with Cons p show ?thesis by (simp add: claims_def)
  next
    case True
    with Cons.prems(1) p obtain w n1 where w: "extract_entity env now e payload n = Inr (w, n1)"
      by (auto split: sum.splits)
    with Cons.prems(1) p True obtain rest where rest: "apply_entities env now es payload n1 = Some (Inr rest)" "ws = w # rest"
      by (auto simp: returning_Inr)
    from extract_entity_Inr [OF w Cons.prems(2)] have "written_by env now payload e w" "n1 = n + output_size env w" "n1 \<le> max_output_bytes"
      by simp_all
    with Cons.IH [OF rest(1)] rest(2) p True show ?thesis by (simp add: claims_def add.assoc)
  qed
qed simp

lemma apply_manifest_Writes:
  "apply_manifest env now m payload = Some (Writes src ws acl) \<longleftrightarrow>
     value_depth payload \<le> max_payload_depth \<and> apply_entities env now (mf_entities m) payload 0 = Some (Inr ws) \<and>
     ws \<noteq> [] \<and> evaluate_acl env m payload = Inr acl \<and> src = so_name (mf_source m)"
proof (cases "apply_entities env now (mf_entities m) payload 0")
  case None
  then show ?thesis by (simp add: apply_manifest_def)
next
  case (Some r)
  show ?thesis
  proof (cases r)
    case (Inl e)
    with Some show ?thesis by (simp add: apply_manifest_def)
  next
    case (Inr ws')
    with Some show ?thesis by (cases "evaluate_acl env m payload") (auto simp: apply_manifest_def not_less)
  qed
qed

section \<open>The envelope\<close>

lemma acl_principals_Inr:
  "acl_principals env ns name e hits = Inr ps \<Longrightarrow>
     ps = map (\<lambda>hit. namespaced_principal ns name (the (scalar_to_string env hit))) hits \<and>
     (\<forall>hit \<in> set hits. scalar_to_string env hit \<noteq> None)"
  by (induction hits arbitrary: ps) (auto simp: result_iffs)

lemma evaluate_acl_Inr:
  assumes "evaluate_acl env m payload = Inr acl"
  obtains (static) policy where "mf_acl_policy m = Some policy" "ap_mode policy = StaticMode"
      "acl = StaticAcl (ap_static_visibility policy)"
    | (mapped) policy e p ns where "mf_acl_policy m = Some policy" "ap_mode policy = MapMode"
      "ap_principals policy = Some e" "path_parse e = Inr p" "ap_identity_namespace policy = Some ns"
      "path_eval p payload \<noteq> []" "length (path_eval p payload) \<le> max_principals"
      "\<forall>hit \<in> set (path_eval p payload). scalar_to_string env hit \<noteq> None"
      "acl = MappedAcl (remdups_adj (sort (map (\<lambda>hit. namespaced_principal ns (so_name (mf_source m))
         (the (scalar_to_string env hit))) (path_eval p payload)))) (ap_approximation policy)"
proof -
  obtain policy where policy: "mf_acl_policy m = Some policy" using assms by (auto simp: evaluate_acl_def split: option.splits)
  show thesis
  proof (cases "ap_mode policy")
    case StaticMode
    with assms policy static show thesis by (simp add: evaluate_acl_def)
  next
    case QuarantineMode
    with assms policy show thesis by (simp add: evaluate_acl_def)
  next
    case MapMode
    with assms policy obtain e p ns ps where *: "ap_principals policy = Some e" "path_parse e = Inr p"
      "ap_identity_namespace policy = Some ns" "path_eval p payload \<noteq> []" "length (path_eval p payload) \<le> max_principals"
      "acl_principals env ns (so_name (mf_source m)) e (path_eval p payload) = Inr ps"
      "acl = MappedAcl (remdups_adj (sort ps)) (ap_approximation policy)"
      by (auto simp: evaluate_acl_def Let_def result_iffs not_less split: if_splits)
    from mapped [OF policy MapMode *(1-5)] acl_principals_Inr [OF *(6)] *(7) show thesis by simp
  qed
qed

lemma sorted_remdups_adj_distinct:
  "sorted xs \<Longrightarrow> sorted (remdups_adj xs) \<and> distinct (remdups_adj (xs :: 'a :: linorder list))"
proof (induction xs rule: remdups_adj.induct)
  case (3 x y xs)
  show ?case
  proof (cases "x = y")
    case False
    with 3(3) have "\<forall>z \<in> set (y # xs). x < z" by auto
    with 3 False show ?thesis by auto
  qed (use 3 in auto)
qed auto

lemma length_remdups_adj_le: "length (remdups_adj xs) \<le> length xs"
  by (induction xs rule: remdups_adj.induct) auto

section \<open>Validated manifests\<close>

fun syntactic :: "quarantine_reason \<Rightarrow> bool" where
  "syntactic (UnparseableRoute _) = True"
| "syntactic (UnparseableExpr _ _ _) = True"
| "syntactic AclMapWithoutPrincipals = True"
| "syntactic AclMapWithoutNamespace = True"
| "syntactic (AclPathInvalid _) = True"
| "syntactic _ = False"

lemma validate_map_expr: "validate_map t m = Inr () \<Longrightarrow> (field, text) \<in> set m \<Longrightarrow> \<exists>e. expr_parse text = Inr e"
  by (induction t m rule: validate_map.induct) (auto simp: result_iffs)

lemma extract_fields_not_syntactic:
  "\<forall>(field, text) \<in> set m. \<exists>e. expr_parse text = Inr e \<Longrightarrow>
     extract_fields env now t payload m n = Inl reason \<Longrightarrow> \<not> syntactic reason"
proof (induction m arbitrary: n reason)
  case (Cons ft m)
  obtain field tx e where ft: "ft = (field, tx)" "expr_parse tx = Inr e" using Cons.prems(1) by (cases ft) auto
  have head: "\<not> syntactic r" if "field_value env now t field tx payload = Inl r" for r
    using that ft(2) by (auto simp: field_value_def result_iffs and_then_Inl split: expr.splits)
  have tail: "\<not> syntactic r" if "extract_fields env now t payload m k = Inl r" for k r
    using Cons.IH Cons.prems(1) that by simp
  from Cons.prems(2) show ?case
    by (auto simp: ft(1) and_then_Inl head tail Let_def count_output_iff split: if_splits)
qed simp

lemma extract_content_not_syntactic:
  "case es_content e of None \<Rightarrow> True | Some text \<Rightarrow> \<exists>p. path_parse text = Inr p \<Longrightarrow>
     extract_content e payload n = Inl reason \<Longrightarrow> \<not> syntactic reason"
  by (cases "es_content e") (auto simp: extract_content_def result_iffs and_then_Inl split: if_splits)

lemma validate_entity_Inr:
  assumes "validate_entity e = Some (Inr ())"
  shows "\<exists>p. predicate_parse (ro_when (es_route e)) = Some (Inr p)" "\<exists>p. path_parse (es_primary_key e) = Inr p"
    "case es_valid_from e of None \<Rightarrow> True | Some text \<Rightarrow> \<exists>x. expr_parse text = Inr x"
    "\<forall>(field, text) \<in> set (es_map e). \<exists>x. expr_parse text = Inr x"
    "case es_content e of None \<Rightarrow> True | Some text \<Rightarrow> \<exists>p. path_parse text = Inr p"
proof -
  from assms have r: "\<exists>p. map_option (map_err (\<lambda>err. Invalid (BadRoute (es_type e) err))) (predicate_parse (ro_when (es_route e))) = Some (Inr p)"
    and rest: "\<exists>p. path_parse (es_primary_key e) = Inr p"
      "validate_opt expr_parse (es_type e) ''valid_from'' (es_valid_from e) = Inr ()"
      "validate_map (es_type e) (es_map e) = Inr ()" "validate_opt path_parse (es_type e) ''content'' (es_content e) = Inr ()"
    by (auto simp: validate_entity_def Let_def returning_Inr result_iffs split: if_splits)
  show "\<exists>p. predicate_parse (ro_when (es_route e)) = Some (Inr p)" using r by (auto simp: map_err_iff)
  show "\<exists>p. path_parse (es_primary_key e) = Inr p" by (rule rest(1))
  show "case es_valid_from e of None \<Rightarrow> True | Some text \<Rightarrow> \<exists>x. expr_parse text = Inr x"
    "case es_content e of None \<Rightarrow> True | Some text \<Rightarrow> \<exists>p. path_parse text = Inr p"
    using rest(2,4) by (auto simp: validate_opt_def result_iffs split: option.splits)
  show "\<forall>(field, text) \<in> set (es_map e). \<exists>x. expr_parse text = Inr x" using validate_map_expr [OF rest(3)] by blast
qed

lemma extract_entity_not_syntactic:
  assumes "validate_entity e = Some (Inr ())" "extract_entity env now e payload n = Inl reason"
  shows "\<not> syntactic reason"
proof -
  note v = validate_entity_Inr [OF assms(1)]
  obtain pk where pk: "path_parse (es_primary_key e) = Inr pk" using v(2) by blast
  have time: "\<not> syntactic r" if "(case es_valid_from e of None \<Rightarrow> Inr now
       | Some text \<Rightarrow> and_then (parse_or (es_type e) ''valid_from'' (expr_parse text)) (\<lambda>x.
           ok_or (eval_timestamp env now x payload) (ValidFromMissing (es_type e) text))) = Inl r" for r
    using that v(3) by (cases "es_valid_from e") (auto simp: result_iffs and_then_Inl)
  have content: "\<not> syntactic r" if "extract_content e payload k = Inl r" for k r
    using extract_content_not_syntactic [OF v(5) that] .
  from assms(2) show ?thesis
    using time extract_fields_not_syntactic [OF v(4), of env now "es_type e" payload n] content
    by (auto simp: extract_entity_def Let_def and_then_Inl parse_or_iff pk ok_or_iff)
qed

lemma apply_entities_returns:
  "\<forall>e \<in> set es. validate_entity e = Some (Inr ()) \<Longrightarrow>
     \<exists>r. apply_entities env now es payload n = Some r \<and> (\<forall>reason. r = Inl reason \<longrightarrow> \<not> syntactic reason)"
proof (induction es arbitrary: n)
  case (Cons e es)
  then obtain p where p: "predicate_parse (ro_when (es_route e)) = Some (Inr p)" using validate_entity_Inr(1) by force
  have IH: "\<exists>r. apply_entities env now es payload k = Some r \<and> (\<forall>reason. r = Inl reason \<longrightarrow> \<not> syntactic reason)" for k
    using Cons by simp
  show ?case
  proof (cases "predicate_matches p payload")
    case False
    with p IH show ?thesis by simp
  next
    case True
    show ?thesis
    proof (cases "extract_entity env now e payload n")
      case (Inl reason)
      with True p Cons.prems extract_entity_not_syntactic [of e env now payload n reason] show ?thesis by simp
    next
      case (Inr x)
      obtain w k where x: "x = (w, k)" by fastforce
      from IH [of k] obtain r where r: "apply_entities env now es payload k = Some r" "\<forall>reason. r = Inl reason \<longrightarrow> \<not> syntactic reason" by blast
      with Inr x True p show ?thesis by (cases r) simp_all
    qed
  qed
qed simp

lemma validate_entities_Inr: "validate_entities es = Some (Inr ()) \<Longrightarrow> e \<in> set es \<Longrightarrow> validate_entity e = Some (Inr ())"
  by (induction es) (auto simp: returning_Inr)

lemma evaluate_acl_not_syntactic:
  assumes "case mf_acl_policy m of None \<Rightarrow> True | Some p \<Rightarrow> policy_validate p = Inr ()"
    and "evaluate_acl env m payload = Inl reason"
  shows "\<not> syntactic reason"
proof (cases "mf_acl_policy m")
  case None
  with assms(2) show ?thesis by (auto simp: evaluate_acl_def)
next
  case (Some policy)
  have hits: "\<not> syntactic r" if "acl_principals env ns name e hits = Inl r" for ns name e hits r
    using that by (induction hits arbitrary: r) (auto simp: and_then_Inl ok_or_iff)
  show ?thesis
  proof (cases "ap_mode policy")
    case MapMode
    with assms(1) Some have "\<exists>e p ns. ap_principals policy = Some e \<and> path_parse e = Inr p \<and> ap_identity_namespace policy = Some ns"
      by (auto simp: policy_validate_def result_iffs split: option.splits)
    with assms(2) Some MapMode hits show ?thesis
      by (auto simp: evaluate_acl_def Let_def and_then_Inl ok_or_iff map_err_iff split: if_splits)
  qed (use assms(2) Some in \<open>auto simp: evaluate_acl_def\<close>)
qed

section \<open>Sample manifest\<close>

definition sample_runtime :: runtime_env where
  "sample_runtime = \<lparr>re_parse_rfc3339 = (\<lambda>_. None), re_timestamp_millis = (\<lambda>ms. Some (1000 * ms)),
     re_to_rfc3339 = (\<lambda>_. ''2026-01-01T00:00:00.000Z''), re_json_text = (\<lambda>_. ''0123456789''), re_float_text = (\<lambda>_. ''0.5'')\<rparr>"

definition sample_acl_policy :: acl_policy where
  "sample_acl_policy = \<lparr>ap_mode = MapMode, ap_identity_namespace = Some Email, ap_principals = Some ''team[].id'',
     ap_approximation = False, ap_note = None, ap_static_visibility = None\<rparr>"

definition sample_block :: entity_spec where
  "sample_block = \<lparr>es_type = ''issue'', es_route = \<lparr>ro_when = ''type = 'Issue' '', ro_operation = Upsert\<rparr>,
     es_primary_key = ''data.id'', es_valid_from = None, es_observed_at = None,
     es_map = [(''title'', ''data.title'')], es_content = None\<rparr>"

definition sample_manifest :: manifest where
  "sample_manifest = \<lparr>mf_manifest_version = 1,
     mf_source = \<lparr>so_name = ''linear'', so_tier = Some TierA, so_auth = None, so_webhook = None\<rparr>,
     mf_entities = [sample_block], mf_poll = None, mf_acl_policy = Some sample_acl_policy, mf_fixtures = []\<rparr>"

definition sample_inbound :: json where
  "sample_inbound = JObject [(''data'', JObject [(''id'', JString ''ISS-1''), (''title'', JString ''Login fails'')]),
     (''team'', JArray [JObject [(''id'', JString ''ann'')], JObject [(''id'', JString ''bob'')], JObject [(''id'', JString ''ann'')]]),
     (''type'', JString ''Issue'')]"

definition sample_issue :: entity_writes where
  "sample_issue = \<lparr>ew_entity_type = ''issue'', ew_entity_id = ''ISS-1'', ew_valid_from = 0,
     ew_fields = [(''title'', JString ''Login fails'')], ew_content = None\<rparr>"

lemma sample_route: "claims sample_block sample_inbound"
  "case predicate_parse ''type = 'Issue' '' of Some (Inr p) \<Rightarrow> predicate_matches p sample_inbound | _ \<Rightarrow> False"
  by code_simp+

lemma sample_paths:
  "case path_parse ''data.id'' of Inr p \<Rightarrow> eval_scalar p sample_inbound = Some (JString ''ISS-1'') | Inl _ \<Rightarrow> False"
  "case expr_parse ''data.title'' of Inr (PathExpr p) \<Rightarrow> eval_scalar p sample_inbound = Some (JString ''Login fails'') | _ \<Rightarrow> False"
  "case path_parse ''team[].id'' of Inr p \<Rightarrow> path_eval p sample_inbound = [JString ''ann'', JString ''bob'', JString ''ann''] | Inl _ \<Rightarrow> False"
  "value_depth sample_inbound \<le> max_payload_depth"
  by code_simp+

lemma sample_applies:
  "apply_manifest sample_runtime 0 sample_manifest sample_inbound =
     Some (Writes ''linear'' [sample_issue] (MappedAcl [''user:ann'', ''user:bob''] False))"
proof -
  obtain pr where pr: "predicate_parse ''type = 'Issue' '' = Some (Inr pr)" "predicate_matches pr sample_inbound"
    using sample_route(2) by (auto split: option.splits sum.splits)
  obtain pk where pk: "path_parse ''data.id'' = Inr pk" "eval_scalar pk sample_inbound = Some (JString ''ISS-1'')"
    using sample_paths(1) by (auto split: sum.splits)
  obtain ti where ti: "expr_parse ''data.title'' = Inr (PathExpr ti)" "eval_scalar ti sample_inbound = Some (JString ''Login fails'')"
    using sample_paths(2) by (auto split: sum.splits expr.splits)
  obtain te where te: "path_parse ''team[].id'' = Inr te" "path_eval te sample_inbound = [JString ''ann'', JString ''bob'', JString ''ann'']"
    using sample_paths(3) by (auto split: sum.splits)
  have "field_value sample_runtime 0 ''issue'' ''title'' ''data.title'' sample_inbound = Inr (JString ''Login fails'')"
    by (simp add: field_value_def parse_or_def map_err_def ok_or_def ti)
  then have "apply_entities sample_runtime 0 [sample_block] sample_inbound 0 = Some (Inr [sample_issue])"
    by (simp add: sample_block_def pr extract_entity_def pk parse_or_def map_err_def ok_or_def sample_runtime_def
        count_output_def max_value_bytes_def max_output_bytes_def extract_content_def sample_issue_def)
  moreover have "evaluate_acl sample_runtime sample_manifest sample_inbound = Inr (MappedAcl [''user:ann'', ''user:bob''] False)"
  proof -
    have "remdups_adj (sort [''user:ann'', ''user:bob'', ''user:ann'']) = [''user:ann'', ''user:bob'']" by code_simp
    then show ?thesis
      by (simp add: evaluate_acl_def sample_manifest_def sample_acl_policy_def ok_or_def map_err_def te max_principals_def)
  qed
  ultimately show ?thesis using sample_paths(4) by (simp add: apply_manifest_Writes sample_manifest_def)
qed

lemma sample_valid: "manifest_validate sample_manifest = Some (Inr ())"
  by code_simp

section \<open>Properties\<close>

text \<open>
  C38: Routing and extraction are exact and fail closed: when a payload produces writes, it is within the
  depth cap and exactly the entity blocks whose predicate holds wrote, in manifest order. Each wrote all
  its declared fields under their names, each the one node its path hits in the payload (a missing or
  ambiguous path of any claiming block quarantines the payload instead) or, for \<^verbatim>\<open>$now()\<close>, the printed
  clock; the key is the text of one scalar node, the instant is the clock or the timestamp its path
  names, the content one text node. No value exceeds the value cap and the output stays within its cap.
  A mapped node may be of any kind: the code also writes objects, arrays and null.
\<close>

theorem manifest_writes_exact:
  assumes "apply_manifest env now m payload = Some (Writes src ws acl)"
  shows "json_depth payload \<le> max_payload_depth \<and> ws \<noteq> [] \<and>
    list_all2 (written_by env now payload) (filter (\<lambda>e. claims e payload) (mf_entities m)) ws \<and>
    sum_list (map (output_size env) ws) \<le> max_output_bytes \<and>
    \<not> (\<exists>e \<in> set (mf_entities m). claims e payload \<and>
         (\<exists>(field, text) \<in> set (es_map e). trim text \<noteq> ''$now()'' \<and> (\<nexists>v. names_value (trim text) payload v)))"
proof -
  have "value_depth payload = min (json_depth payload) (Suc max_payload_depth)"
    by (rule value_depth_eq)
  moreover have w: "list_all2 (written_by env now payload) (filter (\<lambda>e. claims e payload) (mf_entities m)) ws"
    using assms apply_entities_Inr [of env now "mf_entities m" payload 0 ws] by (simp add: apply_manifest_Writes)
  moreover have "trim tx = ''$now()'' \<or> (\<exists>v. names_value (trim tx) payload v)"
    if "e \<in> set (mf_entities m)" "claims e payload" "(field, tx) \<in> set (es_map e)" for e field tx
    using written_by_fields [OF _ that(3)] list_all2_set_left [OF w, of e] that(1,2) by auto
  ultimately show ?thesis
    using assms apply_entities_Inr [of env now "mf_entities m" payload 0 ws]
    by (auto simp: apply_manifest_Writes min_def split: if_splits)
qed

theorem manifest_writes_exact_witness:
  "written_by sample_runtime 0 sample_inbound sample_block sample_issue \<and>
   filter (\<lambda>e. claims e sample_inbound) (mf_entities sample_manifest) = [sample_block]"
  using manifest_writes_exact [OF sample_applies] sample_route(1) by (simp add: sample_manifest_def)

text \<open>
  The module comment and the error text promise that a non-scalar mapped value quarantines; the code only
  refuses a path without exactly one hit, so an object is written as the field's value.
\<close>

lemma object_field_is_written:
  "case field_value sample_runtime 0 ''issue'' ''data'' ''data'' sample_inbound of
     Inr (JObject _) \<Rightarrow> True | _ \<Rightarrow> False"
  by code_simp

text \<open>
  C39: The access gate fails closed: nothing is written without a reviewed policy in map or static
  mode; in map mode the envelope holds exactly the namespaced forms of all extracted principals, at
  least one and at most the cap, sorted and without duplicates, and every extracted value was a
  scalar.
\<close>

theorem manifest_acl_fail_closed:
  assumes "apply_manifest env now m payload = Some (Writes src ws acl)"
  shows "\<exists>policy. mf_acl_policy m = Some policy \<and>
    (case ap_mode policy of
       QuarantineMode \<Rightarrow> False
     | StaticMode \<Rightarrow> acl = StaticAcl (ap_static_visibility policy)
     | MapMode \<Rightarrow> \<exists>e p ns ps. ap_principals policy = Some e \<and> path_parse e = Inr p \<and>
         ap_identity_namespace policy = Some ns \<and> acl = MappedAcl ps (ap_approximation policy) \<and>
         ps \<noteq> [] \<and> length ps \<le> max_principals \<and> sorted ps \<and> distinct ps \<and>
         (\<forall>hit \<in> set (path_eval p payload). scalar_to_string env hit \<noteq> None) \<and>
         set ps = {namespaced_principal ns (so_name (mf_source m)) raw | raw hit.
           hit \<in> set (path_eval p payload) \<and> scalar_to_string env hit = Some raw})"
proof -
  have acl: "evaluate_acl env m payload = Inr acl" using assms by (simp add: apply_manifest_Writes)
  from acl show ?thesis
  proof (cases rule: evaluate_acl_Inr)
    case (static policy)
    then show ?thesis by simp
  next
    case (mapped policy e p ns)
    let ?raw = "map (\<lambda>hit. namespaced_principal ns (so_name (mf_source m)) (the (scalar_to_string env hit))) (path_eval p payload)"
    have "set ?raw = {namespaced_principal ns (so_name (mf_source m)) raw | raw hit.
        hit \<in> set (path_eval p payload) \<and> scalar_to_string env hit = Some raw}"
      using mapped(8) by force
    moreover have "length (remdups_adj (sort ?raw)) \<le> max_principals"
      using length_remdups_adj_le [of "sort ?raw"] mapped(7) by simp
    moreover have "sorted (remdups_adj (sort ?raw))" "distinct (remdups_adj (sort ?raw))"
      using sorted_remdups_adj_distinct [OF sorted_sort [of ?raw]] by simp_all
    moreover have "remdups_adj (sort ?raw) \<noteq> []"
      using mapped(6) by (metis length_0_conv length_map length_sort remdups_adj_Nil_iff)
    ultimately show ?thesis using mapped by simp
  qed
qed

theorem manifest_acl_fail_closed_witness:
  "\<exists>p. path_parse ''team[].id'' = Inr p \<and> set [''user:ann'', ''user:bob''] =
     {''user:'' @ raw | raw hit. hit \<in> set (path_eval p sample_inbound) \<and> scalar_to_string sample_runtime hit = Some raw}"
  using manifest_acl_fail_closed [OF sample_applies] by (auto simp: sample_manifest_def sample_acl_policy_def)

text \<open>
  The tier contract of an approved manifest reaches every write: a payload of an activated Tier A
  source is written with mirrored principals, of a Tier B source with principals marked approximated
  (under a note), of a Tier C source with the static audience only.
\<close>

theorem activated_tier_contract:
  assumes "activation_check m = Inr ()" "apply_manifest env now m payload = Some (Writes src ws acl)"
  shows "case so_tier (mf_source m) of
      Some TierA \<Rightarrow> \<exists>ps. acl = MappedAcl ps False
    | Some TierB \<Rightarrow> (\<exists>ps. acl = MappedAcl ps True) \<and> (\<exists>policy note. mf_acl_policy m = Some policy \<and> ap_note policy = Some note \<and> trim note \<noteq> [])
    | Some TierC \<Rightarrow> \<exists>vis. acl = StaticAcl vis
    | None \<Rightarrow> True"
proof -
  have acl: "evaluate_acl env m payload = Inr acl" using assms(2) by (simp add: apply_manifest_Writes)
  from acl show ?thesis
  proof (cases rule: evaluate_acl_Inr)
    case (static policy)
    with assms(1) show ?thesis by (auto simp: activation_check_def split: option.splits tier.splits)
  next
    case (mapped policy e p ns)
    have note_ok: "\<exists>note. ap_note policy = Some note \<and> trim note \<noteq> []"
      if "trim (case ap_note policy of None \<Rightarrow> [] | Some n \<Rightarrow> n) \<noteq> []"
      using that by (cases "ap_note policy") (auto simp: trim_def trim_start_def trim_end_def)
    from mapped assms(1) note_ok show ?thesis
      by (auto simp: activation_check_def result_iffs split: option.splits tier.splits)
  qed
qed

theorem activated_tier_contract_witness:
  "activation_check sample_manifest = Inr () \<and> so_tier (mf_source sample_manifest) = Some TierA \<and>
   (\<exists>ps. MappedAcl [''user:ann'', ''user:bob''] False = MappedAcl ps False)"
proof -
  have act: "activation_check sample_manifest = Inr ()"
    by (simp add: activation_check_def sample_manifest_def sample_acl_policy_def ensure_def)
  from activated_tier_contract [OF act sample_applies] act show ?thesis by (simp add: sample_manifest_def)
qed

text \<open>
  Validation makes the runtime total: on a manifest that passed validation every payload gets an
  outcome, and a quarantine is never for an expression that does not parse or a policy that is
  incomplete.
\<close>

theorem validated_manifest_total:
  assumes "manifest_validate m = Some (Inr ())"
  shows "\<exists>r. apply_manifest env now m payload = Some r \<and> (\<forall>reason. r = Quarantine reason \<longrightarrow> \<not> syntactic reason)"
proof -
  from assms have ents: "validate_entities (mf_entities m) = Some (Inr ())"
    and pol: "case mf_acl_policy m of None \<Rightarrow> True | Some p \<Rightarrow> policy_validate p = Inr ()"
    by (auto simp: manifest_validate_def returning_Inr split: option.splits)
  from apply_entities_returns [of "mf_entities m" env now payload 0] validate_entities_Inr [OF ents] obtain r where
    r: "apply_entities env now (mf_entities m) payload 0 = Some r" "\<forall>reason. r = Inl reason \<longrightarrow> \<not> syntactic reason" by blast
  show ?thesis
  proof (cases r)
    case (Inl e)
    with r show ?thesis by (simp add: apply_manifest_def)
  next
    case (Inr ws)
    with r evaluate_acl_not_syntactic [OF pol, of env payload] show ?thesis
      by (cases "evaluate_acl env m payload") (simp_all add: apply_manifest_def)
  qed
qed

theorem validated_manifest_total_witness:
  "manifest_validate sample_manifest = Some (Inr ()) \<and> (\<exists>r. apply_manifest sample_runtime 0 sample_manifest JNull = Some r)"
proof -
  from sample_valid validated_manifest_total [OF sample_valid, of sample_runtime 0 JNull] show ?thesis by blast
qed

end
