(* ===== verification/Webhook_Ingest.thy ===== *)
theory Webhook_Ingest
  imports Manifest_Properties Remember
begin

text \<open>
  The inbound webhook lane and the manifest gate of the server (\<^verbatim>\<open>webhooks.rs\<close>, \<^verbatim>\<open>manifests.rs\<close>) with
  the signature and registry checks of the manifest crate (\<^verbatim>\<open>signature.rs\<close>, \<^verbatim>\<open>registry.rs\<close>).

  A handler's result \<open>None\<close> means that it never returns (predicate parsing inside manifest
  validation may not). One instant \<open>now\<close> stands for the clock reads of a request, and the ids a
  request draws are its argument. Reading YAML and JSON, the derived reader of the native payload,
  HMAC, SHA-256, environment variables and request headers are fields of the environment. The admin
  routes are modelled behind the admin check.
\<close>

section \<open>Signatures\<close>

definition hex_decode :: "string \<Rightarrow> string option" where
  "hex_decode s = (if odd (length s) \<or> s = [] then None else hex_pairs s)"

definition hex_char :: "nat \<Rightarrow> char" where
  "hex_char n = (if n < 10 then char_of (48 + n) else char_of (87 + n))"

definition hex_encode :: "string \<Rightarrow> string" where
  "hex_encode bytes = concat (map (\<lambda>c. [hex_char (of_char c div 16), hex_char (of_char c mod 16)]) bytes)"

definition verify_hmac_sha256_hex :: "(string \<Rightarrow> string \<Rightarrow> string) \<Rightarrow> string \<Rightarrow> string \<Rightarrow> string \<Rightarrow> bool" where
  "verify_hmac_sha256_hex mac secret body header_value =
     (case hex_decode (trim header_value) of None \<Rightarrow> False | Some expected \<Rightarrow> expected = mac secret body)"

definition hmac_sha256_hex :: "(string \<Rightarrow> string \<Rightarrow> string) \<Rightarrow> string \<Rightarrow> string \<Rightarrow> string" where
  "hmac_sha256_hex mac secret body = hex_encode (mac secret body)"

definition secret_var_char :: "char \<Rightarrow> char option" where
  "secret_var_char c =
     (if is_ascii_lowercase c then Some (char_to_ascii_uppercase c)
      else if is_ascii_uppercase c \<or> is_ascii_digit c then Some c
      else if c \<in> {CHR ''-'', CHR ''.'', CHR ''_''} then Some CHR ''_''
      else None)"

fun secret_var_name :: "string \<Rightarrow> string option" where
  "secret_var_name [] = Some []"
| "secret_var_name (c # cs) =
     (case secret_var_char c of None \<Rightarrow> None | Some d \<Rightarrow> map_option ((#) d) (secret_var_name cs))"

definition secret_ref_env_var :: "string \<Rightarrow> string option" where
  "secret_ref_env_var r =
     (case strip_prefix ''secret://'' r of
        None \<Rightarrow> None
      | Some name \<Rightarrow> if name = [] then None else map_option ((@) ''VERITY_SECRET_'') (secret_var_name name))"

definition resolve_secret_ref :: "(string \<Rightarrow> string option) \<Rightarrow> string \<Rightarrow> string option" where
  "resolve_secret_ref getenv r =
     Option.bind (secret_ref_env_var r) (\<lambda>var.
       case getenv var of Some v \<Rightarrow> if v \<noteq> [] then Some v else None | None \<Rightarrow> None)"

section \<open>The registry check\<close>

datatype registry_tier = Community | Verified

record registry_entry =
  rg_name :: string
  rg_version :: string
  rg_description :: string
  rg_tier :: registry_tier
  rg_path :: string
  rg_sha256 :: string
  rg_signature_ref :: "string option"

datatype signature_state = SignatureOk | NoneCommunity | MissingButRequired | BadManifestSignature | KeyUnavailable

record verify_report =
  vr_integrity_ok :: bool
  vr_signature :: signature_state

definition report_passed :: "verify_report \<Rightarrow> bool" where
  "report_passed r \<longleftrightarrow> vr_integrity_ok r \<and> vr_signature r \<in> {SignatureOk, NoneCommunity}"

definition registry_find :: "registry_entry list \<Rightarrow> string \<Rightarrow> registry_entry option" where
  "registry_find entries name = List.find (\<lambda>e. rg_name e = name) entries"

definition verify_entry ::
  "(string \<Rightarrow> string) \<Rightarrow> (string \<Rightarrow> string \<Rightarrow> string) \<Rightarrow> registry_entry \<Rightarrow> string \<Rightarrow> string option \<Rightarrow> string option
   \<Rightarrow> verify_report" where
  "verify_entry sha256_hex mac entry bytes signature_hex signing_key =
     \<lparr>vr_integrity_ok = eq_ignore_ascii_case (sha256_hex bytes) (rg_sha256 entry),
      vr_signature =
        (case (rg_signature_ref entry, signature_hex) of
           (Some _, Some sig) \<Rightarrow>
             (case signing_key of
                None \<Rightarrow> KeyUnavailable
              | Some key \<Rightarrow> if verify_hmac_sha256_hex mac key bytes sig then SignatureOk else BadManifestSignature)
         | _ \<Rightarrow> (case rg_tier entry of Community \<Rightarrow> NoneCommunity | Verified \<Rightarrow> MissingButRequired))\<rparr>"

section \<open>State\<close>

record manifest_row =
  mn_id :: uuid
  mn_tenant_id :: tenant_id
  mn_name :: string
  mn_yaml :: string
  mn_status :: string
  mn_approved_by :: "string option"

record webhook_row =
  wr_id :: uuid
  wr_tenant_id :: tenant_id
  wr_name :: string
  wr_token_hash :: string
  wr_visibility :: "principal_token list"
  wr_entity_scope :: "string list"
  wr_confidentiality :: int
  wr_manifest_id :: "uuid option"
  wr_revoked_at :: "instant option"

record webhook =
  wh_id :: uuid
  wh_tenant_id :: tenant_id
  wh_name :: string
  wh_visibility :: "principal_token list"
  wh_entity_scope :: "string list"
  wh_confidentiality :: confidentiality
  wh_manifest_id :: "uuid option"

datatype hold_reason =
    ManifestRowMissing
  | StoredManifestBroken string manifest_error
  | SecretUnresolvable string
  | ManifestNotActive string string
  | InvalidJson
  | UnrecognizedShape
  | NothingToWrite
  | RuntimeHold quarantine_reason

record quarantine_row =
  qr_id :: uuid
  qr_tenant_id :: tenant_id
  qr_webhook_id :: uuid
  qr_payload :: json
  qr_reason :: hold_reason

record ingest_state =
  is_server :: server_state
  is_manifests :: "manifest_row list"
  is_webhooks :: "webhook_row list"
  is_quarantine :: "quarantine_row list"
  is_dirty :: "tenant_id list"

record native_fact =
  nf_source :: string
  nf_entity_id :: string
  nf_field :: string
  nf_value :: json
  nf_valid_from :: "instant option"

record native_payload =
  np_content :: "string option"
  np_observation :: "string option"
  np_entities :: "string list"
  np_facts :: "native_fact list"
  np_visibility :: "principal_token list option"

record ingest_env =
  ig_server :: server_env
  ig_runtime :: runtime_env
  ig_yaml :: "string \<Rightarrow> string + manifest"
  ig_json :: "string \<Rightarrow> json option"
  ig_native :: "json \<Rightarrow> native_payload option"
  ig_mac :: "string \<Rightarrow> string \<Rightarrow> string"
  ig_getenv :: "string \<Rightarrow> string option"
  ig_token_hash :: "string \<Rightarrow> string"

record request_ids =
  id_quarantine :: uuid
  id_episode :: episode_id
  id_fact :: "nat \<Rightarrow> uuid"
  id_chunk :: "nat \<Rightarrow> uuid"

datatype ingest_refusal =
    UnknownWebhook
  | VisibilityWidened
  | EntitiesOutsideWebhook
  | SignatureHeaderMissing string
  | SignatureInvalid
  | IngestFailed storage_error
  | ManifestRejected manifest_error
  | ApproverMissing
  | UnknownManifest
  | WebhookNeedsVisibility
  | ManifestNotInTenant

datatype accepted = Held | Ingested episode_id nat nat

type_synonym 'a ingest_result = "(ingest_refusal + 'a) \<times> ingest_state"

section \<open>Quarantine\<close>

definition quarantine :: "uuid \<Rightarrow> webhook \<Rightarrow> json \<Rightarrow> hold_reason \<Rightarrow> ingest_state \<Rightarrow> accepted ingest_result" where
  "quarantine qid hook payload reason st =
     (if wh_tenant_id hook \<notin> set (db_tenants (sv_db (is_server st)))
      then (Inl (IngestFailed (constraint_error ''quarantine_preview_tenant_id_fkey'')), st)
      else if wh_id hook \<notin> wr_id ` set (is_webhooks st)
      then (Inl (IngestFailed (constraint_error ''quarantine_preview_webhook_id_fkey'')), st)
      else if qid \<in> qr_id ` set (is_quarantine st)
      then (Inl (IngestFailed (constraint_error ''quarantine_preview_pkey'')), st)
      else (Inr Held, st\<lparr>is_quarantine := is_quarantine st @
             [\<lparr>qr_id = qid, qr_tenant_id = wh_tenant_id hook, qr_webhook_id = wh_id hook,
               qr_payload = payload, qr_reason = reason\<rparr>]\<rparr>))"

definition raw_preview :: "string \<Rightarrow> json" where
  "raw_preview body = JObject [(''raw'', JString (take 4096 body))]"

section \<open>Writes shared by both lanes\<close>

text \<open>Fact upserts one by one; the writes before a failure stay.\<close>

fun upsert_facts ::
  "instant \<Rightarrow> (nat \<Rightarrow> uuid) \<Rightarrow> nat \<Rightarrow> fact_write list \<Rightarrow> database \<Rightarrow> (storage_error + nat) \<times> database" where
  "upsert_facts now fresh i [] db = (Inr 0, db)"
| "upsert_facts now fresh i (w # ws) db =
     (case upsert_fact now (fresh i) w db of
        Inl e \<Rightarrow> (Inl e, db)
      | Inr (_, db1) \<Rightarrow>
          (case upsert_facts now fresh (Suc i) ws db1 of
             (Inl e, db2) \<Rightarrow> (Inl e, db2)
           | (Inr n, db2) \<Rightarrow> (Inr (Suc n), db2)))"

definition set_db :: "database \<Rightarrow> ingest_state \<Rightarrow> ingest_state" where
  "set_db db st = st\<lparr>is_server := (is_server st)\<lparr>sv_db := db\<rparr>\<rparr>"

definition sampled :: "tenant_id \<Rightarrow> string \<Rightarrow> instant \<Rightarrow> ingest_state \<Rightarrow> ingest_state" where
  "sampled t source received_at st = st\<lparr>is_server := record_sample t source received_at (is_server st)\<rparr>"

section \<open>The native lane\<close>

definition native_source :: "webhook \<Rightarrow> string" where
  "native_source hook = ''webhook:'' @ wh_name hook"

definition native_entities :: "webhook \<Rightarrow> native_payload \<Rightarrow> ingest_refusal + string list" where
  "native_entities hook native =
     (if wh_entity_scope hook = [] then Inr (np_entities native)
      else if np_entities native = [] then Inr (wh_entity_scope hook)
      else if list_all (\<lambda>e. e \<in> set (wh_entity_scope hook)) (np_entities native) then Inr (np_entities native)
      else Inl EntitiesOutsideWebhook)"

definition native_visibility :: "webhook \<Rightarrow> native_payload \<Rightarrow> ingest_refusal + principal_token list" where
  "native_visibility hook native =
     (case np_visibility native of
        None \<Rightarrow> Inr (wh_visibility hook)
      | Some req \<Rightarrow> if list_all (\<lambda>t. t \<in> set (wh_visibility hook)) req then Inr req else Inl VisibilityWidened)"

definition native_episode :: "ingest_env \<Rightarrow> webhook \<Rightarrow> json \<Rightarrow> string list \<Rightarrow> new_episode" where
  "native_episode env hook raw entities =
     \<lparr>ne_tenant_id = wh_tenant_id hook, ne_source = native_source hook,
      ne_source_entity = (case entities of [] \<Rightarrow> None | e # _ \<Rightarrow> Some e), ne_kind = Webhook, ne_payload = raw,
      ne_content_hash = en_md5ish (ig_server env) (re_json_text (ig_runtime env) raw), ne_trust_tier = Authoritative,
      ne_writer_sub = None, ne_writer_azp = Some (''webhook:'' @ en_uuid_str (ig_server env) (wh_id hook))\<rparr>"

definition native_chunk ::
  "ingest_env \<Rightarrow> instant \<Rightarrow> webhook \<Rightarrow> episode_id \<Rightarrow> string \<Rightarrow> principal_token list \<Rightarrow> string list \<Rightarrow> chunk_write" where
  "native_chunk env now hook eid content vis entities =
     \<lparr>cw_tenant_id = wh_tenant_id hook, cw_source = native_source hook,
      cw_document_id = ''wh:'' @ en_uuid_str (ig_server env) eid, cw_seq = 0, cw_content = content,
      cw_content_hash = ''wh-'' @ en_uuid_str (ig_server env) eid, cw_embedding = en_encode (ig_server env) content,
      cw_visibility = vis, cw_entity_tags = entities, cw_confidentiality = wh_confidentiality hook,
      cw_trust_tier = Authoritative, cw_valid_from = now, cw_provenance = eid,
      cw_acl_provenance = AdminAssigned, cw_derived_from = []\<rparr>"

definition native_fact_write ::
  "instant \<Rightarrow> webhook \<Rightarrow> episode_id \<Rightarrow> principal_token list \<Rightarrow> native_fact \<Rightarrow> fact_write" where
  "native_fact_write now hook eid vis f =
     \<lparr>fw_tenant_id = wh_tenant_id hook,
      fw_key = \<lparr>fk_source = nf_source f, fk_entity_id = nf_entity_id f, fk_field = nf_field f\<rparr>,
      fw_value = nf_value f, fw_valid_from = (case nf_valid_from f of None \<Rightarrow> now | Some t \<Rightarrow> t),
      fw_visibility = vis, fw_confidentiality = wh_confidentiality hook, fw_provenance = eid,
      fw_acl_provenance = AdminAssigned\<rparr>"

definition native_write ::
  "ingest_env \<Rightarrow> instant \<Rightarrow> request_ids \<Rightarrow> webhook \<Rightarrow> json \<Rightarrow> native_payload \<Rightarrow> string option
   \<Rightarrow> principal_token list \<Rightarrow> string list \<Rightarrow> ingest_state \<Rightarrow> accepted ingest_result" where
  "native_write env now ids hook raw native content vis entities st =
     (let eid = id_episode ids
      in case insert_episode_tx now eid (native_episode env hook raw entities) (sv_db (is_server st)) of
           Inl e \<Rightarrow> (Inl (IngestFailed e), st)
         | Inr db1 \<Rightarrow>
             (case (case content of None \<Rightarrow> Inr (0, db1)
                    | Some c \<Rightarrow> upsert_chunks (id_chunk ids) [native_chunk env now hook eid c vis entities] db1) of
                Inl e \<Rightarrow> (Inl (IngestFailed e), set_db db1 st)
              | Inr (chunks, db2) \<Rightarrow>
                  (case upsert_facts now (id_fact ids) 0 (map (native_fact_write now hook eid vis) (np_facts native)) db2 of
                     (Inl e, db3) \<Rightarrow> (Inl (IngestFailed e), set_db db3 st)
                   | (Inr facts, db3) \<Rightarrow>
                       (Inr (Ingested eid chunks facts),
                        let st1 = sampled (wh_tenant_id hook) (native_source hook) now (set_db db3 st)
                        in st1\<lparr>is_dirty := wh_tenant_id hook # is_dirty st1\<rparr>))))"

definition native_post ::
  "ingest_env \<Rightarrow> instant \<Rightarrow> request_ids \<Rightarrow> webhook \<Rightarrow> string \<Rightarrow> ingest_state \<Rightarrow> accepted ingest_result" where
  "native_post env now ids hook body st =
     (case ig_json env body of
        None \<Rightarrow> quarantine (id_quarantine ids) hook (raw_preview body) InvalidJson st
      | Some raw \<Rightarrow>
          (case ig_native env raw of
             None \<Rightarrow> quarantine (id_quarantine ids) hook raw UnrecognizedShape st
           | Some native \<Rightarrow>
               let content = (case np_content native of Some c \<Rightarrow> Some c | None \<Rightarrow> np_observation native)
               in if content = None \<and> np_facts native = []
                  then quarantine (id_quarantine ids) hook raw NothingToWrite st
                  else case native_visibility hook native of
                    Inl e \<Rightarrow> (Inl e, st)
                  | Inr vis \<Rightarrow>
                      (case native_entities hook native of
                         Inl e \<Rightarrow> (Inl e, st)
                       | Inr entities \<Rightarrow> native_write env now ids hook raw native content vis entities st)))"

section \<open>The manifest lane\<close>

definition envelope_tokens ::
  "webhook \<Rightarrow> acl_envelope \<Rightarrow> principal_row list \<Rightarrow> principal_token list \<times> acl_provenance \<times> principal_row list" where
  "envelope_tokens hook acl rows =
     (case acl of
        StaticAcl None \<Rightarrow> (wh_visibility hook, AdminAssigned, rows)
      | StaticAcl (Some ps) \<Rightarrow>
          (let (mapping, rows') = upsert_principal_tokens (wh_tenant_id hook) ps rows in (map snd mapping, AdminAssigned, rows'))
      | MappedAcl ps approximated \<Rightarrow>
          (let (mapping, rows') = upsert_principal_tokens (wh_tenant_id hook) ps rows
           in (map snd mapping, if approximated then Approximated else Mirrored, rows')))"

definition write_ref :: "entity_writes \<Rightarrow> string" where
  "write_ref w = ew_entity_type w @ '':'' @ ew_entity_id w"

definition manifest_facts ::
  "webhook \<Rightarrow> string \<Rightarrow> episode_id \<Rightarrow> principal_token list \<Rightarrow> acl_provenance \<Rightarrow> entity_writes \<Rightarrow> fact_write list" where
  "manifest_facts hook source eid vis prov w =
     map (\<lambda>(field, v). \<lparr>fw_tenant_id = wh_tenant_id hook,
        fw_key = \<lparr>fk_source = source, fk_entity_id = ew_entity_id w, fk_field = field\<rparr>,
        fw_value = v, fw_valid_from = ew_valid_from w, fw_visibility = vis,
        fw_confidentiality = wh_confidentiality hook, fw_provenance = eid, fw_acl_provenance = prov\<rparr>) (ew_fields w)"

definition manifest_chunks ::
  "ingest_env \<Rightarrow> webhook \<Rightarrow> string \<Rightarrow> episode_id \<Rightarrow> principal_token list \<Rightarrow> acl_provenance \<Rightarrow> entity_writes \<Rightarrow> chunk_write list" where
  "manifest_chunks env hook source eid vis prov w =
     (case ew_content w of None \<Rightarrow> []
      | Some content \<Rightarrow>
          [\<lparr>cw_tenant_id = wh_tenant_id hook, cw_source = source, cw_document_id = write_ref w, cw_seq = 0,
            cw_content = content, cw_content_hash = en_md5ish (ig_server env) content,
            cw_embedding = en_encode (ig_server env) content, cw_visibility = vis, cw_entity_tags = [write_ref w],
            cw_confidentiality = wh_confidentiality hook, cw_trust_tier = Authoritative,
            cw_valid_from = ew_valid_from w, cw_provenance = eid, cw_acl_provenance = prov, cw_derived_from = []\<rparr>])"

definition manifest_episode :: "ingest_env \<Rightarrow> webhook \<Rightarrow> string \<Rightarrow> json \<Rightarrow> entity_writes list \<Rightarrow> new_episode" where
  "manifest_episode env hook source payload writes =
     \<lparr>ne_tenant_id = wh_tenant_id hook, ne_source = source,
      ne_source_entity = (case writes of [] \<Rightarrow> None | w # _ \<Rightarrow> Some (ew_entity_id w)), ne_kind = Webhook,
      ne_payload = payload, ne_content_hash = en_md5ish (ig_server env) (re_json_text (ig_runtime env) payload),
      ne_trust_tier = Authoritative, ne_writer_sub = None,
      ne_writer_azp = Some (''webhook:'' @ en_uuid_str (ig_server env) (wh_id hook))\<rparr>"

definition manifest_write ::
  "ingest_env \<Rightarrow> instant \<Rightarrow> request_ids \<Rightarrow> webhook \<Rightarrow> json \<Rightarrow> string \<Rightarrow> entity_writes list \<Rightarrow> acl_envelope
   \<Rightarrow> ingest_state \<Rightarrow> accepted ingest_result" where
  "manifest_write env now ids hook payload source writes acl st =
     (let sv = is_server st; eid = id_episode ids;
          (vis, prov, rows) = envelope_tokens hook acl (rd_principals (sv_rev sv));
          st1 = st\<lparr>is_server := sv\<lparr>sv_rev := (sv_rev sv)\<lparr>rd_principals := rows\<rparr>\<rparr>\<rparr>
      in case insert_episode_tx now eid (manifest_episode env hook source payload writes) (sv_db sv) of
           Inl e \<Rightarrow> (Inl (IngestFailed e), st1)
         | Inr db1 \<Rightarrow>
             (case upsert_facts now (id_fact ids) 0 (concat (map (manifest_facts hook source eid vis prov) writes)) db1 of
                (Inl e, db2) \<Rightarrow> (Inl (IngestFailed e), set_db db2 st1)
              | (Inr facts, db2) \<Rightarrow>
                  let cs = concat (map (manifest_chunks env hook source eid vis prov) writes)
                  in (case (if cs = [] then Inr (0, db2) else upsert_chunks (id_chunk ids) cs db2) of
                        Inl e \<Rightarrow> (Inl (IngestFailed e), set_db db2 st1)
                      | Inr (chunks, db3) \<Rightarrow>
                          (Inr (Ingested eid chunks facts), sampled (wh_tenant_id hook) source now (set_db db3 st1)))))"

definition check_signature ::
  "ingest_env \<Rightarrow> request_ids \<Rightarrow> webhook \<Rightarrow> (string \<Rightarrow> string option) \<Rightarrow> string \<Rightarrow> manifest \<Rightarrow> ingest_state
   \<Rightarrow> unit option ingest_result" where
  "check_signature env ids hook headers body m st =
     (case Option.bind (so_webhook (mf_source m)) ws_signature of
        None \<Rightarrow> (Inr (Some ()), st)
      | Some sig \<Rightarrow>
          (case resolve_secret_ref (ig_getenv env) (ss_secret_ref sig) of
             None \<Rightarrow>
               (case quarantine (id_quarantine ids) hook (raw_preview body) (SecretUnresolvable (ss_secret_ref sig)) st of
                  (Inl e, st') \<Rightarrow> (Inl e, st') | (Inr _, st') \<Rightarrow> (Inr None, st'))
           | Some secret \<Rightarrow>
               (case headers (ss_header sig) of
                  None \<Rightarrow> (Inl (SignatureHeaderMissing (ss_header sig)), st)
                | Some provided \<Rightarrow>
                    if verify_hmac_sha256_hex (ig_mac env) secret body provided then (Inr (Some ()), st)
                    else (Inl SignatureInvalid, st))))"

definition deliver ::
  "ingest_env \<Rightarrow> instant \<Rightarrow> request_ids \<Rightarrow> webhook \<Rightarrow> uuid \<Rightarrow> (string \<Rightarrow> string option) \<Rightarrow> string \<Rightarrow> ingest_state
   \<Rightarrow> accepted ingest_result option" where
  "deliver env now ids hook manifest_id headers body st =
     (case List.find (\<lambda>r. mn_id r = manifest_id) (is_manifests st) of
        None \<Rightarrow> Some (quarantine (id_quarantine ids) hook (raw_preview body) ManifestRowMissing st)
      | Some row \<Rightarrow>
          (case from_yaml (ig_yaml env) (mn_yaml row) of
             None \<Rightarrow> None
           | Some (Inl e) \<Rightarrow>
               Some (quarantine (id_quarantine ids) hook (raw_preview body) (StoredManifestBroken (mn_name row) e) st)
           | Some (Inr m) \<Rightarrow>
               (case check_signature env ids hook headers body m st of
                  (Inl e, st1) \<Rightarrow> Some (Inl e, st1)
                | (Inr None, st1) \<Rightarrow> Some (Inr Held, st1)
                | (Inr (Some _), st1) \<Rightarrow>
                    if mn_status row \<noteq> ''active''
                    then Some (quarantine (id_quarantine ids) hook (raw_preview body)
                           (ManifestNotActive (mn_name row) (mn_status row)) st1)
                    else case ig_json env body of
                      None \<Rightarrow> Some (quarantine (id_quarantine ids) hook (raw_preview body) InvalidJson st1)
                    | Some payload \<Rightarrow>
                        (case apply_manifest (ig_runtime env) now m payload of
                           None \<Rightarrow> None
                         | Some (Quarantine reason) \<Rightarrow>
                             Some (quarantine (id_quarantine ids) hook payload (RuntimeHold reason) st1)
                         | Some (Writes source writes acl) \<Rightarrow>
                             Some (manifest_write env now ids hook payload source writes acl st1)))))"

section \<open>Routes\<close>

definition conf_from_i16 :: "int \<Rightarrow> confidentiality" where
  "conf_from_i16 v = (if v = 0 then Public else if v = 1 then Internal else if v = 2 then Confidential else Restricted)"

definition hook_of :: "webhook_row \<Rightarrow> webhook" where
  "hook_of r = \<lparr>wh_id = wr_id r, wh_tenant_id = wr_tenant_id r, wh_name = wr_name r, wh_visibility = wr_visibility r,
     wh_entity_scope = wr_entity_scope r, wh_confidentiality = conf_from_i16 (wr_confidentiality r),
     wh_manifest_id = wr_manifest_id r\<rparr>"

definition webhook_post ::
  "ingest_env \<Rightarrow> instant \<Rightarrow> request_ids \<Rightarrow> string \<Rightarrow> (string \<Rightarrow> string option) \<Rightarrow> string \<Rightarrow> ingest_state
   \<Rightarrow> accepted ingest_result option" where
  "webhook_post env now ids token headers body st =
     (case List.find (\<lambda>r. wr_token_hash r = ig_token_hash env token \<and> wr_revoked_at r = None) (is_webhooks st) of
        None \<Rightarrow> Some (Inl UnknownWebhook, st)
      | Some r \<Rightarrow>
          (case wh_manifest_id (hook_of r) of
             Some manifest_id \<Rightarrow> deliver env now ids (hook_of r) manifest_id headers body st
           | None \<Rightarrow> Some (native_post env now ids (hook_of r) body st)))"

record mint_webhook_request =
  mw_tenant_id :: tenant_id
  mw_name :: string
  mw_visibility :: "principal_token list"
  mw_entity_scope :: "string list"
  mw_confidentiality :: confidentiality
  mw_manifest_id :: "uuid option"

definition mint_webhook ::
  "ingest_env \<Rightarrow> uuid \<Rightarrow> string \<Rightarrow> mint_webhook_request \<Rightarrow> ingest_state \<Rightarrow> (uuid \<times> string) ingest_result" where
  "mint_webhook env wid token req st =
     (if mw_visibility req = [] then (Inl WebhookNeedsVisibility, st)
      else if (case mw_manifest_id req of None \<Rightarrow> False
               | Some mid \<Rightarrow> \<not> list_ex (\<lambda>r. mn_id r = mid \<and> mn_tenant_id r = mw_tenant_id req) (is_manifests st))
      then (Inl ManifestNotInTenant, st)
      else if mw_tenant_id req \<notin> set (db_tenants (sv_db (is_server st)))
      then (Inl (IngestFailed (constraint_error ''webhooks_tenant_id_fkey'')), st)
      else if wid \<in> wr_id ` set (is_webhooks st) then (Inl (IngestFailed (constraint_error ''webhooks_pkey'')), st)
      else if ig_token_hash env token \<in> wr_token_hash ` set (is_webhooks st)
      then (Inl (IngestFailed (constraint_error ''webhooks_token_hash_key'')), st)
      else (Inr (wid, ''/wh/'' @ token), st\<lparr>is_webhooks := is_webhooks st @
        [\<lparr>wr_id = wid, wr_tenant_id = mw_tenant_id req, wr_name = mw_name req, wr_token_hash = ig_token_hash env token,
          wr_visibility = mw_visibility req, wr_entity_scope = mw_entity_scope req,
          wr_confidentiality = conf_code (mw_confidentiality req), wr_manifest_id = mw_manifest_id req,
          wr_revoked_at = None\<rparr>]\<rparr>))"

definition revoke_webhook :: "instant \<Rightarrow> uuid \<Rightarrow> ingest_state \<Rightarrow> bool \<times> ingest_state" where
  "revoke_webhook now wid st =
     (let hit = (\<lambda>r. wr_id r = wid \<and> wr_revoked_at r = None)
      in (0 < rows_affected hit (is_webhooks st),
          st\<lparr>is_webhooks := update_where hit (\<lambda>r. r\<lparr>wr_revoked_at := Some now\<rparr>) (is_webhooks st)\<rparr>))"

definition upload_manifest :: "ingest_env \<Rightarrow> uuid \<Rightarrow> tenant_id \<Rightarrow> string \<Rightarrow> ingest_state \<Rightarrow> uuid ingest_result option" where
  "upload_manifest env mid t yaml st =
     (case from_yaml (ig_yaml env) yaml of
        None \<Rightarrow> None
      | Some (Inl e) \<Rightarrow> Some (Inl (ManifestRejected e), st)
      | Some (Inr m) \<Rightarrow>
          let name = so_name (mf_source m); same = (\<lambda>r. mn_tenant_id r = t \<and> mn_name r = name)
          in if t \<notin> set (db_tenants (sv_db (is_server st)))
             then Some (Inl (IngestFailed (constraint_error ''manifests_tenant_id_fkey'')), st)
             else (case List.find same (is_manifests st) of
                     Some r \<Rightarrow> Some (Inr (mn_id r), st\<lparr>is_manifests := update_where same
                       (\<lambda>r. r\<lparr>mn_yaml := yaml, mn_status := ''draft'', mn_approved_by := None\<rparr>) (is_manifests st)\<rparr>)
                   | None \<Rightarrow>
                       if mid \<in> mn_id ` set (is_manifests st)
                       then Some (Inl (IngestFailed (constraint_error ''manifests_pkey'')), st)
                       else Some (Inr mid, st\<lparr>is_manifests := is_manifests st @
                         [\<lparr>mn_id = mid, mn_tenant_id = t, mn_name = name, mn_yaml = yaml, mn_status = ''draft'',
                           mn_approved_by = None\<rparr>]\<rparr>)))"

definition activation_audit :: "tenant_id \<Rightarrow> string \<Rightarrow> string \<Rightarrow> uuid \<Rightarrow> audit_row" where
  "activation_audit t approved_by summary mid =
     \<lparr>au_tenant_id = t, au_actor_sub = Some approved_by, au_actor_azp = None, au_verb = ''manifest_activate'',
      au_principals = [], au_entity_scope = [], au_confidentiality = 0,
      au_query_summary = Some summary, au_result_ids = [mid]\<rparr>"

text \<open>
  Activation reads the row and checks its text, then updates the row by its id: two statements outside
  a transaction.
\<close>

definition activation_gate :: "ingest_env \<Rightarrow> uuid \<Rightarrow> tenant_id \<Rightarrow> ingest_state \<Rightarrow> (ingest_refusal + string \<times> manifest) option" where
  "activation_gate env mid t st =
     (case List.find (\<lambda>r. mn_id r = mid \<and> mn_tenant_id r = t) (is_manifests st) of
        None \<Rightarrow> Some (Inl UnknownManifest)
      | Some row \<Rightarrow>
          (case from_yaml (ig_yaml env) (mn_yaml row) of
             None \<Rightarrow> None
           | Some (Inl e) \<Rightarrow> Some (Inl (ManifestRejected e))
           | Some (Inr m) \<Rightarrow>
               (case activation_check m of
                  Inl e \<Rightarrow> Some (Inl (ManifestRejected e))
                | Inr _ \<Rightarrow> Some (Inr (mn_name row, m)))))"

definition activation_commit :: "string \<Rightarrow> uuid \<Rightarrow> tenant_id \<Rightarrow> string \<Rightarrow> ingest_state \<Rightarrow> ingest_state" where
  "activation_commit summary mid t approved_by st =
     (let sv = is_server st
      in st\<lparr>is_manifests := update_where (\<lambda>r. mn_id r = mid)
              (\<lambda>r. r\<lparr>mn_status := ''active'', mn_approved_by := Some approved_by\<rparr>) (is_manifests st),
            is_server := sv\<lparr>sv_audit := sv_audit sv @ [activation_audit t approved_by summary mid]\<rparr>\<rparr>)"

definition activate_manifest ::
  "ingest_env \<Rightarrow> (string \<Rightarrow> manifest \<Rightarrow> string) \<Rightarrow> uuid \<Rightarrow> tenant_id \<Rightarrow> string \<Rightarrow> ingest_state \<Rightarrow> uuid ingest_result option" where
  "activate_manifest env summary mid t approved_by0 st =
     (let approved_by = trim approved_by0
      in if approved_by = [] then Some (Inl ApproverMissing, st)
         else case activation_gate env mid t st of
           None \<Rightarrow> None
         | Some (Inl e) \<Rightarrow> Some (Inl e, st)
         | Some (Inr (name, m)) \<Rightarrow> Some (Inr mid, activation_commit (summary name m) mid t approved_by st))"

definition dry_run_manifest :: "ingest_env \<Rightarrow> instant \<Rightarrow> string \<Rightarrow> json \<Rightarrow> (ingest_refusal + applied) option" where
  "dry_run_manifest env fixture_clock yaml payload =
     (case from_yaml (ig_yaml env) yaml of
        None \<Rightarrow> None
      | Some (Inl e) \<Rightarrow> Some (Inl (ManifestRejected e))
      | Some (Inr m) \<Rightarrow> map_option Inr (apply_manifest (ig_runtime env) fixture_clock m payload))"

end
