(* ===== verification/Fact_Labels.thy ===== *)
theory Fact_Labels
  imports Fact_Store
begin

text \<open>
  The access label of a fact row (origin, tenant, audience, confidentiality, where the audience came from)
  and the lemma the write lanes share: an upsert adds at most the label of its own write.
\<close>

section \<open>Fact labels\<close>

lemma subset_chain: "A \<subseteq> B \<union> W \<Longrightarrow> B \<subseteq> C \<union> {y} \<Longrightarrow> A \<subseteq> C \<union> insert y W"
  by blast

definition fact_label :: "fact_row \<Rightarrow> episode_id \<times> tenant_id \<times> principal_token list \<times> confidentiality \<times> acl_provenance" where
  "fact_label r = (fr_provenance r, fr_tenant_id r, fr_visibility r, fr_confidentiality r, fr_acl_provenance r)"

definition write_label :: "fact_write \<Rightarrow> episode_id \<times> tenant_id \<times> principal_token list \<times> confidentiality \<times> acl_provenance" where
  "write_label w = (fw_provenance w, fw_tenant_id w, fw_visibility w, fw_confidentiality w, fw_acl_provenance w)"

lemma update_where_labels:
  "(\<And>r. fact_label (f r) = fact_label r) \<Longrightarrow> fact_label ` set (update_where P f rs) = fact_label ` set rs"
  by (metis list.set_map update_where_keeps)

lemma upsert_fact_labels:
  assumes "upsert_fact now i w db = Inr (oc, db')"
  shows "fact_label ` set (db_facts db') \<subseteq> fact_label ` set (db_facts db) \<union> {write_label w}"
proof -
  have row: "fact_label (fact_row_of now i w v) = write_label w" for v
    by (simp add: fact_label_def write_label_def fact_row_of_def)
  have closed: "fact_label (close_fact t n r) = fact_label r" for t n r by (simp add: fact_label_def close_fact_def)
  from assms show ?thesis
    by (cases rule: upsert_fact_cases) (simp_all add: row update_where_labels closed subset_insertI)
qed

end
