(* ===== verification/Webhook_Properties.thy ===== *)
theory Webhook_Properties
  imports Webhook_Ingest Fact_Labels
begin

text \<open>
  Guarantees of the webhook lane: the signature check and its hex reader, the narrowing of the bound
  audience, and the approval gate as an invariant of every run of the manifest and webhook routes.
\<close>

section \<open>Signatures\<close>

lemma hex_value_char: "n < 16 \<Longrightarrow> hex_value (hex_char n) = Some n"
  by (auto simp: hex_value_def hex_char_def is_ascii_digit_def)

lemma hex_char_not_plus: "n < 16 \<Longrightarrow> hex_char n \<noteq> CHR ''+'' \<and> \<not> is_whitespace (hex_char n)"
proof -
  assume "n < 16"
  then have "of_char (hex_char n) \<in> {48..57} \<union> {97..102 :: nat}" by (simp add: hex_char_def)
  then show ?thesis by (auto simp: is_whitespace_def)
qed

lemma nibbles: "of_char c div 16 < (16 :: nat)" "of_char c mod 16 < (16 :: nat)" "of_char c < (256 :: nat)"
proof -
  show lt: "of_char c < (256 :: nat)"
    using of_char_mod_256 [of c, where ?'a = nat] by (metis mod_less_divisor zero_less_numeral)
  show "of_char c div 16 < (16 :: nat)" using less_mult_imp_div_less [of "of_char c" 16 16] lt by simp
qed simp

lemma hex_pairs_encode: "hex_pairs (hex_encode bytes) = Some bytes"
proof (induction bytes)
  case (Cons c bytes)
  have val: "16 * (of_char c div 16) + of_char c mod 16 = (of_char c :: nat)" by (rule mult_div_mod_eq)
  have "u8_from_hex [hex_char (of_char c div 16), hex_char (of_char c mod 16)] = Some c"
    using hex_char_not_plus [OF nibbles(1)] hex_value_char [OF nibbles(1)] hex_value_char [OF nibbles(2)] val nibbles(3) [of c]
    by (simp add: u8_from_hex_def)
  with Cons show ?case by (simp add: hex_encode_def)
qed (simp add: hex_encode_def)

lemma hex_encode_trim: "bytes \<noteq> [] \<Longrightarrow> trim (hex_encode bytes) = hex_encode bytes"
proof (rule trim_id)
  assume ne: "bytes \<noteq> []"
  then show "hex_encode bytes \<noteq> []" by (cases bytes) (simp_all add: hex_encode_def)
  have "\<not> is_whitespace c" if "c \<in> set (hex_encode bytes)" for c
    using that hex_char_not_plus [OF nibbles(1)] hex_char_not_plus [OF nibbles(2)] by (auto simp: hex_encode_def)
  with \<open>hex_encode bytes \<noteq> []\<close> show "\<not> is_whitespace (hd (hex_encode bytes))" "\<not> is_whitespace (last (hex_encode bytes))"
    by simp_all
qed

lemma length_hex_encode: "length (hex_encode bytes) = 2 * length bytes"
  by (induction bytes) (simp_all add: hex_encode_def)

lemma verify_hmac_roundtrip:
  "mac secret body \<noteq> [] \<Longrightarrow> verify_hmac_sha256_hex mac secret body (hmac_sha256_hex mac secret body)"
  using length_hex_encode [of "mac secret body"]
  by (auto simp: verify_hmac_sha256_hex_def hmac_sha256_hex_def hex_encode_trim hex_decode_def hex_pairs_encode)

text \<open>
  The hex reader takes a signed pair: a plus sign and one digit stand for a byte, so a header that is
  not hexadecimal is accepted when the tag has a small byte.
\<close>

lemma signed_hex_accepted: "hex_decode ''+f+0'' = Some [CHR 0x0F, CHR 0x00]"
  by code_simp

lemma registry_verified_needs_signature:
  "report_passed (verify_entry sha mac entry bytes sig key) \<Longrightarrow> rg_tier entry = Verified \<Longrightarrow>
     eq_ignore_ascii_case (sha bytes) (rg_sha256 entry) \<and>
     (\<exists>k s. key = Some k \<and> sig = Some s \<and> hex_decode (trim s) = Some (mac k bytes))"
  by (auto simp: report_passed_def verify_entry_def verify_hmac_sha256_hex_def split: option.splits if_splits)

section \<open>Writes keep labels\<close>

lemma upsert_facts_keep:
  "upsert_facts now fresh i ws db = (r, db') \<Longrightarrow>
     fact_label ` set (db_facts db') \<subseteq> fact_label ` set (db_facts db) \<union> write_label ` set ws \<and> db_chunks db' = db_chunks db"
proof (induction ws arbitrary: i db r)
  case (Cons w ws)
  show ?case
  proof (cases "upsert_fact now (fresh i) w db")
    case (Inl e)
    with Cons.prems show ?thesis by auto
  next
    case (Inr x)
    obtain oc db1 where x: "upsert_fact now (fresh i) w db = Inr (oc, db1)" using Inr by (cases x) auto
    from Cons.prems x obtain r1 where "upsert_facts now fresh (Suc i) ws db1 = (r1, db')"
      by (auto split: prod.splits sum.splits)
    note tail = Cons.IH [OF this]
    from subset_chain [OF conjunct1 [OF tail] upsert_fact_labels [OF x]] conjunct2 [OF tail] upsert_fact_tables [OF x]
    show ?thesis by (simp add: same_tables_def)
  qed
qed simp

section \<open>Chunk labels\<close>

definition chunk_write_label :: "chunk_write \<Rightarrow> episode_id \<times> principal_token list \<times> confidentiality \<times> acl_provenance \<times> string list \<times> episode_id list" where
  "chunk_write_label c = (cw_provenance c, cw_visibility c, cw_confidentiality c, cw_acl_provenance c, cw_entity_tags c, cw_derived_from c)"

lemma chunk_label_row [simp]: "chunk_label (chunk_row_of i c) = chunk_write_label c"
  by (simp add: chunk_label_def chunk_write_label_def chunk_row_of_def)

lemma close_keeps_labels: "chunk_label ` set (update_where P (close_chunk t) rows) = chunk_label ` set rows"
  using update_where_keeps [of P chunk_label "close_chunk t" rows] by (metis chunk_label_close list.set_map)

lemma upsert_chunk_labels:
  assumes "upsert_chunk i c db = Inr (n, db')"
  shows "chunk_label ` set (db_chunks db') \<subseteq> chunk_label ` set (db_chunks db) \<union> {chunk_write_label c} \<and>
    db_facts db' = db_facts db \<and> db_tenants db' = db_tenants db \<and> db_episodes db' = db_episodes db"
proof -
  let ?rows = "update_where (\<lambda>r. of_document (cw_tenant_id c) (cw_source c) (cw_document_id c) r \<and>
      ch_seq r = cw_seq c \<and> chunk_current r \<and> ch_valid_from r < cw_valid_from c)
    (close_chunk (cw_valid_from c)) (db_chunks db)"
  have "db_chunks db' = ?rows \<or> db_chunks db' = ?rows @ [chunk_row_of i c]"
    and other: "db_facts db' = db_facts db \<and> db_tenants db' = db_tenants db \<and> db_episodes db' = db_episodes db"
    using assms by (auto simp: upsert_chunk_def insert_chunk_row_def split: if_splits)
  then have "chunk_label ` set (db_chunks db') \<subseteq> chunk_label ` set ?rows \<union> {chunk_write_label c}"
    by (elim disjE) (simp_all add: subset_insertI)
  then show ?thesis using other unfolding close_keeps_labels by simp
qed

lemma upsert_chunk_loop_labels:
  "upsert_chunk_loop fresh i cs k db = Inr (n, db') \<Longrightarrow>
     chunk_label ` set (db_chunks db') \<subseteq> chunk_label ` set (db_chunks db) \<union> chunk_write_label ` set cs \<and> db_facts db' = db_facts db"
proof (induction fresh i cs k db rule: upsert_chunk_loop.induct)
  case (2 fresh i c cs k db)
  from 2(2) obtain m db1 where st: "upsert_chunk (fresh i) c db = Inr (m, db1)"
    "upsert_chunk_loop fresh (Suc i) cs (k + m) db1 = Inr (n, db')" by (auto simp: and_then_Inr)
  note tail = 2(1) [OF st(2)] and head = upsert_chunk_labels [OF st(1)]
  from subset_chain [OF conjunct1 [OF tail] conjunct1 [OF head]] conjunct2 [OF tail] head show ?case by simp
qed simp

lemma upsert_chunks_labels:
  assumes "upsert_chunks fresh cs db = Inr (n, db')"
  shows "chunk_label ` set (db_chunks db') \<subseteq> chunk_label ` set (db_chunks db) \<union> chunk_write_label ` set cs \<and> db_facts db' = db_facts db"
  using assms
proof (rule upsert_chunks_Inr)
  fix db1
  assume loop: "upsert_chunk_loop fresh 0 cs 0 db = Inr (n, db1)"
    and rows: "db_chunks db' = snd (close_tails (tails_of cs) (db_chunks db1))" "db_facts db' = db_facts db1"
  have "chunk_label ` set (db_chunks db') = chunk_label ` set (db_chunks db1)"
    unfolding rows(1) using close_tails_keeps [of chunk_label] by (metis chunk_label_close list.set_map)
  with upsert_chunk_loop_labels [OF loop] rows(2) show ?thesis by simp
qed

section \<open>What a native delivery writes\<close>

lemma native_entities_within:
  "native_entities hook native = Inr entities \<Longrightarrow> wh_entity_scope hook \<noteq> [] \<Longrightarrow>
     entities \<noteq> [] \<and> set entities \<subseteq> set (wh_entity_scope hook)"
  by (auto simp: native_entities_def list_all_iff split: if_splits)

lemma native_visibility_within:
  "native_visibility hook native = Inr vis \<Longrightarrow> set vis \<subseteq> set (wh_visibility hook)"
  by (auto simp: native_visibility_def list_all_iff split: option.splits if_splits)

lemma quarantine_keeps:
  "quarantine qid hook payload reason st = (r, st') \<Longrightarrow>
     is_server st' = is_server st \<and> is_manifests st' = is_manifests st \<and> is_webhooks st' = is_webhooks st \<and>
     (\<forall>eid c f. r \<noteq> Inr (Ingested eid c f))"
  by (auto simp: quarantine_def split: if_splits)

lemma native_post_Ingested:
  assumes "native_post env now ids hook body st = (Inr (Ingested eid c f), st')"
  obtains raw native content vis entities where "native_visibility hook native = Inr vis"
    "native_entities hook native = Inr entities"
    "native_write env now ids hook raw native content vis entities st = (Inr (Ingested eid c f), st')"
proof -
  have "quarantine q hook p r st \<noteq> (Inr (Ingested eid c f), st')" for q p r
    using quarantine_keeps by blast
  with assms show thesis
    by (auto simp: native_post_def Let_def split: option.splits if_splits sum.splits intro: that)
qed

lemma native_write_labels:
  assumes w: "native_write env now ids hook raw native content vis entities st = (Inr (Ingested eid n f), st')"
    and ok: "chunks_ok (sv_db (is_server st))" "facts_ok (sv_db (is_server st))"
  shows "c \<in> set (db_chunks (sv_db (is_server st'))) \<Longrightarrow> ch_provenance c = eid \<Longrightarrow>
      chunk_label c = (eid, vis, wh_confidentiality hook, AdminAssigned, entities, [])"
    and "r \<in> set (db_facts (sv_db (is_server st'))) \<Longrightarrow> fr_provenance r = eid \<Longrightarrow>
      fact_label r = (eid, wh_tenant_id hook, vis, wh_confidentiality hook, AdminAssigned)"
proof -
  let ?db = "sv_db (is_server st)" and ?ws = "map (native_fact_write now hook eid vis) (np_facts native)"
  from w obtain db1 where ep: "insert_episode_tx now eid (native_episode env hook raw entities) ?db = Inr db1" and eid: "eid = id_episode ids"
    by (auto simp: native_write_def Let_def split: sum.splits option.splits prod.splits)
  with w obtain db2 where ch: "(case content of None \<Rightarrow> Inr (0, db1)
      | Some c \<Rightarrow> upsert_chunks (id_chunk ids) [native_chunk env now hook eid c vis entities] db1) = Inr (n, db2)"
    and fa: "upsert_facts now (id_fact ids) 0 ?ws db2 = (Inr f, sv_db (is_server st'))"
    by (auto simp: native_write_def Let_def sampled_def record_sample_def set_db_def split: sum.splits prod.splits)
  from ep have db1: "db_chunks db1 = db_chunks ?db" "db_facts db1 = db_facts ?db" and fresh: "eid \<notin> ep_id ` set (db_episodes ?db)"
    by (auto simp: insert_episode_tx_def split: if_splits)
  have old: "ch_provenance c \<noteq> eid" if "c \<in> set (db_chunks ?db)" for c
    using ok(1) fresh that by (auto simp: chunks_ok_def list_all_iff)
  have old_fact: "fr_provenance r \<noteq> eid" if "r \<in> set (db_facts ?db)" for r
    using ok(2) fresh that by (auto simp: facts_ok_def list_all_iff)
  have ch2: "chunk_label ` set (db_chunks db2) \<subseteq> chunk_label ` set (db_chunks ?db) \<union>
      {(eid, vis, wh_confidentiality hook, AdminAssigned, entities, [])} \<and> db_facts db2 = db_facts ?db"
  proof (cases content)
    case None
    with ch db1 show ?thesis by auto
  next
    case (Some x)
    with ch have "upsert_chunks (id_chunk ids) [native_chunk env now hook eid x vis entities] db1 = Inr (n, db2)" by simp
    from upsert_chunks_labels [OF this] db1 show ?thesis by (simp add: chunk_write_label_def native_chunk_def)
  qed
  show "chunk_label c = (eid, vis, wh_confidentiality hook, AdminAssigned, entities, [])"
    if "c \<in> set (db_chunks (sv_db (is_server st')))" "ch_provenance c = eid"
  proof -
    have "chunk_label c \<in> chunk_label ` set (db_chunks db2)" using that(1) upsert_facts_keep [OF fa] by simp
    with ch2 have "chunk_label c \<in> chunk_label ` set (db_chunks ?db) \<or>
        chunk_label c = (eid, vis, wh_confidentiality hook, AdminAssigned, entities, [])" by blast
    moreover have "chunk_label c \<notin> chunk_label ` set (db_chunks ?db)"
      using old that(2) by (metis chunk_label_def fst_conv imageE)
    ultimately show ?thesis by blast
  qed
  show "fact_label r = (eid, wh_tenant_id hook, vis, wh_confidentiality hook, AdminAssigned)"
    if r: "r \<in> set (db_facts (sv_db (is_server st')))" "fr_provenance r = eid"
  proof -
    have "fact_label r \<in> fact_label ` set (db_facts ?db) \<union> write_label ` set ?ws"
      using upsert_facts_keep [OF fa] r(1) ch2 by auto
    moreover have "fact_label r \<notin> fact_label ` set (db_facts ?db)"
      using old_fact r(2) by (metis fact_label_def fst_conv imageE)
    ultimately show ?thesis by (auto simp: write_label_def native_fact_write_def)
  qed
qed

section \<open>Runs of the routes\<close>

text \<open>
  The ledger of approvals runs beside the state: for each manifest the text that was before the approver
  at its last activation and who approved it. An accepted upload under a manifest's name voids the
  entry, so an entry speaks of the text uploaded last.
\<close>

type_synonym approvals = "uuid \<rightharpoonup> string \<times> string"

definition text_of :: "uuid \<Rightarrow> ingest_state \<Rightarrow> string option" where
  "text_of mid st = map_option mn_yaml (List.find (\<lambda>r. mn_id r = mid) (is_manifests st))"

inductive ingest_step :: "ingest_env \<Rightarrow> ingest_state \<times> approvals \<Rightarrow> ingest_state \<times> approvals \<Rightarrow> bool" for env where
  mint: "mint_webhook env wid token req st = (r, st') \<Longrightarrow> ingest_step env (st, l) (st', l)"
| revoke: "revoke_webhook now wid st = (b, st') \<Longrightarrow> ingest_step env (st, l) (st', l)"
| upload: "upload_manifest env mid t yaml st = Some (Inr i, st') \<Longrightarrow> ingest_step env (st, l) (st', l(i := None))"
| upload_refused: "upload_manifest env mid t yaml st = Some (Inl e, st') \<Longrightarrow> ingest_step env (st, l) (st', l)"
| activate: "activate_manifest env summary mid t by_whom st = Some (Inr i, st') \<Longrightarrow>
    ingest_step env (st, l) (st', l(i := map_option (\<lambda>yaml. (yaml, trim by_whom)) (text_of i st)))"
| activate_refused: "activate_manifest env summary mid t by_whom st = Some (Inl e, st') \<Longrightarrow> ingest_step env (st, l) (st', l)"
| post: "webhook_post env now ids token headers body st = Some (a, st') \<Longrightarrow> ingest_step env (st, l) (st', l)"

definition approved :: "ingest_env \<Rightarrow> approvals \<Rightarrow> manifest_row \<Rightarrow> bool" where
  "approved env l r \<longleftrightarrow> (\<exists>m a. from_yaml (ig_yaml env) (mn_yaml r) = Some (Inr m) \<and> activation_check m = Inr () \<and>
     mn_approved_by r = Some a \<and> a \<noteq> [] \<and> l (mn_id r) = Some (mn_yaml r, a))"

definition gate_ok :: "ingest_env \<Rightarrow> ingest_state \<times> approvals \<Rightarrow> bool" where
  "gate_ok env s = (case s of (st, l) \<Rightarrow> distinct (map mn_id (is_manifests st)) \<and>
     (\<forall>r \<in> set (is_manifests st). mn_status r = ''active'' \<longrightarrow> approved env l r))"

lemma gate_ok_manifests: "is_manifests st' = is_manifests st \<Longrightarrow> gate_ok env (st, l) \<Longrightarrow> gate_ok env (st', l)"
  by (simp add: gate_ok_def)

lemma manifest_write_keeps:
  "manifest_write env now ids hook payload source writes acl st = (r, st') \<Longrightarrow> is_manifests st' = is_manifests st"
  by (auto simp: manifest_write_def Let_def set_db_def sampled_def split: prod.splits sum.splits if_splits)

lemma native_write_keeps:
  "native_write env now ids hook raw native content vis entities st = (r, st') \<Longrightarrow> is_manifests st' = is_manifests st"
  by (auto simp: native_write_def Let_def set_db_def sampled_def split: prod.splits sum.splits)

lemma native_post_keeps:
  assumes "native_post env now ids hook body st = (r, st')" shows "is_manifests st' = is_manifests st"
proof -
  have "is_manifests st' = is_manifests st" if "quarantine q hook p h st = (r, st')" for q p h
    using quarantine_keeps [OF that] by blast
  with assms show ?thesis
    by (auto simp: native_post_def Let_def split: option.splits if_splits sum.splits intro: native_write_keeps)
qed

lemma check_signature_keeps:
  assumes "check_signature env ids hook headers body m st = (r, st')"
  shows "is_manifests st' = is_manifests st"
proof -
  have "is_manifests (snd (quarantine q hook p h st)) = is_manifests st" for q p h
    using quarantine_keeps [of q hook p h st] by (cases "quarantine q hook p h st") auto
  then have "is_manifests x = is_manifests st" if "quarantine q hook p h st = (y, x)" for q p h x y
    using that by (metis snd_conv)
  with assms show ?thesis
    by (auto simp: check_signature_def split: option.splits prod.splits sum.splits if_splits)
qed

text \<open>A delivery that ingests went through every gate in order.\<close>

lemma deliver_cases:
  assumes "deliver env now ids hook mid headers body st = Some (r, st')"
  obtains (held) q p h st1 where "is_manifests st1 = is_manifests st" "quarantine q hook p h st1 = (r, st')"
    | (refused) "is_manifests st' = is_manifests st" "r = Inr Held \<or> (\<exists>e. r = Inl e)"
    | (wrote) row m payload source writes acl st1 where "row \<in> set (is_manifests st)" "mn_id row = mid"
      "from_yaml (ig_yaml env) (mn_yaml row) = Some (Inr m)"
      "check_signature env ids hook headers body m st = (Inr (Some ()), st1)" "mn_status row = ''active''"
      "ig_json env body = Some payload" "apply_manifest (ig_runtime env) now m payload = Some (Writes source writes acl)"
      "manifest_write env now ids hook payload source writes acl st1 = (r, st')"
proof (cases "List.find (\<lambda>r. mn_id r = mid) (is_manifests st)")
  case None
  with assms show thesis by (intro held [of st]) (simp_all add: deliver_def)
next
  case (Some row)
  then have row: "row \<in> set (is_manifests st)" "mn_id row = mid" by (auto simp: find_Some_iff)
  show thesis
  proof (cases "\<exists>m. from_yaml (ig_yaml env) (mn_yaml row) = Some (Inr m)")
    case False
    with assms Some obtain e where "from_yaml (ig_yaml env) (mn_yaml row) = Some (Inl e)"
      by (auto simp: deliver_def split: option.splits sum.splits)
    with assms Some show thesis by (intro held [of st]) (simp_all add: deliver_def)
  next
    case True
    then obtain m where m: "from_yaml (ig_yaml env) (mn_yaml row) = Some (Inr m)" by blast
    obtain c st1 where c: "check_signature env ids hook headers body m st = (c, st1)" by fastforce
    note keeps = check_signature_keeps [OF c]
    consider (bad) "c = Inr None \<or> (\<exists>e. c = Inl e)" | (good) "c = Inr (Some ())"
      by (cases c) (auto simp: option.the_def split: option.splits, metis option.exhaust old.unit.exhaust)
    then show thesis
    proof cases
      case bad
      with assms Some m c keeps show thesis by (intro refused) (auto simp: deliver_def)
    next
      case good
      note run = assms [unfolded deliver_def Some m option.case sum.case c good prod.case]
      show thesis
      proof (cases "mn_status row = ''active''")
        case False
        with run keeps show thesis by (intro held [of st1]) simp_all
      next
        case True
        note active = this
        show thesis
        proof (cases "ig_json env body")
          case None
          with run active keeps show thesis by (intro held [of st1]) simp_all
        next
          case (Some payload)
          with run active obtain x where x: "apply_manifest (ig_runtime env) now m payload = Some x"
            by (auto split: option.splits)
          show thesis
          proof (cases x)
            case (Quarantine reason)
            with run active Some x keeps show thesis by (intro held [of st1]) simp_all
          next
            case (Writes source writes acl)
            with run active Some x wrote [OF row m c [unfolded good] active Some] show thesis by simp
          qed
        qed
      qed
    qed
  qed
qed

lemma deliver_keeps: "deliver env now ids hook mid headers body st = Some (r, st') \<Longrightarrow> is_manifests st' = is_manifests st"
proof (erule deliver_cases)
  fix q p h st1
  assume "is_manifests st1 = is_manifests st" "quarantine q hook p h st1 = (r, st')"
  then show ?thesis using quarantine_keeps by fastforce
next
  fix m payload source writes acl st1
  assume "check_signature env ids hook headers body m st = (Inr (Some ()), st1)"
    "manifest_write env now ids hook payload source writes acl st1 = (r, st')"
  then show ?thesis using check_signature_keeps manifest_write_keeps by metis
qed

lemma webhook_post_keeps:
  "webhook_post env now ids token headers body st = Some (a, st') \<Longrightarrow> is_manifests st' = is_manifests st"
  by (auto simp: webhook_post_def split: option.splits intro: deliver_keeps native_post_keeps)

lemma gate_ok_draft:
  assumes "gate_ok env (st, l)" "map mn_id (is_manifests st') = map mn_id (is_manifests st)"
    and "\<And>r. r \<in> set (is_manifests st') \<Longrightarrow> mn_status r = ''active'' \<Longrightarrow> r \<in> set (is_manifests st) \<and> mn_id r \<noteq> i"
  shows "gate_ok env (st', l(i := None))"
  using assms by (simp add: gate_ok_def approved_def)

lemma gate_ok_upload:
  assumes "upload_manifest env mid t yaml st = Some (Inr i, st')" "gate_ok env (st, l)"
  shows "gate_ok env (st', l(i := None))"
proof -
  obtain m where m: "from_yaml (ig_yaml env) yaml = Some (Inr m)"
    using assms(1) by (auto simp: upload_manifest_def split: option.splits sum.splits)
  let ?same = "\<lambda>r. mn_tenant_id r = t \<and> mn_name r = so_name (mf_source m)"
  consider (replace) x where "List.find ?same (is_manifests st) = Some x" "i = mn_id x"
      "is_manifests st' = update_where ?same (\<lambda>r. r\<lparr>mn_yaml := yaml, mn_status := ''draft'', mn_approved_by := None\<rparr>) (is_manifests st)"
    | (fresh) x where "mn_status x = ''draft''" "mn_id x = i" "i \<notin> mn_id ` set (is_manifests st)" "is_manifests st' = is_manifests st @ [x]"
    using assms(1) m by (fastforce simp: upload_manifest_def Let_def split: option.splits if_splits)
  then show ?thesis
  proof cases
    case (replace x)
    then have x: "x \<in> set (is_manifests st)" "?same x" by (auto simp: find_Some_iff)
    have d: "distinct (map mn_id (is_manifests st))" using assms(2) by (simp add: gate_ok_def)
    show ?thesis
    proof (rule gate_ok_draft [OF assms(2)])
      show "map mn_id (is_manifests st') = map mn_id (is_manifests st)" unfolding replace(3) by (rule update_where_keeps) simp
      fix r assume r: "r \<in> set (is_manifests st')" "mn_status r = ''active''"
      from r(1) obtain q where q: "q \<in> set (is_manifests st)"
        "r = (if ?same q then q\<lparr>mn_yaml := yaml, mn_status := ''draft'', mn_approved_by := None\<rparr> else q)"
        unfolding replace(3) update_where_def by auto
      with r(2) have "\<not> ?same q" by (auto split: if_splits)
      with q have old: "r \<in> set (is_manifests st)" "\<not> ?same r" by simp_all
      moreover have "mn_id r \<noteq> i"
        using d old x unfolding replace(2) by (metis distinct_map inj_onD)
      ultimately show "r \<in> set (is_manifests st) \<and> mn_id r \<noteq> i" by blast
    qed
  next
    case (fresh x)
    have "mn_id r \<noteq> i" if "r \<in> set (is_manifests st)" for r using that fresh(3) by auto
    with fresh assms(2) show ?thesis by (auto simp: gate_ok_def approved_def)
  qed
qed

lemma gate_ok_activate:
  assumes "activate_manifest env summary mid t by_whom st = Some (Inr i, st')" "gate_ok env (st, l)"
  shows "gate_ok env (st', l(i := map_option (\<lambda>yaml. (yaml, trim by_whom)) (text_of i st)))"
proof -
  from assms(1) obtain row m where row: "List.find (\<lambda>r. mn_id r = mid \<and> mn_tenant_id r = t) (is_manifests st) = Some row"
    "from_yaml (ig_yaml env) (mn_yaml row) = Some (Inr m)" "activation_check m = Inr ()" "trim by_whom \<noteq> []" "i = mid"
    and upd: "is_manifests st' = update_where (\<lambda>r. mn_id r = mid)
       (\<lambda>r. r\<lparr>mn_status := ''active'', mn_approved_by := Some (trim by_whom)\<rparr>) (is_manifests st)"
    by (auto simp: activate_manifest_def activation_gate_def activation_commit_def Let_def split: option.splits sum.splits if_splits)
  have ids: "map mn_id (is_manifests st') = map mn_id (is_manifests st)" unfolding upd by (rule update_where_keeps) simp
  have row_in: "row \<in> set (is_manifests st)" "mn_id row = mid" using row(1) by (auto simp: find_Some_iff)
  have uniq: "x = row" if "x \<in> set (is_manifests st)" "mn_id x = mid" for x
    using that row_in assms(2) by (auto simp: gate_ok_def distinct_map dest: inj_onD)
  have "\<exists>x. List.find (\<lambda>r. mn_id r = mid) (is_manifests st) = Some x"
    using row_in by (cases "List.find (\<lambda>r. mn_id r = mid) (is_manifests st)") (auto simp: find_None_iff)
  then obtain x where x: "List.find (\<lambda>r. mn_id r = mid) (is_manifests st) = Some x" by blast
  then have "x = row" by (intro uniq) (auto simp: find_Some_iff)
  with x have tx: "text_of mid st = Some (mn_yaml row)" by (simp add: text_of_def)
  show ?thesis unfolding gate_ok_def prod.case
  proof (intro conjI ballI impI)
    show "distinct (map mn_id (is_manifests st'))" using assms(2) by (simp add: ids gate_ok_def)
    fix r assume r: "r \<in> set (is_manifests st')" "mn_status r = ''active''"
    show "approved env (l(i := map_option (\<lambda>yaml. (yaml, trim by_whom)) (text_of i st))) r"
    proof (cases "mn_id r = mid")
      case True
      with r(1) have "r = row\<lparr>mn_status := ''active'', mn_approved_by := Some (trim by_whom)\<rparr>"
        using uniq by (auto simp: upd update_where_def split: if_splits)
      then show ?thesis using row row_in(2) by (simp add: approved_def tx)
    next
      case False
      with r(1) have "r \<in> set (is_manifests st)" by (auto simp: upd update_where_def split: if_splits)
      with False assms(2) r(2) row(5) show ?thesis by (simp add: gate_ok_def approved_def)
    qed
  qed
qed

lemma refused_manifests:
  "upload_manifest env mid t yaml st = Some (Inl e, st') \<Longrightarrow> st' = st"
  "activate_manifest env summary mid t by_whom st = Some (Inl e, st') \<Longrightarrow> st' = st"
  by (auto simp: upload_manifest_def activate_manifest_def Let_def split: option.splits sum.splits if_splits)

lemma gate_ok_step: "ingest_step env s s' \<Longrightarrow> gate_ok env s \<Longrightarrow> gate_ok env s'"
proof (induction rule: ingest_step.induct)
  case (mint wid token req st r st' l)
  then have "is_manifests st' = is_manifests st" by (auto simp: mint_webhook_def split: if_splits)
  then show ?case using mint.prems by (rule gate_ok_manifests)
next
  case (revoke now wid st b st' l)
  then have "is_manifests st' = is_manifests st" by (auto simp: revoke_webhook_def Let_def)
  then show ?case using revoke.prems by (rule gate_ok_manifests)
next
  case (post now ids token headers body st a st' l)
  from webhook_post_keeps [OF post.hyps] post.prems show ?case by (rule gate_ok_manifests)
next
  case (upload_refused mid t yaml st e st' l)
  then show ?case using refused_manifests(1) by metis
next
  case (activate_refused summary mid t by_whom st e st' l)
  then show ?case using refused_manifests(2) by metis
qed (erule (1) gate_ok_upload gate_ok_activate)+

lemma gate_ok_run: "(ingest_step env)\<^sup>*\<^sup>* s s' \<Longrightarrow> gate_ok env s \<Longrightarrow> gate_ok env s'"
  by (induction rule: rtranclp_induct) (auto intro: gate_ok_step)

section \<open>Sample lane\<close>

definition sample_native :: native_payload where
  "sample_native = \<lparr>np_content = Some ''renewal signed'', np_observation = None, np_entities = [],
     np_facts = [\<lparr>nf_source = ''crm'', nf_entity_id = ''beta'', nf_field = ''stage'', nf_value = JString ''lost'', nf_valid_from = None\<rparr>],
     np_visibility = None\<rparr>"

definition sample_ingest_env :: ingest_env where
  "sample_ingest_env = \<lparr>ig_server = sample_env, ig_runtime = sample_runtime, ig_yaml = (\<lambda>_. Inr sample_manifest),
     ig_json = (\<lambda>_. Some sample_inbound), ig_native = (\<lambda>_. Some sample_native), ig_mac = (\<lambda>k m. k @ m),
     ig_getenv = (\<lambda>_. None), ig_token_hash = (\<lambda>t. t)\<rparr>"

definition sample_hook :: "uuid option \<Rightarrow> webhook_row" where
  "sample_hook mid = \<lparr>wr_id = 70, wr_tenant_id = 1, wr_name = ''partner'', wr_token_hash = ''t'', wr_visibility = [5],
     wr_entity_scope = [''acme''], wr_confidentiality = 1, wr_manifest_id = mid, wr_revoked_at = None\<rparr>"

definition sample_fact_of_beta :: fact_row where
  "sample_fact_of_beta = \<lparr>fr_id = 900, fr_tenant_id = 1, fr_key = \<lparr>fk_source = ''crm'', fk_entity_id = ''beta'', fk_field = ''stage''\<rparr>,
     fr_value = JString ''won'', fr_valid_from = 5, fr_valid_to = None, fr_superseded_by = None, fr_recorded_at = 5,
     fr_visibility = [9], fr_confidentiality = Internal, fr_provenance = 11, fr_acl_provenance = Mirrored\<rparr>"

definition sample_ingest :: "uuid option \<Rightarrow> ingest_state" where
  "sample_ingest mid = \<lparr>is_server = sample_state\<lparr>sv_db := sample_chunks_db\<lparr>db_facts := [sample_fact_of_beta]\<rparr>\<rparr>,
     is_manifests = [], is_webhooks = [sample_hook mid], is_quarantine = [], is_dirty = []\<rparr>"

definition sample_ids :: request_ids where
  "sample_ids = \<lparr>id_quarantine = 80, id_episode = 50, id_fact = (\<lambda>i. i + 1000), id_chunk = (\<lambda>i. i + 100)\<rparr>"

section \<open>Properties\<close>

text \<open>
  C37: A native webhook payload narrows the minted binding and never widens it: every chunk and fact
  of the delivery's episode is readable by bound principals only, at the bound class, and in an
  entity-bound webhook the chunk carries tags, all inside the binding.
\<close>

theorem webhook_post_within_binding:
  assumes post: "webhook_post env now ids token headers body st = Some (Inr (Ingested eid n f), st')"
    and hook: "List.find (\<lambda>r. wr_token_hash r = ig_token_hash env token \<and> wr_revoked_at r = None) (is_webhooks st) = Some r"
      "wr_manifest_id r = None"
    and ok: "chunks_ok (sv_db (is_server st))" "facts_ok (sv_db (is_server st))"
  shows "(\<forall>c \<in> set (db_chunks (sv_db (is_server st'))). ch_provenance c = eid \<longrightarrow>
       set (ch_visibility c) \<subseteq> set (wr_visibility r) \<and> ch_confidentiality c = conf_from_i16 (wr_confidentiality r) \<and>
       (wr_entity_scope r \<noteq> [] \<longrightarrow> ch_entity_tags c \<noteq> [] \<and> set (ch_entity_tags c) \<subseteq> set (wr_entity_scope r))) \<and>
    (\<forall>x \<in> set (db_facts (sv_db (is_server st'))). fr_provenance x = eid \<longrightarrow>
       fr_tenant_id x = wr_tenant_id r \<and> set (fr_visibility x) \<subseteq> set (wr_visibility r) \<and>
       fr_confidentiality x = conf_from_i16 (wr_confidentiality r))"
proof -
  from post hook have "native_post env now ids (hook_of r) body st = (Inr (Ingested eid n f), st')"
    by (simp add: webhook_post_def hook_of_def)
  then obtain raw native content vis entities where nv: "native_visibility (hook_of r) native = Inr vis"
    and ne: "native_entities (hook_of r) native = Inr entities"
    and w: "native_write env now ids (hook_of r) raw native content vis entities st = (Inr (Ingested eid n f), st')"
    by (rule native_post_Ingested)
  note lab = native_write_labels [OF w ok]
  have "ch_visibility c = vis \<and> ch_confidentiality c = conf_from_i16 (wr_confidentiality r) \<and> ch_entity_tags c = entities"
    if "c \<in> set (db_chunks (sv_db (is_server st')))" "ch_provenance c = eid" for c
    using lab(1) [OF that] by (simp add: chunk_label_def hook_of_def)
  moreover have "fr_tenant_id x = wr_tenant_id r \<and> fr_visibility x = vis \<and> fr_confidentiality x = conf_from_i16 (wr_confidentiality r)"
    if "x \<in> set (db_facts (sv_db (is_server st')))" "fr_provenance x = eid" for x
    using lab(2) [OF that] by (simp add: fact_label_def hook_of_def)
  moreover have "set vis \<subseteq> set (wr_visibility r)" using native_visibility_within [OF nv] by (simp add: hook_of_def)
  moreover have "wr_entity_scope r \<noteq> [] \<Longrightarrow> entities \<noteq> [] \<and> set entities \<subseteq> set (wr_entity_scope r)"
    using native_entities_within [OF ne] by (simp add: hook_of_def)
  ultimately show ?thesis by (intro conjI ballI impI) simp_all
qed

theorem webhook_post_within_binding_witness:
  "case webhook_post sample_ingest_env 20 sample_ids ''t'' (\<lambda>_. None) ''{}'' (sample_ingest None) of
     Some (Inr (Ingested eid _ _), st') \<Rightarrow>
       (\<forall>c \<in> set (db_chunks (sv_db (is_server st'))). ch_provenance c = eid \<longrightarrow> set (ch_visibility c) \<subseteq> {5})
   | _ \<Rightarrow> False"
proof -
  let ?p = "webhook_post sample_ingest_env 20 sample_ids ''t'' (\<lambda>_. None) ''{}'' (sample_ingest None)"
  have "case ?p of Some (Inr (Ingested eid n f), st') \<Rightarrow> True | _ \<Rightarrow> False" by code_simp
  then obtain eid n f st' where p: "?p = Some (Inr (Ingested eid n f), st')"
    by (auto split: option.splits prod.splits sum.splits accepted.splits)
  have h: "List.find (\<lambda>r. wr_token_hash r = ig_token_hash sample_ingest_env ''t'' \<and> wr_revoked_at r = None)
      (is_webhooks (sample_ingest None)) = Some (sample_hook None)" by code_simp
  have ok: "chunks_ok (sv_db (is_server (sample_ingest None)))" "facts_ok (sv_db (is_server (sample_ingest None)))" by code_simp+
  have m: "wr_manifest_id (sample_hook None) = None" by (simp add: sample_hook_def)
  from webhook_post_within_binding [OF p h m ok] p show ?thesis by (simp add: sample_hook_def)
qed

text \<open>
  The entity binding does not bind facts: a webhook bound to one entity supersedes the stored fact
  of another entity under another source, and the replaced value is then readable by the webhook's
  audience and no longer by the fact's former one.
\<close>

theorem webhook_facts_escape_entity_scope:
  "wr_entity_scope (sample_hook None) = [''acme''] \<and>
   (case webhook_post sample_ingest_env 20 sample_ids ''t'' (\<lambda>_. None) ''{}'' (sample_ingest None) of
      Some (Inr _, st') \<Rightarrow>
        map_option (\<lambda>r. (fr_value r, fr_visibility r))
          (current_row 1 \<lparr>fk_source = ''crm'', fk_entity_id = ''beta'', fk_field = ''stage''\<rparr> (db_facts (sv_db (is_server st')))) =
        Some (JString ''lost'', [5])
    | _ \<Rightarrow> False)"
  by code_simp

text \<open>
  C36: Only approved manifests execute. In every state the manifest and webhook routes can reach, a
  delivery through a manifest-bound webhook that ingests anything did so under a stored manifest that
  is active, validates, passed the activation gate and was approved by a named person, and the text that
  executes is exactly the text that person approved: no upload to the manifest was accepted since, so a
  re-upload executes only after it has crossed the gate again. Where the manifest declares a signature
  - and only there is one asked for - the named header held the MAC of the body under the resolved secret.
  The routes run one at a time here: an upload that falls between the two statements of an activation
  escapes the gate (\<open>upload_during_activation_escapes_gate\<close>).
\<close>

theorem only_approved_manifests_execute:
  assumes run: "(ingest_step env)\<^sup>*\<^sup>* (st0, l0) (st, l)" "gate_ok env (st0, l0)"
    and post: "webhook_post env now ids token headers body st = Some (Inr (Ingested eid n f), st')"
    and hook: "List.find (\<lambda>r. wr_token_hash r = ig_token_hash env token \<and> wr_revoked_at r = None) (is_webhooks st) = Some r"
      "wr_manifest_id r = Some mid"
  shows "\<exists>row m who. row \<in> set (is_manifests st) \<and> mn_id row = mid \<and> mn_status row = ''active'' \<and>
    mn_approved_by row = Some who \<and> who \<noteq> [] \<and> l mid = Some (mn_yaml row, who) \<and>
    from_yaml (ig_yaml env) (mn_yaml row) = Some (Inr m) \<and> activation_check m = Inr () \<and>
    (\<exists>payload source writes acl. ig_json env body = Some payload \<and>
       apply_manifest (ig_runtime env) now m payload = Some (Writes source writes acl)) \<and>
    (\<forall>sig. Option.bind (so_webhook (mf_source m)) ws_signature = Some sig \<longrightarrow>
       (\<exists>secret h. resolve_secret_ref (ig_getenv env) (ss_secret_ref sig) = Some secret \<and> headers (ss_header sig) = Some h \<and>
          hex_decode (trim h) = Some (ig_mac env secret body)))"
proof -
  have gate: "gate_ok env (st, l)" by (rule gate_ok_run [OF run])
  from post hook have "deliver env now ids (hook_of r) mid headers body st = Some (Inr (Ingested eid n f), st')"
    by (simp add: webhook_post_def hook_of_def)
  then show ?thesis
  proof (cases rule: deliver_cases)
    case (held q p h st1)
    from quarantine_keeps [OF held(2)] show ?thesis by simp
  next
    case refused
    then show ?thesis by simp
  next
    case (wrote row m payload source writes acl st1)
    from gate wrote(1,5) have "approved env l row" by (simp add: gate_ok_def)
    with wrote(2,3) obtain who where who: "mn_approved_by row = Some who" "who \<noteq> []" "activation_check m = Inr ()"
      "l mid = Some (mn_yaml row, who)" by (auto simp: approved_def)
    have "\<exists>secret h. resolve_secret_ref (ig_getenv env) (ss_secret_ref sig) = Some secret \<and> headers (ss_header sig) = Some h \<and>
          hex_decode (trim h) = Some (ig_mac env secret body)"
      if "Option.bind (so_webhook (mf_source m)) ws_signature = Some sig" for sig
      using wrote(4) that
      by (auto simp: check_signature_def verify_hmac_sha256_hex_def split: option.splits prod.splits sum.splits if_splits)
    with wrote who show ?thesis by blast
  qed
qed

text \<open>The witness: a signed manifest is uploaded again, approved, and takes a delivery that carries the MAC.\<close>

definition signed_manifest :: manifest where
  "signed_manifest = sample_manifest\<lparr>mf_source := (mf_source sample_manifest)\<lparr>so_webhook := Some \<lparr>ws_signature =
     Some \<lparr>ss_scheme = HmacSha256, ss_header = ''x-sig'', ss_secret_ref = ''secret://hook''\<rparr>\<rparr>\<rparr>\<rparr>"

definition signed_env :: ingest_env where
  "signed_env = sample_ingest_env\<lparr>ig_yaml := (\<lambda>_. Inr signed_manifest), ig_getenv := (\<lambda>_. Some ''k'')\<rparr>"

definition signed_headers :: "string \<Rightarrow> string option" where
  "signed_headers h = (if h = ''x-sig'' then Some (hmac_sha256_hex (ig_mac signed_env) ''k'' ''{}'') else None)"

definition sample_bound :: ingest_state where
  "sample_bound = (sample_ingest (Some 60))\<lparr>is_manifests := [\<lparr>mn_id = 60, mn_tenant_id = 1, mn_name = ''linear'',
     mn_yaml = ''old'', mn_status = ''active'', mn_approved_by = Some ''eve''\<rparr>]\<rparr>"

definition sample_draft :: ingest_state where
  "sample_draft = sample_bound\<lparr>is_manifests := [\<lparr>mn_id = 60, mn_tenant_id = 1, mn_name = ''linear'',
     mn_yaml = ''y'', mn_status = ''draft'', mn_approved_by = None\<rparr>]\<rparr>"

definition sample_active :: ingest_state where
  "sample_active = sample_draft\<lparr>is_manifests := [\<lparr>mn_id = 60, mn_tenant_id = 1, mn_name = ''linear'',
     mn_yaml = ''y'', mn_status = ''active'', mn_approved_by = Some ''ann''\<rparr>],
     is_server := (is_server sample_draft)\<lparr>sv_audit := [activation_audit 1 ''ann'' [] 60]\<rparr>\<rparr>"

lemmas sample_lane_defs = sample_active_def sample_draft_def sample_bound_def sample_ingest_def sample_state_def

lemma signed_yaml: "length y \<le> 5 \<Longrightarrow> from_yaml (ig_yaml signed_env) y = Some (Inr signed_manifest)"
proof -
  have "manifest_validate signed_manifest = Some (Inr ())" by code_simp
  moreover assume "length y \<le> 5"
  ultimately show ?thesis by (simp add: from_yaml_def signed_env_def max_manifest_bytes_def)
qed

lemma signed_checks: "activation_check signed_manifest = Inr ()"
  by (simp add: activation_check_def signed_manifest_def sample_manifest_def sample_acl_policy_def ensure_def)

lemma sample_uploads: "upload_manifest signed_env 61 1 ''y'' sample_bound = Some (Inr 60, sample_draft)"
  using signed_yaml [of "''y''"]
  by (simp add: upload_manifest_def sample_lane_defs signed_manifest_def sample_manifest_def update_where_def Let_def
      sample_chunks_db_def sample_db_def)

lemma sample_activates: "activate_manifest signed_env (\<lambda>_ _. []) 60 1 '' ann '' sample_draft = Some (Inr 60, sample_active)"
proof -
  have "trim '' ann '' = ''ann''" by code_simp
  with signed_checks signed_yaml [of "''y''"] show ?thesis
    by (simp add: activate_manifest_def activation_gate_def activation_commit_def sample_lane_defs update_where_def Let_def)
qed

lemma sample_delivers:
  "\<exists>eid n f st'. webhook_post signed_env 0 sample_ids ''t'' signed_headers ''{}'' sample_active = Some (Inr (Ingested eid n f), st')"
proof -
  let ?w = "manifest_write signed_env 0 sample_ids (hook_of (sample_hook (Some 60))) sample_inbound ''linear'' [sample_issue]
    (MappedAcl [''user:ann'', ''user:bob''] False) sample_active"
  have "case ?w of (Inr (Ingested _ _ _), _) \<Rightarrow> True | _ \<Rightarrow> False" by code_simp
  then obtain eid n f st' where w: "?w = (Inr (Ingested eid n f), st')" by (auto split: prod.splits sum.splits accepted.splits)
  have env: "ig_runtime signed_env = sample_runtime" "ig_json signed_env ''{}'' = Some sample_inbound"
    "ig_token_hash signed_env ''t'' = ''t''" by (simp_all add: signed_env_def sample_ingest_env_def)
  have hooks: "is_webhooks sample_active = [sample_hook (Some 60)]" "wr_token_hash (sample_hook m) = ''t''"
    "wr_revoked_at (sample_hook m) = None" "wh_manifest_id (hook_of (sample_hook m)) = m" for m
    by (simp_all add: sample_lane_defs sample_hook_def hook_of_def)
  have man: "is_manifests sample_active = [\<lparr>mn_id = 60, mn_tenant_id = 1, mn_name = ''linear'',
     mn_yaml = ''y'', mn_status = ''active'', mn_approved_by = Some ''ann''\<rparr>]" by (simp add: sample_active_def)
  have "ig_mac signed_env ''k'' ''{}'' \<noteq> []" by (simp add: signed_env_def sample_ingest_env_def)
  from verify_hmac_roundtrip [of "ig_mac signed_env" "''k''" "''{}''", OF this]
  have v: "verify_hmac_sha256_hex (ig_mac signed_env) ''k'' ''{}'' (hmac_sha256_hex (ig_mac signed_env) ''k'' ''{}'')" .
  have "Option.bind (so_webhook (mf_source signed_manifest)) ws_signature =
      Some \<lparr>ss_scheme = HmacSha256, ss_header = ''x-sig'', ss_secret_ref = ''secret://hook''\<rparr>" by (simp add: signed_manifest_def)
  moreover have "resolve_secret_ref (ig_getenv signed_env) ''secret://hook'' = Some ''k''" by code_simp
  ultimately have sig: "check_signature signed_env sample_ids h signed_headers ''{}'' signed_manifest st = (Inr (Some ()), st)" for h st
    by (simp add: check_signature_def signed_headers_def v)
  have same: "mf_acl_policy signed_manifest = mf_acl_policy sample_manifest" "mf_entities signed_manifest = mf_entities sample_manifest"
    "so_name (mf_source signed_manifest) = so_name (mf_source sample_manifest)" by (simp_all add: signed_manifest_def)
  have "apply_manifest sample_runtime 0 signed_manifest sample_inbound = apply_manifest sample_runtime 0 sample_manifest sample_inbound"
    unfolding apply_manifest_def evaluate_acl_def same ..
  with w signed_yaml [of "''y''"] sample_applies show ?thesis by (simp add: webhook_post_def deliver_def hooks man env sig)
qed

theorem only_approved_manifests_execute_witness:
  "\<exists>row who secret h. row \<in> set (is_manifests sample_active) \<and> mn_status row = ''active'' \<and> mn_approved_by row = Some who \<and>
     mn_yaml row = ''y'' \<and> who = ''ann'' \<and> signed_headers ''x-sig'' = Some h \<and> hex_decode (trim h) = Some (ig_mac signed_env secret ''{}'')"
proof -
  let ?before = "[60 \<mapsto> (''old'', ''eve'')] :: approvals" and ?after = "[60 \<mapsto> (''y'', ''ann'')] :: approvals"
  have gate: "gate_ok signed_env (sample_bound, ?before)"
  proof -
    have "approved signed_env ?before \<lparr>mn_id = 60, mn_tenant_id = 1, mn_name = ''linear'',
        mn_yaml = ''old'', mn_status = ''active'', mn_approved_by = Some ''eve''\<rparr>"
      unfolding approved_def manifest_row.simps using signed_checks signed_yaml [of "''old''"]
      by (intro exI [of _ signed_manifest] exI [of _ "''eve''"] conjI) simp_all
    then show ?thesis by (simp add: gate_ok_def sample_bound_def)
  qed
  have tx: "text_of 60 sample_draft = Some ''y''" by (simp add: text_of_def sample_draft_def)
  have tr: "trim '' ann '' = ''ann''" by code_simp
  have "ingest_step signed_env (sample_bound, ?before) (sample_draft, ?before(60 := None))"
    by (rule ingest_step.upload [OF sample_uploads])
  moreover have "ingest_step signed_env (sample_draft, ?before(60 := None)) (sample_active, ?after)"
    using ingest_step.activate [OF sample_activates, of "?before(60 := None)"] by (simp add: tx tr)
  ultimately have run: "(ingest_step signed_env)\<^sup>*\<^sup>* (sample_bound, ?before) (sample_active, ?after)"
    by (meson rtranclp.rtrancl_into_rtrancl rtranclp.rtrancl_refl)
  have h: "List.find (\<lambda>r. wr_token_hash r = ig_token_hash signed_env ''t'' \<and> wr_revoked_at r = None)
      (is_webhooks sample_active) = Some (sample_hook (Some 60))" "wr_manifest_id (sample_hook (Some 60)) = Some 60"
    by (simp_all add: sample_lane_defs sample_hook_def signed_env_def sample_ingest_env_def)
  obtain eid n f st' where p: "webhook_post signed_env 0 sample_ids ''t'' signed_headers ''{}'' sample_active = Some (Inr (Ingested eid n f), st')"
    using sample_delivers by blast
  obtain row m who where row: "row \<in> set (is_manifests sample_active)" "mn_status row = ''active''" "mn_approved_by row = Some who"
      "?after 60 = Some (mn_yaml row, who)" "from_yaml (ig_yaml signed_env) (mn_yaml row) = Some (Inr m)"
    and sig: "\<And>sig. Option.bind (so_webhook (mf_source m)) ws_signature = Some sig \<Longrightarrow>
       \<exists>secret h. resolve_secret_ref (ig_getenv signed_env) (ss_secret_ref sig) = Some secret \<and> signed_headers (ss_header sig) = Some h \<and>
          hex_decode (trim h) = Some (ig_mac signed_env secret ''{}'')"
    using only_approved_manifests_execute [OF run gate p h] by blast
  from row(4) have y: "mn_yaml row = ''y''" "who = ''ann''" by simp_all
  with row(5) signed_yaml [of "''y''"] have m: "m = signed_manifest" by simp
  obtain secret hd where "signed_headers ''x-sig'' = Some hd" "hex_decode (trim hd) = Some (ig_mac signed_env secret ''{}'')"
    using sig [of "\<lparr>ss_scheme = HmacSha256, ss_header = ''x-sig'', ss_secret_ref = ''secret://hook''\<rparr>"]
    by (auto simp: m signed_manifest_def)
  with row(1-3) y show ?thesis by blast
qed

text \<open>
  The gap in the gate: activation checks the text it read and then activates the row by id, so a text
  uploaded between the two statements becomes active and approved, although the gate would refuse it.
\<close>

definition ungated_env :: ingest_env where
  "ungated_env = signed_env\<lparr>ig_yaml := (\<lambda>y. Inr (if y = ''z'' then signed_manifest\<lparr>mf_acl_policy := None\<rparr> else signed_manifest))\<rparr>"

lemma upload_during_activation_escapes_gate:
  "\<exists>name m st1. activation_gate ungated_env 60 1 sample_draft = Some (Inr (name, m)) \<and>
     upload_manifest ungated_env 61 1 ''z'' sample_draft = Some (Inr 60, st1) \<and>
     (\<exists>row m'. is_manifests (activation_commit [] 60 1 ''ann'' st1) = [row] \<and> mn_status row = ''active'' \<and>
        mn_approved_by row = Some ''ann'' \<and> from_yaml (ig_yaml ungated_env) (mn_yaml row) = Some (Inr m') \<and>
        activation_check m' = Inl (ActivationRefused NoAclPolicy))"
proof -
  let ?m = "signed_manifest\<lparr>mf_acl_policy := None\<rparr>"
  have "manifest_validate signed_manifest = Some (Inr ())" "manifest_validate ?m = Some (Inr ())" by code_simp+
  then have y: "from_yaml (ig_yaml ungated_env) ''y'' = Some (Inr signed_manifest)" "from_yaml (ig_yaml ungated_env) ''z'' = Some (Inr ?m)"
    by (simp_all add: from_yaml_def ungated_env_def max_manifest_bytes_def)
  have gate: "activation_gate ungated_env 60 1 sample_draft = Some (Inr (''linear'', signed_manifest))"
    using y(1) signed_checks by (simp add: activation_gate_def sample_lane_defs)
  have name: "so_name (mf_source ?m) = ''linear''" by (simp add: signed_manifest_def sample_manifest_def)
  let ?st1 = "sample_draft\<lparr>is_manifests := [\<lparr>mn_id = 60, mn_tenant_id = 1, mn_name = ''linear'',
     mn_yaml = ''z'', mn_status = ''draft'', mn_approved_by = None\<rparr>]\<rparr>"
  have up: "upload_manifest ungated_env 61 1 ''z'' sample_draft = Some (Inr 60, ?st1)"
    using y(2) name by (simp add: upload_manifest_def sample_lane_defs update_where_def Let_def sample_chunks_db_def sample_db_def)
  have "activation_check ?m = Inl (ActivationRefused NoAclPolicy)" by (simp add: activation_check_def)
  with gate up y(2) show ?thesis by (simp add: activation_commit_def update_where_def Let_def)
qed

end
