(* ===== verification/Rebac_Client.thy ===== *)
theory Rebac_Client
  imports Server_Scope
begin

text \<open>
  The SpiceDB client (\<^verbatim>\<open>crates/verity-server/src/rebac.rs\<close>): the unary and streaming gateway calls,
  the membership writes, the closure lookups and the roster read. The gateway is a parameter: a
  function of the path, the request body and SpiceDB's state \<open>'g\<close>, returning a transport error or a
  status and a body. So are the JSON codec, the text form of a uuid and the UTF-8 check.
\<close>

section \<open>The gateway\<close>

record 'g spicedb =
  sd_http :: "string \<Rightarrow> json \<Rightarrow> 'g \<Rightarrow> (string + nat \<times> string) \<times> 'g"
  sd_parse :: "string \<Rightarrow> string + json"
  sd_print :: "json \<Rightarrow> string"
  sd_uuid :: "uuid \<Rightarrow> string"
  sd_parse_uuid :: "string \<Rightarrow> uuid option"
  sd_utf8 :: "string \<Rightarrow> bool"

type_synonym ('g, 'a) rebac_result = "(rebac_error + 'a) \<times> 'g"

fun bind_r :: "('g, 'a) rebac_result \<Rightarrow> ('a \<Rightarrow> 'g \<Rightarrow> ('g, 'b) rebac_result) \<Rightarrow> ('g, 'b) rebac_result" where
  "bind_r (Inl e, g) f = (Inl e, g)"
| "bind_r (Inr a, g) f = f a g"

text \<open>\<^verbatim>\<open>value[key]\<close>: null when the value is no object or has no such key.\<close>

definition json_index :: "json \<Rightarrow> string \<Rightarrow> json" where
  "json_index v k = (case json_get v k of None \<Rightarrow> JNull | Some x \<Rightarrow> x)"

text \<open>\<^verbatim>\<open>str::lines\<close>: line feeds end lines, one carriage return before them is dropped.\<close>

definition strip_cr :: "string \<Rightarrow> string" where
  "strip_cr l = (if l \<noteq> [] \<and> last l = char_of (13 :: nat) then butlast l else l)"

definition str_lines :: "string \<Rightarrow> string list" where
  "str_lines s =
     (let ps = split_on (char_of (10 :: nat)) s
      in map strip_cr (butlast ps) @ (if last ps = [] then [] else [last ps]))"

definition is_success :: "nat \<Rightarrow> bool" where
  "is_success status \<longleftrightarrow> 200 \<le> status \<and> status < 300"

definition post_text :: "'g spicedb \<Rightarrow> string \<Rightarrow> json \<Rightarrow> 'g \<Rightarrow> ('g, string) rebac_result" where
  "post_text sd path body g =
     (case sd_http sd path body g of
        (Inl e, g') \<Rightarrow> (Inl (Transport e), g')
      | (Inr (status, reply), g') \<Rightarrow> if is_success status then (Inr reply, g') else (Inl (Api status reply), g'))"

definition post :: "'g spicedb \<Rightarrow> string \<Rightarrow> json \<Rightarrow> 'g \<Rightarrow> ('g, json) rebac_result" where
  "post sd path body g = bind_r (post_text sd path body g) (\<lambda>reply g'.
     (case sd_parse sd reply of Inl e \<Rightarrow> Inl (RebacMalformed e) | Inr v \<Rightarrow> Inr v, g'))"

definition health_ping :: "'g spicedb \<Rightarrow> 'g \<Rightarrow> ('g, unit) rebac_result" where
  "health_ping sd g = bind_r (post sd ''/v1/schema/read'' (JObject []) g) (\<lambda>_ g'. (Inr (), g'))"

fun stream_results :: "'g spicedb \<Rightarrow> string list \<Rightarrow> rebac_error + json list" where
  "stream_results sd [] = Inr []"
| "stream_results sd (l # ls) =
     (if trim l = [] then stream_results sd ls
      else case sd_parse sd l of
             Inl e \<Rightarrow> Inl (RebacMalformed (''bad stream line: '' @ e))
           | Inr v \<Rightarrow>
               (case json_get v ''error'' of
                  Some err \<Rightarrow> Inl (Api 200 (sd_print sd err))
                | None \<Rightarrow>
                    (case json_get v ''result'' of
                       None \<Rightarrow> Inl (RebacMalformed (''no result in line: '' @ sd_print sd v))
                     | Some r \<Rightarrow> and_then (stream_results sd ls) (\<lambda>rs. Inr (r # rs)))))"

definition post_stream :: "'g spicedb \<Rightarrow> string \<Rightarrow> json \<Rightarrow> 'g \<Rightarrow> ('g, json list) rebac_result" where
  "post_stream sd path body g =
     bind_r (post_text sd path body g) (\<lambda>reply g'. (stream_results sd (str_lines reply), g'))"

section \<open>Schema\<close>

definition schema_text :: string where
  "schema_text = ''definition user {}'' @ [char_of (10 :: nat), char_of (10 :: nat)] @ ''definition group {'' @
     [char_of (10 :: nat), char_of (9 :: nat)] @ ''relation member: user | group#member'' @
     [char_of (10 :: nat), char_of (9 :: nat)] @ ''permission membership = member'' @ [char_of (10 :: nat)] @ ''}''"

definition write_schema :: "'g spicedb \<Rightarrow> 'g \<Rightarrow> ('g, unit) rebac_result" where
  "write_schema sd g = bind_r (post sd ''/v1/schema/write'' (JObject [(''schema'', JString schema_text)]) g)
     (\<lambda>_ g'. (Inr (), g'))"

definition ensure_schema :: "'g spicedb \<Rightarrow> 'g \<Rightarrow> ('g, unit) rebac_result" where
  "ensure_schema sd g =
     (case post sd ''/v1/schema/read'' (JObject []) g of
        (Inr v, g') \<Rightarrow>
          let existing = (case as_str (json_index v ''schemaText'') of None \<Rightarrow> [] | Some s \<Rightarrow> s)
          in if contains_text ''definition group'' existing \<and> contains_text ''definition user'' existing
             then (Inr (), g') else write_schema sd g'
      | (Inl (Api _ _), g') \<Rightarrow> write_schema sd g'
      | (Inl e, g') \<Rightarrow> (Inl e, g'))"

section \<open>Membership tuples\<close>

fun object_type :: "principal_kind \<Rightarrow> string" where
  "object_type UserPrincipal = ''user''"
| "object_type GroupPrincipal = ''group''"

abbreviation oid :: "'g spicedb \<Rightarrow> tenant_id \<Rightarrow> string \<Rightarrow> string" where
  "oid sd \<equiv> object_id (sd_uuid sd)"

definition object_ref :: "string \<Rightarrow> string \<Rightarrow> json" where
  "object_ref ty i = JObject [(''objectId'', JString i), (''objectType'', JString ty)]"

text \<open>A subject reference; a nested group joins through its member set.\<close>

definition subject_ref :: "principal_kind \<Rightarrow> string \<Rightarrow> json" where
  "subject_ref kind i = JObject ([(''object'', object_ref (object_type kind) i)] @
     (if kind = GroupPrincipal then [(''optionalRelation'', JString ''member'')] else []))"

definition update_body :: "string \<Rightarrow> string \<Rightarrow> principal_kind \<Rightarrow> string \<Rightarrow> json" where
  "update_body op group_oid kind member_oid =
     JObject [(''updates'', JArray [JObject
       [(''operation'', JString op),
        (''relationship'', JObject
           [(''relation'', JString ''member''), (''resource'', object_ref ''group'' group_oid),
            (''subject'', subject_ref kind member_oid)])]])]"

definition membership_update ::
  "'g spicedb \<Rightarrow> string \<Rightarrow> tenant_id \<Rightarrow> string \<Rightarrow> principal_kind \<Rightarrow> string \<Rightarrow> json" where
  "membership_update sd op t group_name kind member_name =
     update_body op (oid sd t group_name) kind (oid sd t member_name)"

definition write_membership ::
  "'g spicedb \<Rightarrow> tenant_id \<Rightarrow> string \<Rightarrow> principal_kind \<Rightarrow> string \<Rightarrow> 'g \<Rightarrow> ('g, unit) rebac_result" where
  "write_membership sd t group_name kind member_name g =
     bind_r (post sd ''/v1/relationships/write''
        (membership_update sd ''OPERATION_TOUCH'' t group_name kind member_name) g) (\<lambda>_ g'. (Inr (), g'))"

definition delete_membership ::
  "'g spicedb \<Rightarrow> tenant_id \<Rightarrow> string \<Rightarrow> principal_kind \<Rightarrow> string \<Rightarrow> 'g \<Rightarrow> ('g, unit) rebac_result" where
  "delete_membership sd t group_name kind member_name g =
     bind_r (post sd ''/v1/relationships/write''
        (membership_update sd ''OPERATION_DELETE'' t group_name kind member_name) g) (\<lambda>_ g'. (Inr (), g'))"

definition subject_filter :: "string \<Rightarrow> json" where
  "subject_filter user_oid =
     JObject [(''relationshipFilter'', JObject
       [(''optionalRelation'', JString ''member''),
        (''optionalSubjectFilter'', JObject
           [(''optionalSubjectId'', JString user_oid), (''subjectType'', JString ''user'')]),
        (''resourceType'', JString ''group'')])]"

definition delete_subject_relationships ::
  "'g spicedb \<Rightarrow> tenant_id \<Rightarrow> string \<Rightarrow> 'g \<Rightarrow> ('g, unit) rebac_result" where
  "delete_subject_relationships sd t user_name g =
     bind_r (post sd ''/v1/relationships/delete'' (subject_filter (oid sd t user_name)) g) (\<lambda>_ g'. (Inr (), g'))"

section \<open>Lookups\<close>

definition resources_body :: "principal_kind \<Rightarrow> string \<Rightarrow> json" where
  "resources_body kind subject_oid =
     JObject [(''consistency'', JObject [(''fullyConsistent'', JBool True)]),
       (''permission'', JString ''membership''), (''resourceObjectType'', JString ''group''),
       (''subject'', subject_ref kind subject_oid)]"

text \<open>The ids of a reply, each missing one refusing the whole reply.\<close>

fun collect_ids :: "(json \<Rightarrow> string option) \<Rightarrow> string \<Rightarrow> json list \<Rightarrow> rebac_error + string list" where
  "collect_ids pick what [] = Inr []"
| "collect_ids pick what (r # rs) =
     (case pick r of None \<Rightarrow> Inl (RebacMalformed what)
      | Some i \<Rightarrow> and_then (collect_ids pick what rs) (\<lambda>ids. Inr (i # ids)))"

definition names_of_tenant :: "'g spicedb \<Rightarrow> tenant_id \<Rightarrow> string list \<Rightarrow> string list" where
  "names_of_tenant sd t ids = List.map_filter (parse_object_id (sd_utf8 sd) (sd_uuid sd) t) ids"

definition resource_id :: "json \<Rightarrow> string option" where
  "resource_id r = as_str (json_index r ''resourceObjectId'')"

definition membership_closure ::
  "'g spicedb \<Rightarrow> tenant_id \<Rightarrow> principal_kind \<Rightarrow> string \<Rightarrow> 'g \<Rightarrow> ('g, string list) rebac_result" where
  "membership_closure sd t kind name g =
     bind_r (post_stream sd ''/v1/permissions/resources'' (resources_body kind (oid sd t name)) g)
       (\<lambda>results g'.
          (and_then (collect_ids resource_id ''missing resourceObjectId'' results)
             (\<lambda>ids. Inr (remdups_adj (sort (map ((@) ''group:'') (names_of_tenant sd t ids))))), g'))"

definition user_groups :: "'g spicedb \<Rightarrow> tenant_id \<Rightarrow> string \<Rightarrow> 'g \<Rightarrow> ('g, string list) rebac_result" where
  "user_groups sd t user_name = membership_closure sd t UserPrincipal user_name"

definition group_and_ancestors :: "'g spicedb \<Rightarrow> tenant_id \<Rightarrow> string \<Rightarrow> 'g \<Rightarrow> ('g, string list) rebac_result" where
  "group_and_ancestors sd t group_name g =
     bind_r (membership_closure sd t GroupPrincipal group_name g)
       (\<lambda>closure g'. let own = ''group:'' @ group_name
         in (Inr (if own \<in> set closure then closure else closure @ [own]), g'))"

definition subjects_body :: "string \<Rightarrow> json" where
  "subjects_body group_oid =
     JObject [(''consistency'', JObject [(''fullyConsistent'', JBool True)]),
       (''permission'', JString ''membership''), (''resource'', object_ref ''group'' group_oid),
       (''subjectObjectType'', JString ''user'')]"

definition subject_id :: "json \<Rightarrow> string option" where
  "subject_id r = (case as_str (json_index (json_index r ''subject'') ''subjectObjectId'') of
     Some i \<Rightarrow> Some i | None \<Rightarrow> as_str (json_index r ''subjectObjectId''))"

definition group_users :: "'g spicedb \<Rightarrow> tenant_id \<Rightarrow> string \<Rightarrow> 'g \<Rightarrow> ('g, string list) rebac_result" where
  "group_users sd t group_name g =
     bind_r (post_stream sd ''/v1/permissions/subjects'' (subjects_body (oid sd t group_name)) g)
       (\<lambda>results g'.
          (and_then (collect_ids subject_id ''missing subjectObjectId'' results)
             (\<lambda>ids. Inr (remdups_adj (sort (map ((@) ''user:'') (names_of_tenant sd t ids))))), g'))"

section \<open>The roster\<close>

definition kind_of_type :: "string \<Rightarrow> principal_kind option" where
  "kind_of_type ty =
     (if ty = ''user'' then Some UserPrincipal else if ty = ''group'' then Some GroupPrincipal else None)"

definition parse_direct_member ::
  "'g spicedb \<Rightarrow> tenant_id \<Rightarrow> json \<Rightarrow> rebac_error + (principal_kind \<times> string) option" where
  "parse_direct_member sd t result =
     (let object = json_index (json_index (json_index result ''relationship'') ''subject'') ''object''
      in case as_str (json_index object ''objectType'') of
           None \<Rightarrow> Inl (RebacMalformed ''missing subject objectType'')
         | Some ty \<Rightarrow>
             (case as_str (json_index object ''objectId'') of
                None \<Rightarrow> Inl (RebacMalformed ''missing subject objectId'')
              | Some i \<Rightarrow>
                  (case kind_of_type ty of
                     None \<Rightarrow> Inr None
                   | Some kind \<Rightarrow> Inr (map_option (Pair kind) (parse_object_id (sd_utf8 sd) (sd_uuid sd) t i)))))"

fun direct_members ::
  "'g spicedb \<Rightarrow> tenant_id \<Rightarrow> json list \<Rightarrow> rebac_error + (principal_kind \<times> string) list" where
  "direct_members sd t [] = Inr []"
| "direct_members sd t (r # rs) =
     and_then (parse_direct_member sd t r) (\<lambda>m. and_then (direct_members sd t rs)
       (\<lambda>ms. Inr (case m of None \<Rightarrow> ms | Some x \<Rightarrow> x # ms)))"

definition roster_body :: "string \<Rightarrow> json" where
  "roster_body group_oid =
     JObject [(''consistency'', JObject [(''fullyConsistent'', JBool True)]),
       (''relationshipFilter'', JObject
         [(''optionalRelation'', JString ''member''), (''optionalResourceId'', JString group_oid),
          (''resourceType'', JString ''group'')])]"

definition group_direct_members ::
  "'g spicedb \<Rightarrow> tenant_id \<Rightarrow> string \<Rightarrow> 'g \<Rightarrow> ('g, (principal_kind \<times> string) list) rebac_result" where
  "group_direct_members sd t group_name g =
     bind_r (post_stream sd ''/v1/relationships/read'' (roster_body (oid sd t group_name)) g)
       (\<lambda>results g'. (and_then (direct_members sd t results)
          (\<lambda>ms. Inr (remdups_adj (sort_key (\<lambda>(kind, name). (object_type kind, name)) ms))), g'))"

text \<open>The users each granting group reaches, with the granting groups kept, up to a cap of users.\<close>

definition add_reached ::
  "nat \<Rightarrow> string \<Rightarrow> string \<Rightarrow> (string, string list) btree_map \<times> bool \<Rightarrow> (string, string list) btree_map \<times> bool" where
  "add_reached users_limit grp user acc =
     (let (by_user, truncated) = acc
      in case bt_get by_user user of
           Some paths \<Rightarrow>
             (if grp \<in> set paths then by_user else bt_insert user (paths @ [grp]) by_user, truncated)
         | None \<Rightarrow>
             if users_limit \<le> length by_user then (by_user, True)
             else (bt_insert user [grp] by_user, truncated))"

fun reach_groups ::
  "'g spicedb \<Rightarrow> tenant_id \<Rightarrow> nat \<Rightarrow> string list \<Rightarrow> (string, string list) btree_map \<times> bool \<Rightarrow> 'g
   \<Rightarrow> ('g, (string, string list) btree_map \<times> bool) rebac_result" where
  "reach_groups sd t users_limit [] acc g = (Inr acc, g)"
| "reach_groups sd t users_limit (grp # groups) acc g =
     (case parse_principal grp of
        Some (GroupPrincipal, name) \<Rightarrow>
          bind_r (group_users sd t name g)
            (\<lambda>users g'. reach_groups sd t users_limit groups (foldl (\<lambda>a u. add_reached users_limit grp u a) acc users) g')
      | _ \<Rightarrow> reach_groups sd t users_limit groups acc g)"

definition users_reachable_via_groups ::
  "'g spicedb \<Rightarrow> tenant_id \<Rightarrow> string list \<Rightarrow> nat \<Rightarrow> 'g \<Rightarrow> ('g, (string \<times> string list) list \<times> bool) rebac_result" where
  "users_reachable_via_groups sd t groups users_limit g =
     bind_r (reach_groups sd t users_limit groups ([], False) g)
       (\<lambda>(by_user, truncated) g'.
          (Inr (map (\<lambda>(u, paths). (u, remdups_adj (sort paths))) by_user, truncated), g'))"

section \<open>Ids from any tenant\<close>

definition parse_any_object_id :: "'g spicedb \<Rightarrow> string \<Rightarrow> (tenant_id \<times> string) option" where
  "parse_any_object_id sd i =
     (if length i < 36 then None
      else case sd_parse_uuid sd (take 36 i) of
             None \<Rightarrow> None
           | Some t \<Rightarrow>
               (case strip_prefix ''_'' (drop 36 i) of
                  None \<Rightarrow> None
                | Some r \<Rightarrow> map_option (Pair t) (unescape_id (sd_utf8 sd) r)))"


section \<open>What SpiceDB documents\<close>

text \<open>A relationship is the id of the group, the type of the subject and its id.\<close>

type_synonym relationship = "string \<times> string \<times> string"

inductive member_of :: "relationship set \<Rightarrow> string \<Rightarrow> string \<Rightarrow> string \<Rightarrow> bool" for R ty s where
  direct: "(grp, ty, s) \<in> R \<Longrightarrow> member_of R ty s grp"
| nested: "member_of R ty s inner \<Longrightarrow> (grp, ''group'', inner) \<in> R \<Longrightarrow> member_of R ty s grp"

definition reply_ids :: "'g spicedb \<Rightarrow> (json \<Rightarrow> string option) \<Rightarrow> string \<Rightarrow> string set" where
  "reply_ids sd pick reply = {i. \<exists>rs r. stream_results sd (str_lines reply) = Inr rs \<and> r \<in> set rs \<and> pick r = Some i}"

text \<open>
  Relationship writes that succeed are applied. Lookups leave the relationships alone; an answer that
  streams to its end without an error is the transitive membership (SpiceDB reports a membership
  cycle or a depth limit as status 200 with an error in the stream); whether the closure of a group's
  member set lists the group itself is left open.
\<close>

definition writes_ok :: "'g spicedb \<Rightarrow> ('g \<Rightarrow> relationship set) \<Rightarrow> bool" where
  "writes_ok sd rel \<longleftrightarrow> (\<forall>g g' status reply grp kind s. is_success status \<longrightarrow>
     (sd_http sd ''/v1/relationships/write'' (update_body ''OPERATION_TOUCH'' grp kind s) g = (Inr (status, reply), g')
        \<longrightarrow> rel g' = insert (grp, object_type kind, s) (rel g)) \<and>
     (sd_http sd ''/v1/relationships/write'' (update_body ''OPERATION_DELETE'' grp kind s) g = (Inr (status, reply), g')
        \<longrightarrow> rel g' = rel g - {(grp, object_type kind, s)}) \<and>
     (sd_http sd ''/v1/relationships/delete'' (subject_filter s) g = (Inr (status, reply), g')
        \<longrightarrow> rel g' = {r \<in> rel g. snd r \<noteq> (''user'', s)}))"

definition lookups_ok :: "'g spicedb \<Rightarrow> ('g \<Rightarrow> relationship set) \<Rightarrow> bool" where
  "lookups_ok sd rel \<longleftrightarrow> (\<forall>g g' status reply i kind. is_success status \<longrightarrow>
     (sd_http sd ''/v1/permissions/resources'' (resources_body kind i) g = (Inr (status, reply), g')
        \<longrightarrow> rel g' = rel g \<and> (\<forall>rs. stream_results sd (str_lines reply) = Inr rs \<longrightarrow>
          {x. member_of (rel g) (object_type kind) i x} \<subseteq> reply_ids sd resource_id reply \<and>
          reply_ids sd resource_id reply
            \<subseteq> {x. member_of (rel g) (object_type kind) i x} \<union> (if kind = GroupPrincipal then {i} else {}))) \<and>
     (sd_http sd ''/v1/permissions/subjects'' (subjects_body i) g = (Inr (status, reply), g')
        \<longrightarrow> rel g' = rel g \<and> (\<forall>rs. stream_results sd (str_lines reply) = Inr rs \<longrightarrow>
          reply_ids sd subject_id reply = {u. member_of (rel g) ''user'' u i})))"

text \<open>A uuid has 128 bits; its text has 36 characters and parses back.\<close>

definition valid_uuid :: "uuid \<Rightarrow> bool" where
  "valid_uuid t \<longleftrightarrow> t < 2 ^ 128"

definition uuid_ok :: "'g spicedb \<Rightarrow> bool" where
  "uuid_ok sd \<longleftrightarrow> (\<forall>t. valid_uuid t \<longrightarrow> length (sd_uuid sd t) = 36 \<and> sd_parse_uuid sd (sd_uuid sd t) = Some t)"

section \<open>The directory the client maintains\<close>

text \<open>
  The abstract view: memberships by tenant and name. Every tuple the client writes relates two ids of
  one tenant.
\<close>

type_synonym membership = "tenant_id \<times> string \<times> principal_kind \<times> string"

definition memberships :: "'g spicedb \<Rightarrow> relationship set \<Rightarrow> membership set" where
  "memberships sd R = {(t, grp, kind, name). valid_uuid t \<and> sd_utf8 sd grp \<and> sd_utf8 sd name \<and>
     (oid sd t grp, object_type kind, oid sd t name) \<in> R}"

definition tenant_tuples :: "'g spicedb \<Rightarrow> relationship set \<Rightarrow> bool" where
  "tenant_tuples sd R \<longleftrightarrow>
     R \<subseteq> {(oid sd t grp, object_type kind, oid sd t name) |t grp kind name. valid_uuid t \<and> sd_utf8 sd grp \<and> sd_utf8 sd name}"

inductive in_group :: "membership set \<Rightarrow> tenant_id \<Rightarrow> principal_kind \<Rightarrow> string \<Rightarrow> string \<Rightarrow> bool" for D t kind name where
  direct: "(t, grp, kind, name) \<in> D \<Longrightarrow> in_group D t kind name grp"
| nested: "in_group D t kind name inner \<Longrightarrow> (t, grp, GroupPrincipal, inner) \<in> D \<Longrightarrow> in_group D t kind name grp"

section \<open>Lemmas\<close>

lemma bind_r_Inr: "bind_r x f = (Inr b, g') \<longleftrightarrow> (\<exists>a g. x = (Inr a, g) \<and> f a g = (Inr b, g'))"
  by (cases x; cases "fst x") auto

lemma bind_r_Inl:
  "bind_r x f = (Inl e, g') \<longleftrightarrow> x = (Inl e, g') \<or> (\<exists>a g. x = (Inr a, g) \<and> f a g = (Inl e, g'))"
  by (cases x; cases "fst x") auto

lemma post_text_Inr:
  "post_text sd path body g = (Inr reply, g') \<longleftrightarrow>
     (\<exists>status. is_success status \<and> sd_http sd path body g = (Inr (status, reply), g'))"
  by (auto simp: post_text_def split: prod.splits sum.splits if_splits)

lemma post_Inr:
  "post sd path body g = (Inr v, g') \<longleftrightarrow>
     (\<exists>status reply. is_success status \<and> sd_http sd path body g = (Inr (status, reply), g') \<and> sd_parse sd reply = Inr v)"
proof -
  have "(case sd_parse sd reply of Inl e \<Rightarrow> Inl (RebacMalformed e) | Inr v \<Rightarrow> Inr v) = (Inr v :: rebac_error + json) \<longleftrightarrow>
      sd_parse sd reply = Inr v" for reply
    by (auto split: sum.splits)
  then show ?thesis by (auto simp: post_def bind_r_Inr post_text_Inr)
qed

lemma post_stream_Inr:
  "post_stream sd path body g = (Inr rs, g') \<longleftrightarrow>
     (\<exists>status reply. is_success status \<and> sd_http sd path body g = (Inr (status, reply), g') \<and>
        stream_results sd (str_lines reply) = Inr rs)"
  by (auto simp: post_stream_def bind_r_Inr post_text_Inr)

lemma post_stream_error:
  "sd_http sd path body g = (Inr (status, reply), g') \<Longrightarrow> is_success status \<Longrightarrow>
     stream_results sd (str_lines reply) = Inl e \<Longrightarrow> post_stream sd path body g = (Inl e, g')"
  by (simp add: post_stream_def post_text_def)

lemma collect_ids_Inr: "collect_ids pick what rs = Inr ids \<Longrightarrow> set ids = {i. \<exists>r \<in> set rs. pick r = Some i}"
  by (induction rs arbitrary: ids) (auto simp: and_then_Inr split: option.splits)

lemma strict_sorted_dedup: "sorted_wrt (<) (remdups_adj (sort xs :: 'a::linorder list))"
proof -
  have "sorted xs \<Longrightarrow> sorted_wrt (<) (remdups_adj xs)" for xs :: "'a list"
    by (induction xs rule: remdups_adj.induct) (auto simp: le_less)
  then show ?thesis by simp
qed

lemma parse_oid:
  assumes "uuid_ok sd" "valid_uuid t" "valid_uuid t'" "sd_utf8 sd name"
  shows "parse_object_id (sd_utf8 sd) (sd_uuid sd) t' (oid sd t name) = (if t' = t then Some name else None)"
proof -
  have "sd_uuid sd t' = sd_uuid sd t \<longleftrightarrow> t' = t" "length (sd_uuid sd t') = length (sd_uuid sd t)"
    using assms(1-3) unfolding uuid_ok_def by (metis option.inject)+
  from object_id_roundtrip [where uuid_str = "sd_uuid sd", OF this, of "sd_utf8 sd" name] assms(4) show ?thesis by blast
qed

lemma oid_eq_iff:
  assumes "uuid_ok sd" "valid_uuid t" "valid_uuid t'" "sd_utf8 sd name" "sd_utf8 sd name'"
  shows "oid sd t name = oid sd t' name' \<longleftrightarrow> t = t' \<and> name = name'"
proof
  assume "oid sd t name = oid sd t' name'"
  then have "(if t = t then Some name else None) = (if t = t' then Some name' else None)"
    by (simp only: parse_oid [OF assms(1,2,2,4), symmetric] parse_oid [OF assms(1,3,2,5), symmetric])
  then show "t = t' \<and> name = name'" by (simp split: if_splits)
qed simp

lemma object_type_eq [simp]: "object_type k = object_type k' \<longleftrightarrow> k = k'"
  by (cases k; cases k') auto

lemma object_type_group: "object_type k = ''group'' \<longleftrightarrow> k = GroupPrincipal"
  by (cases k) auto

text \<open>Ids resolved in a tenant are exactly those of its names.\<close>

lemma names_of_tenant_set:
  assumes "uuid_ok sd" "valid_uuid t" "set ids \<subseteq> {oid sd t' n |t' n. valid_uuid t' \<and> sd_utf8 sd n}"
  shows "set (names_of_tenant sd t ids) = {n. sd_utf8 sd n \<and> oid sd t n \<in> set ids}"
proof -
  have "n \<in> set (names_of_tenant sd t ids) \<longleftrightarrow>
      (\<exists>i \<in> set ids. parse_object_id (sd_utf8 sd) (sd_uuid sd) t i = Some n)" for n
    by (force simp: names_of_tenant_def List.map_filter_def)
  moreover have "parse_object_id (sd_utf8 sd) (sd_uuid sd) t i = Some n \<longleftrightarrow> sd_utf8 sd n \<and> i = oid sd t n"
    if "i \<in> set ids" for i n
    using that assms(2,3) parse_oid [OF assms(1)] by (auto split: if_splits)
  ultimately show ?thesis by auto
qed

text \<open>The closure over ids of client-written tuples is the closure over names of one tenant.\<close>

lemma member_of_in_group:
  assumes "uuid_ok sd" "tenant_tuples sd R" "valid_uuid t" "sd_utf8 sd name"
    and "member_of R (object_type kind) (oid sd t name) x"
  shows "\<exists>grp. sd_utf8 sd grp \<and> x = oid sd t grp \<and> in_group (memberships sd R) t kind name grp"
  using assms(5)
proof induction
  case (direct grp)
  then obtain t' gn n where r: "grp = oid sd t' gn" "oid sd t name = oid sd t' n"
    "valid_uuid t'" "sd_utf8 sd gn" "sd_utf8 sd n"
    using assms(2) unfolding tenant_tuples_def by blast
  then have "t' = t" "n = name" using oid_eq_iff [OF assms(1,3) _ assms(4)] by metis+
  with r direct assms(3,4) show ?case
    by (auto simp: memberships_def intro!: exI [of _ gn] in_group.direct)
next
  case (nested inner grp)
  then obtain m where m: "sd_utf8 sd m" "inner = oid sd t m" "in_group (memberships sd R) t kind name m" by blast
  from nested(2) assms(2) obtain t' gn n where r: "grp = oid sd t' gn" "oid sd t m = oid sd t' n" "valid_uuid t'" "sd_utf8 sd gn" "sd_utf8 sd n"
    unfolding tenant_tuples_def m(2) by blast
  then have "t' = t" "n = m" using oid_eq_iff [OF assms(1,3) _ m(1)] by metis+
  with r m nested assms(3) show ?case
    by (auto simp: memberships_def intro!: exI [of _ gn] in_group.nested [where inner = m])
qed

lemma in_group_member_of:
  assumes "in_group (memberships sd R) t kind name grp"
  shows "member_of R (object_type kind) (oid sd t name) (oid sd t grp) \<and> sd_utf8 sd grp \<and> sd_utf8 sd name \<and> valid_uuid t"
  using assms
proof induction
  case (direct grp) then show ?case by (auto simp: memberships_def intro: member_of.direct)
next
  case (nested inner grp) then show ?case by (auto simp: memberships_def intro: member_of.nested)
qed

lemma closure_names:
  assumes "uuid_ok sd" "tenant_tuples sd R" "valid_uuid t" "sd_utf8 sd name"
  shows "{x. member_of R (object_type kind) (oid sd t name) x} =
    oid sd t ` {grp. in_group (memberships sd R) t kind name grp}"
  using member_of_in_group [OF assms] in_group_member_of [of sd R t kind name] by blast


lemma members_names:
  assumes "uuid_ok sd" "tenant_tuples sd R" "valid_uuid t" "sd_utf8 sd grp"
  shows "{u. member_of R ''user'' u (oid sd t grp)} =
    oid sd t ` {name. in_group (memberships sd R) t UserPrincipal name grp}"
proof (intro set_eqI iffI)
  fix u assume "u \<in> {u. member_of R ''user'' u (oid sd t grp)}"
  then have m: "member_of R (object_type UserPrincipal) u (oid sd t grp)" by simp
  then have "\<exists>x. (x, object_type UserPrincipal, u) \<in> R" by induction auto
  then obtain t' n where u: "u = oid sd t' n" "valid_uuid t'" "sd_utf8 sd n"
    using assms(2) unfolding tenant_tuples_def by blast
  from member_of_in_group [OF assms(1,2) u(2,3)] m u(1)
  obtain h where h: "sd_utf8 sd h" "oid sd t grp = oid sd t' h" "in_group (memberships sd R) t' UserPrincipal n h"
    by blast
  then have "t' = t" "h = grp" using oid_eq_iff [OF assms(1,3) u(2) assms(4)] by auto
  with u h show "u \<in> oid sd t ` {name. in_group (memberships sd R) t UserPrincipal name grp}" by blast
qed (use in_group_member_of [of sd R t UserPrincipal] in auto)

lemma ids_of_tenants:
  assumes "tenant_tuples sd R" "member_of R ty s x"
  shows "\<exists>t' n. x = oid sd t' n \<and> valid_uuid t' \<and> sd_utf8 sd n"
  using assms(2,1) unfolding tenant_tuples_def by cases blast+

lemma membership_closure_spec:
  assumes "uuid_ok sd" "lookups_ok sd rel" "tenant_tuples sd (rel g)" "valid_uuid t" "sd_utf8 sd name"
    and "membership_closure sd t kind name g = (Inr gs, g')"
  shows "rel g' = rel g" "sorted_wrt (<) gs"
    "{''group:'' @ h |h. in_group (memberships sd (rel g)) t kind name h} \<subseteq> set gs"
    "set gs \<subseteq> {''group:'' @ h |h. in_group (memberships sd (rel g)) t kind name h} \<union>
       (if kind = GroupPrincipal then {''group:'' @ name} else {})"
proof -
  let ?C = "{h. in_group (memberships sd (rel g)) t kind name h}"
  let ?own = "if kind = GroupPrincipal then {oid sd t name} else {}"
  from assms(6) obtain status reply rs ids where call: "is_success status"
      "sd_http sd ''/v1/permissions/resources'' (resources_body kind (oid sd t name)) g = (Inr (status, reply), g')"
    and rs: "stream_results sd (str_lines reply) = Inr rs"
    and ids: "collect_ids resource_id ''missing resourceObjectId'' rs = Inr ids"
    and gs: "gs = remdups_adj (sort (map ((@) ''group:'') (names_of_tenant sd t ids)))"
    by (auto simp: membership_closure_def bind_r_Inr post_stream_Inr and_then_Inr)
  have set_ids: "set ids = reply_ids sd resource_id reply"
    using collect_ids_Inr [OF ids] rs by (auto simp: reply_ids_def)
  note l = assms(2) [unfolded lookups_ok_def, rule_format, OF call(1), THEN conjunct1, rule_format, OF call(2)]
  note c = closure_names [OF assms(1,3,4,5), of kind]
  from l rs c set_ids have lower: "oid sd t ` ?C \<subseteq> set ids" and upper: "set ids \<subseteq> oid sd t ` ?C \<union> ?own" by simp_all
  show "rel g' = rel g" using l by simp
  show "sorted_wrt (<) gs" by (simp add: gs strict_sorted_dedup)
  have "?C \<subseteq> {h. sd_utf8 sd h}" using in_group_member_of [of sd "rel g" t kind name] by blast
  then have "set ids \<subseteq> {oid sd t' n |t' n. valid_uuid t' \<and> sd_utf8 sd n}"
  proof -
    have "?own \<subseteq> oid sd t ` {n. sd_utf8 sd n}" using assms(5) by simp
    with upper \<open>?C \<subseteq> {h. sd_utf8 sd h}\<close> have "set ids \<subseteq> oid sd t ` {n. sd_utf8 sd n}" by blast
    then show ?thesis using assms(4) by blast
  qed
  note n = names_of_tenant_set [OF assms(1,4) this]
  show "{''group:'' @ h |h. in_group (memberships sd (rel g)) t kind name h} \<subseteq> set gs"
    using lower n \<open>?C \<subseteq> {h. sd_utf8 sd h}\<close> by (auto simp: gs)
  show "set gs \<subseteq> {''group:'' @ h |h. in_group (memberships sd (rel g)) t kind name h} \<union>
       (if kind = GroupPrincipal then {''group:'' @ name} else {})"
  proof -
    let ?A = "?C \<union> (if kind = GroupPrincipal then {name} else {})"
    have "set ids \<subseteq> oid sd t ` ?A" using upper by (auto split: if_splits)
    moreover have "?A \<subseteq> {h. sd_utf8 sd h}" using \<open>?C \<subseteq> {h. sd_utf8 sd h}\<close> assms(5) by simp
    ultimately have "set (names_of_tenant sd t ids) \<subseteq> ?A"
      unfolding n using oid_eq_iff [OF assms(1,4,4)] by blast
    then show ?thesis by (auto simp: gs split: if_splits)
  qed
qed


lemma group_users_spec:
  assumes "uuid_ok sd" "lookups_ok sd rel" "tenant_tuples sd (rel g)" "valid_uuid t" "sd_utf8 sd grp"
    and "group_users sd t grp g = (Inr us, g')"
  shows "rel g' = rel g" "sorted_wrt (<) us"
    "set us = {''user:'' @ name |name. in_group (memberships sd (rel g)) t UserPrincipal name grp}"
proof -
  let ?C = "{name. in_group (memberships sd (rel g)) t UserPrincipal name grp}"
  from assms(6) obtain status reply rs ids where call: "is_success status"
      "sd_http sd ''/v1/permissions/subjects'' (subjects_body (oid sd t grp)) g = (Inr (status, reply), g')"
    and rs: "stream_results sd (str_lines reply) = Inr rs"
    and ids: "collect_ids subject_id ''missing subjectObjectId'' rs = Inr ids"
    and us: "us = remdups_adj (sort (map ((@) ''user:'') (names_of_tenant sd t ids)))"
    by (auto simp: group_users_def bind_r_Inr post_stream_Inr and_then_Inr)
  have "set ids = reply_ids sd subject_id reply"
    using collect_ids_Inr [OF ids] rs by (auto simp: reply_ids_def)
  note l = assms(2) [unfolded lookups_ok_def, rule_format, OF call(1), THEN conjunct2, rule_format, OF call(2)]
  have set_ids: "set ids = oid sd t ` ?C"
    using l rs members_names [OF assms(1,3,4,5)] \<open>set ids = _\<close> by simp
  have utf8: "?C \<subseteq> {h. sd_utf8 sd h}" using in_group_member_of [of sd "rel g" t UserPrincipal] by blast
  then have "set ids \<subseteq> {oid sd t' n |t' n. valid_uuid t' \<and> sd_utf8 sd n}" using set_ids assms(4) by blast
  note n = names_of_tenant_set [OF assms(1,4) this]
  show "rel g' = rel g" using l by simp
  show "sorted_wrt (<) us" by (simp add: us strict_sorted_dedup)
  have "set (names_of_tenant sd t ids) = ?C"
    unfolding n set_ids using utf8 oid_eq_iff [OF assms(1,4,4)] by blast
  then show "set us = {''user:'' @ name |name. in_group (memberships sd (rel g)) t UserPrincipal name grp}"
    by (auto simp: us)
qed

lemma memberships_insert:
  assumes "uuid_ok sd" "valid_uuid t" "sd_utf8 sd grp" "sd_utf8 sd name"
  shows "memberships sd (insert (oid sd t grp, object_type kind, oid sd t name) R) =
      insert (t, grp, kind, name) (memberships sd R)"
    "memberships sd (R - {(oid sd t grp, object_type kind, oid sd t name)}) =
      memberships sd R - {(t, grp, kind, name)}"
    "memberships sd {r \<in> R. snd r \<noteq> (''user'', oid sd t name)} =
      {m \<in> memberships sd R. \<not> (fst m = t \<and> snd (snd m) = (UserPrincipal, name))}"
proof -
  have mem: "(t', h, k, n) \<in> memberships sd S \<longleftrightarrow> valid_uuid t' \<and> sd_utf8 sd h \<and> sd_utf8 sd n \<and>
      (oid sd t' h, object_type k, oid sd t' n) \<in> S" for t' h k n S
    by (simp add: memberships_def)
  have eq: "oid sd t' n = oid sd t name \<longleftrightarrow> t' = t \<and> n = name"
    "oid sd t' n = oid sd t grp \<longleftrightarrow> t' = t \<and> n = grp" if "valid_uuid t'" "sd_utf8 sd n" for t' n
    using oid_eq_iff [OF assms(1) that(1) assms(2) that(2)] assms(3,4) by blast+
  have user: "object_type k = ''user'' \<longleftrightarrow> k = UserPrincipal" for k by (cases k) auto
  show "memberships sd (insert (oid sd t grp, object_type kind, oid sd t name) R) =
      insert (t, grp, kind, name) (memberships sd R)"
    "memberships sd (R - {(oid sd t grp, object_type kind, oid sd t name)}) =
      memberships sd R - {(t, grp, kind, name)}"
    "memberships sd {r \<in> R. snd r \<noteq> (''user'', oid sd t name)} =
      {m \<in> memberships sd R. \<not> (fst m = t \<and> snd (snd m) = (UserPrincipal, name))}"
    using assms(2-4) by (intro set_eqI; clarsimp simp: mem user; (auto simp: eq)?; blast?)+
qed

lemma tenant_tuples_insert:
  "tenant_tuples sd R \<Longrightarrow> valid_uuid t \<Longrightarrow> sd_utf8 sd grp \<Longrightarrow> sd_utf8 sd name \<Longrightarrow>
   tenant_tuples sd (insert (oid sd t grp, object_type kind, oid sd t name) R)"
  unfolding tenant_tuples_def by blast

lemma tenant_tuples_subset: "tenant_tuples sd R \<Longrightarrow> R' \<subseteq> R \<Longrightarrow> tenant_tuples sd R'"
  by (auto simp: tenant_tuples_def)

section \<open>The client refines a directory of memberships\<close>

text \<open>
  C17: Over a SpiceDB that applies the relationship writes it accepts and whose lookups, when they stream
  to their end without an error, answer the transitive membership, the client implements a directory of memberships by tenant and name: a
  successful write adds exactly that membership, a delete removes exactly it, deleting a subject
  removes exactly the user's own memberships; a user's groups are, in strict order, exactly the groups
  of that tenant the user transitively belongs to, a group's ancestors are the group and the groups it
  is nested in, its users those transitively in it. A lookup that reports an error in its stream, as
  SpiceDB does on a membership cycle, yields no answer at all, never a partial one. No write of one tenant shows in another's answers,
  whatever characters the names contain, and the invariant behind this is kept.
\<close>

theorem client_refines_directory:
  assumes "uuid_ok sd" "writes_ok sd rel" "lookups_ok sd rel"
    and "tenant_tuples sd (rel g)" "valid_uuid t" "sd_utf8 sd grp" "sd_utf8 sd name"
  shows
    "(write_membership sd t grp kind name g = (Inr (), g') \<longrightarrow> tenant_tuples sd (rel g') \<and>
        memberships sd (rel g') = insert (t, grp, kind, name) (memberships sd (rel g))) \<and>
     (delete_membership sd t grp kind name g = (Inr (), g') \<longrightarrow> tenant_tuples sd (rel g') \<and>
        memberships sd (rel g') = memberships sd (rel g) - {(t, grp, kind, name)}) \<and>
     (delete_subject_relationships sd t name g = (Inr (), g') \<longrightarrow> tenant_tuples sd (rel g') \<and>
        memberships sd (rel g') =
          {m \<in> memberships sd (rel g). \<not> (fst m = t \<and> snd (snd m) = (UserPrincipal, name))}) \<and>
     (\<forall>e. stream_results sd (str_lines reply) = Inl e \<longrightarrow> is_success status \<longrightarrow>
        (sd_http sd ''/v1/permissions/resources'' (resources_body UserPrincipal (oid sd t name)) g = (Inr (status, reply), g') \<longrightarrow>
           user_groups sd t name g = (Inl e, g')) \<and>
        (sd_http sd ''/v1/permissions/resources'' (resources_body GroupPrincipal (oid sd t grp)) g = (Inr (status, reply), g') \<longrightarrow>
           group_and_ancestors sd t grp g = (Inl e, g')) \<and>
        (sd_http sd ''/v1/permissions/subjects'' (subjects_body (oid sd t grp)) g = (Inr (status, reply), g') \<longrightarrow>
           group_users sd t grp g = (Inl e, g'))) \<and>
     (user_groups sd t name g = (Inr gs, g') \<longrightarrow> rel g' = rel g \<and> sorted_wrt (<) gs \<and>
        set gs = {''group:'' @ h |h. in_group (memberships sd (rel g)) t UserPrincipal name h}) \<and>
     (group_and_ancestors sd t grp g = (Inr gs, g') \<longrightarrow> rel g' = rel g \<and> distinct gs \<and>
        set gs = {''group:'' @ h |h. h = grp \<or> in_group (memberships sd (rel g)) t GroupPrincipal grp h}) \<and>
     (group_users sd t grp g = (Inr gs, g') \<longrightarrow> rel g' = rel g \<and> sorted_wrt (<) gs \<and>
        set gs = {''user:'' @ u |u. in_group (memberships sd (rel g)) t UserPrincipal u grp})"
proof (intro conjI impI)
  note w = assms(2) [unfolded writes_ok_def, rule_format]
  note m = memberships_insert [OF assms(1,5-7)]
  { assume "write_membership sd t grp kind name g = (Inr (), g')"
    then have r: "rel g' = insert (oid sd t grp, object_type kind, oid sd t name) (rel g)"
      using w by (auto simp: write_membership_def membership_update_def bind_r_Inr post_Inr)
    show "tenant_tuples sd (rel g')" "memberships sd (rel g') = insert (t, grp, kind, name) (memberships sd (rel g))"
      unfolding r by (simp_all add: m tenant_tuples_insert assms) }
  { assume "delete_membership sd t grp kind name g = (Inr (), g')"
    then have r: "rel g' = rel g - {(oid sd t grp, object_type kind, oid sd t name)}"
      using w by (auto simp: delete_membership_def membership_update_def bind_r_Inr post_Inr)
    show "tenant_tuples sd (rel g')" "memberships sd (rel g') = memberships sd (rel g) - {(t, grp, kind, name)}"
      unfolding r by (simp_all add: m tenant_tuples_subset [OF assms(4)]) }
  { assume "delete_subject_relationships sd t name g = (Inr (), g')"
    then have r: "rel g' = {r \<in> rel g. snd r \<noteq> (''user'', oid sd t name)}"
      using w by (auto simp: delete_subject_relationships_def bind_r_Inr post_Inr)
    show "tenant_tuples sd (rel g')" "memberships sd (rel g') =
        {m \<in> memberships sd (rel g). \<not> (fst m = t \<and> snd (snd m) = (UserPrincipal, name))}"
      unfolding r by (simp_all add: m tenant_tuples_subset [OF assms(4)]) }
  show "\<forall>e. stream_results sd (str_lines reply) = Inl e \<longrightarrow> is_success status \<longrightarrow>
        (sd_http sd ''/v1/permissions/resources'' (resources_body UserPrincipal (oid sd t name)) g = (Inr (status, reply), g') \<longrightarrow>
           user_groups sd t name g = (Inl e, g')) \<and>
        (sd_http sd ''/v1/permissions/resources'' (resources_body GroupPrincipal (oid sd t grp)) g = (Inr (status, reply), g') \<longrightarrow>
           group_and_ancestors sd t grp g = (Inl e, g')) \<and>
        (sd_http sd ''/v1/permissions/subjects'' (subjects_body (oid sd t grp)) g = (Inr (status, reply), g') \<longrightarrow>
           group_users sd t grp g = (Inl e, g'))"
    by (simp add: user_groups_def group_and_ancestors_def membership_closure_def group_users_def post_stream_error)
  { assume "user_groups sd t name g = (Inr gs, g')"
    from membership_closure_spec [OF assms(1,3,4,5,7) this [unfolded user_groups_def]]
    show "rel g' = rel g" "sorted_wrt (<) gs"
      "set gs = {''group:'' @ h |h. in_group (memberships sd (rel g)) t UserPrincipal name h}" by simp_all }
  { assume "group_and_ancestors sd t grp g = (Inr gs, g')"
    then obtain closure where c: "membership_closure sd t GroupPrincipal grp g = (Inr closure, g')"
      and gs: "gs = (if ''group:'' @ grp \<in> set closure then closure else closure @ [''group:'' @ grp])"
      by (auto simp: group_and_ancestors_def bind_r_Inr Let_def)
    note s = membership_closure_spec [OF assms(1,3,4,5,6) c]
    show "rel g' = rel g" by (rule s)
    show "distinct gs" using s(2) by (auto simp: gs strict_sorted_iff)
    show "set gs = {''group:'' @ h |h. h = grp \<or> in_group (memberships sd (rel g)) t GroupPrincipal grp h}"
      using s(3,4) by (auto simp: gs) }
  { assume "group_users sd t grp g = (Inr gs, g')"
    from group_users_spec [OF assms(1,3,4,5,6) this]
    show "rel g' = rel g" "sorted_wrt (<) gs"
      "set gs = {''user:'' @ u |u. in_group (memberships sd (rel g)) t UserPrincipal u grp}" by simp_all }
qed


section \<open>A recorded exchange\<close>

text \<open>
  A small SpiceDB for the witness: it applies every relationship write, and on one graph, where
  \<^verbatim>\<open>alice\<close> of tenant 1 is in \<^verbatim>\<open>west\<close>, nested in \<^verbatim>\<open>sales\<close>, while tenant 2 has groups of the same
  names, it answers for the groups of \<^verbatim>\<open>alice\<close> and of \<^verbatim>\<open>west\<close> and for the users of \<^verbatim>\<open>west\<close> and \<^verbatim>\<open>sales\<close> in
  tenant 1. Every other lookup it answers with status 200 and an error in the stream.
\<close>

fun hex36 :: "nat \<Rightarrow> nat \<Rightarrow> string" where
  "hex36 0 t = []"
| "hex36 (Suc k) t = (''abcdefghijklmnop'' ! (t mod 16)) # hex36 k (t div 16)"

fun unhex36 :: "string \<Rightarrow> nat" where
  "unhex36 [] = 0"
| "unhex36 (c # cs) = of_char c - 97 + 16 * unhex36 cs"

definition demo_oid :: "nat \<Rightarrow> string \<Rightarrow> string" where
  "demo_oid = object_id (hex36 36)"

definition demo_graph :: "relationship list" where
  "demo_graph =
     [(demo_oid 1 ''west'', ''user'', demo_oid 1 ''alice''), (demo_oid 1 ''sales'', ''group'', demo_oid 1 ''west''),
      (demo_oid 2 ''sales'', ''user'', demo_oid 2 ''alice''), (demo_oid 2 ''board'', ''group'', demo_oid 2 ''sales'')]"

definition text_at :: "string list \<Rightarrow> json \<Rightarrow> string" where
  "text_at ks v = (case as_str (foldl json_index v ks) of None \<Rightarrow> [] | Some s \<Rightarrow> s)"

definition demo_update :: "json \<Rightarrow> string \<times> relationship" where
  "demo_update body = (case json_index body ''updates'' of
     JArray [u] \<Rightarrow> (text_at [''operation''] u,
       (text_at [''relationship'', ''resource'', ''objectId''] u,
        text_at [''relationship'', ''subject'', ''object'', ''objectType''] u,
        text_at [''relationship'', ''subject'', ''object'', ''objectId''] u))
   | _ \<Rightarrow> ([], ([], [], [])))"

definition demo_http :: "string \<Rightarrow> json \<Rightarrow> relationship list \<Rightarrow> (string + nat \<times> string) \<times> relationship list" where
  "demo_http path body R =
     (if path = ''/v1/relationships/write'' then
        (let (op, r) = demo_update body
         in (Inr (200, ''{}''), if op = ''OPERATION_TOUCH'' then r # R else filter (\<lambda>x. x \<noteq> r) R))
      else if path = ''/v1/relationships/delete'' then
        (Inr (200, ''{}''),
         filter (\<lambda>x. snd x \<noteq> (''user'',
           text_at [''relationshipFilter'', ''optionalSubjectFilter'', ''optionalSubjectId''] body)) R)
      else if path = ''/v1/permissions/resources'' \<and> R = demo_graph \<and>
              body = resources_body UserPrincipal (demo_oid 1 ''alice'') then
        (Inr (200, demo_oid 1 ''west'' @ [char_of (10 :: nat)] @ demo_oid 1 ''sales''), R)
      else if path = ''/v1/permissions/resources'' \<and> R = demo_graph \<and>
              body = resources_body GroupPrincipal (demo_oid 1 ''west'') then
        (Inr (200, demo_oid 1 ''sales''), R)
      else if path = ''/v1/permissions/subjects'' \<and> R = demo_graph \<and>
              (body = subjects_body (demo_oid 1 ''west'') \<or> body = subjects_body (demo_oid 1 ''sales'')) then
        (Inr (200, demo_oid 1 ''alice''), R)
      else (Inr (200, ''cycle''), R))"

definition demo_sd :: "relationship list spicedb" where
  "demo_sd = \<lparr>sd_http = demo_http,
     sd_parse = (\<lambda>l. Inr (JObject (if l = ''cycle'' then [(''error'', JString ''max depth exceeded'')]
       else [(''result'', JObject [(''resourceObjectId'', JString l), (''subjectObjectId'', JString l)])]))),
     sd_print = (\<lambda>_. []), sd_uuid = hex36 36, sd_parse_uuid = (\<lambda>s. Some (unhex36 s)), sd_utf8 = (\<lambda>_. True)\<rparr>"

lemma unhex_hex: "t < 16 ^ k \<Longrightarrow> unhex36 (hex36 k t) = t"
proof (induction k arbitrary: t)
  case (Suc k)
  then have "t div 16 < 16 ^ k" by (simp add: less_mult_imp_div_less mult.commute)
  moreover have "\<forall>d < 16. of_char (''abcdefghijklmnop'' ! d) - 97 = d"
    by (simp add: All_less_Suc numeral_eq_Suc)
  then have "of_char (''abcdefghijklmnop'' ! (t mod 16)) - 97 = t mod 16" by simp
  ultimately show ?case using Suc.IH by simp
qed simp

lemma length_hex36 [simp]: "length (hex36 k t) = k"
  by (induction k arbitrary: t) auto

lemma demo_uuid_ok: "uuid_ok demo_sd"
proof -
  have "t < 16 ^ 36" if "valid_uuid t" for t using that by (simp add: valid_uuid_def)
  then show ?thesis by (simp add: uuid_ok_def demo_sd_def unhex_hex)
qed

lemma demo_update_body: "demo_update (update_body op grp kind s) = (op, grp, object_type kind, s)"
  by (simp add: demo_update_def update_body_def text_at_def json_index_def object_ref_def subject_ref_def)

lemma demo_writes_ok: "writes_ok demo_sd set"
proof -
  have "text_at [''relationshipFilter'', ''optionalSubjectFilter'', ''optionalSubjectId''] (subject_filter s) = s" for s
    by (simp add: text_at_def subject_filter_def json_index_def)
  then show ?thesis
    by (auto simp: writes_ok_def demo_sd_def demo_http_def demo_update_body)
qed

lemma demo_distinct:
  "demo_oid 1 ''alice'' \<noteq> demo_oid 2 ''alice''" "demo_oid 1 ''west'' \<noteq> demo_oid 2 ''sales''"
  "demo_oid 1 ''sales'' \<noteq> demo_oid 1 ''west''" "demo_oid 1 ''sales'' \<noteq> demo_oid 2 ''sales''"
  "demo_oid 1 ''west'' \<noteq> demo_oid 2 ''board''" "demo_oid 1 ''sales'' \<noteq> demo_oid 2 ''board''"
  by (code_simp, code_simp, code_simp, code_simp, code_simp, code_simp)

lemma demo_member_of:
  "{x. member_of (set demo_graph) ''user'' (demo_oid 1 ''alice'') x} = {demo_oid 1 ''west'', demo_oid 1 ''sales''}"
  "{x. member_of (set demo_graph) ''group'' (demo_oid 1 ''west'') x} = {demo_oid 1 ''sales''}"
proof -
  have "x \<in> {demo_oid 1 ''west'', demo_oid 1 ''sales''}"
    if "member_of (set demo_graph) ''user'' (demo_oid 1 ''alice'') x" for x
    using that by induction (use demo_distinct in \<open>auto simp: demo_graph_def\<close>)
  moreover have "member_of (set demo_graph) ''user'' (demo_oid 1 ''alice'') (demo_oid 1 ''west'')"
    by (rule member_of.direct) (simp add: demo_graph_def)
  moreover from this have "member_of (set demo_graph) ''user'' (demo_oid 1 ''alice'') (demo_oid 1 ''sales'')"
    by (rule member_of.nested) (simp add: demo_graph_def)
  ultimately show "{x. member_of (set demo_graph) ''user'' (demo_oid 1 ''alice'') x} =
      {demo_oid 1 ''west'', demo_oid 1 ''sales''}" by blast
  have "x = demo_oid 1 ''sales''" if "member_of (set demo_graph) ''group'' (demo_oid 1 ''west'') x" for x
    using that by induction (use demo_distinct in \<open>auto simp: demo_graph_def\<close>)
  moreover have "member_of (set demo_graph) ''group'' (demo_oid 1 ''west'') (demo_oid 1 ''sales'')"
    by (rule member_of.direct) (simp add: demo_graph_def)
  ultimately show "{x. member_of (set demo_graph) ''group'' (demo_oid 1 ''west'') x} = {demo_oid 1 ''sales''}" by blast
qed

lemma demo_members:
  "{u. member_of (set demo_graph) ''user'' u (demo_oid 1 ''west'')} = {demo_oid 1 ''alice''}"
  "{u. member_of (set demo_graph) ''user'' u (demo_oid 1 ''sales'')} = {demo_oid 1 ''alice''}"
proof -
  have west: "u = demo_oid 1 ''alice''" if "member_of (set demo_graph) ''user'' u (demo_oid 1 ''west'')" for u
    using that by cases (use demo_distinct in \<open>auto simp: demo_graph_def\<close>)
  have sales: "u = demo_oid 1 ''alice''" if "member_of (set demo_graph) ''user'' u (demo_oid 1 ''sales'')" for u
    using that
  proof cases
    case direct
    then show ?thesis using demo_distinct by (auto simp: demo_graph_def)
  next
    case (nested inner)
    then have "inner = demo_oid 1 ''west''" using demo_distinct by (auto simp: demo_graph_def)
    with nested west show ?thesis by blast
  qed
  have w: "member_of (set demo_graph) ''user'' (demo_oid 1 ''alice'') (demo_oid 1 ''west'')"
    by (rule member_of.direct) (simp add: demo_graph_def)
  then have "member_of (set demo_graph) ''user'' (demo_oid 1 ''alice'') (demo_oid 1 ''sales'')"
    by (rule member_of.nested) (simp add: demo_graph_def)
  with w west sales show "{u. member_of (set demo_graph) ''user'' u (demo_oid 1 ''west'')} = {demo_oid 1 ''alice''}"
    "{u. member_of (set demo_graph) ''user'' u (demo_oid 1 ''sales'')} = {demo_oid 1 ''alice''}" by blast+
qed

definition demo_result :: "string \<Rightarrow> json" where
  "demo_result i = JObject [(''resourceObjectId'', JString i), (''subjectObjectId'', JString i)]"

lemma demo_result_ids [simp]: "resource_id (demo_result i) = Some i" "subject_id (demo_result i) = Some i"
  by (simp_all add: demo_result_def resource_id_def subject_id_def json_index_def)

lemma demo_reply:
  "stream_results demo_sd (str_lines (demo_oid 1 ''west'' @ [char_of (10 :: nat)] @ demo_oid 1 ''sales'')) =
   Inr [demo_result (demo_oid 1 ''west''), demo_result (demo_oid 1 ''sales'')]"
  "stream_results demo_sd (str_lines (demo_oid 1 ''sales'')) = Inr [demo_result (demo_oid 1 ''sales'')]"
  "stream_results demo_sd (str_lines (demo_oid 1 ''alice'')) = Inr [demo_result (demo_oid 1 ''alice'')]"
  "stream_results demo_sd (str_lines ''cycle'') = Inl (Api 200 [])"
  by (code_simp, code_simp, code_simp, code_simp)

lemma demo_lookup:
  "sd_http demo_sd ''/v1/permissions/resources'' body g =
     (if g = demo_graph \<and> body = resources_body UserPrincipal (demo_oid 1 ''alice'')
      then (Inr (200, demo_oid 1 ''west'' @ [char_of (10 :: nat)] @ demo_oid 1 ''sales''), g)
      else if g = demo_graph \<and> body = resources_body GroupPrincipal (demo_oid 1 ''west'')
      then (Inr (200, demo_oid 1 ''sales''), g)
      else (Inr (200, ''cycle''), g))"
  "sd_http demo_sd ''/v1/permissions/subjects'' body g =
     (if g = demo_graph \<and> (body = subjects_body (demo_oid 1 ''west'') \<or> body = subjects_body (demo_oid 1 ''sales''))
      then (Inr (200, demo_oid 1 ''alice''), g)
      else (Inr (200, ''cycle''), g))"
  by (simp_all add: demo_sd_def demo_http_def)

lemma resources_body_eq [simp]: "resources_body kind i = resources_body kind' i' \<longleftrightarrow> kind = kind' \<and> i = i'"
  by (cases kind; cases kind') (simp_all add: resources_body_def subject_ref_def object_ref_def)

lemma subjects_body_eq [simp]: "subjects_body i = subjects_body i' \<longleftrightarrow> i = i'"
  by (simp add: subjects_body_def object_ref_def)

lemma is_success_demo [simp]: "is_success 200" "\<not> is_success 500"
  by (simp_all add: is_success_def)

text \<open>The replies, case by case: the two closures, the members, or the error.\<close>

lemma demo_resources_cases:
  assumes "sd_http demo_sd ''/v1/permissions/resources'' (resources_body kind i) g = (Inr (status, reply), g')"
  shows "g' = g \<and> (reply = ''cycle'' \<or>
    g = demo_graph \<and> kind = UserPrincipal \<and> i = demo_oid 1 ''alice'' \<and>
      reply = demo_oid 1 ''west'' @ [char_of (10 :: nat)] @ demo_oid 1 ''sales'' \<or>
    g = demo_graph \<and> kind = GroupPrincipal \<and> i = demo_oid 1 ''west'' \<and> reply = demo_oid 1 ''sales'')"
  using assms by (auto simp only: demo_lookup resources_body_eq prod.inject sum.inject split: if_splits)

lemma demo_subjects_cases:
  assumes "sd_http demo_sd ''/v1/permissions/subjects'' (subjects_body i) g = (Inr (status, reply), g')"
  shows "g' = g \<and> (reply = ''cycle'' \<or>
    g = demo_graph \<and> (i = demo_oid 1 ''west'' \<or> i = demo_oid 1 ''sales'') \<and> reply = demo_oid 1 ''alice'')"
  using assms by (auto simp only: demo_lookup subjects_body_eq prod.inject sum.inject split: if_splits)

lemma demo_reply_ids:
  assumes pick: "\<And>i. pick (demo_result i) = Some i"
  shows "reply_ids demo_sd pick (demo_oid 1 ''west'' @ [char_of (10 :: nat)] @ demo_oid 1 ''sales'') =
      {demo_oid 1 ''west'', demo_oid 1 ''sales''}"
    "reply_ids demo_sd pick (demo_oid 1 ''sales'') = {demo_oid 1 ''sales''}"
    "reply_ids demo_sd pick (demo_oid 1 ''alice'') = {demo_oid 1 ''alice''}"
  unfolding reply_ids_def demo_reply by (auto simp: pick)

lemmas demo_ids = demo_reply_ids [of resource_id, OF demo_result_ids(1)] demo_reply_ids [of subject_id, OF demo_result_ids(2)]

lemma demo_lookups_ok: "lookups_ok demo_sd set"
proof -
  have r: "set g' = set g \<and> (\<forall>rs. stream_results demo_sd (str_lines reply) = Inr rs \<longrightarrow>
      reply_ids demo_sd resource_id reply = {x. member_of (set g) (object_type kind) i x})"
    if "sd_http demo_sd ''/v1/permissions/resources'' (resources_body kind i) g = (Inr (status, reply), g')" for g g' status reply i kind
    using demo_resources_cases [OF that]
    by (elim conjE disjE; simp only: demo_reply demo_member_of demo_ids object_type.simps; simp)
  have u: "set g' = set g \<and> (\<forall>rs. stream_results demo_sd (str_lines reply) = Inr rs \<longrightarrow>
      reply_ids demo_sd subject_id reply = {u. member_of (set g) ''user'' u i})"
    if "sd_http demo_sd ''/v1/permissions/subjects'' (subjects_body i) g = (Inr (status, reply), g')" for g g' status reply i
    using demo_subjects_cases [OF that]
    by (elim conjE disjE; simp only: demo_reply demo_members demo_ids; simp)
  show ?thesis unfolding lookups_ok_def by (intro allI impI conjI) (use r u in \<open>blast+\<close>)
qed

lemma demo_user_groups: "user_groups demo_sd 1 ''alice'' demo_graph = (Inr [''group:sales'', ''group:west''], demo_graph)"
proof -
  have "oid demo_sd 1 ''alice'' = demo_oid 1 ''alice''" by (simp add: demo_sd_def demo_oid_def)
  then have "post_stream demo_sd ''/v1/permissions/resources'' (resources_body UserPrincipal (oid demo_sd 1 ''alice'')) demo_graph =
      (Inr [demo_result (demo_oid 1 ''west''), demo_result (demo_oid 1 ''sales'')], demo_graph)"
    by (simp only: post_stream_def post_text_def demo_lookup simp_thms if_True prod.case sum.case is_success_demo bind_r.simps demo_reply)
  moreover have "names_of_tenant demo_sd 1 [demo_oid 1 ''west'', demo_oid 1 ''sales''] = [''west'', ''sales'']" by code_simp
  moreover have "remdups_adj (sort [''group:west'', ''group:sales'']) = [''group:sales'', ''group:west'']" by code_simp
  ultimately show ?thesis by (simp add: user_groups_def membership_closure_def)
qed

lemma demo_group_users:
  "group_users demo_sd 1 ''sales'' demo_graph = (Inr [''user:alice''], demo_graph)"
  "group_users demo_sd 1 ''west'' demo_graph = (Inr [''user:alice''], demo_graph)"
proof -
  have o: "oid demo_sd 1 n = demo_oid 1 n" for n by (simp add: demo_sd_def demo_oid_def)
  have "post_stream demo_sd ''/v1/permissions/subjects'' (subjects_body (oid demo_sd 1 ''sales'')) demo_graph =
      (Inr [demo_result (demo_oid 1 ''alice'')], demo_graph)"
    "post_stream demo_sd ''/v1/permissions/subjects'' (subjects_body (oid demo_sd 1 ''west'')) demo_graph =
      (Inr [demo_result (demo_oid 1 ''alice'')], demo_graph)"
    by (simp_all only: o post_stream_def post_text_def demo_lookup simp_thms if_True prod.case sum.case is_success_demo bind_r.simps demo_reply)
  moreover have "names_of_tenant demo_sd 1 [demo_oid 1 ''alice''] = [''alice'']" by code_simp
  ultimately show "group_users demo_sd 1 ''sales'' demo_graph = (Inr [''user:alice''], demo_graph)"
    "group_users demo_sd 1 ''west'' demo_graph = (Inr [''user:alice''], demo_graph)" by (simp_all add: group_users_def)
qed

lemma demo_tenant_tuples: "tenant_tuples demo_sd (set demo_graph)"
proof -
  have v: "valid_uuid 1" "valid_uuid 2" by (simp_all add: valid_uuid_def)
  have "(demo_oid t grp, object_type kind, demo_oid t name)
      \<in> {(oid demo_sd t grp, object_type kind, oid demo_sd t name) |t grp kind name.
           valid_uuid t \<and> sd_utf8 demo_sd grp \<and> sd_utf8 demo_sd name}" if "valid_uuid t" for t grp kind name
    using that unfolding demo_oid_def by (intro CollectI exI [of _ t] exI [of _ grp] exI [of _ kind] exI [of _ name])
      (simp add: demo_sd_def)
  from this [OF v(1), of _ UserPrincipal] this [OF v(1), of _ GroupPrincipal]
    this [OF v(2), of _ UserPrincipal] this [OF v(2), of _ GroupPrincipal]
  show ?thesis unfolding tenant_tuples_def demo_graph_def by (simp only: list.set insert_subset empty_subsetI object_type.simps simp_thms)
qed

theorem client_refines_directory_witness:
  "user_groups demo_sd 1 ''alice'' demo_graph = (Inr [''group:sales'', ''group:west''], demo_graph) \<and>
   {''group:'' @ h |h. in_group (memberships demo_sd (set demo_graph)) 1 UserPrincipal ''alice'' h} =
     {''group:sales'', ''group:west''} \<and>
   {''user:'' @ u |u. in_group (memberships demo_sd (set demo_graph)) 1 UserPrincipal u ''sales''} = {''user:alice''} \<and>
   user_groups demo_sd 1 ''bob'' demo_graph = (Inl (Api 200 []), demo_graph) \<and>
   memberships demo_sd (set (snd (write_membership demo_sd 2 ''west'' UserPrincipal ''bob'' demo_graph))) =
     insert (2, ''west'', UserPrincipal, ''bob'') (memberships demo_sd (set demo_graph))"
proof -
  have v: "valid_uuid 1" "valid_uuid 2" by (simp_all add: valid_uuid_def)
  note u = demo_user_groups
  have "fst (write_membership demo_sd 2 ''west'' UserPrincipal ''bob'' demo_graph) = Inr ()" by code_simp
  then obtain g' where w: "write_membership demo_sd 2 ''west'' UserPrincipal ''bob'' demo_graph = (Inr (), g')"
    by (cases "write_membership demo_sd 2 ''west'' UserPrincipal ''bob'' demo_graph") simp
  have utf8: "sd_utf8 demo_sd n" for n by (simp add: demo_sd_def)
  note spec = client_refines_directory [OF demo_uuid_ok demo_writes_ok demo_lookups_ok demo_tenant_tuples _ utf8 utf8]
  from spec [OF v(1), THEN conjunct2, THEN conjunct2, THEN conjunct2, THEN conjunct2, THEN conjunct1, rule_format, OF u]
  have "set [''group:sales'', ''group:west''] =
      {''group:'' @ h |h. in_group (memberships demo_sd (set demo_graph)) 1 UserPrincipal ''alice'' h}" by (elim conjE)
  moreover from spec [OF v(1), THEN conjunct2, THEN conjunct2, THEN conjunct2, THEN conjunct2, THEN conjunct2, THEN conjunct2, rule_format, OF demo_group_users(1)]
  have "set [''user:alice''] = {''user:'' @ u |u. in_group (memberships demo_sd (set demo_graph)) 1 UserPrincipal u ''sales''}"
    by (elim conjE)
  moreover have "sd_http demo_sd ''/v1/permissions/resources'' (resources_body UserPrincipal (oid demo_sd 1 ''bob'')) demo_graph =
      (Inr (200, ''cycle''), demo_graph)" by code_simp
  with spec [OF v(1), THEN conjunct2, THEN conjunct2, THEN conjunct2, THEN conjunct1, rule_format, THEN conjunct1, rule_format, OF demo_reply(4) is_success_demo(1)]
  have "user_groups demo_sd 1 ''bob'' demo_graph = (Inl (Api 200 []), demo_graph)" by blast
  moreover from spec [OF v(2), THEN conjunct1, rule_format, OF w] have
    "memberships demo_sd (set g') = insert (2, ''west'', UserPrincipal, ''bob'') (memberships demo_sd (set demo_graph))"
    by (elim conjE)
  ultimately show ?thesis using u w by (simp only: snd_conv list.set simp_thms)
qed

end
