(* ===== verification/Identity_Admin.thy ===== *)
theory Identity_Admin
  imports Rebac_Client Chunk_Delivery
begin

text \<open>
  The identity plane's admin routes (\<^verbatim>\<open>crates/verity-server/src/main.rs\<close>): the admin bearer gate, the
  canonical-principal registry with its aliases and crosswalk, principal token upserts, group membership
  over SpiceDB, and the revoke, reinstate and deprovision routes. HMAC and Unicode lower-casing are
  parameters; every route states its gate, its refusals and the writes in the order the code makes them.
\<close>

section \<open>The admin gate\<close>

record headers =
  hd_authorization :: "string option"
  hd_origin :: "string option"

record admin_auth =
  ad_mac :: "string \<Rightarrow> string"
  ad_expected_tag :: "string option"
  ad_allowed_origin :: "string option"

definition bearer :: "headers \<Rightarrow> string option" where
  "bearer h = (case hd_authorization h of None \<Rightarrow> None | Some v \<Rightarrow> strip_prefix ''Bearer '' v)"

datatype id_refusal =
    Unauthorized string
  | OriginRefused
  | IdTenantUnknown storage_error
  | RebacUnset
  | GroupShape
  | MemberShape
  | SelfMember
  | UserShape
  | CanonicalShape string
  | Gateway rebac_error

fun id_status :: "id_refusal \<Rightarrow> nat" where
  "id_status (Unauthorized _) = 401"
| "id_status OriginRefused = 403"
| "id_status (IdTenantUnknown _) = 404"
| "id_status RebacUnset = 503"
| "id_status GroupShape = 422"
| "id_status MemberShape = 422"
| "id_status SelfMember = 422"
| "id_status UserShape = 422"
| "id_status (CanonicalShape _) = 422"
| "id_status (Gateway _) = 502"

definition verify_bearer :: "admin_auth \<Rightarrow> headers \<Rightarrow> string \<Rightarrow> id_refusal + unit" where
  "verify_bearer au h expected =
     (case bearer h of
        None \<Rightarrow> Inl (Unauthorized ''admin surface requires Authorization: Bearer <token>'')
      | Some provided \<Rightarrow>
          if ad_mac au (trim provided) = expected then Inr () else Inl (Unauthorized ''invalid admin token''))"

definition admin_check :: "admin_auth \<Rightarrow> headers \<Rightarrow> id_refusal + unit" where
  "admin_check au h = (case ad_expected_tag au of None \<Rightarrow> Inr () | Some e \<Rightarrow> verify_bearer au h e)"

definition admin_require :: "admin_auth \<Rightarrow> headers \<Rightarrow> id_refusal + unit" where
  "admin_require au h =
     (case ad_expected_tag au of
        None \<Rightarrow> Inl (Unauthorized ''secret intake requires VERITY_ADMIN_TOKEN (no dev-open path)'')
      | Some e \<Rightarrow> verify_bearer au h e)"

definition check_origin :: "admin_auth \<Rightarrow> headers \<Rightarrow> id_refusal + unit" where
  "check_origin au h =
     (case hd_origin h of
        None \<Rightarrow> Inr ()
      | Some origin \<Rightarrow>
          (case ad_allowed_origin au of
             Some permitted \<Rightarrow> if origin = permitted then Inr () else Inl OriginRefused
           | None \<Rightarrow> Inl OriginRefused))"

definition secret_intake_auth :: "admin_auth \<Rightarrow> headers \<Rightarrow> id_refusal + unit" where
  "secret_intake_auth au h = and_then (check_origin au h) (\<lambda>_. admin_require au h)"

text \<open>The bearer's fingerprint: the first six bytes of its tag in lower-case hex.\<close>

definition lower_hex_digit :: "nat \<Rightarrow> char" where
  "lower_hex_digit n = (if n < 10 then char_of (48 + n) else char_of (87 + n))"

definition hex_byte :: "char \<Rightarrow> string" where
  "hex_byte c = [lower_hex_digit (of_char c div 16), lower_hex_digit (of_char c mod 16)]"

definition actor_fingerprint :: "admin_auth \<Rightarrow> headers \<Rightarrow> string" where
  "actor_fingerprint au h =
     (case bearer h of
        None \<Rightarrow> ''dev-open''
      | Some provided \<Rightarrow> ''bearer:'' @ concat (map hex_byte (take 6 (ad_mac au (trim provided)))))"

section \<open>State\<close>

record canonical_row =
  cp_tenant_id :: tenant_id
  cp_canonical :: string
  cp_kind :: string
  cp_idp_subject :: string
  cp_active :: bool
  cp_epoch :: int

record sso_alias_row =
  sa_tenant_id :: tenant_id
  sa_canonical :: string
  sa_alias :: string
  sa_source :: string

record crosswalk_row =
  xw_tenant_id :: tenant_id
  xw_source :: string
  xw_local_id :: string
  xw_canonical :: string
  xw_link_method :: string
  xw_active :: bool

record access_audit_row =
  aa_tenant_id :: tenant_id
  aa_actor :: string
  aa_endpoint :: string
  aa_query_target :: string
  aa_params :: json
  aa_result_meta :: json

record 'g identity_state =
  is_server :: server_state
  is_graph :: 'g
  is_canonical :: "canonical_row list"
  is_aliases :: "sso_alias_row list"
  is_crosswalk :: "crosswalk_row list"
  is_audit :: "access_audit_row list"

record 'g identity_env =
  ie_auth :: admin_auth
  ie_rebac :: "'g spicedb option"
  ie_lower :: "string \<Rightarrow> string"
  ie_fresh :: "nat \<Rightarrow> uuid"

type_synonym ('g, 'a) id_result = "(id_refusal + 'a) \<times> 'g identity_state"

fun bind_i :: "('g, 'a) id_result \<Rightarrow> ('a \<Rightarrow> 'g identity_state \<Rightarrow> ('g, 'b) id_result) \<Rightarrow> ('g, 'b) id_result" where
  "bind_i (Inl e, st) f = (Inl e, st)"
| "bind_i (Inr a, st) f = f a st"

definition guard_i :: "id_refusal + 'a \<Rightarrow> 'g identity_state \<Rightarrow> ('g, 'a) id_result" where
  "guard_i r st = (r, st)"

definition tenant_known :: "tenant_id \<Rightarrow> 'g identity_state \<Rightarrow> id_refusal + unit" where
  "tenant_known t st = (case ensure_tenant t (sv_db (is_server st)) of
     Inl e \<Rightarrow> Inl (IdTenantUnknown e) | Inr u \<Rightarrow> Inr u)"

text \<open>A SpiceDB call moves the graph; its errors are bad gateways.\<close>

definition via_gateway :: "('g \<Rightarrow> ('g, 'a) rebac_result) \<Rightarrow> 'g identity_state \<Rightarrow> ('g, 'a) id_result" where
  "via_gateway call st = (case call (is_graph st) of
     (Inl e, g) \<Rightarrow> (Inl (Gateway e), st\<lparr>is_graph := g\<rparr>)
   | (Inr a, g) \<Rightarrow> (Inr a, st\<lparr>is_graph := g\<rparr>))"

definition upsert_tokens_i ::
  "tenant_id \<Rightarrow> string list \<Rightarrow> 'g identity_state \<Rightarrow> (string \<times> principal_token) list \<times> 'g identity_state" where
  "upsert_tokens_i t ps st =
     (let sv = is_server st; (ms, rows) = upsert_principal_tokens t ps (rd_principals (sv_rev sv))
      in (ms, st\<lparr>is_server := sv\<lparr>sv_rev := (sv_rev sv)\<lparr>rd_principals := rows\<rparr>\<rparr>\<rparr>))"

definition write_access_audit ::
  "tenant_id \<Rightarrow> string \<Rightarrow> string \<Rightarrow> string \<Rightarrow> json \<Rightarrow> json \<Rightarrow> 'g identity_state \<Rightarrow> 'g identity_state" where
  "write_access_audit t actor endpoint target params meta st = st\<lparr>is_audit := is_audit st @
     [\<lparr>aa_tenant_id = t, aa_actor = actor, aa_endpoint = endpoint, aa_query_target = target,
       aa_params = params, aa_result_meta = meta\<rparr>]\<rparr>"

section \<open>Resolution at the ingest boundary\<close>

text \<open>The join of live crosswalk rows with live canonicals; later rows overwrite earlier ones.\<close>

definition crosswalk_join :: "tenant_id \<Rightarrow> string \<Rightarrow> string list \<Rightarrow> 'g identity_state \<Rightarrow> (string \<times> string) list" where
  "crosswalk_join t source local_ids st =
     concat (map (\<lambda>x. map (\<lambda>c. (xw_local_id x, cp_canonical c))
         (filter (\<lambda>c. cp_tenant_id c = xw_tenant_id x \<and> cp_canonical c = xw_canonical x \<and> cp_active c) (is_canonical st)))
       (filter (\<lambda>x. xw_tenant_id x = t \<and> xw_source x = source \<and> xw_local_id x \<in> set local_ids \<and> xw_active x)
          (is_crosswalk st)))"

definition insert_all :: "('k \<times> 'v) list \<Rightarrow> 'k \<rightharpoonup> 'v" where
  "insert_all rows = foldl (\<lambda>m (k, v). m(k \<mapsto> v)) Map.empty rows"

definition resolve_crosswalk ::
  "tenant_id \<Rightarrow> string \<Rightarrow> string list \<Rightarrow> 'g identity_state \<Rightarrow> string option list" where
  "resolve_crosswalk t source local_ids st =
     (if local_ids = [] then [] else map (insert_all (crosswalk_join t source local_ids st)) local_ids)"

definition left_join :: "('a \<Rightarrow> bool) \<Rightarrow> 'a list \<Rightarrow> 'a option list" where
  "left_join P rows = (case filter P rows of [] \<Rightarrow> [None] | rs \<Rightarrow> map Some rs)"

definition live_canonical :: "tenant_id \<Rightarrow> string \<Rightarrow> canonical_row \<Rightarrow> bool" where
  "live_canonical t canonical c \<longleftrightarrow> cp_tenant_id c = t \<and> cp_canonical c = canonical \<and> cp_active c"

definition subject_rows :: "tenant_id \<Rightarrow> 'g identity_state \<Rightarrow> string \<Rightarrow> (string \<times> string option) list" where
  "subject_rows t st s =
     concat (map (\<lambda>direct. concat (map (\<lambda>al.
         map (\<lambda>via. (s, case direct of Some c \<Rightarrow> Some (cp_canonical c) | None \<Rightarrow> map_option cp_canonical via))
           (case al of None \<Rightarrow> [None]
            | Some a \<Rightarrow> left_join (live_canonical t (sa_canonical a)) (is_canonical st)))
         (left_join (\<lambda>a. sa_tenant_id a = t \<and> sa_alias a = s) (is_aliases st))))
       (left_join (\<lambda>c. cp_tenant_id c = t \<and> cp_idp_subject c = s \<and> cp_active c) (is_canonical st)))"

definition resolve_idp_subject :: "tenant_id \<Rightarrow> string list \<Rightarrow> 'g identity_state \<Rightarrow> string option list" where
  "resolve_idp_subject t subjects st =
     (if subjects = [] then []
      else map (insert_all (List.map_filter (\<lambda>(s, canonical). map_option (Pair s) canonical)
             (concat (map (subject_rows t st) subjects)))) subjects)"

record principals_request =
  pq_tenant_id :: tenant_id
  pq_principals :: "string list"
  pq_resolvable :: "(string \<times> string) list"
  pq_emails :: "string list"

definition flatten :: "'a option list \<Rightarrow> 'a list" where
  "flatten xs = List.map_filter id xs"

definition by_source :: "(string \<times> string) list \<Rightarrow> (string, string list) btree_map" where
  "by_source owners = foldl (\<lambda>m (source, local_id). bt_update source [] (\<lambda>ids. ids @ [local_id]) m) [] owners"

definition resolved_principals :: "principals_request \<Rightarrow> 'g identity_state \<Rightarrow> string list" where
  "resolved_principals req st = pq_principals req @
     concat (map (\<lambda>(source, ids). flatten (resolve_crosswalk (pq_tenant_id req) source ids st))
       (by_source (pq_resolvable req))) @
     flatten (resolve_idp_subject (pq_tenant_id req) (pq_emails req) st)"

text \<open>The answer is the token mappings and whether the envelope must be quarantined.\<close>

definition admin_principals ::
  "'g identity_env \<Rightarrow> headers \<Rightarrow> principals_request \<Rightarrow> 'g identity_state
   \<Rightarrow> ('g, (string, principal_token) btree_map \<times> bool) id_result" where
  "admin_principals env h req st =
     bind_i (guard_i (and_then (admin_check (ie_auth env) h) (\<lambda>_. tenant_known (pq_tenant_id req) st)) st)
       (\<lambda>_ st.
          let had_resolvable = (pq_resolvable req \<noteq> [] \<or> pq_emails req \<noteq> []);
              resolved = resolved_principals req st
          in if resolved = [] \<and> had_resolvable then (Inr ([], True), st)
             else let (ms, st1) = upsert_tokens_i (pq_tenant_id req) resolved st
                  in (Inr (foldl (\<lambda>m (p, tok). bt_insert p tok m) [] ms, False), st1))"

section \<open>Listing principals\<close>

definition list_principals :: "tenant_id \<Rightarrow> principal_token \<Rightarrow> int \<Rightarrow> principal_row list \<Rightarrow> (string \<times> principal_token) list" where
  "list_principals t after limit rows =
     map (\<lambda>r. (pr_principal r, pr_token r))
       (take (nat (clamp 1 1000 limit))
          (sort_key pr_token (filter (\<lambda>r. pr_tenant_id r = t \<and> after < pr_token r) rows)))"

definition admin_list_principals ::
  "'g identity_env \<Rightarrow> headers \<Rightarrow> tenant_id \<Rightarrow> principal_token \<Rightarrow> int \<Rightarrow> 'g identity_state
   \<Rightarrow> id_refusal + (string \<times> principal_token) list \<times> principal_token option" where
  "admin_list_principals env h t after limit st =
     and_then (admin_check (ie_auth env) h) (\<lambda>_.
       let lim = clamp 1 1000 limit;
           rows = list_principals t after lim (rd_principals (sv_rev (is_server st)))
       in Inr (rows, if int (length rows) = lim then Some (snd (last rows)) else None))"

section \<open>Group membership\<close>

record group_request =
  gq_tenant_id :: tenant_id
  gq_group :: string
  gq_member :: string

definition parse_group :: "string \<Rightarrow> id_refusal + string" where
  "parse_group s = (case parse_principal s of Some (GroupPrincipal, name) \<Rightarrow> Inr name | _ \<Rightarrow> Inl GroupShape)"

definition parse_membership :: "group_request \<Rightarrow> id_refusal + string \<times> principal_kind \<times> string" where
  "parse_membership req =
     and_then (parse_group (gq_group req)) (\<lambda>group_name.
       case parse_principal (gq_member req) of
         None \<Rightarrow> Inl MemberShape
       | Some (kind, name) \<Rightarrow>
           if kind = GroupPrincipal \<and> name = group_name then Inl SelfMember else Inr (group_name, kind, name))"

definition require_rebac :: "'g identity_env \<Rightarrow> id_refusal + 'g spicedb" where
  "require_rebac env = (case ie_rebac env of None \<Rightarrow> Inl RebacUnset | Some sd \<Rightarrow> Inr sd)"

definition group_guard ::
  "'g identity_env \<Rightarrow> headers \<Rightarrow> group_request \<Rightarrow> 'g identity_state
   \<Rightarrow> id_refusal + 'g spicedb \<times> string \<times> principal_kind \<times> string" where
  "group_guard env h req st =
     and_then (admin_check (ie_auth env) h) (\<lambda>_.
     and_then (tenant_known (gq_tenant_id req) st) (\<lambda>_.
     and_then (require_rebac env) (\<lambda>sd.
     and_then (parse_membership req) (\<lambda>m. Inr (sd, m)))))"

definition admin_group_add ::
  "'g identity_env \<Rightarrow> headers \<Rightarrow> group_request \<Rightarrow> 'g identity_state \<Rightarrow> ('g, (string \<times> principal_token) list) id_result" where
  "admin_group_add env h req st =
     bind_i (guard_i (group_guard env h req st) st) (\<lambda>(sd, group_name, kind, name) st.
       let (ms, st1) = upsert_tokens_i (gq_tenant_id req) [gq_group req, gq_member req] st
       in bind_i (via_gateway (write_membership sd (gq_tenant_id req) group_name kind name) st1)
            (\<lambda>_ st2. (Inr ms, st2)))"

text \<open>The subtree that loses the group: the user, or the users of the inner group and the group itself.\<close>

definition affected_members ::
  "'g spicedb \<Rightarrow> tenant_id \<Rightarrow> string \<Rightarrow> principal_kind \<Rightarrow> string \<Rightarrow> 'g identity_state \<Rightarrow> ('g, string list) id_result" where
  "affected_members sd t member kind name st =
     (case kind of
        UserPrincipal \<Rightarrow> (Inr [member], st)
      | GroupPrincipal \<Rightarrow> bind_i (via_gateway (group_users sd t name) st) (\<lambda>users st1. (Inr (users @ [member]), st1)))"

text \<open>The materialized tokens among some principals.\<close>

definition materialized :: "tenant_id \<Rightarrow> string list \<Rightarrow> principal_row list \<Rightarrow> (string \<times> principal_token) list" where
  "materialized t ps rows =
     map (\<lambda>r. (pr_principal r, pr_token r)) (filter (\<lambda>r. pr_tenant_id r = t \<and> pr_principal r \<in> set ps) rows)"

definition record_tombstones ::
  "instant \<Rightarrow> tenant_id \<Rightarrow> string list \<Rightarrow> (string \<times> principal_token) list \<Rightarrow> 'g identity_state \<Rightarrow> nat \<times> 'g identity_state" where
  "record_tombstones now t affected lost st =
     (let sv = is_server st;
          (n, (rev', pl')) = record_revocations now t affected lost (sv_rev sv, sv_plane sv)
      in (n, st\<lparr>is_server := sv\<lparr>sv_rev := rev', sv_plane := pl'\<rparr>\<rparr>))"

record removal =
  rm_tombstones :: nat
  rm_revoked_principals :: "string list"
  rm_affected_members :: "string list"

definition admin_group_remove ::
  "'g identity_env \<Rightarrow> headers \<Rightarrow> instant \<Rightarrow> group_request \<Rightarrow> 'g identity_state \<Rightarrow> ('g, removal) id_result" where
  "admin_group_remove env h now req st =
     bind_i (guard_i (group_guard env h req st) st) (\<lambda>(sd, group_name, kind, name) st.
     bind_i (affected_members sd (gq_tenant_id req) (gq_member req) kind name st) (\<lambda>affected st1.
     bind_i (via_gateway (group_and_ancestors sd (gq_tenant_id req) group_name) st1) (\<lambda>lost_principals st2.
       let lost = materialized (gq_tenant_id req) lost_principals (rd_principals (sv_rev (is_server st2)));
           (n, st3) = record_tombstones now (gq_tenant_id req) affected lost st2
       in bind_i (via_gateway (delete_membership sd (gq_tenant_id req) group_name kind name) st3)
            (\<lambda>_ st4. (Inr \<lparr>rm_tombstones = n, rm_revoked_principals = map fst lost,
                          rm_affected_members = affected\<rparr>, st4)))))"

definition admin_group_members ::
  "'g identity_env \<Rightarrow> headers \<Rightarrow> tenant_id \<Rightarrow> string \<Rightarrow> 'g identity_state
   \<Rightarrow> ('g, string \<times> (principal_kind \<times> string) list \<times> nat) id_result" where
  "admin_group_members env h t grp st =
     bind_i (guard_i (and_then (admin_check (ie_auth env) h) (\<lambda>_.
         if t \<in> set (db_tenants (sv_db (is_server st))) then
           and_then (require_rebac env) (\<lambda>sd. and_then (parse_group grp) (\<lambda>name. Inr (sd, name)))
         else Inl (IdTenantUnknown (UnknownTenant t)))) st) (\<lambda>(sd, name) st.
     bind_i (via_gateway (group_direct_members sd t name) st) (\<lambda>direct st1.
     bind_i (via_gateway (group_users sd t name) st1) (\<lambda>users st2.
       (Inr (''group:'' @ name, direct, length users), st2))))"

section \<open>Revoking and reinstating people\<close>

record person_request =
  pe_tenant_id :: tenant_id
  pe_principal :: string

definition require_user_principal :: "string \<Rightarrow> id_refusal + unit" where
  "require_user_principal p = (case parse_principal p of Some (UserPrincipal, _) \<Rightarrow> Inr () | _ \<Rightarrow> Inl UserShape)"

definition person_guard ::
  "'g identity_env \<Rightarrow> headers \<Rightarrow> person_request \<Rightarrow> 'g identity_state \<Rightarrow> id_refusal + unit" where
  "person_guard env h req st =
     and_then (admin_require (ie_auth env) h) (\<lambda>_.
     and_then (tenant_known (pe_tenant_id req) st) (\<lambda>_. require_user_principal (pe_principal req)))"

definition self_token :: "person_request \<Rightarrow> 'g identity_state \<Rightarrow> principal_token \<times> 'g identity_state" where
  "self_token req st =
     (let (ms, st1) = upsert_tokens_i (pe_tenant_id req) [pe_principal req] st in (snd (ms ! 0), st1))"

definition revoke_token :: "instant \<Rightarrow> person_request \<Rightarrow> principal_token \<Rightarrow> 'g identity_state \<Rightarrow> 'g identity_state" where
  "revoke_token now req token st =
     (let sv = is_server st;
          (rev', pl') = revoke_principal now (pe_tenant_id req) (pe_principal req) token (sv_rev sv, sv_plane sv)
      in st\<lparr>is_server := sv\<lparr>sv_rev := rev', sv_plane := pl'\<rparr>\<rparr>)"

definition sweep_token ::
  "(nat \<Rightarrow> uuid) \<Rightarrow> person_request \<Rightarrow> principal_token \<Rightarrow> 'g identity_state \<Rightarrow> nat \<times> 'g identity_state" where
  "sweep_token fresh req token st =
     (let sv = is_server st;
          (n, db') = retract_token_from_chunks fresh (pe_tenant_id req) token PrincipalRevoke (pe_principal req) (sv_db sv)
      in (n, st\<lparr>is_server := sv\<lparr>sv_db := db'\<rparr>\<rparr>))"

definition admin_principal_revoke ::
  "'g identity_env \<Rightarrow> headers \<Rightarrow> instant \<Rightarrow> person_request \<Rightarrow> 'g identity_state
   \<Rightarrow> ('g, principal_token \<times> nat) id_result" where
  "admin_principal_revoke env h now req st =
     bind_i (guard_i (person_guard env h req st) st) (\<lambda>_ st.
       let (token, st1) = self_token req st;
           st2 = revoke_token now req token st1;
           (swept, st3) = sweep_token (ie_fresh env) req token st2
       in (Inr (token, swept), st3))"

definition admin_principal_reinstate ::
  "'g identity_env \<Rightarrow> headers \<Rightarrow> instant \<Rightarrow> person_request \<Rightarrow> 'g identity_state \<Rightarrow> ('g, bool) id_result" where
  "admin_principal_reinstate env h now req st =
     bind_i (guard_i (person_guard env h req st) st) (\<lambda>_ st.
       let sv = is_server st
       in case materialized (pe_tenant_id req) [pe_principal req] (rd_principals (sv_rev sv)) of
            [] \<Rightarrow> (Inr False, st)
          | (_, token) # _ \<Rightarrow>
              let (was, (rev', pl')) = reinstate_principal now (pe_tenant_id req) token (sv_rev sv, sv_plane sv)
              in (Inr was, st\<lparr>is_server := sv\<lparr>sv_rev := rev', sv_plane := pl'\<rparr>\<rparr>))"

section \<open>The registry\<close>

record canonical_entry =
  ce_canonical :: string
  ce_kind :: string
  ce_idp_subject :: string
  ce_active :: bool
  ce_epoch :: int

definition upsert_canonical :: "tenant_id \<Rightarrow> string \<Rightarrow> canonical_entry \<Rightarrow> canonical_row list \<Rightarrow> canonical_row list" where
  "upsert_canonical t subject e rows =
     (let P = (\<lambda>c. cp_tenant_id c = t \<and> cp_canonical c = ce_canonical e)
      in if list_ex P rows
         then update_where P (\<lambda>c. c\<lparr>cp_kind := ce_kind e, cp_idp_subject := subject, cp_active := ce_active e,
                cp_epoch := ce_epoch e\<rparr>) rows
         else rows @ [\<lparr>cp_tenant_id = t, cp_canonical = ce_canonical e, cp_kind = ce_kind e, cp_idp_subject = subject,
                cp_active = ce_active e, cp_epoch = ce_epoch e\<rparr>])"

text \<open>The loop over the request's rows; a malformed row ends it with the earlier rows written.\<close>

fun registry_rows ::
  "(string \<Rightarrow> string) \<Rightarrow> tenant_id \<Rightarrow> canonical_entry list \<Rightarrow> string list \<times> (string \<times> string) list
   \<Rightarrow> 'g identity_state \<Rightarrow> ('g, string list \<times> (string \<times> string) list) id_result" where
  "registry_rows lower t [] acc st = (Inr acc, st)"
| "registry_rows lower t (e # es) (upserted, quarantined) st =
     (if parse_principal (ce_canonical e) = None then (Inl (CanonicalShape (ce_canonical e)), st)
      else let subject = lower (ce_idp_subject e)
           in if list_ex (\<lambda>c. cp_tenant_id c = t \<and> cp_idp_subject c = subject \<and> cp_canonical c \<noteq> ce_canonical e) (is_canonical st)
              then registry_rows lower t es (upserted, quarantined @ [(ce_canonical e, subject)]) st
              else registry_rows lower t es (upserted @ [ce_canonical e], quarantined)
                     (st\<lparr>is_canonical := upsert_canonical t subject e (is_canonical st)\<rparr>))"

definition counts :: "'a list \<Rightarrow> 'b list \<Rightarrow> json" where
  "counts upserted quarantined = JObject
     [(''quarantined'', JNumber (PosInt (length quarantined))), (''upserted'', JNumber (PosInt (length upserted)))]"

definition registry_guard :: "'g identity_env \<Rightarrow> headers \<Rightarrow> tenant_id \<Rightarrow> 'g identity_state \<Rightarrow> id_refusal + unit" where
  "registry_guard env h t st = and_then (admin_require (ie_auth env) h) (\<lambda>_. tenant_known t st)"

definition admin_registry_canonical ::
  "'g identity_env \<Rightarrow> headers \<Rightarrow> tenant_id \<Rightarrow> canonical_entry list \<Rightarrow> 'g identity_state
   \<Rightarrow> ('g, string list \<times> (string \<times> string) list) id_result" where
  "admin_registry_canonical env h t es st =
     bind_i (guard_i (registry_guard env h t st) st) (\<lambda>_ st.
     bind_i (registry_rows (ie_lower env) t es ([], []) st) (\<lambda>(upserted, quarantined) st1.
       (Inr (upserted, quarantined),
        write_access_audit t (actor_fingerprint (ie_auth env) h) ''registry/canonical'' ''registry''
          (JObject [(''count'', JNumber (PosInt (length es)))]) (counts upserted quarantined) st1)))"

text \<open>An alias is inserted when free, refreshed when it is already this canonical's, else left alone.\<close>

definition upsert_alias :: "tenant_id \<Rightarrow> string \<Rightarrow> string \<Rightarrow> string \<Rightarrow> sso_alias_row list \<Rightarrow> nat \<times> sso_alias_row list" where
  "upsert_alias t canonical al source rows =
     (let P = (\<lambda>a. sa_tenant_id a = t \<and> sa_alias a = al)
      in if list_ex P rows
         then let Q = (\<lambda>a. P a \<and> sa_canonical a = canonical)
              in (rows_affected Q rows, update_where Q (\<lambda>a. a\<lparr>sa_source := source\<rparr>) rows)
         else (1, rows @ [\<lparr>sa_tenant_id = t, sa_canonical = canonical, sa_alias = al, sa_source = source\<rparr>]))"

fun alias_rows ::
  "(string \<Rightarrow> string) \<Rightarrow> tenant_id \<Rightarrow> (string \<times> string \<times> string) list \<Rightarrow> string list \<times> (string \<times> string) list
   \<Rightarrow> 'g identity_state \<Rightarrow> ('g, string list \<times> (string \<times> string) list) id_result" where
  "alias_rows lower t [] acc st = (Inr acc, st)"
| "alias_rows lower t ((canonical, raw, source) # es) (upserted, quarantined) st =
     (if parse_principal canonical = None then (Inl (CanonicalShape canonical), st)
      else let al = lower raw; (affected, rows) = upsert_alias t canonical al source (is_aliases st);
               st1 = st\<lparr>is_aliases := rows\<rparr>
           in if affected = 0 then alias_rows lower t es (upserted, quarantined @ [(al, canonical)]) st1
              else alias_rows lower t es (upserted @ [al], quarantined) st1)"

definition admin_registry_alias ::
  "'g identity_env \<Rightarrow> headers \<Rightarrow> tenant_id \<Rightarrow> (string \<times> string \<times> string) list \<Rightarrow> 'g identity_state
   \<Rightarrow> ('g, string list \<times> (string \<times> string) list) id_result" where
  "admin_registry_alias env h t es st =
     bind_i (guard_i (registry_guard env h t st) st) (\<lambda>_ st.
     bind_i (alias_rows (ie_lower env) t es ([], []) st) (\<lambda>(upserted, quarantined) st1.
       (Inr (upserted, quarantined),
        write_access_audit t (actor_fingerprint (ie_auth env) h) ''registry/alias'' ''registry''
          (JObject [(''count'', JNumber (PosInt (length es)))]) (counts upserted quarantined) st1)))"

record crosswalk_request =
  xq_tenant_id :: tenant_id
  xq_source :: string
  xq_local_id :: string
  xq_canonical :: string
  xq_link_method :: string

definition upsert_crosswalk :: "crosswalk_request \<Rightarrow> crosswalk_row list \<Rightarrow> crosswalk_row list" where
  "upsert_crosswalk req rows =
     (let P = (\<lambda>x. xw_tenant_id x = xq_tenant_id req \<and> xw_source x = xq_source req \<and> xw_local_id x = xq_local_id req)
      in if list_ex P rows
         then update_where P (\<lambda>x. x\<lparr>xw_canonical := xq_canonical req, xw_link_method := xq_link_method req,
                xw_active := True\<rparr>) rows
         else rows @ [\<lparr>xw_tenant_id = xq_tenant_id req, xw_source = xq_source req, xw_local_id = xq_local_id req,
                xw_canonical = xq_canonical req, xw_link_method = xq_link_method req, xw_active = True\<rparr>])"

definition admin_crosswalk_link ::
  "'g identity_env \<Rightarrow> headers \<Rightarrow> crosswalk_request \<Rightarrow> 'g identity_state \<Rightarrow> ('g, unit) id_result" where
  "admin_crosswalk_link env h req st =
     bind_i (guard_i (registry_guard env h (xq_tenant_id req) st) st) (\<lambda>_ st.
       if parse_principal (xq_canonical req) = None then (Inl (CanonicalShape (xq_canonical req)), st)
       else (Inr (), write_access_audit (xq_tenant_id req) (actor_fingerprint (ie_auth env) h) ''crosswalk/link''
              (xq_source req @ '':'' @ xq_local_id req)
              (JObject [(''canonical'', JString (xq_canonical req)), (''link_method'', JString (xq_link_method req))])
              (JObject [(''linked'', JBool True)])
              (st\<lparr>is_crosswalk := upsert_crosswalk req (is_crosswalk st)\<rparr>)))"

definition deactivate :: "person_request \<Rightarrow> 'g identity_state \<Rightarrow> 'g identity_state" where
  "deactivate req st = st\<lparr>
     is_canonical := update_where (\<lambda>c. cp_tenant_id c = pe_tenant_id req \<and> cp_canonical c = pe_principal req)
       (\<lambda>c. c\<lparr>cp_active := False\<rparr>) (is_canonical st),
     is_crosswalk := update_where (\<lambda>x. xw_tenant_id x = pe_tenant_id req \<and> xw_canonical x = pe_principal req)
       (\<lambda>x. x\<lparr>xw_active := False\<rparr>) (is_crosswalk st)\<rparr>"

definition admin_deprovision ::
  "'g identity_env \<Rightarrow> headers \<Rightarrow> instant \<Rightarrow> person_request \<Rightarrow> 'g identity_state
   \<Rightarrow> ('g, principal_token \<times> nat) id_result" where
  "admin_deprovision env h now req st =
     bind_i (guard_i (person_guard env h req st) st) (\<lambda>_ st.
       let (token, st1) = self_token req st;
           st2 = revoke_token now req token (deactivate req st1);
           (swept, st3) = sweep_token (ie_fresh env) req token st2
       in (Inr (token, swept),
           write_access_audit (pe_tenant_id req) (actor_fingerprint (ie_auth env) h) ''deprovision'' (pe_principal req)
             (JObject [(''token'', JNumber (if 0 \<le> token then PosInt (nat token) else NegInt token))])
             (JObject [(''swept_documents'', JNumber (PosInt swept))]) st3))"


section \<open>Lemmas\<close>

lemma bind_i_Inr: "bind_i x f = (Inr b, st') \<longleftrightarrow> (\<exists>a st. x = (Inr a, st) \<and> f a st = (Inr b, st'))"
  by (cases x; cases "fst x") auto

lemma bind_i_cases:
  assumes "bind_i x f = (r, st')"
  obtains (refused) e where "x = (Inl e, st')" "r = Inl e" | (step) a st where "x = (Inr a, st)" "f a st = (r, st')"
  using assms by (cases x; cases "fst x") auto

lemma guard_i_Inr: "guard_i r st = (Inr a, st') \<longleftrightarrow> r = Inr a \<and> st' = st"
  by (auto simp: guard_i_def)

lemma via_gateway_Inr:
  "via_gateway call st = (Inr a, st') \<longleftrightarrow> (\<exists>g. call (is_graph st) = (Inr a, g) \<and> st' = st\<lparr>is_graph := g\<rparr>)"
  by (auto simp: via_gateway_def split: prod.splits sum.splits)

lemma via_gateway_server: "via_gateway call st = (r, st') \<Longrightarrow> is_server st' = is_server st"
  by (auto simp: via_gateway_def split: prod.splits sum.splits)

lemma group_guard_Inr:
  assumes "group_guard env h req st = Inr (sd, group_name, kind, name)"
  shows "ie_rebac env = Some sd" "parse_principal (gq_group req) = Some (GroupPrincipal, group_name)"
    "parse_principal (gq_member req) = Some (kind, name)"
    "gq_tenant_id req \<in> set (db_tenants (sv_db (is_server st)))" "admin_check (ie_auth env) h = Inr ()"
  using assms
  by (auto simp: group_guard_def and_then_Inr tenant_known_def require_rebac_def parse_membership_def parse_group_def
      ensure_tenant_def split: option.splits prod.splits principal_kind.splits sum.splits if_splits)

lemma affected_members_nonempty:
  assumes "affected_members sd t member kind name st = (Inr affected, st')"
  shows "affected \<noteq> []" "is_server st' = is_server st"
  using assms via_gateway_server
  by (auto simp: affected_members_def bind_i_Inr split: principal_kind.splits)

lemma affected_members_server: "affected_members sd t member kind name st = (r, st') \<Longrightarrow> is_server st' = is_server st"
  by (auto simp: affected_members_def split: principal_kind.splits elim!: bind_i_cases dest: via_gateway_server)

text \<open>
  A removal either leaves the server's state alone, refusing, or has recorded the tombstones of every
  materialized token among the lost principals before it asks SpiceDB to delete the tuple.
\<close>

lemma group_remove_cases:
  assumes "admin_group_remove env h now req st = (r, st')"
  obtains (refused) e where "r = Inl e" "is_server st' = is_server st"
  | (recorded) sd group_name kind name affected st1 lost_principals st2 n st3 where
    "group_guard env h req st = Inr (sd, group_name, kind, name)"
    "affected_members sd (gq_tenant_id req) (gq_member req) kind name st = (Inr affected, st1)"
    "via_gateway (group_and_ancestors sd (gq_tenant_id req) group_name) st1 = (Inr lost_principals, st2)"
    "is_server st2 = is_server st"
    "record_tombstones now (gq_tenant_id req) affected
       (materialized (gq_tenant_id req) lost_principals (rd_principals (sv_rev (is_server st)))) st2 = (n, st3)"
    "is_server st' = is_server st3"
    "\<not> isl r \<Longrightarrow> via_gateway (delete_membership sd (gq_tenant_id req) group_name kind name) st3 = (Inr (), st')"
proof -
  from assms show thesis
    unfolding admin_group_remove_def
  proof (cases rule: bind_i_cases)
    case (refused e)
    then have "st' = st" by (auto simp: guard_i_def)
    with refused that(1) show thesis by blast
  next
    case (step m st0)
    then have st0: "st0 = st" and g: "group_guard env h req st = Inr m" by (auto simp: guard_i_Inr)
    obtain sd group_name kind name where m: "m = (sd, group_name, kind, name)" by (cases m) auto
    from step(2) show thesis
      unfolding m prod.case st0
    proof (cases rule: bind_i_cases)
      case (refused e) with that(1) affected_members_server show thesis by blast
    next
      case (step affected st1)
      note a = affected_members_nonempty [OF step(1)]
      from step(2) show thesis
      proof (cases rule: bind_i_cases)
        case (refused e) with that(1) via_gateway_server a(2) show thesis by metis
      next
        case (step lost st2)
        have s2: "is_server st2 = is_server st" using via_gateway_server [OF step(1)] a(2) by simp
        obtain n st3 where rec: "record_tombstones now (gq_tenant_id req) affected
            (materialized (gq_tenant_id req) lost (rd_principals (sv_rev (is_server st)))) st2 = (n, st3)" by fastforce
        from step(2) s2 rec have d: "bind_i (via_gateway (delete_membership sd (gq_tenant_id req) group_name kind name) st3)
            (\<lambda>_ st4. (Inr \<lparr>rm_tombstones = n, rm_revoked_principals = map fst (materialized (gq_tenant_id req) lost
                (rd_principals (sv_rev (is_server st)))), rm_affected_members = affected\<rparr>, st4)) = (r, st')"
          by (simp add: Let_def)
        then have "is_server st' = is_server st3"
          by (cases rule: bind_i_cases) (auto dest: via_gateway_server)
        moreover have "via_gateway (delete_membership sd (gq_tenant_id req) group_name kind name) st3 = (Inr (), st')"
          if "\<not> isl r" using d that by (cases rule: bind_i_cases) auto
        ultimately show thesis
          using that(2) [OF g [unfolded m] \<open>affected_members _ _ _ _ _ _ = _\<close> step(1) s2 rec] by blast
      qed
    qed
  qed
qed

lemma parse_principal_Some:
  "parse_principal s = Some (UserPrincipal, n) \<Longrightarrow> s = ''user:'' @ n"
  "parse_principal s = Some (GroupPrincipal, n) \<Longrightarrow> s = ''group:'' @ n"
  by (auto simp: parse_principal_def split: option.splits list.splits)


section \<open>Group removal\<close>

text \<open>
  A group removal cuts the members off before the tuple goes: whenever the route changed anything,
  even if the final delete in SpiceDB failed, no scope compiled from a handle minted up to then holds
  the token of the group or of any group it is nested in, for as long as the handle can live, provided
  the token has no tombstone older than the handle. When the route succeeds, SpiceDB has lost exactly
  that membership.
\<close>

theorem group_remove_cuts_off:
  assumes contract: "uuid_ok sd" "writes_ok sd rel" "lookups_ok sd rel"
    and graph: "tenant_tuples sd (rel (is_graph st))" "ie_rebac env = Some sd"
    and tenant: "gq_tenant_id req = sp_tenant_id p" "valid_uuid (sp_tenant_id p)"
    and names: "parse_principal (gq_group req) = Some (GroupPrincipal, grp)" "sd_utf8 sd grp"
      "parse_principal (gq_member req) = Some (kind, name)" "sd_utf8 sd name"
    and run: "admin_group_remove env h now req st = (r, st')" "isl r \<Longrightarrow> is_server st' \<noteq> is_server st"
    and lost: "up = grp \<or> in_group (memberships sd (rel (is_graph st))) (sp_tenant_id p) GroupPrincipal grp up"
      "\<lparr>pr_tenant_id = sp_tenant_id p, pr_principal = ''group:'' @ up, pr_token = token\<rparr>
         \<in> set (rd_principals (sv_rev (is_server st)))"
    and handle: "sp_issued_at p \<le> now" "now' \<le> sp_issued_at p + seconds max_ttl_seconds"
      "\<And>t. t \<in> set (rd_revocations (sv_rev (is_server st))) \<Longrightarrow> rv_tenant_id t = sp_tenant_id p \<Longrightarrow>
        rv_token t = token \<Longrightarrow> sp_issued_at p \<le> rv_at t"
    and read: "scope_for senv now' uptime p (is_server st') = (Inr sc, sv')"
  shows "token \<notin> set (sc_principals sc) \<and>
    (\<not> isl r \<longrightarrow> memberships sd (rel (is_graph st')) =
       memberships sd (rel (is_graph st)) - {(sp_tenant_id p, grp, kind, name)})"
  using run(1)
proof (cases rule: group_remove_cases)
  case (refused e)
  with run(2) show ?thesis by simp
next
  case (recorded sd' grp' kind' name' affected st1 lost_principals st2 n st3)
  note gg = group_guard_Inr [OF recorded(1)]
  from gg graph(2) names have eq: "sd' = sd" "grp' = grp" "kind' = kind" "name' = name" by simp_all
  have rel1: "rel (is_graph st1) = rel (is_graph st)"
  proof (cases kind)
    case UserPrincipal
    with recorded(2) show ?thesis by (simp add: affected_members_def eq)
  next
    case GroupPrincipal
    with recorded(2) obtain us g where "group_users sd (sp_tenant_id p) name (is_graph st) = (Inr us, g)" "is_graph st1 = g"
      by (auto simp: affected_members_def eq tenant bind_i_Inr via_gateway_Inr)
    with group_users_spec(1) [OF contract(1,3) graph(1) tenant(2) names(4)] show ?thesis by simp
  qed
  obtain g2 where anc: "group_and_ancestors sd (sp_tenant_id p) grp (is_graph st1) = (Inr lost_principals, g2)"
    and st2: "st2 = st1\<lparr>is_graph := g2\<rparr>"
    using recorded(3) by (auto simp: via_gateway_Inr eq tenant)
  then obtain closure where c: "membership_closure sd (sp_tenant_id p) GroupPrincipal grp (is_graph st1) = (Inr closure, g2)"
    and lp: "insert (''group:'' @ grp) (set closure) = set lost_principals"
    by (auto simp: group_and_ancestors_def bind_r_Inr Let_def split: if_splits)
  have t1: "tenant_tuples sd (rel (is_graph st1))" using graph(1) rel1 by simp
  note clo = membership_closure_spec [OF contract(1,3) t1 tenant(2) names(2) c]
  have "''group:'' @ up \<in> set lost_principals" using lost(1) clo(3) lp unfolding rel1 by auto
  with lost(2) have m: "(''group:'' @ up, token) \<in> set (materialized (sp_tenant_id p) lost_principals
      (rd_principals (sv_rev (is_server st))))" by (force simp: materialized_def)
  obtain rev' pl' where rec: "record_revocations now (sp_tenant_id p) affected (materialized (sp_tenant_id p) lost_principals
        (rd_principals (sv_rev (is_server st)))) (sv_rev (is_server st), sv_plane (is_server st)) = (n, (rev', pl'))"
    and st3: "st3 = st2\<lparr>is_server := (is_server st)\<lparr>sv_rev := rev', sv_plane := pl'\<rparr>\<rparr>"
    using recorded(5) recorded(4) tenant by (auto simp: record_tombstones_def Let_def split: prod.splits)
  have "\<not> keeps_token (seen_revoked now' (sp_tenant_id p) rev' pl') (seen_tombstones now' (sp_tenant_id p) rev' pl')
      (sp_issued_at p) token"
    by (rule record_revocations_seen [OF rec m affected_members_nonempty(1) [OF recorded(2)] handle(1,2)]) (rule handle(3))
  moreover have "is_server st' = (is_server st)\<lparr>sv_rev := rev', sv_plane := pl'\<rparr>" using recorded(6) st3 by simp
  ultimately have "token \<notin> set (sc_principals sc)"
    using scope_for_allowed(1) [OF read] by (auto simp: list_all_iff allowed_def)
  moreover have "memberships sd (rel (is_graph st')) =
       memberships sd (rel (is_graph st)) - {(sp_tenant_id p, grp, kind, name)}" if "\<not> isl r"
  proof -
    from recorded(7) [OF that] obtain g4 where d: "delete_membership sd (sp_tenant_id p) grp kind name g2 = (Inr (), g4)"
      "is_graph st' = g4"
      by (auto simp: via_gateway_Inr eq tenant st3 st2)
    then have "rel g4 = rel g2 - {(oid sd (sp_tenant_id p) grp, object_type kind, oid sd (sp_tenant_id p) name)}"
      using contract(2) [unfolded writes_ok_def, rule_format]
      by (auto simp: delete_membership_def membership_update_def bind_r_Inr post_Inr)
    with clo(1) rel1 d(2) show ?thesis
      by (simp add: memberships_insert(2) [OF contract(1) tenant(2) names(2,4)])
  qed
  ultimately show ?thesis by blast
qed


definition demo_env :: "relationship list identity_env" where
  "demo_env = \<lparr>ie_auth = \<lparr>ad_mac = (\<lambda>m. ''tag'' @ m), ad_expected_tag = Some ''tagsecret'', ad_allowed_origin = None\<rparr>,
     ie_rebac = Some demo_sd, ie_lower = to_ascii_lowercase, ie_fresh = (\<lambda>i. i)\<rparr>"

definition demo_headers :: headers where
  "demo_headers = \<lparr>hd_authorization = Some ''Bearer secret'', hd_origin = None\<rparr>"

definition demo_state :: "relationship list identity_state" where
  "demo_state = \<lparr>is_server = sample_state\<lparr>sv_rev := sample_rev_db\<lparr>rd_principals :=
       [\<lparr>pr_tenant_id = 1, pr_principal = ''group:west'', pr_token = 5\<rparr>,
        \<lparr>pr_tenant_id = 1, pr_principal = ''group:sales'', pr_token = 7\<rparr>]\<rparr>\<rparr>,
     is_graph = demo_graph, is_canonical = [], is_aliases = [], is_crosswalk = [], is_audit = []\<rparr>"

definition demo_group_request :: group_request where
  "demo_group_request = \<lparr>gq_tenant_id = 1, gq_group = ''group:west'', gq_member = ''user:alice''\<rparr>"

lemma demo_ancestors:
  "group_and_ancestors demo_sd 1 ''west'' demo_graph = (Inr [''group:sales'', ''group:west''], demo_graph)"
proof -
  have "oid demo_sd 1 ''west'' = demo_oid 1 ''west''" by (simp add: demo_sd_def demo_oid_def)
  then have "post_stream demo_sd ''/v1/permissions/resources'' (resources_body GroupPrincipal (oid demo_sd 1 ''west'')) demo_graph =
      (Inr [demo_result (demo_oid 1 ''sales'')], demo_graph)"
    by (simp only: post_stream_def post_text_def demo_lookup resources_body_eq principal_kind.distinct simp_thms if_True if_False
        prod.case sum.case is_success_demo bind_r.simps demo_reply)
  moreover have "names_of_tenant demo_sd 1 [demo_oid 1 ''sales''] = [''sales'']" by code_simp
  ultimately show ?thesis
    by (simp add: group_and_ancestors_def membership_closure_def)
qed

lemma demo_remove:
  "\<exists>st'. admin_group_remove demo_env demo_headers 100 demo_group_request demo_state =
     (Inr \<lparr>rm_tombstones = 2, rm_revoked_principals = [''group:west'', ''group:sales''], rm_affected_members = [''user:alice'']\<rparr>, st')"
proof -
  have "group_guard demo_env demo_headers demo_group_request demo_state = Inr (demo_sd, ''west'', UserPrincipal, ''alice'')"
  proof -
    have "admin_check (ie_auth demo_env) demo_headers = Inr ()" "parse_membership demo_group_request = Inr (''west'', UserPrincipal, ''alice'')"
      "tenant_known (gq_tenant_id demo_group_request) demo_state = Inr ()" by (code_simp, code_simp, code_simp)
    then show ?thesis by (simp add: group_guard_def require_rebac_def demo_env_def)
  qed
  moreover have "fst (delete_membership demo_sd 1 ''west'' UserPrincipal ''alice'' demo_graph) = Inr ()" by code_simp
  then obtain g where "delete_membership demo_sd 1 ''west'' UserPrincipal ''alice'' demo_graph = (Inr (), g)"
    by (cases "delete_membership demo_sd 1 ''west'' UserPrincipal ''alice'' demo_graph") simp
  ultimately show ?thesis
    by (simp add: admin_group_remove_def guard_i_def affected_members_def via_gateway_def demo_ancestors demo_state_def
        demo_group_request_def materialized_def record_tombstones_def record_revocations_def Let_def sample_rev_db_def
        del: One_nat_def)
qed

theorem group_remove_cuts_off_witness:
  "case admin_group_remove demo_env demo_headers 100 demo_group_request demo_state of (r, st') \<Rightarrow>
     \<not> isl r \<and>
     (case scope_for sample_env 200 0 (sample_payload\<lparr>sp_principals := [5, 7, 9]\<rparr>) (is_server st') of
        (Inr sc, _) \<Rightarrow> 7 \<notin> set (sc_principals sc) | _ \<Rightarrow> True)"
proof -
  let ?p = "sample_payload\<lparr>sp_principals := [5, 7, 9]\<rparr>"
  obtain R st' where run: "admin_group_remove demo_env demo_headers 100 demo_group_request demo_state = (Inr R, st')"
    using demo_remove by blast
  have up: "in_group (memberships demo_sd (set (is_graph demo_state))) (sp_tenant_id ?p) GroupPrincipal ''west'' ''sales''"
    by (rule in_group.direct)
      (simp add: memberships_def demo_state_def sample_payload_def demo_graph_def demo_oid_def demo_sd_def valid_uuid_def)
  have "7 \<notin> set (sc_principals sc)" if read: "scope_for sample_env 200 0 ?p (is_server st') = (Inr sc, sv')" for sc sv'
  proof -
    have "tenant_tuples demo_sd (set (is_graph demo_state))" "ie_rebac demo_env = Some demo_sd"
      using demo_tenant_tuples by (simp_all add: demo_state_def demo_env_def)
    from group_remove_cuts_off [OF demo_uuid_ok demo_writes_ok demo_lookups_ok this _ _ _ _ _ _ run _ disjI2 [OF up] _ _ _ _ read,
        where token = 7]
    show ?thesis
      by (simp add: demo_group_request_def sample_payload_def valid_uuid_def parse_principal_def demo_sd_def demo_state_def
          sample_rev_db_def seconds_def max_ttl_seconds_def)
  qed
  then show ?thesis by (auto simp: run split: sum.split prod.split)
qed


section \<open>Deprovisioning\<close>

lemma insert_all_Some: "insert_all rows k = Some v \<Longrightarrow> (k, v) \<in> set rows"
  unfolding insert_all_def
  by (induction rows rule: rev_induct) (auto split: if_splits)

lemma left_join_Some: "Some x \<in> set (left_join P rows) \<Longrightarrow> x \<in> set (filter P rows)"
  by (cases "filter P rows") (auto simp: left_join_def)

lemma resolve_crosswalk_live:
  assumes "Some canonical \<in> set (resolve_crosswalk t source ids st)"
  shows "\<exists>c \<in> set (is_canonical st). live_canonical t canonical c"
    "\<exists>x \<in> set (is_crosswalk st). xw_tenant_id x = t \<and> xw_canonical x = canonical \<and> xw_active x"
proof -
  from assms obtain i where "insert_all (crosswalk_join t source ids st) i = Some canonical"
    by (auto simp: resolve_crosswalk_def split: if_splits)
  from insert_all_Some [OF this]
  show "\<exists>c \<in> set (is_canonical st). live_canonical t canonical c"
    "\<exists>x \<in> set (is_crosswalk st). xw_tenant_id x = t \<and> xw_canonical x = canonical \<and> xw_active x"
    by (auto simp: crosswalk_join_def live_canonical_def)
qed

lemma in_concat_map: "x \<in> set (concat (map f xs)) \<longleftrightarrow> (\<exists>y \<in> set xs. x \<in> set (f y))"
  by auto

lemma in_set_map: "x \<in> set (map f xs) \<longleftrightarrow> (\<exists>y \<in> set xs. x = f y)"
  by auto

lemma subject_rows_live:
  assumes "(s', Some canonical) \<in> set (subject_rows t st s)"
  shows "\<exists>c \<in> set (is_canonical st). live_canonical t canonical c"
proof -
  have "\<exists>direct \<in> set (left_join (\<lambda>c. cp_tenant_id c = t \<and> cp_idp_subject c = s \<and> cp_active c) (is_canonical st)).
    \<exists>al \<in> set (left_join (\<lambda>a. sa_tenant_id a = t \<and> sa_alias a = s) (is_aliases st)).
    \<exists>via \<in> set (case al of None \<Rightarrow> [None] | Some a \<Rightarrow> left_join (live_canonical t (sa_canonical a)) (is_canonical st)).
      (s', Some canonical) = (s, case direct of Some c \<Rightarrow> Some (cp_canonical c) | None \<Rightarrow> map_option cp_canonical via)"
    using assms unfolding subject_rows_def in_concat_map in_set_map .
  then obtain direct al via where
    direct: "direct \<in> set (left_join (\<lambda>c. cp_tenant_id c = t \<and> cp_idp_subject c = s \<and> cp_active c) (is_canonical st))"
    and "al \<in> set (left_join (\<lambda>a. sa_tenant_id a = t \<and> sa_alias a = s) (is_aliases st))"
    and via: "via \<in> set (case al of None \<Rightarrow> [None]
      | Some a \<Rightarrow> left_join (live_canonical t (sa_canonical a)) (is_canonical st))"
    and "(s', Some canonical) = (s, case direct of Some c \<Rightarrow> Some (cp_canonical c) | None \<Rightarrow> map_option cp_canonical via)"
    by blast
  then have c: "(case direct of Some c \<Rightarrow> Some (cp_canonical c) | None \<Rightarrow> map_option cp_canonical via) = Some canonical"
    by (simp only: prod.inject)
  show ?thesis
  proof (cases direct)
    case (Some x)
    with direct c show ?thesis by (auto simp: live_canonical_def dest!: left_join_Some)
  next
    case None
    with c obtain v where "via = Some v" "canonical = cp_canonical v" by auto
    with via show ?thesis by (cases al) (auto simp: live_canonical_def dest!: left_join_Some)
  qed
qed

lemma resolve_idp_subject_live:
  assumes "Some canonical \<in> set (resolve_idp_subject t subjects st)"
  shows "\<exists>c \<in> set (is_canonical st). live_canonical t canonical c"
proof -
  from assms obtain s where "insert_all (List.map_filter (\<lambda>(s, canonical). map_option (Pair s) canonical)
      (concat (map (subject_rows t st) subjects))) s = Some canonical"
    by (auto simp: resolve_idp_subject_def split: if_splits)
  from insert_all_Some [OF this] obtain s' where "(s, Some canonical) \<in> set (subject_rows t st s')"
    by (auto simp: List.map_filter_def)
  then show ?thesis by (rule subject_rows_live)
qed

lemma person_guard_Inr:
  "person_guard env h req st = Inr u \<longleftrightarrow> admin_require (ie_auth env) h = Inr () \<and>
     pe_tenant_id req \<in> set (db_tenants (sv_db (is_server st))) \<and>
     (\<exists>name. parse_principal (pe_principal req) = Some (UserPrincipal, name))"
  by (auto simp: person_guard_def and_then_Inr tenant_known_def ensure_tenant_def require_user_principal_def
      split: sum.splits if_splits option.splits principal_kind.splits)

lemma self_token_Inr:
  assumes "self_token req st = (token, st')"
  shows "sv_db (is_server st') = sv_db (is_server st)" "is_canonical st' = is_canonical st" "is_audit st' = is_audit st"
    "principals_ok (rd_principals (sv_rev (is_server st))) \<Longrightarrow>
       \<lparr>pr_tenant_id = pe_tenant_id req, pr_principal = pe_principal req, pr_token = token\<rparr>
         \<in> set (rd_principals (sv_rev (is_server st')))"
proof -
  obtain ms rows where up: "upsert_principal_tokens (pe_tenant_id req) [pe_principal req]
      (rd_principals (sv_rev (is_server st))) = (ms, rows)" by fastforce
  with assms have eq: "token = snd (ms ! 0)"
    "st' = st\<lparr>is_server := (is_server st)\<lparr>sv_rev := (sv_rev (is_server st))\<lparr>rd_principals := rows\<rparr>\<rparr>\<rparr>"
    by (auto simp: self_token_def upsert_tokens_i_def Let_def)
  then show "sv_db (is_server st') = sv_db (is_server st)" "is_canonical st' = is_canonical st" "is_audit st' = is_audit st"
    by simp_all
  assume "principals_ok (rd_principals (sv_rev (is_server st)))"
  from upsert_principal_tokens_ok [OF this up] show "\<lparr>pr_tenant_id = pe_tenant_id req, pr_principal = pe_principal req,
      pr_token = token\<rparr> \<in> set (rd_principals (sv_rev (is_server st')))"
    by (cases ms) (auto simp: eq)
qed

text \<open>
  C20: Deprovisioning cuts a person off everywhere it controls, in one call that an unauthenticated
  caller can never make: afterwards no scope of the tenant, compiled at any later time from any handle,
  holds the person's token; no chunk of the tenant, current or superseded, lists it; neither the
  crosswalk nor the subject registry resolves any local id or address to the person; and one audit row
  names the actor.
\<close>

theorem deprovision_cuts_everywhere:
  assumes run: "admin_deprovision env h now req st = (Inr (token, swept), st')"
    and ok: "chunks_ok (sv_db (is_server st))" "principals_ok (rd_principals (sv_rev (is_server st)))"
  shows "ad_expected_tag (ie_auth env) \<noteq> None \<and>
    \<lparr>pr_tenant_id = pe_tenant_id req, pr_principal = pe_principal req, pr_token = token\<rparr>
       \<in> set (rd_principals (sv_rev (is_server st'))) \<and>
    (\<forall>senv now' uptime p sc sv'. sp_tenant_id p = pe_tenant_id req \<longrightarrow>
       scope_for senv now' uptime p (is_server st') = (Inr sc, sv') \<longrightarrow> token \<notin> set (sc_principals sc)) \<and>
    (\<forall>c \<in> set (db_chunks (sv_db (is_server st'))). ch_tenant_id c = pe_tenant_id req \<longrightarrow> token \<notin> set (ch_visibility c)) \<and>
    (\<forall>source ids. Some (pe_principal req) \<notin> set (resolve_crosswalk (pe_tenant_id req) source ids st')) \<and>
    (\<forall>subjects. Some (pe_principal req) \<notin> set (resolve_idp_subject (pe_tenant_id req) subjects st')) \<and>
    map (\<lambda>a. (aa_endpoint a, aa_query_target a, aa_actor a)) (is_audit st') =
      map (\<lambda>a. (aa_endpoint a, aa_query_target a, aa_actor a)) (is_audit st) @
        [(''deprovision'', pe_principal req, actor_fingerprint (ie_auth env) h)]"
proof -
  obtain st1 where self: "self_token req st = (token, st1)"
    and guard: "person_guard env h req st = Inr ()"
    and rest: "sweep_token (ie_fresh env) req token (revoke_token now req token (deactivate req st1)) = (swept, st3) \<Longrightarrow>
      st' = write_access_audit (pe_tenant_id req) (actor_fingerprint (ie_auth env) h) ''deprovision'' (pe_principal req)
             (JObject [(''token'', JNumber (if 0 \<le> token then PosInt (nat token) else NegInt token))])
             (JObject [(''swept_documents'', JNumber (PosInt swept))]) st3" for st3
    using run by (auto simp: admin_deprovision_def bind_i_Inr guard_i_Inr Let_def split: prod.splits)
  note s1 = self_token_Inr [OF self]
  let ?t = "pe_tenant_id req" and ?sv1 = "is_server st1"
  obtain rev' pl' where rev: "revoke_principal now ?t (pe_principal req) token (sv_rev ?sv1, sv_plane ?sv1) = (rev', pl')"
    by fastforce
  obtain n db' where sweep: "retract_token_from_chunks (ie_fresh env) ?t token PrincipalRevoke (pe_principal req) (sv_db ?sv1) = (n, db')"
    by fastforce
  define st3 where "st3 = (deactivate req st1)\<lparr>is_server := ?sv1\<lparr>sv_rev := rev', sv_plane := pl', sv_db := db'\<rparr>\<rparr>"
  have "sweep_token (ie_fresh env) req token (revoke_token now req token (deactivate req st1)) = (n, st3)"
    using rev sweep by (simp add: sweep_token_def revoke_token_def deactivate_def st3_def Let_def)
  moreover from this have "n = swept" using run self guard
    by (simp add: admin_deprovision_def guard_i_def Let_def)
  ultimately have st': "is_server st' = ?sv1\<lparr>sv_rev := rev', sv_plane := pl', sv_db := db'\<rparr>"
      "is_canonical st' = is_canonical (deactivate req st1)" "is_crosswalk st' = is_crosswalk (deactivate req st1)"
    and audit: "map (\<lambda>a. (aa_endpoint a, aa_query_target a, aa_actor a)) (is_audit st') =
      map (\<lambda>a. (aa_endpoint a, aa_query_target a, aa_actor a)) (is_audit st) @
        [(''deprovision'', pe_principal req, actor_fingerprint (ie_auth env) h)]"
    using rest [of st3] s1(3) by (simp_all add: write_access_audit_def st3_def deactivate_def)
  have dead: "\<not> live_canonical ?t (pe_principal req) c" if "c \<in> set (is_canonical st')" for c
    using that by (auto simp: st'(2) deactivate_def update_where_def live_canonical_def split: if_splits)
  have "ad_expected_tag (ie_auth env) \<noteq> None"
    using guard by (auto simp: person_guard_Inr admin_require_def split: option.splits)
  moreover have "\<lparr>pr_tenant_id = ?t, pr_principal = pe_principal req, pr_token = token\<rparr>
       \<in> set (rd_principals (sv_rev (is_server st')))"
    using s1(4) [OF ok(2)] rev by (auto simp: st' revoke_principal_def Let_def)
  moreover have "token \<notin> set (sc_principals sc)"
    if "sp_tenant_id p = ?t" "scope_for senv now' uptime p (is_server st') = (Inr sc, sv')" for senv now' uptime p sc sv'
    using revoke_principal_seen [OF rev] scope_for_allowed(1) [OF that(2)] that(1)
    by (auto simp: list_all_iff allowed_def st')
  moreover have "token \<notin> set (ch_visibility c)"
    if "c \<in> set (db_chunks (sv_db (is_server st')))" "ch_tenant_id c = ?t" for c
    using that retract_token_strips_exactly [of "sv_db ?sv1" "ie_fresh env" ?t token PrincipalRevoke "pe_principal req"]
      ok(1) s1(1) sweep by (auto simp: st' strip_token_def)
  ultimately show ?thesis
    using audit dead resolve_crosswalk_live(1) [of "pe_principal req" ?t _ _ st']
      resolve_idp_subject_live [of "pe_principal req" ?t _ st'] by blast
qed

definition demo_registry :: "relationship list identity_state" where
  "demo_registry = demo_state\<lparr>is_server := sample_state\<lparr>sv_rev := sample_rev_db\<lparr>rd_principals :=
       [\<lparr>pr_tenant_id = 1, pr_principal = ''user:bob'', pr_token = 5\<rparr>]\<rparr>\<rparr>,
     is_canonical := [\<lparr>cp_tenant_id = 1, cp_canonical = ''user:bob'', cp_kind = ''user'', cp_idp_subject = ''bob@x'',
         cp_active = True, cp_epoch = 1\<rparr>,
       \<lparr>cp_tenant_id = 1, cp_canonical = ''user:eve'', cp_kind = ''user'', cp_idp_subject = ''eve@x'',
         cp_active = True, cp_epoch = 1\<rparr>],
     is_crosswalk := [\<lparr>xw_tenant_id = 1, xw_source = ''hubspot'', xw_local_id = ''77'', xw_canonical = ''user:bob'',
         xw_link_method = ''admin_explicit'', xw_active = True\<rparr>]\<rparr>"

definition demo_person :: person_request where
  "demo_person = \<lparr>pe_tenant_id = 1, pe_principal = ''user:bob''\<rparr>"

lemma demo_person_guard: "person_guard demo_env demo_headers demo_person demo_registry = Inr ()"
  by code_simp

theorem deprovision_cuts_everywhere_witness:
  "resolve_crosswalk 1 ''hubspot'' [''77''] demo_registry = [Some ''user:bob''] \<and>
   (case admin_deprovision demo_env demo_headers 100 demo_person demo_registry of
      (Inr (token, _), st') \<Rightarrow> token = 5 \<and> Some ''user:bob'' \<notin> set (resolve_crosswalk 1 ''hubspot'' [''77''] st') \<and>
        (\<forall>c \<in> set (db_chunks (sv_db (is_server st'))). ch_tenant_id c = 1 \<longrightarrow> 5 \<notin> set (ch_visibility c))
    | _ \<Rightarrow> False)"
proof -
  have before: "resolve_crosswalk 1 ''hubspot'' [''77''] demo_registry = [Some ''user:bob'']" by code_simp
  have "fst (self_token demo_person demo_registry) = 5" by code_simp
  then obtain st1 where self: "self_token demo_person demo_registry = (5, st1)"
    by (cases "self_token demo_person demo_registry") simp
  obtain swept st3 where "sweep_token (ie_fresh demo_env) demo_person 5 (revoke_token 100 demo_person 5 (deactivate demo_person st1)) =
      (swept, st3)" by fastforce
  with self obtain st' where run: "admin_deprovision demo_env demo_headers 100 demo_person demo_registry = (Inr (5, swept), st')"
    by (simp add: admin_deprovision_def demo_person_guard guard_i_def)
  have "chunks_ok (sv_db (is_server demo_registry))" "principals_ok (rd_principals (sv_rev (is_server demo_registry)))"
    using sample_chunks_ok by (simp_all add: demo_registry_def demo_state_def sample_state_def sample_rev_db_def principals_ok_def)
  note cut = deprovision_cuts_everywhere [OF run this]
  have "pe_tenant_id demo_person = 1" "pe_principal demo_person = ''user:bob''" by (simp_all add: demo_person_def)
  note cut [unfolded this]
  with before show ?thesis unfolding run prod.case sum.case by blast
qed

section \<open>The registry never welds\<close>

definition registry_ok :: "'g identity_state \<Rightarrow> bool" where
  "registry_ok st \<longleftrightarrow>
     distinct (map (\<lambda>c. (cp_tenant_id c, cp_canonical c)) (is_canonical st)) \<and>
     distinct (map (\<lambda>c. (cp_tenant_id c, cp_idp_subject c)) (is_canonical st)) \<and>
     distinct (map (\<lambda>a. (sa_tenant_id a, sa_alias a)) (is_aliases st)) \<and>
     distinct (map (\<lambda>x. (xw_tenant_id x, xw_source x, xw_local_id x)) (is_crosswalk st))"

inductive registry_step :: "'g identity_env \<Rightarrow> headers \<Rightarrow> 'g identity_state \<Rightarrow> 'g identity_state \<Rightarrow> bool"
  for env :: "'g identity_env" and h where
  canonical: "admin_registry_canonical env h t es st = (r, st') \<Longrightarrow> registry_step env h st st'"
| sso_alias: "admin_registry_alias env h t als st = (ra, st') \<Longrightarrow> registry_step env h st st'"
| crosswalk: "admin_crosswalk_link env h req st = (rx, st') \<Longrightarrow> registry_step env h st st'"
| deprovision: "admin_deprovision env h now preq st = (rd, st') \<Longrightarrow> registry_step env h st st'"

inductive registry_reachable :: "'g identity_env \<Rightarrow> 'g identity_state \<Rightarrow> 'g identity_state \<Rightarrow> bool"
  for env :: "'g identity_env" and st0 where
  start: "registry_reachable env st0 st0"
| step: "registry_reachable env st0 st \<Longrightarrow> registry_step env h st st' \<Longrightarrow> registry_reachable env st0 st'"

lemma distinct_map_update:
  assumes "distinct (map key rows)" "\<And>r. P r \<Longrightarrow> key (f r) = key r"
  shows "distinct (map key (update_where P f rows))"
proof -
  have "map key (update_where P f rows) = map key rows" using assms(2) by (simp add: update_where_def)
  with assms(1) show ?thesis by simp
qed

lemma distinct_map_rekey:
  assumes "distinct (map key rows)" "\<And>r. r \<in> set rows \<Longrightarrow> P r \<Longrightarrow> key (f r) = k"
    and "\<And>r. r \<in> set rows \<Longrightarrow> \<not> P r \<Longrightarrow> key r \<noteq> k"
    and "distinct (map pk rows)" "\<And>r r'. P r \<Longrightarrow> P r' \<Longrightarrow> pk r = pk r'"
  shows "distinct (map key (update_where P f rows))"
  using assms(1-4)
proof (induction rows)
  case (Cons r rows)
  then have IH: "distinct (map key (update_where P f rows))" by simp
  have img: "key ` set (update_where P f rows) \<subseteq>
      (if \<exists>x \<in> set rows. P x then {k} else {}) \<union> key ` {x \<in> set rows. \<not> P x}"
    using Cons.prems(2) by (auto simp: update_where_def)
  show ?case
  proof (cases "P r")
    case True
    then have "\<not> (\<exists>x \<in> set rows. P x)" using Cons.prems(4) assms(5) by (metis distinct.simps(2) image_eqI list.set_map list.simps(9))
    with img have sub: "key ` set (update_where P f rows) \<subseteq> key ` {x \<in> set rows. \<not> P x}" by simp
    have "k \<notin> key ` set (update_where P f rows)"
    proof
      assume "k \<in> key ` set (update_where P f rows)"
      from subsetD [OF sub this] obtain x where "x \<in> set rows" "\<not> P x" "key x = k" by auto
      with Cons.prems(3) [of x] show False by simp
    qed
    with IH True Cons.prems(2) [of r] show ?thesis by (simp add: update_where_Cons)
  next
    case False
    then have "key r \<noteq> k" "key r \<notin> key ` set rows" using Cons.prems(1) Cons.prems(3) [of r] by auto
    then have "key r \<notin> key ` set (update_where P f rows)" using img by (auto split: if_splits)
    with IH False show ?thesis by (simp add: update_where_Cons)
  qed
qed (simp add: update_where_def)

lemma upsert_canonical_ok:
  assumes ok: "distinct (map (\<lambda>c. (cp_tenant_id c, cp_canonical c)) rows)"
      "distinct (map (\<lambda>c. (cp_tenant_id c, cp_idp_subject c)) rows)"
    and free: "\<not> list_ex (\<lambda>c. cp_tenant_id c = t \<and> cp_idp_subject c = subject \<and> cp_canonical c \<noteq> ce_canonical e) rows"
  shows "distinct (map (\<lambda>c. (cp_tenant_id c, cp_canonical c)) (upsert_canonical t subject e rows))"
    "distinct (map (\<lambda>c. (cp_tenant_id c, cp_idp_subject c)) (upsert_canonical t subject e rows))"
    "c \<in> set rows \<Longrightarrow> cp_canonical c \<noteq> ce_canonical e \<Longrightarrow> c \<in> set (upsert_canonical t subject e rows)"
proof -
  let ?P = "\<lambda>c. cp_tenant_id c = t \<and> cp_canonical c = ce_canonical e"
  let ?f = "\<lambda>c. c\<lparr>cp_kind := ce_kind e, cp_idp_subject := subject, cp_active := ce_active e, cp_epoch := ce_epoch e\<rparr>"
  show "distinct (map (\<lambda>c. (cp_tenant_id c, cp_canonical c)) (upsert_canonical t subject e rows))"
    using ok(1) by (auto simp: upsert_canonical_def Let_def list_ex_iff intro!: distinct_map_update)
  have "distinct (map (\<lambda>c. (cp_tenant_id c, cp_idp_subject c)) (update_where ?P ?f rows))"
    by (rule distinct_map_rekey [where k = "(t, subject)", OF ok(2) _ _ ok(1)]) (use free in \<open>auto simp: list_ex_iff\<close>)
  then show "distinct (map (\<lambda>c. (cp_tenant_id c, cp_idp_subject c)) (upsert_canonical t subject e rows))"
    using ok(2) free by (auto simp: upsert_canonical_def Let_def list_ex_iff)
  show "c \<in> set rows \<Longrightarrow> cp_canonical c \<noteq> ce_canonical e \<Longrightarrow> c \<in> set (upsert_canonical t subject e rows)"
    by (force simp: upsert_canonical_def Let_def update_where_def)
qed

lemma registry_rows_ok:
  assumes "registry_rows lower t es acc st = (r, st')" "registry_ok st"
  shows "registry_ok st' \<and> is_aliases st' = is_aliases st \<and>
    (\<forall>c \<in> set (is_canonical st). cp_canonical c \<notin> ce_canonical ` set es \<longrightarrow> c \<in> set (is_canonical st'))"
  using assms
proof (induction lower t es acc st rule: registry_rows.induct)
  case (2 lower t e es upserted quarantined st)
  let ?s = "lower (ce_idp_subject e)"
  let ?bound = "list_ex (\<lambda>c. cp_tenant_id c = t \<and> cp_idp_subject c = ?s \<and> cp_canonical c \<noteq> ce_canonical e) (is_canonical st)"
  let ?st1 = "st\<lparr>is_canonical := upsert_canonical t ?s e (is_canonical st)\<rparr>"
  show ?case
  proof (cases "parse_principal (ce_canonical e) = None")
    case True
    with 2(3,4) show ?thesis by simp
  next
    case parsed: False
    show ?thesis
    proof (cases ?bound)
      case True
      with 2 parsed show ?thesis by (auto simp: Let_def)
    next
      case False
      have "registry_ok ?st1"
        using 2(4) upsert_canonical_ok(1,2) [of "is_canonical st" t ?s e] False by (simp add: registry_ok_def)
      with 2(2) [OF parsed refl False] 2(3) parsed False
      have "registry_ok st' \<and> is_aliases st' = is_aliases ?st1 \<and>
          (\<forall>c \<in> set (is_canonical ?st1). cp_canonical c \<notin> ce_canonical ` set es \<longrightarrow> c \<in> set (is_canonical st'))"
        by (simp add: Let_def)
      with upsert_canonical_ok(3) [of "is_canonical st" t ?s e] 2(4) False show ?thesis
        by (auto simp: registry_ok_def)
    qed
  qed
qed auto

lemma upsert_alias_ok:
  assumes "upsert_alias t canonical al source rows = (n, rows')" "distinct (map (\<lambda>a. (sa_tenant_id a, sa_alias a)) rows)"
  shows "distinct (map (\<lambda>a. (sa_tenant_id a, sa_alias a)) rows')"
    "a \<in> set rows \<Longrightarrow> \<exists>a' \<in> set rows'. sa_tenant_id a' = sa_tenant_id a \<and> sa_alias a' = sa_alias a \<and> sa_canonical a' = sa_canonical a"
proof -
  let ?Q = "\<lambda>a. (sa_tenant_id a = t \<and> sa_alias a = al) \<and> sa_canonical a = canonical"
  let ?g = "\<lambda>a. if ?Q a then a\<lparr>sa_source := source\<rparr> else a"
  from assms(1) consider "rows' = map ?g rows"
    | "\<not> list_ex (\<lambda>a. sa_tenant_id a = t \<and> sa_alias a = al) rows"
      "rows' = rows @ [\<lparr>sa_tenant_id = t, sa_canonical = canonical, sa_alias = al, sa_source = source\<rparr>]"
    by (auto simp: upsert_alias_def Let_def update_where_def split: if_splits)
  then have "distinct (map (\<lambda>a. (sa_tenant_id a, sa_alias a)) rows') \<and>
    (a \<in> set rows \<longrightarrow> (\<exists>a' \<in> set rows'. sa_tenant_id a' = sa_tenant_id a \<and> sa_alias a' = sa_alias a \<and> sa_canonical a' = sa_canonical a))"
  proof cases
    case 1
    then have "map (\<lambda>a. (sa_tenant_id a, sa_alias a)) rows' = map (\<lambda>a. (sa_tenant_id a, sa_alias a)) rows" by simp
    moreover have "?g a \<in> set rows'" if "a \<in> set rows" using that 1 by (simp only: set_map image_eqI)
    moreover have "sa_tenant_id (?g a) = sa_tenant_id a \<and> sa_alias (?g a) = sa_alias a \<and> sa_canonical (?g a) = sa_canonical a" by simp
    ultimately show ?thesis using assms(2) by (intro conjI impI) (simp, rule bexI [of _ "?g a"], simp_all)
  next
    case 2
    with assms(2) show ?thesis by (auto simp: list_ex_iff)
  qed
  then show "distinct (map (\<lambda>a. (sa_tenant_id a, sa_alias a)) rows')"
    "a \<in> set rows \<Longrightarrow> \<exists>a' \<in> set rows'. sa_tenant_id a' = sa_tenant_id a \<and> sa_alias a' = sa_alias a \<and> sa_canonical a' = sa_canonical a"
    by blast+
qed

lemma alias_rows_ok:
  assumes "alias_rows lower t es acc st = (r, st')" "registry_ok st"
  shows "registry_ok st' \<and> is_canonical st' = is_canonical st \<and> (\<forall>a \<in> set (is_aliases st). \<exists>a' \<in> set (is_aliases st').
      sa_tenant_id a' = sa_tenant_id a \<and> sa_alias a' = sa_alias a \<and> sa_canonical a' = sa_canonical a)"
  using assms
proof (induction lower t es acc st rule: alias_rows.induct)
  case (2 lower t canonical raw source es upserted quarantined st)
  show ?case
  proof (cases "parse_principal canonical = None")
    case True
    with 2(3,4) show ?thesis by auto
  next
    case False
    obtain n rows where up: "upsert_alias t canonical (lower raw) source (is_aliases st) = (n, rows)" by fastforce
    let ?st1 = "st\<lparr>is_aliases := rows\<rparr>"
    note u = upsert_alias_ok [OF up]
    have ok1: "registry_ok ?st1" using 2(4) u(1) by (simp add: registry_ok_def)
    have "registry_ok st' \<and> is_canonical st' = is_canonical ?st1 \<and> (\<forall>a \<in> set (is_aliases ?st1). \<exists>a' \<in> set (is_aliases st').
      sa_tenant_id a' = sa_tenant_id a \<and> sa_alias a' = sa_alias a \<and> sa_canonical a' = sa_canonical a)"
    proof (cases "n = 0")
      case True
      with 2(1) [OF False refl up [symmetric] refl refl True _ ok1] 2(3) False up show ?thesis by (simp add: Let_def)
    next
      case nz: False
      with 2(2) [OF False refl up [symmetric] refl refl nz _ ok1] 2(3) False up show ?thesis by (simp add: Let_def)
    qed
    with u(2) 2(4) show ?thesis by (force simp: registry_ok_def)
  qed
qed auto

lemma deactivate_ok: "registry_ok st \<Longrightarrow> registry_ok (deactivate req st)"
  by (auto simp: registry_ok_def deactivate_def intro!: distinct_map_update)

lemma upsert_crosswalk_ok:
  "distinct (map (\<lambda>x. (xw_tenant_id x, xw_source x, xw_local_id x)) rows) \<Longrightarrow>
   distinct (map (\<lambda>x. (xw_tenant_id x, xw_source x, xw_local_id x)) (upsert_crosswalk req rows))"
  by (auto simp: upsert_crosswalk_def Let_def list_ex_iff intro!: distinct_map_update)

definition same_bindings :: "sso_alias_row list \<Rightarrow> sso_alias_row list \<Rightarrow> bool" where
  "same_bindings old new \<longleftrightarrow> (\<forall>a \<in> set old. \<exists>a' \<in> set new.
     sa_tenant_id a' = sa_tenant_id a \<and> sa_alias a' = sa_alias a \<and> sa_canonical a' = sa_canonical a)"

lemma same_bindings_refl [simp]: "same_bindings xs xs"
  by (auto simp: same_bindings_def)

lemma same_bindings_trans: "same_bindings xs ys \<Longrightarrow> same_bindings ys zs \<Longrightarrow> same_bindings xs zs"
  unfolding same_bindings_def by metis

lemma registry_step_ok:
  assumes "registry_step env h st st'" "registry_ok st"
  shows "registry_ok st' \<and> same_bindings (is_aliases st) (is_aliases st')"
  using assms(1)
proof cases
  case (canonical t es r)
  then show ?thesis unfolding admin_registry_canonical_def
  proof (cases rule: bind_i_cases)
    case (step u st0)
    then have [simp]: "st0 = st" by (simp add: guard_i_def)
    from step(2) show ?thesis
    proof (cases rule: bind_i_cases)
      case (refused e) with registry_rows_ok [OF refused(1)] assms(2) show ?thesis by simp
    next
      case (step acc st1)
      with registry_rows_ok [OF step(1)] assms(2) show ?thesis
        by (auto simp: write_access_audit_def registry_ok_def split: prod.splits)
    qed
  qed (use assms(2) in \<open>auto simp: guard_i_def\<close>)
next
  case (sso_alias t als r)
  then show ?thesis unfolding admin_registry_alias_def
  proof (cases rule: bind_i_cases)
    case (step u st0)
    then have [simp]: "st0 = st" by (simp add: guard_i_def)
    from step(2) show ?thesis
    proof (cases rule: bind_i_cases)
      case (refused e) with alias_rows_ok [OF refused(1)] assms(2) show ?thesis by (simp add: same_bindings_def)
    next
      case (step acc st1)
      with alias_rows_ok [OF step(1)] assms(2) show ?thesis
        by (auto simp: write_access_audit_def registry_ok_def same_bindings_def split: prod.splits)
    qed
  qed (use assms(2) in \<open>auto simp: guard_i_def\<close>)
next
  case (crosswalk req r)
  then show ?thesis unfolding admin_crosswalk_link_def
  proof (cases rule: bind_i_cases)
    case (step u st0)
    then have "st0 = st" by (simp add: guard_i_def)
    with step(2) assms(2) upsert_crosswalk_ok show ?thesis
      by (auto simp: write_access_audit_def registry_ok_def split: if_splits)
  qed (use assms(2) in \<open>auto simp: guard_i_def\<close>)
next
  case (deprovision now preq r)
  then show ?thesis unfolding admin_deprovision_def
  proof (cases rule: bind_i_cases)
    case (step u st0)
    then have [simp]: "st0 = st" by (simp add: guard_i_def)
    obtain token st1 where self: "self_token preq st = (token, st1)" by fastforce
    then have reg: "is_canonical st1 = is_canonical st" "is_aliases st1 = is_aliases st" "is_crosswalk st1 = is_crosswalk st"
      by (auto simp: self_token_def upsert_tokens_i_def Let_def split: prod.splits)
    have "registry_ok (deactivate preq st1)" using assms(2) reg by (intro deactivate_ok) (simp add: registry_ok_def)
    moreover from step(2) self have "is_canonical st' = is_canonical (deactivate preq st1)"
      "is_aliases st' = is_aliases (deactivate preq st1)" "is_crosswalk st' = is_crosswalk (deactivate preq st1)"
      by (auto simp: write_access_audit_def sweep_token_def revoke_token_def Let_def split: prod.splits)
    ultimately show ?thesis using reg by (simp add: registry_ok_def deactivate_def)
  qed (use assms(2) in \<open>auto simp: guard_i_def\<close>)
qed

lemma left_join_find:
  assumes "distinct (map key rows)" "\<And>r r'. P r \<Longrightarrow> P r' \<Longrightarrow> key r = key r'"
  shows "left_join P rows = [List.find P rows]"
proof -
  have "filter P rows = (case List.find P rows of None \<Rightarrow> [] | Some r \<Rightarrow> [r])"
    using assms(1)
  proof (induction rows)
    case (Cons r rows)
    have "filter P rows = []" if "P r"
    proof (rule filter_False, rule ballI)
      fix x assume "x \<in> set rows"
      then have "key r \<noteq> key x" using Cons.prems by auto
      with assms(2) [OF that] show "\<not> P x" by blast
    qed
    with Cons show ?case by auto
  qed simp
  then show ?thesis by (cases "List.find P rows") (simp_all add: left_join_def)
qed

text \<open>What a subject and a source-local owner resolve to.\<close>

definition subject_of :: "tenant_id \<Rightarrow> 'g identity_state \<Rightarrow> string \<Rightarrow> string option" where
  "subject_of t st s =
     (case List.find (\<lambda>c. cp_tenant_id c = t \<and> cp_idp_subject c = s \<and> cp_active c) (is_canonical st) of
        Some c \<Rightarrow> Some (cp_canonical c)
      | None \<Rightarrow> (case List.find (\<lambda>a. sa_tenant_id a = t \<and> sa_alias a = s) (is_aliases st) of
          None \<Rightarrow> None
        | Some a \<Rightarrow> map_option cp_canonical (List.find (live_canonical t (sa_canonical a)) (is_canonical st))))"

lemma subject_rows_eq:
  assumes "registry_ok st"
  shows "subject_rows t st s = [(s, subject_of t st s)]"
proof -
  have "left_join (\<lambda>c. cp_tenant_id c = t \<and> cp_idp_subject c = s \<and> cp_active c) (is_canonical st) =
      [List.find (\<lambda>c. cp_tenant_id c = t \<and> cp_idp_subject c = s \<and> cp_active c) (is_canonical st)]"
    "left_join (\<lambda>a. sa_tenant_id a = t \<and> sa_alias a = s) (is_aliases st) =
      [List.find (\<lambda>a. sa_tenant_id a = t \<and> sa_alias a = s) (is_aliases st)]"
    "left_join (live_canonical t c) (is_canonical st) = [List.find (live_canonical t c) (is_canonical st)]" for c
    using assms unfolding registry_ok_def
    by (intro left_join_find [where key = "\<lambda>c. (cp_tenant_id c, cp_idp_subject c)"]
        left_join_find [where key = "\<lambda>a. (sa_tenant_id a, sa_alias a)"]
        left_join_find [where key = "\<lambda>c. (cp_tenant_id c, cp_canonical c)"]; simp add: live_canonical_def)+
  then show ?thesis by (auto simp: subject_rows_def subject_of_def split: option.splits)
qed

lemma insert_all_map: "insert_all (List.map_filter (\<lambda>s. map_option (Pair s) (f s)) ss) s = (if s \<in> set ss then f s else None)"
proof (induction ss rule: rev_induct)
  case Nil show ?case by (simp add: insert_all_def List.map_filter_def)
next
  case (snoc a ss)
  then show ?case by (cases "f a") (auto simp: insert_all_def List.map_filter_def)
qed

lemma resolve_idp_subject_eq:
  assumes "registry_ok st"
  shows "resolve_idp_subject t subjects st = map (subject_of t st) subjects"
proof -
  have "List.map_filter (\<lambda>(s, canonical). map_option (Pair s) canonical) (concat (map (subject_rows t st) subjects)) =
      List.map_filter (\<lambda>s. map_option (Pair s) (subject_of t st s)) subjects"
    by (induction subjects) (auto simp: subject_rows_eq [OF assms] List.map_filter_simps split: option.split)
  then show ?thesis by (simp add: resolve_idp_subject_def insert_all_map)
qed

text \<open>
  C21: In no reachable state does the registry weld two people: in every state the registry routes can
  reach from a consistent one, malformed and refused requests included, each canonical principal has
  one row, each directory subject and each alias belongs to one canonical, and each source-local id has
  one link; an alias once bound is never pointed at another canonical; a request leaves the rows of
  every canonical it does not name as they are, so a directory subject leaves its holder only in a
  request that names the holder (once given up, another canonical may take it); and a batch resolves
  each subject on its own, to the live canonical that holds it, else to the live canonical its alias
  names.
\<close>

theorem registry_never_welds:
  assumes "registry_reachable env st0 st" "registry_ok st0"
  shows "registry_ok st \<and> same_bindings (is_aliases st0) (is_aliases st) \<and>
    (\<forall>h t es r st'. admin_registry_canonical env h t es st = (r, st') \<longrightarrow>
       (\<forall>c \<in> set (is_canonical st). cp_canonical c \<notin> ce_canonical ` set es \<longrightarrow> c \<in> set (is_canonical st'))) \<and>
    (\<forall>t subjects. resolve_idp_subject t subjects st = map (subject_of t st) subjects)"
proof -
  from assms have ok: "registry_ok st \<and> same_bindings (is_aliases st0) (is_aliases st)"
  proof induction
    case (step st h st')
    with registry_step_ok [OF step(2)] same_bindings_trans show ?case by blast
  qed simp
  moreover have "c \<in> set (is_canonical st')" if run: "admin_registry_canonical env h t es st = (r, st')"
    and c: "c \<in> set (is_canonical st)" "cp_canonical c \<notin> ce_canonical ` set es" for h t es r st' c
    using run unfolding admin_registry_canonical_def
  proof (cases rule: bind_i_cases)
    case (refused e) with c show ?thesis by (auto simp: guard_i_def)
  next
    case (step u st1)
    then have [simp]: "st1 = st" by (simp add: guard_i_def)
    from step(2) show ?thesis
    proof (cases rule: bind_i_cases)
      case (refused e) with registry_rows_ok [OF refused(1)] ok c show ?thesis by simp
    next
      case (step acc st2) with registry_rows_ok [OF step(1)] ok c show ?thesis
        by (auto simp: write_access_audit_def split: prod.splits)
    qed
  qed
  ultimately show ?thesis using resolve_idp_subject_eq by blast
qed

theorem registry_never_welds_witness:
  "\<exists>st'. admin_registry_canonical demo_env demo_headers 1
        [\<lparr>ce_canonical = ''user:mallory'', ce_kind = ''user'', ce_idp_subject = ''BOB@x'', ce_active = True, ce_epoch = 1\<rparr>]
        demo_registry = (Inr ([], [(''user:mallory'', ''bob@x'')]), st') \<and>
     registry_ok st' \<and> resolve_idp_subject 1 [''bob@x'', ''nobody@x''] st' = [Some ''user:bob'', None]"
proof -
  let ?es = "[\<lparr>ce_canonical = ''user:mallory'', ce_kind = ''user'', ce_idp_subject = ''BOB@x'', ce_active = True, ce_epoch = 1\<rparr>]"
  let ?r = "admin_registry_canonical demo_env demo_headers 1 ?es demo_registry"
  have ev: "case ?r of (Inr q, st') \<Rightarrow> q = ([], [(''user:mallory'', ''bob@x'')]) \<and>
      map (subject_of 1 st') [''bob@x'', ''nobody@x''] = [Some ''user:bob'', None] | _ \<Rightarrow> False" by code_simp
  then obtain st' where r: "?r = (Inr ([], [(''user:mallory'', ''bob@x'')]), st')"
    by (cases ?r; cases "fst ?r") auto
  have "registry_reachable demo_env demo_registry st'"
    by (rule registry_reachable.step [OF registry_reachable.start registry_step.canonical [OF r]])
  moreover have "registry_ok demo_registry" by (simp add: registry_ok_def demo_registry_def demo_state_def)
  ultimately have "registry_ok st'" "\<forall>t subjects. resolve_idp_subject t subjects st' = map (subject_of t st') subjects"
    using registry_never_welds by blast+
  with r ev show ?thesis by auto
qed

text \<open>
  An alias may carry another person's directory subject. While that person is active the direct match
  wins; once they are deprovisioned their address resolves to the alias's canonical instead of to nobody.
\<close>

lemma deprovisioned_address_resolves_to_other:
  "case admin_registry_alias demo_env demo_headers 1 [(''user:eve'', ''bob@x'', ''admin_declared'')] demo_registry of
     (r, st1) \<Rightarrow> r = Inr ([''bob@x''], []) \<and> subject_of 1 st1 ''bob@x'' = Some ''user:bob'' \<and>
       subject_of 1 (deactivate demo_person st1) ''bob@x'' = Some ''user:eve''"
  by code_simp

text \<open>A malformed row refuses the request after the rows before it were written, and nothing is audited.\<close>

lemma refused_registry_writes_unaudited:
  "case admin_registry_canonical demo_env demo_headers 1
      [\<lparr>ce_canonical = ''user:new'', ce_kind = ''user'', ce_idp_subject = ''new@x'', ce_active = True, ce_epoch = 1\<rparr>,
       \<lparr>ce_canonical = ''new2'', ce_kind = ''user'', ce_idp_subject = ''new2@x'', ce_active = True, ce_epoch = 1\<rparr>]
      demo_registry of
     (r, st1) \<Rightarrow> isl r \<and> subject_of 1 st1 ''new@x'' = Some ''user:new'' \<and> is_audit st1 = is_audit demo_registry"
  by code_simp

text \<open>
  Revoking a person sweeps chunks only: facts keep the token, and since tokens are never reused for
  anybody else but kept per principal, reinstating the principal gives its holder every old fact back.
\<close>

lemma retract_loop_facts: "db_facts (retract_loop fresh t token reason cb l i db) = db_facts db"
proof (induction fresh t token reason cb l i db rule: retract_loop.induct)
  case (1 fresh t token reason cb l i db)
  have sweep: "db_facts (snd (foldl (sweep_row fresh token reason cb) (j, d) rows)) = db_facts d" for j d rows
  proof (induction rows arbitrary: j d)
    case (Cons r rows)
    obtain j' d' where "sweep_row fresh token reason cb (j, d) r = (j', d')" by fastforce
    moreover from this have "db_facts d' = db_facts d" by (auto simp: sweep_row_def Let_def split: if_splits)
    ultimately show ?case using Cons.IH by simp
  qed simp
  then have rows: "sweep_rows fresh token reason cb (j, d) rows = (j', d') \<Longrightarrow> db_facts d' = db_facts d" for j d rows j' d'
    unfolding sweep_rows_def by (metis snd_conv)
  show ?case
    using 1 rows by (subst retract_loop.simps) (auto simp: Let_def split: prod.splits)
qed

lemma revoke_reinstate_keeps_facts:
  assumes "admin_principal_revoke env h now req st = (Inr (token, n), st1)"
    and "admin_principal_reinstate env h now' req st1 = (Inr was, st2)"
  shows "db_facts (sv_db (is_server st2)) = db_facts (sv_db (is_server st))"
proof -
  from assms(1) obtain st0 where self: "self_token req st = (token, st0)"
    and sweep: "sweep_token (ie_fresh env) req token (revoke_token now req token st0) = (n, st1)"
    by (auto simp: admin_principal_revoke_def bind_i_Inr guard_i_Inr Let_def split: prod.splits)
  have "db_facts (sv_db (is_server st1)) = db_facts (sv_db (is_server (revoke_token now req token st0)))"
    using sweep by (auto simp: sweep_token_def retract_token_from_chunks_def retract_loop_facts Let_def)
  also have "\<dots> = db_facts (sv_db (is_server st))"
    using self_token_Inr(1) [OF self] by (simp add: revoke_token_def Let_def split: prod.splits)
  finally show ?thesis
    using assms(2) by (auto simp: admin_principal_reinstate_def bind_i_Inr guard_i_Inr Let_def split: list.splits prod.splits)
qed

end
