(* ===== verification/Rebac_Watch.thy ===== *)
theory Rebac_Watch
  imports Identity_Admin
begin

text \<open>
  The SpiceDB watch consumer (\<^verbatim>\<open>crates/verity-server/src/rebac_watch.rs\<close>,
  \<^verbatim>\<open>watch_leader.rs\<close>): parsing of watch frames, materialization of membership deletes as
  tombstones, the line framing of the byte stream, the durable cursor, the leader lock and the
  follower's freshness. A database error of a statement is a parameter of the step that runs it; the
  bytes of the stream are a list of chunks, each of them bytes or a read error.
\<close>

section \<open>Frames\<close>

record membership_delete =
  md_tenant :: tenant_id
  md_group :: string
  md_member :: "(principal_kind \<times> string) option"

datatype watch_line = Updates "membership_delete list" "string option" | ErrorFrame string

definition member_subject :: "'g spicedb \<Rightarrow> tenant_id \<Rightarrow> json \<Rightarrow> (principal_kind \<times> string) option" where
  "member_subject sd t rel =
     (let sobj = json_index (json_index rel ''subject'') ''object''
      in case as_str (json_index sobj ''objectType'') of
           None \<Rightarrow> None
         | Some ty \<Rightarrow>
             (case kind_of_type ty of
                None \<Rightarrow> None
              | Some kind \<Rightarrow>
                  (case as_str (json_index sobj ''objectId'') of
                     None \<Rightarrow> None
                   | Some i \<Rightarrow>
                       (case parse_any_object_id sd i of
                          None \<Rightarrow> None
                        | Some (stenant, name) \<Rightarrow> if stenant = t then Some (kind, name) else None))))"

text \<open>The delete an update stands for; grants, other relations and foreign resources are skipped.\<close>

definition update_delete :: "'g spicedb \<Rightarrow> json \<Rightarrow> membership_delete option" where
  "update_delete sd u =
     (let rel = json_index u ''relationship''; resource = json_index rel ''resource''
      in if as_str (json_index u ''operation'') \<noteq> Some ''OPERATION_DELETE'' then None
         else if as_str (json_index resource ''objectType'') \<noteq> Some ''group'' \<or>
                 as_str (json_index rel ''relation'') \<noteq> Some ''member'' then None
         else case as_str (json_index resource ''objectId'') of
                None \<Rightarrow> None
              | Some roid \<Rightarrow>
                  (case parse_any_object_id sd roid of
                     None \<Rightarrow> None
                   | Some (t, grp) \<Rightarrow>
                       Some \<lparr>md_tenant = t, md_group = grp, md_member = member_subject sd t rel\<rparr>))"

definition parse_watch_line :: "'g spicedb \<Rightarrow> string \<Rightarrow> string + watch_line" where
  "parse_watch_line sd line =
     (case sd_parse sd line of
        Inl e \<Rightarrow> Inl (''bad watch line: '' @ e)
      | Inr v \<Rightarrow>
          (case json_get v ''error'' of
             Some err \<Rightarrow> Inr (ErrorFrame (sd_print sd err))
           | None \<Rightarrow>
               (case json_get v ''result'' of
                  None \<Rightarrow> Inl (''no result in watch line: '' @ sd_print sd v)
                | Some r \<Rightarrow>
                    Inr (Updates
                      (case as_array (json_index r ''updates'') of
                         None \<Rightarrow> [] | Some us \<Rightarrow> List.map_filter (update_delete sd) us)
                      (as_str (json_index (json_index r ''changesThrough'') ''token''))))))"

definition cursor_rejected :: "string \<Rightarrow> bool" where
  "cursor_rejected msg =
     (let m = to_ascii_lowercase msg
      in contains_text ''failed_precondition'' m \<or> contains_text ''garbage collected'' m)"

definition dedupe_secs :: int where
  "dedupe_secs = 15"

definition dedupe_lost :: "(string \<times> principal_token) list \<Rightarrow> principal_token list \<Rightarrow> (string \<times> principal_token) list" where
  "dedupe_lost lost recent = filter (\<lambda>(_, t). t \<notin> set recent) lost"

section \<open>State\<close>

record 'g watch_state =
  wt_server :: server_state
  wt_graph :: 'g
  wt_cursor :: "string option"
  wt_reconnects :: nat
  wt_events_seen :: nat
  wt_deltas_applied :: nat
  wt_tombstones_written :: nat
  wt_last_token :: "string option"
  wt_leader :: "(string \<times> instant) option"

datatype db_op = TokenLookup | DedupeLookup | TombstoneRecord | CursorPersist

datatype stream_end = Closed | Failed string | Gap string

section \<open>Applying a delete\<close>

text \<open>\<^verbatim>\<open>SELECT DISTINCT token FROM revocations\<close> of the last seconds.\<close>

definition recent_tokens :: "instant \<Rightarrow> tenant_id \<Rightarrow> principal_token list \<Rightarrow> revocation_db \<Rightarrow> principal_token list" where
  "recent_tokens now t candidates db =
     remdups (map rv_token (filter (\<lambda>r. rv_tenant_id r = t \<and> rv_token r \<in> set candidates \<and>
        now - seconds dedupe_secs < rv_at r) (rd_revocations db)))"

fun rebac_error_text :: "rebac_error \<Rightarrow> string" where
  "rebac_error_text (Transport e) = ''spicedb transport error: '' @ e"
| "rebac_error_text (Api status body) = ''spicedb returned '' @ nat_to_string status @ '': '' @ body"
| "rebac_error_text (RebacMalformed e) = ''spicedb response malformed: '' @ e"

definition rebac_call :: "string \<Rightarrow> ('g \<Rightarrow> ('g, 'a) rebac_result) \<Rightarrow> 'g watch_state \<Rightarrow> (string + 'a) \<times> 'g watch_state" where
  "rebac_call what call st = (case call (wt_graph st) of
     (Inl e, g) \<Rightarrow> (Inl (what @ '': '' @ rebac_error_text e), st\<lparr>wt_graph := g\<rparr>) | (Inr a, g) \<Rightarrow> (Inr a, st\<lparr>wt_graph := g\<rparr>))"

definition delete_affected :: "'g spicedb \<Rightarrow> membership_delete \<Rightarrow> 'g watch_state \<Rightarrow> (string + string list) \<times> 'g watch_state" where
  "delete_affected sd d st =
     (case md_member d of
        Some (UserPrincipal, name) \<Rightarrow> (Inr [''user:'' @ name], st)
      | Some (GroupPrincipal, name) \<Rightarrow>
          (case rebac_call ''group_users'' (group_users sd (md_tenant d) name) st of
             (Inl e, st1) \<Rightarrow> (Inl e, st1) | (Inr users, st1) \<Rightarrow> (Inr (users @ [''group:'' @ name]), st1))
      | None \<Rightarrow> (Inr [''watch:unresolved-member''], st))"

text \<open>Tombstones for the lost principals that ever got a token, unless one is very recent.\<close>

definition tombstone_lost ::
  "(db_op \<Rightarrow> string option) \<Rightarrow> instant \<Rightarrow> tenant_id \<Rightarrow> string list \<Rightarrow> string list \<Rightarrow> 'g watch_state
   \<Rightarrow> (string + nat) \<times> 'g watch_state" where
  "tombstone_lost fault now t affected lost_principals st =
     (let sv = wt_server st; lost = materialized t lost_principals (rd_principals (sv_rev sv));
          fresh = dedupe_lost lost (recent_tokens now t (map snd lost) (sv_rev sv))
      in case fault TokenLookup of Some e \<Rightarrow> (Inl e, st) | None \<Rightarrow>
         if lost = [] then (Inr 0, st)
         else case fault DedupeLookup of Some e \<Rightarrow> (Inl e, st) | None \<Rightarrow>
           if fresh = [] then (Inr 0, st)
           else case fault TombstoneRecord of Some e \<Rightarrow> (Inl e, st) | None \<Rightarrow>
             let (n, (rev', pl')) = record_revocations now t affected fresh (sv_rev sv, sv_plane sv)
             in (Inr n, st\<lparr>wt_server := sv\<lparr>sv_rev := rev', sv_plane := pl'\<rparr>\<rparr>))"

definition apply_delete ::
  "'g spicedb \<Rightarrow> (db_op \<Rightarrow> string option) \<Rightarrow> instant \<Rightarrow> membership_delete \<Rightarrow> 'g watch_state \<Rightarrow> (string + nat) \<times> 'g watch_state" where
  "apply_delete sd fault now d st =
     (case delete_affected sd d st of
        (Inl e, st1) \<Rightarrow> (Inl e, st1)
      | (Inr affected, st1) \<Rightarrow>
          (case rebac_call ''group_and_ancestors'' (group_and_ancestors sd (md_tenant d) (md_group d)) st1 of
             (Inl e, st2) \<Rightarrow> (Inl e, st2)
           | (Inr lost_principals, st2) \<Rightarrow> tombstone_lost fault now (md_tenant d) affected lost_principals st2))"

fun apply_deletes ::
  "'g spicedb \<Rightarrow> (db_op \<Rightarrow> string option) \<Rightarrow> instant \<Rightarrow> membership_delete list \<Rightarrow> 'g watch_state
   \<Rightarrow> (stream_end + unit) \<times> 'g watch_state" where
  "apply_deletes sd fault now [] st = (Inr (), st)"
| "apply_deletes sd fault now (d # ds) st =
     (case apply_delete sd fault now d st of
        (Inl e, st1) \<Rightarrow> (Inl (Failed (''delta application: '' @ e)), st1)
      | (Inr written, st1) \<Rightarrow>
          apply_deletes sd fault now ds (st1\<lparr>wt_deltas_applied := wt_deltas_applied st1 + 1,
            wt_tombstones_written := wt_tombstones_written st1 + written\<rparr>))"

definition store_cursor :: "string \<Rightarrow> 'g watch_state \<Rightarrow> 'g watch_state" where
  "store_cursor token st = st\<lparr>wt_cursor := Some token\<rparr>"

definition clear_cursor :: "'g watch_state \<Rightarrow> 'g watch_state" where
  "clear_cursor st = st\<lparr>wt_cursor := None\<rparr>"

definition on_watch :: "(watch_status \<Rightarrow> watch_status) \<Rightarrow> 'g watch_state \<Rightarrow> 'g watch_state" where
  "on_watch f st = st\<lparr>wt_server := (wt_server st)\<lparr>sv_watch := f (sv_watch (wt_server st))\<rparr>\<rparr>"

definition handle_line ::
  "'g spicedb \<Rightarrow> (db_op \<Rightarrow> string option) \<Rightarrow> instant \<Rightarrow> nat \<Rightarrow> string \<Rightarrow> 'g watch_state
   \<Rightarrow> (stream_end + unit) \<times> 'g watch_state" where
  "handle_line sd fault now uptime line st =
     (case parse_watch_line sd line of
        Inl e \<Rightarrow> (Inl (Failed e), st)
      | Inr (ErrorFrame msg) \<Rightarrow> (Inl (if cursor_rejected msg then Gap msg else Failed msg), st)
      | Inr (Updates deletes token) \<Rightarrow>
          (case apply_deletes sd fault now deletes (st\<lparr>wt_events_seen := wt_events_seen st + 1\<rparr>) of
             (Inl e, st1) \<Rightarrow> (Inl e, st1)
           | (Inr _, st1) \<Rightarrow>
               (case token of
                  None \<Rightarrow> (Inr (), st1)
                | Some tok \<Rightarrow>
                    (case fault CursorPersist of
                       Some e \<Rightarrow> (Inl (Failed (''cursor persist: '' @ e)), st1)
                     | None \<Rightarrow>
                         (Inr (), on_watch (mark_advance uptime) ((store_cursor tok st1)\<lparr>wt_last_token := Some tok\<rparr>))))))"

section \<open>The byte stream\<close>

text \<open>Each line handled sees the clocks and the database errors of its own moment, by its number.\<close>

record moment =
  mo_now :: instant
  mo_uptime :: nat
  mo_fault :: "db_op \<Rightarrow> string option"

type_synonym timeline = "nat \<Rightarrow> moment"

definition newline :: char where
  "newline = char_of (10 :: nat)"

text \<open>One framed line: refused when not UTF-8, skipped when blank. The number counts the lines handled.\<close>

definition framed_line ::
  "'g spicedb \<Rightarrow> timeline \<Rightarrow> string \<Rightarrow> nat \<times> 'g watch_state \<Rightarrow> (stream_end + unit) \<times> (nat \<times> 'g watch_state)" where
  "framed_line sd tm line s =
     (let (i, st) = s
      in if \<not> sd_utf8 sd line then (Inl (Failed ''non-utf8 watch frame''), s)
         else if trim line = [] then (Inr (), s)
         else let m = tm i; (r, st1) = handle_line sd (mo_fault m) (mo_now m) (mo_uptime m) (trim line) st
              in (r, (Suc i, st1)))"

fun split_line :: "string \<Rightarrow> (string \<times> string) option" where
  "split_line [] = None"
| "split_line (c # cs) =
     (if c = newline then Some ([c], cs) else map_option (\<lambda>(l, r). (c # l, r)) (split_line cs))"

lemma split_line_length: "split_line buf = Some (l, r) \<Longrightarrow> length r < length buf"
  by (induction buf arbitrary: l) (auto split: if_splits)

function drain_lines ::
  "'g spicedb \<Rightarrow> timeline \<Rightarrow> string \<Rightarrow> nat \<times> 'g watch_state \<Rightarrow> (stream_end + string) \<times> (nat \<times> 'g watch_state)" where
  "drain_lines sd tm buf s =
     (case split_line buf of
        None \<Rightarrow> (Inr buf, s)
      | Some (line, rest) \<Rightarrow>
          (case framed_line sd tm line s of
             (Inl e, s1) \<Rightarrow> (Inl e, s1)
           | (Inr _, s1) \<Rightarrow> drain_lines sd tm rest s1))"
  by pat_completeness auto
termination
  by (relation "measure (\<lambda>(sd, tm, buf, s). length buf)") (auto dest: split_line_length)

declare drain_lines.simps [simp del]

fun consume_chunks ::
  "'g spicedb \<Rightarrow> timeline \<Rightarrow> (string + string) list \<Rightarrow> string \<Rightarrow> nat \<times> 'g watch_state \<Rightarrow> stream_end \<times> (nat \<times> 'g watch_state)" where
  "consume_chunks sd tm [] buf s = (Closed, s)"
| "consume_chunks sd tm (Inl e # chunks) buf s = (Failed (''stream read: '' @ e), s)"
| "consume_chunks sd tm (Inr bytes # chunks) buf s =
     (case drain_lines sd tm (buf @ bytes) s of
        (Inl e, s1) \<Rightarrow> (e, s1)
      | (Inr buf1, s1) \<Rightarrow> consume_chunks sd tm chunks buf1 s1)"

definition consume_stream ::
  "'g spicedb \<Rightarrow> timeline \<Rightarrow> (string + string) list \<Rightarrow> 'g watch_state \<Rightarrow> stream_end \<times> 'g watch_state" where
  "consume_stream sd tm chunks st = (case consume_chunks sd tm chunks [] (0, st) of (e, (_, st1)) \<Rightarrow> (e, st1))"

section \<open>Leadership and the loop\<close>

text \<open>
  Only the replica that holds the advisory lock consumes. The leader's row of \<^verbatim>\<open>watch_leader\<close> is the
  heartbeat the followers read; a missing row makes the update a no-op.
\<close>

definition heartbeat_secs :: int where
  "heartbeat_secs = 5"

definition follower_leader_fresh_secs :: int where
  "follower_leader_fresh_secs = 3 * heartbeat_secs"

definition heartbeat :: "string \<Rightarrow> instant \<Rightarrow> 'g watch_state \<Rightarrow> 'g watch_state" where
  "heartbeat holder now st = st\<lparr>wt_leader := map_option (\<lambda>_. (holder, now)) (wt_leader st)\<rparr>"

definition follower_freshness_from_leader :: "bool \<Rightarrow> instant \<Rightarrow> nat \<Rightarrow> 'g watch_state \<Rightarrow> 'g watch_state" where
  "follower_freshness_from_leader query_ok now uptime st =
     (case wt_leader st of
        Some (_, heartbeat_at) \<Rightarrow>
          if query_ok \<and> now - seconds follower_leader_fresh_secs < heartbeat_at
          then on_watch (mark_advance uptime) (on_watch (set_connected True) st) else st
      | None \<Rightarrow> st)"

definition record_error :: "string \<Rightarrow> watch_status \<Rightarrow> watch_status" where
  "record_error msg w = w\<lparr>ws_last_error := Some msg\<rparr>"

text \<open>
  While the connection is pending, the endpoint is probed on the heartbeat's cadence: a probe that
  answers keeps the status fresh, unless the heartbeat fails, which gives the attempt up; a probe that
  fails clears the connected flag.
\<close>

record tick =
  tk_now :: instant
  tk_uptime :: nat
  tk_heartbeat :: "string option"

datatype probe = ProbeOk tick | ProbeFailed rebac_error

fun await_connect ::
  "string \<Rightarrow> probe list \<Rightarrow> rebac_error + 'e \<Rightarrow> 'g watch_state \<Rightarrow> (rebac_error + 'e) \<times> 'g watch_state" where
  "await_connect holder [] conn st = (conn, st)"
| "await_connect holder (ProbeOk tk # ps) conn st =
     (let st1 = on_watch (mark_advance (tk_uptime tk)) (on_watch (set_connected True) st)
      in case tk_heartbeat tk of
           Some _ \<Rightarrow>
             (Inl (Transport (''leadership heartbeat failed while awaiting watch connect; '' @
                ''relinquishing to avoid a zombie-leader cursor race'')), st1)
         | None \<Rightarrow> await_connect holder ps conn (heartbeat holder (tk_now tk) st1))"
| "await_connect holder (ProbeFailed e # ps) conn st =
     await_connect holder ps conn
       (on_watch (record_error (''watch reachability probe: '' @ rebac_error_text e)) (on_watch (set_connected False) st))"

text \<open>
  The stream while leading: heartbeat ticks come between chunks, and a failed heartbeat ends the
  consumption with the unread chunks dropped.
\<close>

datatype lead_event = StreamChunk "string + string" | HeartbeatTick tick

fun consume_while_leading ::
  "'g spicedb \<Rightarrow> timeline \<Rightarrow> string \<Rightarrow> lead_event list \<Rightarrow> string \<Rightarrow> nat \<times> 'g watch_state \<Rightarrow> stream_end \<times> (nat \<times> 'g watch_state)" where
  "consume_while_leading sd tm holder [] buf s = (Closed, s)"
| "consume_while_leading sd tm holder (StreamChunk (Inl e) # evs) buf s = (Failed (''stream read: '' @ e), s)"
| "consume_while_leading sd tm holder (StreamChunk (Inr bytes) # evs) buf s =
     (case drain_lines sd tm (buf @ bytes) s of
        (Inl e, s1) \<Rightarrow> (e, s1)
      | (Inr buf1, s1) \<Rightarrow> consume_while_leading sd tm holder evs buf1 s1)"
| "consume_while_leading sd tm holder (HeartbeatTick tk # evs) buf (i, st) =
     (case tk_heartbeat tk of
        Some e \<Rightarrow>
          (Failed (''leadership heartbeat failed (lock connection likely lost); '' @
             ''relinquishing to avoid a zombie-leader cursor race: '' @ e), (i, st))
      | None \<Rightarrow> consume_while_leading sd tm holder evs buf
          (i, on_watch (mark_advance (tk_uptime tk)) (heartbeat holder (tk_now tk) st)))"

text \<open>What the loop does when a consumed stream has ended, and when the connection was refused.\<close>

definition clear_cursor_if :: "bool \<Rightarrow> 'g watch_state \<Rightarrow> 'g watch_state" where
  "clear_cursor_if ok st = (if ok then clear_cursor st else st)"

definition after_stream :: "bool \<Rightarrow> stream_end \<Rightarrow> 'g watch_state \<Rightarrow> 'g watch_state" where
  "after_stream clears e st =
     (let st1 = on_watch (set_connected False) st
      in case e of
           Closed \<Rightarrow> st1
         | Failed msg \<Rightarrow> on_watch (record_error msg) st1
         | Gap msg \<Rightarrow> clear_cursor_if clears (on_watch (mark_gap msg) st1))"

definition connect_failed :: "bool \<Rightarrow> bool \<Rightarrow> rebac_error \<Rightarrow> 'g watch_state \<Rightarrow> 'g watch_state" where
  "connect_failed clears resumed e st =
     (case e of
        Api status body \<Rightarrow>
          if resumed then clear_cursor_if clears (on_watch (mark_gap (nat_to_string status @ '': '' @ body)) st)
          else on_watch (record_error (rebac_error_text e)) st
      | _ \<Rightarrow> on_watch (record_error (rebac_error_text e)) st)"

text \<open>
  One pass of the loop. The environment of a pass gives the outcome of the lock attempt and of each
  statement whose failure the code tolerates, the probes, and the connection or its refusal.
\<close>

datatype lock_attempt = Leads | Follows | LockFailed string

record pass_env =
  pe_holder :: string
  pe_lock :: lock_attempt
  pe_tick :: tick
  pe_row_read :: bool
  pe_cursor_load :: "string option"
  pe_probes :: "probe list"
  pe_connect :: "rebac_error + lead_event list"
  pe_connected_at :: nat
  pe_clears :: bool

definition lead_pass :: "'g spicedb \<Rightarrow> timeline \<Rightarrow> pass_env \<Rightarrow> 'g watch_state \<Rightarrow> 'g watch_state" where
  "lead_pass sd tm pe st =
     (let resumed = wt_cursor st \<noteq> None;
          (conn, st1) = await_connect (pe_holder pe) (pe_probes pe) (pe_connect pe) st;
          st2 = (case conn of
            Inl e \<Rightarrow> connect_failed (pe_clears pe) resumed e st1
          | Inr evs \<Rightarrow>
              let (e, (_, st')) = consume_while_leading sd tm (pe_holder pe) evs []
                    (0, on_watch (mark_advance (pe_connected_at pe)) (on_watch (set_connected True) st1))
              in after_stream (pe_clears pe) e st')
      in st2\<lparr>wt_reconnects := wt_reconnects st2 + 1\<rparr>)"

definition run_pass :: "'g spicedb \<Rightarrow> timeline \<Rightarrow> pass_env \<Rightarrow> 'g watch_state \<Rightarrow> 'g watch_state" where
  "run_pass sd tm pe st =
     (case pe_lock pe of
        LockFailed e \<Rightarrow> on_watch (record_error (''leader lock: '' @ e)) st
      | Follows \<Rightarrow> follower_freshness_from_leader (pe_row_read pe) (tk_now (pe_tick pe)) (tk_uptime (pe_tick pe)) st
      | Leads \<Rightarrow>
          let st0 = (if tk_heartbeat (pe_tick pe) = None then heartbeat (pe_holder pe) (tk_now (pe_tick pe)) st else st)
          in case pe_cursor_load pe of
               Some e \<Rightarrow> on_watch (record_error (''cursor load: '' @ e)) st0
             | None \<Rightarrow> lead_pass sd tm pe st0)"

section \<open>Framing does not depend on the chunks\<close>

text \<open>The reference: cut the whole text into lines, keep the unfinished tail aside, handle line by line.\<close>

function split_all :: "string \<Rightarrow> string list \<times> string" where
  "split_all buf =
     (case split_line buf of
        None \<Rightarrow> ([], buf)
      | Some (line, rest) \<Rightarrow> (let (ls, tail) = split_all rest in (line # ls, tail)))"
  by pat_completeness auto
termination
  by (relation "measure length") (auto dest: split_line_length)

declare split_all.simps [simp del]

fun handle_all ::
  "'g spicedb \<Rightarrow> timeline \<Rightarrow> string list \<Rightarrow> nat \<times> 'g watch_state \<Rightarrow> (stream_end + unit) \<times> (nat \<times> 'g watch_state)" where
  "handle_all sd tm [] s = (Inr (), s)"
| "handle_all sd tm (l # ls) s =
     (case framed_line sd tm l s of (Inl e, s1) \<Rightarrow> (Inl e, s1) | (Inr _, s1) \<Rightarrow> handle_all sd tm ls s1)"

lemma split_line_append:
  "split_line (a @ b) = (case split_line a of
     Some (l, r) \<Rightarrow> Some (l, r @ b) | None \<Rightarrow> map_option (\<lambda>(l, r). (a @ l, r)) (split_line b))"
  by (induction a) (auto simp: option.map_comp comp_def case_prod_unfold map_option_case split: option.splits)

lemma split_all_None: "split_line buf = None \<Longrightarrow> split_all buf = ([], buf)"
  by (subst split_all.simps) simp

lemma split_all_tail: "split_all buf = (ls, tail) \<Longrightarrow> split_line tail = None"
  by (induction buf arbitrary: ls rule: split_all.induct)
    (subst (asm) (2) split_all.simps, auto split: option.splits prod.splits)

lemma split_all_append:
  "split_all (a @ b) = (case split_all a of (ls, tail) \<Rightarrow> case split_all (tail @ b) of (ls', tail') \<Rightarrow> (ls @ ls', tail'))"
proof (induction a rule: split_all.induct)
  case (1 buf)
  show ?case
  proof (cases "split_line buf")
    case None
    then show ?thesis by (simp add: split_all_None split: prod.splits)
  next
    case (Some lr)
    obtain l r where lr: "lr = (l, r)" by (cases lr)
    have "split_all (buf @ b) = (case split_all (r @ b) of (ls, tail) \<Rightarrow> (l # ls, tail))"
      by (subst split_all.simps) (simp add: split_line_append Some lr)
    moreover have "split_all buf = (case split_all r of (ls, tail) \<Rightarrow> (l # ls, tail))"
      by (subst split_all.simps) (simp add: Some lr)
    ultimately show ?thesis using 1 [OF Some lr [symmetric]] by (simp split: prod.splits)
  qed
qed

lemma drain_lines_eq:
  "drain_lines sd tm buf s = (case split_all buf of (ls, tail) \<Rightarrow>
     (case handle_all sd tm ls s of (Inl e, s1) \<Rightarrow> (Inl e, s1) | (Inr _, s1) \<Rightarrow> (Inr tail, s1)))"
proof (induction sd tm buf s rule: drain_lines.induct)
  case (1 sd tm buf s)
  show ?case
  proof (cases "split_line buf")
    case None
    then show ?thesis by (subst drain_lines.simps) (simp add: split_all_None)
  next
    case (Some lr)
    obtain l r where lr: "lr = (l, r)" by (cases lr)
    obtain x s1 where f: "framed_line sd tm l s = (x, s1)" by (rule prod.exhaust)
    have all: "split_all buf = (case split_all r of (ls, tail) \<Rightarrow> (l # ls, tail))"
      by (subst split_all.simps) (simp add: Some lr)
    show ?thesis
    proof (cases x)
      case (Inl e)
      then show ?thesis by (subst drain_lines.simps) (simp add: Some lr f all split: prod.splits)
    next
      case (Inr u)
      with 1 [OF Some lr [symmetric] f [symmetric] Inr] show ?thesis
        by (subst drain_lines.simps) (simp add: Some lr f all Inr split: prod.splits)
    qed
  qed
qed

lemma handle_all_append:
  "handle_all sd tm (ls @ ls') s =
     (case handle_all sd tm ls s of (Inl e, s1) \<Rightarrow> (Inl e, s1) | (Inr _, s1) \<Rightarrow> handle_all sd tm ls' s1)"
  by (induction ls arbitrary: s) (auto split: prod.splits sum.splits)

lemma consume_chunks_eq:
  assumes "split_line buf = None"
  shows "consume_chunks sd tm (map Inr chunks) buf s =
    (case handle_all sd tm (fst (split_all (buf @ concat chunks))) s of
       (Inl e, s1) \<Rightarrow> (e, s1) | (Inr _, s1) \<Rightarrow> (Closed, s1))"
  using assms
proof (induction chunks arbitrary: buf s)
  case Nil
  then show ?case by (simp add: split_all_None)
next
  case (Cons c chunks)
  obtain ls tail where sp: "split_all (buf @ c) = (ls, tail)" by fastforce
  obtain x s1 where h: "handle_all sd tm ls s = (x, s1)" by (rule prod.exhaust)
  obtain ls' tail' where sp': "split_all (tail @ concat chunks) = (ls', tail')" by fastforce
  have all: "split_all (buf @ c @ concat chunks) = (ls @ ls', tail')"
    using split_all_append [of "buf @ c" "concat chunks"] sp sp' by simp
  show ?case
  proof (cases x)
    case (Inl e)
    then show ?thesis by (simp add: drain_lines_eq sp h all handle_all_append)
  next
    case (Inr u)
    then show ?thesis
      using Cons.IH [OF split_all_tail [OF sp], of s1] by (simp add: drain_lines_eq sp h all handle_all_append sp')
  qed
qed

text \<open>
  C26: Reassembling lines from the byte stream is independent of how the network cuts it: consuming any
  sequence of chunks does exactly what handling the complete lines of their concatenation one by one
  does, stops at the first line that ends the stream, and never acts on an unfinished last line.
\<close>

theorem consume_stream_framing:
  "consume_stream sd tm (map Inr chunks) st =
     (case handle_all sd tm (fst (split_all (concat chunks))) (0, st) of
        (Inl e, (_, st')) \<Rightarrow> (e, st') | (Inr _, (_, st')) \<Rightarrow> (Closed, st'))"
  by (auto simp: consume_stream_def consume_chunks_eq split: prod.splits sum.splits)

section \<open>Frames are durable before the cursor moves\<close>

definition only_adds :: "'g watch_state \<Rightarrow> 'g watch_state \<Rightarrow> bool" where
  "only_adds st st' \<longleftrightarrow>
     (\<exists>new. rd_revocations (sv_rev (wt_server st')) = rd_revocations (sv_rev (wt_server st)) @ new) \<and>
     rd_principals (sv_rev (wt_server st')) = rd_principals (sv_rev (wt_server st)) \<and>
     rd_revoked_principal (sv_rev (wt_server st')) = rd_revoked_principal (sv_rev (wt_server st)) \<and>
     sv_db (wt_server st') = sv_db (wt_server st) \<and> sv_watch (wt_server st') = sv_watch (wt_server st)"

lemma only_adds_refl: "wt_server st' = wt_server st \<Longrightarrow> only_adds st st'"
  by (simp add: only_adds_def)

lemma only_adds_trans: "only_adds st st1 \<Longrightarrow> only_adds st1 st2 \<Longrightarrow> only_adds st st2"
  by (auto simp: only_adds_def)

lemma rebac_call_frame:
  assumes "rebac_call what call st = (r, st')"
  shows "wt_server st' = wt_server st" "wt_cursor st' = wt_cursor st"
    "r = Inr a \<Longrightarrow> call (wt_graph st) = (Inr a, wt_graph st')"
  using assms by (auto simp: rebac_call_def split: prod.splits sum.splits)

lemma delete_affected_frame:
  assumes "delete_affected sd d st = (r, st')"
  shows "wt_server st' = wt_server st" "wt_cursor st' = wt_cursor st" "r = Inr affected \<Longrightarrow> affected \<noteq> []"
  using assms
  by (auto simp: delete_affected_def split: option.splits principal_kind.splits prod.splits sum.splits dest: rebac_call_frame)

lemma tombstone_lost_cases:
  assumes "tombstone_lost fault now t affected lost_principals st = (r, st')" "affected \<noteq> []"
  shows "only_adds st st' \<and> wt_cursor st' = wt_cursor st \<and> wt_graph st' = wt_graph st \<and>
    (\<forall>x \<in> set (rd_revocations (sv_rev (wt_server st'))). x \<in> set (rd_revocations (sv_rev (wt_server st))) \<or> rv_at x = now) \<and>
    (\<not> isl r \<longrightarrow> (\<forall>(p, token) \<in> set (materialized t lost_principals (rd_principals (sv_rev (wt_server st)))).
       \<exists>x \<in> set (rd_revocations (sv_rev (wt_server st'))). rv_tenant_id x = t \<and> rv_token x = token \<and> now - seconds dedupe_secs < rv_at x))"
proof -
  define lost where "lost = materialized t lost_principals (rd_principals (sv_rev (wt_server st)))"
  define fresh where "fresh = dedupe_lost lost (recent_tokens now t (map snd lost) (sv_rev (wt_server st)))"
  obtain n rev' pl' where rec: "record_revocations now t affected fresh (sv_rev (wt_server st), sv_plane (wt_server st)) = (n, (rev', pl'))"
    by (metis prod_cases3)
  have pos: "0 < seconds dedupe_secs" by (simp add: seconds_def dedupe_secs_def)
  have recent: "\<exists>x \<in> set (rd_revocations (sv_rev (wt_server st))). rv_tenant_id x = t \<and> rv_token x = token \<and> now - seconds dedupe_secs < rv_at x"
    if "(p, token) \<in> set lost" "(p, token) \<notin> set fresh" for p token
    using that by (auto simp: fresh_def dedupe_lost_def recent_tokens_def)
  from assms(1) consider (unchanged) "st' = st" "\<not> isl r \<longrightarrow> fresh = []"
    | (added) "st' = st\<lparr>wt_server := (wt_server st)\<lparr>sv_rev := rev', sv_plane := pl'\<rparr>\<rparr>"
    by (auto simp: tombstone_lost_def Let_def rec lost_def [symmetric] fresh_def [symmetric]
        split: option.splits if_splits) (auto simp: fresh_def dedupe_lost_def)
  then show ?thesis
  proof cases
    case unchanged
    then show ?thesis using recent by (auto simp: lost_def [symmetric] intro: only_adds_refl)
  next
    case added
    have new: "rd_revocations rev' = rd_revocations (sv_rev (wt_server st)) @ concat (map (\<lambda>p. map (\<lambda>(_, token).
        \<lparr>rv_tenant_id = t, rv_principal = p, rv_token = token, rv_at = now\<rparr>) fresh) affected)"
      "rd_principals rev' = rd_principals (sv_rev (wt_server st))"
      "rd_revoked_principal rev' = rd_revoked_principal (sv_rev (wt_server st))"
      using rec by (auto simp: record_revocations_def Let_def)
    have "\<exists>x \<in> set (rd_revocations rev'). rv_tenant_id x = t \<and> rv_token x = token \<and> now - seconds dedupe_secs < rv_at x" if "(p, token) \<in> set lost" for p token
    proof (cases "(p, token) \<in> set fresh")
      case True
      with assms(2) pos show ?thesis by (cases affected) (force simp: new)+
    next
      case False
      from recent [OF that this] show ?thesis by (auto simp: new)
    qed
    then show ?thesis using added new by (auto simp: only_adds_def lost_def)
  qed
qed

definition delete_ok :: "'g spicedb \<Rightarrow> membership_delete \<Rightarrow> bool" where
  "delete_ok sd d \<longleftrightarrow> valid_uuid (md_tenant d) \<and> sd_utf8 sd (md_group d) \<and>
     (\<forall>kind name. md_member d = Some (kind, name) \<longrightarrow> sd_utf8 sd name)"

text \<open>A token of the group or of a group it is nested in.\<close>

definition lost_token :: "'g spicedb \<Rightarrow> relationship set \<Rightarrow> membership_delete \<Rightarrow> principal_row list \<Rightarrow> principal_token \<Rightarrow> bool" where
  "lost_token sd R d rows token \<longleftrightarrow>
     (\<exists>up. (up = md_group d \<or> in_group (memberships sd R) (md_tenant d) GroupPrincipal (md_group d) up) \<and>
        \<lparr>pr_tenant_id = md_tenant d, pr_principal = ''group:'' @ up, pr_token = token\<rparr> \<in> set rows)"

lemma group_and_ancestors_spec:
  assumes "uuid_ok sd" "lookups_ok sd rel" "tenant_tuples sd (rel g)" "valid_uuid t" "sd_utf8 sd grp"
    and "group_and_ancestors sd t grp g = (Inr gs, g')"
  shows "rel g' = rel g" "''group:'' @ grp \<in> set gs"
    "in_group (memberships sd (rel g)) t GroupPrincipal grp up \<Longrightarrow> ''group:'' @ up \<in> set gs"
proof -
  from assms(6) obtain closure where c: "membership_closure sd t GroupPrincipal grp g = (Inr closure, g')"
    and gs: "set gs = insert (''group:'' @ grp) (set closure)"
    by (auto simp: group_and_ancestors_def bind_r_Inr Let_def split: if_splits)
  note m = membership_closure_spec [OF assms(1-5) c]
  show "rel g' = rel g" "''group:'' @ grp \<in> set gs" using m gs by simp_all
  show "in_group (memberships sd (rel g)) t GroupPrincipal grp up \<Longrightarrow> ''group:'' @ up \<in> set gs" using m(3) gs by auto
qed

lemma delete_affected_rel:
  assumes "uuid_ok sd" "lookups_ok sd rel" "tenant_tuples sd (rel (wt_graph st))" "delete_ok sd d"
    and "delete_affected sd d st = (Inr affected, st')"
  shows "rel (wt_graph st') = rel (wt_graph st)"
proof (cases "md_member d")
  case None
  with assms(5) show ?thesis by (simp add: delete_affected_def)
next
  case (Some m)
  obtain kind name where m: "m = (kind, name)" by (cases m)
  show ?thesis
  proof (cases kind)
    case UserPrincipal
    with Some m assms(5) show ?thesis by (simp add: delete_affected_def)
  next
    case GroupPrincipal
    with Some m assms(5) obtain users where
      "rebac_call ''group_users'' (group_users sd (md_tenant d) name) st = (Inr users, st')"
      by (auto simp: delete_affected_def split: prod.splits sum.splits)
    moreover have "valid_uuid (md_tenant d)" "sd_utf8 sd name" using assms(4) Some m by (simp_all add: delete_ok_def)
    ultimately show ?thesis using group_users_spec(1) [OF assms(1-3)] rebac_call_frame(3) by metis
  qed
qed

lemma apply_delete_spec:
  assumes "apply_delete sd fault now d st = (r, st')"
  shows "only_adds st st'" "wt_cursor st' = wt_cursor st"
    "\<forall>x \<in> set (rd_revocations (sv_rev (wt_server st'))). x \<in> set (rd_revocations (sv_rev (wt_server st))) \<or> rv_at x = now"
    and "\<lbrakk>\<not> isl r; uuid_ok sd; lookups_ok sd rel; tenant_tuples sd (rel (wt_graph st)); delete_ok sd d\<rbrakk> \<Longrightarrow>
      rel (wt_graph st') = rel (wt_graph st) \<and>
      (lost_token sd (rel (wt_graph st)) d (rd_principals (sv_rev (wt_server st))) token \<longrightarrow>
       (\<exists>x \<in> set (rd_revocations (sv_rev (wt_server st'))). rv_tenant_id x = md_tenant d \<and> rv_token x = token \<and> now - seconds dedupe_secs < rv_at x))"
proof -
  obtain x st1 where da: "delete_affected sd d st = (x, st1)" by (rule prod.exhaust)
  note daf = delete_affected_frame [OF da]
  have "only_adds st st' \<and> wt_cursor st' = wt_cursor st \<and>
    (\<forall>x \<in> set (rd_revocations (sv_rev (wt_server st'))). x \<in> set (rd_revocations (sv_rev (wt_server st))) \<or> rv_at x = now) \<and>
    (\<not> isl r \<longrightarrow> uuid_ok sd \<longrightarrow> lookups_ok sd rel \<longrightarrow> tenant_tuples sd (rel (wt_graph st)) \<longrightarrow> delete_ok sd d \<longrightarrow>
      rel (wt_graph st') = rel (wt_graph st) \<and>
      (lost_token sd (rel (wt_graph st)) d (rd_principals (sv_rev (wt_server st))) token \<longrightarrow>
       (\<exists>x \<in> set (rd_revocations (sv_rev (wt_server st'))). rv_tenant_id x = md_tenant d \<and> rv_token x = token \<and> now - seconds dedupe_secs < rv_at x)))"
  proof (cases x)
    case (Inl e)
    with assms da daf show ?thesis by (auto simp: apply_delete_def intro: only_adds_refl)
  next
    case (Inr affected)
    obtain y st2 where rc: "rebac_call ''group_and_ancestors'' (group_and_ancestors sd (md_tenant d) (md_group d)) st1 = (y, st2)"
      by (rule prod.exhaust)
    note rcf = rebac_call_frame [OF rc]
    show ?thesis
    proof (cases y)
      case (Inl e)
      with assms da daf rc rcf Inr show ?thesis by (auto simp: apply_delete_def intro: only_adds_refl)
    next
      case lp: (Inr lost_principals)
      from assms da Inr rc lp have t: "tombstone_lost fault now (md_tenant d) affected lost_principals st2 = (r, st')"
        by (simp add: apply_delete_def)
      have sv: "wt_server st2 = wt_server st" "wt_cursor st2 = wt_cursor st" using rcf daf by simp_all
      note tl = tombstone_lost_cases [OF t daf(3) [OF Inr], unfolded sv]
      have "only_adds st st2" using sv by (intro only_adds_refl) simp
      moreover have "rel (wt_graph st') = rel (wt_graph st) \<and>
        (lost_token sd (rel (wt_graph st)) d (rd_principals (sv_rev (wt_server st))) token \<longrightarrow>
         (\<exists>x \<in> set (rd_revocations (sv_rev (wt_server st'))). rv_tenant_id x = md_tenant d \<and> rv_token x = token \<and> now - seconds dedupe_secs < rv_at x))"
        if c: "\<not> isl r" "uuid_ok sd" "lookups_ok sd rel" "tenant_tuples sd (rel (wt_graph st))" "delete_ok sd d"
      proof -
        have r1: "rel (wt_graph st1) = rel (wt_graph st)" using delete_affected_rel [OF c(2-5)] da Inr by simp
        note anc = group_and_ancestors_spec [OF c(2,3) _ _ _ rcf(3) [OF lp], unfolded r1, OF c(4)]
        have d: "valid_uuid (md_tenant d)" "sd_utf8 sd (md_group d)" using c(5) by (simp_all add: delete_ok_def)
        have "\<exists>x \<in> set (rd_revocations (sv_rev (wt_server st'))). rv_tenant_id x = md_tenant d \<and> rv_token x = token \<and> now - seconds dedupe_secs < rv_at x"
          if l: "lost_token sd (rel (wt_graph st)) d (rd_principals (sv_rev (wt_server st))) token"
        proof -
          from l anc(2,3) [OF d] obtain up where "''group:'' @ up \<in> set lost_principals"
            "\<lparr>pr_tenant_id = md_tenant d, pr_principal = ''group:'' @ up, pr_token = token\<rparr> \<in> set (rd_principals (sv_rev (wt_server st)))"
            unfolding lost_token_def by blast
          then have "(''group:'' @ up, token) \<in> set (materialized (md_tenant d) lost_principals (rd_principals (sv_rev (wt_server st))))"
            by (force simp: materialized_def)
          with tl c(1) show ?thesis by auto
        qed
        with tl anc(1) [OF d] show ?thesis by simp
      qed
      ultimately show ?thesis using tl only_adds_trans [of st st2 st'] sv by (auto simp: only_adds_def)
    qed
  qed
  then show "only_adds st st'" "wt_cursor st' = wt_cursor st"
    "\<forall>x \<in> set (rd_revocations (sv_rev (wt_server st'))). x \<in> set (rd_revocations (sv_rev (wt_server st))) \<or> rv_at x = now"
    "\<lbrakk>\<not> isl r; uuid_ok sd; lookups_ok sd rel; tenant_tuples sd (rel (wt_graph st)); delete_ok sd d\<rbrakk> \<Longrightarrow>
      rel (wt_graph st') = rel (wt_graph st) \<and>
      (lost_token sd (rel (wt_graph st)) d (rd_principals (sv_rev (wt_server st))) token \<longrightarrow>
       (\<exists>x \<in> set (rd_revocations (sv_rev (wt_server st'))). rv_tenant_id x = md_tenant d \<and> rv_token x = token \<and> now - seconds dedupe_secs < rv_at x))"
    by blast+
qed

lemma apply_deletes_spec:
  assumes "apply_deletes sd fault now ds st = (r, st')"
  shows "only_adds st st' \<and> wt_cursor st' = wt_cursor st \<and>
    (\<forall>x \<in> set (rd_revocations (sv_rev (wt_server st'))). x \<in> set (rd_revocations (sv_rev (wt_server st))) \<or> rv_at x = now) \<and>
    (\<not> isl r \<longrightarrow> uuid_ok sd \<longrightarrow> lookups_ok sd rel \<longrightarrow> tenant_tuples sd (rel (wt_graph st)) \<longrightarrow> list_all (delete_ok sd) ds \<longrightarrow>
      rel (wt_graph st') = rel (wt_graph st) \<and>
      (\<forall>d \<in> set ds. \<forall>token. lost_token sd (rel (wt_graph st)) d (rd_principals (sv_rev (wt_server st))) token \<longrightarrow>
       (\<exists>x \<in> set (rd_revocations (sv_rev (wt_server st'))). rv_tenant_id x = md_tenant d \<and> rv_token x = token \<and> now - seconds dedupe_secs < rv_at x)))"
  using assms
proof (induction ds arbitrary: st)
  case Nil
  then show ?case by (auto intro: only_adds_refl)
next
  case (Cons d ds)
  obtain x st1 where ap: "apply_delete sd fault now d st = (x, st1)" by (rule prod.exhaust)
  note a = apply_delete_spec [OF ap]
  show ?case
  proof (cases x)
    case (Inl e)
    with Cons.prems ap a(1-3) show ?thesis by auto
  next
    case (Inr n)
    define st2 where "st2 = st1\<lparr>wt_deltas_applied := wt_deltas_applied st1 + 1,
      wt_tombstones_written := wt_tombstones_written st1 + n\<rparr>"
    have st2: "wt_server st2 = wt_server st1" "wt_graph st2 = wt_graph st1" "wt_cursor st2 = wt_cursor st1"
      by (simp_all add: st2_def)
    from Cons.prems ap Inr have rest: "apply_deletes sd fault now ds st2 = (r, st')" by (simp add: st2_def)
    note IH = Cons.IH [OF rest]
    have "only_adds st1 st2" using st2 by (intro only_adds_refl) simp
    with IH a(1) have adds: "only_adds st st'" by (blast intro: only_adds_trans)
    have keep: "set (rd_revocations (sv_rev (wt_server st1))) \<subseteq> set (rd_revocations (sv_rev (wt_server st')))"
      and rows: "rd_principals (sv_rev (wt_server st1)) = rd_principals (sv_rev (wt_server st))"
      using IH a(1) st2 by (auto simp: only_adds_def)
    have new: "x \<in> set (rd_revocations (sv_rev (wt_server st))) \<or> rv_at x = now"
      if "x \<in> set (rd_revocations (sv_rev (wt_server st')))" for x
      using IH a(3) st2 that by auto
    have lost: "rel (wt_graph st') = rel (wt_graph st) \<and>
      (\<forall>e \<in> set (d # ds). \<forall>token. lost_token sd (rel (wt_graph st)) e (rd_principals (sv_rev (wt_server st))) token \<longrightarrow>
       (\<exists>x \<in> set (rd_revocations (sv_rev (wt_server st'))). rv_tenant_id x = md_tenant e \<and> rv_token x = token \<and> now - seconds dedupe_secs < rv_at x))"
      if c: "\<not> isl r" "uuid_ok sd" "lookups_ok sd rel" "tenant_tuples sd (rel (wt_graph st))" "list_all (delete_ok sd) (d # ds)"
    proof -
      have dok: "delete_ok sd d" "list_all (delete_ok sd) ds" using c(5) by simp_all
      note first = a(4) [OF _ c(2-4) dok(1)]
      have r1: "rel (wt_graph st1) = rel (wt_graph st)" using first Inr by simp
      have one: "\<exists>x \<in> set (rd_revocations (sv_rev (wt_server st1))). rv_tenant_id x = md_tenant d \<and> rv_token x = token \<and> now - seconds dedupe_secs < rv_at x"
        if "lost_token sd (rel (wt_graph st)) d (rd_principals (sv_rev (wt_server st))) token" for token
        using first [of token] Inr that by simp
      have two: "rel (wt_graph st') = rel (wt_graph st)"
        "\<forall>e \<in> set ds. \<forall>token. lost_token sd (rel (wt_graph st)) e (rd_principals (sv_rev (wt_server st))) token \<longrightarrow>
           (\<exists>x \<in> set (rd_revocations (sv_rev (wt_server st'))). rv_tenant_id x = md_tenant e \<and> rv_token x = token \<and> now - seconds dedupe_secs < rv_at x)"
        using IH c dok(2) r1 rows st2 by simp_all
      show ?thesis using one two keep by (auto simp del: split_paired_Ex) (meson subsetD)
    qed
    show ?thesis using adds IH a(2) st2 new lost by auto
  qed
qed

lemma unescape_id_utf8: "unescape_id u s = Some n \<Longrightarrow> u n"
  by (auto simp: unescape_id_def split: option.splits if_splits)

definition uuids_valid :: "'g spicedb \<Rightarrow> bool" where
  "uuids_valid sd \<longleftrightarrow> (\<forall>s t. sd_parse_uuid sd s = Some t \<longrightarrow> valid_uuid t)"

lemma parse_any_object_id_ok:
  assumes "uuids_valid sd" "parse_any_object_id sd i = Some (t, n)"
  shows "valid_uuid t \<and> sd_utf8 sd n"
  using assms by (auto simp: uuids_valid_def parse_any_object_id_def split: option.splits if_splits dest: unescape_id_utf8)

lemma member_subject_utf8:
  assumes "uuids_valid sd" "member_subject sd t rel = Some (kind, name)"
  shows "sd_utf8 sd name"
  using assms(2) parse_any_object_id_ok [OF assms(1)]
  by (auto simp: member_subject_def Let_def split: option.splits if_splits)

lemma update_delete_ok:
  assumes "uuids_valid sd" "update_delete sd u = Some d"
  shows "delete_ok sd d"
  using assms(2) parse_any_object_id_ok [OF assms(1)] member_subject_utf8 [OF assms(1)]
  by (auto simp: update_delete_def delete_ok_def Let_def split: option.splits if_splits)

lemma parse_watch_line_ok:
  assumes "uuids_valid sd" "parse_watch_line sd line = Inr (Updates ds token)"
  shows "list_all (delete_ok sd) ds"
  using assms(2) update_delete_ok [OF assms(1)]
  by (auto simp: parse_watch_line_def list_all_iff List.map_filter_def split: sum.splits option.splits)

lemma tombstone_drops:
  assumes "x \<in> set (rd_revocations db)" "rv_tenant_id x = t" "rv_token x = token"
    and "\<And>y. y \<in> set (rd_revocations db) \<Longrightarrow> rv_tenant_id y = t \<Longrightarrow> rv_token y = token \<Longrightarrow> issued \<le> rv_at y"
    and "now \<le> issued + seconds max_ttl_seconds"
  shows "\<not> keeps_token revoked (load_tombstones now t db) issued token"
proof -
  have "now - seconds retention_secs < rv_at x"
    by (rule retention_covers_handle [OF _ assms(5)]) (use assms(1-4) in blast)
  with assms(1,2) have ret: "x \<in> set (retained now t db)" by (simp add: retained_def)
  obtain y where "y \<in> set (retained now t db)" "rv_at y = min_at token (retained now t db)" "rv_token y = token"
    using min_at_in [OF ret assms(3)] by blast
  moreover from this have "issued \<le> rv_at y" by (intro assms(4)) (auto simp: retained_def)
  ultimately have "issued \<le> min_at token (retained now t db)" by simp
  moreover have "token \<in> rv_token ` set (retained now t db)" using ret assms(3) by force
  ultimately show ?thesis by (simp add: keeps_token_def map_of_load_tombstones)
qed

text \<open>
  C24: The watch never acknowledges what it has not recorded. Handling a line only ever adds tombstones:
  no stored tombstone, principal, chunk or fact changes. If it fails, the cursor stays where it was, so
  the frame is replayed. If it succeeds, the cursor is the frame's token (unchanged when it has none),
  and for every membership delete of the frame and every token of the group and of the groups it is
  nested in, the table holds a tombstone of that token, written now or within the last 15 seconds. The
  tombstone set then drops the token from any handle issued up to now and no later than any tombstone
  of that token, for as long as the handle can live. The other handles keep it: one issued after the
  tombstone that made the delete a recent duplicate, or after an older tombstone of the token
  (\<open>watch_dedupe_spares_fresh_handle\<close>).
\<close>

theorem watch_records_before_cursor:
  assumes contract: "uuid_ok sd" "lookups_ok sd rel" "uuids_valid sd"
    and graph: "tenant_tuples sd (rel (wt_graph st))"
    and run: "handle_line sd fault now uptime line st = (r, st')"
  shows "(\<exists>new. rd_revocations (sv_rev (wt_server st')) = rd_revocations (sv_rev (wt_server st)) @ new) \<and>
    rd_principals (sv_rev (wt_server st')) = rd_principals (sv_rev (wt_server st)) \<and>
    rd_revoked_principal (sv_rev (wt_server st')) = rd_revoked_principal (sv_rev (wt_server st)) \<and>
    sv_db (wt_server st') = sv_db (wt_server st) \<and>
    (isl r \<longrightarrow> wt_cursor st' = wt_cursor st) \<and>
    (\<not> isl r \<longrightarrow> (\<exists>ds token. parse_watch_line sd line = Inr (Updates ds token) \<and>
       wt_cursor st' = (case token of None \<Rightarrow> wt_cursor st | Some tok \<Rightarrow> Some tok) \<and>
       (\<forall>d \<in> set ds. \<forall>lost. lost_token sd (rel (wt_graph st)) d (rd_principals (sv_rev (wt_server st))) lost \<longrightarrow>
          (\<exists>x \<in> set (rd_revocations (sv_rev (wt_server st'))).
             rv_tenant_id x = md_tenant d \<and> rv_token x = lost \<and> now - seconds dedupe_secs < rv_at x) \<and>
          (\<forall>issued now' revoked. issued \<le> now \<longrightarrow> now' \<le> issued + seconds max_ttl_seconds \<longrightarrow>
             (\<forall>x \<in> set (rd_revocations (sv_rev (wt_server st))).
                rv_tenant_id x = md_tenant d \<longrightarrow> rv_token x = lost \<longrightarrow> issued \<le> rv_at x) \<longrightarrow>
             \<not> keeps_token revoked (load_tombstones now' (md_tenant d) (sv_rev (wt_server st'))) issued lost))))"
proof (cases "\<exists>ds token. parse_watch_line sd line = Inr (Updates ds token)")
  case False
  then have "st' = st" "isl r"
    using run by (auto simp: handle_line_def split: sum.splits watch_line.splits)
  then show ?thesis by simp
next
  case True
  then obtain ds token where p: "parse_watch_line sd line = Inr (Updates ds token)" by blast
  define st0 where "st0 = st\<lparr>wt_events_seen := wt_events_seen st + 1\<rparr>"
  have st0: "wt_server st0 = wt_server st" "wt_graph st0 = wt_graph st" "wt_cursor st0 = wt_cursor st"
    by (simp_all add: st0_def)
  obtain x st1 where ap: "apply_deletes sd fault now ds st0 = (x, st1)" by (rule prod.exhaust)
  note a = apply_deletes_spec [OF ap, of rel, unfolded st0]
  have sv: "sv_rev (wt_server st') = sv_rev (wt_server st1)" "sv_db (wt_server st') = sv_db (wt_server st1)"
    and cur: "isl r \<Longrightarrow> wt_cursor st' = wt_cursor st1"
      "\<not> isl r \<Longrightarrow> \<not> isl x \<and> wt_cursor st' = (case token of None \<Rightarrow> wt_cursor st1 | Some tok \<Rightarrow> Some tok)"
    using run ap
    by (auto simp: handle_line_def p st0_def on_watch_def store_cursor_def split: sum.splits option.splits)
  have adds: "\<exists>new. rd_revocations (sv_rev (wt_server st')) = rd_revocations (sv_rev (wt_server st)) @ new"
    "rd_principals (sv_rev (wt_server st')) = rd_principals (sv_rev (wt_server st))"
    "rd_revoked_principal (sv_rev (wt_server st')) = rd_revoked_principal (sv_rev (wt_server st))"
    "sv_db (wt_server st') = sv_db (wt_server st)"
    using a st0 unfolding sv only_adds_def by auto
  have row: "\<exists>x \<in> set (rd_revocations (sv_rev (wt_server st'))).
      rv_tenant_id x = md_tenant d \<and> rv_token x = lost \<and> now - seconds dedupe_secs < rv_at x"
    if "\<not> isl r" "d \<in> set ds" "lost_token sd (rel (wt_graph st)) d (rd_principals (sv_rev (wt_server st))) lost" for d lost
    using a cur(2) [OF that(1)] contract(1,2) graph parse_watch_line_ok [OF contract(3) p] that(2,3) unfolding sv by blast
  have drops: "\<not> keeps_token revoked (load_tombstones now' (md_tenant d) (sv_rev (wt_server st'))) issued lost"
    if "\<not> isl r" "d \<in> set ds" "lost_token sd (rel (wt_graph st)) d (rd_principals (sv_rev (wt_server st))) lost"
      "issued \<le> now" "now' \<le> issued + seconds max_ttl_seconds"
      "\<forall>x \<in> set (rd_revocations (sv_rev (wt_server st))). rv_tenant_id x = md_tenant d \<longrightarrow> rv_token x = lost \<longrightarrow> issued \<le> rv_at x"
    for d lost issued now' revoked
  proof -
    from row [OF that(1-3)] obtain y where y: "y \<in> set (rd_revocations (sv_rev (wt_server st')))"
      "rv_tenant_id y = md_tenant d" "rv_token y = lost" by blast
    from y(1) have y1: "y \<in> set (rd_revocations (sv_rev (wt_server st1)))" unfolding sv .
    show ?thesis unfolding sv by (rule tombstone_drops [OF y1 y(2,3) _ that(5)]) (use a that(4,6) in auto)
  qed
  have "wt_cursor st1 = wt_cursor st" using a by blast
  with cur have "isl r \<Longrightarrow> wt_cursor st' = wt_cursor st"
    "\<not> isl r \<Longrightarrow> wt_cursor st' = (case token of None \<Rightarrow> wt_cursor st | Some tok \<Rightarrow> Some tok)"
    by (auto split: option.splits)
  with adds row drops p show ?thesis by simp
qed

text \<open>
  A demo server whose watch stream knows one frame, the removal of bob from west. West is nested in sales,
  so a handle that holds the token of sales loses it too.
\<close>

definition demo_frame :: json where
  "demo_frame = JObject [(''result'', JObject
     [(''changesThrough'', JObject [(''token'', JString ''T1'')]),
      (''updates'', JArray [JObject
        [(''operation'', JString ''OPERATION_DELETE''),
         (''relationship'', JObject
           [(''relation'', JString ''member''), (''resource'', object_ref ''group'' (demo_oid 1 ''west'')),
            (''subject'', subject_ref UserPrincipal (demo_oid 1 ''bob''))])]])])]"

definition demo_watch_sd :: "relationship list spicedb" where
  "demo_watch_sd = demo_sd\<lparr>
     sd_parse := (\<lambda>l. if l = ''west-delete'' then Inr demo_frame else sd_parse demo_sd l),
     sd_parse_uuid := (\<lambda>s. if valid_uuid (unhex36 s) then Some (unhex36 s) else None)\<rparr>"

definition demo_watch :: "relationship list watch_state" where
  "demo_watch = \<lparr>wt_server = is_server demo_state, wt_graph = demo_graph, wt_cursor = None, wt_reconnects = 0,
     wt_events_seen = 0, wt_deltas_applied = 0, wt_tombstones_written = 0, wt_last_token = None,
     wt_leader = Some ([], 0)\<rparr>"

lemma demo_watch_fields [simp]:
  "sd_http demo_watch_sd = sd_http demo_sd" "sd_uuid demo_watch_sd = sd_uuid demo_sd"
  "sd_utf8 demo_watch_sd = sd_utf8 demo_sd" "sd_print demo_watch_sd = sd_print demo_sd"
  by (simp_all add: demo_watch_sd_def)

lemma demo_watch_uuids: "uuid_ok demo_watch_sd" "uuids_valid demo_watch_sd"
proof -
  have "t < 16 ^ 36" if "valid_uuid t" for t using that by (simp add: valid_uuid_def)
  then show "uuid_ok demo_watch_sd" by (simp add: uuid_ok_def demo_watch_sd_def demo_sd_def unhex_hex)
  show "uuids_valid demo_watch_sd" by (simp add: uuids_valid_def demo_watch_sd_def)
qed

lemma stream_results_agree:
  assumes "\<And>l. l \<in> set ls \<Longrightarrow> sd_parse sd l = sd_parse sd' l" "sd_print sd = sd_print sd'"
  shows "stream_results sd ls = stream_results sd' ls"
  using assms by (induction ls) (auto cong: sum.case_cong option.case_cong)

lemma demo_watch_stream:
  assumes "reply \<in> {demo_oid 1 ''west'' @ [char_of (10 :: nat)] @ demo_oid 1 ''sales'', demo_oid 1 ''sales'', demo_oid 1 ''alice'', ''cycle''}"
  shows "stream_results demo_watch_sd (str_lines reply) = stream_results demo_sd (str_lines reply)"
proof -
  have "''west-delete'' \<notin> set (str_lines (demo_oid 1 ''west'' @ [char_of (10 :: nat)] @ demo_oid 1 ''sales''))"
    "''west-delete'' \<notin> set (str_lines (demo_oid 1 ''sales''))" "''west-delete'' \<notin> set (str_lines (demo_oid 1 ''alice''))"
    "''west-delete'' \<notin> set (str_lines ''cycle'')" by (code_simp, code_simp, code_simp, code_simp)
  with assms have "''west-delete'' \<notin> set (str_lines reply)" by blast
  then show ?thesis by (auto intro!: stream_results_agree simp: demo_watch_sd_def)
qed

lemma demo_watch_lookups_ok: "lookups_ok demo_watch_sd set"
proof -
  have r: "stream_results demo_watch_sd (str_lines reply) = stream_results demo_sd (str_lines reply)"
    if "sd_http demo_sd ''/v1/permissions/resources'' (resources_body kind i) g = (Inr (status, reply), g')" for kind i g status reply g'
    using demo_resources_cases [OF that] by (intro demo_watch_stream) blast
  have u: "stream_results demo_watch_sd (str_lines reply) = stream_results demo_sd (str_lines reply)"
    if "sd_http demo_sd ''/v1/permissions/subjects'' (subjects_body i) g = (Inr (status, reply), g')" for i g status reply g'
    using demo_subjects_cases [OF that] by (intro demo_watch_stream) blast
  note ok = demo_lookups_ok [unfolded lookups_ok_def, rule_format]
  show ?thesis
    unfolding lookups_ok_def demo_watch_fields
  proof (intro allI impI conjI, goal_cases)
    case (1 g g' status reply i kind) from ok [OF 1(1), THEN conjunct1, rule_format, OF 1(2)] show ?case by blast
  next
    case (2 g g' status reply i kind rs)
    from ok [OF 2(1), THEN conjunct1, rule_format, OF 2(2)] 2(3) r [OF 2(2)] show ?case by (simp only: reply_ids_def, blast?)
  next
    case (3 g g' status reply i kind rs)
    from ok [OF 3(1), THEN conjunct1, rule_format, OF 3(2)] 3(3) r [OF 3(2)] show ?case by (simp only: reply_ids_def, blast?)
  next
    case (4 g g' status reply i kind) from ok [OF 4(1), THEN conjunct2, rule_format, OF 4(2)] show ?case by blast
  next
    case (5 g g' status reply i kind rs)
    from ok [OF 5(1), THEN conjunct2, rule_format, OF 5(2)] 5(3) u [OF 5(2)] show ?case by (simp only: reply_ids_def, blast?)
  qed
qed

lemma demo_watch_ancestors:
  "group_and_ancestors demo_watch_sd 1 ''west'' demo_graph = (Inr [''group:sales'', ''group:west''], demo_graph)"
proof -
  have "oid demo_watch_sd 1 ''west'' = demo_oid 1 ''west''" by (simp add: demo_sd_def demo_oid_def)
  moreover have "stream_results demo_watch_sd (str_lines (demo_oid 1 ''sales'')) = stream_results demo_sd (str_lines (demo_oid 1 ''sales''))"
    by (rule demo_watch_stream) blast
  ultimately have "post_stream demo_watch_sd ''/v1/permissions/resources'' (resources_body GroupPrincipal (oid demo_watch_sd 1 ''west'')) demo_graph =
      (Inr [demo_result (demo_oid 1 ''sales'')], demo_graph)"
    by (simp only: post_stream_def post_text_def demo_watch_fields demo_lookup resources_body_eq principal_kind.distinct simp_thms
        if_True if_False prod.case sum.case is_success_demo bind_r.simps demo_reply)
  moreover have "names_of_tenant demo_sd 1 [demo_oid 1 ''sales''] = [''sales'']" by code_simp
  ultimately show ?thesis
    by (simp add: group_and_ancestors_def membership_closure_def names_of_tenant_def)
qed

lemma demo_watch_parse:
  "parse_watch_line demo_watch_sd ''west-delete'' =
     Inr (Updates [\<lparr>md_tenant = 1, md_group = ''west'', md_member = Some (UserPrincipal, ''bob'')\<rparr>] (Some ''T1''))"
proof -
  have oid: "parse_any_object_id demo_watch_sd (demo_oid 1 n) = Some (1, n)" if "n \<in> {''west'', ''bob''}" for n
  proof -
    have "take 36 (demo_oid 1 n) = hex36 36 1" "drop 36 (demo_oid 1 n) = ''_'' @ escape_id n" "36 \<le> length (demo_oid 1 n)"
      by (simp_all add: demo_oid_def object_id_def)
    moreover have "unescape_id (\<lambda>_. True) (escape_id n) = Some n" using that by (elim insertE emptyE) (simp_all, code_simp+)
    moreover have "sd_parse_uuid demo_watch_sd (hex36 36 1) = Some 1" using unhex_hex [of 1 36] by (simp add: demo_watch_sd_def valid_uuid_def)
    ultimately show ?thesis by (simp add: parse_any_object_id_def demo_sd_def)
  qed
  then show ?thesis
    by (simp add: parse_watch_line_def demo_watch_sd_def [THEN arg_cong, of sd_parse] demo_frame_def List.map_filter_def
        update_delete_def member_subject_def object_ref_def subject_ref_def json_index_def kind_of_type_def)
qed

theorem watch_records_before_cursor_witness:
  "case handle_line demo_watch_sd (\<lambda>_. None) 100 0 ''west-delete'' demo_watch of (r, st') \<Rightarrow>
     \<not> isl r \<and> wt_cursor st' = Some ''T1'' \<and>
     \<not> keeps_token [] (load_tombstones 200 1 (sv_rev (wt_server st'))) 100 7"
proof -
  let ?d = "\<lparr>md_tenant = 1, md_group = ''west'', md_member = Some (UserPrincipal, ''bob'')\<rparr>"
  obtain r st' where run: "handle_line demo_watch_sd (\<lambda>_. None) 100 0 ''west-delete'' demo_watch = (r, st')" by (rule prod.exhaust)
  have written: "\<exists>n st2. tombstone_lost (\<lambda>_. None) now t affected lost st1 = (Inr n, st2)"
    for now t affected lost and st1 :: "relationship list watch_state"
    by (simp add: tombstone_lost_def Let_def split: prod.split)
  have "\<exists>n st2. apply_delete demo_watch_sd (\<lambda>_. None) 100 ?d (demo_watch\<lparr>wt_events_seen := Suc 0\<rparr>) = (Inr n, st2)"
    using demo_watch_ancestors written
    by (simp add: apply_delete_def delete_affected_def rebac_call_def demo_watch_def del: One_nat_def)
  moreover have "wt_events_seen demo_watch = 0" by (simp add: demo_watch_def)
  ultimately have ok: "\<not> isl r" using run by (auto simp: handle_line_def demo_watch_parse)
  have graph: "tenant_tuples demo_watch_sd (set (wt_graph demo_watch))"
    using demo_tenant_tuples by (simp add: tenant_tuples_def demo_watch_def)
  have up: "in_group (memberships demo_watch_sd (set (wt_graph demo_watch))) 1 GroupPrincipal ''west'' ''sales''"
    by (rule in_group.direct)
      (simp add: memberships_def demo_watch_def demo_graph_def demo_oid_def demo_sd_def valid_uuid_def)
  have "lost_token demo_watch_sd (set (wt_graph demo_watch)) ?d (rd_principals (sv_rev (wt_server demo_watch))) 7"
    unfolding lost_token_def using up by (intro exI [of _ "''sales''"]) (simp add: demo_watch_def demo_state_def)
  moreover have "\<forall>x \<in> set (rd_revocations (sv_rev (wt_server demo_watch))). rv_tenant_id x = md_tenant ?d \<longrightarrow> rv_token x = 7 \<longrightarrow> 100 \<le> rv_at x"
    by (simp add: demo_watch_def demo_state_def sample_rev_db_def)
  moreover have "(200 :: instant) \<le> 100 + seconds max_ttl_seconds" by (simp add: seconds_def max_ttl_seconds_def)
  moreover obtain ds token where "parse_watch_line demo_watch_sd ''west-delete'' = Inr (Updates ds token)"
    and "wt_cursor st' = (case token of None \<Rightarrow> wt_cursor demo_watch | Some tok \<Rightarrow> Some tok)"
    and "\<forall>d \<in> set ds. \<forall>lost. lost_token demo_watch_sd (set (wt_graph demo_watch)) d (rd_principals (sv_rev (wt_server demo_watch))) lost \<longrightarrow>
          (\<exists>x \<in> set (rd_revocations (sv_rev (wt_server st'))).
             rv_tenant_id x = md_tenant d \<and> rv_token x = lost \<and> 100 - seconds dedupe_secs < rv_at x) \<and>
          (\<forall>issued now' revoked. issued \<le> 100 \<longrightarrow> now' \<le> issued + seconds max_ttl_seconds \<longrightarrow>
          (\<forall>x \<in> set (rd_revocations (sv_rev (wt_server demo_watch))).
             rv_tenant_id x = md_tenant d \<longrightarrow> rv_token x = lost \<longrightarrow> issued \<le> rv_at x) \<longrightarrow>
          \<not> keeps_token revoked (load_tombstones now' (md_tenant d) (sv_rev (wt_server st'))) issued lost)"
    using watch_records_before_cursor [OF demo_watch_uuids(1) demo_watch_lookups_ok demo_watch_uuids(2) graph run] ok by blast
  ultimately have "wt_cursor st' = Some ''T1''"
    "\<not> keeps_token [] (load_tombstones 200 (md_tenant ?d) (sv_rev (wt_server st'))) 100 7"
    unfolding demo_watch_parse by (auto simp del: One_nat_def)
  with ok show ?thesis unfolding run by simp
qed

text \<open>
  A delete that follows another one of the same token within 15 seconds writes nothing, so a handle
  minted between the two keeps the token, although the header of \<^verbatim>\<open>rebac_watch.rs\<close> says a removal
  takes effect on the very next read: here the tokens of west and sales were tombstoned at 95 s, the
  handle was minted at 98 s and bob's removal is handled at 100 s.
\<close>

definition recent_watch :: "relationship list watch_state" where
  "recent_watch = demo_watch\<lparr>wt_server := (wt_server demo_watch)\<lparr>sv_rev := (sv_rev (wt_server demo_watch))\<lparr>rd_revocations :=
     [\<lparr>rv_tenant_id = 1, rv_principal = ''user:carol'', rv_token = 5, rv_at = seconds 95\<rparr>,
      \<lparr>rv_tenant_id = 1, rv_principal = ''user:carol'', rv_token = 7, rv_at = seconds 95\<rparr>]\<rparr>\<rparr>\<rparr>"

lemma watch_dedupe_spares_fresh_handle:
  "case handle_line demo_watch_sd (\<lambda>_. None) (seconds 100) 0 ''west-delete'' recent_watch of (r, st') \<Rightarrow>
     r = Inr () \<and> wt_cursor st' = Some ''T1'' \<and>
     keeps_token [] (load_tombstones (seconds 100) 1 (sv_rev (wt_server st'))) (seconds 98) 7"
proof -
  let ?d = "\<lparr>md_tenant = 1, md_group = ''west'', md_member = Some (UserPrincipal, ''bob'')\<rparr>"
  let ?st = "recent_watch\<lparr>wt_events_seen := Suc 0\<rparr>"
  have mat: "materialized 1 [''group:sales'', ''group:west''] (rd_principals (sv_rev (wt_server recent_watch))) =
      [(''group:west'', 5), (''group:sales'', 7)]"
    by (simp add: materialized_def recent_watch_def demo_watch_def demo_state_def)
  have "recent_tokens (seconds 100) 1 [5, 7] (sv_rev (wt_server recent_watch)) = [5, 7]" by code_simp
  then have "apply_delete demo_watch_sd (\<lambda>_. None) (seconds 100) ?d ?st = (Inr 0, ?st)"
    using demo_watch_ancestors mat
    by (simp add: apply_delete_def delete_affected_def rebac_call_def tombstone_lost_def dedupe_lost_def Let_def
        recent_watch_def demo_watch_def del: One_nat_def)
  moreover have "wt_events_seen recent_watch = 0" by (simp add: recent_watch_def demo_watch_def)
  ultimately have run: "handle_line demo_watch_sd (\<lambda>_. None) (seconds 100) 0 ''west-delete'' recent_watch =
      (Inr (), on_watch (mark_advance 0) ((store_cursor ''T1'' (?st\<lparr>wt_deltas_applied := Suc (wt_deltas_applied ?st),
         wt_tombstones_written := wt_tombstones_written ?st\<rparr>))\<lparr>wt_last_token := Some ''T1''\<rparr>))"
    by (simp add: handle_line_def demo_watch_parse)
  have "keeps_token [] (load_tombstones (seconds 100) 1 (sv_rev (wt_server recent_watch))) (seconds 98) 7" by code_simp
  then show ?thesis unfolding run by (simp add: on_watch_def store_cursor_def)
qed

section \<open>Passes of the loop\<close>

text \<open>Ticks aside, leading is consuming the stream.\<close>

lemma consume_while_leading_chunks:
  "consume_while_leading sd tm holder (map StreamChunk chunks) buf s = consume_chunks sd tm chunks buf s"
proof (induction chunks arbitrary: buf s)
  case (Cons c cs)
  then show ?case by (cases c) (auto split: prod.split sum.split)
qed simp

abbreviation degraded :: "'g watch_state \<Rightarrow> bool" where
  "degraded st \<equiv> ws_degraded (sv_watch (wt_server st))"

abbreviation watch_enabled :: "'g watch_state \<Rightarrow> bool" where
  "watch_enabled st \<equiv> ws_enabled (sv_watch (wt_server st))"

text \<open>Neither the operator's switch nor the latch is lowered.\<close>

definition latched :: "'g watch_state \<Rightarrow> 'g watch_state \<Rightarrow> bool" where
  "latched st st' \<longleftrightarrow> (degraded st \<longrightarrow> degraded st') \<and> watch_enabled st' = watch_enabled st"

lemma latched_refl [simp]: "latched st st"
  by (simp add: latched_def)

lemma latched_trans: "latched st st1 \<Longrightarrow> latched st1 st2 \<Longrightarrow> latched st st2"
  by (simp add: latched_def)

lemma latched_status [simp]:
  "latched st (on_watch (mark_advance u) st') = latched st st'"
  "latched st (on_watch (set_connected b) st') = latched st st'"
  "latched st (on_watch (record_error e) st') = latched st st'"
  "latched st (heartbeat h n st') = latched st st'"
  "latched st (st'\<lparr>wt_reconnects := k\<rparr>) = latched st st'"
  "latched (on_watch (mark_advance u) st') st = latched st' st"
  "latched (on_watch (set_connected b) st') st = latched st' st"
  "latched (on_watch (record_error e) st') st = latched st' st"
  "latched (heartbeat h n st') st = latched st' st"
  by (simp_all add: latched_def on_watch_def mark_advance_def set_connected_def record_error_def heartbeat_def)

lemma latched_gap: "latched st st' \<Longrightarrow> latched st (on_watch (mark_gap e) st')"
  by (simp add: latched_def on_watch_def mark_gap_def)

lemma latched_clear [simp]: "latched st (clear_cursor_if b st') = latched st st'"
  by (simp add: latched_def clear_cursor_if_def clear_cursor_def)

lemma tombstone_lost_watch:
  "tombstone_lost fault now t affected lost st = (r, st') \<Longrightarrow> sv_watch (wt_server st') = sv_watch (wt_server st)"
  by (auto simp: tombstone_lost_def Let_def split: option.splits if_splits prod.splits)

lemma rebac_call_server: "rebac_call what call st = (r, st') \<Longrightarrow> wt_server st' = wt_server st"
  by (auto simp: rebac_call_def split: prod.splits sum.splits)

lemma apply_delete_watch:
  assumes "apply_delete sd fault now d st = (r, st')"
  shows "sv_watch (wt_server st') = sv_watch (wt_server st)"
proof -
  have "wt_server st1 = wt_server st" if "delete_affected sd d st = (x, st1)" for x st1
    using that by (auto simp: delete_affected_def split: option.splits prod.splits principal_kind.splits sum.splits dest: rebac_call_server)
  with assms show ?thesis
    by (fastforce simp: apply_delete_def split: prod.splits sum.splits dest: rebac_call_server tombstone_lost_watch)
qed

lemma apply_deletes_watch:
  "apply_deletes sd fault now ds st = (r, st') \<Longrightarrow> sv_watch (wt_server st') = sv_watch (wt_server st)"
proof (induction ds arbitrary: st)
  case (Cons d ds)
  then show ?case by (auto split: prod.splits sum.splits dest!: apply_delete_watch Cons.IH)
qed simp

lemma handle_line_latched:
  assumes "handle_line sd fault now uptime line st = (r, st')"
  shows "latched st st'"
proof -
  have "latched st st1" if "apply_deletes sd fault now ds (st\<lparr>wt_events_seen := n\<rparr>) = (x, st1)" for ds n x st1
    using apply_deletes_watch [OF that] by (simp add: latched_def)
  moreover have "latched st (st1\<lparr>wt_last_token := x\<rparr>) = latched st st1" "latched st (store_cursor tok st1) = latched st st1"
    for st1 x tok by (simp_all add: latched_def store_cursor_def)
  ultimately show ?thesis using assms
    by (auto simp: handle_line_def split: sum.splits watch_line.splits prod.splits option.splits)
qed

lemma drain_lines_latched: "drain_lines sd tm buf s = (r, s') \<Longrightarrow> latched (snd s) (snd s')"
proof (induction sd tm buf s arbitrary: r s' rule: drain_lines.induct)
  case (1 sd tm buf s)
  have one: "latched (snd s) (snd s1)" if "framed_line sd tm line s = (x, s1)" for line x s1
    using that by (auto simp: framed_line_def Let_def split: prod.splits if_splits dest: handle_line_latched)
  show ?case
  proof (cases "split_line buf")
    case None
    with 1(2) show ?thesis by (simp add: drain_lines.simps)
  next
    case (Some lr)
    obtain line rest x s1 where lr: "lr = (line, rest)" and f: "framed_line sd tm line s = (x, s1)" by (metis prod.exhaust)
    show ?thesis
    proof (cases x)
      case (Inl e)
      with 1(2) Some lr f one [OF f] show ?thesis by (simp add: drain_lines.simps [of sd tm buf])
    next
      case (Inr u)
      with 1(2) Some lr f have "drain_lines sd tm rest s1 = (r, s')" by (simp add: drain_lines.simps [of sd tm buf])
      from 1(1) [OF Some lr [symmetric] f [symmetric] Inr this] one [OF f] show ?thesis by (blast intro: latched_trans)
    qed
  qed
qed

lemma consume_while_leading_latched:
  "consume_while_leading sd tm holder evs buf s = (e, s') \<Longrightarrow> latched (snd s) (snd s')"
proof (induction sd tm holder evs buf s arbitrary: e s' rule: consume_while_leading.induct)
  case (3 sd tm holder bytes evs buf s)
  then show ?case
    by (auto split: prod.splits sum.splits dest: drain_lines_latched intro: latched_trans [OF drain_lines_latched])
next
  case (4 sd tm holder tk evs buf i st)
  show ?case
  proof (cases "tk_heartbeat tk")
    case None
    with 4 show ?thesis by simp
  qed (use 4 in auto)
qed auto

lemma await_connect_latched: "await_connect holder ps conn st = (r, st') \<Longrightarrow> latched st st'"
proof (induction holder ps conn st rule: await_connect.induct)
  case (2 holder tk ps conn st)
  show ?case
  proof (cases "tk_heartbeat tk")
    case None
    let ?st = "heartbeat holder (tk_now tk) (on_watch (mark_advance (tk_uptime tk)) (on_watch (set_connected True) st))"
    have "latched st ?st" "latched ?st st'" using 2 None by (simp_all add: Let_def)
    then show ?thesis by (rule latched_trans)
  qed (use 2 in auto)
next
  case (3 holder e ps conn st)
  let ?st = "on_watch (record_error (''watch reachability probe: '' @ rebac_error_text e)) (on_watch (set_connected False) st)"
  have "latched st ?st" "latched ?st st'" using 3 by simp_all
  then show ?case by (rule latched_trans)
qed simp

lemma settle_latched:
  "latched st st' \<Longrightarrow> latched st (after_stream c e st')" "latched st st' \<Longrightarrow> latched st (connect_failed c b x st')"
  by (auto simp: after_stream_def connect_failed_def Let_def intro: latched_gap split: stream_end.split rebac_error.split)

lemma run_pass_latched: "latched st (run_pass sd tm pe st)"
proof -
  have lead: "latched st (lead_pass sd tm pe st)" for st
    by (auto simp: lead_pass_def Let_def split: prod.splits sum.splits
        dest!: await_connect_latched consume_while_leading_latched intro!: settle_latched intro: latched_trans)
  show ?thesis
    using lead [of "heartbeat (pe_holder pe) (tk_now (pe_tick pe)) st"]
    by (auto simp: run_pass_def follower_freshness_from_leader_def Let_def split: lock_attempt.split option.split
        intro: lead latched_trans)
qed

fun run_passes :: "'g spicedb \<Rightarrow> (timeline \<times> pass_env) list \<Rightarrow> 'g watch_state \<Rightarrow> 'g watch_state" where
  "run_passes sd [] st = st"
| "run_passes sd ((tm, pe) # ps) st = run_passes sd ps (run_pass sd tm pe st)"

lemma run_passes_latched: "latched st (run_passes sd ps st)"
proof (induction ps arbitrary: st)
  case (Cons p ps)
  then show ?case using run_pass_latched latched_trans by (cases p) (auto, blast)
qed simp

text \<open>
  A pass meets a gap when the server refuses the stored cursor, at the connection or inside the stream.
  The probes before the connection come in any number; a probe whose heartbeat fails gives the pass
  up before the answer is seen.
\<close>

definition probe_holds :: "probe \<Rightarrow> bool" where
  "probe_holds p = (case p of ProbeOk tk \<Rightarrow> tk_heartbeat tk = None | ProbeFailed _ \<Rightarrow> True)"

definition pass_start :: "pass_env \<Rightarrow> 'g watch_state \<Rightarrow> 'g watch_state" where
  "pass_start pe st = (if tk_heartbeat (pe_tick pe) = None then heartbeat (pe_holder pe) (tk_now (pe_tick pe)) st else st)"

definition stream_start :: "pass_env \<Rightarrow> 'g watch_state \<Rightarrow> 'g watch_state" where
  "stream_start pe st = on_watch (mark_advance (pe_connected_at pe)) (on_watch (set_connected True)
     (snd (await_connect (pe_holder pe) (pe_probes pe) (pe_connect pe) (pass_start pe st))))"

definition meets_gap :: "'g spicedb \<Rightarrow> timeline \<Rightarrow> pass_env \<Rightarrow> 'g watch_state \<Rightarrow> bool" where
  "meets_gap sd tm pe st \<longleftrightarrow> pe_lock pe = Leads \<and> pe_cursor_load pe = None \<and> list_all probe_holds (pe_probes pe) \<and>
     (case pe_connect pe of
        Inl (Api _ _) \<Rightarrow> wt_cursor st \<noteq> None
      | Inl _ \<Rightarrow> False
      | Inr evs \<Rightarrow>
          (case fst (consume_while_leading sd tm (pe_holder pe) evs [] (0, stream_start pe st)) of Gap _ \<Rightarrow> True | _ \<Rightarrow> False))"

lemma await_connect_holds:
  "list_all probe_holds ps \<Longrightarrow> fst (await_connect holder ps conn st) = conn"
  by (induction holder ps conn st rule: await_connect.induct) (auto simp: probe_holds_def Let_def)

lemma degraded_gap [simp]: "degraded (clear_cursor_if b (on_watch (mark_gap m) st))"
  by (simp add: clear_cursor_if_def clear_cursor_def on_watch_def mark_gap_def)

lemma gap_degrades:
  assumes "meets_gap sd tm pe st"
  shows "degraded (run_pass sd tm pe st)"
proof -
  let ?st = "pass_start pe st"
  have cur: "wt_cursor ?st = wt_cursor st" by (simp add: pass_start_def heartbeat_def)
  obtain conn st1 where aw: "await_connect (pe_holder pe) (pe_probes pe) (pe_connect pe) ?st = (conn, st1)" by fastforce
  with assms have conn: "conn = pe_connect pe"
    using await_connect_holds [of "pe_probes pe" "pe_holder pe" "pe_connect pe" ?st] by (simp add: meets_gap_def)
  have run: "run_pass sd tm pe st = lead_pass sd tm pe ?st"
    using assms by (simp add: meets_gap_def run_pass_def pass_start_def)
  show ?thesis
  proof (cases "pe_connect pe")
    case (Inl e)
    with assms obtain status body where api: "pe_connect pe = Inl (Api status body)" "wt_cursor st \<noteq> None"
      by (auto simp: meets_gap_def split: rebac_error.splits)
    then show ?thesis by (simp add: run lead_pass_def aw [unfolded conn api(1)] connect_failed_def cur Let_def)
  next
    case (Inr evs)
    obtain e i st2 where c: "consume_while_leading sd tm (pe_holder pe) evs [] (0, stream_start pe st) = (e, (i, st2))"
      by (metis prod_cases3)
    with assms Inr obtain msg where "e = Gap msg" by (auto simp: meets_gap_def split: stream_end.splits)
    with c show ?thesis by (simp add: run lead_pass_def aw [unfolded conn Inr] Inr stream_start_def after_stream_def Let_def)
  qed
qed

text \<open>
  C25: A refused cursor is never forgotten by the process that saw it. If the server refuses to resume
  from the stored cursor, at the connection after any number of probes or by an error inside the open
  stream, the replica is fenced from that pass on: whatever later passes do - reconnect, follow another
  leader, probe, consume frames - its status stays stale at every uptime and bound, as long as the
  watch is enabled. Only the process that saw the refusal is fenced (\<open>follower_trusts_blind_leader\<close>).
\<close>

theorem watch_gap_stays_fenced:
  assumes "watch_enabled st" "meets_gap sd tm pe st"
  shows "is_stale uptime bound (sv_watch (wt_server (run_passes sd ps (run_pass sd tm pe st))))"
proof -
  have "degraded (run_pass sd tm pe st)" by (rule gap_degrades [OF assms(2)])
  moreover have "watch_enabled (run_pass sd tm pe st)" using run_pass_latched assms(1) unfolding latched_def by blast
  ultimately show ?thesis
    using run_passes_latched [of "run_pass sd tm pe st" sd ps] by (simp add: latched_def is_stale_def)
qed

definition demo_pass :: pass_env where
  "demo_pass = \<lparr>pe_holder = ''a'', pe_lock = Leads, pe_tick = \<lparr>tk_now = 100, tk_uptime = 9, tk_heartbeat = None\<rparr>,
     pe_row_read = True, pe_cursor_load = None,
     pe_probes = [ProbeOk \<lparr>tk_now = 101, tk_uptime = 9, tk_heartbeat = None\<rparr>, ProbeFailed (Transport ''reset'')], pe_connect = Inl (Api 412 ''FAILED_PRECONDITION''),
     pe_connected_at = 9, pe_clears = True\<rparr>"

definition demo_replica :: "relationship list watch_state" where
  "demo_replica = (on_watch (\<lambda>w. w\<lparr>ws_enabled := True\<rparr>) demo_watch)\<lparr>wt_cursor := Some ''T0''\<rparr>"

definition idle_timeline :: timeline where
  "idle_timeline = (\<lambda>_. \<lparr>mo_now = 0, mo_uptime = 0, mo_fault = (\<lambda>_. None)\<rparr>)"

text \<open>The witness meets both refusals: a 412 after two probes, and an error frame in the stream.\<close>

definition rejecting_sd :: "relationship list spicedb" where
  "rejecting_sd = demo_sd\<lparr>sd_parse := (\<lambda>_. Inr (JObject [(''error'', JString ''gone'')])),
     sd_print := (\<lambda>_. ''FAILED_PRECONDITION: revision garbage collected'')\<rparr>"

definition rejected_pass :: pass_env where
  "rejected_pass = demo_pass\<lparr>pe_connect := Inr [StreamChunk (Inr (''x'' @ [newline]))]\<rparr>"

theorem watch_gap_stays_fenced_witness:
  "is_stale 10 60 (sv_watch (wt_server (run_passes demo_watch_sd
     [(idle_timeline, demo_pass\<lparr>pe_lock := Follows\<rparr>), (idle_timeline, demo_pass\<lparr>pe_connect := Inr []\<rparr>)]
     (run_pass demo_watch_sd idle_timeline demo_pass demo_replica)))) \<and>
   is_stale 10 60 (sv_watch (wt_server (run_passes rejecting_sd
     [(idle_timeline, demo_pass\<lparr>pe_lock := Follows\<rparr>)] (run_pass rejecting_sd idle_timeline rejected_pass demo_replica))))"
proof -
  have en: "watch_enabled demo_replica" "wt_cursor demo_replica \<noteq> None" by (simp_all add: demo_replica_def on_watch_def)
  have "meets_gap demo_watch_sd idle_timeline demo_pass demo_replica"
    using en(2) by (simp add: meets_gap_def demo_pass_def probe_holds_def)
  moreover have "meets_gap rejecting_sd idle_timeline rejected_pass demo_replica"
  proof -
    have "cursor_rejected ''FAILED_PRECONDITION: revision garbage collected''" by code_simp
    then have "\<exists>m. fst (handle_line rejecting_sd (\<lambda>_. None) 0 0 ''x'' st) = Inl (Gap m)" for st
      by (simp add: handle_line_def parse_watch_line_def rejecting_sd_def)
    then have gap: "\<exists>m st2. handle_line rejecting_sd (\<lambda>_. None) 0 0 ''x'' st = (Inl (Gap m), st2)" for st
      by (metis prod.collapse)
    define line where "line = ''x'' @ [newline]"
    have line: "split_line line = Some (line, [])" "trim line = ''x''" unfolding line_def by (code_simp, code_simp)
    have utf8: "sd_utf8 rejecting_sd l" for l by (simp add: rejecting_sd_def demo_sd_def)
    have "\<exists>m s'. consume_while_leading rejecting_sd idle_timeline h [StreamChunk (Inr line)] [] (0, st) = (Gap m, s')" for h st
    proof -
      from gap obtain m st2 where h: "handle_line rejecting_sd (\<lambda>_. None) 0 0 ''x'' st = (Inl (Gap m), st2)" by blast
      have "drain_lines rejecting_sd idle_timeline line (0, st) = (Inl (Gap m), (Suc 0, st2))"
        by (subst drain_lines.simps) (simp add: line utf8 framed_line_def idle_timeline_def h)
      then show ?thesis by simp
    qed
    from this [of "''a''" "stream_start rejected_pass demo_replica"] obtain m s'
      where "consume_while_leading rejecting_sd idle_timeline ''a'' [StreamChunk (Inr line)] [] (0, stream_start rejected_pass demo_replica) = (Gap m, s')"
      by blast
    moreover have "pe_connect rejected_pass = Inr [StreamChunk (Inr line)]" "pe_holder rejected_pass = ''a''" "pe_lock rejected_pass = Leads"
      "pe_cursor_load rejected_pass = None" "list_all probe_holds (pe_probes rejected_pass)"
      by (simp_all add: rejected_pass_def demo_pass_def line_def probe_holds_def)
    ultimately show ?thesis by (simp add: meets_gap_def)
  qed
  ultimately show ?thesis using watch_gap_stays_fenced [OF en(1)] by blast
qed

text \<open>
  The latch belongs to the process. Another replica that shares the tables takes the leader's heartbeat
  as proof of freshness: after the leader's pass met a gap, or could not connect at all, a follower's
  pass leaves it connected and not stale.
\<close>

lemma follower_trusts_blind_leader:
  assumes "wt_leader st \<noteq> None" "pe_lock pe = Leads" "pe_cursor_load pe = None" "pe_probes pe = []"
    "pe_connect pe = Inl e" "tk_heartbeat (pe_tick pe) = None"
    and follower: "wt_leader st' = wt_leader (run_pass sd tm pe st)" "\<not> degraded st'"
      "pe_lock pe' = Follows" "pe_row_read pe'"
      "tk_now (pe_tick pe') < tk_now (pe_tick pe) + seconds follower_leader_fresh_secs"
  shows "\<not> is_stale (tk_uptime (pe_tick pe')) bound (sv_watch (wt_server (run_pass sd tm' pe' st')))"
proof -
  have "wt_leader (run_pass sd tm pe st) = Some (pe_holder pe, tk_now (pe_tick pe))"
    using assms(1-6)
    by (auto simp: run_pass_def lead_pass_def connect_failed_def clear_cursor_if_def clear_cursor_def on_watch_def heartbeat_def
        Let_def split: rebac_error.split)
  with follower show ?thesis
    by (simp add: run_pass_def saturating_add_def follower_freshness_from_leader_def on_watch_def set_connected_def mark_advance_def
        is_stale_def lag_seconds_cached_def)
qed

end
