(* ===== verification/Erasure.thy ===== *)
theory Erasure
  imports Identity_Admin Action_Log Fact_Cache
begin

text \<open>
  Hard purge and subject-access export (\<^verbatim>\<open>crates/verity-storage/src/erasure.rs\<close>) and their admin routes
  (\<^verbatim>\<open>crates/verity-server/src/compliance.rs\<close>). The walk issues its statements in the code's order inside
  one transaction; a violated foreign key aborts it. Foreign keys without \<^verbatim>\<open>ON DELETE\<close> are checked by the
  statement that deletes the referenced rows. SHA-256, the text of a JSON document and the object
  store are parameters; the decryption of exported payloads is left out, as the rows carry none.
\<close>

section \<open>Tables the walk touches\<close>

record quarantine_preview_row =
  qp_tenant_id :: tenant_id
  qp_payload :: json

record media_row =
  mb_id :: uuid
  mb_tenant_id :: tenant_id
  mb_storage_ref :: "string option"

text \<open>Of the consolidation tables only the references matter: an episode ever leased, a chunk ever suggested a tag for.\<close>

record erasure_db =
  ed_store :: database
  ed_quarantine :: "quarantine_preview_row list"
  ed_audit :: "audit_row list"
  ed_media :: "media_row list"
  ed_processing :: "(tenant_id \<times> episode_id) list"
  ed_tag_suggestions :: "(tenant_id \<times> uuid) list"

record erasure_report =
  er_episodes :: nat
  er_chunks :: nat
  er_facts :: nat
  er_actions :: nat
  er_knowledge_evidence :: nat
  er_knowledge_invalidated :: nat
  er_quarantine_preview :: nat
  er_audit_log :: nat
  er_media :: nat

definition default_report :: erasure_report where
  "default_report = \<lparr>er_episodes = 0, er_chunks = 0, er_facts = 0, er_actions = 0, er_knowledge_evidence = 0,
     er_knowledge_invalidated = 0, er_quarantine_preview = 0, er_audit_log = 0, er_media = 0\<rparr>"

section \<open>The walk\<close>

definition equals_param :: "string option \<Rightarrow> string option \<Rightarrow> bool" where
  "equals_param col param \<longleftrightarrow> param \<noteq> None \<and> col = param"

definition names_param :: "string list \<Rightarrow> string option \<Rightarrow> bool" where
  "names_param col param \<longleftrightarrow> (case param of None \<Rightarrow> False | Some e \<Rightarrow> e \<in> set col)"

definition walked_episode :: "tenant_id \<Rightarrow> string option \<Rightarrow> string option \<Rightarrow> episode_row \<Rightarrow> bool" where
  "walked_episode t subject entity e \<longleftrightarrow> ep_tenant_id e = t \<and>
     (equals_param (ep_writer_sub e) subject \<or> equals_param (ep_source_entity e) entity)"

definition walked_action :: "tenant_id \<Rightarrow> string option \<Rightarrow> string option \<Rightarrow> action_row \<Rightarrow> bool" where
  "walked_action t subject entity a \<longleftrightarrow> aw_tenant_id (ac_write a) = t \<and>
     (equals_param (aw_actor_sub (ac_write a)) subject \<or> names_param (aw_entities (ac_write a)) entity)"

definition walked_chunk :: "tenant_id \<Rightarrow> episode_id list \<Rightarrow> string option \<Rightarrow> chunk_row \<Rightarrow> bool" where
  "walked_chunk t eps entity c \<longleftrightarrow> ch_tenant_id c = t \<and>
     (ch_provenance c \<in> set eps \<or> names_param (ch_entity_tags c) entity)"

definition walked_fact :: "tenant_id \<Rightarrow> episode_id list \<Rightarrow> string option \<Rightarrow> fact_row \<Rightarrow> bool" where
  "walked_fact t eps entity f \<longleftrightarrow> fr_tenant_id f = t \<and>
     (fr_provenance f \<in> set eps \<or> equals_param (Some (fk_entity_id (fr_key f))) entity)"

text \<open>The episode set: the subject's and the entity's, and those of the deleted actions.\<close>

definition episode_set :: "tenant_id \<Rightarrow> string option \<Rightarrow> string option \<Rightarrow> database \<Rightarrow> episode_id list" where
  "episode_set t subject entity db = remdups_adj (sort
     (map ep_id (filter (walked_episode t subject entity) (db_episodes db)) @
      map ac_provenance (filter (walked_action t subject entity) (db_actions db))))"

definition on_store :: "(database \<Rightarrow> database) \<Rightarrow> erasure_db \<Rightarrow> erasure_db" where
  "on_store f ed = ed\<lparr>ed_store := f (ed_store ed)\<rparr>"

definition erase_chunks :: "tenant_id \<Rightarrow> episode_id list \<Rightarrow> string option \<Rightarrow> erasure_db \<Rightarrow> storage_error + nat \<times> erasure_db" where
  "erase_chunks t eps entity ed =
     (let db = ed_store ed; gone = filter (walked_chunk t eps entity) (db_chunks db)
      in if list_ex (\<lambda>c. ch_id c \<in> ca_chunk_id ` set (db_chunk_acl_audit db)) gone
         then Inl (constraint_error ''chunk_acl_audit_chunk_id_fkey'')
         else if list_ex (\<lambda>c. ch_id c \<in> snd ` set (ed_tag_suggestions ed)) gone
         then Inl (constraint_error ''tag_suggestions_chunk_id_fkey'')
         else Inr (length gone,
           on_store (\<lambda>db. db\<lparr>db_chunks := filter (\<lambda>c. \<not> walked_chunk t eps entity c) (db_chunks db)\<rparr>) ed))"

definition unlink_facts :: "tenant_id \<Rightarrow> episode_id list \<Rightarrow> string option \<Rightarrow> fact_row list \<Rightarrow> fact_row list" where
  "unlink_facts t eps entity rows =
     (let gone = map fr_id (filter (walked_fact t eps entity) rows)
      in update_where (\<lambda>f. fr_tenant_id f = t \<and> fr_superseded_by f \<in> Some ` set gone)
           (\<lambda>f. f\<lparr>fr_superseded_by := None\<rparr>) rows)"

definition erase_facts :: "tenant_id \<Rightarrow> episode_id list \<Rightarrow> string option \<Rightarrow> erasure_db \<Rightarrow> storage_error + nat \<times> erasure_db" where
  "erase_facts t eps entity ed =
     (let db = ed_store ed; rows = unlink_facts t eps entity (db_facts db);
          gone = filter (walked_fact t eps entity) rows; kept = filter (\<lambda>f. \<not> walked_fact t eps entity f) rows
      in if list_ex (\<lambda>f. Some (fr_id f) \<in> fa_fact_id ` set (db_fact_acl_audit db)) gone
         then Inl (constraint_error ''fact_acl_audit_fact_id_fkey'')
         else if list_ex (\<lambda>f. fr_superseded_by f \<in> Some ` set (map fr_id gone)) kept
         then Inl (constraint_error ''facts_superseded_by_fkey'')
         else Inr (length gone, on_store (\<lambda>db. db\<lparr>db_facts := kept\<rparr>) ed))"

definition affected_knowledge :: "tenant_id \<Rightarrow> episode_id list \<Rightarrow> database \<Rightarrow> uuid list" where
  "affected_knowledge t eps db = remdups_adj (sort (map ke_knowledge_id
     (filter (\<lambda>r. ke_episode_id r \<in> set eps \<and>
        list_ex (\<lambda>k. kn_id k = ke_knowledge_id r \<and> kn_tenant_id k = t) (db_knowledge db)) (db_knowledge_evidence db))))"

text \<open>The recount of one item; below the floor a published item is invalidated and its chunk retired.\<close>

definition recount_support ::
  "(uuid \<Rightarrow> string) \<Rightarrow> instant \<Rightarrow> tenant_id \<Rightarrow> nat \<times> database \<Rightarrow> uuid \<Rightarrow> nat \<times> database" where
  "recount_support uuid_str now t nd kid =
     (let (n, db) = nd; rows = evidence_of kid db; distinct_entities = count_distinct ke_entity rows;
          db1 = db\<lparr>db_knowledge := update_where (\<lambda>k. kn_id k = kid)
            (\<lambda>k. k\<lparr>kn_distinct_entities := as_i32 distinct_entities, kn_episode_count := as_i32 (length rows)\<rparr>)
            (db_knowledge db)\<rparr>;
          pub = (\<lambda>k. kn_id k = kid \<and> kn_status k = Published)
      in if distinct_entities < 3
         then let invalidated = rows_affected pub (db_knowledge db1);
                  db2 = db1\<lparr>db_knowledge := update_where pub
                    (\<lambda>k. k\<lparr>kn_status := Invalidated, kn_invalidated_at := Some now,
                           kn_invalidated_reason := Some ''erasure_support_withdrawn''\<rparr>) (db_knowledge db1)\<rparr>
              in (n + invalidated,
                  if 0 < invalidated
                  then db2\<lparr>db_chunks := update_where
                         (\<lambda>c. ch_tenant_id c = t \<and> ch_document_id c = knowledge_document uuid_str kid \<and> chunk_current c)
                         (close_chunk now) (db_chunks db2)\<rparr>
                  else db2)
         else (n, db1))"

definition erase_knowledge ::
  "(uuid \<Rightarrow> string) \<Rightarrow> instant \<Rightarrow> tenant_id \<Rightarrow> episode_id list \<Rightarrow> erasure_db \<Rightarrow> (nat \<times> nat) \<times> erasure_db" where
  "erase_knowledge uuid_str now t eps ed =
     (let db = ed_store ed; kids = affected_knowledge t eps db;
          P = (\<lambda>r. ke_knowledge_id r \<in> set kids \<and> ke_episode_id r \<in> set eps);
          db1 = db\<lparr>db_knowledge_evidence := filter (\<lambda>r. \<not> P r) (db_knowledge_evidence db)\<rparr>;
          (inv, db2) = foldl (recount_support uuid_str now t) (0, db1) kids
      in ((rows_affected P (db_knowledge_evidence db), inv), ed\<lparr>ed_store := db2\<rparr>))"

text \<open>\<^verbatim>\<open>ILIKE '%' || param || '%'\<close>: the parameter is a pattern, not a text.\<close>

definition ilike :: "string \<Rightarrow> string \<Rightarrow> bool" where
  "ilike pattern s \<longleftrightarrow> sql_like (to_ascii_lowercase pattern) (to_ascii_lowercase s)"

definition mentions :: "(json \<Rightarrow> string) \<Rightarrow> string option \<Rightarrow> quarantine_preview_row \<Rightarrow> bool" where
  "mentions jsonb_text param q \<longleftrightarrow>
     (case param of None \<Rightarrow> False | Some s \<Rightarrow> ilike (''%'' @ s @ ''%'') (jsonb_text (qp_payload q)))"

definition walked_preview :: "(json \<Rightarrow> string) \<Rightarrow> tenant_id \<Rightarrow> string option \<Rightarrow> string option \<Rightarrow> quarantine_preview_row \<Rightarrow> bool" where
  "walked_preview jsonb_text t subject entity q \<longleftrightarrow> qp_tenant_id q = t \<and>
     (mentions jsonb_text subject q \<or> mentions jsonb_text entity q)"

definition walked_audit :: "tenant_id \<Rightarrow> string option \<Rightarrow> audit_row \<Rightarrow> bool" where
  "walked_audit t subject a \<longleftrightarrow> au_tenant_id a = t \<and> equals_param (au_actor_sub a) subject"

definition walked_media :: "tenant_id \<Rightarrow> uuid list \<Rightarrow> media_row \<Rightarrow> bool" where
  "walked_media t media_ids m \<longleftrightarrow> mb_tenant_id m = t \<and> mb_id m \<in> set media_ids"

text \<open>The tables that may still refer to an episode when it is deleted.\<close>

definition episode_refs :: "erasure_db \<Rightarrow> episode_id set" where
  "episode_refs ed = ch_provenance ` set (db_chunks (ed_store ed)) \<union> fr_provenance ` set (db_facts (ed_store ed)) \<union>
     ac_provenance ` set (db_actions (ed_store ed)) \<union> ke_episode_id ` set (db_knowledge_evidence (ed_store ed)) \<union>
     snd ` set (ed_processing ed)"

definition erase_episodes :: "tenant_id \<Rightarrow> episode_id list \<Rightarrow> erasure_db \<Rightarrow> storage_error + nat \<times> erasure_db" where
  "erase_episodes t eps ed =
     (let P = (\<lambda>e. ep_tenant_id e = t \<and> ep_id e \<in> set eps); gone = filter P (db_episodes (ed_store ed))
      in if list_ex (\<lambda>e. ep_id e \<in> episode_refs ed) gone then Inl (constraint_error ''episodes_fkey'')
         else Inr (length gone, on_store (\<lambda>db. db\<lparr>db_episodes := filter (\<lambda>e. \<not> P e) (db_episodes db)\<rparr>) ed))"

record erasure_env =
  ee_uuid_str :: "uuid \<Rightarrow> string"
  ee_jsonb_text :: "json \<Rightarrow> string"
  ee_sha256 :: "string \<Rightarrow> string"
  ee_print :: "json \<Rightarrow> string"

text \<open>The nine statements in order.\<close>

definition walk_lineage ::
  "erasure_env \<Rightarrow> instant \<Rightarrow> tenant_id \<Rightarrow> string option \<Rightarrow> string option \<Rightarrow> uuid list \<Rightarrow> erasure_db
   \<Rightarrow> storage_error + erasure_report \<times> erasure_db" where
  "walk_lineage env now t subject entity media_ids ed =
     (let eps = episode_set t subject entity (ed_store ed);
          acts = rows_affected (walked_action t subject entity) (db_actions (ed_store ed));
          ed1 = on_store (\<lambda>db. db\<lparr>db_actions := filter (\<lambda>a. \<not> walked_action t subject entity a) (db_actions db)\<rparr>) ed
      in and_then (erase_chunks t eps entity ed1) (\<lambda>(chunks, ed2).
         and_then (erase_facts t eps entity ed2) (\<lambda>(facts, ed3).
           let ((ev, inv), ed4) = erase_knowledge (ee_uuid_str env) now t eps ed3;
               qp = walked_preview (ee_jsonb_text env) t subject entity;
               ed5 = ed4\<lparr>ed_quarantine := filter (\<lambda>q. \<not> qp q) (ed_quarantine ed4)\<rparr>;
               ed6 = ed5\<lparr>ed_audit := filter (\<lambda>a. \<not> walked_audit t subject a) (ed_audit ed5)\<rparr>;
               ed7 = ed6\<lparr>ed_media := filter (\<lambda>m. \<not> walked_media t media_ids m) (ed_media ed6)\<rparr>
           in and_then (erase_episodes t eps ed7) (\<lambda>(episodes, ed8).
             Inr (\<lparr>er_episodes = episodes, er_chunks = chunks, er_facts = facts, er_actions = acts,
                   er_knowledge_evidence = ev, er_knowledge_invalidated = inv,
                   er_quarantine_preview = rows_affected qp (ed_quarantine ed4),
                   er_audit_log = rows_affected (walked_audit t subject) (ed_audit ed5),
                   er_media = rows_affected (walked_media t media_ids) (ed_media ed6)\<rparr>, ed8)))))"

section \<open>Erasure, its preview and the export\<close>

definition report_json :: "erasure_report \<Rightarrow> json" where
  "report_json r = JObject (map (\<lambda>(k, n). (k, JNumber (PosInt n)))
     [(''actions'', er_actions r), (''audit_log'', er_audit_log r), (''chunks'', er_chunks r), (''episodes'', er_episodes r),
      (''facts'', er_facts r), (''knowledge_evidence'', er_knowledge_evidence r),
      (''knowledge_invalidated'', er_knowledge_invalidated r), (''media'', er_media r),
      (''quarantine_preview'', er_quarantine_preview r)])"

definition hashed :: "(string \<Rightarrow> string) \<Rightarrow> string option \<Rightarrow> json" where
  "hashed sha param = (case param of None \<Rightarrow> JNull | Some s \<Rightarrow> JString (sha s))"

definition erasure_audit :: "erasure_env \<Rightarrow> tenant_id \<Rightarrow> string option \<Rightarrow> string option \<Rightarrow> erasure_report \<Rightarrow> audit_row" where
  "erasure_audit env t subject entity r =
     \<lparr>au_tenant_id = t, au_actor_sub = None, au_actor_azp = None, au_verb = ''erasure'', au_principals = [],
      au_entity_scope = [], au_confidentiality = 0,
      au_query_summary = Some (ee_print env (JObject [(''counts'', report_json r),
        (''entity_sha256'', hashed (ee_sha256 env) entity), (''subject_sha256'', hashed (ee_sha256 env) subject)])),
      au_result_ids = []\<rparr>"

definition erase ::
  "erasure_env \<Rightarrow> instant \<Rightarrow> tenant_id \<Rightarrow> string option \<Rightarrow> string option \<Rightarrow> uuid list \<Rightarrow> erasure_db
   \<Rightarrow> storage_error + erasure_report \<times> erasure_db" where
  "erase env now t subject entity media_ids ed =
     (if subject = None \<and> entity = None \<and> media_ids = []
      then Inl (InvalidInput ''erasure requires a subject, an entity, and/or media_ids'')
      else and_then (walk_lineage env now t subject entity media_ids ed) (\<lambda>(report, ed').
        Inr (report, ed'\<lparr>ed_audit := ed_audit ed' @ [erasure_audit env t subject entity report]\<rparr>)))"

definition erase_preview ::
  "erasure_env \<Rightarrow> instant \<Rightarrow> tenant_id \<Rightarrow> string option \<Rightarrow> string option \<Rightarrow> uuid list \<Rightarrow> erasure_db
   \<Rightarrow> (storage_error + erasure_report) \<times> erasure_db" where
  "erase_preview env now t subject entity media_ids ed =
     (if subject = None \<and> entity = None \<and> media_ids = []
      then (Inl (InvalidInput ''erasure preview requires a subject, an entity, and/or media_ids''), ed)
      else (case walk_lineage env now t subject entity media_ids ed of
              Inl e \<Rightarrow> (Inl e, ed) | Inr (report, _) \<Rightarrow> (Inr report, ed)))"

record dsar_bundle =
  ds_episodes :: "episode_row list"
  ds_chunks :: "chunk_row list"
  ds_facts :: "fact_row list"
  ds_actions :: "action_row list"
  ds_audit_log :: "audit_row list"
  ds_knowledge :: "knowledge_row list"

definition dsar_export :: "tenant_id \<Rightarrow> string \<Rightarrow> erasure_db \<Rightarrow> dsar_bundle" where
  "dsar_export t subject ed =
     (let db = ed_store ed;
          episodes = sort_key ep_recorded_at (filter (\<lambda>e. ep_tenant_id e = t \<and> ep_writer_sub e = Some subject) (db_episodes db));
          eps = map ep_id episodes
      in \<lparr>ds_episodes = episodes,
          ds_chunks = sort_key ch_valid_from (filter (\<lambda>c. ch_tenant_id c = t \<and> ch_provenance c \<in> set eps) (db_chunks db)),
          ds_facts = sort_key fr_valid_from (filter (\<lambda>f. fr_tenant_id f = t \<and> fr_provenance f \<in> set eps) (db_facts db)),
          ds_actions = sort_key (\<lambda>a. aw_occurred_at (ac_write a))
            (filter (\<lambda>a. aw_tenant_id (ac_write a) = t \<and> aw_actor_sub (ac_write a) = Some subject) (db_actions db)),
          ds_audit_log = filter (\<lambda>a. au_tenant_id a = t \<and> au_actor_sub a = Some subject) (ed_audit ed),
          ds_knowledge = sort_key kn_first_seen
            (filter (\<lambda>k. kn_tenant_id k = t \<and> kn_proposed_by_sub k = Some subject) (db_knowledge db))\<rparr>)"

section \<open>The admin routes\<close>

datatype erasure_refusal =
    ErasureGate id_refusal
  | TupleDelete rebac_error
  | EraseFailed storage_error
  | ObjectDelete string string

fun erasure_status :: "erasure_refusal \<Rightarrow> nat" where
  "erasure_status (ErasureGate e) = id_status e"
| "erasure_status (TupleDelete _) = 502"
| "erasure_status (EraseFailed (InvalidInput _)) = 422"
| "erasure_status (EraseFailed (UnknownTenant _)) = 404"
| "erasure_status (EraseFailed (Database _)) = 500"
| "erasure_status (ObjectDelete _ _) = 502"

record erasure_request =
  eq_tenant_id :: tenant_id
  eq_subject :: "string option"
  eq_entity :: "string option"
  eq_media_ids :: "uuid list"

text \<open>The object store deletes a key or answers an error; its contents are the keys it holds.\<close>

record 'g compliance_env =
  ce_auth :: admin_auth
  ce_rebac :: "'g spicedb option"
  ce_media_store :: "(string \<Rightarrow> string option) option"
  ce_erasure :: erasure_env
  ce_signer :: "string \<Rightarrow> string \<Rightarrow> string"
  ce_persistent_key :: bool

record 'g compliance_state =
  co_adapter :: "erasure_db cached_adapter"
  co_graph :: 'g
  co_objects :: "string list"

definition tenant_gate :: "tenant_id \<Rightarrow> 'g compliance_state \<Rightarrow> erasure_refusal + unit" where
  "tenant_gate t st = (case ensure_tenant t (ed_store (ca_inner (co_adapter st))) of
     Inl e \<Rightarrow> Inl (EraseFailed e) | Inr u \<Rightarrow> Inr u)"

definition erasure_gate :: "'g compliance_env \<Rightarrow> headers \<Rightarrow> tenant_id \<Rightarrow> 'g compliance_state \<Rightarrow> erasure_refusal + unit" where
  "erasure_gate env h t st =
     (case admin_check (ce_auth env) h of Inl e \<Rightarrow> Inl (ErasureGate e) | Inr _ \<Rightarrow> tenant_gate t st)"

definition subject_user :: "string option \<Rightarrow> string option" where
  "subject_user subject = (case subject of
     None \<Rightarrow> None | Some s \<Rightarrow> (case parse_principal s of Some (UserPrincipal, name) \<Rightarrow> Some name | _ \<Rightarrow> None))"

text \<open>The subject's tuples go first; a failure aborts with nothing purged.\<close>

definition erase_tuples ::
  "'g compliance_env \<Rightarrow> erasure_request \<Rightarrow> 'g compliance_state \<Rightarrow> (erasure_refusal + bool) \<times> 'g compliance_state" where
  "erase_tuples env req st =
     (case (ce_rebac env, subject_user (eq_subject req)) of
        (Some sd, Some name) \<Rightarrow>
          (case delete_subject_relationships sd (eq_tenant_id req) name (co_graph st) of
             (Inl e, g) \<Rightarrow> (Inl (TupleDelete e), st\<lparr>co_graph := g\<rparr>)
           | (Inr _, g) \<Rightarrow> (Inr True, st\<lparr>co_graph := g\<rparr>))
      | _ \<Rightarrow> (Inr False, st))"

definition storage_refs :: "'g compliance_env \<Rightarrow> erasure_request \<Rightarrow> 'g compliance_state \<Rightarrow> string list" where
  "storage_refs env req st =
     (if ce_media_store env = None \<or> eq_media_ids req = [] then []
      else List.map_filter mb_storage_ref
        (filter (walked_media (eq_tenant_id req) (eq_media_ids req)) (ed_media (ca_inner (co_adapter st)))))"

fun delete_objects :: "(string \<Rightarrow> string option) \<Rightarrow> string list \<Rightarrow> string list \<Rightarrow> (erasure_refusal + unit) \<times> string list" where
  "delete_objects del [] objs = (Inr (), objs)"
| "delete_objects del (key # keys) objs =
     (case del key of
        Some e \<Rightarrow> (Inl (ObjectDelete key e), objs)
      | None \<Rightarrow> delete_objects del keys (filter (\<lambda>o'. o' \<noteq> key) objs))"

definition purge_objects ::
  "'g compliance_env \<Rightarrow> string list \<Rightarrow> 'g compliance_state \<Rightarrow> (erasure_refusal + unit) \<times> 'g compliance_state" where
  "purge_objects env keys st =
     (case ce_media_store env of
        None \<Rightarrow> (Inr (), st)
      | Some del \<Rightarrow> (case delete_objects del keys (co_objects st) of (r, objs) \<Rightarrow> (r, st\<lparr>co_objects := objs\<rparr>)))"

definition purge_report_domain :: string where
  "purge_report_domain = ''verity.erasure.purge-report.v1''"

record purge_report =
  pp_facts :: json
  pp_signature :: "string option"

definition sign_purge_report :: "'g compliance_env \<Rightarrow> json \<Rightarrow> purge_report" where
  "sign_purge_report env facts =
     \<lparr>pp_facts = facts,
      pp_signature = (if ce_persistent_key env
        then Some (ce_signer env purge_report_domain (ee_print (ce_erasure env) facts)) else None)\<rparr>"

text \<open>The signed facts, without the fixed texts.\<close>

definition purge_facts ::
  "'g compliance_env \<Rightarrow> erasure_request \<Rightarrow> erasure_report \<Rightarrow> bool \<Rightarrow> json \<Rightarrow> json" where
  "purge_facts env req report tuples signed_at =
     (let ev = ce_erasure env
      in JObject [(''entity_sha256'', hashed (ee_sha256 ev) (eq_entity req)), (''erased'', report_json report),
       (''kind'', JString ''verity.erasure.purge-report''),
       (''media_ids'', JArray (map (\<lambda>i. JString (ee_uuid_str ev i)) (eq_media_ids req))),
       (''rebac_tuples_deleted'', JBool tuples), (''signed_at'', signed_at),
       (''subject_sha256'', hashed (ee_sha256 ev) (eq_subject req)),
       (''tenant_id'', JString (ee_uuid_str ev (eq_tenant_id req)))])"

definition admin_erasure ::
  "'g compliance_env \<Rightarrow> headers \<Rightarrow> instant \<Rightarrow> json \<Rightarrow> erasure_request \<Rightarrow> 'g compliance_state
   \<Rightarrow> (erasure_refusal + erasure_report \<times> bool \<times> purge_report) \<times> 'g compliance_state" where
  "admin_erasure env h now signed_at req st =
     (case erasure_gate env h (eq_tenant_id req) st of Inl e \<Rightarrow> (Inl e, st) | Inr _ \<Rightarrow>
      case erase_tuples env req st of (Inl e, st1) \<Rightarrow> (Inl e, st1) | (Inr tuples, st1) \<Rightarrow>
      let refs = storage_refs env req st1
      in case erase (ce_erasure env) now (eq_tenant_id req) (eq_subject req) (eq_entity req) (eq_media_ids req)
                (ca_inner (co_adapter st1)) of
           Inl e \<Rightarrow> (Inl (EraseFailed e), st1)
         | Inr (report, ed') \<Rightarrow>
             let st2 = st1\<lparr>co_adapter := (co_adapter st1)\<lparr>ca_inner := ed'\<rparr>\<rparr>
             in case purge_objects env refs st2 of
                  (Inl e, st3) \<Rightarrow> (Inl e, st3)
                | (Inr _, st3) \<Rightarrow>
                    (Inr (report, tuples, sign_purge_report env (purge_facts env req report tuples signed_at)),
                     st3\<lparr>co_adapter := flush_facts (co_adapter st3)\<rparr>))"

definition admin_erasure_preview ::
  "'g compliance_env \<Rightarrow> headers \<Rightarrow> instant \<Rightarrow> erasure_request \<Rightarrow> 'g compliance_state
   \<Rightarrow> erasure_refusal + erasure_report \<times> bool" where
  "admin_erasure_preview env h now req st =
     and_then (erasure_gate env h (eq_tenant_id req) st) (\<lambda>_.
       case fst (erase_preview (ce_erasure env) now (eq_tenant_id req) (eq_subject req) (eq_entity req)
              (eq_media_ids req) (ca_inner (co_adapter st))) of
         Inl e \<Rightarrow> Inl (EraseFailed e)
       | Inr report \<Rightarrow> Inr (report, ce_rebac env \<noteq> None \<and> subject_user (eq_subject req) \<noteq> None))"

definition dsar_audit :: "tenant_id \<Rightarrow> audit_row" where
  "dsar_audit t =
     \<lparr>au_tenant_id = t, au_actor_sub = None, au_actor_azp = None, au_verb = ''dsar_export'', au_principals = [],
      au_entity_scope = [], au_confidentiality = 0,
      au_query_summary = Some ''dsar export (subject withheld from log)'', au_result_ids = []\<rparr>"

definition admin_dsar_export ::
  "'g compliance_env \<Rightarrow> headers \<Rightarrow> tenant_id \<Rightarrow> string \<Rightarrow> 'g compliance_state
   \<Rightarrow> (erasure_refusal + dsar_bundle) \<times> 'g compliance_state" where
  "admin_dsar_export env h t subject st =
     (case admin_check (ce_auth env) h of
        Inl e \<Rightarrow> (Inl (ErasureGate e), st)
      | Inr _ \<Rightarrow>
          let ed = ca_inner (co_adapter st)
          in (Inr (dsar_export t subject ed),
              st\<lparr>co_adapter := (co_adapter st)\<lparr>ca_inner := ed\<lparr>ed_audit := ed_audit ed @ [dsar_audit t]\<rparr>\<rparr>\<rparr>))"

section \<open>What the walk leaves\<close>

lemma set_episode_set:
  "set (episode_set t subject entity db) =
     ep_id ` {e \<in> set (db_episodes db). walked_episode t subject entity e} \<union>
     ac_provenance ` {a \<in> set (db_actions db). walked_action t subject entity a}"
  by (auto simp: episode_set_def)

lemma erase_chunks_Inr:
  "erase_chunks t eps entity ed = Inr (n, ed') \<Longrightarrow>
     n = rows_affected (walked_chunk t eps entity) (db_chunks (ed_store ed)) \<and>
     ed' = on_store (\<lambda>db. db\<lparr>db_chunks := filter (\<lambda>c. \<not> walked_chunk t eps entity c) (db_chunks db)\<rparr>) ed"
  by (auto simp: erase_chunks_def Let_def rows_affected_def split: if_splits)

lemma erase_facts_Inr:
  "erase_facts t eps entity ed = Inr (n, ed') \<Longrightarrow>
     n = rows_affected (walked_fact t eps entity) (unlink_facts t eps entity (db_facts (ed_store ed))) \<and>
     ed' = on_store (\<lambda>db. db\<lparr>db_facts := filter (\<lambda>f. \<not> walked_fact t eps entity f)
       (unlink_facts t eps entity (db_facts db))\<rparr>) ed"
  by (auto simp: erase_facts_def Let_def rows_affected_def on_store_def split: if_splits)

lemma erase_episodes_Inr:
  "erase_episodes t eps ed = Inr (n, ed') \<Longrightarrow>
     n = rows_affected (\<lambda>e. ep_tenant_id e = t \<and> ep_id e \<in> set eps) (db_episodes (ed_store ed)) \<and>
     ed' = on_store (\<lambda>db. db\<lparr>db_episodes := filter (\<lambda>e. \<not> (ep_tenant_id e = t \<and> ep_id e \<in> set eps)) (db_episodes db)\<rparr>) ed \<and>
     (\<forall>e \<in> set (db_episodes (ed_store ed)). ep_tenant_id e = t \<longrightarrow> ep_id e \<in> set eps \<longrightarrow> ep_id e \<notin> episode_refs ed)"
  by (auto simp: erase_episodes_def Let_def rows_affected_def list_ex_iff split: if_splits)

text \<open>
  The recount changes the knowledge rows of the items it is given and closes the tenant's open chunks
  that publish one of them, nothing else.
\<close>

definition maybe_closed ::
  "(uuid \<Rightarrow> string) \<Rightarrow> instant \<Rightarrow> tenant_id \<Rightarrow> uuid set \<Rightarrow> chunk_row \<Rightarrow> chunk_row \<Rightarrow> bool" where
  "maybe_closed us now t kids c c' \<longleftrightarrow> c' = c \<or>
     c' = close_chunk now c \<and> ch_tenant_id c = t \<and> chunk_current c \<and> (\<exists>kid \<in> kids. ch_document_id c = knowledge_document us kid)"

definition same_proposal :: "uuid set \<Rightarrow> knowledge_row \<Rightarrow> knowledge_row \<Rightarrow> bool" where
  "same_proposal kids k k' \<longleftrightarrow> kn_id k' = kn_id k \<and> kn_tenant_id k' = kn_tenant_id k \<and>
     kn_proposed_by_sub k' = kn_proposed_by_sub k \<and> (k' = k \<or> kn_id k \<in> kids)"

definition recounted :: "(uuid \<Rightarrow> string) \<Rightarrow> instant \<Rightarrow> tenant_id \<Rightarrow> uuid set \<Rightarrow> database \<Rightarrow> database \<Rightarrow> bool" where
  "recounted us now t kids db db' \<longleftrightarrow>
     list_all2 (maybe_closed us now t kids) (db_chunks db) (db_chunks db') \<and>
     list_all2 (same_proposal kids) (db_knowledge db) (db_knowledge db') \<and>
     db' = db\<lparr>db_chunks := db_chunks db', db_knowledge := db_knowledge db'\<rparr>"

lemma list_all2_update_where:
  assumes "\<And>x. P x \<Longrightarrow> R x (f x)" "\<And>x. R x x"
  shows "list_all2 R xs (update_where P f xs)"
  using assms by (induction xs) auto

lemma close_chunk_idem: "close_chunk now (close_chunk now c) = close_chunk now c"
  by (simp add: close_chunk_def)

lemma recounted_refl: "recounted us now t kids db db"
  by (simp add: recounted_def list.rel_refl maybe_closed_def same_proposal_def)

lemma list_all2_compose:
  assumes "\<And>x y z. R x y \<Longrightarrow> R y z \<Longrightarrow> R x z" "list_all2 R xs ys" "list_all2 R ys zs"
  shows "list_all2 R xs zs"
proof -
  have "R (xs ! i) (zs ! i)" if "i < length zs" for i
    using assms that by (auto simp: list_all2_conv_all_nth intro: assms(1) [of "xs ! i" "ys ! i"])
  with assms(2,3) show ?thesis by (simp add: list_all2_conv_all_nth)
qed

lemma recounted_trans:
  assumes "recounted us now t kids db db1" "recounted us now t kids db1 db2"
  shows "recounted us now t kids db db2"
proof -
  have "list_all2 (maybe_closed us now t kids) (db_chunks db) (db_chunks db2)"
    by (rule list_all2_compose [of _ _ "db_chunks db1"])
      (use assms in \<open>auto simp: recounted_def maybe_closed_def close_chunk_idem\<close>)
  moreover have "list_all2 (same_proposal kids) (db_knowledge db) (db_knowledge db2)"
    by (rule list_all2_compose [of _ _ "db_knowledge db1"])
      (use assms in \<open>auto simp: recounted_def same_proposal_def\<close>)
  moreover have "db2 = db\<lparr>db_chunks := db_chunks db2, db_knowledge := db_knowledge db2\<rparr>"
    using assms by (cases db; cases db1; cases db2) (simp add: recounted_def)
  ultimately show ?thesis by (simp add: recounted_def)
qed

lemma recount_support_recounted:
  assumes "recount_support us now t (n, db) kid = (n', db')" "kid \<in> kids"
  shows "recounted us now t kids db db'"
proof -
  let ?pub = "\<lambda>k. kn_id k = kid \<and> kn_status k = Published"
  have k: "recounted us now t kids db (db\<lparr>db_knowledge := update_where P f (db_knowledge db)\<rparr>)"
    if "\<And>k. kn_id (f k) = kn_id k \<and> kn_tenant_id (f k) = kn_tenant_id k \<and> kn_proposed_by_sub (f k) = kn_proposed_by_sub k"
      "\<And>k. P k \<Longrightarrow> kn_id k = kid"
    for P f db using that assms(2)
    by (auto simp: recounted_def list.rel_refl maybe_closed_def same_proposal_def intro!: list_all2_update_where)
  let ?doc = "\<lambda>c. ch_tenant_id c = t \<and> ch_document_id c = knowledge_document us kid \<and> chunk_current c"
  have c: "recounted us now t kids db (db\<lparr>db_chunks := update_where ?doc (close_chunk now) (db_chunks db)\<rparr>)" for db
    using assms(2)
    by (auto simp: recounted_def list.rel_refl maybe_closed_def same_proposal_def intro!: list_all2_update_where)
  note k1 = k [of "\<lambda>k. k\<lparr>kn_distinct_entities := as_i32 (count_distinct ke_entity (evidence_of kid db)),
      kn_episode_count := as_i32 (length (evidence_of kid db))\<rparr>" "\<lambda>k. kn_id k = kid" db]
  note k2 = k [of "\<lambda>k. k\<lparr>kn_status := Invalidated, kn_invalidated_at := Some now,
      kn_invalidated_reason := Some ''erasure_support_withdrawn''\<rparr>" ?pub]
  show ?thesis
    using assms(1) k1 recounted_trans [OF k1 k2] recounted_trans [OF recounted_trans [OF k1 k2] c]
    by (auto simp: recount_support_def Let_def split: if_splits)
qed

lemma recount_fold:
  "foldl (recount_support us now t) (n, db) ks = (n', db') \<Longrightarrow> set ks \<subseteq> kids \<Longrightarrow> recounted us now t kids db db'"
proof (induction ks arbitrary: n db)
  case (Cons kid ks)
  obtain n1 db1 where r: "recount_support us now t (n, db) kid = (n1, db1)" by (rule prod.exhaust)
  with Cons.prems have "recounted us now t kids db1 db'" by (auto intro: Cons.IH)
  with recount_support_recounted [OF r] Cons.prems(2) show ?case by (auto intro: recounted_trans)
qed (simp add: recounted_refl)

lemma recounted_tables:
  assumes "recounted us now t kids db db'"
  shows "db_episodes db' = db_episodes db" "db_knowledge_evidence db' = db_knowledge_evidence db"
    "db_facts db' = db_facts db" "db_actions db' = db_actions db" "db_tenants db' = db_tenants db"
proof -
  from assms have eq: "db' = db\<lparr>db_chunks := db_chunks db', db_knowledge := db_knowledge db'\<rparr>"
    unfolding recounted_def by blast
  show "db_episodes db' = db_episodes db" by (subst eq) simp
  show "db_knowledge_evidence db' = db_knowledge_evidence db" by (subst eq) simp
  show "db_facts db' = db_facts db" by (subst eq) simp
  show "db_actions db' = db_actions db" by (subst eq) simp
  show "db_tenants db' = db_tenants db" by (subst eq) simp
qed

text \<open>The database after a walk that commits.\<close>

lemma walk_lineage_Inr:
  assumes "walk_lineage env now t subject entity media_ids ed = Inr (r, ed')"
  defines "eps \<equiv> episode_set t subject entity (ed_store ed)"
  obtains db3 db4 where
    "db3 = (ed_store ed)\<lparr>db_actions := filter (\<lambda>a. \<not> walked_action t subject entity a) (db_actions (ed_store ed)),
       db_chunks := filter (\<lambda>c. \<not> walked_chunk t eps entity c) (db_chunks (ed_store ed)),
       db_facts := filter (\<lambda>f. \<not> walked_fact t eps entity f) (unlink_facts t eps entity (db_facts (ed_store ed))),
       db_knowledge_evidence := filter (\<lambda>x. \<not> (ke_knowledge_id x \<in> set (affected_knowledge t eps (ed_store ed)) \<and>
          ke_episode_id x \<in> set eps)) (db_knowledge_evidence (ed_store ed))\<rparr>"
    "recounted (ee_uuid_str env) now t (set (affected_knowledge t eps (ed_store ed))) db3 db4"
    "ed_store ed' = db4\<lparr>db_episodes := filter (\<lambda>e. \<not> (ep_tenant_id e = t \<and> ep_id e \<in> set eps)) (db_episodes db4)\<rparr>"
    "ed_quarantine ed' = filter (\<lambda>q. \<not> walked_preview (ee_jsonb_text env) t subject entity q) (ed_quarantine ed)"
    "ed_audit ed' = filter (\<lambda>a. \<not> walked_audit t subject a) (ed_audit ed)"
    "ed_media ed' = filter (\<lambda>m. \<not> walked_media t media_ids m) (ed_media ed)"
    "ed' = ed\<lparr>ed_store := ed_store ed', ed_quarantine := ed_quarantine ed', ed_audit := ed_audit ed', ed_media := ed_media ed'\<rparr>"
    "er_actions r = rows_affected (walked_action t subject entity) (db_actions (ed_store ed))"
    "er_chunks r = rows_affected (walked_chunk t eps entity) (db_chunks (ed_store ed))"
    "er_facts r = rows_affected (walked_fact t eps entity) (unlink_facts t eps entity (db_facts (ed_store ed)))"
    "er_episodes r = rows_affected (\<lambda>e. ep_tenant_id e = t \<and> ep_id e \<in> set eps) (db_episodes (ed_store ed))"
    "er_audit_log r = rows_affected (walked_audit t subject) (ed_audit ed)"
    "\<forall>e \<in> set (db_episodes (ed_store ed)). ep_tenant_id e = t \<longrightarrow> ep_id e \<in> set eps \<longrightarrow>
       (\<forall>x \<in> set (db_knowledge_evidence (ed_store ed')). ke_episode_id x \<noteq> ep_id e) \<and>
       (\<forall>x \<in> set (ed_processing ed). snd x \<noteq> ep_id e)"
proof -
  let ?ed1 = "on_store (\<lambda>db. db\<lparr>db_actions := filter (\<lambda>a. \<not> walked_action t subject entity a) (db_actions db)\<rparr>) ed"
  let ?P = "\<lambda>x. ke_knowledge_id x \<in> set (affected_knowledge t eps (ed_store ed)) \<and> ke_episode_id x \<in> set eps"
  from assms(1) obtain nc ed2 where c: "erase_chunks t eps entity ?ed1 = Inr (nc, ed2)"
    by (cases "erase_chunks t eps entity ?ed1") (auto simp: walk_lineage_def Let_def eps_def)
  with assms(1) obtain nf ed3 where f: "erase_facts t eps entity ed2 = Inr (nf, ed3)"
    by (cases "erase_facts t eps entity ed2") (auto simp: walk_lineage_def Let_def eps_def)
  note cf = erase_chunks_Inr [OF c] erase_facts_Inr [OF f]
  have kids: "affected_knowledge t eps (ed_store ed3) = affected_knowledge t eps (ed_store ed)"
    using cf by (simp add: on_store_def affected_knowledge_def)
  define db3 where "db3 = (ed_store ed3)\<lparr>db_knowledge_evidence := filter (\<lambda>x. \<not> ?P x) (db_knowledge_evidence (ed_store ed3))\<rparr>"
  obtain inv db4 where fold: "foldl (recount_support (ee_uuid_str env) now t) (0, db3) (affected_knowledge t eps (ed_store ed3)) = (inv, db4)"
    by (rule prod.exhaust)
  then have k: "erase_knowledge (ee_uuid_str env) now t eps ed3 =
      ((rows_affected ?P (db_knowledge_evidence (ed_store ed3)), inv), ed3\<lparr>ed_store := db4\<rparr>)"
    by (simp add: erase_knowledge_def Let_def db3_def kids)
  let ?ed7 = "ed3\<lparr>ed_store := db4,
      ed_quarantine := filter (\<lambda>q. \<not> walked_preview (ee_jsonb_text env) t subject entity q) (ed_quarantine ed3),
      ed_audit := filter (\<lambda>a. \<not> walked_audit t subject a) (ed_audit ed3),
      ed_media := filter (\<lambda>m. \<not> walked_media t media_ids m) (ed_media ed3)\<rparr>"
  obtain ne where e: "erase_episodes t eps ?ed7 = Inr (ne, ed')"
    and r: "r = \<lparr>er_episodes = ne, er_chunks = nc, er_facts = nf,
        er_actions = rows_affected (walked_action t subject entity) (db_actions (ed_store ed)),
        er_knowledge_evidence = rows_affected ?P (db_knowledge_evidence (ed_store ed3)), er_knowledge_invalidated = inv,
        er_quarantine_preview = rows_affected (walked_preview (ee_jsonb_text env) t subject entity) (ed_quarantine ed3),
        er_audit_log = rows_affected (walked_audit t subject) (ed_audit ed3),
        er_media = rows_affected (walked_media t media_ids) (ed_media ed3)\<rparr>"
    using assms(1) c f k by (auto simp: walk_lineage_def Let_def and_then_Inr eps_def [symmetric])
  note ep = erase_episodes_Inr [OF e]
  have rec: "recounted (ee_uuid_str env) now t (set (affected_knowledge t eps (ed_store ed))) db3 db4" by (rule recount_fold [OF fold]) (simp add: kids)
  have db4: "db_episodes db4 = db_episodes (ed_store ed)" "db_knowledge_evidence db4 = db_knowledge_evidence db3"
    using cf recounted_tables [OF rec] by (simp_all add: db3_def on_store_def)
  show ?thesis
  proof (rule that [of db3 db4])
    show "\<forall>e \<in> set (db_episodes (ed_store ed)). ep_tenant_id e = t \<longrightarrow> ep_id e \<in> set eps \<longrightarrow>
        (\<forall>x \<in> set (db_knowledge_evidence (ed_store ed')). ke_episode_id x \<noteq> ep_id e) \<and>
       (\<forall>x \<in> set (ed_processing ed). snd x \<noteq> ep_id e)"
    proof (intro ballI impI)
      fix e assume "e \<in> set (db_episodes (ed_store ed))" "ep_tenant_id e = t" "ep_id e \<in> set eps"
      then have "ep_id e \<notin> episode_refs ?ed7" using ep db4(1) by simp
      moreover have "ed_processing ed3 = ed_processing ed" using cf by (simp add: on_store_def)
      moreover have "db_knowledge_evidence (ed_store ed') = db_knowledge_evidence db4" using ep by (simp add: on_store_def)
      ultimately show "(\<forall>x \<in> set (db_knowledge_evidence (ed_store ed')). ke_episode_id x \<noteq> ep_id e) \<and>
          (\<forall>x \<in> set (ed_processing ed). snd x \<noteq> ep_id e)"
        by (auto simp: episode_refs_def image_iff)
    qed
  qed (use cf ep r db4 rec kids in \<open>simp_all add: on_store_def db3_def\<close>)
qed

lemma filter_rows: "length (filter (\<lambda>x. \<not> P x) xs) + rows_affected P xs = length xs"
  by (induction xs) (auto simp: rows_affected_def)

lemma unlink_facts_length: "length (unlink_facts t eps entity rows) = length rows"
  by (simp add: unlink_facts_def Let_def update_where_def)

lemma unlink_fact_cases:
  assumes "f \<in> set (unlink_facts t eps entity rows)"
  obtains g where "g \<in> set rows" "f = g \<or> f = g\<lparr>fr_superseded_by := None\<rparr>"
  using assms by (auto simp: unlink_facts_def Let_def update_where_def split: if_splits)

lemma walked_chunk_close [simp]: "walked_chunk t eps entity (close_chunk now c) = walked_chunk t eps entity c"
  by (simp add: walked_chunk_def close_chunk_def)

lemma maybe_closed_mem:
  assumes "list_all2 (maybe_closed us now t kids) cs cs'" "c' \<in> set cs'"
  shows "\<exists>c \<in> set cs. maybe_closed us now t kids c c'"
  using assms by (induction rule: list_all2_induct) auto

lemma filter_update_where_other:
  "(\<And>x. P x \<Longrightarrow> \<not> Q x \<and> \<not> Q (f x)) \<Longrightarrow> filter Q (update_where P f xs) = filter Q xs"
  by (induction xs) auto

lemma unlink_facts_other: "filter (\<lambda>f. fr_tenant_id f \<noteq> t) (unlink_facts t eps entity rows) = filter (\<lambda>f. fr_tenant_id f \<noteq> t) rows"
  unfolding unlink_facts_def Let_def by (rule filter_update_where_other) auto

lemma maybe_closed_other:
  "list_all2 (maybe_closed us now t kids) cs cs' \<Longrightarrow>
     filter (\<lambda>c. ch_tenant_id c \<noteq> t) cs' = filter (\<lambda>c. ch_tenant_id c \<noteq> t) cs"
  by (induction rule: list_all2_induct) (auto simp: maybe_closed_def close_chunk_def)

text \<open>
  What a committed erasure leaves of the whole database, table by table: the survivors of each walked
  table in their order and unchanged, but for chunks closed with a recounted item, facts unlinked from
  a deleted successor, and the recounted knowledge rows.
\<close>

lemma erase_survivors:
  assumes "erase env now t subject entity media_ids ed = Inr (r, ed')"
  defines "db \<equiv> ed_store ed" and "db' \<equiv> ed_store ed'" and "eps \<equiv> episode_set t subject entity (ed_store ed)"
  defines "kids \<equiv> set (affected_knowledge t eps db)"
  shows "ed' = ed\<lparr>ed_store := db\<lparr>db_episodes := filter (\<lambda>e. \<not> (ep_tenant_id e = t \<and> ep_id e \<in> set eps)) (db_episodes db),
        db_actions := filter (\<lambda>a. \<not> walked_action t subject entity a) (db_actions db),
        db_facts := filter (\<lambda>f. \<not> walked_fact t eps entity f) (unlink_facts t eps entity (db_facts db)),
        db_knowledge_evidence := filter (\<lambda>x. \<not> (ke_knowledge_id x \<in> kids \<and> ke_episode_id x \<in> set eps)) (db_knowledge_evidence db),
        db_chunks := db_chunks db', db_knowledge := db_knowledge db'\<rparr>,
      ed_quarantine := filter (\<lambda>q. \<not> walked_preview (ee_jsonb_text env) t subject entity q) (ed_quarantine ed),
      ed_audit := filter (\<lambda>a. \<not> walked_audit t subject a) (ed_audit ed) @ [erasure_audit env t subject entity r],
      ed_media := filter (\<lambda>m. \<not> walked_media t media_ids m) (ed_media ed)\<rparr>"
    "list_all2 (maybe_closed (ee_uuid_str env) now t kids) (filter (\<lambda>c. \<not> walked_chunk t eps entity c) (db_chunks db)) (db_chunks db')"
    "list_all2 (same_proposal kids) (db_knowledge db) (db_knowledge db')"
    "er_actions r = rows_affected (walked_action t subject entity) (db_actions db)"
    "er_chunks r = rows_affected (walked_chunk t eps entity) (db_chunks db)"
    "er_facts r = rows_affected (walked_fact t eps entity) (unlink_facts t eps entity (db_facts db))"
    "er_episodes r = rows_affected (\<lambda>e. ep_tenant_id e = t \<and> ep_id e \<in> set eps) (db_episodes db)"
    "er_audit_log r = rows_affected (walked_audit t subject) (ed_audit ed)"
    "\<forall>e \<in> set (db_episodes db). ep_tenant_id e = t \<longrightarrow> ep_id e \<in> set eps \<longrightarrow>
       (\<forall>x \<in> set (db_knowledge_evidence db'). ke_episode_id x \<noteq> ep_id e)"
proof -
  from assms(1) obtain ed0 where w: "walk_lineage env now t subject entity media_ids ed = Inr (r, ed0)"
    and ed': "ed' = ed0\<lparr>ed_audit := ed_audit ed0 @ [erasure_audit env t subject entity r]\<rparr>"
    by (auto simp: erase_def and_then_Inr split: if_splits)
  obtain db3 db4 where
    db3: "db3 = db\<lparr>db_actions := filter (\<lambda>a. \<not> walked_action t subject entity a) (db_actions db),
       db_chunks := filter (\<lambda>c. \<not> walked_chunk t eps entity c) (db_chunks db),
       db_facts := filter (\<lambda>f. \<not> walked_fact t eps entity f) (unlink_facts t eps entity (db_facts db)),
       db_knowledge_evidence := filter (\<lambda>x. \<not> (ke_knowledge_id x \<in> kids \<and> ke_episode_id x \<in> set eps)) (db_knowledge_evidence db)\<rparr>"
    and rec: "recounted (ee_uuid_str env) now t kids db3 db4"
    and st: "ed_store ed0 = db4\<lparr>db_episodes := filter (\<lambda>e. \<not> (ep_tenant_id e = t \<and> ep_id e \<in> set eps)) (db_episodes db4)\<rparr>"
    and rest: "ed_quarantine ed0 = filter (\<lambda>q. \<not> walked_preview (ee_jsonb_text env) t subject entity q) (ed_quarantine ed)"
      "ed_audit ed0 = filter (\<lambda>a. \<not> walked_audit t subject a) (ed_audit ed)"
      "ed_media ed0 = filter (\<lambda>m. \<not> walked_media t media_ids m) (ed_media ed)"
      "ed0 = ed\<lparr>ed_store := ed_store ed0, ed_quarantine := ed_quarantine ed0, ed_audit := ed_audit ed0, ed_media := ed_media ed0\<rparr>"
    and n: "er_actions r = rows_affected (walked_action t subject entity) (db_actions db)"
      "er_chunks r = rows_affected (walked_chunk t eps entity) (db_chunks db)"
      "er_facts r = rows_affected (walked_fact t eps entity) (unlink_facts t eps entity (db_facts db))"
      "er_episodes r = rows_affected (\<lambda>e. ep_tenant_id e = t \<and> ep_id e \<in> set eps) (db_episodes db)"
      "er_audit_log r = rows_affected (walked_audit t subject) (ed_audit ed)"
    and ev: "\<forall>e \<in> set (db_episodes db). ep_tenant_id e = t \<longrightarrow> ep_id e \<in> set eps \<longrightarrow>
       (\<forall>x \<in> set (db_knowledge_evidence (ed_store ed0)). ke_episode_id x \<noteq> ep_id e) \<and>
       (\<forall>x \<in> set (ed_processing ed). snd x \<noteq> ep_id e)"
    by (rule walk_lineage_Inr [OF w, folded eps_def, folded db_def, folded kids_def])
  from rec have db4: "db4 = db3\<lparr>db_chunks := db_chunks db4, db_knowledge := db_knowledge db4\<rparr>" by (simp add: recounted_def)
  have db': "db' = db4\<lparr>db_episodes := filter (\<lambda>e. \<not> (ep_tenant_id e = t \<and> ep_id e \<in> set eps)) (db_episodes db4)\<rparr>"
    using st ed' by (simp add: db'_def)
  have "db' = db\<lparr>db_episodes := filter (\<lambda>e. \<not> (ep_tenant_id e = t \<and> ep_id e \<in> set eps)) (db_episodes db),
        db_actions := filter (\<lambda>a. \<not> walked_action t subject entity a) (db_actions db),
        db_facts := filter (\<lambda>f. \<not> walked_fact t eps entity f) (unlink_facts t eps entity (db_facts db)),
        db_knowledge_evidence := filter (\<lambda>x. \<not> (ke_knowledge_id x \<in> kids \<and> ke_episode_id x \<in> set eps)) (db_knowledge_evidence db),
        db_chunks := db_chunks db4, db_knowledge := db_knowledge db4\<rparr>"
    unfolding db' by (subst (1 2) db4) (simp add: db3)
  moreover have "db_chunks db' = db_chunks db4" "db_knowledge db' = db_knowledge db4" by (simp_all add: db')
  moreover have "ed' = ed\<lparr>ed_store := db', ed_quarantine := ed_quarantine ed0,
      ed_audit := ed_audit ed0 @ [erasure_audit env t subject entity r], ed_media := ed_media ed0\<rparr>"
    unfolding ed' db'_def by (subst (1) rest(4)) simp
  ultimately show "ed' = ed\<lparr>ed_store := db\<lparr>db_episodes := filter (\<lambda>e. \<not> (ep_tenant_id e = t \<and> ep_id e \<in> set eps)) (db_episodes db),
        db_actions := filter (\<lambda>a. \<not> walked_action t subject entity a) (db_actions db),
        db_facts := filter (\<lambda>f. \<not> walked_fact t eps entity f) (unlink_facts t eps entity (db_facts db)),
        db_knowledge_evidence := filter (\<lambda>x. \<not> (ke_knowledge_id x \<in> kids \<and> ke_episode_id x \<in> set eps)) (db_knowledge_evidence db),
        db_chunks := db_chunks db', db_knowledge := db_knowledge db'\<rparr>,
      ed_quarantine := filter (\<lambda>q. \<not> walked_preview (ee_jsonb_text env) t subject entity q) (ed_quarantine ed),
      ed_audit := filter (\<lambda>a. \<not> walked_audit t subject a) (ed_audit ed) @ [erasure_audit env t subject entity r],
      ed_media := filter (\<lambda>m. \<not> walked_media t media_ids m) (ed_media ed)\<rparr>"
    unfolding rest(1-3) by metis
  show "list_all2 (maybe_closed (ee_uuid_str env) now t kids) (filter (\<lambda>c. \<not> walked_chunk t eps entity c) (db_chunks db)) (db_chunks db')"
    "list_all2 (same_proposal kids) (db_knowledge db) (db_knowledge db')"
    using rec by (simp_all add: recounted_def db' db3)
  show "\<forall>e \<in> set (db_episodes db). ep_tenant_id e = t \<longrightarrow> ep_id e \<in> set eps \<longrightarrow>
       (\<forall>x \<in> set (db_knowledge_evidence db'). ke_episode_id x \<noteq> ep_id e)"
    using ev ed' by (simp add: db'_def)
  show "er_actions r = rows_affected (walked_action t subject entity) (db_actions db)"
    "er_chunks r = rows_affected (walked_chunk t eps entity) (db_chunks db)"
    "er_facts r = rows_affected (walked_fact t eps entity) (unlink_facts t eps entity (db_facts db))"
    "er_episodes r = rows_affected (\<lambda>e. ep_tenant_id e = t \<and> ep_id e \<in> set eps) (db_episodes db)"
    "er_audit_log r = rows_affected (walked_audit t subject) (ed_audit ed)" by (fact n)+
qed

text \<open>
  C22: A committed erasure is complete and exact. Complete: in the tenant no episode of the subject or the
  entity is left, no action by the subject or on the entity, no chunk or fact that came from one of those
  episodes or actions or carries the entity, no evidence resting on an erased episode, no audit row of
  the subject, no held payload matching either and no named media. Exact: the walked tables keep
  precisely their other rows, in order, and every other table is as it was. A surviving chunk is
  unchanged unless it is an open chunk of the tenant that publishes a knowledge item which lost
  evidence, and then it is at most closed; a surviving fact is unchanged but for a dropped link to a
  deleted successor; only knowledge rows that lost evidence may change; the audit trail gains the one
  erasure row. All rows of other tenants survive unchanged, and the counts reported are the numbers of
  rows that went.
\<close>

theorem erase_complete_and_exact:
  assumes "erase env now t subject entity media_ids ed = Inr (r, ed')"
  defines "db \<equiv> ed_store ed" and "db' \<equiv> ed_store ed'" and "eps \<equiv> episode_set t subject entity (ed_store ed)"
  defines "kids \<equiv> set (affected_knowledge t eps db)"
  shows "list_all (\<lambda>e. \<not> walked_episode t subject entity e) (db_episodes db') \<and>
    list_all (\<lambda>a. \<not> walked_action t subject entity a) (db_actions db') \<and>
    list_all (\<lambda>c. \<not> walked_chunk t eps entity c) (db_chunks db') \<and>
    list_all (\<lambda>f. \<not> walked_fact t eps entity f) (db_facts db') \<and>
    (\<forall>e \<in> set (db_episodes db). walked_episode t subject entity e \<longrightarrow>
       list_all (\<lambda>x. ke_episode_id x \<noteq> ep_id e) (db_knowledge_evidence db')) \<and>
    list_all (\<lambda>a. \<not> walked_audit t subject a) (ed_audit ed') \<and>
    list_all (\<lambda>m. \<not> walked_media t media_ids m) (ed_media ed') \<and>
    list_all (\<lambda>q. \<not> walked_preview (ee_jsonb_text env) t subject entity q) (ed_quarantine ed') \<and>
    ed' = ed\<lparr>ed_store := db\<lparr>db_episodes := filter (\<lambda>e. \<not> (ep_tenant_id e = t \<and> ep_id e \<in> set eps)) (db_episodes db),
        db_actions := filter (\<lambda>a. \<not> walked_action t subject entity a) (db_actions db),
        db_facts := filter (\<lambda>f. \<not> walked_fact t eps entity f) (unlink_facts t eps entity (db_facts db)),
        db_knowledge_evidence := filter (\<lambda>x. \<not> (ke_knowledge_id x \<in> kids \<and> ke_episode_id x \<in> set eps)) (db_knowledge_evidence db),
        db_chunks := db_chunks db', db_knowledge := db_knowledge db'\<rparr>,
      ed_quarantine := filter (\<lambda>q. \<not> walked_preview (ee_jsonb_text env) t subject entity q) (ed_quarantine ed),
      ed_audit := filter (\<lambda>a. \<not> walked_audit t subject a) (ed_audit ed) @ [erasure_audit env t subject entity r],
      ed_media := filter (\<lambda>m. \<not> walked_media t media_ids m) (ed_media ed)\<rparr> \<and>
    list_all2 (maybe_closed (ee_uuid_str env) now t kids) (filter (\<lambda>c. \<not> walked_chunk t eps entity c) (db_chunks db)) (db_chunks db') \<and>
    list_all2 (same_proposal kids) (db_knowledge db) (db_knowledge db') \<and>
    filter (\<lambda>e. ep_tenant_id e \<noteq> t) (db_episodes db') = filter (\<lambda>e. ep_tenant_id e \<noteq> t) (db_episodes db) \<and>
    filter (\<lambda>c. ch_tenant_id c \<noteq> t) (db_chunks db') = filter (\<lambda>c. ch_tenant_id c \<noteq> t) (db_chunks db) \<and>
    filter (\<lambda>f. fr_tenant_id f \<noteq> t) (db_facts db') = filter (\<lambda>f. fr_tenant_id f \<noteq> t) (db_facts db) \<and>
    filter (\<lambda>a. aw_tenant_id (ac_write a) \<noteq> t) (db_actions db') = filter (\<lambda>a. aw_tenant_id (ac_write a) \<noteq> t) (db_actions db) \<and>
    length (db_episodes db') + er_episodes r = length (db_episodes db) \<and>
    length (db_chunks db') + er_chunks r = length (db_chunks db) \<and>
    length (db_facts db') + er_facts r = length (db_facts db) \<and>
    length (db_actions db') + er_actions r = length (db_actions db) \<and>
    length (ed_audit ed') + er_audit_log r = length (ed_audit ed) + 1"
proof -
  note s = erase_survivors [OF assms(1), folded db_def db'_def eps_def, folded kids_def]
  note ch = s(2)
  have tables: "db_episodes db' = filter (\<lambda>e. \<not> (ep_tenant_id e = t \<and> ep_id e \<in> set eps)) (db_episodes db)"
    "db_actions db' = filter (\<lambda>a. \<not> walked_action t subject entity a) (db_actions db)"
    "db_facts db' = filter (\<lambda>f. \<not> walked_fact t eps entity f) (unlink_facts t eps entity (db_facts db))"
    "ed_audit ed' = filter (\<lambda>a. \<not> walked_audit t subject a) (ed_audit ed) @ [erasure_audit env t subject entity r]"
    "ed_media ed' = filter (\<lambda>m. \<not> walked_media t media_ids m) (ed_media ed)"
    "ed_quarantine ed' = filter (\<lambda>q. \<not> walked_preview (ee_jsonb_text env) t subject entity q) (ed_quarantine ed)"
    by - (simp only: db'_def, subst s(1), simp; fail | subst s(1), simp)+
  have eps: "walked_episode t subject entity e \<Longrightarrow> e \<in> set (db_episodes db) \<Longrightarrow> ep_tenant_id e = t \<and> ep_id e \<in> set eps" for e
    unfolding eps_def db_def set_episode_set by (auto simp: walked_episode_def)
  have "list_all (\<lambda>e. \<not> walked_episode t subject entity e) (db_episodes db')"
    unfolding tables using eps by (auto simp: list_all_iff)
  moreover have "list_all (\<lambda>c. \<not> walked_chunk t eps entity c) (db_chunks db')"
    using maybe_closed_mem [OF ch] by (fastforce simp: list_all_iff maybe_closed_def)
  moreover have "\<forall>e \<in> set (db_episodes db). walked_episode t subject entity e \<longrightarrow>
       list_all (\<lambda>x. ke_episode_id x \<noteq> ep_id e) (db_knowledge_evidence db')"
    using s(9) eps by (auto simp: list_all_iff)
  moreover have "length (db_chunks db') + er_chunks r = length (db_chunks db)"
    using list_all2_lengthD [OF ch] filter_rows [of "walked_chunk t eps entity" "db_chunks db"] s(5) by simp
  moreover have "length (db_facts db') + er_facts r = length (db_facts db)"
    unfolding tables s(6) filter_rows unlink_facts_length ..
  moreover have "length (db_episodes db') + er_episodes r = length (db_episodes db)"
    "length (db_actions db') + er_actions r = length (db_actions db)" unfolding tables s(4,7) filter_rows by simp_all
  moreover have "length (ed_audit ed') + er_audit_log r = length (ed_audit ed) + 1"
    using filter_rows [of "walked_audit t subject" "ed_audit ed"] by (simp add: tables s(8))
  moreover have "list_all (\<lambda>a. \<not> walked_audit t subject a) (ed_audit ed')"
    by (auto simp: tables list_all_iff walked_audit_def equals_param_def erasure_audit_def)
  moreover have "filter (\<lambda>c. ch_tenant_id c \<noteq> t) (db_chunks db') = filter (\<lambda>c. ch_tenant_id c \<noteq> t) (db_chunks db)"
    unfolding maybe_closed_other [OF ch] filter_filter by (rule filter_cong) (auto simp: walked_chunk_def)
  moreover have "filter (\<lambda>f. fr_tenant_id f \<noteq> t) (db_facts db') = filter (\<lambda>f. fr_tenant_id f \<noteq> t) (db_facts db)"
    unfolding unlink_facts_other [of t eps entity "db_facts db", symmetric] tables filter_filter
    by (rule filter_cong) (auto simp: walked_fact_def)
  moreover have "filter (\<lambda>e. ep_tenant_id e \<noteq> t) (db_episodes db') = filter (\<lambda>e. ep_tenant_id e \<noteq> t) (db_episodes db)"
    "filter (\<lambda>a. aw_tenant_id (ac_write a) \<noteq> t) (db_actions db') = filter (\<lambda>a. aw_tenant_id (ac_write a) \<noteq> t) (db_actions db)"
    unfolding tables filter_filter by (auto intro!: filter_cong simp: walked_action_def)
  ultimately show ?thesis using s(1-3) by (simp add: tables(2,3,5,6) list_all_iff)
qed

text \<open>The witness: a store with one subject's episode, chunk, facts, action and audit row beside another's.\<close>

definition sample_erasure_env :: erasure_env where
  "sample_erasure_env = \<lparr>ee_uuid_str = nat_to_string, ee_jsonb_text = (\<lambda>_. []), ee_sha256 = (\<lambda>s. s), ee_print = (\<lambda>_. [])\<rparr>"

definition jane_db :: erasure_db where
  "jane_db = \<lparr>ed_store = sample_facts_db\<lparr>db_episodes :=
       [(sample_episode 10 ''acme'' ''a'')\<lparr>ep_writer_sub := Some ''user:jane''\<rparr>, sample_episode 11 ''beta'' ''b'']\<rparr>,
     ed_quarantine = [],
     ed_audit = [dsar_audit 1, (dsar_audit 1)\<lparr>au_actor_sub := Some ''user:jane''\<rparr>],
     ed_media = [], ed_processing = [], ed_tag_suggestions = []\<rparr>"

lemma jane_erased:
  "map_sum id fst (erase sample_erasure_env 50 1 (Some ''user:jane'') None [] jane_db) =
     Inr (default_report\<lparr>er_episodes := 1, er_facts := 2, er_audit_log := 1\<rparr>)"
  by code_simp

theorem erase_complete_and_exact_witness:
  "\<exists>r ed'. erase sample_erasure_env 50 1 (Some ''user:jane'') None [] jane_db = Inr (r, ed') \<and> er_facts r = 2 \<and>
     list_all (\<lambda>e. \<not> walked_episode 1 (Some ''user:jane'') None e) (db_episodes (ed_store ed')) \<and>
     filter (\<lambda>f. fr_tenant_id f \<noteq> 1) (db_facts (ed_store ed')) = filter (\<lambda>f. fr_tenant_id f \<noteq> 1) (db_facts (ed_store jane_db)) \<and>
     length (db_episodes (ed_store ed')) + er_episodes r = length (db_episodes (ed_store jane_db))"
proof -
  obtain r ed' where e: "erase sample_erasure_env 50 1 (Some ''user:jane'') None [] jane_db = Inr (r, ed')"
    and r: "r = default_report\<lparr>er_episodes := 1, er_facts := 2, er_audit_log := 1\<rparr>"
    using jane_erased by (cases "erase sample_erasure_env 50 1 (Some ''user:jane'') None [] jane_db") auto
  from erase_complete_and_exact [OF e] r e show ?thesis by (intro exI [of _ r] exI [of _ ed']) simp
qed

section \<open>Erasure against the export and the cache\<close>

lemma list_all2_filter_length:
  "list_all2 R xs ys \<Longrightarrow> (\<And>x y. R x y \<Longrightarrow> P x = P y) \<Longrightarrow> length (filter P xs) = length (filter P ys)"
  by (induction rule: list_all2_induct) auto

lemma erase_store:
  assumes "erase env now t subject entity media_ids ed = Inr (r, ed')"
  defines "eps \<equiv> episode_set t subject entity (ed_store ed)"
  shows "db_episodes (ed_store ed') =
      filter (\<lambda>e. \<not> (ep_tenant_id e = t \<and> ep_id e \<in> set eps)) (db_episodes (ed_store ed))"
    "db_actions (ed_store ed') = filter (\<lambda>a. \<not> walked_action t subject entity a) (db_actions (ed_store ed))"
    "db_facts (ed_store ed') = filter (\<lambda>f. \<not> walked_fact t eps entity f) (unlink_facts t eps entity (db_facts (ed_store ed)))"
    "ed_audit ed' = filter (\<lambda>a. \<not> walked_audit t subject a) (ed_audit ed) @ [erasure_audit env t subject entity r]"
    "list_all2 (same_proposal (set (affected_knowledge t eps (ed_store ed)))) (db_knowledge (ed_store ed)) (db_knowledge (ed_store ed'))"
proof -
  note s = erase_survivors [OF assms(1), folded eps_def]
  show "db_episodes (ed_store ed') =
      filter (\<lambda>e. \<not> (ep_tenant_id e = t \<and> ep_id e \<in> set eps)) (db_episodes (ed_store ed))"
    "db_actions (ed_store ed') = filter (\<lambda>a. \<not> walked_action t subject entity a) (db_actions (ed_store ed))"
    "db_facts (ed_store ed') = filter (\<lambda>f. \<not> walked_fact t eps entity f) (unlink_facts t eps entity (db_facts (ed_store ed)))"
    "ed_audit ed' = filter (\<lambda>a. \<not> walked_audit t subject a) (ed_audit ed) @ [erasure_audit env t subject entity r]"
    by - (subst s(1), simp)+
qed (rule erase_survivors [OF assms(1), folded eps_def])

lemma admin_erasure_Inr:
  assumes "admin_erasure env h now signed_at req st = (Inr (report, tuples, pr), st')"
  obtains ed' where "erase (ce_erasure env) now (eq_tenant_id req) (eq_subject req) (eq_entity req) (eq_media_ids req)
      (ca_inner (co_adapter st)) = Inr (report, ed')" "co_adapter st' = \<lparr>ca_inner = ed', ca_facts = Map.empty\<rparr>"
    "admin_check (ce_auth env) h = Inr ()"
proof -
  obtain x st1 where t: "erase_tuples env req st = (x, st1)" by (rule prod.exhaust)
  then have "co_adapter st1 = co_adapter st"
    by (auto simp: erase_tuples_def split: option.splits prod.splits sum.splits)
  moreover have "purge_objects env refs st2 = (y, st3) \<Longrightarrow> co_adapter st3 = co_adapter st2" for refs st2 y st3
    by (auto simp: purge_objects_def split: option.splits prod.splits)
  ultimately show ?thesis
    using assms t
    by (fastforce simp: admin_erasure_def erasure_gate_def flush_facts_def Let_def intro: that
        split: sum.splits prod.splits)
qed

text \<open>
  C23: Erasure answers subject access. After the route has erased a subject, the export of that subject
  holds no episode, chunk, fact, action or audit row - only the knowledge items the subject proposed,
  as many as before. After it has erased an entity, no read through the cache returns a fact of the
  entity, whatever the scope and whatever was cached before.
\<close>

theorem erased_subject_exports_nothing:
  assumes run: "admin_erasure env h now signed_at req st = (Inr (report, tuples, pr), st')"
  defines "t \<equiv> eq_tenant_id req" and "read \<equiv> \<lambda>sc k ed. current_fact sc k (ed_store ed)"
  shows "(\<forall>s. eq_subject req = Some s \<longrightarrow>
      (let b = dsar_export t s (ca_inner (co_adapter st'))
       in ds_episodes b = [] \<and> ds_chunks b = [] \<and> ds_facts b = [] \<and> ds_actions b = [] \<and> ds_audit_log b = [] \<and>
          length (ds_knowledge b) = length (ds_knowledge (dsar_export t s (ca_inner (co_adapter st)))))) \<and>
    (\<forall>sc k. eq_entity req = Some (fk_entity_id k) \<longrightarrow> sc_tenant_id sc = t \<longrightarrow>
      fst (cached_current_fact read sc k (co_adapter st')) = None)"
proof -
  obtain ed' where e: "erase (ce_erasure env) now t (eq_subject req) (eq_entity req) (eq_media_ids req)
      (ca_inner (co_adapter st)) = Inr (report, ed')"
    and a: "co_adapter st' = \<lparr>ca_inner = ed', ca_facts = Map.empty\<rparr>"
    using admin_erasure_Inr [OF run] unfolding t_def by metis
  note s = erase_store [OF e]
  have "ds_episodes (dsar_export t x ed') = []" "ds_actions (dsar_export t x ed') = []"
    "ds_audit_log (dsar_export t x ed') = []" "ds_chunks (dsar_export t x ed') = []" "ds_facts (dsar_export t x ed') = []"
    if "eq_subject req = Some x" for x
  proof -
    have ep: "filter (\<lambda>e. ep_tenant_id e = t \<and> ep_writer_sub e = Some x) (db_episodes (ed_store ed')) = []"
      unfolding s(1) set_episode_set using that by (auto simp: filter_empty_conv walked_episode_def equals_param_def)
    show "ds_episodes (dsar_export t x ed') = []" "ds_chunks (dsar_export t x ed') = []" "ds_facts (dsar_export t x ed') = []"
      unfolding dsar_export_def Let_def ep by simp_all
    have ac: "filter (\<lambda>a. aw_tenant_id (ac_write a) = t \<and> aw_actor_sub (ac_write a) = Some x) (db_actions (ed_store ed')) = []"
      unfolding s(2) using that by (auto simp: filter_empty_conv walked_action_def equals_param_def)
    show "ds_actions (dsar_export t x ed') = []" unfolding dsar_export_def Let_def ac by simp
    show "ds_audit_log (dsar_export t x ed') = []"
      using that by (auto simp: dsar_export_def Let_def s(4) filter_empty_conv walked_audit_def equals_param_def erasure_audit_def)
  qed
  moreover have "length (ds_knowledge (dsar_export t x ed')) = length (ds_knowledge (dsar_export t x (ca_inner (co_adapter st))))" for x
    using list_all2_filter_length [OF s(5), of "\<lambda>k. kn_tenant_id k = t \<and> kn_proposed_by_sub k = Some x"]
    by (simp add: dsar_export_def Let_def same_proposal_def)
  moreover have "current_fact sc k (ed_store ed') = None"
    if "eq_entity req = Some (fk_entity_id k)" "sc_tenant_id sc = t" for sc k
    unfolding current_fact_find s(3) using that
    by (auto simp: find_None_iff walked_fact_def equals_param_def of_key_def)
  ultimately show ?thesis
    by (simp add: a Let_def cached_current_fact_def cache_lookup_def cache_fill_def visible_only_def read_def)
qed

definition sample_compliance_env :: "relationship list compliance_env" where
  "sample_compliance_env = \<lparr>ce_auth = ie_auth demo_env, ce_rebac = None, ce_media_store = None,
     ce_erasure = sample_erasure_env, ce_signer = (\<lambda>d m. d @ m), ce_persistent_key = False\<rparr>"

definition sample_compliance_state :: "relationship list compliance_state" where
  "sample_compliance_state = \<lparr>co_adapter = new_cache jane_db, co_graph = [], co_objects = []\<rparr>"

definition erase_jane :: erasure_request where
  "erase_jane = \<lparr>eq_tenant_id = 1, eq_subject = Some ''user:jane'', eq_entity = Some ''acme'', eq_media_ids = []\<rparr>"

lemma erase_jane_runs:
  "\<exists>report tuples pr st'. admin_erasure sample_compliance_env demo_headers 50 JNull erase_jane sample_compliance_state =
     (Inr (report, tuples, pr), st')"
proof -
  have "isl (fst (admin_erasure sample_compliance_env demo_headers 50 JNull erase_jane sample_compliance_state)) = False"
    by code_simp
  then show ?thesis
    by (cases "admin_erasure sample_compliance_env demo_headers 50 JNull erase_jane sample_compliance_state"; cases "fst (admin_erasure sample_compliance_env demo_headers 50 JNull erase_jane sample_compliance_state)") auto
qed

theorem erased_subject_exports_nothing_witness:
  "ds_facts (dsar_export 1 ''user:jane'' jane_db) \<noteq> [] \<and>
   (\<exists>st'. snd (admin_erasure sample_compliance_env demo_headers 50 JNull erase_jane sample_compliance_state) = st' \<and>
      ds_facts (dsar_export 1 ''user:jane'' (ca_inner (co_adapter st'))) = [] \<and>
      fst (cached_current_fact (\<lambda>sc k ed. current_fact sc k (ed_store ed)) (sample_scope [5]) sample_key (co_adapter st')) = None)"
proof -
  obtain report tuples pr st' where run:
    "admin_erasure sample_compliance_env demo_headers 50 JNull erase_jane sample_compliance_state = (Inr (report, tuples, pr), st')"
    using erase_jane_runs by blast
  have "ds_facts (dsar_export 1 ''user:jane'' jane_db) \<noteq> []" by code_simp
  with erased_subject_exports_nothing [OF run] run show ?thesis
    by (simp add: erase_jane_def Let_def sample_scope_def sample_key_def)
qed

section \<open>Where erasure fails or falls short\<close>

text \<open>An ACL correction leaves an audit row that refers to the fact; from then on its entity cannot be erased.\<close>

lemma walk_facts_step:
  assumes "walk_lineage env now t subject entity media_ids ed = Inr (r, ed')"
  obtains eps ed2 ed3 nc where "erase_chunks t eps entity ed2 = Inr (nc, ed3)"
    "db_facts (ed_store ed2) = db_facts (ed_store ed)" "db_fact_acl_audit (ed_store ed2) = db_fact_acl_audit (ed_store ed)"
    "\<not> isl (erase_facts t eps entity ed3)"
proof -
  let ?eps = "episode_set t subject entity (ed_store ed)"
  let ?ed1 = "on_store (\<lambda>db. db\<lparr>db_actions := filter (\<lambda>a. \<not> walked_action t subject entity a) (db_actions db)\<rparr>) ed"
  from assms obtain nc ed2 where c: "erase_chunks t ?eps entity ?ed1 = Inr (nc, ed2)"
    by (cases "erase_chunks t ?eps entity ?ed1") (auto simp: walk_lineage_def Let_def)
  with assms have "\<not> isl (erase_facts t ?eps entity ed2)"
    by (cases "erase_facts t ?eps entity ed2") (auto simp: walk_lineage_def Let_def)
  then show ?thesis by (rule that [OF c, rotated 2]) (simp_all add: on_store_def)
qed

lemma unlinked_fact:
  assumes "g \<in> set rows" "walked_fact t eps entity g" "fr_id g = i"
  shows "\<exists>g' \<in> set (unlink_facts t eps entity rows). fr_id g' = i \<and> walked_fact t eps entity g'"
proof -
  let ?P = "\<lambda>f. fr_tenant_id f = t \<and> fr_superseded_by f \<in> Some ` set (map fr_id (filter (walked_fact t eps entity) rows))"
  let ?g = "if ?P g then g\<lparr>fr_superseded_by := None\<rparr> else g"
  have "?g \<in> set (unlink_facts t eps entity rows)"
    unfolding unlink_facts_def Let_def update_where_def set_map using assms(1) by (rule image_eqI [rotated]) simp
  moreover have "fr_id ?g = i" "walked_fact t eps entity ?g" using assms(2,3) by (auto simp: walked_fact_def)
  ultimately show ?thesis by blast
qed

lemma acl_correction_blocks_erasure:
  assumes "correct_fact_acl audit_id t k vis conf reason prov by_whom db = Inr (n, ed_store ed)"
    and "current_row t k (db_facts db) = Some f"
  shows "isl (erase env now t subject (Some (fk_entity_id k)) media_ids ed)"
proof (rule ccontr)
  assume "\<not> isl (erase env now t subject (Some (fk_entity_id k)) media_ids ed)"
  then obtain r ed' where "erase env now t subject (Some (fk_entity_id k)) media_ids ed = Inr (r, ed')"
    by (cases "erase env now t subject (Some (fk_entity_id k)) media_ids ed") auto
  then obtain r0 ed0 where "walk_lineage env now t subject (Some (fk_entity_id k)) media_ids ed = Inr (r0, ed0)"
    by (auto simp: erase_def and_then_Inr split: if_splits)
  then obtain eps ed2 ed3 nc where w: "erase_chunks t eps (Some (fk_entity_id k)) ed2 = Inr (nc, ed3)"
    "db_facts (ed_store ed2) = db_facts (ed_store ed)" "db_fact_acl_audit (ed_store ed2) = db_fact_acl_audit (ed_store ed)"
    and ef: "\<not> isl (erase_facts t eps (Some (fk_entity_id k)) ed3)"
    by (rule walk_facts_step)
  define db1 where "db1 = ed_store ed"
  from assms have "db_facts db1 = update_where (of_key t k) (set_fact_acl vis conf) (db_facts db) \<and>
      Some (fr_id f) \<in> fa_fact_id ` set (db_fact_acl_audit db1)"
    unfolding db1_def [symmetric] by (auto simp: correct_fact_acl_def Let_def split: if_splits)
  then have st: "db_facts (ed_store ed) = update_where (of_key t k) (set_fact_acl vis conf) (db_facts db)"
    and au: "Some (fr_id f) \<in> fa_fact_id ` set (db_fact_acl_audit (ed_store ed))" by (simp_all add: db1_def)
  have f: "f \<in> set (db_facts db)" "of_key t k f" using assms(2) by (auto dest: current_row_Some)
  have "set_fact_acl vis conf f \<in> set (db_facts (ed_store ed))" unfolding st using f by (force simp: update_where_def)
  moreover have "walked_fact t eps (Some (fk_entity_id k)) (set_fact_acl vis conf f)" "fr_id (set_fact_acl vis conf f) = fr_id f"
    using f(2) by (simp_all add: walked_fact_def equals_param_def of_key_def set_fact_acl_def)
  ultimately have "\<exists>g' \<in> set (unlink_facts t eps (Some (fk_entity_id k)) (db_facts (ed_store ed))).
      fr_id g' = fr_id f \<and> walked_fact t eps (Some (fk_entity_id k)) g'"
    by (rule unlinked_fact)
  with ef au w erase_chunks_Inr [OF w(1)] show False
    by (auto simp: erase_facts_def Let_def on_store_def list_ex_iff split: if_splits)
qed

text \<open>Once consolidation has leased an episode, its subject and its entity cannot be erased.\<close>

lemma leased_episode_blocks_erasure:
  assumes "e \<in> set (db_episodes (ed_store ed))" "walked_episode t subject entity e" "(t, ep_id e) \<in> set (ed_processing ed)"
  shows "isl (walk_lineage env now t subject entity media_ids ed)"
proof (rule ccontr)
  assume "\<not> isl (walk_lineage env now t subject entity media_ids ed)"
  then obtain r ed' where "walk_lineage env now t subject entity media_ids ed = Inr (r, ed')"
    by (cases "walk_lineage env now t subject entity media_ids ed") auto
  moreover have "ep_id e \<in> set (episode_set t subject entity (ed_store ed))" "ep_tenant_id e = t"
    using assms(1,2) by (auto simp: set_episode_set walked_episode_def)
  ultimately show False using assms(1,3) by (elim walk_lineage_Inr) force
qed

text \<open>If the object store fails, the rows are gone but the cache still holds the facts.\<close>

lemma object_failure_keeps_cache:
  assumes "admin_erasure env h now signed_at req st = (Inl (ObjectDelete key msg), st')"
  shows "ca_facts (co_adapter st') = ca_facts (co_adapter st) \<and>
    (\<exists>report. erase (ce_erasure env) now (eq_tenant_id req) (eq_subject req) (eq_entity req) (eq_media_ids req)
      (ca_inner (co_adapter st)) = Inr (report, ca_inner (co_adapter st')))"
proof -
  obtain x st1 where t: "erase_tuples env req st = (x, st1)" by (rule prod.exhaust)
  then have "co_adapter st1 = co_adapter st" "x \<noteq> Inl (ObjectDelete key msg)"
    by (auto simp: erase_tuples_def split: option.splits prod.splits sum.splits)
  moreover have "purge_objects env refs st2 = (y, st3) \<Longrightarrow> co_adapter st3 = co_adapter st2" for refs st2 y st3
    by (auto simp: purge_objects_def split: option.splits prod.splits)
  moreover have "erasure_gate env h (eq_tenant_id req) st \<noteq> Inl (ObjectDelete key msg)"
    by (auto simp: erasure_gate_def tenant_gate_def split: sum.splits)
  ultimately show ?thesis
    using assms t by (fastforce simp: admin_erasure_def Let_def split: sum.splits prod.splits)
qed

text \<open>A backslash in the subject is read as an escape, so a held payload that names the subject is kept.\<close>

lemma backslash_subject_kept:
  "\<not> mentions (\<lambda>j. case j of JString s \<Rightarrow> s | _ \<Rightarrow> []) (Some (''corp'' @ [CHR 0x5C] @ ''jane''))
     \<lparr>qp_tenant_id = 1, qp_payload = JString (''from corp'' @ [CHR 0x5C] @ ''jane'')\<rparr>"
  by code_simp

end
