(* ===== verification/Canon.thy ===== *)
theory Canon
  imports Core_Types
begin

text \<open>
  Canonical keys of the entity resolver, \<^verbatim>\<open>verity-storage/src/resolve/canon.rs\<close>: namespaces and key kinds,
  the built-in denylists, the canonical forms of e-mail addresses, domains, phone numbers and company
  names, and the stamp that tells which population a field belongs to. Text is ASCII, so
  \<^verbatim>\<open>char::to_lowercase\<close> and \<^verbatim>\<open>char::is_alphanumeric\<close> are their ASCII parts. The lemmas show what a canonical
  form looks like, that it passes the denylist, and on which inputs canonicalising twice changes nothing.
\<close>

section \<open>Keys\<close>

datatype key_namespace = CustomerContact | InternalDirectory

fun key_namespace_as_str :: "key_namespace \<Rightarrow> string" where
  "key_namespace_as_str CustomerContact = ''customer_contact''"
| "key_namespace_as_str InternalDirectory = ''internal_directory''"

definition key_namespace_from_stored :: "string \<Rightarrow> key_namespace" where
  "key_namespace_from_stored s = (if s = ''customer_contact'' then CustomerContact else InternalDirectory)"

datatype key_kind = EmailKey | DomainKey | PhoneKey | ExternalIdKey

fun key_kind_as_str :: "key_kind \<Rightarrow> string" where
  "key_kind_as_str EmailKey = ''email''"
| "key_kind_as_str DomainKey = ''domain''"
| "key_kind_as_str PhoneKey = ''phone''"
| "key_kind_as_str ExternalIdKey = ''external_id''"

record canon_key =
  ck_kind :: key_kind
  ck_value :: string
  ck_namespace :: key_namespace

section \<open>The built-in denylist\<close>

definition FREEMAIL_DOMAINS :: "string list" where
  "FREEMAIL_DOMAINS =
  [''gmail.com'', ''googlemail.com'', ''yahoo.com'', ''ymail.com'', ''hotmail.com'', ''outlook.com'',
   ''live.com'', ''msn.com'', ''aol.com'', ''icloud.com'', ''me.com'', ''mac.com'', ''proton.me'',
   ''protonmail.com'', ''gmx.com'', ''mail.com'', ''zoho.com'', ''yandex.com'', ''pm.me'']"

definition PLACEHOLDER_DOMAINS :: "string list" where
  "PLACEHOLDER_DOMAINS =
  [''example.com'', ''example.org'', ''example.net'', ''example.edu'', ''test.com'', ''localhost'',
   ''invalid'', ''none.com'', ''noemail.com'', ''no-reply.com'', ''noreply.com'']"

definition ROLE_LOCALS :: "string list" where
  "ROLE_LOCALS =
  [''info'', ''sales'', ''support'', ''admin'', ''administrator'', ''contact'', ''hello'', ''help'',
   ''office'', ''team'', ''marketing'', ''billing'', ''accounts'', ''accounting'', ''finance'', ''hr'',
   ''jobs'', ''careers'', ''press'', ''media'', ''legal'', ''privacy'', ''security'', ''abuse'',
   ''postmaster'', ''webmaster'', ''noreply'', ''no-reply'', ''donotreply'', ''do-not-reply'',
   ''mailer-daemon'', ''notifications'', ''notification'', ''newsletter'', ''enquiries'', ''inquiries'',
   ''service'', ''customerservice'', ''orders'', ''hi'']"

definition is_denied_domain :: "string \<Rightarrow> bool" where
  "is_denied_domain domain \<longleftrightarrow> domain \<in> set FREEMAIL_DOMAINS \<or> domain \<in> set PLACEHOLDER_DOMAINS"

fun is_denylisted :: "key_kind \<Rightarrow> string \<Rightarrow> bool" where
  "is_denylisted DomainKey value \<longleftrightarrow> is_denied_domain (to_ascii_lowercase (trim value))"
| "is_denylisted EmailKey value \<longleftrightarrow>
     (case split_once CHR ''@'' (to_ascii_lowercase (trim value)) of
        None \<Rightarrow> True
      | Some (local, domain) \<Rightarrow>
          (let local_base = (case split_once CHR ''+'' local of None \<Rightarrow> local | Some (l, _) \<Rightarrow> l)
           in local_base \<in> set ROLE_LOCALS \<or> is_denied_domain domain))"
| "is_denylisted PhoneKey value \<longleftrightarrow> False"
| "is_denylisted ExternalIdKey value \<longleftrightarrow> False"

section \<open>E-mail addresses\<close>

definition without_prefix :: "string \<Rightarrow> string \<Rightarrow> string" where
  "without_prefix p s = (case strip_prefix p s of None \<Rightarrow> s | Some r \<Rightarrow> r)"

definition canonicalize_email :: "string \<Rightarrow> key_namespace \<Rightarrow> canon_key option" where
  "canonicalize_email raw namespace =
     (let s = trim (without_prefix ''mailto:'' (to_ascii_lowercase (trim raw))) in
      case split_once CHR ''@'' s of
        None \<Rightarrow> None
      | Some (local_raw, domain_raw) \<Rightarrow>
          if local_raw = [] \<or> domain_raw = [] then None
          else if CHR ''@'' \<in> set domain_raw then None
          else
            let local = (case split_once CHR ''+'' local_raw of Some (base, _) \<Rightarrow> base | None \<Rightarrow> local_raw) in
            if local = [] then None
            else
              let domain = trim_matches CHR ''.'' domain_raw in
              if CHR ''.'' \<notin> set domain \<or> CHR '' '' \<in> set domain then None
              else
                let value = local @ ''@'' @ domain in
                if is_denylisted EmailKey value then None
                else Some \<lparr>ck_kind = EmailKey, ck_value = value, ck_namespace = namespace\<rparr>)"

section \<open>Domains\<close>

definition MULTI_PART_SUFFIXES :: "string list" where
  "MULTI_PART_SUFFIXES =
  [''co.uk'', ''org.uk'', ''me.uk'', ''ltd.uk'', ''plc.uk'', ''net.uk'', ''sch.uk'', ''ac.uk'', ''gov.uk'',
   ''com.au'', ''net.au'', ''org.au'', ''edu.au'', ''gov.au'', ''asn.au'', ''id.au'', ''co.nz'', ''net.nz'',
   ''org.nz'', ''govt.nz'', ''ac.nz'', ''school.nz'', ''co.jp'', ''or.jp'', ''ne.jp'', ''ac.jp'', ''go.jp'',
   ''com.br'', ''net.br'', ''org.br'', ''gov.br'', ''co.in'', ''net.in'', ''org.in'', ''gen.in'',
   ''firm.in'', ''ind.in'', ''co.za'', ''net.za'', ''org.za'', ''gov.za'', ''com.mx'', ''com.sg'',
   ''com.hk'', ''com.cn'', ''com.tr'', ''com.ar'', ''com.tw'', ''com.my'', ''co.kr'', ''co.il'', ''co.id'',
   ''co.th'', ''com.pl'', ''com.ua'', ''com.ph'', ''com.vn'']"

definition registrable_domain :: "string \<Rightarrow> string option" where
  "registrable_domain host =
     (let labels = filter (\<lambda>l. l \<noteq> []) (split_on CHR ''.'' (trim_matches CHR ''.'' host)) in
      if length labels < 2 then None
      else
        let last_two = labels ! (length labels - 2) @ ''.'' @ labels ! (length labels - 1) in
        if last_two \<in> set MULTI_PART_SUFFIXES \<and> 3 \<le> length labels
        then Some (labels ! (length labels - 3) @ ''.'' @ last_two)
        else Some last_two)"

text \<open>\<^verbatim>\<open>s.find("://")\<close> and the rest of the text after it.\<close>

fun after_scheme :: "string \<Rightarrow> string option" where
  "after_scheme [] = None"
| "after_scheme (c # s) = (case strip_prefix ''://'' (c # s) of Some r \<Rightarrow> Some r | None \<Rightarrow> after_scheme s)"

definition truncate_at :: "char \<Rightarrow> string \<Rightarrow> string" where
  "truncate_at sep s = takeWhile (\<lambda>c. c \<noteq> sep) s"

definition drop_port :: "string \<Rightarrow> string" where
  "drop_port s = (case rsplit_once CHR '':'' s of
      Some (host, port) \<Rightarrow> if list_all is_ascii_digit port \<and> host \<noteq> [] then host else s
    | None \<Rightarrow> s)"

definition extract_host :: "string \<Rightarrow> string option" where
  "extract_host raw =
     (let s = to_ascii_lowercase (trim raw) in
      if s = [] then None
      else
        let s = (case after_scheme s of Some rest \<Rightarrow> rest | None \<Rightarrow> without_prefix ''mailto:'' s);
            s = (case rsplit_once CHR ''@'' s of Some (_, host) \<Rightarrow> host | None \<Rightarrow> s);
            s = truncate_at CHR ''#'' (truncate_at CHR ''?'' (truncate_at CHR ''/'' s));
            host = trim (trim_matches CHR ''.'' (drop_port s))
        in if host = [] \<or> CHR ''.'' \<notin> set host \<or> CHR '' '' \<in> set host then None else Some host)"

definition canonicalize_domain :: "string \<Rightarrow> key_namespace \<Rightarrow> canon_key option" where
  "canonicalize_domain raw namespace =
     (case extract_host raw of
        None \<Rightarrow> None
      | Some host \<Rightarrow>
          (case registrable_domain (without_prefix ''www.'' host) of
             None \<Rightarrow> None
           | Some reg \<Rightarrow>
               if is_denylisted DomainKey reg then None
               else Some \<lparr>ck_kind = DomainKey, ck_value = reg, ck_namespace = namespace\<rparr>))"

definition canonicalize_website_domain :: "string \<Rightarrow> key_namespace \<Rightarrow> canon_key option" where
  "canonicalize_website_domain raw namespace = canonicalize_domain raw namespace"

definition email_domain_key :: "string \<Rightarrow> key_namespace \<Rightarrow> canon_key option" where
  "email_domain_key raw namespace =
     (case canonicalize_email raw namespace of
        None \<Rightarrow> None
      | Some email \<Rightarrow>
          (case split_once CHR ''@'' (ck_value email) of
             None \<Rightarrow> None
           | Some (_, host) \<Rightarrow> canonicalize_domain host namespace))"

section \<open>Phone numbers\<close>

definition canonicalize_phone :: "string \<Rightarrow> canon_key option" where
  "canonicalize_phone raw =
     (let trimmed = trim raw;
          had_plus = starts_with ''+'' trimmed;
          all_digits = filter is_ascii_digit trimmed;
          (digits, intl) = (if \<not> had_plus \<and> starts_with ''00'' all_digits then (drop 2 all_digits, True)
                            else (all_digits, had_plus))
      in if length digits < 8 then None
         else
           let e164 = (if intl then ''+'' @ digits
                       else if length digits = 10 then ''+1'' @ digits
                       else if length digits = 11 \<and> starts_with ''1'' digits then ''+'' @ digits
                       else ''+'' @ digits)
           in Some \<lparr>ck_kind = PhoneKey, ck_value = e164, ck_namespace = CustomerContact\<rparr>)"

section \<open>Company names\<close>

definition LEGAL_SUFFIXES :: "string list" where
  "LEGAL_SUFFIXES =
  [''incorporated'', ''inc'', ''corporation'', ''corp'', ''company'', ''co'', ''limited'', ''ltd'', ''llc'',
   ''l.l.c'', ''llp'', ''lllp'', ''lp'', ''plc'', ''gmbh'', ''ag'', ''sa'', ''s.a'', ''nv'', ''bv'', ''ab'',
   ''as'', ''oy'', ''pty'', ''pte'', ''srl'', ''spa'', ''kg'', ''kk'', ''holdings'', ''group'']"

definition name_char :: "char \<Rightarrow> char" where
  "name_char c = (let d = char_to_ascii_lowercase c in
     if is_ascii_alphanumeric d \<or> is_whitespace d then d else CHR '' '')"

text \<open>\<^verbatim>\<open>split_whitespace\<close>: the maximal runs of characters that are not white space.\<close>

function split_whitespace :: "string \<Rightarrow> string list" where
  "split_whitespace [] = []"
| "split_whitespace (c # s) =
     (if is_whitespace c then split_whitespace s
      else (c # takeWhile (\<lambda>c. \<not> is_whitespace c) s) # split_whitespace (dropWhile (\<lambda>c. \<not> is_whitespace c) s))"
  by pat_completeness auto
termination by (relation "measure length") (auto simp: less_Suc_eq_le length_dropWhile_le)

text \<open>The \<^verbatim>\<open>while let Some(last)\<close> loop pops legal forms from the end of the tokens.\<close>

definition strip_legal :: "string list \<Rightarrow> string list" where
  "strip_legal tokens = rev (dropWhile (\<lambda>t. t \<in> set LEGAL_SUFFIXES) (rev tokens))"

definition canonicalize_name :: "string \<Rightarrow> string option" where
  "canonicalize_name raw =
     (let lowered = map name_char (trim raw);
          tokens = split_whitespace lowered
      in if tokens = [] then None
         else let tokens = strip_legal tokens in
           if tokens = [] then None else Some (join '' '' tokens))"

section \<open>The population of a field\<close>

definition INTERNAL_FIELDS :: "string list" where
  "INTERNAL_FIELDS =
  [''assignee.email'', ''assignee_email'', ''creator.email'', ''creator_email'', ''actor.email'', ''actor_email'',
   ''user.email'', ''user_email'', ''subscriber.email'', ''subscriber_email'', ''reporter.email'']"

definition namespace_for_source_field :: "string \<Rightarrow> string \<Rightarrow> key_namespace" where
  "namespace_for_source_field source field =
     (if to_ascii_lowercase field \<in> set INTERNAL_FIELDS then InternalDirectory
      else if to_ascii_lowercase source = ''linear'' then InternalDirectory
      else CustomerContact)"

section \<open>Lemmas on text\<close>

lemma dropWhile_eqI: "s = [] \<or> \<not> P (hd s) \<Longrightarrow> dropWhile P s = s"
  by (cases s) auto

lemma dropWhile_both_eqI:
  "s = [] \<or> \<not> P (hd s) \<and> \<not> P (last s) \<Longrightarrow> rev (dropWhile P (rev (dropWhile P s))) = s"
  by (auto simp: dropWhile_eqI hd_rev)

lemma set_dropWhile_both: "set (rev (dropWhile P (rev (dropWhile P s)))) \<subseteq> set s"
  unfolding set_rev using set_dropWhileD [of _ P] by (metis set_rev subsetI)

lemma trim_eqI: "s = [] \<or> \<not> is_whitespace (hd s) \<and> \<not> is_whitespace (last s) \<Longrightarrow> trim s = s"
  unfolding trim_def trim_start_def trim_end_def by (rule dropWhile_both_eqI)

lemma set_trim: "set (trim s) \<subseteq> set s"
  unfolding trim_def trim_start_def trim_end_def by (rule set_dropWhile_both)

lemma trim_end_last: "trim_end s \<noteq> [] \<Longrightarrow> \<not> is_whitespace (last (trim_end s))"
  unfolding trim_end_def last_rev by (rule hd_dropWhile) simp

lemma trim_end_prefix: "\<exists>w. s = trim_end s @ w \<and> list_all is_whitespace w"
proof -
  have "s = trim_end s @ rev (takeWhile is_whitespace (rev s))"
    unfolding trim_end_def rev_append [symmetric] takeWhile_dropWhile_id by simp
  moreover have "list_all is_whitespace (rev (takeWhile is_whitespace (rev s)))"
    by (auto simp: list_all_iff dest: set_takeWhileD)
  ultimately show ?thesis by blast
qed

lemma trim_hd: "trim s \<noteq> [] \<Longrightarrow> \<not> is_whitespace (hd (trim s))"
proof -
  assume ne: "trim s \<noteq> []"
  obtain w where w: "trim_start s = trim s @ w" using trim_end_prefix [of "trim_start s"] by (auto simp: trim_def)
  with ne have "hd (trim s) = hd (trim_start s)" "trim_start s \<noteq> []" by (metis hd_append2, auto)
  then show ?thesis unfolding trim_start_def using hd_dropWhile by metis
qed

lemma trim_last: "trim s \<noteq> [] \<Longrightarrow> \<not> is_whitespace (last (trim s))"
  unfolding trim_def by (rule trim_end_last)

lemma trim_end_append: "\<not> list_all is_whitespace b \<Longrightarrow> trim_end (a @ b) = a @ trim_end b"
  by (auto simp: trim_end_def dropWhile_append list_all_iff)

lemma set_trim_matches: "set (trim_matches c s) \<subseteq> set s"
  unfolding trim_matches_def by (rule set_dropWhile_both)

lemma trim_matches_eqI: "s = [] \<or> hd s \<noteq> c \<and> last s \<noteq> c \<Longrightarrow> trim_matches c s = s"
  unfolding trim_matches_def by (rule dropWhile_both_eqI) auto

lemma trim_matches_last: "trim_matches c s \<noteq> [] \<Longrightarrow> last (trim_matches c s) \<noteq> c"
  unfolding trim_matches_def last_rev using hd_dropWhile [of "(=) c" "rev (dropWhile ((=) c) s)"] by auto

lemma trim_matches_hd: "trim_matches c s \<noteq> [] \<Longrightarrow> hd (trim_matches c s) \<noteq> c"
proof -
  assume ne: "trim_matches c s \<noteq> []"
  let ?d = "dropWhile ((=) c) s"
  have "?d = trim_matches c s @ rev (takeWhile ((=) c) (rev ?d))"
    unfolding trim_matches_def rev_append [symmetric] by simp
  with ne have "hd (trim_matches c s) = hd ?d" "?d \<noteq> []" by (metis hd_append2, metis append_is_Nil_conv)
  then show ?thesis using hd_dropWhile [of "(=) c" s] by auto
qed

lemma trim_matches_idem: "trim_matches c (trim_matches c s) = trim_matches c s"
  by (rule trim_matches_eqI) (auto dest: trim_matches_hd trim_matches_last)

lemma lower_not_upper: "\<not> is_ascii_uppercase (char_to_ascii_lowercase c)"
  by (auto simp: char_to_ascii_lowercase_def is_ascii_uppercase_def)

lemma set_lower: "c \<in> set (to_ascii_lowercase s) \<Longrightarrow> \<not> is_ascii_uppercase c"
  by (auto simp: to_ascii_lowercase_def lower_not_upper)

lemma lower_eqI: "(\<And>c. c \<in> set s \<Longrightarrow> \<not> is_ascii_uppercase c) \<Longrightarrow> to_ascii_lowercase s = s"
  by (auto simp: to_ascii_lowercase_def char_to_ascii_lowercase_def intro: map_idI)

lemma set_without_prefix: "set (without_prefix p s) \<subseteq> set s"
  by (auto simp: without_prefix_def split: option.splits)

lemma without_prefix_eqI: "\<not> starts_with p s \<Longrightarrow> without_prefix p s = s"
  by (auto simp: without_prefix_def starts_with_def split: option.splits)

section \<open>Canonical e-mail addresses\<close>

text \<open>What an accepted address was split into.\<close>

lemma canonicalize_email_Some:
  assumes "canonicalize_email raw ns = Some k"
  obtains local domain where "k = \<lparr>ck_kind = EmailKey, ck_value = local @ ''@'' @ domain, ck_namespace = ns\<rparr>"
    "local \<noteq> []" "CHR ''@'' \<notin> set local" "CHR ''+'' \<notin> set local" "\<not> is_whitespace (hd local)"
    "CHR ''@'' \<notin> set domain" "CHR ''.'' \<in> set domain" "CHR '' '' \<notin> set domain" "trim_matches CHR ''.'' domain = domain"
    "\<forall>c \<in> set (local @ domain). \<not> is_ascii_uppercase c" "\<not> is_denylisted EmailKey (local @ ''@'' @ domain)"
proof -
  let ?s = "trim (without_prefix ''mailto:'' (to_ascii_lowercase (trim raw)))"
  obtain lr dr where sp: "split_once CHR ''@'' ?s = Some (lr, dr)"
    using assms by (auto simp: canonicalize_email_def Let_def split: option.splits)
  let ?local = "case split_once CHR ''+'' lr of Some (base, _) \<Rightarrow> base | None \<Rightarrow> lr"
  let ?domain = "trim_matches CHR ''.'' dr"
  from sp assms have c: "lr \<noteq> []" "CHR ''@'' \<notin> set dr" "?local \<noteq> []" "CHR ''.'' \<in> set ?domain" "CHR '' '' \<notin> set ?domain"
    "\<not> is_denylisted EmailKey (?local @ ''@'' @ ?domain)"
    "k = \<lparr>ck_kind = EmailKey, ck_value = ?local @ ''@'' @ ?domain, ck_namespace = ns\<rparr>"
    by (auto simp: canonicalize_email_def Let_def split: if_splits)
  from sp have s: "?s = lr @ CHR ''@'' # dr" and lr: "CHR ''@'' \<notin> set lr" by (auto simp: split_once_Some)
  obtain rest where l: "lr = ?local @ rest" and plus: "CHR ''+'' \<notin> set ?local"
    by (cases "split_once CHR ''+'' lr") (auto simp: split_once_Some split_once_None split_once_append)
  have hd: "hd ?s = hd ?local" unfolding s using l c(3) by (metis append_assoc hd_append2)
  have up: "set ?s \<subseteq> set (to_ascii_lowercase (trim raw))" using set_trim set_without_prefix by (rule order_trans)
  have "set ?local \<subseteq> set ?s" "set ?domain \<subseteq> set ?s"
    unfolding s using l set_trim_matches [of "CHR ''.''" dr] by (metis Un_upper1 set_append order_trans, auto)
  with up have "\<forall>c \<in> set (?local @ ?domain). \<not> is_ascii_uppercase c"
    using set_lower unfolding set_append by blast
  moreover have "\<not> is_whitespace (hd ?local)" using trim_hd [of "without_prefix ''mailto:'' (to_ascii_lowercase (trim raw))"]
    unfolding hd using s by (metis append_is_Nil_conv list.distinct(1))
  moreover have "CHR ''@'' \<notin> set ?local" using lr l by (metis UnCI set_append)
  moreover have "CHR ''@'' \<notin> set ?domain" using c(2) set_trim_matches by blast
  ultimately show ?thesis using that [OF c(7) c(3)] plus c(4,5,6) trim_matches_idem by blast
qed

lemma dotted_not_white: "CHR ''.'' \<in> set domain \<Longrightarrow> \<not> list_all is_whitespace domain"
  by (auto simp: list_all_iff is_whitespace_def intro!: bexI [of _ "CHR ''.''"])

text \<open>
  A canonical e-mail key has one \<^verbatim>\<open>@\<close>, a local part without sub-address, a dotted domain without spaces,
  no upper case, and neither a role mailbox nor a denied domain. Canonicalising it again, in whatever
  namespace, returns the same value, unless it still begins with \<^verbatim>\<open>mailto:\<close> or ends in white space.
\<close>

theorem canonical_email_sound:
  assumes "canonicalize_email raw ns = Some k"
  shows "\<exists>local domain. ck_value k = local @ ''@'' @ domain \<and> local \<noteq> [] \<and> set local \<inter> {CHR ''@'', CHR ''+''} = {} \<and>
      CHR ''@'' \<notin> set domain \<and> CHR ''.'' \<in> set domain \<and> CHR '' '' \<notin> set domain \<and>
      list_all (\<lambda>c. \<not> is_ascii_uppercase c) (ck_value k) \<and>
      local \<notin> set ROLE_LOCALS \<and> \<not> is_denied_domain (trim_end domain) \<and> ck_kind k = EmailKey \<and> ck_namespace k = ns"
    and "\<not> starts_with ''mailto:'' (ck_value k) \<Longrightarrow> \<not> is_whitespace (last (ck_value k)) \<Longrightarrow>
      canonicalize_email (ck_value k) ns' = Some (k\<lparr>ck_namespace := ns'\<rparr>)"
proof -
  from assms obtain local domain where f: "k = \<lparr>ck_kind = EmailKey, ck_value = local @ ''@'' @ domain, ck_namespace = ns\<rparr>"
    "local \<noteq> []" "CHR ''@'' \<notin> set local" "CHR ''+'' \<notin> set local" "\<not> is_whitespace (hd local)"
    "CHR ''@'' \<notin> set domain" "CHR ''.'' \<in> set domain" "CHR '' '' \<notin> set domain" "trim_matches CHR ''.'' domain = domain"
    "\<forall>c \<in> set (local @ domain). \<not> is_ascii_uppercase c" "\<not> is_denylisted EmailKey (local @ ''@'' @ domain)"
    by (rule canonicalize_email_Some)
  let ?v = "local @ ''@'' @ domain"
  have at: "\<not> is_ascii_uppercase CHR ''@''" by (simp add: is_ascii_uppercase_def)
  then have up: "\<And>c. c \<in> set ?v \<Longrightarrow> \<not> is_ascii_uppercase c" using f(10) by auto
  then have up': "list_all (\<lambda>c. \<not> is_ascii_uppercase c) ?v" by (simp only: list_all_iff) blast
  have low: "to_ascii_lowercase ?v = ?v" using up by (rule lower_eqI)
  have te: "trim_end ?v = (local @ ''@'') @ trim_end domain"
    unfolding append_assoc [symmetric] by (rule trim_end_append) (rule dotted_not_white [OF f(7)])
  have ts: "trim_start ?v = ?v" using f(2,5) unfolding trim_start_def by (intro dropWhile_eqI) simp
  have "set (trim_end domain) \<subseteq> set domain" using trim_end_prefix [of domain] by (metis Un_upper1 set_append)
  then have "to_ascii_lowercase (trim ?v) = local @ CHR ''@'' # trim_end domain"
    unfolding trim_def ts te using at f(10) by (intro trans [OF lower_eqI]) auto
  then have nd: "local \<notin> set ROLE_LOCALS \<and> \<not> is_denied_domain (trim_end domain)"
    using f(11) split_once_append [OF f(3), of "trim_end domain"] split_once_None [THEN iffD2, OF f(4)] by (simp add: Let_def)
  show "\<exists>local domain. ck_value k = local @ ''@'' @ domain \<and> local \<noteq> [] \<and> set local \<inter> {CHR ''@'', CHR ''+''} = {} \<and>
      CHR ''@'' \<notin> set domain \<and> CHR ''.'' \<in> set domain \<and> CHR '' '' \<notin> set domain \<and>
      list_all (\<lambda>c. \<not> is_ascii_uppercase c) (ck_value k) \<and>
      local \<notin> set ROLE_LOCALS \<and> \<not> is_denied_domain (trim_end domain) \<and> ck_kind k = EmailKey \<and> ck_namespace k = ns"
    using f(1-4,6-8) nd up' by (intro exI [of _ local] exI [of _ domain]) (simp del: list_all_append)
  assume m: "\<not> starts_with ''mailto:'' (ck_value k)" and w: "\<not> is_whitespace (last (ck_value k))"
  have t: "trim ?v = ?v" using f(1,2,5) w by (intro trim_eqI) simp
  have sp: "split_once CHR ''@'' ?v = Some (local, domain)" using f(3) by (simp add: split_once_append)
  have wp: "without_prefix ''mailto:'' ?v = ?v" using m f(1) by (simp add: without_prefix_eqI)
  have "canonicalize_email ?v ns' = Some \<lparr>ck_kind = EmailKey, ck_value = ?v, ck_namespace = ns'\<rparr>"
    unfolding canonicalize_email_def Let_def t low wp sp option.case prod.case split_once_None [THEN iffD2, OF f(4)] f(9)
    using f(2,6,7,8,11) by (auto simp del: is_denylisted.simps)
  then show "canonicalize_email (ck_value k) ns' = Some (k\<lparr>ck_namespace := ns'\<rparr>)" using f(1) by simp
qed

theorem canonical_email_sound_witness:
  "canonicalize_email '' MailTo:Jane.Doe+news@Mail.Acme.dev. '' CustomerContact =
     Some \<lparr>ck_kind = EmailKey, ck_value = ''jane.doe@mail.acme.dev'', ck_namespace = CustomerContact\<rparr> \<and>
   canonicalize_email ''jane.doe@mail.acme.dev'' InternalDirectory =
     Some \<lparr>ck_kind = EmailKey, ck_value = ''jane.doe@mail.acme.dev'', ck_namespace = InternalDirectory\<rparr>"
proof -
  have a: "canonicalize_email '' MailTo:Jane.Doe+news@Mail.Acme.dev. '' CustomerContact =
     Some \<lparr>ck_kind = EmailKey, ck_value = ''jane.doe@mail.acme.dev'', ck_namespace = CustomerContact\<rparr>" by code_simp
  have b: "\<not> starts_with ''mailto:'' ''jane.doe@mail.acme.dev''" "\<not> is_whitespace (last ''jane.doe@mail.acme.dev'')"
    by code_simp+
  from canonical_email_sound(2) [OF a, of InternalDirectory] a b show ?thesis by simp
qed

text \<open>Two addresses on which canonicalising twice gives another key.\<close>

lemma canonical_email_unstable:
  "map_option ck_value (canonicalize_email ''mailto:mailto:jane@acme.dev'' ns) = Some ''mailto:jane@acme.dev''"
  "map_option ck_value (canonicalize_email ''mailto:jane@acme.dev'' ns) = Some ''jane@acme.dev''"
  by code_simp+

section \<open>Registrable domains\<close>

definition host_labels :: "string \<Rightarrow> string list" where
  "host_labels host = filter (\<lambda>l. l \<noteq> []) (split_on CHR ''.'' host)"

lemma split_on_append: "split_on d (a @ d # b) = split_on d a @ split_on d b"
  by (induction a) (auto split: list.splits)

lemma host_labels_append: "host_labels (a @ ''.'' @ b) = host_labels a @ host_labels b"
  by (simp add: host_labels_def split_on_append)

lemma host_labels_drop_dots: "host_labels (dropWhile ((=) CHR ''.'') s) = host_labels s"
  by (induction s) (auto simp: host_labels_def)

lemma host_labels_dots: "host_labels (s @ replicate n CHR ''.'') = host_labels s"
proof (induction n)
  case (Suc n)
  have "s @ replicate (Suc n) CHR ''.'' = (s @ replicate n CHR ''.'') @ CHR ''.'' # []"
    by (simp add: replicate_append_same)
  then show ?case by (simp only: host_labels_def split_on_append filter_append) (simp add: Suc host_labels_def [symmetric])
qed simp

lemma host_labels_trim: "host_labels (trim_matches CHR ''.'' s) = host_labels s"
proof -
  let ?d = "dropWhile ((=) CHR ''.'') s"
  have w: "takeWhile ((=) CHR ''.'') (rev ?d) = replicate (length (takeWhile ((=) CHR ''.'') (rev ?d))) CHR ''.''"
    by (rule replicate_eqI) (auto dest: set_takeWhileD)
  have "?d = trim_matches CHR ''.'' s @ rev (takeWhile ((=) CHR ''.'') (rev ?d))"
    unfolding trim_matches_def rev_append [symmetric] takeWhile_dropWhile_id by simp
  then have "?d = trim_matches CHR ''.'' s @ replicate (length (takeWhile ((=) CHR ''.'') (rev ?d))) CHR ''.''"
    by (metis w rev_replicate)
  then have "host_labels ?d = host_labels (trim_matches CHR ''.'' s)" by (metis host_labels_dots)
  then show ?thesis by (simp add: host_labels_drop_dots)
qed

lemma host_labels_wf: "l \<in> set (host_labels h) \<Longrightarrow> l \<noteq> [] \<and> CHR ''.'' \<notin> set l"
  by (auto simp: host_labels_def dest: split_on_no_sep)

lemma host_labels_chars: "l \<in> set (host_labels h) \<Longrightarrow> set l \<subseteq> set h"
proof -
  have "l \<in> set (split_on d s) \<Longrightarrow> set l \<subseteq> set s" for d s
    by (induction s arbitrary: l) (fastforce split: if_splits list.splits)+
  then show "l \<in> set (host_labels h) \<Longrightarrow> set l \<subseteq> set h" by (auto simp: host_labels_def)
qed

lemma host_labels_single: "l \<noteq> [] \<Longrightarrow> CHR ''.'' \<notin> set l \<Longrightarrow> host_labels l = [l]"
proof -
  have "CHR ''.'' \<notin> set l \<Longrightarrow> split_on CHR ''.'' l = [l]" by (induction l) auto
  then show "l \<noteq> [] \<Longrightarrow> CHR ''.'' \<notin> set l \<Longrightarrow> host_labels l = [l]" by (simp add: host_labels_def)
qed

lemma registrable_domain_alt:
  "registrable_domain host = (let labels = host_labels host in
      if length labels < 2 then None
      else let last_two = labels ! (length labels - 2) @ ''.'' @ labels ! (length labels - 1) in
        if last_two \<in> set MULTI_PART_SUFFIXES \<and> 3 \<le> length labels
        then Some (labels ! (length labels - 3) @ ''.'' @ last_two)
        else Some last_two)"
  unfolding registrable_domain_def host_labels_def [symmetric] host_labels_trim ..

lemma registrable_two:
  assumes "host_labels h = pre @ [a, b]" "pre = [] \<or> a @ ''.'' @ b \<notin> set MULTI_PART_SUFFIXES"
  shows "registrable_domain h = Some (a @ ''.'' @ b)"
  using assms by (auto simp: registrable_domain_alt Let_def nth_append)

lemma registrable_three:
  assumes "host_labels h = pre @ [c, a, b]" "a @ ''.'' @ b \<in> set MULTI_PART_SUFFIXES"
  shows "registrable_domain h = Some (c @ ''.'' @ a @ ''.'' @ b)"
  using assms by (auto simp: registrable_domain_alt Let_def nth_append)

lemma registrable_domain_cases:
  assumes "registrable_domain h = Some r"
  obtains pre a b where "host_labels h = pre @ [a, b]" "r = a @ ''.'' @ b" "host_labels r = [a, b]"
      "pre = [] \<or> r \<notin> set MULTI_PART_SUFFIXES"
    | pre c a b where "host_labels h = pre @ [c, a, b]" "r = c @ ''.'' @ a @ ''.'' @ b" "host_labels r = [c, a, b]"
      "a @ ''.'' @ b \<in> set MULTI_PART_SUFFIXES"
proof -
  have "\<not> length (host_labels h) < 2" using assms by (auto simp: registrable_domain_alt Let_def)
  then obtain pre a b where l: "host_labels h = pre @ [a, b]"
    by (metis One_nat_def Suc_1 append.assoc append_Cons append_Nil length_Cons less_Suc_eq list.size(3) rev_exhaust length_append_singleton not_less_eq zero_less_Suc)
  have wf: "x \<in> set (host_labels h) \<Longrightarrow> host_labels x = [x]" for x using host_labels_wf host_labels_single by blast
  show thesis
  proof (cases "pre = [] \<or> a @ ''.'' @ b \<notin> set MULTI_PART_SUFFIXES")
    case True
    with assms registrable_two [OF l] have "r = a @ ''.'' @ b" by simp
    with True l wf show ?thesis by (intro that(1) [of pre a b]) (simp_all add: host_labels_append [simplified])
  next
    case False
    then obtain p c where "pre = p @ [c]" by (cases pre rule: rev_cases) auto
    with l have l3: "host_labels h = p @ [c, a, b]" by simp
    with False assms registrable_three [OF l3] have "r = c @ ''.'' @ a @ ''.'' @ b" by simp
    with False l3 wf show ?thesis by (intro that(2) [of p c a b]) (simp_all add: host_labels_append [simplified])
  qed
qed

text \<open>Reducing a host is idempotent, and every subdomain of a reduced host that is not itself a public suffix reduces to it.\<close>

lemma registrable_domain_idem: "registrable_domain h = Some r \<Longrightarrow> registrable_domain r = Some r"
  by (erule registrable_domain_cases) (auto intro: registrable_two [where pre = "[]", simplified] registrable_three [where pre = "[]", simplified])

lemma registrable_domain_subdomain:
  assumes "registrable_domain h = Some r" "r \<notin> set MULTI_PART_SUFFIXES"
  shows "registrable_domain (sub @ ''.'' @ r) = Some r"
  using assms(1)
proof (cases rule: registrable_domain_cases)
  case (1 pre a b)
  then show ?thesis using assms(2) registrable_two [of "sub @ ''.'' @ r" "host_labels sub" a b]
    by (simp add: host_labels_append [simplified])
next
  case (2 pre c a b)
  then show ?thesis using registrable_three [of "sub @ ''.'' @ r" "host_labels sub" c a b]
    by (simp add: host_labels_append [simplified])
qed

section \<open>Canonical domains\<close>

lemma registrable_domain_chars: "registrable_domain h = Some r \<Longrightarrow> set r \<subseteq> insert CHR ''.'' (set h)"
  by (erule registrable_domain_cases) (use host_labels_chars [of _ h] in fastforce)+

lemma set_truncate_at: "set (truncate_at sep s) \<subseteq> set s" "sep \<notin> set (truncate_at sep s)"
  by (auto simp: truncate_at_def dest: set_takeWhileD)

lemma set_drop_port: "set (drop_port s) \<subseteq> set s"
  by (auto simp: drop_port_def rsplit_once_Some split: option.splits if_splits)

lemma set_after_scheme: "after_scheme s = Some r \<Longrightarrow> set r \<subseteq> set s"
  by (induction s) (auto simp: strip_prefix_Some split: option.splits if_splits)

lemma rsplit_once_None: "rsplit_once d s = None \<longleftrightarrow> d \<notin> set s"
  by (simp add: rsplit_once_def split_once_None)

lemma extract_host_chars:
  assumes "extract_host raw = Some host"
  shows "set host \<inter> {CHR ''@'', CHR ''/'', CHR ''?'', CHR ''#'', CHR '' ''} = {}" "\<forall>c \<in> set host. \<not> is_ascii_uppercase c"
proof -
  define low where "low = to_ascii_lowercase (trim raw)"
  define s1 where "s1 = (case after_scheme low of Some rest \<Rightarrow> rest | None \<Rightarrow> without_prefix ''mailto:'' low)"
  define s2 where "s2 = (case rsplit_once CHR ''@'' s1 of Some (_, h) \<Rightarrow> h | None \<Rightarrow> s1)"
  define s3 where "s3 = truncate_at CHR ''#'' (truncate_at CHR ''?'' (truncate_at CHR ''/'' s2))"
  have host: "host = trim (trim_matches CHR ''.'' (drop_port s3))" "CHR '' '' \<notin> set host"
    using assms unfolding extract_host_def Let_def low_def [symmetric] s1_def [symmetric] s2_def [symmetric] s3_def [symmetric]
    by (auto split: if_splits)
  have 1: "set s1 \<subseteq> set low" using set_after_scheme set_without_prefix by (auto simp: s1_def split: option.splits)
  have 2: "set s2 \<subseteq> set s1 \<and> CHR ''@'' \<notin> set s2"
    unfolding s2_def by (auto split: option.splits simp: rsplit_once_Some rsplit_once_None)
  have 3: "set s3 \<subseteq> set s2" "set s3 \<inter> {CHR ''/'', CHR ''?'', CHR ''#''} = {}"
    unfolding s3_def using set_truncate_at by (blast, blast)
  have 4: "set host \<subseteq> set s3" unfolding host(1) using set_trim set_trim_matches set_drop_port by blast
  show "set host \<inter> {CHR ''@'', CHR ''/'', CHR ''?'', CHR ''#'', CHR '' ''} = {}" using 2 3 4 host(2) by blast
  show "\<forall>c \<in> set host. \<not> is_ascii_uppercase c" using 1 2 3(1) 4 set_lower unfolding low_def by blast
qed

text \<open>
  A canonical domain key is its own registrable domain, lower case, free of scheme, path, user and space
  characters, and not denied.
\<close>

lemma canonical_domain_sound:
  assumes "canonicalize_domain raw ns = Some k"
  shows "registrable_domain (ck_value k) = Some (ck_value k)" "\<not> is_denylisted DomainKey (ck_value k)"
    "set (ck_value k) \<inter> {CHR ''@'', CHR ''/'', CHR ''?'', CHR ''#'', CHR '' ''} = {}"
    "\<forall>c \<in> set (ck_value k). \<not> is_ascii_uppercase c"
proof -
  obtain host reg where h: "extract_host raw = Some host" "registrable_domain (without_prefix ''www.'' host) = Some reg"
    "\<not> is_denylisted DomainKey reg" "ck_value k = reg"
    using assms by (auto simp: canonicalize_domain_def split: option.splits if_splits)
  show "registrable_domain (ck_value k) = Some (ck_value k)" "\<not> is_denylisted DomainKey (ck_value k)"
    unfolding h(4) using h(2,3) by (blast intro: registrable_domain_idem)+
  have "set reg \<subseteq> insert CHR ''.'' (set host)" using registrable_domain_chars [OF h(2)] set_without_prefix by blast
  then show "set (ck_value k) \<inter> {CHR ''@'', CHR ''/'', CHR ''?'', CHR ''#'', CHR '' ''} = {}"
    "\<forall>c \<in> set (ck_value k). \<not> is_ascii_uppercase c"
    unfolding h(4) using extract_host_chars [OF h(1)] by (auto simp: is_ascii_uppercase_def)
qed

text \<open>A public suffix by itself is accepted as a key, and a site on \<^verbatim>\<open>www\<close> below one reduces to it.\<close>

lemma bare_suffix_accepted:
  "map_option ck_value (canonicalize_domain ''https://www.co.uk/about'' ns) = Some ''co.uk''"
  by code_simp

section \<open>Canonical phone numbers and names\<close>

lemma canonical_phone_sound:
  assumes "canonicalize_phone raw = Some k"
  shows "\<exists>ds. ck_value k = CHR ''+'' # ds \<and> list_all is_ascii_digit ds \<and> 8 \<le> length ds"
    "canonicalize_phone (ck_value k) = Some k"
proof -
  from assms have "\<exists>ds. k = \<lparr>ck_kind = PhoneKey, ck_value = CHR ''+'' # ds, ck_namespace = CustomerContact\<rparr> \<and>
      list_all is_ascii_digit ds \<and> 8 \<le> length ds"
    by (auto simp: canonicalize_phone_def Let_def list_all_iff is_ascii_digit_def [of "CHR ''1''"]
        split: if_splits prod.splits dest!: in_set_dropD)
  then obtain ds where k: "k = \<lparr>ck_kind = PhoneKey, ck_value = CHR ''+'' # ds, ck_namespace = CustomerContact\<rparr>"
    "list_all is_ascii_digit ds" "8 \<le> length ds" by blast
  show "\<exists>ds. ck_value k = CHR ''+'' # ds \<and> list_all is_ascii_digit ds \<and> 8 \<le> length ds" using k by auto
  have "ds \<noteq> []" "\<not> is_whitespace (last ds)"
    using k(2,3) by (cases ds rule: rev_cases; auto simp: is_whitespace_def is_ascii_digit_def)+
  then have "trim (CHR ''+'' # ds) = CHR ''+'' # ds" by (intro trim_eqI) (auto simp: is_whitespace_def)
  moreover have "filter is_ascii_digit (CHR ''+'' # ds) = ds"
    using k(2) by (simp add: is_ascii_digit_def [of "CHR ''+''"] list_all_iff filter_id_conv)
  ultimately show "canonicalize_phone (ck_value k) = Some k"
    using k by (simp add: canonicalize_phone_def Let_def starts_with_def)
qed

text \<open>The dotted legal forms of the list can never match: punctuation has become space before the tokens are cut.\<close>

lemma dotted_legal_form_kept:
  "canonicalize_name ''Acme L.L.C.'' = Some ''acme l l c''" "canonicalize_name ''Acme LLC'' = Some ''acme''"
  by code_simp+

lemma namespace_roundtrip: "key_namespace_from_stored (key_namespace_as_str ns) = ns"
  by (cases ns) (simp_all add: key_namespace_from_stored_def)

end
