(* ===== verification/Tier1_Producers.thy ===== *)
theory Tier1_Producers
  imports Canon Database "HOL-Library.Option_ord"
begin

text \<open>
  The exact-key producers of the entity resolver (\<^verbatim>\<open>verity-storage/src/resolve/producers.rs\<close>) and the
  evidence-ledger operations they write through (\<^verbatim>\<open>postgres.rs\<close>): current facts are grouped by entity,
  mapped to foreign keys, e-mail addresses and external ids, paired, and inserted under a name-based
  evidence id. A \<^verbatim>\<open>HashMap\<close> is iterated in an order the code does not choose: its groups are listed in order
  of first insertion and passed through a reordering that is a parameter (\<open>hash_orders\<close>). The version-5
  UUID and the printing of UUIDs and floats are parameters too. The lemmas show which pairs become evidence,
  that the population fence holds, and that a second run inserts nothing, whatever the orders.
\<close>

section \<open>References and input records\<close>

definition make_ref :: "string \<Rightarrow> string \<Rightarrow> string" where
  "make_ref source entity_id = source @ '':'' @ entity_id"

definition ordered :: "string \<Rightarrow> string \<Rightarrow> string \<times> string" where
  "ordered a b = (if a \<le> b then (a, b) else (b, a))"

record crm_contact_fact =
  cf_source :: string
  cf_entity_id :: string
  cf_parent_kind :: string
  cf_parent_id :: string
  cf_evidence_l0_ref :: "string option"

record email_fact =
  ef_source :: string
  ef_entity_id :: string
  ef_email :: string
  ef_namespace :: key_namespace
  ef_evidence_l0_ref :: "string option"

record external_id_fact =
  xf_source :: string
  xf_entity_id :: string
  xf_id_kind :: string
  xf_id_value :: string
  xf_evidence_l0_ref :: "string option"

section \<open>Grouping\<close>

text \<open>\<^verbatim>\<open>groups.entry(k).or_default().push(v)\<close>, over the facts that are not skipped.\<close>

fun push_entry :: "'k \<Rightarrow> 'v \<Rightarrow> ('k \<times> 'v list) list \<Rightarrow> ('k \<times> 'v list) list" where
  "push_entry k v [] = [(k, [v])]"
| "push_entry k v ((k', vs) # gs) = (if k = k' then (k', vs @ [v]) # gs else (k', vs) # push_entry k v gs)"

definition group_entries :: "('a \<Rightarrow> ('k \<times> 'v) option) \<Rightarrow> 'a list \<Rightarrow> ('k \<times> 'v list) list" where
  "group_entries entry xs =
     foldl (\<lambda>gs x. case entry x of None \<Rightarrow> gs | Some (k, v) \<Rightarrow> push_entry k v gs) [] xs"

text \<open>\<^verbatim>\<open>dedup_by\<close> drops an element whose key equals the last kept one's.\<close>

fun dedup_by :: "('v \<Rightarrow> 'k) \<Rightarrow> 'v list \<Rightarrow> 'v list" where
  "dedup_by key [] = []"
| "dedup_by key [x] = [x]"
| "dedup_by key (x # y # ys) = (if key y = key x then dedup_by key (x # ys) else x # dedup_by key (y # ys))"

text \<open>The index pairs \<open>i < j\<close> of a list, row by row.\<close>

fun pairs :: "'v list \<Rightarrow> ('v \<times> 'v) list" where
  "pairs [] = []"
| "pairs (x # xs) = map (Pair x) xs @ pairs xs"

type_synonym group_member = "string \<times> string option"

definition member_pairs :: "group_member list \<Rightarrow> (group_member \<times> group_member) list" where
  "member_pairs members =
     (let ms = dedup_by fst (sort_key fst members) in if length ms < 2 then [] else pairs ms)"

text \<open>The orders in which the four hash maps of a run are iterated.\<close>

record hash_orders =
  ho_emails :: "((key_namespace \<times> string) \<times> group_member list) list \<Rightarrow> ((key_namespace \<times> string) \<times> group_member list) list"
  ho_ids :: "((string \<times> string) \<times> group_member list) list \<Rightarrow> ((string \<times> string) \<times> group_member list) list"
  ho_namespaces :: "(string \<times> email_fact list) list \<Rightarrow> (string \<times> email_fact list) list"
  ho_kinds :: "(string \<times> external_id_fact list) list \<Rightarrow> (string \<times> external_id_fact list) list"

section \<open>The producers\<close>

definition crm_fk_write :: "tenant_id \<Rightarrow> crm_contact_fact \<Rightarrow> evidence_write option" where
  "crm_fk_write tenant f =
     (let parent_id = trim (cf_parent_id f); child_id = trim (cf_entity_id f) in
      if parent_id = [] \<or> child_id = [] \<or> trim (cf_source f) = [] then None
      else
        let child_ref = make_ref (cf_source f) child_id; parent_ref = make_ref (cf_source f) parent_id in
        if child_ref = parent_ref then None
        else
          let (left_ref, right_ref) = ordered child_ref parent_ref in
          Some \<lparr>ew_tenant_id = tenant, ew_left_ref = left_ref, ew_right_ref = right_ref, ew_tier = 1,
            ew_method = ''crm_fk'', ew_key_value = Some (trim (cf_parent_kind f) @ '':'' @ parent_id),
            ew_key_namespace = None, ew_score = None, ew_evidence_l0_ref = cf_evidence_l0_ref f, ew_polarity = 1\<rparr>)"

definition tier1_crm_fk_evidence :: "tenant_id \<Rightarrow> crm_contact_fact list \<Rightarrow> evidence_write list" where
  "tier1_crm_fk_evidence tenant facts = List.map_filter (crm_fk_write tenant) facts"

definition is_tenant_denied :: "canon_key \<Rightarrow> string list \<Rightarrow> bool" where
  "is_tenant_denied key denylist = list_ex (\<lambda>d. eq_ignore_ascii_case d (ck_value key)) denylist"

definition email_entry :: "string list \<Rightarrow> email_fact \<Rightarrow> ((key_namespace \<times> string) \<times> group_member) option" where
  "email_entry denylist f =
     (if trim (ef_source f) = [] \<or> trim (ef_entity_id f) = [] then None
      else case canonicalize_email (ef_email f) (ef_namespace f) of
        None \<Rightarrow> None
      | Some key \<Rightarrow>
          if is_tenant_denied key denylist then None
          else Some ((ck_namespace key, ck_value key),
                     (make_ref (trim (ef_source f)) (trim (ef_entity_id f)), ef_evidence_l0_ref f)))"

definition exact_write :: "tenant_id \<Rightarrow> string \<Rightarrow> string \<Rightarrow> string \<Rightarrow> group_member \<times> group_member \<Rightarrow> evidence_write" where
  "exact_write tenant method value namespace p = (case p of (x, y) \<Rightarrow>
     let (left_ref, right_ref) = ordered (fst x) (fst y) in
     \<lparr>ew_tenant_id = tenant, ew_left_ref = left_ref, ew_right_ref = right_ref, ew_tier = 1, ew_method = method,
      ew_key_value = Some value, ew_key_namespace = Some namespace, ew_score = None,
      ew_evidence_l0_ref = (case snd x of None \<Rightarrow> snd y | Some l \<Rightarrow> Some l), ew_polarity = 1\<rparr>)"

definition tier1_email_within_namespace_evidence ::
  "hash_orders \<Rightarrow> tenant_id \<Rightarrow> email_fact list \<Rightarrow> string list \<Rightarrow> evidence_write list" where
  "tier1_email_within_namespace_evidence ho tenant facts denylist =
     sort_key (\<lambda>w. (ew_left_ref w, ew_right_ref w, ew_key_value w))
       (concat (map (\<lambda>((namespace, email), members).
            map (exact_write tenant ''email_exact'' email (key_namespace_as_str namespace)) (member_pairs members))
          (ho_emails ho (group_entries (email_entry denylist) facts))))"

definition external_id_entry :: "string list \<Rightarrow> external_id_fact \<Rightarrow> ((string \<times> string) \<times> group_member) option" where
  "external_id_entry denylist f =
     (let id_value = trim (xf_id_value f); id_kind = trim (xf_id_kind f) in
      if id_value = [] \<or> id_kind = [] \<or> trim (xf_source f) = [] \<or> trim (xf_entity_id f) = [] then None
      else if list_ex (\<lambda>d. eq_ignore_ascii_case d id_value) denylist then None
      else Some ((id_kind, id_value), (make_ref (trim (xf_source f)) (trim (xf_entity_id f)), xf_evidence_l0_ref f)))"

definition tier1_external_id_evidence ::
  "hash_orders \<Rightarrow> tenant_id \<Rightarrow> external_id_fact list \<Rightarrow> string list \<Rightarrow> evidence_write list" where
  "tier1_external_id_evidence ho tenant facts denylist =
     sort_key (\<lambda>w. (ew_left_ref w, ew_right_ref w, ew_key_namespace w))
       (concat (map (\<lambda>((id_kind, id_value), members).
            map (exact_write tenant ''external_id'' id_value id_kind) (member_pairs members))
          (ho_ids ho (group_entries (external_id_entry denylist) facts))))"

definition account_domain_key :: "string \<Rightarrow> key_namespace \<Rightarrow> canon_key option" where
  "account_domain_key raw namespace =
     (case canonicalize_domain raw namespace of
        None \<Rightarrow> None
      | Some k \<Rightarrow> if is_denylisted DomainKey (ck_value k) then None else Some k)"

section \<open>The ledger\<close>

record ledger =
  lg_evidence :: "evidence_row list"
  lg_config :: "entity_resolution_config list"

definition evidence_row_of :: "uuid \<Rightarrow> instant \<Rightarrow> evidence_write \<Rightarrow> evidence_row" where
  "evidence_row_of i now w =
     \<lparr>ev_evidence_id = i, ev_tenant_id = ew_tenant_id w, ev_left_ref = ew_left_ref w, ev_right_ref = ew_right_ref w,
      ev_tier = ew_tier w, ev_method = ew_method w, ev_key_value = ew_key_value w,
      ev_key_namespace = ew_key_namespace w, ev_score = ew_score w, ev_evidence_l0_ref = ew_evidence_l0_ref w,
      ev_polarity = ew_polarity w, ev_valid_from = now, ev_valid_to = None, ev_superseded_by = None\<rparr>"

definition insert_evidence ::
  "uuid \<Rightarrow> instant \<Rightarrow> evidence_write \<Rightarrow> database \<Rightarrow> ledger \<Rightarrow> storage_error + (evidence_row \<times> ledger)" where
  "insert_evidence i now w db lg =
     (if ew_tenant_id w \<notin> set (db_tenants db) then Inl (constraint_error ''entity_evidence_tenant_id_fkey'')
      else if list_ex (\<lambda>r. ev_evidence_id r = i) (lg_evidence lg) then Inl (constraint_error ''entity_evidence_pkey'')
      else let row = evidence_row_of i now w in Inr (row, lg\<lparr>lg_evidence := lg_evidence lg @ [row]\<rparr>))"

definition insert_evidence_with_id ::
  "uuid \<Rightarrow> instant \<Rightarrow> evidence_write \<Rightarrow> database \<Rightarrow> ledger \<Rightarrow> storage_error + (bool \<times> ledger)" where
  "insert_evidence_with_id i now w db lg =
     (if list_ex (\<lambda>r. ev_evidence_id r = i) (lg_evidence lg) then Inr (False, lg)
      else if ew_tenant_id w \<notin> set (db_tenants db) then Inl (constraint_error ''entity_evidence_tenant_id_fkey'')
      else Inr (True, lg\<lparr>lg_evidence := lg_evidence lg @ [evidence_row_of i now w]\<rparr>))"

definition retract_evidence ::
  "instant \<Rightarrow> tenant_id \<Rightarrow> uuid \<Rightarrow> uuid option \<Rightarrow> ledger \<Rightarrow> storage_error + (nat \<times> ledger)" where
  "retract_evidence now t i superseded_by lg =
     (let P = (\<lambda>r. ev_tenant_id r = t \<and> ev_evidence_id r = i \<and> ev_valid_to r = None) in
      if list_ex P (lg_evidence lg) \<and> (case superseded_by of None \<Rightarrow> False | Some j \<Rightarrow> j \<notin> ev_evidence_id ` set (lg_evidence lg))
      then Inl (constraint_error ''entity_evidence_superseded_by_fkey'')
      else Inr (rows_affected P (lg_evidence lg),
        lg\<lparr>lg_evidence := update_where P (\<lambda>r. r\<lparr>ev_valid_to := Some now,
          ev_superseded_by := (case superseded_by of None \<Rightarrow> ev_superseded_by r | Some j \<Rightarrow> Some j)\<rparr>) (lg_evidence lg)\<rparr>))"

definition all_live_evidence :: "tenant_id \<Rightarrow> ledger \<Rightarrow> evidence_row list" where
  "all_live_evidence t lg = sort_key (\<lambda>r. (ev_valid_from r, ev_evidence_id r))
     (filter (\<lambda>r. ev_tenant_id r = t \<and> ev_valid_to r = None) (lg_evidence lg))"

definition live_evidence_for_refs :: "tenant_id \<Rightarrow> string list \<Rightarrow> ledger \<Rightarrow> evidence_row list" where
  "live_evidence_for_refs t refs lg = sort_key (\<lambda>r. (ev_valid_from r, ev_evidence_id r))
     (filter (\<lambda>r. ev_tenant_id r = t \<and> ev_valid_to r = None \<and> (ev_left_ref r \<in> set refs \<or> ev_right_ref r \<in> set refs))
       (lg_evidence lg))"

definition config_key :: "tenant_id \<Rightarrow> string \<Rightarrow> string \<Rightarrow> entity_resolution_config \<Rightarrow> bool" where
  "config_key t kind namespace c \<longleftrightarrow> rc_tenant_id c = t \<and> rc_key_kind c = kind \<and> rc_key_namespace c = namespace"

definition read_resolution_config :: "tenant_id \<Rightarrow> string \<Rightarrow> string \<Rightarrow> ledger \<Rightarrow> entity_resolution_config" where
  "read_resolution_config t kind namespace lg =
     (case List.find (config_key t kind namespace) (lg_config lg) of
        None \<Rightarrow> resolution_config_defaults t kind namespace
      | Some c \<Rightarrow> c)"

definition write_resolution_config :: "entity_resolution_config \<Rightarrow> database \<Rightarrow> ledger \<Rightarrow> storage_error + ledger" where
  "write_resolution_config cfg db lg =
     (let P = config_key (rc_tenant_id cfg) (rc_key_kind cfg) (rc_key_namespace cfg) in
      if list_ex P (lg_config lg) then Inr (lg\<lparr>lg_config := update_where P (\<lambda>_. cfg) (lg_config lg)\<rparr>)
      else if rc_tenant_id cfg \<notin> set (db_tenants db) then Inl (constraint_error ''entity_resolution_config_tenant_id_fkey'')
      else Inr (lg\<lparr>lg_config := lg_config lg @ [cfg]\<rparr>))"

definition list_resolution_config :: "tenant_id \<Rightarrow> ledger \<Rightarrow> entity_resolution_config list" where
  "list_resolution_config t lg =
     sort_key (\<lambda>c. (rc_key_kind c, rc_key_namespace c)) (filter (\<lambda>c. rc_tenant_id c = t) (lg_config lg))"

section \<open>The persisting driver\<close>

fun persist :: "(nat \<Rightarrow> uuid) \<Rightarrow> nat \<Rightarrow> instant \<Rightarrow> database \<Rightarrow> evidence_write list \<Rightarrow> ledger
   \<Rightarrow> (storage_error + evidence_row list) \<times> ledger" where
  "persist fresh n now db [] lg = (Inr [], lg)"
| "persist fresh n now db (w # ws) lg =
     (case insert_evidence (fresh n) now w db lg of
        Inl e \<Rightarrow> (Inl e, lg)
      | Inr (row, lg1) \<Rightarrow>
          (case persist fresh (Suc n) now db ws lg1 of
             (Inl e, lg2) \<Rightarrow> (Inl e, lg2)
           | (Inr rows, lg2) \<Rightarrow> (Inr (row # rows), lg2)))"

definition run_crm_fk ::
  "(nat \<Rightarrow> uuid) \<Rightarrow> instant \<Rightarrow> database \<Rightarrow> tenant_id \<Rightarrow> crm_contact_fact list \<Rightarrow> ledger
   \<Rightarrow> (storage_error + evidence_row list) \<times> ledger" where
  "run_crm_fk fresh now db tenant facts lg = persist fresh 0 now db (tier1_crm_fk_evidence tenant facts) lg"

text \<open>
  The config-gated batches of the e-mail and external-id producers: one batch of writes per group whose
  policy lets its keys form an edge.
\<close>

definition email_batches :: "hash_orders \<Rightarrow> tenant_id \<Rightarrow> email_fact list \<Rightarrow> ledger \<Rightarrow> evidence_write list list" where
  "email_batches ho tenant facts lg =
     map (\<lambda>(ns, ns_facts). let cfg = read_resolution_config tenant (key_kind_as_str EmailKey) ns lg in
         if \<not> rc_eligible_as_edge cfg then []
         else tier1_email_within_namespace_evidence ho tenant ns_facts (rc_denylist_values cfg))
       (ho_namespaces ho (group_entries (\<lambda>f. Some (key_namespace_as_str (ef_namespace f), f)) facts))"

definition external_id_batches :: "hash_orders \<Rightarrow> tenant_id \<Rightarrow> external_id_fact list \<Rightarrow> ledger \<Rightarrow> evidence_write list list" where
  "external_id_batches ho tenant facts lg =
     map (\<lambda>(id_kind, kind_facts). if id_kind = [] then []
         else let cfg = read_resolution_config tenant (key_kind_as_str ExternalIdKey) id_kind lg in
           if \<not> rc_eligible_as_edge cfg then []
           else tier1_external_id_evidence ho tenant kind_facts (rc_denylist_values cfg))
       (ho_kinds ho (group_entries (\<lambda>f. Some (trim (xf_id_kind f), f)) facts))"

definition run_email_exact ::
  "hash_orders \<Rightarrow> (nat \<Rightarrow> uuid) \<Rightarrow> instant \<Rightarrow> database \<Rightarrow> tenant_id \<Rightarrow> email_fact list \<Rightarrow> ledger
   \<Rightarrow> (storage_error + evidence_row list) \<times> ledger" where
  "run_email_exact ho fresh now db tenant facts lg = persist fresh 0 now db (concat (email_batches ho tenant facts lg)) lg"

definition run_external_id ::
  "hash_orders \<Rightarrow> (nat \<Rightarrow> uuid) \<Rightarrow> instant \<Rightarrow> database \<Rightarrow> tenant_id \<Rightarrow> external_id_fact list \<Rightarrow> ledger
   \<Rightarrow> (storage_error + evidence_row list) \<times> ledger" where
  "run_external_id ho fresh now db tenant facts lg = persist fresh 0 now db (concat (external_id_batches ho tenant facts lg)) lg"

section \<open>The evidence id\<close>

record producer_env =
  pe_uuid_str :: "uuid \<Rightarrow> string"
  pe_new_v5 :: "nat list \<Rightarrow> string \<Rightarrow> uuid"
  pe_float_str :: "f64 \<Rightarrow> string"

definition TIER1_EVIDENCE_NAMESPACE :: "nat list" where
  "TIER1_EVIDENCE_NAMESPACE =
     [0x6b, 0x9e, 0x2a, 0x11, 0x4c, 0x3d, 0x54, 0x8f, 0xa1, 0x27, 0x0e, 0x77, 0x9d, 0x3b, 0x62, 0x10]"

definition evidence_name :: "producer_env \<Rightarrow> evidence_write \<Rightarrow> string" where
  "evidence_name env w = join [CHR 0x00]
     [pe_uuid_str env (ew_tenant_id w), ew_left_ref w, ew_right_ref w, ew_method w,
      (case ew_key_value w of None \<Rightarrow> [] | Some v \<Rightarrow> v), (case ew_key_namespace w of None \<Rightarrow> [] | Some v \<Rightarrow> v)]"

definition deterministic_evidence_id :: "producer_env \<Rightarrow> evidence_write \<Rightarrow> uuid" where
  "deterministic_evidence_id env w = pe_new_v5 env TIER1_EVIDENCE_NAMESPACE (evidence_name env w)"

section \<open>From current facts to producer inputs\<close>

definition list_current_facts_grouped :: "tenant_id \<Rightarrow> database \<Rightarrow> ((string \<times> string) \<times> (string \<times> json) list) list" where
  "list_current_facts_grouped t db =
     (let rows = sort_key (\<lambda>r. (fk_source (fr_key r), fk_entity_id (fr_key r), fk_field (fr_key r)))
                  (filter (\<lambda>r. fr_tenant_id r = t \<and> fr_valid_to r = None) (db_facts db))
      in foldl (\<lambda>out r.
           let key = (fk_source (fr_key r), fk_entity_id (fr_key r)); fv = (fk_field (fr_key r), fr_value r) in
           if out \<noteq> [] \<and> fst (last out) = key then butlast out @ [(key, snd (last out) @ [fv])]
           else out @ [(key, [fv])]) [] rows)"

definition fact_str :: "producer_env \<Rightarrow> json \<Rightarrow> string option" where
  "fact_str env v =
     (case (case v of JString s \<Rightarrow> Some s | JNumber n \<Rightarrow> Some (number_to_string (pe_float_str env) n)
            | JBool b \<Rightarrow> Some (if b then ''true'' else ''false'') | _ \<Rightarrow> None) of
        None \<Rightarrow> None
      | Some s \<Rightarrow> let t = trim s in if t = [] then None else Some t)"

definition field_ci :: "(string \<times> json) list \<Rightarrow> string \<Rightarrow> json option" where
  "field_ci fs name = map_option snd (List.find (\<lambda>(f, _). eq_ignore_ascii_case f name) fs)"

record tier1_inputs =
  ti_crm_fks :: "crm_contact_fact list"
  ti_emails :: "email_fact list"
  ti_external_ids :: "external_id_fact list"

definition CRM_FK_FIELDS :: "string list" where
  "CRM_FK_FIELDS = [''AccountId'', ''associatedcompanyid'']"

definition EMAIL_FIELDS :: "string list" where
  "EMAIL_FIELDS = [''Email'', ''email'', ''assignee.email'', ''assignee_email'', ''creator.email'', ''creator_email'',
     ''actor.email'', ''actor_email'', ''user.email'', ''user_email'', ''reporter.email'']"

definition is_external_id_field :: "string \<Rightarrow> bool" where
  "is_external_id_field lower \<longleftrightarrow> lower = ''external_id'' \<or> lower = ''stripe_customer_id'' \<or>
     lower = ''stripe_customer'' \<or> lower = ''duns'' \<or> lower = ''duns_number''"

definition field_str :: "producer_env \<Rightarrow> (string \<times> json) list \<Rightarrow> string \<Rightarrow> string option" where
  "field_str env fs name = Option.bind (field_ci fs name) (fact_str env)"

definition map_entity_to_inputs ::
  "producer_env \<Rightarrow> string \<Rightarrow> string \<Rightarrow> (string \<times> json) list \<Rightarrow> tier1_inputs \<Rightarrow> tier1_inputs" where
  "map_entity_to_inputs env source entity_id fs inputs =
     \<lparr>ti_crm_fks = ti_crm_fks inputs @ List.map_filter (\<lambda>fk_field. map_option (\<lambda>parent.
          \<lparr>cf_source = source, cf_entity_id = entity_id, cf_parent_kind = ''account'', cf_parent_id = parent,
           cf_evidence_l0_ref = None\<rparr>) (field_str env fs fk_field)) CRM_FK_FIELDS,
      ti_emails = ti_emails inputs @ List.map_filter (\<lambda>email_field. map_option (\<lambda>raw.
          \<lparr>ef_source = source, ef_entity_id = entity_id, ef_email = raw,
           ef_namespace = namespace_for_source_field source email_field, ef_evidence_l0_ref = None\<rparr>)
          (field_str env fs email_field)) EMAIL_FIELDS,
      ti_external_ids = ti_external_ids inputs @ List.map_filter (\<lambda>(field, value).
          let lower = to_ascii_lowercase field in
          if \<not> is_external_id_field lower then None
          else map_option (\<lambda>id_value. \<lparr>xf_source = source, xf_entity_id = entity_id, xf_id_kind = lower,
            xf_id_value = id_value, xf_evidence_l0_ref = None\<rparr>) (fact_str env value)) fs\<rparr>"

section \<open>The production run\<close>

definition tier1_inputs_of :: "producer_env \<Rightarrow> tenant_id \<Rightarrow> database \<Rightarrow> tier1_inputs" where
  "tier1_inputs_of env tenant db =
     foldl (\<lambda>inputs ((source, entity_id), fs). map_entity_to_inputs env source entity_id fs inputs)
       \<lparr>ti_crm_fks = [], ti_emails = [], ti_external_ids = []\<rparr> (list_current_facts_grouped tenant db)"

definition tier1_writes :: "producer_env \<Rightarrow> hash_orders \<Rightarrow> tenant_id \<Rightarrow> database \<Rightarrow> ledger \<Rightarrow> evidence_write list" where
  "tier1_writes env ho tenant db lg =
     (let inputs = tier1_inputs_of env tenant db in
      tier1_crm_fk_evidence tenant (ti_crm_fks inputs) @
      concat (email_batches ho tenant (ti_emails inputs) lg) @
      concat (external_id_batches ho tenant (ti_external_ids inputs) lg))"

fun insert_writes :: "producer_env \<Rightarrow> instant \<Rightarrow> database \<Rightarrow> evidence_write list \<Rightarrow> ledger \<Rightarrow> nat
   \<Rightarrow> (storage_error + nat) \<times> ledger" where
  "insert_writes env now db [] lg inserted = (Inr inserted, lg)"
| "insert_writes env now db (w # ws) lg inserted =
     (case insert_evidence_with_id (deterministic_evidence_id env w) now w db lg of
        Inl e \<Rightarrow> (Inl e, lg)
      | Inr (new, lg1) \<Rightarrow> insert_writes env now db ws lg1 (if new then Suc inserted else inserted))"

definition produce_tier1_evidence ::
  "producer_env \<Rightarrow> hash_orders \<Rightarrow> instant \<Rightarrow> tenant_id \<Rightarrow> database \<Rightarrow> ledger \<Rightarrow> (storage_error + nat) \<times> ledger" where
  "produce_tier1_evidence env ho now tenant db lg = insert_writes env now db (tier1_writes env ho tenant db lg) lg 0"

section \<open>Grouping lemmas\<close>

definition entries_of :: "('a \<Rightarrow> ('k \<times> 'v) option) \<Rightarrow> 'k \<Rightarrow> 'a list \<Rightarrow> 'v list" where
  "entries_of entry k xs = List.map_filter (\<lambda>x. case entry x of None \<Rightarrow> None | Some (k', v) \<Rightarrow> if k' = k then Some v else None) xs"

lemma push_entry_keys: "set (map fst (push_entry k v gs)) = insert k (set (map fst gs))"
  by (induction gs rule: push_entry.induct) auto

lemma push_entry_distinct: "distinct (map fst gs) \<Longrightarrow> distinct (map fst (push_entry k v gs))"
proof (induction k v gs rule: push_entry.induct)
  case (2 k v k' vs gs)
  then show ?case using push_entry_keys [of k v gs] by auto
qed simp

lemma push_entry_get:
  "distinct (map fst gs) \<Longrightarrow> map_of (push_entry k v gs) j = (if j = k then Some ((case map_of gs k of None \<Rightarrow> [] | Some vs \<Rightarrow> vs) @ [v]) else map_of gs j)"
  by (induction k v gs rule: push_entry.induct) auto

lemma group_entries_snoc:
  "group_entries entry (xs @ [x]) = (case entry x of None \<Rightarrow> group_entries entry xs | Some (k, v) \<Rightarrow> push_entry k v (group_entries entry xs))"
  unfolding group_entries_def by simp

lemma group_entries_distinct: "distinct (map fst (group_entries entry xs))"
proof (induction xs rule: rev_induct)
  case Nil
  then show ?case by (simp add: group_entries_def)
next
  case (snoc x xs)
  then show ?case by (auto simp: group_entries_snoc split: option.splits intro: push_entry_distinct)
qed

lemma group_entries_get:
  "map_of (group_entries entry xs) k = (if entries_of entry k xs = [] then None else Some (entries_of entry k xs))"
proof (induction xs rule: rev_induct)
  case Nil
  then show ?case by (simp add: group_entries_def entries_of_def map_filter_simps)
next
  case (snoc x xs)
  have s: "entries_of entry k (xs @ [x]) = entries_of entry k xs @
      (case entry x of None \<Rightarrow> [] | Some (k', v) \<Rightarrow> if k' = k then [v] else [])"
    by (auto simp: entries_of_def map_filter_def split: option.splits)
  show ?case
  proof (cases "entry x")
    case None
    then show ?thesis using snoc by (simp add: s group_entries_snoc)
  next
    case (Some p)
    obtain k' v where "p = (k', v)" by (rule prod.exhaust)
    then show ?thesis using snoc Some group_entries_distinct [of entry xs]
      by (auto simp: s group_entries_snoc push_entry_get)
  qed
qed

lemma group_entries_mem: "(k, vs) \<in> set (group_entries entry xs) \<longleftrightarrow> vs = entries_of entry k xs \<and> vs \<noteq> []"
  using group_entries_get [of entry xs k] map_of_eq_Some_iff [OF group_entries_distinct, of entry xs k vs]
  by (auto split: if_splits)

lemma set_entries_of: "v \<in> set (entries_of entry k xs) \<longleftrightarrow> (\<exists>x \<in> set xs. entry x = Some (k, v))"
  by (force simp: entries_of_def map_filter_def split: option.splits if_splits)

lemma set_dedup_by: "set (dedup_by key xs) \<subseteq> set xs" "key ` set (dedup_by key xs) = key ` set xs"
  by (induction key xs rule: dedup_by.induct) auto

lemma dedup_by_strict: "sorted (map key xs) \<Longrightarrow> sorted_wrt (<) (map key (dedup_by key xs))"
proof (induction key xs rule: dedup_by.induct)
  case (3 key x y ys)
  show ?case
  proof (cases "key y = key x")
    case True
    with 3 show ?thesis by auto
  next
    case False
    with "3.prems" have "\<forall>z \<in> set (y # ys). key x < key z" by fastforce
    then have "\<forall>z \<in> set (dedup_by key (y # ys)). key x < key z" using set_dedup_by(1) [of key "y # ys"] by blast
    with False 3 show ?thesis by auto
  qed
qed auto

lemma pairs_wrt: "sorted_wrt P xs \<Longrightarrow> (x, y) \<in> set (pairs xs) \<Longrightarrow> x \<in> set xs \<and> y \<in> set xs \<and> P x y"
  by (induction xs) auto

lemma pairs_complete:
  "sorted_wrt (<) (map f xs) \<Longrightarrow> x \<in> set xs \<Longrightarrow> y \<in> set xs \<Longrightarrow> (f x :: 'k :: linorder) < f y \<Longrightarrow> (x, y) \<in> set (pairs xs)"
  by (induction xs) (auto dest: less_asym)

text \<open>The pairs of a group: exactly the ascending pairs of distinct references of its members.\<close>

lemma member_pairs_sound:
  assumes "(x, y) \<in> set (member_pairs ms)"
  shows "x \<in> set ms" "y \<in> set ms" "fst x < fst y"
proof -
  let ?d = "dedup_by fst (sort_key fst ms)"
  have "sorted_wrt (\<lambda>a b. fst a < fst b) ?d" 
    using dedup_by_strict [OF sorted_sort_key, of fst ms] by (simp add: sorted_wrt_map)
  moreover have "(x, y) \<in> set (pairs ?d)" using assms by (auto simp: member_pairs_def Let_def split: if_splits)
  ultimately have "x \<in> set ?d \<and> y \<in> set ?d \<and> fst x < fst y" by (rule pairs_wrt)
  then show "x \<in> set ms" "y \<in> set ms" "fst x < fst y" using set_dedup_by(1) [of fst "sort_key fst ms"] by auto
qed

lemma member_pairs_complete:
  assumes "a \<in> fst ` set ms" "b \<in> fst ` set ms" "a < b"
  shows "\<exists>x y. (x, y) \<in> set (member_pairs ms) \<and> fst x = a \<and> fst y = b"
proof -
  let ?d = "dedup_by fst (sort_key fst ms)"
  have im: "fst ` set ?d = fst ` set ms" using set_dedup_by(2) [of fst "sort_key fst ms"] by simp
  obtain x where x: "x \<in> set ?d" "fst x = a" using assms(1) unfolding im [symmetric] by blast
  obtain y where y: "y \<in> set ?d" "fst y = b" using assms(2) unfolding im [symmetric] by blast
  have p: "(x, y) \<in> set (pairs ?d)"
    using dedup_by_strict [OF sorted_sort_key, of fst ms] x(1) y(1) assms(3) unfolding x(2) [symmetric] y(2) [symmetric] by (rule pairs_complete)
  have "\<not> length l < 2" if "q \<in> set (pairs l)" for q and l :: "group_member list"
    using that by (cases l rule: list.exhaust; cases "List.tl l") auto
  with p have "(x, y) \<in> set (member_pairs ms)" unfolding member_pairs_def Let_def by auto
  with x(2) y(2) show ?thesis by blast
qed

section \<open>Which pairs become e-mail evidence\<close>

definition hash_orders_ok :: "hash_orders \<Rightarrow> bool" where
  "hash_orders_ok ho \<longleftrightarrow> (\<forall>gs. mset (ho_emails ho gs) = mset gs) \<and> (\<forall>gs. mset (ho_ids ho gs) = mset gs) \<and>
     (\<forall>gs. mset (ho_namespaces ho gs) = mset gs) \<and> (\<forall>gs. mset (ho_kinds ho gs) = mset gs)"

lemma hash_orders_set:
  assumes "hash_orders_ok ho"
  shows "set (ho_emails ho gs) = set gs" "set (ho_ids ho is) = set is"
    "set (ho_namespaces ho ns) = set ns" "set (ho_kinds ho ks) = set ks"
  using assms by (metis hash_orders_ok_def set_mset_mset)+

text \<open>A fact that carries the address \<open>v\<close> in population \<open>ns\<close> and names the reference \<open>l\<close>.\<close>

definition carries_email :: "string list \<Rightarrow> email_fact \<Rightarrow> key_namespace \<Rightarrow> string \<Rightarrow> string \<Rightarrow> bool" where
  "carries_email denylist f ns v l \<longleftrightarrow>
     trim (ef_source f) \<noteq> [] \<and> trim (ef_entity_id f) \<noteq> [] \<and> ef_namespace f = ns \<and>
     map_option ck_value (canonicalize_email (ef_email f) ns) = Some v \<and>
     \<not> list_ex (\<lambda>d. eq_ignore_ascii_case d v) denylist \<and>
     l = make_ref (trim (ef_source f)) (trim (ef_entity_id f))"

lemma canonicalize_email_namespace: "canonicalize_email raw ns = Some k \<Longrightarrow> ck_namespace k = ns"
  by (auto elim: canonicalize_email_Some)

lemma email_entry_iff:
  "(\<exists>l0. email_entry denylist f = Some ((ns, v), (l, l0))) \<longleftrightarrow> carries_email denylist f ns v l"
proof (cases "canonicalize_email (ef_email f) (ef_namespace f)")
  case None
  then show ?thesis by (auto simp: email_entry_def carries_email_def)
next
  case (Some k)
  then have "ck_namespace k = ef_namespace f" by (rule canonicalize_email_namespace)
  with Some show ?thesis by (auto simp: email_entry_def carries_email_def is_tenant_denied_def)
qed

lemma exact_write_ordered: "fst x < fst y \<Longrightarrow>
  ew_left_ref (exact_write t m v n (x, y)) = fst x \<and> ew_right_ref (exact_write t m v n (x, y)) = fst y"
  by (simp add: exact_write_def ordered_def less_imp_le)

lemma exact_write_fields [simp]:
  "ew_tenant_id (exact_write t m v n p) = t" "ew_tier (exact_write t m v n p) = 1" "ew_method (exact_write t m v n p) = m"
  "ew_key_value (exact_write t m v n p) = Some v" "ew_key_namespace (exact_write t m v n p) = Some n"
  "ew_polarity (exact_write t m v n p) = 1" "ew_score (exact_write t m v n p) = None"
  by (simp_all add: exact_write_def split: prod.splits)

lemma email_evidence_mem:
  assumes "hash_orders_ok ho"
  shows "w \<in> set (tier1_email_within_namespace_evidence ho t facts denylist) \<longleftrightarrow>
    (\<exists>ns v x y. w = exact_write t ''email_exact'' v (key_namespace_as_str ns) (x, y) \<and>
       (x, y) \<in> set (member_pairs (entries_of (email_entry denylist) (ns, v) facts)))"
    (is "?L \<longleftrightarrow> ?R")
proof
  assume ?L
  then obtain ns v ms where "((ns, v), ms) \<in> set (group_entries (email_entry denylist) facts)"
    "w \<in> exact_write t ''email_exact'' v (key_namespace_as_str ns) ` set (member_pairs ms)"
    by (auto simp: tier1_email_within_namespace_evidence_def hash_orders_set [OF assms])
  then show ?R unfolding group_entries_mem by fastforce
next
  assume ?R
  then obtain ns v x y where w: "w = exact_write t ''email_exact'' v (key_namespace_as_str ns) (x, y)"
    and p: "(x, y) \<in> set (member_pairs (entries_of (email_entry denylist) (ns, v) facts))" by blast
  from p have "entries_of (email_entry denylist) (ns, v) facts \<noteq> []" using member_pairs_sound(1) by fastforce
  then have "((ns, v), entries_of (email_entry denylist) (ns, v) facts) \<in> set (group_entries (email_entry denylist) facts)"
    by (simp add: group_entries_mem)
  with w p show ?L
    by (force simp: tier1_email_within_namespace_evidence_def hash_orders_set [OF assms])
qed

lemma email_evidence_pairs:
  assumes "hash_orders_ok ho"
  shows "(\<exists>w \<in> set (tier1_email_within_namespace_evidence ho t facts denylist).
        ew_left_ref w = l \<and> ew_right_ref w = r \<and> ew_key_value w = Some v \<and>
        ew_key_namespace w = Some (key_namespace_as_str ns)) \<longleftrightarrow>
      l < r \<and> (\<exists>f \<in> set facts. carries_email denylist f ns v l) \<and> (\<exists>g \<in> set facts. carries_email denylist g ns v r)"
    and "w \<in> set (tier1_email_within_namespace_evidence ho t facts denylist) \<Longrightarrow>
      ew_tenant_id w = t \<and> ew_tier w = 1 \<and> ew_polarity w = 1 \<and> ew_method w = ''email_exact'' \<and>
      (\<exists>v ns. ew_key_value w = Some v \<and> ew_key_namespace w = Some (key_namespace_as_str ns))"
proof -
  let ?ms = "entries_of (email_entry denylist) (ns, v) facts"
  have refs: "x \<in> fst ` set ?ms \<longleftrightarrow> (\<exists>f \<in> set facts. carries_email denylist f ns v x)" for x
    unfolding email_entry_iff [symmetric] by (force simp: set_entries_of)
  have inj: "key_namespace_as_str a = key_namespace_as_str b \<longleftrightarrow> a = b" for a b by (metis namespace_roundtrip)
  show "(\<exists>w \<in> set (tier1_email_within_namespace_evidence ho t facts denylist).
        ew_left_ref w = l \<and> ew_right_ref w = r \<and> ew_key_value w = Some v \<and>
        ew_key_namespace w = Some (key_namespace_as_str ns)) \<longleftrightarrow>
      l < r \<and> (\<exists>f \<in> set facts. carries_email denylist f ns v l) \<and> (\<exists>g \<in> set facts. carries_email denylist g ns v r)"
    (is "?L \<longleftrightarrow> ?R")
  proof
    assume ?L
    then obtain x y where p: "(x, y) \<in> set (member_pairs ?ms)"
      and lr: "ew_left_ref (exact_write t ''email_exact'' v (key_namespace_as_str ns) (x, y)) = l"
        "ew_right_ref (exact_write t ''email_exact'' v (key_namespace_as_str ns) (x, y)) = r"
      by (auto simp: email_evidence_mem [OF assms] inj)
    from member_pairs_sound [OF p] lr show ?R unfolding refs [symmetric] by (auto simp: exact_write_ordered)
  next
    assume R: ?R
    then obtain x y where p: "(x, y) \<in> set (member_pairs ?ms)" "fst x = l" "fst y = r"
      using member_pairs_complete [of l ?ms r] unfolding refs by blast
    let ?w = "exact_write t ''email_exact'' v (key_namespace_as_str ns) (x, y)"
    have "?w \<in> set (tier1_email_within_namespace_evidence ho t facts denylist)"
      unfolding email_evidence_mem [OF assms] using p(1) by blast
    moreover have "ew_left_ref ?w = l \<and> ew_right_ref ?w = r" using R p exact_write_ordered by blast
    ultimately show ?L by (intro bexI [of _ ?w]) simp_all
  qed
  assume "w \<in> set (tier1_email_within_namespace_evidence ho t facts denylist)"
  then show "ew_tenant_id w = t \<and> ew_tier w = 1 \<and> ew_polarity w = 1 \<and> ew_method w = ''email_exact'' \<and>
      (\<exists>v ns. ew_key_value w = Some v \<and> ew_key_namespace w = Some (key_namespace_as_str ns))"
    by (auto simp: email_evidence_mem [OF assms])
qed

text \<open>
  C32: The e-mail producer is exact: there is a row between two references on an address in a population
  precisely when two facts of that one population canonicalise to the address, are not denied, and name
  the two references, the smaller on the left. Every row is a positive tier-1 link of the tenant. So an
  internal address and a customer address never meet, however equal they look.
\<close>

theorem email_evidence_exact:
  assumes "hash_orders_ok ho"
  shows "((\<exists>w \<in> set (tier1_email_within_namespace_evidence ho t facts denylist).
        ew_left_ref w = l \<and> ew_right_ref w = r \<and> ew_key_value w = Some v \<and>
        ew_key_namespace w = Some (key_namespace_as_str ns)) \<longleftrightarrow>
      l < r \<and> (\<exists>f \<in> set facts. carries_email denylist f ns v l) \<and> (\<exists>g \<in> set facts. carries_email denylist g ns v r)) \<and>
    (\<forall>w \<in> set (tier1_email_within_namespace_evidence ho t facts denylist).
      ew_tenant_id w = t \<and> ew_tier w = 1 \<and> ew_polarity w = 1 \<and> ew_method w = ''email_exact'' \<and>
      (\<exists>v ns. ew_key_value w = Some v \<and> ew_key_namespace w = Some (key_namespace_as_str ns)))"
  by (rule conjI [OF email_evidence_pairs(1) [OF assms] ballI]) (rule email_evidence_pairs(2) [OF assms])

definition insertion_orders :: hash_orders where
  "insertion_orders = \<lparr>ho_emails = (\<lambda>gs. gs), ho_ids = (\<lambda>gs. gs), ho_namespaces = (\<lambda>gs. gs), ho_kinds = (\<lambda>gs. gs)\<rparr>"

definition reverse_orders :: hash_orders where
  "reverse_orders = \<lparr>ho_emails = List.rev, ho_ids = List.rev, ho_namespaces = List.rev, ho_kinds = List.rev\<rparr>"

lemma sample_orders_ok: "hash_orders_ok insertion_orders" "hash_orders_ok reverse_orders"
  by (simp_all add: hash_orders_ok_def insertion_orders_def reverse_orders_def)

definition jane_facts :: "email_fact list" where
  "jane_facts =
     [\<lparr>ef_source = ''hubspot'', ef_entity_id = ''42'', ef_email = ''Jane@acme.dev'', ef_namespace = CustomerContact, ef_evidence_l0_ref = None\<rparr>,
      \<lparr>ef_source = ''salesforce'', ef_entity_id = ''003x'', ef_email = ''jane+crm@acme.dev'', ef_namespace = CustomerContact, ef_evidence_l0_ref = None\<rparr>,
      \<lparr>ef_source = ''linear'', ef_entity_id = ''u1'', ef_email = ''jane@acme.dev'', ef_namespace = InternalDirectory, ef_evidence_l0_ref = None\<rparr>]"

theorem email_evidence_exact_witness:
  "(\<exists>w \<in> set (tier1_email_within_namespace_evidence reverse_orders 1 jane_facts []).
      ew_left_ref w = ''hubspot:42'' \<and> ew_right_ref w = ''salesforce:003x'' \<and> ew_key_value w = Some ''jane@acme.dev'' \<and>
      ew_key_namespace w = Some (key_namespace_as_str CustomerContact)) \<and>
   \<not> (\<exists>w \<in> set (tier1_email_within_namespace_evidence reverse_orders 1 jane_facts []).
      ew_left_ref w = ''hubspot:42'' \<and> ew_right_ref w = ''linear:u1'' \<and> ew_key_value w = Some ''jane@acme.dev'' \<and>
      ew_key_namespace w = Some (key_namespace_as_str CustomerContact))"
proof -
  have a: "''hubspot:42'' < ''salesforce:003x'' \<and> (\<exists>f \<in> set jane_facts. carries_email [] f CustomerContact ''jane@acme.dev'' ''hubspot:42'') \<and>
      (\<exists>g \<in> set jane_facts. carries_email [] g CustomerContact ''jane@acme.dev'' ''salesforce:003x'')" by code_simp
  have b: "\<not> (\<exists>g \<in> set jane_facts. carries_email [] g CustomerContact ''jane@acme.dev'' ''linear:u1'')" by code_simp
  have "\<And>l r. (\<exists>w \<in> set (tier1_email_within_namespace_evidence reverse_orders 1 jane_facts []).
      ew_left_ref w = l \<and> ew_right_ref w = r \<and> ew_key_value w = Some ''jane@acme.dev'' \<and>
      ew_key_namespace w = Some (key_namespace_as_str CustomerContact)) \<longleftrightarrow>
      l < r \<and> (\<exists>f \<in> set jane_facts. carries_email [] f CustomerContact ''jane@acme.dev'' l) \<and>
      (\<exists>g \<in> set jane_facts. carries_email [] g CustomerContact ''jane@acme.dev'' r)"
    using email_evidence_exact [OF sample_orders_ok(2)] by (rule conjunct1)
  with a b show ?thesis by blast
qed

section \<open>Production is idempotent\<close>

lemma tier1_writes_orders:
  assumes "hash_orders_ok ho" "hash_orders_ok ho'" "lg_config lg' = lg_config lg"
  shows "set (tier1_writes env ho t db lg) = set (tier1_writes env ho' t db lg')"
proof -
  have e: "set (tier1_email_within_namespace_evidence ho t fs d) = set (tier1_email_within_namespace_evidence ho' t fs d)" for fs d
    by (simp add: tier1_email_within_namespace_evidence_def hash_orders_set [OF assms(1)] hash_orders_set [OF assms(2)])
  have x: "set (tier1_external_id_evidence ho t fs d) = set (tier1_external_id_evidence ho' t fs d)" for fs d
    by (simp add: tier1_external_id_evidence_def hash_orders_set [OF assms(1)] hash_orders_set [OF assms(2)])
  have c: "read_resolution_config t k n lg' = read_resolution_config t k n lg" for k n
    by (simp add: read_resolution_config_def assms(3))
  show ?thesis
    by (simp add: tier1_writes_def Let_def email_batches_def external_id_batches_def hash_orders_set [OF assms(1)]
        hash_orders_set [OF assms(2)] c e x case_prod_beta if_distrib [of set] cong: if_cong)
qed

lemma tier1_writes_tenant: "w \<in> set (tier1_writes env ho t db lg) \<Longrightarrow> ew_tenant_id w = t \<and> ew_tier w = 1 \<and> ew_polarity w = 1"
proof -
  have e: "w \<in> set (tier1_email_within_namespace_evidence ho t fs d) \<Longrightarrow> ew_tenant_id w = t \<and> ew_tier w = 1 \<and> ew_polarity w = 1" for fs d
    by (auto simp: tier1_email_within_namespace_evidence_def split: prod.splits)
  have x: "w \<in> set (tier1_external_id_evidence ho t fs d) \<Longrightarrow> ew_tenant_id w = t \<and> ew_tier w = 1 \<and> ew_polarity w = 1" for fs d
    by (auto simp: tier1_external_id_evidence_def split: prod.splits)
  have f: "w \<in> set (tier1_crm_fk_evidence t fs) \<Longrightarrow> ew_tenant_id w = t \<and> ew_tier w = 1 \<and> ew_polarity w = 1" for fs
    by (auto simp: tier1_crm_fk_evidence_def map_filter_def crm_fk_write_def Let_def split: if_splits prod.splits)
  show "w \<in> set (tier1_writes env ho t db lg) \<Longrightarrow> ew_tenant_id w = t \<and> ew_tier w = 1 \<and> ew_polarity w = 1"
    by (auto simp: tier1_writes_def Let_def email_batches_def external_id_batches_def split: if_splits prod.splits dest: e x f)
qed

text \<open>The ids the ledger holds, and what inserting a list of writes does to them.\<close>

definition ledger_ids :: "ledger \<Rightarrow> uuid set" where
  "ledger_ids lg = ev_evidence_id ` set (lg_evidence lg)"

lemma ledger_ids_ex: "list_ex (\<lambda>r. ev_evidence_id r = i) (lg_evidence lg) \<longleftrightarrow> i \<in> ledger_ids lg"
  unfolding list_ex_iff ledger_ids_def by blast

lemma insert_writes_known:
  assumes "\<And>w. w \<in> set ws \<Longrightarrow> deterministic_evidence_id env w \<in> ledger_ids lg"
  shows "insert_writes env now db ws lg n = (Inr n, lg)"
  using assms
proof (induction ws)
  case (Cons w ws)
  then show ?case by (simp add: insert_evidence_with_id_def ledger_ids_ex)
qed simp

lemma insert_writes_run:
  assumes "\<And>w. w \<in> set ws \<Longrightarrow> ew_tenant_id w \<in> set (db_tenants db)"
  shows "\<exists>new. insert_writes env now db ws lg n = (Inr (n + length new), lg\<lparr>lg_evidence := lg_evidence lg @ new\<rparr>) \<and>
    (\<forall>r \<in> set new. \<exists>w \<in> set ws. r = evidence_row_of (deterministic_evidence_id env w) now w) \<and>
    deterministic_evidence_id env ` set ws \<subseteq> ledger_ids lg \<union> ev_evidence_id ` set new \<and>
    distinct (map ev_evidence_id new) \<and> ev_evidence_id ` set new \<inter> ledger_ids lg = {}"
  using assms
proof (induction ws arbitrary: lg n)
  case Nil
  then show ?case by (intro exI [of _ "[]"]) simp
next
  case (Cons w ws)
  let ?i = "deterministic_evidence_id env w" and ?r = "evidence_row_of (deterministic_evidence_id env w) now w"
  have id: "ev_evidence_id ?r = ?i" by (simp add: evidence_row_of_def)
  show ?case
  proof (cases "?i \<in> ledger_ids lg")
    case True
    then have "insert_evidence_with_id ?i now w db lg = Inr (False, lg)"
      by (auto simp: insert_evidence_with_id_def ledger_ids_ex)
    with True Cons.IH [of lg n] Cons.prems show ?thesis by auto
  next
    case False
    let ?lg = "lg\<lparr>lg_evidence := lg_evidence lg @ [?r]\<rparr>"
    have i: "insert_evidence_with_id ?i now w db lg = Inr (True, ?lg)"
      using False Cons.prems by (auto simp: insert_evidence_with_id_def ledger_ids_ex)
    have l: "ledger_ids ?lg = insert ?i (ledger_ids lg)" by (auto simp: ledger_ids_def id)
    obtain new where new: "insert_writes env now db ws ?lg (Suc n) = (Inr (Suc n + length new), ?lg\<lparr>lg_evidence := lg_evidence ?lg @ new\<rparr>)"
      "\<forall>r \<in> set new. \<exists>w \<in> set ws. r = evidence_row_of (deterministic_evidence_id env w) now w"
      "deterministic_evidence_id env ` set ws \<subseteq> insert ?i (ledger_ids lg) \<union> ev_evidence_id ` set new"
      "distinct (map ev_evidence_id new)" "ev_evidence_id ` set new \<inter> insert ?i (ledger_ids lg) = {}"
      using Cons.IH [of ?lg "Suc n"] Cons.prems unfolding l by auto
    show ?thesis using new False id i by (intro exI [of _ "?r # new"]) auto
  qed
qed

lemma produce_tier1_twice:
  assumes "t \<in> set (db_tenants db)" "hash_orders_ok ho" "hash_orders_ok ho'"
  shows "\<exists>new lg'. produce_tier1_evidence env ho now t db lg = (Inr (length new), lg') \<and>
    lg' = lg\<lparr>lg_evidence := lg_evidence lg @ new\<rparr> \<and>
    list_all (\<lambda>r. ev_tenant_id r = t \<and> ev_tier r = 1 \<and> ev_polarity r = 1 \<and> ev_valid_to r = None) new \<and>
    distinct (map ev_evidence_id new) \<and> ev_evidence_id ` set new \<inter> ledger_ids lg = {} \<and>
    (\<forall>w \<in> set (tier1_writes env ho t db lg). deterministic_evidence_id env w \<in> ledger_ids lg') \<and>
    produce_tier1_evidence env ho' now' t db lg' = (Inr 0, lg')"
proof -
  have "ew_tenant_id w \<in> set (db_tenants db)" if "w \<in> set (tier1_writes env ho t db lg)" for w
    using assms(1) tier1_writes_tenant [OF that] by metis
  from insert_writes_run [of "tier1_writes env ho t db lg" db env now lg 0, OF this] obtain new where
    new: "produce_tier1_evidence env ho now t db lg = (Inr (length new), lg\<lparr>lg_evidence := lg_evidence lg @ new\<rparr>)"
      "\<forall>r \<in> set new. \<exists>w \<in> set (tier1_writes env ho t db lg). r = evidence_row_of (deterministic_evidence_id env w) now w"
      "deterministic_evidence_id env ` set (tier1_writes env ho t db lg) \<subseteq> ledger_ids lg \<union> ev_evidence_id ` set new"
      "distinct (map ev_evidence_id new)" "ev_evidence_id ` set new \<inter> ledger_ids lg = {}"
    by (auto simp: produce_tier1_evidence_def)
  define lg' where "lg' = lg\<lparr>lg_evidence := lg_evidence lg @ new\<rparr>"
  have ids: "ledger_ids lg' = ledger_ids lg \<union> ev_evidence_id ` set new" by (auto simp: ledger_ids_def lg'_def)
  have live: "list_all (\<lambda>r. ev_tenant_id r = t \<and> ev_tier r = 1 \<and> ev_polarity r = 1 \<and> ev_valid_to r = None) new"
    using new(2) tier1_writes_tenant by (fastforce simp: list_all_iff evidence_row_of_def)
  have "set (tier1_writes env ho' t db lg') = set (tier1_writes env ho t db lg)"
    using assms(2,3) by (intro tier1_writes_orders) (simp_all add: lg'_def)
  then have "produce_tier1_evidence env ho' now' t db lg' = (Inr 0, lg')"
    unfolding produce_tier1_evidence_def using new(3) ids by (intro insert_writes_known) auto
  with new live ids show ?thesis by (intro exI [of _ new] exI [of _ lg']) (auto simp: lg'_def)
qed

text \<open>
  C33: A production run on a known tenant always succeeds. It only appends: the new rows are live tier-1 rows
  of the tenant built from the writes of the current facts, under fresh ids, as many as it reports; every
  write of the current facts then has a row. A second run over the same facts, with any clock and any
  hash iteration orders, inserts nothing and leaves the ledger as it is.
\<close>

theorem produce_tier1_idempotent:
  assumes "t \<in> set (db_tenants db)" "hash_orders_ok ho" "hash_orders_ok ho'"
  shows "\<exists>new lg'. produce_tier1_evidence env ho now t db lg = (Inr (length new), lg') \<and>
    lg' = lg\<lparr>lg_evidence := lg_evidence lg @ new\<rparr> \<and>
    list_all (\<lambda>r. ev_tenant_id r = t \<and> ev_tier r = 1 \<and> ev_polarity r = 1 \<and> ev_valid_to r = None) new \<and>
    distinct (map ev_evidence_id new) \<and> ev_evidence_id ` set new \<inter> ledger_ids lg = {} \<and>
    (\<forall>w \<in> set (tier1_writes env ho t db lg). deterministic_evidence_id env w \<in> ledger_ids lg') \<and>
    produce_tier1_evidence env ho' now' t db lg' = (Inr 0, lg')"
  using assms by (rule produce_tier1_twice)

definition sample_producer_env :: producer_env where
  "sample_producer_env = \<lparr>pe_uuid_str = (\<lambda>_. ''t''), pe_new_v5 = (\<lambda>_. length), pe_float_str = (\<lambda>_. [])\<rparr>"

definition contact_fact :: "uuid \<Rightarrow> string \<Rightarrow> string \<Rightarrow> string \<Rightarrow> string \<Rightarrow> fact_row" where
  "contact_fact i source entity field value =
     \<lparr>fr_id = i, fr_tenant_id = 1, fr_key = \<lparr>fk_source = source, fk_entity_id = entity, fk_field = field\<rparr>,
      fr_value = JString value, fr_valid_from = 0, fr_valid_to = None, fr_superseded_by = None, fr_recorded_at = 0,
      fr_visibility = [7], fr_confidentiality = Public, fr_provenance = 10, fr_acl_provenance = Mirrored\<rparr>"

definition contacts_db :: database where
  "contacts_db = empty_db\<lparr>db_tenants := [1], db_facts :=
     [contact_fact 1 ''salesforce'' ''003x'' ''Email'' ''jane+crm@acme.dev'', contact_fact 2 ''hubspot'' ''42'' ''email'' ''Jane@acme.dev'',
      contact_fact 3 ''salesforce'' ''003x'' ''AccountId'' ''001x'']\<rparr>"

definition empty_ledger :: ledger where
  "empty_ledger = \<lparr>lg_evidence = [], lg_config = []\<rparr>"

lemma contacts_produce: "fst (produce_tier1_evidence sample_producer_env insertion_orders 5 1 contacts_db empty_ledger) = Inr 2"
  by code_simp

theorem produce_tier1_idempotent_witness:
  "\<exists>lg'. produce_tier1_evidence sample_producer_env insertion_orders 5 1 contacts_db empty_ledger = (Inr 2, lg') \<and>
     length (lg_evidence lg') = 2 \<and>
     produce_tier1_evidence sample_producer_env reverse_orders 9 1 contacts_db lg' = (Inr 0, lg')"
proof -
  have "1 \<in> set (db_tenants contacts_db)" by (simp add: contacts_db_def)
  from produce_tier1_idempotent [OF this sample_orders_ok, of sample_producer_env 5 empty_ledger 9] contacts_produce
  show ?thesis by (auto simp: empty_ledger_def)
qed

section \<open>The evidence id and the references\<close>

text \<open>The hashed name determines the tuple it is made of, a missing key standing for the empty one.\<close>

lemma evidence_name_inj:
  assumes "evidence_name env a = evidence_name env b"
    and "\<And>w s. w \<in> {a, b} \<Longrightarrow> s \<in> {pe_uuid_str env (ew_tenant_id w), ew_left_ref w, ew_right_ref w, ew_method w,
      (case ew_key_value w of None \<Rightarrow> [] | Some v \<Rightarrow> v), (case ew_key_namespace w of None \<Rightarrow> [] | Some v \<Rightarrow> v)} \<Longrightarrow> CHR 0x00 \<notin> set s"
  shows "pe_uuid_str env (ew_tenant_id a) = pe_uuid_str env (ew_tenant_id b) \<and> ew_left_ref a = ew_left_ref b \<and>
    ew_right_ref a = ew_right_ref b \<and> ew_method a = ew_method b \<and>
    (case ew_key_value a of None \<Rightarrow> [] | Some v \<Rightarrow> v) = (case ew_key_value b of None \<Rightarrow> [] | Some v \<Rightarrow> v) \<and>
    (case ew_key_namespace a of None \<Rightarrow> [] | Some v \<Rightarrow> v) = (case ew_key_namespace b of None \<Rightarrow> [] | Some v \<Rightarrow> v)"
proof -
  let ?parts = "\<lambda>w. [pe_uuid_str env (ew_tenant_id w), ew_left_ref w, ew_right_ref w, ew_method w,
      (case ew_key_value w of None \<Rightarrow> [] | Some v \<Rightarrow> v), (case ew_key_namespace w of None \<Rightarrow> [] | Some v \<Rightarrow> v)]"
  have "split_on CHR 0x00 (join [CHR 0x00] (?parts w)) = ?parts w" if "w \<in> {a, b}" for w
    by (rule split_on_join) (use assms(2) [OF that] in auto)
  then have "?parts a = ?parts b" using assms(1) unfolding evidence_name_def by (metis insertI1 insertI2)
  then show ?thesis by simp
qed

text \<open>References: a source without a colon can be read back; with one, two entities share a reference.\<close>

lemma make_ref_split: "CHR '':'' \<notin> set source \<Longrightarrow> split_once CHR '':'' (make_ref source entity) = Some (source, entity)"
  by (simp add: make_ref_def split_once_append)

lemma make_ref_collides: "make_ref ''a:b'' ''c'' = make_ref ''a'' ''b:c''"
  by (simp add: make_ref_def)

text \<open>The foreign-key producer keeps the white space of the source that the other two producers trim.\<close>

lemma crm_source_untrimmed:
  "map_option ew_left_ref (crm_fk_write t \<lparr>cf_source = '' crm'', cf_entity_id = ''1'', cf_parent_kind = ''account'',
     cf_parent_id = ''2'', cf_evidence_l0_ref = None\<rparr>) = Some '' crm:1''"
  "map_option (fst \<circ> snd) (external_id_entry [] \<lparr>xf_source = '' crm'', xf_entity_id = ''1'', xf_id_kind = ''duns'',
     xf_id_value = ''9'', xf_evidence_l0_ref = None\<rparr>) = Some ''crm:1''"
  by code_simp+

section \<open>Retraction\<close>

text \<open>A retracted row leaves the live view and no other row does; the ledger never loses a row.\<close>

lemma retract_evidence_live:
  assumes "retract_evidence now t i s lg = Inr (n, lg')"
  shows "all_live_evidence t lg' = filter (\<lambda>r. ev_evidence_id r \<noteq> i) (all_live_evidence t lg)"
    "map ev_evidence_id (lg_evidence lg') = map ev_evidence_id (lg_evidence lg)"
proof -
  let ?P = "\<lambda>r. ev_tenant_id r = t \<and> ev_evidence_id r = i \<and> ev_valid_to r = None"
  have l: "lg_evidence lg' = update_where ?P (\<lambda>r. r\<lparr>ev_valid_to := Some now,
      ev_superseded_by := (case s of None \<Rightarrow> ev_superseded_by r | Some j \<Rightarrow> Some j)\<rparr>) (lg_evidence lg)"
    using assms by (auto simp: retract_evidence_def Let_def split: if_splits)
  have f: "filter (\<lambda>r. ev_tenant_id r = t \<and> ev_valid_to r = None) (update_where ?P (\<lambda>r. r\<lparr>ev_valid_to := Some now,
      ev_superseded_by := (case s of None \<Rightarrow> ev_superseded_by r | Some j \<Rightarrow> Some j)\<rparr>) rs) =
    filter (\<lambda>r. ev_evidence_id r \<noteq> i) (filter (\<lambda>r. ev_tenant_id r = t \<and> ev_valid_to r = None) rs)" for rs
    by (induction rs) auto
  show "all_live_evidence t lg' = filter (\<lambda>r. ev_evidence_id r \<noteq> i) (all_live_evidence t lg)"
    unfolding all_live_evidence_def l f filter_sort ..
  show "map ev_evidence_id (lg_evidence lg') = map ev_evidence_id (lg_evidence lg)"
    unfolding l update_where_def by simp
qed

end
