(* ===== verification/Resolution_Run.thy ===== *)
theory Resolution_Run
  imports Tier1_Producers Merged_Record Fold_Properties Identity_Admin
begin

text \<open>
  The materializer (\<^verbatim>\<open>verity-server/src/resolver.rs\<close>) and the resolution routes of \<^verbatim>\<open>main.rs\<close>: a run reads
  the live ledger, the key policy and the known canonicals, folds, and writes the plan to the alias table,
  the chunk tags and the badges; the routes append, retract, configure, decide and list what waits for a
  human. \<^verbatim>\<open>None\<close> as the value of a run means that the fold does not return; that this never happens is
  part of the theorems. The logarithm, the exponential and the printing of JSON values are parameters.
\<close>

section \<open>State\<close>

record resolution_state =
  rn_db :: database
  rn_ledger :: ledger
  rn_tables :: resolution_tables
  rn_audit :: "audit_row list"

section \<open>Writers\<close>

definition link_key :: "entity_link_meta \<Rightarrow> tenant_id \<times> string \<times> string \<times> string" where
  "link_key m = (lm_tenant_id m, lm_subject_kind m, lm_subject_ref m, lm_canonical_entity m)"

definition upsert_entity_link_meta :: "entity_link_meta \<Rightarrow> resolution_tables \<Rightarrow> bool \<times> resolution_tables" where
  "upsert_entity_link_meta meta rt =
     (let hit = (\<lambda>m. link_key m = link_key meta) in
      if list_ex hit (rt_link_meta rt) then (False, rt\<lparr>rt_link_meta := update_where hit (\<lambda>_. meta) (rt_link_meta rt)\<rparr>)
      else (True, rt\<lparr>rt_link_meta := rt_link_meta rt @ [meta]\<rparr>))"

definition chunk_entity_tags_upsert ::
  "tenant_id \<Rightarrow> string \<Rightarrow> string \<Rightarrow> int \<Rightarrow> string list \<Rightarrow> database \<Rightarrow> nat \<times> database" where
  "chunk_entity_tags_upsert t source document_id seq tags db =
     (let P = (\<lambda>c. ch_tenant_id c = t \<and> ch_source c = source \<and> ch_document_id c = document_id \<and> ch_seq c = seq \<and>
                 ch_valid_to c = None);
          n = rows_affected P (db_chunks db);
          db1 = db\<lparr>db_chunks := update_where P (\<lambda>c. c\<lparr>ch_entity_tags := tags\<rparr>) (db_chunks db)\<rparr>
      in (n, if 0 < n then fst (mark_briefs_stale_tx t tags db1) else db1))"

section \<open>The known canonicals\<close>

text \<open>One page of the keyset-paginated read, and the loop over pages.\<close>

definition canonical_page :: "nat \<Rightarrow> string list \<Rightarrow> string option \<Rightarrow> string list" where
  "canonical_page page keys cursor =
     take page (filter (\<lambda>k. case cursor of None \<Rightarrow> True | Some c \<Rightarrow> c < k) (remdups_adj (sort keys)))"

function canonical_keys_loop :: "nat \<Rightarrow> string list \<Rightarrow> string option \<Rightarrow> string list \<Rightarrow> string list" where
  "canonical_keys_loop page keys cursor out =
     (let rows = canonical_page page keys cursor in
      if rows = [] then out
      else
        let out1 = out @ rows in
        if length rows < page then out1 else canonical_keys_loop page keys (Some (last out1)) out1)"
  by pat_completeness auto

definition keys_after :: "string list \<Rightarrow> string option \<Rightarrow> string list" where
  "keys_after keys cursor = filter (\<lambda>k. case cursor of None \<Rightarrow> True | Some c \<Rightarrow> c < k) (remdups_adj (sort keys))"

lemma filter_above_last:
  assumes "sorted_wrt (<) (xs @ y # ys)"
  shows "filter (\<lambda>k. (y :: string) < k) (xs @ y # ys) = ys"
  using assms by (auto simp: sorted_wrt_append filter_empty_conv intro!: filter_True dest: less_asym)

lemma keys_after_page:
  assumes "canonical_page page keys cursor \<noteq> []"
  shows "keys_after keys (Some (last (canonical_page page keys cursor))) = drop page (keys_after keys cursor)"
proof -
  let ?S = "remdups_adj (sort keys)" and ?rest = "keys_after keys cursor"
  let ?rows = "canonical_page page keys cursor" and ?P = "\<lambda>k. case cursor of None \<Rightarrow> True | Some c \<Rightarrow> c < k"
  have rows: "?rows = take page ?rest" by (simp add: canonical_page_def keys_after_def)
  obtain xs y where xy: "?rows = xs @ [y]" using assms by (cases ?rows rule: rev_cases) auto
  have r: "?rest = xs @ y # drop page ?rest" by (metis append_take_drop_id rows xy append_assoc append_Cons append_Nil)
  have "sorted_wrt (<) ?rest" unfolding keys_after_def by (rule sorted_wrt_filter [OF strict_sorted_dedup])
  then have f: "filter (\<lambda>k. y < k) ?rest = drop page ?rest" using filter_above_last [of xs y "drop page ?rest"] r by metis
  have "y \<in> set ?rest" by (subst r) simp
  then have "?P y" by (simp add: keys_after_def)
  then have "y < k \<Longrightarrow> ?P k" for k by (auto split: option.splits)
  then have "filter (\<lambda>k. y < k) ?S = filter (\<lambda>k. y < k) ?rest"
    unfolding keys_after_def filter_filter by (intro filter_cong) auto
  with f xy show ?thesis by (simp add: keys_after_def)
qed

termination canonical_keys_loop
proof (relation "measure (\<lambda>(page, keys, cursor, out). length (keys_after keys cursor))")
  fix page keys cursor out rows out1
  assume rows: "rows = canonical_page page keys cursor" "rows \<noteq> []" "out1 = out @ rows" "\<not> length rows < page"
  then have page: "0 < page" "keys_after keys cursor \<noteq> []" by (auto simp: canonical_page_def keys_after_def)
  have "keys_after keys (Some (last out1)) = drop page (keys_after keys cursor)"
    using rows(2,3) keys_after_page [of page keys cursor] unfolding rows(1) by simp
  with page show "((page, keys, Some (last out1), out1), (page, keys, cursor, out)) \<in>
      measure (\<lambda>(page, keys, cursor, out). length (keys_after keys cursor))" by simp
qed simp

definition all_canonical_keys :: "tenant_id \<Rightarrow> resolution_tables \<Rightarrow> string list" where
  "all_canonical_keys t rt =
     canonical_keys_loop 10000 (map al_canonical (filter (\<lambda>r. al_tenant_id r = t) (rt_aliases rt))) None []"

section \<open>The materializer\<close>

record materialize_report =
  mt_evidence_considered :: nat
  mt_aliases_written :: nat
  mt_chunk_tags_written :: nat
  mt_link_meta_written :: nat
  mt_review_items :: nat
  mt_canonicals :: nat

definition fold_summary :: "string \<Rightarrow> string \<Rightarrow> string" where
  "fold_summary canonical member =
     take 120 (if canonical = ''canon:'' @ member then canonical @ '' anchored at '' @ member
               else canonical @ '' <= '' @ member)"

definition spawn_fold_audit :: "tenant_id \<Rightarrow> string \<Rightarrow> string \<Rightarrow> uuid list \<Rightarrow> resolution_state \<Rightarrow> resolution_state" where
  "spawn_fold_audit t canonical member evidence st =
     st\<lparr>rn_audit := rn_audit st @ [\<lparr>au_tenant_id = t, au_actor_sub = None, au_actor_azp = None, au_verb = ''fold_link'',
       au_principals = [], au_entity_scope = [], au_confidentiality = 0,
       au_query_summary = Some (fold_summary canonical member), au_result_ids = evidence\<rparr>]\<rparr>"

fun write_aliases :: "tenant_id \<Rightarrow> alias_write list \<Rightarrow> resolution_tables \<Rightarrow> resolution_tables" where
  "write_aliases t [] rt = rt"
| "write_aliases t (a # as) rt =
     write_aliases t as (upsert_entity_alias t (al_source a) (al_entity_id a) (al_canonical_entity a) rt)"

fun write_chunk_tags :: "tenant_id \<Rightarrow> chunk_tag_write list \<Rightarrow> database \<Rightarrow> nat \<times> database" where
  "write_chunk_tags t [] db = (0, db)"
| "write_chunk_tags t (ct # cts) db =
     (case parse_chunk_ref (ct_subject_ref ct) of
        None \<Rightarrow> write_chunk_tags t cts db
      | Some (source, document_id, seq) \<Rightarrow>
          (case chunk_entity_tags_upsert t source document_id seq (ct_tags ct) db of (affected, db1) \<Rightarrow>
             (case write_chunk_tags t cts db1 of (n, db2) \<Rightarrow> (affected + n, db2))))"

fun write_link_meta :: "tenant_id \<Rightarrow> entity_link_meta list \<Rightarrow> resolution_state \<Rightarrow> resolution_state" where
  "write_link_meta t [] st = st"
| "write_link_meta t (m # ms) st =
     (case upsert_entity_link_meta (m\<lparr>lm_tenant_id := t\<rparr>) (rn_tables st) of (newly_linked, rt) \<Rightarrow>
        let st1 = st\<lparr>rn_tables := rt\<rparr>;
            st2 = (if newly_linked \<and> lm_subject_kind m = ''alias_member''
                   then spawn_fold_audit t (lm_canonical_entity m) (lm_subject_ref m) (lm_justifying_evidence m) st1 else st1)
        in write_link_meta t ms st2)"

definition tenant_config :: "tenant_id \<Rightarrow> ledger \<Rightarrow> fold_config" where
  "tenant_config t lg = fold_config_new t (list_resolution_config t lg) (resolution_config_defaults t ''*'' ''*'')"

definition tenant_fold :: "tenant_id \<Rightarrow> resolution_state \<Rightarrow> fold_plan option" where
  "tenant_fold t st = fold_with_known_canonicals (all_live_evidence t (rn_ledger st)) (tenant_config t (rn_ledger st))
     (all_canonical_keys t (rn_tables st))"

definition run_full_fold :: "tenant_id \<Rightarrow> resolution_state \<Rightarrow> (materialize_report \<times> resolution_state) option" where
  "run_full_fold t st =
     (case tenant_fold t st of
        None \<Rightarrow> None
      | Some plan \<Rightarrow>
          let st1 = st\<lparr>rn_tables := write_aliases t (fp_aliases plan) (rn_tables st)\<rparr>;
              (tagged, db1) = write_chunk_tags t (fp_chunk_tags plan) (rn_db st1);
              st2 = write_link_meta t (fp_link_meta plan) (st1\<lparr>rn_db := db1\<rparr>)
          in Some (\<lparr>mt_evidence_considered = length (all_live_evidence t (rn_ledger st)),
                    mt_aliases_written = length (fp_aliases plan), mt_chunk_tags_written = tagged,
                    mt_link_meta_written = length (fp_link_meta plan), mt_review_items = length (fp_review plan),
                    mt_canonicals = length (fp_canonicals plan)\<rparr>, st2))"

datatype resolution_refusal =
    ResolutionGate id_refusal
  | ResolutionTenant storage_error
  | ResolutionInternal storage_error

type_synonym 'a resolution_result = "((resolution_refusal + 'a) \<times> resolution_state) option"

record resolution_env =
  re_auth :: admin_auth
  re_producer :: producer_env
  re_orders :: hash_orders

definition run_resolution ::
  "resolution_env \<Rightarrow> instant \<Rightarrow> tenant_id \<Rightarrow> resolution_state \<Rightarrow> (nat \<times> materialize_report) resolution_result" where
  "run_resolution env now t st =
     (case produce_tier1_evidence (re_producer env) (re_orders env) now t (rn_db st) (rn_ledger st) of
        (Inl e, lg) \<Rightarrow> Some (Inl (ResolutionInternal e), st\<lparr>rn_ledger := lg\<rparr>)
      | (Inr produced, lg) \<Rightarrow>
          map_option (\<lambda>(report, st1). (Inr (produced, report), st1)) (run_full_fold t (st\<lparr>rn_ledger := lg\<rparr>)))"

section \<open>Routes\<close>

definition resolution_gate :: "resolution_env \<Rightarrow> headers \<Rightarrow> tenant_id \<Rightarrow> resolution_state \<Rightarrow> resolution_refusal + unit" where
  "resolution_gate env h t st =
     (case admin_check (re_auth env) h of
        Inl e \<Rightarrow> Inl (ResolutionGate e)
      | Inr _ \<Rightarrow> (case ensure_tenant t (rn_db st) of Inl e \<Rightarrow> Inl (ResolutionTenant e) | Inr u \<Rightarrow> Inr u))"

definition admin_evidence_insert ::
  "resolution_env \<Rightarrow> headers \<Rightarrow> uuid \<Rightarrow> instant \<Rightarrow> evidence_write \<Rightarrow> resolution_state
   \<Rightarrow> (resolution_refusal + evidence_row) \<times> resolution_state" where
  "admin_evidence_insert env h i now req st =
     (case resolution_gate env h (ew_tenant_id req) st of
        Inl e \<Rightarrow> (Inl e, st)
      | Inr _ \<Rightarrow>
          (case insert_evidence i now req (rn_db st) (rn_ledger st) of
             Inl e \<Rightarrow> (Inl (ResolutionInternal e), st)
           | Inr (row, lg) \<Rightarrow> (Inr row, st\<lparr>rn_ledger := lg\<rparr>)))"

definition admin_evidence_retract ::
  "resolution_env \<Rightarrow> headers \<Rightarrow> instant \<Rightarrow> tenant_id \<Rightarrow> uuid \<Rightarrow> uuid option \<Rightarrow> resolution_state
   \<Rightarrow> (resolution_refusal + nat) \<times> resolution_state" where
  "admin_evidence_retract env h now t i superseded_by st =
     (case resolution_gate env h t st of
        Inl e \<Rightarrow> (Inl e, st)
      | Inr _ \<Rightarrow>
          (case retract_evidence now t i superseded_by (rn_ledger st) of
             Inl e \<Rightarrow> (Inl (ResolutionInternal e), st)
           | Inr (n, lg) \<Rightarrow> (Inr n, st\<lparr>rn_ledger := lg\<rparr>)))"

definition admin_resolution_config_get ::
  "resolution_env \<Rightarrow> headers \<Rightarrow> tenant_id \<Rightarrow> resolution_state \<Rightarrow> resolution_refusal + entity_resolution_config list" where
  "admin_resolution_config_get env h t st =
     (case admin_check (re_auth env) h of
        Inl e \<Rightarrow> Inl (ResolutionGate e) | Inr _ \<Rightarrow> Inr (list_resolution_config t (rn_ledger st)))"

definition admin_resolution_config_put ::
  "resolution_env \<Rightarrow> headers \<Rightarrow> entity_resolution_config \<Rightarrow> resolution_state
   \<Rightarrow> (resolution_refusal + unit) \<times> resolution_state" where
  "admin_resolution_config_put env h cfg st =
     (case resolution_gate env h (rc_tenant_id cfg) st of
        Inl e \<Rightarrow> (Inl e, st)
      | Inr _ \<Rightarrow>
          (case write_resolution_config cfg (rn_db st) (rn_ledger st) of
             Inl e \<Rightarrow> (Inl (ResolutionInternal e), st)
           | Inr lg \<Rightarrow> (Inr (), st\<lparr>rn_ledger := lg\<rparr>)))"

definition admin_trigger_fold ::
  "resolution_env \<Rightarrow> headers \<Rightarrow> tenant_id \<Rightarrow> resolution_state \<Rightarrow> materialize_report resolution_result" where
  "admin_trigger_fold env h t st =
     (case resolution_gate env h t st of
        Inl e \<Rightarrow> Some (Inl e, st)
      | Inr _ \<Rightarrow> map_option (\<lambda>(report, st1). (Inr report, st1)) (run_full_fold t st))"

definition admin_run_resolution ::
  "resolution_env \<Rightarrow> headers \<Rightarrow> instant \<Rightarrow> tenant_id \<Rightarrow> resolution_state \<Rightarrow> (nat \<times> materialize_report) resolution_result" where
  "admin_run_resolution env h now t st =
     (case resolution_gate env h t st of Inl e \<Rightarrow> Some (Inl e, st) | Inr _ \<Rightarrow> run_resolution env now t st)"

datatype entity_decision = Confirm | Reject

record entity_decision_request =
  dq_tenant_id :: tenant_id
  dq_left_ref :: string
  dq_right_ref :: string
  dq_decision :: entity_decision
  dq_note :: "string option"

record entity_decision_response =
  dr_evidence :: evidence_row
  dr_materialize :: materialize_report
  dr_left_canonical :: string
  dr_right_canonical :: string

definition decision_write :: "entity_decision_request \<Rightarrow> evidence_write" where
  "decision_write req =
     (let (method, polarity) = (case dq_decision req of Confirm \<Rightarrow> (''human_confirmed'', 1) | Reject \<Rightarrow> (''human_rejected'', - 1)) in
      \<lparr>ew_tenant_id = dq_tenant_id req, ew_left_ref = dq_left_ref req, ew_right_ref = dq_right_ref req, ew_tier = 2,
       ew_method = method, ew_key_value = None, ew_key_namespace = None, ew_score = None,
       ew_evidence_l0_ref = dq_note req, ew_polarity = polarity\<rparr>)"

definition admin_entity_decide ::
  "resolution_env \<Rightarrow> headers \<Rightarrow> uuid \<Rightarrow> instant \<Rightarrow> entity_decision_request \<Rightarrow> resolution_state
   \<Rightarrow> entity_decision_response resolution_result" where
  "admin_entity_decide env h i now req st =
     (case resolution_gate env h (dq_tenant_id req) st of
        Inl e \<Rightarrow> Some (Inl e, st)
      | Inr _ \<Rightarrow>
          (case insert_evidence i now (decision_write req) (rn_db st) (rn_ledger st) of
             Inl e \<Rightarrow> Some (Inl (ResolutionInternal e), st)
           | Inr (evidence, lg) \<Rightarrow>
               map_option (\<lambda>(report, st1).
                   (Inr \<lparr>dr_evidence = evidence, dr_materialize = report,
                      dr_left_canonical = resolve_canonical_for_ref (dq_tenant_id req) (dq_left_ref req) (rn_tables st1),
                      dr_right_canonical = resolve_canonical_for_ref (dq_tenant_id req) (dq_right_ref req) (rn_tables st1)\<rparr>, st1))
                 (run_full_fold (dq_tenant_id req) (st\<lparr>rn_ledger := lg\<rparr>))))"

section \<open>The pages are the sorted canonicals\<close>

declare canonical_keys_loop.simps [simp del]

lemma canonical_keys_loop_eq:
  "0 < page \<Longrightarrow> canonical_keys_loop page keys cursor out = out @ keys_after keys cursor"
proof (induction page keys cursor out rule: canonical_keys_loop.induct)
  case (1 page keys cursor out)
  let ?rows = "canonical_page page keys cursor" and ?rest = "keys_after keys cursor"
  have rows: "?rows = take page ?rest" by (simp add: canonical_page_def keys_after_def)
  show ?case
  proof (cases "?rows = []")
    case True
    with rows \<open>0 < page\<close> have "?rest = []" by simp
    with True show ?thesis by (subst canonical_keys_loop.simps) (simp add: Let_def)
  next
    case ne: False
    show ?thesis
    proof (cases "length ?rows < page")
      case True
      with rows have "?rows = ?rest" by simp
      with True ne show ?thesis by (subst canonical_keys_loop.simps) (simp add: Let_def)
    next
      case False
      from ne have "keys_after keys (Some (last (out @ ?rows))) = drop page ?rest" by (simp add: keys_after_page)
      with 1(1) [OF refl ne refl False 1(2)] False ne show ?thesis
        by (subst canonical_keys_loop.simps) (simp add: Let_def, simp add: rows)
    qed
  qed
qed

lemma all_canonical_keys_eq:
  "all_canonical_keys t rt = remdups_adj (sort (map al_canonical (filter (\<lambda>r. al_tenant_id r = t) (rt_aliases rt))))"
  by (simp add: all_canonical_keys_def canonical_keys_loop_eq keys_after_def)

section \<open>What a run writes\<close>

lemma find_upsert:
  "resolve_canonical t' s e (upsert_entity_alias t source entity c rt) =
     (if t' = t \<and> s = source \<and> e = entity then Some c else resolve_canonical t' s e rt)"
proof -
  let ?m = "\<lparr>am_source = source, am_entity_id = entity\<rparr>" and ?n = "\<lparr>am_source = s, am_entity_id = e\<rparr>"
  let ?hit = "\<lambda>r. al_tenant_id r = t \<and> al_member r = ?m" and ?look = "\<lambda>r. al_tenant_id r = t' \<and> al_member r = ?n"
  have u: "map_option al_canonical (List.find ?look (update_where ?hit (\<lambda>r. r\<lparr>al_canonical := c\<rparr>) rs)) =
     (if t' = t \<and> s = source \<and> e = entity then map_option (\<lambda>_. c) (List.find ?look rs)
      else map_option al_canonical (List.find ?look rs))" for rs
    by (induction rs) auto
  show ?thesis
  proof (cases "list_ex ?hit (rt_aliases rt)")
    case True
    then have "t' = t \<and> s = source \<and> e = entity \<Longrightarrow> List.find ?look (rt_aliases rt) \<noteq> None"
      by (auto simp: find_None_filter list_ex_iff)
    with True u [of "rt_aliases rt"] show ?thesis by (auto simp: resolve_canonical_def upsert_entity_alias_def Let_def)
  next
    case False
    then have "t' = t \<and> s = source \<and> e = entity \<Longrightarrow> List.find ?look (rt_aliases rt) = None"
      by (auto simp: find_None_filter list_ex_iff)
    with False show ?thesis
      by (auto simp: resolve_canonical_def upsert_entity_alias_def Let_def find_append split: option.splits)
  qed
qed

definition plan_member :: "alias_write list \<Rightarrow> string \<Rightarrow> string \<Rightarrow> bool" where
  "plan_member as s e \<longleftrightarrow> (\<exists>a \<in> set as. al_source a = s \<and> al_entity_id a = e)"

lemma write_aliases_other:
  "t' \<noteq> t \<or> \<not> plan_member as s e \<Longrightarrow> resolve_canonical t' s e (write_aliases t as rt) = resolve_canonical t' s e rt"
  by (induction as arbitrary: rt) (auto simp: find_upsert plan_member_def)

lemma write_aliases_member:
  "plan_member as s e \<Longrightarrow> (\<And>b. b \<in> set as \<Longrightarrow> al_source b = s \<Longrightarrow> al_entity_id b = e \<Longrightarrow> al_canonical_entity b = c) \<Longrightarrow>
    resolve_canonical t s e (write_aliases t as rt) = Some c"
proof (induction as arbitrary: rt)
  case (Cons b as)
  show ?case
  proof (cases "plan_member as s e")
    case True
    with Cons show ?thesis by simp
  next
    case False
    with Cons.prems(1) have "al_source b = s" "al_entity_id b = e" by (auto simp: plan_member_def)
    with False Cons.prems(2) show ?thesis by (simp add: write_aliases_other find_upsert)
  qed
qed (simp add: plan_member_def)

lemma write_link_meta_frame:
  "rn_db (write_link_meta t ms st) = rn_db st \<and> rn_ledger (write_link_meta t ms st) = rn_ledger st \<and>
   rt_aliases (rn_tables (write_link_meta t ms st)) = rt_aliases (rn_tables st)"
  by (induction ms arbitrary: st) (auto simp: upsert_entity_link_meta_def spawn_fold_audit_def Let_def)

lemma write_chunk_tags_frame:
  "write_chunk_tags t cts db = (n, db') \<Longrightarrow> db_facts db' = db_facts db \<and> db_tenants db' = db_tenants db"
proof (induction cts arbitrary: db n)
  case (Cons ct cts)
  have up: "chunk_entity_tags_upsert t s d k tags db = (m, db1) \<Longrightarrow> db_facts db1 = db_facts db \<and> db_tenants db1 = db_tenants db" for s d k tags m db1
    by (auto simp: chunk_entity_tags_upsert_def mark_briefs_stale_tx_def Let_def)
  show ?case
  proof (cases "parse_chunk_ref (ct_subject_ref ct)")
    case None
    with Cons show ?thesis by simp
  next
    case (Some p)
    obtain s d k where p: "p = (s, d, k)" by (rule prod_cases3)
    obtain m db1 where u: "chunk_entity_tags_upsert t s d k (ct_tags ct) db = (m, db1)" by (rule prod.exhaust)
    obtain r db2 where w: "write_chunk_tags t cts db1 = (r, db2)" by (rule prod.exhaust)
    from Cons.prems Some p u w have "db2 = db'" by simp
    with Cons.IH [OF w [unfolded this]] up [OF u] show ?thesis by simp
  qed
qed simp

lemma resolve_canonical_cong: "rt_aliases rt = rt_aliases rt' \<Longrightarrow> resolve_canonical t s e rt = resolve_canonical t s e rt'"
  by (simp add: resolve_canonical_def)

lemma tenant_fold_total: "\<exists>plan. tenant_fold t st = Some plan"
  unfolding tenant_fold_def using fold_result by blast

lemma run_full_fold_Some:
  assumes "tenant_fold t st = Some plan"
  shows "\<exists>report st'. run_full_fold t st = Some (report, st') \<and> rn_ledger st' = rn_ledger st \<and>
    db_facts (rn_db st') = db_facts (rn_db st) \<and> db_tenants (rn_db st') = db_tenants (rn_db st) \<and>
    rt_aliases (rn_tables st') = rt_aliases (write_aliases t (fp_aliases plan) (rn_tables st)) \<and>
    mt_aliases_written report = length (fp_aliases plan) \<and> mt_review_items report = length (fp_review plan)"
proof -
  obtain n db1 where w: "write_chunk_tags t (fp_chunk_tags plan) (rn_db st) = (n, db1)" by (rule prod.exhaust)
  with write_chunk_tags_frame [OF w] assms show ?thesis by (simp add: run_full_fold_def Let_def write_link_meta_frame)
qed

text \<open>Two alias writes of a plan for one member agree.\<close>

lemma plan_functional:
  assumes "tenant_fold t st = Some plan" "a \<in> set (fp_aliases plan)" "b \<in> set (fp_aliases plan)"
    and "al_source b = al_source a" "al_entity_id b = al_entity_id a"
  shows "al_canonical_entity b = al_canonical_entity a"
  using fold_aliases_component(1) [OF assms(1) [unfolded tenant_fold_def] assms(3,2)] assms(4,5)
  by (simp add: alias_ref_def uf.linked_def)

lemma fold_run_effects:
  "\<exists>plan report st'. tenant_fold t st = Some plan \<and> run_full_fold t st = Some (report, st') \<and>
    (\<forall>a \<in> set (fp_aliases plan). resolve_canonical t (al_source a) (al_entity_id a) (rn_tables st') = Some (al_canonical_entity a)) \<and>
    (\<forall>t' s e. t' \<noteq> t \<or> \<not> plan_member (fp_aliases plan) s e \<longrightarrow>
       resolve_canonical t' s e (rn_tables st') = resolve_canonical t' s e (rn_tables st)) \<and>
    rn_ledger st' = rn_ledger st \<and> db_facts (rn_db st') = db_facts (rn_db st) \<and>
    mt_aliases_written report = length (fp_aliases plan) \<and> mt_review_items report = length (fp_review plan)"
proof -
  obtain plan where plan: "tenant_fold t st = Some plan" using tenant_fold_total by blast
  from run_full_fold_Some [OF plan] obtain report st' where run: "run_full_fold t st = Some (report, st')"
    "rn_ledger st' = rn_ledger st" "db_facts (rn_db st') = db_facts (rn_db st)"
    "rt_aliases (rn_tables st') = rt_aliases (write_aliases t (fp_aliases plan) (rn_tables st))"
    "mt_aliases_written report = length (fp_aliases plan)" "mt_review_items report = length (fp_review plan)" by blast
  note look = resolve_canonical_cong [OF run(4)]
  have "resolve_canonical t (al_source a) (al_entity_id a) (rn_tables st') = Some (al_canonical_entity a)"
    if "a \<in> set (fp_aliases plan)" for a
    unfolding look
  proof (rule write_aliases_member)
    show "plan_member (fp_aliases plan) (al_source a) (al_entity_id a)" using that by (auto simp: plan_member_def)
  qed (rule plan_functional [OF plan that])
  moreover have "resolve_canonical t' s e (rn_tables st') = resolve_canonical t' s e (rn_tables st)"
    if "t' \<noteq> t \<or> \<not> plan_member (fp_aliases plan) s e" for t' s e
    unfolding look using that by (rule write_aliases_other)
  ultimately show ?thesis using plan run by blast
qed

text \<open>
  A materializing run always returns. Afterwards every member the fold placed resolves to the canonical the
  fold chose; every other member of the tenant, and every member of another tenant, resolves as before.
  The ledger and the facts are untouched, so the fold of the same ledger can be run again.
\<close>

theorem fold_run_materializes:
  "\<exists>plan report st'. tenant_fold t st = Some plan \<and> run_full_fold t st = Some (report, st') \<and>
    (\<forall>a \<in> set (fp_aliases plan). resolve_canonical t (al_source a) (al_entity_id a) (rn_tables st') = Some (al_canonical_entity a)) \<and>
    (\<forall>t' s e. t' \<noteq> t \<or> \<not> plan_member (fp_aliases plan) s e \<longrightarrow>
       resolve_canonical t' s e (rn_tables st') = resolve_canonical t' s e (rn_tables st)) \<and>
    rn_ledger st' = rn_ledger st \<and> db_facts (rn_db st') = db_facts (rn_db st) \<and>
    mt_aliases_written report = length (fp_aliases plan) \<and> mt_review_items report = length (fp_review plan)"
  by (rule fold_run_effects)

lemma member_of_plan:
  assumes "tenant_fold t st = Some plan" "run_full_fold t st = Some (report, st')"
    and "resolve_canonical t s e (rn_tables st) = None" "resolve_canonical t s e (rn_tables st') = Some c"
  obtains a where "a \<in> set (fp_aliases plan)" "al_source a = s" "al_entity_id a = e" "al_canonical_entity a = c"
proof -
  from run_full_fold_Some [OF assms(1)] assms(2)
  have al: "rt_aliases (rn_tables st') = rt_aliases (write_aliases t (fp_aliases plan) (rn_tables st))" by auto
  have "plan_member (fp_aliases plan) s e"
  proof (rule ccontr)
    assume "\<not> plan_member (fp_aliases plan) s e"
    then have "resolve_canonical t s e (write_aliases t (fp_aliases plan) (rn_tables st)) = resolve_canonical t s e (rn_tables st)"
      by (intro write_aliases_other disjI2)
    with resolve_canonical_cong [OF al, of t s e] assms(3,4) show False by simp
  qed
  then obtain a where a: "a \<in> set (fp_aliases plan)" "al_source a = s" "al_entity_id a = e" by (auto simp: plan_member_def)
  have "resolve_canonical t s e (write_aliases t (fp_aliases plan) (rn_tables st)) = Some (al_canonical_entity a)"
  proof (rule write_aliases_member)
    show "plan_member (fp_aliases plan) s e" by fact
    show "al_canonical_entity b = al_canonical_entity a"
      if "b \<in> set (fp_aliases plan)" "al_source b = s" "al_entity_id b = e" for b
      by (rule plan_functional [OF assms(1) a(1) that(1)]) (simp_all add: a that)
  qed
  with resolve_canonical_cong [OF al, of t s e] assms(4) have "al_canonical_entity a = c" by simp
  with a that show ?thesis by blast
qed

lemma anti_row_splits:
  assumes "tenant_fold t st = Some plan" "x \<in> set (all_live_evidence t (rn_ledger st))" "anti_row x"
    and "a \<in> set (fp_aliases plan)" "b \<in> set (fp_aliases plan)"
    and "alias_ref a = ev_left_ref x" "alias_ref b = ev_right_ref x"
  shows "al_canonical_entity a \<noteq> al_canonical_entity b"
proof
  let ?live = "all_live_evidence t (rn_ledger st)" and ?cfg = "tenant_config t (rn_ledger st)"
  assume "al_canonical_entity a = al_canonical_entity b"
  with fold_aliases_component(2) [OF assms(1) [unfolded tenant_fold_def] assms(4,5)] obtain ms where
    ms: "component_passes ?cfg (run_roles ?live ?cfg) ms" "ev_left_ref x \<in> set ms" "ev_right_ref x \<in> set ms"
    using assms(6,7) by metis
  have "ev_tenant_id x = t" using assms(2) by (simp add: all_live_evidence_def)
  then have "evidence_pair x \<in> set (fst (run_roles ?live ?cfg))"
    using assms(2,3) by (simp add: run_roles_def fold_roles_sets(1) set_fold_evidence tenant_config_def fold_config_new_def)
  with ms show False
    by (auto simp: component_passes_def list_ex_iff evidence_pair_def unordered_pair_def split: if_splits)
qed

text \<open>
  C34: The human gate : when the decision route rejects a pair whose members had no alias before,
  the run it triggers leaves the two references without a common canonical, whatever else links them.
\<close>

theorem rejected_pair_stays_apart:
  assumes "admin_entity_decide env h i now req st = Some (Inr resp, st')" "dq_decision req = Reject"
    and "split_member_ref (dq_left_ref req) = Some m" "split_member_ref (dq_right_ref req) = Some n"
    and "resolve_canonical (dq_tenant_id req) (mr_source m) (mr_entity_id m) (rn_tables st) = None"
    and "resolve_canonical (dq_tenant_id req) (mr_source n) (mr_entity_id n) (rn_tables st) = None"
  shows "resolve_canonical (dq_tenant_id req) (mr_source m) (mr_entity_id m) (rn_tables st') = Some c \<Longrightarrow>
    resolve_canonical (dq_tenant_id req) (mr_source n) (mr_entity_id n) (rn_tables st') \<noteq> Some c"
proof
  let ?t = "dq_tenant_id req" and ?row = "evidence_row_of i now (decision_write req)"
  define st0 where "st0 = st\<lparr>rn_ledger := (rn_ledger st)\<lparr>lg_evidence := lg_evidence (rn_ledger st) @ [?row]\<rparr>\<rparr>"
  assume c: "resolve_canonical ?t (mr_source m) (mr_entity_id m) (rn_tables st') = Some c"
    "resolve_canonical ?t (mr_source n) (mr_entity_id n) (rn_tables st') = Some c"
  from assms(1) obtain report where run: "run_full_fold ?t st0 = Some (report, st')"
    by (auto simp: admin_entity_decide_def insert_evidence_def st0_def Let_def split: sum.splits if_splits)
  obtain plan where plan: "tenant_fold ?t st0 = Some plan" using tenant_fold_total by blast
  obtain a where a: "a \<in> set (fp_aliases plan)" "al_source a = mr_source m" "al_entity_id a = mr_entity_id m" "al_canonical_entity a = c"
    by (rule member_of_plan [OF plan run _ c(1)]) (use assms(5) in \<open>simp_all add: st0_def\<close>)
  obtain b where b: "b \<in> set (fp_aliases plan)" "al_source b = mr_source n" "al_entity_id b = mr_entity_id n" "al_canonical_entity b = c"
    by (rule member_of_plan [OF plan run _ c(2)]) (use assms(6) in \<open>simp_all add: st0_def\<close>)
  have "?row \<in> set (all_live_evidence ?t (rn_ledger st0))"
    by (simp add: all_live_evidence_def st0_def evidence_row_of_def decision_write_def assms(2))
  moreover have "anti_row ?row" by (simp add: anti_row_def evidence_row_of_def decision_write_def assms(2))
  moreover have "alias_ref a = ev_left_ref ?row" "alias_ref b = ev_right_ref ?row"
    using split_member_ref_Some [OF assms(3)] split_member_ref_Some [OF assms(4)] a b
    by (simp_all add: alias_ref_def evidence_row_of_def decision_write_def assms(2))
  ultimately show False using anti_row_splits [OF plan, of ?row a b] a(1,4) b(1,4) by simp
qed

definition sample_resolution_env :: resolution_env where
  "sample_resolution_env = \<lparr>re_auth = \<lparr>ad_mac = (\<lambda>s. s), ad_expected_tag = None, ad_allowed_origin = None\<rparr>,
     re_producer = sample_producer_env, re_orders = insertion_orders\<rparr>"

definition no_headers :: headers where
  "no_headers = \<lparr>hd_authorization = None, hd_origin = None\<rparr>"

definition linked_state :: "evidence_row list \<Rightarrow> alias_row list \<Rightarrow> resolution_state" where
  "linked_state rows aliases = \<lparr>rn_db = empty_db\<lparr>db_tenants := [1]\<rparr>, rn_ledger = \<lparr>lg_evidence = rows, lg_config = []\<rparr>,
     rn_tables = \<lparr>rt_aliases = aliases, rt_precedence = [], rt_link_meta = []\<rparr>, rn_audit = []\<rparr>"

definition decision_on :: "entity_decision \<Rightarrow> string \<Rightarrow> string \<Rightarrow> entity_decision_request" where
  "decision_on d l r = \<lparr>dq_tenant_id = 1, dq_left_ref = l, dq_right_ref = r, dq_decision = d, dq_note = None\<rparr>"

definition two_links :: "evidence_row list" where
  "two_links = [sample_evidence 1 ''crm:a'' ''erp:b'' 1 ''crm_fk'' None 1, sample_evidence 3 ''hub:c'' ''sup:d'' 1 ''crm_fk'' None 1]"

lemma reject_runs:
  "case admin_entity_decide sample_resolution_env no_headers 9 50 (decision_on Reject ''hub:c'' ''crm:a'') (linked_state two_links []) of
     Some (Inr resp, st') \<Rightarrow> resolve_canonical 1 ''hub'' ''c'' (rn_tables st') = Some ''canon:hub:c'' \<and>
       resolve_canonical 1 ''crm'' ''a'' (rn_tables st') \<noteq> None
   | _ \<Rightarrow> False"
  by code_simp

theorem rejected_pair_stays_apart_witness:
  "\<exists>resp st'. admin_entity_decide sample_resolution_env no_headers 9 50 (decision_on Reject ''hub:c'' ''crm:a'') (linked_state two_links []) =
      Some (Inr resp, st') \<and> resolve_canonical 1 ''hub'' ''c'' (rn_tables st') = Some ''canon:hub:c'' \<and>
     resolve_canonical 1 ''crm'' ''a'' (rn_tables st') \<noteq> Some ''canon:hub:c''"
proof -
  let ?run = "admin_entity_decide sample_resolution_env no_headers 9 50 (decision_on Reject ''hub:c'' ''crm:a'') (linked_state two_links [])"
  obtain x st' where x: "?run = Some (x, st')" using reject_runs by (cases ?run) auto
  then obtain resp where "x = Inr resp" using reject_runs by (cases x) simp_all
  with x have r: "?run = Some (Inr resp, st')" by simp
  then have r2: "resolve_canonical 1 ''hub'' ''c'' (rn_tables st') = Some ''canon:hub:c''" using reject_runs by simp
  have "split_member_ref ''hub:c'' = Some \<lparr>mr_source = ''hub'', mr_entity_id = ''c''\<rparr>"
    "split_member_ref ''crm:a'' = Some \<lparr>mr_source = ''crm'', mr_entity_id = ''a''\<rparr>" by code_simp+
  with rejected_pair_stays_apart [OF r, of "\<lparr>mr_source = ''hub'', mr_entity_id = ''c''\<rparr>" "\<lparr>mr_source = ''crm'', mr_entity_id = ''a''\<rparr>" "''canon:hub:c''"] r r2
  show ?thesis by (auto simp: decision_on_def linked_state_def resolve_canonical_def)
qed

section \<open>What a run never undoes\<close>

text \<open>
  No writer removes an alias, so a pair that has been merged stays merged: the fold quarantines the rejected
  component, its members drop out of the plan, and the rows of the earlier run keep resolving them to one
  canonical. The same holds after the only link has been retracted and the fold run again.
\<close>

definition one_link :: "evidence_row list" where
  "one_link = [sample_evidence 1 ''crm:a'' ''erp:b'' 1 ''crm_fk'' None 1]"

lemma reject_after_merge_keeps_alias:
  "case admin_trigger_fold sample_resolution_env no_headers 1 (linked_state one_link []) of Some (Inr _, st1) \<Rightarrow>
     (case admin_entity_decide sample_resolution_env no_headers 9 50 (decision_on Reject ''crm:a'' ''erp:b'') st1 of
        Some (Inr resp, _) \<Rightarrow> mt_review_items (dr_materialize resp) = 1 \<and>
          dr_left_canonical resp = ''canon:crm:a'' \<and> dr_right_canonical resp = ''canon:crm:a''
      | _ \<Rightarrow> False)
   | _ \<Rightarrow> False"
  by code_simp

lemma retract_after_merge_keeps_alias:
  "case admin_trigger_fold sample_resolution_env no_headers 1 (linked_state one_link []) of Some (Inr _, st1) \<Rightarrow>
     (case admin_evidence_retract sample_resolution_env no_headers 50 1 1 None st1 of (Inr n, st2) \<Rightarrow>
        (case admin_trigger_fold sample_resolution_env no_headers 1 st2 of
           Some (Inr report, st3) \<Rightarrow> n = 1 \<and> mt_evidence_considered report = 0 \<and>
             resolve_canonical_for_ref 1 ''crm:a'' (rn_tables st3) = ''canon:crm:a'' \<and>
             resolve_canonical_for_ref 1 ''erp:b'' (rn_tables st3) = ''canon:crm:a''
         | _ \<Rightarrow> False)
      | _ \<Rightarrow> False)
   | _ \<Rightarrow> False"
  by code_simp

text \<open>
  A chunk's tags are replaced, not extended, and only the briefs of the new tags go stale: the brief of an
  entity the chunk was taken from stays as it was.
\<close>

lemma retag_keeps_old_brief:
  assumes "chunk_entity_tags_upsert t source doc seq tags db = (n, db')" "b \<in> set (db_briefs db)" "br_entity b \<notin> set tags"
  shows "b \<in> set (db_briefs db')"
  using assms by (force simp: chunk_entity_tags_upsert_def mark_briefs_stale_tx_def Let_def update_where_def split: if_splits)

section \<open>Repeated runs converge\<close>

lemma insert_writes_tenants: "db_tenants db' = db_tenants db \<Longrightarrow> insert_writes env now db' ws lg n = insert_writes env now db ws lg n"
  by (induction ws arbitrary: lg n) (auto simp: insert_evidence_with_id_def split: sum.splits)

lemma produce_tier1_frame:
  assumes "db_facts db' = db_facts db" "db_tenants db' = db_tenants db"
  shows "produce_tier1_evidence env ho now t db' lg = produce_tier1_evidence env ho now t db lg"
  using insert_writes_tenants [OF assms(2)] assms(1)
  by (simp add: produce_tier1_evidence_def tier1_writes_def tier1_inputs_of_def list_current_facts_grouped_def)

lemma fold_aliases_known:
  assumes "fold_with_known_canonicals live cfg known = Some p" "fold_with_known_canonicals live cfg known' = Some q"
  shows "fp_aliases p = fp_aliases q"
  using assms by (auto simp: fold_with_known_canonicals_def Let_def sort_plan_def tag_fold_aliases split: Option.bind_splits)

text \<open>
  C35: A resolution run over a known tenant always succeeds, and running it again right after changes nothing that
  is read: no evidence is produced, the ledger stays, the same number of aliases is written, and every member
  of every tenant resolves as after the first run - whatever the clocks and hash iteration orders.
\<close>

theorem resolution_converges:
  assumes "t \<in> set (db_tenants (rn_db st))" "hash_orders_ok (re_orders env)" "hash_orders_ok ho"
  shows "\<exists>n report st1 report' st2. run_resolution env now t st = Some (Inr (n, report), st1) \<and>
    run_resolution (env\<lparr>re_orders := ho\<rparr>) now' t st1 = Some (Inr (0, report'), st2) \<and>
    rn_ledger st2 = rn_ledger st1 \<and> mt_aliases_written report' = mt_aliases_written report \<and>
    (\<forall>t' s e. resolve_canonical t' s e (rn_tables st2) = resolve_canonical t' s e (rn_tables st1))"
proof -
  let ?produce = "produce_tier1_evidence (re_producer env)"
  obtain n lg where p: "?produce (re_orders env) now t (rn_db st) (rn_ledger st) = (Inr n, lg)"
    "?produce ho now' t (rn_db st) lg = (Inr 0, lg)"
    using produce_tier1_twice [OF assms] by blast
  let ?st0 = "st\<lparr>rn_ledger := lg\<rparr>"
  obtain plan where plan: "tenant_fold t ?st0 = Some plan" using tenant_fold_total by blast
  from run_full_fold_Some [OF plan] obtain report st1 where r1: "run_full_fold t ?st0 = Some (report, st1)"
    "rn_ledger st1 = lg" "db_facts (rn_db st1) = db_facts (rn_db st)" "db_tenants (rn_db st1) = db_tenants (rn_db st)"
    "mt_aliases_written report = length (fp_aliases plan)" by auto
  have p2: "?produce ho now' t (rn_db st1) (rn_ledger st1) = (Inr 0, lg)"
    unfolding r1(2) produce_tier1_frame [OF r1(3,4)] by (rule p(2))
  from fold_run_effects [of t ?st0] plan r1(1) have e1:
    "\<forall>a \<in> set (fp_aliases plan). resolve_canonical t (al_source a) (al_entity_id a) (rn_tables st1) = Some (al_canonical_entity a)" by auto
  from fold_run_effects [of t st1] obtain plan2 report' st2 where r2: "tenant_fold t st1 = Some plan2"
    "run_full_fold t st1 = Some (report', st2)" "rn_ledger st2 = rn_ledger st1"
    "mt_aliases_written report' = length (fp_aliases plan2)"
    "\<forall>a \<in> set (fp_aliases plan2). resolve_canonical t (al_source a) (al_entity_id a) (rn_tables st2) = Some (al_canonical_entity a)"
    "\<forall>t' s e. t' \<noteq> t \<or> \<not> plan_member (fp_aliases plan2) s e \<longrightarrow>
       resolve_canonical t' s e (rn_tables st2) = resolve_canonical t' s e (rn_tables st1)" by blast
  have same: "fp_aliases plan2 = fp_aliases plan"
    using plan r2(1) unfolding tenant_fold_def r1(2) by (auto intro: fold_aliases_known)
  have "resolve_canonical t' s e (rn_tables st2) = resolve_canonical t' s e (rn_tables st1)" for t' s e
  proof (cases "t' = t \<and> plan_member (fp_aliases plan) s e")
    case True
    then obtain a where "a \<in> set (fp_aliases plan)" "al_source a = s" "al_entity_id a = e" "t' = t" by (auto simp: plan_member_def)
    with e1 r2(5) same show ?thesis by metis
  next
    case False
    with r2(6) same show ?thesis by auto
  qed
  moreover have "run_resolution env now t st = Some (Inr (n, report), st1)" using p(1) r1(1) by (simp add: run_resolution_def)
  moreover have e: "st1\<lparr>rn_ledger := lg\<rparr> = st1" using r1(2) by (cases st1) simp
  have "run_resolution (env\<lparr>re_orders := ho\<rparr>) now' t st1 = Some (Inr (0, report'), st2)"
    using p2 r2(2) by (simp add: run_resolution_def e)
  moreover have "mt_aliases_written report' = mt_aliases_written report" using r1(5) r2(4) same by simp
  ultimately show ?thesis using r2(3) by blast
qed

theorem resolution_converges_witness:
  "\<exists>n report st1 report' st2. run_resolution sample_resolution_env 5 1 ((linked_state [] [])\<lparr>rn_db := contacts_db\<rparr>) = Some (Inr (n, report), st1) \<and>
    run_resolution (sample_resolution_env\<lparr>re_orders := reverse_orders\<rparr>) 9 1 st1 = Some (Inr (0, report'), st2) \<and>
    (\<forall>t' s e. resolve_canonical t' s e (rn_tables st2) = resolve_canonical t' s e (rn_tables st1))"
proof -
  let ?st = "(linked_state [] [])\<lparr>rn_db := contacts_db\<rparr>"
  have "1 \<in> set (db_tenants (rn_db ?st))" "hash_orders_ok (re_orders sample_resolution_env)"
    using sample_orders_ok(1) by (simp_all add: contacts_db_def sample_resolution_env_def)
  from resolution_converges [OF this sample_orders_ok(2), of 5 9] show ?thesis by blast
qed

end
