(* ===== verification/Consolidation.thy ===== *)
theory Consolidation
  imports Canon Fact_Cache Fact_Labels Identity_Admin
begin

text \<open>
  The consolidation plane (\<^verbatim>\<open>verity-server/src/consolidation.rs\<close>) and the knowledge operations of the
  Postgres adapter it drives: leasing episodes to a worker, completing them (derived facts, tag
  suggestions, knowledge candidates), the merge cascade with its promotion gate, the blocker's candidate
  set and the review of suggested tags. The columns of \<^verbatim>\<open>knowledge\<close> that only this plane touches are maps of
  the state. The encoder, the vector distance and the decrypted payloads are parameters; fresh ids come
  from \<open>fresh lane index\<close>.
\<close>

section \<open>State\<close>

record processing_row =
  lp_tenant_id :: tenant_id
  lp_episode_id :: episode_id
  lp_leased_until :: instant
  lp_processed_at :: "instant option"
  lp_worker :: string

record suggestion_row =
  ts_id :: uuid
  ts_tenant_id :: tenant_id
  ts_chunk_id :: uuid
  ts_tag :: string
  ts_confidence :: rat
  ts_status :: string
  ts_created_at :: instant

record consolidation_state =
  cs_adapter :: "database cached_adapter"
  cs_processing :: "processing_row list"
  cs_suggestions :: "suggestion_row list"
  cs_settings :: "(tenant_id option \<times> string \<times> string) list"
  cs_embeddings :: "uuid \<rightharpoonup> rat list"
  cs_eligible_at :: "uuid \<rightharpoonup> instant"
  cs_rejected_reason :: "uuid \<rightharpoonup> string"

record consolidation_env =
  cn_auth :: admin_auth
  cn_auto_tag :: bool
  cn_auto_merge :: bool
  cn_encode :: "string \<Rightarrow> rat list option"
  cn_distance :: "rat list \<Rightarrow> rat list \<Rightarrow> rat"
  cn_uuid_str :: "uuid \<Rightarrow> string"
  cn_payload :: "tenant_id \<Rightarrow> episode_id \<Rightarrow> json option"
  cn_fresh :: "nat \<Rightarrow> nat \<Rightarrow> uuid"

datatype consolidation_refusal =
    ConsolidationGate id_refusal
  | ConsolidationTenant storage_error
  | ConsolidationInternal storage_error
  | NeverLeased
  | SuggestedChunkUnknown uuid
  | NoSuchSuggestion

fun consolidation_status :: "consolidation_refusal \<Rightarrow> nat" where
  "consolidation_status (ConsolidationGate e) = id_status e"
| "consolidation_status (ConsolidationTenant _) = 404"
| "consolidation_status (ConsolidationInternal _) = 500"
| "consolidation_status NeverLeased = 422"
| "consolidation_status (SuggestedChunkUnknown _) = 422"
| "consolidation_status NoSuchSuggestion = 422"

type_synonym 'a cons_result = "(consolidation_refusal + 'a) \<times> consolidation_state"

fun bind_c :: "'a cons_result \<Rightarrow> ('a \<Rightarrow> consolidation_state \<Rightarrow> 'b cons_result) \<Rightarrow> 'b cons_result" where
  "bind_c (Inl e, st) f = (Inl e, st)"
| "bind_c (Inr a, st) f = f a st"

abbreviation cs_db :: "consolidation_state \<Rightarrow> database" where
  "cs_db st \<equiv> ca_inner (cs_adapter st)"

definition on_cons_db :: "(database \<Rightarrow> database) \<Rightarrow> consolidation_state \<Rightarrow> consolidation_state" where
  "on_cons_db f st = st\<lparr>cs_adapter := pass_through f (cs_adapter st)\<rparr>"

definition consolidation_gate :: "consolidation_env \<Rightarrow> headers \<Rightarrow> tenant_id \<Rightarrow> consolidation_state \<Rightarrow> consolidation_refusal + unit" where
  "consolidation_gate env h t st =
     (case admin_check (cn_auth env) h of
        Inl e \<Rightarrow> Inl (ConsolidationGate e)
      | Inr _ \<Rightarrow> (case ensure_tenant t (cs_db st) of Inl e \<Rightarrow> Inl (ConsolidationTenant e) | Inr u \<Rightarrow> Inr u))"

definition LEASE_MINUTES :: int where
  "LEASE_MINUTES = 5"

definition AUTO_TAG_MIN_CONFIDENCE :: rat where
  "AUTO_TAG_MIN_CONFIDENCE = 15099494 / 2 ^ 24"

definition TAU_BLOCK :: rat where
  "TAU_BLOCK = 15099494 / 2 ^ 25"

definition BLOCKER_CANDIDATE_CAP :: nat where
  "BLOCKER_CANDIDATE_CAP = 8"

definition K_SUPPORT_MIN :: int where
  "K_SUPPORT_MIN = 3"

definition normalize_term :: "string \<Rightarrow> string" where
  "normalize_term s = to_ascii_lowercase (join '' '' (split_whitespace s))"

section \<open>Leasing\<close>

definition of_episode :: "tenant_id \<Rightarrow> episode_id \<Rightarrow> processing_row \<Rightarrow> bool" where
  "of_episode t e p \<longleftrightarrow> lp_tenant_id p = t \<and> lp_episode_id p = e"

definition leasable :: "instant \<Rightarrow> tenant_id \<Rightarrow> processing_row list \<Rightarrow> episode_row \<Rightarrow> bool" where
  "leasable now t rows e \<longleftrightarrow> ep_tenant_id e = t \<and> ep_kind e \<in> {''observation'', ''webhook'', ''doc_version''} \<and>
     (case List.find (of_episode t (ep_id e)) rows of
        None \<Rightarrow> True
      | Some p \<Rightarrow> lp_processed_at p = None \<and> lp_leased_until p < now)"

definition lease_until :: "instant \<Rightarrow> instant" where
  "lease_until now = now + LEASE_MINUTES * 60000000"

text \<open>\<^verbatim>\<open>INSERT ... ON CONFLICT DO UPDATE ... WHERE\<close> for one claimed episode.\<close>

definition claim :: "instant \<Rightarrow> tenant_id \<Rightarrow> string \<Rightarrow> processing_row list \<Rightarrow> episode_id \<Rightarrow> processing_row list" where
  "claim now t worker rows e =
     (if list_ex (of_episode t e) rows
      then update_where (\<lambda>p. of_episode t e p \<and> lp_processed_at p = None \<and> lp_leased_until p < now)
             (\<lambda>p. p\<lparr>lp_leased_until := lease_until now, lp_worker := worker\<rparr>) rows
      else rows @ [\<lparr>lp_tenant_id = t, lp_episode_id = e, lp_leased_until = lease_until now, lp_processed_at = None, lp_worker = worker\<rparr>])"

record leased_episode =
  le_episode :: episode_row
  le_leased_until :: instant
  le_payload :: json
  le_chunks :: "(uuid \<times> string \<times> string list) list"

definition lease_candidates :: "instant \<Rightarrow> tenant_id \<Rightarrow> int \<Rightarrow> consolidation_state \<Rightarrow> episode_row list" where
  "lease_candidates now t limit st =
     take (nat (clamp 1 256 limit)) (sort_key ep_recorded_at (filter (leasable now t (cs_processing st)) (db_episodes (cs_db st))))"

definition leased_view :: "consolidation_env \<Rightarrow> instant \<Rightarrow> tenant_id \<Rightarrow> database \<Rightarrow> episode_row \<Rightarrow> leased_episode" where
  "leased_view env now t db e =
     \<lparr>le_episode = e, le_leased_until = lease_until now,
      le_payload = (case cn_payload env t (ep_id e) of None \<Rightarrow> JNull | Some p \<Rightarrow> p),
      le_chunks = map (\<lambda>c. (ch_id c, ch_content c, ch_entity_tags c)) (sort_key ch_seq
        (filter (\<lambda>c. ch_tenant_id c = t \<and> ch_provenance c = ep_id e \<and> ch_valid_to c = None) (db_chunks db)))\<rparr>"

definition lease :: "consolidation_env \<Rightarrow> headers \<Rightarrow> instant \<Rightarrow> tenant_id \<Rightarrow> int \<Rightarrow> string option \<Rightarrow> consolidation_state
   \<Rightarrow> leased_episode list cons_result" where
  "lease env h now t limit worker st =
     (case consolidation_gate env h t st of
        Inl e \<Rightarrow> (Inl e, st)
      | Inr _ \<Rightarrow>
          let cand = lease_candidates now t limit st;
              w = (case worker of None \<Rightarrow> ''worker'' | Some w \<Rightarrow> w);
              st1 = st\<lparr>cs_processing := foldl (claim now t w) (cs_processing st) (map ep_id cand)\<rparr>
          in (Inr (map (leased_view env now t (cs_db st)) cand), st1))"

section \<open>Derived access\<close>

definition episode_chunks :: "tenant_id \<Rightarrow> episode_id \<Rightarrow> database \<Rightarrow> chunk_row list" where
  "episode_chunks t e db = filter (\<lambda>c. ch_tenant_id c = t \<and> ch_provenance c = e \<and> ch_valid_to c = None) (db_chunks db)"

definition intersect_step :: "principal_token list option \<times> int \<Rightarrow> chunk_row \<Rightarrow> principal_token list option \<times> int" where
  "intersect_step acc c = (case acc of (seen_vis, max_conf) \<Rightarrow>
     (Some (case seen_vis of None \<Rightarrow> remdups (ch_visibility c) | Some xs \<Rightarrow> filter (\<lambda>p. p \<in> set (ch_visibility c)) xs),
      max max_conf (conf_code (ch_confidentiality c))))"

definition derive_l2_acl :: "tenant_id \<Rightarrow> episode_id \<Rightarrow> database \<Rightarrow> principal_token list \<times> confidentiality" where
  "derive_l2_acl t e db =
     (let rows = episode_chunks t e db in
      if rows = [] then ([], Restricted)
      else case foldl intersect_step (None, 0) rows of (seen_vis, max_conf) \<Rightarrow>
        (sort (case seen_vis of None \<Rightarrow> [] | Some xs \<Rightarrow> xs), confidentiality_from_i16 max_conf))"

section \<open>Knowledge operations of the adapter\<close>

definition knowledge_item_of :: "tenant_id \<Rightarrow> uuid \<Rightarrow> database \<Rightarrow> knowledge_item option" where
  "knowledge_item_of t i db =
     map_option row_to_knowledge (List.find (\<lambda>k. kn_tenant_id k = t \<and> kn_id k = i) (db_knowledge db))"

definition setting :: "tenant_id \<Rightarrow> string \<Rightarrow> consolidation_state \<Rightarrow> string option" where
  "setting t key st =
     (case List.find (\<lambda>(o', k, v). o' = Some t \<and> k = key) (cs_settings st) of
        Some (_, _, v) \<Rightarrow> Some v
      | None \<Rightarrow> map_option (\<lambda>(_, _, v). v) (List.find (\<lambda>(o', k, v). o' = None \<and> k = key) (cs_settings st)))"

definition knowledge_auto_publish :: "tenant_id \<Rightarrow> consolidation_state \<Rightarrow> bool" where
  "knowledge_auto_publish t st =
     (case setting t ''knowledge_auto_publish'' st of None \<Rightarrow> False | Some v \<Rightarrow> eq_ignore_ascii_case (trim v) ''true'')"

definition set_knowledge_auto_publish :: "tenant_id option \<Rightarrow> bool \<Rightarrow> consolidation_state \<Rightarrow> consolidation_state" where
  "set_knowledge_auto_publish t enabled st =
     (let v = (if enabled then ''true'' else ''false'') in
      if list_ex (\<lambda>(o', k, _). o' = t \<and> k = ''knowledge_auto_publish'') (cs_settings st)
      then st\<lparr>cs_settings := map (\<lambda>(o', k, w). if o' = t \<and> k = ''knowledge_auto_publish'' then (o', k, v) else (o', k, w)) (cs_settings st)\<rparr>
      else st\<lparr>cs_settings := cs_settings st @ [(t, ''knowledge_auto_publish'', v)]\<rparr>)"

definition mark_knowledge_eligible :: "instant \<Rightarrow> tenant_id \<Rightarrow> uuid \<Rightarrow> consolidation_state \<Rightarrow> bool \<times> consolidation_state" where
  "mark_knowledge_eligible now t i st =
     (let P = (\<lambda>k. kn_tenant_id k = t \<and> kn_id k = i \<and> kn_status k = Candidate) in
      if 0 < rows_affected P (db_knowledge (cs_db st))
      then (True, (on_cons_db (\<lambda>db. db\<lparr>db_knowledge := update_where P (\<lambda>k. k\<lparr>kn_status := Eligible\<rparr>) (db_knowledge db)\<rparr>) st)
              \<lparr>cs_eligible_at := (cs_eligible_at st)(i \<mapsto> now)\<rparr>)
      else (False, st))"

definition reject_knowledge :: "instant \<Rightarrow> tenant_id \<Rightarrow> uuid \<Rightarrow> string \<Rightarrow> consolidation_state \<Rightarrow> knowledge_item option \<times> consolidation_state" where
  "reject_knowledge now t i reason st =
     (let P = (\<lambda>k. kn_tenant_id k = t \<and> kn_id k = i \<and> (kn_status k = Candidate \<or> kn_status k = Eligible)) in
      if 0 < rows_affected P (db_knowledge (cs_db st))
      then let st1 = (on_cons_db (\<lambda>db. db\<lparr>db_knowledge := update_where P
                (\<lambda>k. k\<lparr>kn_status := Rejected, kn_rejected_at := Some now\<rparr>) (db_knowledge db)\<rparr>) st)
              \<lparr>cs_rejected_reason := (cs_rejected_reason st)(i \<mapsto> reason)\<rparr>
           in (knowledge_item_of t i (cs_db st1), st1)
      else (None, st))"

definition knowledge_evidence :: "tenant_id \<Rightarrow> uuid \<Rightarrow> database \<Rightarrow> knowledge_evidence_row list" where
  "knowledge_evidence t i db = sort_key ke_episode_id
     (filter (\<lambda>r. ke_knowledge_id r = i \<and> list_ex (\<lambda>k. kn_id k = i \<and> kn_tenant_id k = t) (db_knowledge db))
       (db_knowledge_evidence db))"

section \<open>The merge cascade\<close>

definition default_publish_visibility :: "tenant_id \<Rightarrow> consolidation_state \<Rightarrow> principal_token list option" where
  "default_publish_visibility t st =
     (case setting t ''knowledge_auto_publish_visibility'' st of
        None \<Rightarrow> None
      | Some value \<Rightarrow>
          let tokens = List.map_filter (\<lambda>s. parse_i32 (trim s)) (split_on CHR '','' value) in
          if tokens = [] then None else Some tokens)"

datatype promotion =
    PromotionNone "knowledge_status option"
  | MarkedEligible bool bool
  | AutoPublished
  | AutoPublishRefused storage_error

definition hold_eligible :: "instant \<Rightarrow> tenant_id \<Rightarrow> uuid \<Rightarrow> bool \<Rightarrow> consolidation_state \<Rightarrow> promotion \<times> consolidation_state" where
  "hold_eligible now t i auto st = (case mark_knowledge_eligible now t i st of (moved, st1) \<Rightarrow> (MarkedEligible auto moved, st1))"

definition promote_if_eligible ::
  "consolidation_env \<Rightarrow> instant \<Rightarrow> nat \<Rightarrow> tenant_id \<Rightarrow> uuid \<Rightarrow> consolidation_state \<Rightarrow> promotion \<times> consolidation_state" where
  "promote_if_eligible env now n t i st =
     (case knowledge_item_of t i (cs_db st) of
        None \<Rightarrow> (PromotionNone None, st)
      | Some item \<Rightarrow>
          if ki_status item \<noteq> Candidate then (PromotionNone (Some (ki_status item)), st)
          else if ki_distinct_entities item < K_SUPPORT_MIN \<or> \<not> (2 \<le> ki_writer_count item \<or> ki_has_tier1_evidence item)
          then (PromotionNone (Some (ki_status item)), st)
          else if \<not> knowledge_auto_publish t st then hold_eligible now t i False st
          else
            (case default_publish_visibility t st of
               None \<Rightarrow> hold_eligible now t i True st
             | Some visibility \<Rightarrow>
                 (case publish_knowledge (cn_uuid_str env) now (\<lambda>j. cn_fresh env (3 + j) n) t i visibility K_SUPPORT_MIN
                        (cn_encode env (ki_statement item)) (cs_db st) of
                    Inr (_, db') \<Rightarrow> (AutoPublished, on_cons_db (\<lambda>_. db') st)
                  | Inl e \<Rightarrow> (AutoPublishRefused e, st))))"

definition support_tier_text :: "int \<Rightarrow> string option" where
  "support_tier_text d = (if 10 \<le> d then Some ''extensive'' else if 5 \<le> d then Some ''established''
     else if 3 \<le> d then Some ''emerging'' else None)"

definition merge_evidence :: "(uuid \<Rightarrow> string) \<Rightarrow> instant \<Rightarrow> tenant_id \<Rightarrow> uuid \<Rightarrow> episode_id list \<Rightarrow> database \<Rightarrow> database" where
  "merge_evidence uuid_str now t i evidence db =
     (let rows = filter (\<lambda>e. ep_tenant_id e = t \<and> ep_id e \<in> set evidence) (db_episodes db);
          db1 = db\<lparr>db_knowledge_evidence := foldl (add_evidence i) (db_knowledge_evidence db) rows\<rparr>;
          ev = evidence_of i db1;
          db2 = db1\<lparr>db_knowledge := update_where (\<lambda>k. kn_id k = i \<and> kn_tenant_id k = t)
            (\<lambda>k. k\<lparr>kn_distinct_entities := int (count_distinct ke_entity ev), kn_episode_count := int (length ev),
                   kn_writer_count := int (count_distinct ke_writer_azp ev),
                   kn_has_tier1_evidence := kn_has_tier1_evidence k \<or> list_ex (\<lambda>r. ke_trust_tier r = 1) ev,
                   kn_last_reinforced := now\<rparr>) (db_knowledge db1)\<rparr>
      in case List.find (\<lambda>k. kn_id k = i \<and> kn_tenant_id k = t \<and> kn_status k = Published) (db_knowledge db2) of
           None \<Rightarrow> db2
         | Some k \<Rightarrow> db2\<lparr>db_chunks := update_where
             (\<lambda>c. ch_tenant_id c = t \<and> ch_document_id c = knowledge_document uuid_str i \<and> ch_valid_to c = None \<and> ch_kind c = ''knowledge'')
             (\<lambda>c. c\<lparr>ch_support_tier := support_tier_text (kn_distinct_entities k)\<rparr>) (db_chunks db2)\<rparr>)"

record knowledge_candidate =
  kc_statement :: string
  kc_categories :: "string list"
  kc_evidence :: "episode_id list"
  kc_canonical_statement :: "string option"
  kc_merge_into :: "uuid option"
  kc_judge_reason :: "string option"

datatype cascade_outcome =
    MergedCanonical uuid promotion
  | MergedJudge uuid "string option" promotion
  | RejectedRemembered uuid
  | FreshCandidate uuid knowledge_status promotion

definition nonblank :: "string option \<Rightarrow> string option" where
  "nonblank s = (case s of None \<Rightarrow> None | Some c \<Rightarrow> let c' = trim c in if c' = [] then None else Some c')"

definition mergeable :: "tenant_id \<Rightarrow> knowledge_row \<Rightarrow> bool" where
  "mergeable t k \<longleftrightarrow> kn_tenant_id k = t \<and> (kn_status k = Candidate \<or> kn_status k = Published)"

definition canonical_twin :: "tenant_id \<Rightarrow> string option \<Rightarrow> database \<Rightarrow> uuid option" where
  "canonical_twin t canon db =
     (case nonblank canon of
        None \<Rightarrow> None
      | Some c \<Rightarrow>
          (case sort_key kn_first_seen (filter (\<lambda>k. mergeable t k \<and> kn_canonical_statement k = Some c) (db_knowledge db)) of
             [] \<Rightarrow> None | k # _ \<Rightarrow> Some (kn_id k)))"

definition judged_target :: "consolidation_env \<Rightarrow> tenant_id \<Rightarrow> knowledge_candidate \<Rightarrow> database \<Rightarrow> uuid option" where
  "judged_target env t cand db =
     (if \<not> cn_auto_merge env then None
      else case kc_merge_into cand of
        None \<Rightarrow> None
      | Some i \<Rightarrow> if list_ex (\<lambda>k. mergeable t k \<and> kn_id k = i) (db_knowledge db) then Some i else None)"

definition record_reason :: "tenant_id \<Rightarrow> uuid \<Rightarrow> string option \<Rightarrow> database \<Rightarrow> database" where
  "record_reason t i reason db =
     (case reason of
        None \<Rightarrow> db
      | Some r \<Rightarrow> db\<lparr>db_knowledge := update_where (\<lambda>k. kn_tenant_id k = t \<and> kn_id k = i)
          (\<lambda>k. k\<lparr>kn_merge_reason := Some r\<rparr>) (db_knowledge db)\<rparr>)"

definition propose_or_merge ::
  "consolidation_env \<Rightarrow> instant \<Rightarrow> nat \<Rightarrow> tenant_id \<Rightarrow> knowledge_candidate \<Rightarrow> consolidation_state \<Rightarrow> cascade_outcome cons_result" where
  "propose_or_merge env now n t cand st =
     (case canonical_twin t (kc_canonical_statement cand) (cs_db st) of
        Some i \<Rightarrow>
          (case promote_if_eligible env now n t i (on_cons_db (merge_evidence (cn_uuid_str env) now t i (kc_evidence cand)) st) of
             (p, st1) \<Rightarrow> (Inr (MergedCanonical i p), st1))
      | None \<Rightarrow>
          (case judged_target env t cand (cs_db st) of
             Some i \<Rightarrow>
               let reason = nonblank (kc_judge_reason cand);
                   st1 = on_cons_db (record_reason t i reason) (on_cons_db (merge_evidence (cn_uuid_str env) now t i (kc_evidence cand)) st)
               in (case promote_if_eligible env now n t i st1 of (p, st2) \<Rightarrow> (Inr (MergedJudge i reason p), st2))
           | None \<Rightarrow>
               let embedding = cn_encode env (kc_statement cand) in
               (case propose_knowledge now (cn_fresh env 2 n)
                    \<lparr>kp_tenant_id = t, kp_statement = kc_statement cand, kp_categories = kc_categories cand,
                     kp_evidence = kc_evidence cand, kp_proposed_by_sub = None,
                     kp_proposed_by_azp = Some ''consolidation-worker'',
                     kp_canonical_statement = kc_canonical_statement cand\<rparr> (cs_db st) of
                  Inl e \<Rightarrow> (Inl (ConsolidationInternal e), st)
                | Inr (item, db') \<Rightarrow>
                    let st1 = on_cons_db (\<lambda>_. db') st in
                    if ki_status item = Rejected then (Inr (RejectedRemembered (ki_id item)), st1)
                    else
                      let st2 = (case embedding of None \<Rightarrow> st1
                                 | Some v \<Rightarrow> st1\<lparr>cs_embeddings := (cs_embeddings st1)(ki_id item \<mapsto> v)\<rparr>)
                      in (case promote_if_eligible env now n t (ki_id item) st2 of
                            (p, st3) \<Rightarrow> (Inr (FreshCandidate (ki_id item) (ki_status item) p), st3)))))"

section \<open>Completing an episode\<close>

record l2_fact_in =
  lf_subject :: string
  lf_relation :: string
  lf_object :: json
  lf_valid_from :: "instant option"
  lf_canonical_predicate :: "string option"

record tag_suggestion_in =
  ti_chunk_id :: uuid
  ti_tag :: string
  ti_confidence :: rat

record complete_request =
  cq_tenant_id :: tenant_id
  cq_episode_id :: episode_id
  cq_l2_facts :: "l2_fact_in list"
  cq_tag_suggestions :: "tag_suggestion_in list"
  cq_knowledge_candidates :: "knowledge_candidate list"

datatype complete_response =
    AlreadyProcessed
  | Completed "nat \<times> nat \<times> nat" "nat \<times> nat" "cascade_outcome list"

definition l2_field :: "l2_fact_in \<Rightarrow> string" where
  "l2_field f = (case lf_canonical_predicate f of
     Some p \<Rightarrow> if trim p \<noteq> [] then normalize_term p else normalize_term (lf_relation f)
   | None \<Rightarrow> normalize_term (lf_relation f))"

definition l2_write ::
  "tenant_id \<Rightarrow> episode_id \<Rightarrow> instant \<Rightarrow> principal_token list \<times> confidentiality \<Rightarrow> l2_fact_in \<Rightarrow> fact_write" where
  "l2_write t e recorded_at acl f =
     \<lparr>fw_tenant_id = t, fw_key = \<lparr>fk_source = ''l2'', fk_entity_id = normalize_term (lf_subject f), fk_field = l2_field f\<rparr>,
      fw_value = lf_object f, fw_valid_from = (case lf_valid_from f of Some v \<Rightarrow> v | None \<Rightarrow> recorded_at),
      fw_visibility = fst acl, fw_confidentiality = snd acl, fw_provenance = e, fw_acl_provenance = AdminAssigned\<rparr>"

fun bump :: "fact_upsert_outcome \<Rightarrow> nat \<times> nat \<times> nat \<Rightarrow> nat \<times> nat \<times> nat" where
  "bump Inserted (i, s, u) = (Suc i, s, u)"
| "bump Superseded (i, s, u) = (i, Suc s, u)"
| "bump Unchanged (i, s, u) = (i, s, Suc u)"
| "bump StaleEvent (i, s, u) = (i, s, u)"

fun write_l2_facts ::
  "consolidation_env \<Rightarrow> instant \<Rightarrow> nat \<Rightarrow> fact_write list \<Rightarrow> nat \<times> nat \<times> nat \<Rightarrow> consolidation_state \<Rightarrow> (nat \<times> nat \<times> nat) cons_result" where
  "write_l2_facts env now n [] tally st = (Inr tally, st)"
| "write_l2_facts env now n (w # ws) tally st =
     (case cached_upsert_fact (upsert_fact now (cn_fresh env 0 n)) w (cs_adapter st) of
        Inl e \<Rightarrow> (Inl (ConsolidationInternal e), st)
      | Inr (outcome, ad) \<Rightarrow> write_l2_facts env now (Suc n) ws (bump outcome tally) (st\<lparr>cs_adapter := ad\<rparr>))"

definition apply_tag :: "tenant_id \<Rightarrow> uuid \<Rightarrow> string \<Rightarrow> database \<Rightarrow> database" where
  "apply_tag t chunk_id tag db = db\<lparr>db_chunks := update_where
     (\<lambda>c. ch_tenant_id c = t \<and> ch_id c = chunk_id \<and> tag \<notin> set (ch_entity_tags c))
     (\<lambda>c. c\<lparr>ch_entity_tags := ch_entity_tags c @ [tag]\<rparr>) (db_chunks db)\<rparr>"

fun store_suggestions ::
  "consolidation_env \<Rightarrow> instant \<Rightarrow> nat \<Rightarrow> tenant_id \<Rightarrow> tag_suggestion_in list \<Rightarrow> nat \<times> nat \<Rightarrow> consolidation_state \<Rightarrow> (nat \<times> nat) cons_result" where
  "store_suggestions env now n t [] tally st = (Inr tally, st)"
| "store_suggestions env now n t (s # ss) tally st =
     (if \<not> list_ex (\<lambda>c. ch_tenant_id c = t \<and> ch_id c = ti_chunk_id s) (db_chunks (cs_db st))
      then (Inl (SuggestedChunkUnknown (ti_chunk_id s)), st)
      else
        let apply_now = cn_auto_tag env \<and> AUTO_TAG_MIN_CONFIDENCE \<le> ti_confidence s;
            row = \<lparr>ts_id = cn_fresh env 1 n, ts_tenant_id = t, ts_chunk_id = ti_chunk_id s, ts_tag = ti_tag s,
                   ts_confidence = ti_confidence s, ts_status = (if apply_now then ''auto_applied'' else ''suggested''), ts_created_at = now\<rparr>;
            st1 = st\<lparr>cs_suggestions := cs_suggestions st @ [row]\<rparr>;
            st2 = (if apply_now then on_cons_db (apply_tag t (ti_chunk_id s) (ti_tag s)) st1 else st1)
        in store_suggestions env now (Suc n) t ss
             (if apply_now then (fst tally, Suc (snd tally)) else (Suc (fst tally), snd tally)) st2)"

fun run_cascade ::
  "consolidation_env \<Rightarrow> instant \<Rightarrow> nat \<Rightarrow> tenant_id \<Rightarrow> knowledge_candidate list \<Rightarrow> consolidation_state \<Rightarrow> cascade_outcome list cons_result" where
  "run_cascade env now n t [] st = (Inr [], st)"
| "run_cascade env now n t (c # cs) st =
     bind_c (propose_or_merge env now n t c st) (\<lambda>o' st1.
       bind_c (run_cascade env now (Suc n) t cs st1) (\<lambda>os st2. (Inr (o' # os), st2)))"

definition mark_processed :: "instant \<Rightarrow> tenant_id \<Rightarrow> episode_id \<Rightarrow> processing_row list \<Rightarrow> processing_row list" where
  "mark_processed now t e rows =
     update_where (\<lambda>p. of_episode t e p \<and> lp_processed_at p = None) (\<lambda>p. p\<lparr>lp_processed_at := Some now\<rparr>) rows"

definition complete_episode ::
  "consolidation_env \<Rightarrow> headers \<Rightarrow> instant \<Rightarrow> complete_request \<Rightarrow> consolidation_state \<Rightarrow> complete_response cons_result" where
  "complete_episode env h now req st =
     (let t = cq_tenant_id req; e = cq_episode_id req in
      case consolidation_gate env h t st of
        Inl err \<Rightarrow> (Inl err, st)
      | Inr _ \<Rightarrow>
          if \<not> list_ex (\<lambda>p. of_episode t e p \<and> lp_processed_at p = None) (cs_processing st)
          then if list_ex (of_episode t e) (cs_processing st) then (Inr AlreadyProcessed, st) else (Inl NeverLeased, st)
          else
            let st1 = st\<lparr>cs_processing := mark_processed now t e (cs_processing st)\<rparr> in
            (case List.find (\<lambda>r. ep_tenant_id r = t \<and> ep_id r = e) (db_episodes (cs_db st1)) of
               None \<Rightarrow> (Inl (ConsolidationInternal (Database ''no rows returned'')), st1)
             | Some ep \<Rightarrow>
                 let acl = derive_l2_acl t e (cs_db st1) in
                 bind_c (write_l2_facts env now 0 (map (l2_write t e (ep_recorded_at ep) acl) (cq_l2_facts req)) (0, 0, 0) st1) (\<lambda>facts st2.
                 bind_c (store_suggestions env now 0 t (cq_tag_suggestions req) (0, 0) st2) (\<lambda>tags st3.
                 bind_c (run_cascade env now 0 t (cq_knowledge_candidates req) st3) (\<lambda>knowledge st4.
                   (Inr (Completed facts tags knowledge), st4))))))"

section \<open>The blocker and the review of tags\<close>

definition merge_candidates ::
  "consolidation_env \<Rightarrow> headers \<Rightarrow> tenant_id \<Rightarrow> string option \<Rightarrow> string list \<Rightarrow> consolidation_state
   \<Rightarrow> consolidation_refusal + (uuid \<times> string \<times> string list \<times> rat) list" where
  "merge_candidates env h t statement categories st =
     (case admin_check (cn_auth env) h of
        Inl e \<Rightarrow> Inl (ConsolidationGate e)
      | Inr _ \<Rightarrow>
          let s = (case statement of None \<Rightarrow> [] | Some s \<Rightarrow> s) in
          (case (if s = [] then None else cn_encode env s) of
             None \<Rightarrow> Inr []
           | Some v \<Rightarrow>
               let near = List.map_filter (\<lambda>k. map_option (\<lambda>u. (k, cn_distance env u v)) (cs_embeddings st (kn_id k)))
                     (filter (mergeable t) (db_knowledge (cs_db st)));
                   kept = filter (\<lambda>(k, d). TAU_BLOCK \<le> 1 - d \<and>
                     (categories = [] \<or> list_ex (\<lambda>c. c \<in> set categories) (kn_categories k))) near
               in Inr (map (\<lambda>(k, d). (kn_id k, kn_statement k, kn_categories k, 1 - d))
                    (take BLOCKER_CANDIDATE_CAP (sort_key snd kept)))))"

definition list_tag_suggestions ::
  "consolidation_env \<Rightarrow> headers \<Rightarrow> tenant_id \<Rightarrow> string option \<Rightarrow> consolidation_state \<Rightarrow> consolidation_refusal + suggestion_row list" where
  "list_tag_suggestions env h t status st =
     (case admin_check (cn_auth env) h of
        Inl e \<Rightarrow> Inl (ConsolidationGate e)
      | Inr _ \<Rightarrow> Inr (take 500 (sort_key (\<lambda>s. - ts_created_at s)
          (filter (\<lambda>s. ts_tenant_id s = t \<and> (case status of None \<Rightarrow> True | Some x \<Rightarrow> ts_status s = x)) (cs_suggestions st)))))"

definition approve_tag_suggestion ::
  "consolidation_env \<Rightarrow> headers \<Rightarrow> tenant_id \<Rightarrow> uuid \<Rightarrow> consolidation_state \<Rightarrow> (uuid \<times> string) cons_result" where
  "approve_tag_suggestion env h t i st =
     (case consolidation_gate env h t st of
        Inl e \<Rightarrow> (Inl e, st)
      | Inr _ \<Rightarrow>
          let P = (\<lambda>s. ts_tenant_id s = t \<and> ts_id s = i \<and> ts_status s = ''suggested'') in
          (case List.find P (cs_suggestions st) of
             None \<Rightarrow> (Inl NoSuchSuggestion, st)
           | Some s \<Rightarrow>
               let st1 = st\<lparr>cs_suggestions := update_where P (\<lambda>s. s\<lparr>ts_status := ''approved''\<rparr>) (cs_suggestions st)\<rparr>
               in (Inr (ts_chunk_id s, ts_tag s), on_cons_db (apply_tag t (ts_chunk_id s) (ts_tag s)) st1)))"

section \<open>What a completion may change\<close>

lemma bind_c_result:
  "bind_c x f = (r, st') \<longleftrightarrow>
     (\<exists>e. x = (Inl e, st') \<and> r = Inl e) \<or> (\<exists>a st. x = (Inr a, st) \<and> f a st = (r, st'))"
  by (cases "(x, f)" rule: bind_c.cases) auto

lemma on_cons_db_sel [simp]:
  "cs_db (on_cons_db f st) = f (cs_db st)" "cs_settings (on_cons_db f st) = cs_settings st"
  "cs_processing (on_cons_db f st) = cs_processing st" "cs_suggestions (on_cons_db f st) = cs_suggestions st"
  by (simp_all add: on_cons_db_def pass_through_def)

text \<open>
  What decides who reads a chunk: its label, and its entity tags, which a tag may only be added to.
\<close>

definition chunk_acl ::
  "chunk_row \<Rightarrow> uuid \<times> tenant_id \<times> principal_token list \<times> confidentiality \<times> acl_provenance \<times> string \<times> instant option" where
  "chunk_acl c = (ch_id c, ch_tenant_id c, ch_visibility c, ch_confidentiality c, ch_acl_provenance c, ch_kind c, ch_valid_to c)"

definition retagged :: "(uuid \<times> string) set \<Rightarrow> chunk_row \<Rightarrow> chunk_row \<Rightarrow> bool" where
  "retagged A c c' \<longleftrightarrow> chunk_acl c' = chunk_acl c \<and> set (ch_entity_tags c) \<subseteq> set (ch_entity_tags c') \<and>
     set (ch_entity_tags c') \<subseteq> set (ch_entity_tags c) \<union> {g. (ch_id c, g) \<in> A}"

text \<open>The tags a completion may apply: those suggested with enough confidence, where auto-tagging is on.\<close>

definition applied_tags :: "consolidation_env \<Rightarrow> tag_suggestion_in list \<Rightarrow> (uuid \<times> string) set" where
  "applied_tags env ss = {(ti_chunk_id s, ti_tag s) |s. s \<in> set ss \<and> cn_auto_tag env \<and> AUTO_TAG_MIN_CONFIDENCE \<le> ti_confidence s}"

definition published_ids :: "database \<Rightarrow> uuid set" where
  "published_ids db = {kn_id k |k. k \<in> set (db_knowledge db) \<and> kn_status k = Published}"

text \<open>The tenant's opt-in: automatic publication switched on and an audience configured for it.\<close>

definition opted_in :: "tenant_id \<Rightarrow> consolidation_state \<Rightarrow> principal_token list \<Rightarrow> bool" where
  "opted_in t st visibility \<longleftrightarrow> knowledge_auto_publish t st \<and> default_publish_visibility t st = Some visibility"

text \<open>A chunk published by the cascade: the tenant's configured audience, no tag but an applied one.\<close>

definition auto_artifact :: "(uuid \<times> string) set \<Rightarrow> tenant_id \<Rightarrow> consolidation_state \<Rightarrow> chunk_row \<Rightarrow> bool" where
  "auto_artifact A t st c \<longleftrightarrow> ch_tenant_id c = t \<and> ch_kind c = ''knowledge'' \<and> opted_in t st (ch_visibility c) \<and>
     set (ch_entity_tags c) \<subseteq> {g. (ch_id c, g) \<in> A}"

definition publishes_within :: "(uuid \<times> string) set \<Rightarrow> tenant_id \<Rightarrow> consolidation_state \<Rightarrow> consolidation_state \<Rightarrow> bool" where
  "publishes_within A t st st' \<longleftrightarrow>
     cs_settings st' = cs_settings st \<and> cs_processing st' = cs_processing st \<and>
     db_facts (cs_db st') = db_facts (cs_db st) \<and>
     (\<forall>c \<in> set (db_chunks (cs_db st')). (\<exists>c0 \<in> set (db_chunks (cs_db st)). retagged A c0 c) \<or> auto_artifact A t st c) \<and>
     (\<forall>i \<in> published_ids (cs_db st'). i \<in> published_ids (cs_db st) \<or> (\<exists>v. opted_in t st v))"

lemma opted_in_settings:
  assumes "cs_settings st' = cs_settings st"
  shows "opted_in t st' v = opted_in t st v"
proof -
  have "setting t key st' = setting t key st" for key unfolding setting_def assms ..
  then show ?thesis unfolding opted_in_def knowledge_auto_publish_def default_publish_visibility_def by simp
qed

lemma retagged_refl [simp]: "retagged A c c"
  by (simp add: retagged_def)

lemma retagged_trans: "retagged A c c1 \<Longrightarrow> retagged A c1 c2 \<Longrightarrow> retagged A c c2"
  by (auto simp: retagged_def chunk_acl_def)

lemma auto_artifact_retagged: "auto_artifact A t st c \<Longrightarrow> retagged A c c' \<Longrightarrow> auto_artifact A t st c'"
  by (auto simp: auto_artifact_def retagged_def chunk_acl_def)


lemma publishes_within_refl [simp]: "publishes_within A t st st"
  by (auto simp: publishes_within_def intro: retagged_refl)

lemma publishes_within_trans:
  assumes "publishes_within A t st st1" "publishes_within A t st1 st2"
  shows "publishes_within A t st st2"
proof -
  have o: "opted_in t st1 v = opted_in t st v" for v
    by (rule opted_in_settings) (use assms(1) in \<open>simp add: publishes_within_def\<close>)
  show ?thesis unfolding publishes_within_def
  proof (intro conjI ballI)
    fix c assume "c \<in> set (db_chunks (cs_db st2))"
    then consider c1 where "c1 \<in> set (db_chunks (cs_db st1))" "retagged A c1 c" | "auto_artifact A t st c"
      using assms(2) o unfolding publishes_within_def auto_artifact_def by blast
    then show "(\<exists>c0 \<in> set (db_chunks (cs_db st)). retagged A c0 c) \<or> auto_artifact A t st c"
      using assms(1) retagged_trans auto_artifact_retagged unfolding publishes_within_def by cases blast+
  next
    fix i assume "i \<in> published_ids (cs_db st2)"
    then show "i \<in> published_ids (cs_db st) \<or> (\<exists>v. opted_in t st v)"
      using assms o unfolding publishes_within_def by blast
  qed (use assms in \<open>simp_all add: publishes_within_def\<close>)
qed

lemma publishes_within_db:
  assumes "db_facts (f (cs_db st)) = db_facts (cs_db st)"
    and "list_all2 (retagged A) (db_chunks (cs_db st)) (db_chunks (f (cs_db st)))"
    and "published_ids (f (cs_db st)) \<subseteq> published_ids (cs_db st)"
  shows "publishes_within A t st (on_cons_db f st)"
proof -
  have "\<exists>c0 \<in> set (db_chunks (cs_db st)). retagged A c0 c" if "c \<in> set (db_chunks (f (cs_db st)))" for c
    using assms(2) that by (induction rule: list_all2_induct) auto
  then show ?thesis using assms(1,3) by (auto simp: publishes_within_def)
qed

lemma retagged_rows_refl [simp]: "list_all2 (retagged A) rows rows"
  by (simp add: list_all2_refl)

lemma retagged_update_where:
  "(\<And>c. P c \<Longrightarrow> retagged A c (f c)) \<Longrightarrow> list_all2 (retagged A) rows (update_where P f rows)"
  by (induction rows) auto

lemma published_ids_update:
  "(\<And>k. P k \<Longrightarrow> kn_id (f k) = kn_id k \<and> (kn_status (f k) = Published \<longrightarrow> kn_status k = Published)) \<Longrightarrow>
     published_ids (db\<lparr>db_knowledge := update_where P f rows\<rparr>) \<subseteq> published_ids (db\<lparr>db_knowledge := rows\<rparr>)"
  by (force simp: published_ids_def elim!: mem_update_where)

lemma published_ids_cong: "db_knowledge db' = db_knowledge db \<Longrightarrow> published_ids db' = published_ids db"
  by (simp add: published_ids_def)


lemma merge_evidence_within: "publishes_within A t st (on_cons_db (merge_evidence uuid_str now t i ev) st)"
proof (rule publishes_within_db)
  show "db_facts (merge_evidence uuid_str now t i ev (cs_db st)) = db_facts (cs_db st)"
    by (simp add: merge_evidence_def Let_def split: option.splits)
  show "list_all2 (retagged A) (db_chunks (cs_db st)) (db_chunks (merge_evidence uuid_str now t i ev (cs_db st)))"
    by (auto simp: merge_evidence_def Let_def split: option.splits
        intro!: retagged_update_where) (simp_all add: retagged_def chunk_acl_def)
  show "published_ids (merge_evidence uuid_str now t i ev (cs_db st)) \<subseteq> published_ids (cs_db st)"
    by (auto simp: merge_evidence_def Let_def published_ids_def split: option.splits elim!: mem_update_where)
qed

lemma record_reason_within: "publishes_within A t st (on_cons_db (record_reason t i reason) st)"
  by (rule publishes_within_db)
     (auto simp: record_reason_def published_ids_def split: option.splits elim!: mem_update_where)

lemma mark_eligible_within:
  assumes "mark_knowledge_eligible now t i st = (moved, st')"
  shows "publishes_within A t st st'"
proof -
  let ?P = "\<lambda>k. kn_tenant_id k = t \<and> kn_id k = i \<and> kn_status k = Candidate"
  let ?f = "\<lambda>db. db\<lparr>db_knowledge := update_where ?P (\<lambda>k. k\<lparr>kn_status := Eligible\<rparr>) (db_knowledge db)\<rparr>"
  have "publishes_within A t st (on_cons_db ?f st)"
    by (rule publishes_within_db) (auto simp: published_ids_def elim!: mem_update_where)
  moreover have "publishes_within A t st (st''\<lparr>cs_eligible_at := m\<rparr>) = publishes_within A t st st''" for st'' m
    by (simp add: publishes_within_def)
  ultimately show ?thesis using assms by (auto simp: mark_knowledge_eligible_def Let_def split: if_splits)
qed

lemma publish_knowledge_facts:
  assumes "publish_knowledge uuid_str now fresh t i vis k_min emb db = Inr (item, db')"
  shows "db_facts db' = db_facts db"
  using assms by (auto simp: publish_knowledge_def insert_episode_tx_def insert_chunk_row_def and_then_Inr Let_def
      split: option.splits if_splits)

lemma auto_publish_within:
  assumes "publish_knowledge uuid_str now fresh t i vis k_min emb (cs_db st) = Inr (item, db')" and "opted_in t st vis"
  shows "publishes_within A t st (on_cons_db (\<lambda>_. db') st)"
proof -
  obtain k where k: "List.find (\<lambda>k. kn_tenant_id k = t \<and> kn_id k = i) (db_knowledge (cs_db st)) = Some k"
    and ch: "db_chunks db' = db_chunks (cs_db st) @ [knowledge_chunk uuid_str now (fresh 1) (fresh 0) k vis emb]"
    by (rule publish_knowledge_Inr [OF assms(1)]) blast
  have "kn_tenant_id k = t" using k by (auto simp: find_Some_iff)
  then have "auto_artifact A t st (knowledge_chunk uuid_str now (fresh 1) (fresh 0) k vis emb)"
    using assms(2) by (simp add: auto_artifact_def knowledge_chunk_def)
  then show ?thesis unfolding publishes_within_def on_cons_db_sel publish_knowledge_facts [OF assms(1)] ch
    using assms(2) retagged_refl by fastforce
qed

lemma promote_within:
  assumes "promote_if_eligible env now n t i st = (p, st')"
  shows "publishes_within A t st st'"
proof -
  have hold: "publishes_within A t st st'" if "hold_eligible now t i auto st = (p, st')" for auto
    using that mark_eligible_within by (fastforce simp: hold_eligible_def split: prod.splits)
  show ?thesis
  proof (cases "knowledge_item_of t i (cs_db st)")
    case None
    with assms show ?thesis by (simp add: promote_if_eligible_def)
  next
    case (Some item)
    show ?thesis
    proof (cases "default_publish_visibility t st")
      case None
      with Some assms hold show ?thesis by (auto simp: promote_if_eligible_def split: if_splits)
    next
      case vis: (Some vis)
      then have "opted_in t st vis" if "knowledge_auto_publish t st" using that by (simp add: opted_in_def)
      with vis Some assms hold auto_publish_within show ?thesis
        by (fastforce simp: promote_if_eligible_def split: if_splits sum.splits)
    qed
  qed
qed

lemma accrue_frame:
  "db_facts (accrue p k ev db) = db_facts db \<and> db_chunks (accrue p k ev db) = db_chunks db \<and>
     published_ids (accrue p k ev db) \<subseteq> published_ids db"
proof -
  have "published_ids (accrue p k ev db) \<subseteq> published_ids (db\<lparr>db_knowledge := db_knowledge db\<rparr>)"
    unfolding accrue_def Let_def by (rule subset_trans [OF published_ids_update]) (simp_all add: published_ids_def)
  then show ?thesis by (simp add: accrue_def Let_def)
qed

lemma insert_proposal_frame:
  "insert_proposal now i p ev leak db = Inr db' \<Longrightarrow>
     db_facts db' = db_facts db \<and> db_chunks db' = db_chunks db \<and> published_ids db' = published_ids db"
  by (auto simp: insert_proposal_def proposal_row_def published_ids_def split: if_splits option.splits)

lemma propose_knowledge_frame:
  assumes "propose_knowledge now i p db = Inr (item, db')"
  shows "db_facts db' = db_facts db \<and> db_chunks db' = db_chunks db \<and> published_ids db' \<subseteq> published_ids db"
  using assms accrue_frame insert_proposal_frame unfolding propose_knowledge_def Let_def
  by (fastforce simp: and_then_Inr split: option.splits if_splits)

lemma propose_or_merge_within:
  assumes "propose_or_merge env now n t cand st = (r, st')"
  shows "publishes_within A t st st'"
proof (cases "canonical_twin t (kc_canonical_statement cand) (cs_db st)")
  case (Some i)
  with assms show ?thesis
    using publishes_within_trans [OF merge_evidence_within promote_within]
    by (fastforce simp: propose_or_merge_def split: prod.splits)
next
  case twin: None
  show ?thesis
  proof (cases "judged_target env t cand (cs_db st)")
    case (Some i)
    with assms twin show ?thesis
      using publishes_within_trans [OF publishes_within_trans [OF merge_evidence_within record_reason_within] promote_within]
      by (fastforce simp: propose_or_merge_def Let_def split: prod.splits)
  next
    case None
    let ?p = "\<lparr>kp_tenant_id = t, kp_statement = kc_statement cand, kp_categories = kc_categories cand,
       kp_evidence = kc_evidence cand, kp_proposed_by_sub = None,
       kp_proposed_by_azp = Some ''consolidation-worker'', kp_canonical_statement = kc_canonical_statement cand\<rparr>"
    show ?thesis
    proof (cases "propose_knowledge now (cn_fresh env 2 n) ?p (cs_db st)")
      case (Inl e)
      with assms twin None show ?thesis by (simp add: propose_or_merge_def Let_def)
    next
      case (Inr x)
      obtain item db' where x: "x = (item, db')" by fastforce
      let ?st1 = "on_cons_db (\<lambda>_. db') st"
      let ?st2 = "case cn_encode env (kc_statement cand) of None \<Rightarrow> ?st1
        | Some v \<Rightarrow> ?st1\<lparr>cs_embeddings := (cs_embeddings ?st1)(ki_id item \<mapsto> v)\<rparr>"
      have w1: "publishes_within A t st ?st1"
        using propose_knowledge_frame [OF Inr [unfolded x]] by (intro publishes_within_db) simp_all
      then have w2: "publishes_within A t st ?st2" by (simp add: publishes_within_def split: option.splits)
      have "(r, st') = (if ki_status item = Rejected then (Inr (RejectedRemembered (ki_id item)), ?st1)
         else case promote_if_eligible env now n t (ki_id item) ?st2 of
           (p, st3) \<Rightarrow> (Inr (FreshCandidate (ki_id item) (ki_status item) p), st3))"
        using assms unfolding propose_or_merge_def Let_def twin None Inr x option.case sum.case prod.case by (rule sym)
      with w1 publishes_within_trans [OF w2 promote_within] show ?thesis
        by (cases "promote_if_eligible env now n t (ki_id item) ?st2") (auto split: if_splits)
    qed
  qed
qed

lemma run_cascade_within:
  "run_cascade env now n t cs st = (r, st') \<Longrightarrow> publishes_within A t st st'"
proof (induction cs arbitrary: n st r st')
  case (Cons c cs)
  from Cons.prems show ?case
    by (auto simp: bind_c_result dest!: propose_or_merge_within Cons.IH intro: publishes_within_trans)
qed simp

lemma apply_tag_within:
  assumes "(i, x) \<in> A"
  shows "publishes_within A t st (on_cons_db (apply_tag t i x) st)"
  by (rule publishes_within_db)
    (use assms in \<open>auto simp: apply_tag_def published_ids_def retagged_def chunk_acl_def intro!: retagged_update_where\<close>)

lemma store_suggestions_within:
  "store_suggestions env now n t ss tally st = (r, st') \<Longrightarrow> applied_tags env ss \<subseteq> A \<Longrightarrow> publishes_within A t st st'"
proof (induction ss arbitrary: n tally st r)
  case (Cons s ss)
  have rest: "applied_tags env ss \<subseteq> A" using Cons.prems(2) by (auto simp: applied_tags_def)
  have plain: "publishes_within A t st (st\<lparr>cs_suggestions := rows\<rparr>)" for rows
    by (auto simp: publishes_within_def intro: retagged_refl)
  have tag: "publishes_within A t st (on_cons_db (apply_tag t (ti_chunk_id s) (ti_tag s)) (st\<lparr>cs_suggestions := rows\<rparr>))"
    if "cn_auto_tag env" "AUTO_TAG_MIN_CONFIDENCE \<le> ti_confidence s" for rows
    by (rule publishes_within_trans [OF plain apply_tag_within]) (use Cons.prems(2) that in \<open>auto simp: applied_tags_def\<close>)
  from Cons.prems(1) rest show ?case
    by (auto simp: Let_def split: if_splits intro: publishes_within_trans [OF tag Cons.IH] publishes_within_trans [OF plain Cons.IH])
qed simp

section \<open>Derived facts inherit their sources\<close>





lemma cached_upsert_fact_Inr:
  assumes "cached_upsert_fact up w ad = Inr (oc, ad')"
  obtains db' where "up w (ca_inner ad) = Inr (oc, db')" "ca_inner ad' = db'"
  using assms by (auto simp: cached_upsert_fact_def and_then_Inr)

lemma write_l2_facts_frame:
  "write_l2_facts env now n ws tally st = (r, st') \<Longrightarrow>
     fact_label ` set (db_facts (cs_db st')) \<subseteq> fact_label ` set (db_facts (cs_db st)) \<union> write_label ` set ws \<and>
     db_chunks (cs_db st') = db_chunks (cs_db st) \<and> db_knowledge (cs_db st') = db_knowledge (cs_db st) \<and>
     cs_settings st' = cs_settings st \<and> cs_processing st' = cs_processing st"
proof (induction ws arbitrary: n tally st r)
  case (Cons w ws)
  show ?case
  proof (cases "cached_upsert_fact (upsert_fact now (cn_fresh env 0 n)) w (cs_adapter st)")
    case (Inl e)
    with Cons.prems show ?thesis by auto
  next
    case (Inr x)
    obtain oc ad where x: "x = (oc, ad)" by fastforce
    obtain db' where up: "upsert_fact now (cn_fresh env 0 n) w (cs_db st) = Inr (oc, db')" and ad: "ca_inner ad = db'"
      using Inr x cached_upsert_fact_Inr by blast
    from Cons.prems Inr x have rest: "write_l2_facts env now (Suc n) ws (bump oc tally) (st\<lparr>cs_adapter := ad\<rparr>) = (r, st')" by simp
    show ?thesis using Cons.IH [OF rest] upsert_fact_tables [OF up] ad
        subset_chain [OF _ upsert_fact_labels [OF up]] by (simp add: same_tables_def)
  qed
qed simp

text \<open>
  A completion leaves the state alone, or marks the episode, writes derived facts under the inherited
  label and then stays within the publication settings.
\<close>

lemma complete_episode_steps:
  assumes "complete_episode env h now req st = (r, st')" and "t = cq_tenant_id req" and "e = cq_episode_id req"
    and A: "A = applied_tags env (cq_tag_suggestions req)"
  shows "st' = st \<and> \<not> (\<exists>f g k. r = Inr (Completed f g k)) \<or>
    list_ex (\<lambda>p. of_episode t e p \<and> lp_processed_at p = None) (cs_processing st) \<and>
    (\<exists>recorded_at fs q st2. write_l2_facts env now 0 (map (l2_write t e recorded_at (derive_l2_acl t e (cs_db st))) fs) (0, 0, 0)
        (st\<lparr>cs_processing := mark_processed now t e (cs_processing st)\<rparr>) = (q, st2) \<and> publishes_within A t st2 st')"
    (is "?same \<or> ?leased \<and> (\<exists>recorded_at fs q st2. ?write recorded_at fs = (q, st2) \<and> publishes_within A t st2 st')")
proof -
  let ?st1 = "st\<lparr>cs_processing := mark_processed now t e (cs_processing st)\<rparr>"
  let ?find = "List.find (\<lambda>r. ep_tenant_id r = t \<and> ep_id r = e) (db_episodes (cs_db st))"
  let ?rest = "\<lambda>facts st2. bind_c (store_suggestions env now 0 t (cq_tag_suggestions req) (0, 0) st2)
           (\<lambda>tags st3. bind_c (run_cascade env now 0 t (cq_knowledge_candidates req) st3)
             (\<lambda>knowledge st4. (Inr (Completed facts tags knowledge), st4)))"
  have "?same \<or> ?leased \<and> (st' = ?st1 \<or> (\<exists>ep :: episode_row. bind_c (?write (ep_recorded_at ep) (cq_l2_facts req)) ?rest = (r, st')))"
  proof (cases "consolidation_gate env h t st")
    case (Inr u)
    show ?thesis
    proof (cases ?leased)
      case leased: True
      have st1: "cs_db ?st1 = cs_db st" by simp
      show ?thesis
      proof (cases ?find)
        case None
        have "st' = ?st1" using assms(1)
          unfolding complete_episode_def Let_def assms(2,3) [symmetric] Inr sum.case if_not_P [OF not_not [THEN iffD2, OF leased]] st1 None option.case
          by simp
        with leased show ?thesis by blast
      next
        case (Some ep)
        have "bind_c (?write (ep_recorded_at ep) (cq_l2_facts req)) ?rest = (r, st')" using assms(1)
          unfolding complete_episode_def Let_def assms(2,3) [symmetric] Inr sum.case if_not_P [OF not_not [THEN iffD2, OF leased]] st1 Some option.case .
        then show ?thesis by (intro disjI2 conjI [OF leased]) (rule exI)
      qed
    next
      case False
      with Inr assms(1) show ?thesis by (auto simp: complete_episode_def Let_def assms(2,3) split: if_splits)
    qed
  qed (use assms in \<open>auto simp: complete_episode_def Let_def\<close>)
  then consider ?same | ?leased "st' = ?st1"
    | ep :: episode_row where "?leased" "bind_c (?write (ep_recorded_at ep) (cq_l2_facts req)) ?rest = (r, st')"
    by blast
  then show ?thesis
  proof cases
    case 2
    have "?write 0 [] = (Inr (0, 0, 0), ?st1)" by simp
    with 2 publishes_within_refl show ?thesis by blast
  next
    case (3 ep)
    obtain q st2 where w: "?write (ep_recorded_at ep) (cq_l2_facts req) = (q, st2)" by fastforce
    have "publishes_within A t st2 st'" using 3(2) unfolding w
      by (cases q) (auto simp: bind_c_result A
          dest!: store_suggestions_within [OF _ order_refl] run_cascade_within intro: publishes_within_trans)
    with 3(1) w show ?thesis by blast
  qed blast
qed


lemma complete_effects:
  assumes "complete_episode env h now req st = (r, st')" and "t = cq_tenant_id req" and "e = cq_episode_id req"
    and A: "A = applied_tags env (cq_tag_suggestions req)"
  shows "(\<forall>f \<in> set (db_facts (cs_db st')). fact_label f \<in> fact_label ` set (db_facts (cs_db st)) \<or>
        (\<exists>recorded_at x. fact_label f = write_label (l2_write t e recorded_at (derive_l2_acl t e (cs_db st)) x)))"
    and "(\<forall>c \<in> set (db_chunks (cs_db st')). (\<exists>c0 \<in> set (db_chunks (cs_db st)). retagged A c0 c) \<or> auto_artifact A t st c)"
    and "(\<forall>i \<in> published_ids (cs_db st'). i \<in> published_ids (cs_db st) \<or> (\<exists>v. opted_in t st v))"
    and "cs_processing st' = cs_processing st \<or> cs_processing st' = mark_processed now t e (cs_processing st)"
proof -
  consider "st' = st" | recorded_at fs q st2 where
      "write_l2_facts env now 0 (map (l2_write t e recorded_at (derive_l2_acl t e (cs_db st))) fs) (0, 0, 0)
        (st\<lparr>cs_processing := mark_processed now t e (cs_processing st)\<rparr>) = (q, st2)" "publishes_within A t st2 st'"
    using complete_episode_steps [OF assms] by blast
  then have "(\<forall>f \<in> set (db_facts (cs_db st')). fact_label f \<in> fact_label ` set (db_facts (cs_db st)) \<or>
        (\<exists>recorded_at x. fact_label f = write_label (l2_write t e recorded_at (derive_l2_acl t e (cs_db st)) x))) \<and>
      (\<forall>c \<in> set (db_chunks (cs_db st')). (\<exists>c0 \<in> set (db_chunks (cs_db st)). retagged A c0 c) \<or> auto_artifact A t st c) \<and>
      (\<forall>i \<in> published_ids (cs_db st'). i \<in> published_ids (cs_db st) \<or> (\<exists>v. opted_in t st v)) \<and>
      (cs_processing st' = cs_processing st \<or> cs_processing st' = mark_processed now t e (cs_processing st))"
  proof cases
    case 2
    note w = write_l2_facts_frame [OF 2(1), simplified]
    have o: "opted_in t st2 = opted_in t st" by (intro ext opted_in_settings) (use w in simp)
    have p: "published_ids (cs_db st2) = published_ids (cs_db st)" by (rule published_ids_cong) (use w in simp)
    have facts: "fact_label f \<in> fact_label ` set (db_facts (cs_db st)) \<or>
        (\<exists>recorded_at x. fact_label f = write_label (l2_write t e recorded_at (derive_l2_acl t e (cs_db st)) x))"
      if "f \<in> set (db_facts (cs_db st2))" for f
      using w that by (fastforce dest!: subsetD [of "fact_label ` set (db_facts (cs_db st2))" _ "fact_label f"])
    show ?thesis using 2(2) w o p facts unfolding publishes_within_def auto_artifact_def by simp
  qed (auto intro: retagged_refl)
  then show "(\<forall>f \<in> set (db_facts (cs_db st')). fact_label f \<in> fact_label ` set (db_facts (cs_db st)) \<or>
        (\<exists>recorded_at x. fact_label f = write_label (l2_write t e recorded_at (derive_l2_acl t e (cs_db st)) x)))"
    "(\<forall>c \<in> set (db_chunks (cs_db st')). (\<exists>c0 \<in> set (db_chunks (cs_db st)). retagged A c0 c) \<or> auto_artifact A t st c)"
    "(\<forall>i \<in> published_ids (cs_db st'). i \<in> published_ids (cs_db st) \<or> (\<exists>v. opted_in t st v))"
    "cs_processing st' = cs_processing st \<or> cs_processing st' = mark_processed now t e (cs_processing st)"
    by blast+
qed


section \<open>Leases are exclusive\<close>

definition processing_ok :: "processing_row list \<Rightarrow> bool" where
  "processing_ok rows \<longleftrightarrow> distinct (map (\<lambda>p. (lp_tenant_id p, lp_episode_id p)) rows)"

text \<open>No worker may lease the episode at a time up to the bound.\<close>

definition blocked :: "instant \<Rightarrow> tenant_id \<Rightarrow> episode_id \<Rightarrow> processing_row list \<Rightarrow> bool" where
  "blocked u t e rows \<longleftrightarrow> list_ex (of_episode t e) rows \<and>
     list_all (\<lambda>p. of_episode t e p \<longrightarrow> lp_processed_at p \<noteq> None \<or> u \<le> lp_leased_until p) rows"

inductive consolidation_run :: "consolidation_env \<Rightarrow> instant \<Rightarrow> consolidation_state \<Rightarrow> consolidation_state \<Rightarrow> bool" for env u st where
  start: "consolidation_run env u st st"
| leases: "consolidation_run env u st st1 \<Longrightarrow> now \<le> u \<Longrightarrow> lease env h now t limit w st1 = (r, st2) \<Longrightarrow> consolidation_run env u st st2"
| completes: "consolidation_run env u st st1 \<Longrightarrow> complete_episode env h now req st1 = (r', st2) \<Longrightarrow> consolidation_run env u st st2"
| approves: "consolidation_run env u st st1 \<Longrightarrow> approve_tag_suggestion env h t i st1 = (r'', st2) \<Longrightarrow> consolidation_run env u st st2"

lemma blocked_not_leasable:
  assumes "blocked u t (ep_id e) rows" "now \<le> u"
  shows "\<not> leasable now t rows e"
proof (cases "List.find (of_episode t (ep_id e)) rows")
  case None
  with assms show ?thesis by (auto simp: blocked_def list_ex_iff find_None_iff)
next
  case (Some p)
  then have "p \<in> set rows" "of_episode t (ep_id e) p" by (auto simp: find_Some_iff)
  with assms Some show ?thesis by (auto simp: blocked_def leasable_def list_all_iff)
qed

lemma of_episode_claim [simp]: "of_episode t e (p\<lparr>lp_leased_until := u, lp_worker := w\<rparr>) = of_episode t e p"
  by (simp add: of_episode_def)

lemma of_episode_mark [simp]: "of_episode t e (p\<lparr>lp_processed_at := x\<rparr>) = of_episode t e p"
  by (simp add: of_episode_def)

lemma list_ex_update:
  "(\<And>p. Q (f p) = Q p) \<Longrightarrow> list_ex Q (update_where P f rows) = list_ex Q rows"
  by (induction rows) auto

lemma blocked_claim: "blocked u t e rows \<Longrightarrow> now \<le> u \<Longrightarrow> blocked u t e (claim now t' w rows e')"
  by (auto simp: blocked_def claim_def list_ex_update list_all_iff elim!: mem_update_where)
     (auto simp: list_ex_iff of_episode_def)

lemma blocked_mark: "blocked u t e rows \<Longrightarrow> blocked u t e (mark_processed now t' e' rows)"
  by (auto simp: blocked_def mark_processed_def list_ex_update list_all_iff elim!: mem_update_where)

lemma blocked_claims: "blocked u t e rows \<Longrightarrow> now \<le> u \<Longrightarrow> blocked u t e (foldl (claim now t' w) rows es)"
  by (induction es arbitrary: rows) (simp_all add: blocked_claim)

lemma blocked_claimed:
  assumes "processing_ok rows" and "leasable now t rows e"
  shows "blocked (lease_until now) t (ep_id e) (claim now t w rows (ep_id e))"
proof (cases "list_ex (of_episode t (ep_id e)) rows")
  case True
  then obtain p where p: "p \<in> set rows" "of_episode t (ep_id e) p" by (auto simp: list_ex_iff)
  have uniq: "q = p" if "q \<in> set rows" "of_episode t (ep_id e) q" for q
    using assms(1) p that by (auto simp: processing_ok_def of_episode_def distinct_map inj_on_def)
  obtain q where "List.find (of_episode t (ep_id e)) rows = Some q" using p by (metis find_None_iff option.exhaust)
  then have "List.find (of_episode t (ep_id e)) rows = Some p" using uniq by (metis find_Some_iff nth_mem)
  with assms(2) have "lp_processed_at p = None" "lp_leased_until p < now" by (simp_all add: leasable_def)
  with True show ?thesis
    by (auto simp: blocked_def claim_def list_ex_update list_all_iff dest: uniq elim!: mem_update_where)
next
  case False
  then show ?thesis by (auto simp: blocked_def claim_def list_ex_iff list_all_iff of_episode_def)
qed

lemma find_update_other:
  "(\<And>r. P r \<Longrightarrow> \<not> Q r) \<Longrightarrow> (\<And>r. Q (f r) = Q r) \<Longrightarrow> List.find Q (update_where P f rs) = List.find Q rs"
  by (induction rs) auto

lemma leasable_claim_other:
  assumes "ep_id e \<noteq> a"
  shows "leasable now t (claim now t w rows a) e = leasable now t rows e"
proof -
  have upd: "List.find (of_episode t (ep_id e)) (update_where
      (\<lambda>p. of_episode t a p \<and> lp_processed_at p = None \<and> lp_leased_until p < now)
      (\<lambda>p. p\<lparr>lp_leased_until := lease_until now, lp_worker := w\<rparr>) rows) = List.find (of_episode t (ep_id e)) rows"
    using assms by (intro find_update_other) (simp_all, simp add: of_episode_def)
  have "\<not> of_episode t (ep_id e) \<lparr>lp_tenant_id = t, lp_episode_id = a, lp_leased_until = u, lp_processed_at = None, lp_worker = w\<rparr>" for u
    using assms by (simp add: of_episode_def)
  with upd have "List.find (of_episode t (ep_id e)) (claim now t w rows a) = List.find (of_episode t (ep_id e)) rows"
    by (simp add: claim_def find_append split: option.split)
  then show ?thesis by (simp add: leasable_def)
qed

lemma processing_ok_claim: "processing_ok rows \<Longrightarrow> processing_ok (claim now t w rows a)"
  by (auto simp: processing_ok_def claim_def update_where_keeps list_ex_iff of_episode_def)

lemma claims_block:
  assumes "processing_ok rows" "leasable now t rows e" "e \<in> set es"
  shows "blocked (lease_until now) t (ep_id e) (foldl (claim now t w) rows (map ep_id es))"
  using assms
proof (induction es arbitrary: rows)
  case (Cons a es)
  have pos: "now \<le> lease_until now" by (simp add: lease_until_def LEASE_MINUTES_def)
  show ?case
  proof (cases "ep_id e = ep_id a")
    case True
    then show ?thesis using blocked_claims [OF blocked_claimed [OF Cons.prems(1,2)] pos, of t w w "map ep_id es"] by simp
  next
    case False
    then have "e \<in> set es" using Cons.prems(3) by auto
    with Cons.IH [OF processing_ok_claim [OF Cons.prems(1)]] leasable_claim_other [OF False] Cons.prems(2) show ?thesis by simp
  qed
qed simp

lemma lease_Inr:
  assumes "lease env h now t limit worker st = (Inr leased, st')"
  obtains w where "leased = map (leased_view env now t (cs_db st)) (lease_candidates now t limit st)"
    "st' = st\<lparr>cs_processing := foldl (claim now t w) (cs_processing st) (map ep_id (lease_candidates now t limit st))\<rparr>"
  using assms by (auto simp: lease_def Let_def split: sum.splits)

lemma lease_processing:
  assumes "lease env h now t limit worker st = (r, st')"
  shows "\<exists>w es. cs_processing st' = foldl (claim now t w) (cs_processing st) es"
proof (cases r)
  case (Inr leased)
  show ?thesis by (rule lease_Inr [OF assms [unfolded Inr]]) auto
next
  case (Inl e)
  with assms have "cs_processing st' = foldl (claim now t []) (cs_processing st) []"
    by (auto simp: lease_def Let_def split: sum.splits)
  then show ?thesis by blast
qed

lemma set_lease_candidates: "e \<in> set (lease_candidates now t limit st) \<Longrightarrow>
    e \<in> set (db_episodes (cs_db st)) \<and> leasable now t (cs_processing st) e"
  unfolding lease_candidates_def by (drule in_set_takeD) simp

lemma lease_blocks:
  assumes "lease env h now t limit worker st = (Inr leased, st')" "processing_ok (cs_processing st)" "l \<in> set leased"
  shows "blocked (lease_until now) t (ep_id (le_episode l)) (cs_processing st')"
proof -
  obtain e where e: "e \<in> set (lease_candidates now t limit st)" "le_episode l = e"
    using assms(1,3) by (auto elim!: lease_Inr simp: leased_view_def)
  show ?thesis
    by (rule lease_Inr [OF assms(1)]) (use e claims_block [OF assms(2) conjunct2 [OF set_lease_candidates] e(1)] in simp)
qed

lemma run_blocked:
  assumes "consolidation_run env u st st'" "blocked u t e (cs_processing st)"
  shows "blocked u t e (cs_processing st')"
  using assms
proof (induction rule: consolidation_run.induct)
  case (leases st1 now h t' limit w r st2)
  then show ?case using lease_processing [OF leases(3)] blocked_claims by metis
next
  case (completes st1 h now req r' st2)
  then show ?case using complete_effects(4) [OF completes(2) refl refl refl] blocked_mark by metis
next
  case (approves st1 h t' i r'' st2)
  then have "cs_processing st2 = cs_processing st1"
    by (auto simp: approve_tag_suggestion_def Let_def split: sum.splits option.splits)
  with approves show ?case by simp
qed

lemma blocked_not_leased:
  assumes "blocked u t (ep_id (le_episode l)) (cs_processing st)" "now \<le> u"
    and "lease env h now t limit worker st = (Inr leased, st')"
  shows "l \<notin> set leased"
proof
  assume "l \<in> set leased"
  with assms(3) have "le_episode l \<in> set (lease_candidates now t limit st)" by (auto elim!: lease_Inr simp: leased_view_def)
  from set_lease_candidates [OF this] blocked_not_leasable [OF assms(1,2)] show False by simp
qed

text \<open>
  C8: Two workers never hold the same episode: once an episode is leased, no lease taken before the first one
  runs out returns it, whatever leases, completions and reviews happen in between.
\<close>

theorem lease_exclusive:
  assumes "lease env h now t limit worker st = (Inr leased, st1)" and "processing_ok (cs_processing st)"
    and "consolidation_run env (lease_until now) st1 st2"
    and "now' \<le> lease_until now" and "lease env h' now' t limit' worker' st2 = (Inr leased', st3)"
  shows "(\<lambda>l. ep_id (le_episode l)) ` set leased \<inter> (\<lambda>l. ep_id (le_episode l)) ` set leased' = {}"
proof -
  have "l' \<notin> set leased'" if "l \<in> set leased" "ep_id (le_episode l') = ep_id (le_episode l)" for l l'
    using blocked_not_leased [OF run_blocked [OF assms(3) lease_blocks [OF assms(1,2) that(1)], folded that(2)] assms(4,5)] .
  then show ?thesis by fastforce
qed

lemma complete_processed:
  assumes "complete_episode env h now req st = (Inr resp, st1)" and "t = cq_tenant_id req" and "e = cq_episode_id req"
  shows "blocked u t e (cs_processing st1)"
proof -
  let ?open = "\<lambda>p. of_episode t e p \<and> lp_processed_at p = None"
  consider "st1 = st" "resp = AlreadyProcessed" | st2 where "list_ex ?open (cs_processing st)"
      "cs_processing st2 = mark_processed now t e (cs_processing st)" "publishes_within (applied_tags env (cq_tag_suggestions req)) t st2 st1"
    using complete_episode_steps [OF assms refl] by (cases resp) (auto dest: write_l2_facts_frame)
  then show ?thesis
  proof cases
    case 1
    with assms(1) have "\<not> list_ex ?open (cs_processing st)" "list_ex (of_episode t e) (cs_processing st)"
      by (auto simp: complete_episode_def Let_def assms(2,3) bind_c_result split: sum.splits if_splits option.splits)
    with 1 show ?thesis by (auto simp: blocked_def list_all_iff list_ex_iff)
  next
    case 2
    then have "cs_processing st1 = mark_processed now t e (cs_processing st)" by (simp add: publishes_within_def)
    moreover have "list_ex (of_episode t e) (cs_processing st)" using 2(1) by (auto simp: list_ex_iff)
    ultimately show ?thesis
      by (auto simp: blocked_def mark_processed_def list_ex_update list_all_iff elim!: mem_update_where)
  qed
qed

text \<open>A completed episode is never leased again, at any later time.\<close>

lemma completed_never_leased:
  assumes "complete_episode env h now req st = (Inr resp, st1)" and "consolidation_run env now' st1 st2"
    and "lease env h' now' (cq_tenant_id req) limit worker st2 = (Inr leased, st3)" and "l \<in> set leased"
  shows "ep_id (le_episode l) \<noteq> cq_episode_id req"
  using run_blocked [OF assms(2) complete_processed [OF assms(1) refl refl]] blocked_not_leased [OF _ order_refl assms(3)] assms(4)
  by metis

section \<open>Runs\<close>

definition episode_chunk :: "uuid \<Rightarrow> principal_token list \<Rightarrow> confidentiality \<Rightarrow> chunk_row" where
  "episode_chunk i vis conf =
     \<lparr>ch_id = i, ch_tenant_id = 1, ch_source = ''slack'', ch_document_id = ''m1'', ch_seq = int i,
      ch_content = ''onboarding slipped'', ch_content_hash = ''h'', ch_embedding = None, ch_visibility = vis,
      ch_entity_tags = [], ch_confidentiality = conf, ch_trust_tier = Observation, ch_valid_from = 0,
      ch_valid_to = None, ch_provenance = 10, ch_acl_provenance = Mirrored, ch_kind = ''chunk'',
      ch_categories = [], ch_support_tier = None, ch_derived_from = []\<rparr>"

definition worker_state :: "knowledge_row list \<Rightarrow> consolidation_state" where
  "worker_state ks =
     \<lparr>cs_adapter = new_cache (sample_db\<lparr>db_chunks := [episode_chunk 20 [7, 9] Internal, episode_chunk 21 [9, 7, 5] Confidential], db_knowledge := ks\<rparr>),
      cs_processing = [], cs_suggestions = [], cs_settings = [], cs_embeddings = Map.empty,
      cs_eligible_at = Map.empty, cs_rejected_reason = Map.empty\<rparr>"

definition worker_env :: consolidation_env where
  "worker_env = \<lparr>cn_auth = \<lparr>ad_mac = (\<lambda>s. s), ad_expected_tag = None, ad_allowed_origin = None\<rparr>, cn_auto_tag = False, cn_auto_merge = True,
     cn_encode = (\<lambda>_. None), cn_distance = (\<lambda>_ _. 0), cn_uuid_str = (\<lambda>_. ''u''), cn_payload = (\<lambda>_ _. None),
     cn_fresh = (\<lambda>lane n. 1000 + 10 * n + lane)\<rparr>"

definition worker_request :: "tag_suggestion_in list \<Rightarrow> knowledge_candidate list \<Rightarrow> complete_request" where
  "worker_request tags ks = \<lparr>cq_tenant_id = 1, cq_episode_id = 10,
     cq_l2_facts = [\<lparr>lf_subject = ''Acme  Corp'', lf_relation = ''Blocked by'', lf_object = JString ''legal'', lf_valid_from = None, lf_canonical_predicate = None\<rparr>],
     cq_tag_suggestions = tags, cq_knowledge_candidates = ks\<rparr>"

definition late_vendors :: "uuid option \<Rightarrow> knowledge_candidate" where
  "late_vendors target = \<lparr>kc_statement = ''vendors answer late'', kc_categories = [], kc_evidence = [10, 11],
     kc_canonical_statement = None, kc_merge_into = target, kc_judge_reason = None\<rparr>"

abbreviation leased_state :: "knowledge_row list \<Rightarrow> consolidation_state" where
  "leased_state ks \<equiv> snd (lease worker_env demo_headers 100 1 16 None (worker_state ks))"




theorem lease_exclusive_witness:
  "fst (lease worker_env demo_headers 100 1 1 None (worker_state [])) \<noteq> Inr [] \<and>
   (\<lambda>l. ep_id (le_episode l)) ` set (projr (fst (lease worker_env demo_headers 100 1 1 None (worker_state [])))) \<inter>
   (\<lambda>l. ep_id (le_episode l)) ` set (projr (fst (lease worker_env demo_headers 200 1 16 (Some ''w2'')
                 (snd (lease worker_env demo_headers 100 1 1 None (worker_state [])))))) = {}"
proof
  let ?a = "lease worker_env demo_headers 100 1 1 None (worker_state [])"
  let ?b = "lease worker_env demo_headers 200 1 16 (Some ''w2'') (snd ?a)"
  show "fst ?a \<noteq> Inr []" by code_simp
  have a: "?a = (Inr (projr (fst ?a)), snd ?a)" "?b = (Inr (projr (fst ?b)), snd ?b)"
    by (rule prod_eqI; simp; code_simp)+
  have ok: "processing_ok (cs_processing (worker_state []))" "200 \<le> lease_until 100" by code_simp+
  show "(\<lambda>l. ep_id (le_episode l)) ` set (projr (fst ?a)) \<inter> (\<lambda>l. ep_id (le_episode l)) ` set (projr (fst ?b)) = {}"
    by (rule lease_exclusive [OF a(1) ok(1) consolidation_run.start ok(2) a(2)])
qed

text \<open>
  Completion marks the episode processed before it writes. A request with one unknown chunk among its
  suggestions is refused after the derived facts are written and before any candidate is proposed; the
  corrected retry is answered as already processed, and the candidate is never proposed.
\<close>

theorem failed_complete_loses_candidates:
  "fst (complete_episode worker_env demo_headers 200
     (worker_request [\<lparr>ti_chunk_id = 99, ti_tag = ''acme'', ti_confidence = 1\<rparr>] [late_vendors None]) (leased_state [])) = Inl (SuggestedChunkUnknown 99) \<and>
  (let st = snd (complete_episode worker_env demo_headers 200
       (worker_request [\<lparr>ti_chunk_id = 99, ti_tag = ''acme'', ti_confidence = 1\<rparr>] [late_vendors None]) (leased_state []))
   in fst (complete_episode worker_env demo_headers 300 (worker_request [] [late_vendors None]) st) = Inr AlreadyProcessed \<and>
      db_knowledge (cs_db (snd (complete_episode worker_env demo_headers 300 (worker_request [] [late_vendors None]) st))) = [])"
  by code_simp

text \<open>A judged merge is accepted with no reason given: evidence accrues and no reason is recorded.\<close>

theorem judged_merge_without_reason:
  "let k = sample_knowledge Candidate;
       st = snd (complete_episode worker_env demo_headers 200 (worker_request [] [late_vendors (Some 7)]) (leased_state [k]))
   in map kn_merge_reason (db_knowledge (cs_db st)) = [None] \<and> map kn_episode_count (db_knowledge (cs_db st)) = [2] \<and> kn_episode_count k = 0"
  by code_simp

end
