(* ===== verification/Access_Graph.thy ===== *)
theory Access_Graph
  imports Canon Identity_Admin
begin

text \<open>
  The permission graph of the admin plane: \<^verbatim>\<open>admin_access_subject\<close> (what does a subject see) and
  \<^verbatim>\<open>admin_access_object\<close> (who can see an object) of \<^verbatim>\<open>verity-server/src/main.rs\<close>, with the aggregate, the
  documents page and the decode of \<^verbatim>\<open>verity-storage/src/postgres.rs\<close>. Whether a statement runs into its
  timeout is a parameter, as are the formatter and the parsers of time stamps and UUIDs in the cursor.
  Groups of equal size are listed in the order of their first row.
\<close>

section \<open>Parameters and results\<close>

record 'g access_env =
  ax_id :: "'g identity_env"
  ax_timeout :: "nat \<Rightarrow> bool"
  ax_rfc3339 :: "instant \<Rightarrow> string"
  ax_parse_rfc3339 :: "string \<Rightarrow> instant option"
  ax_uuid_str :: "uuid \<Rightarrow> string"
  ax_parse_uuid :: "string \<Rightarrow> uuid option"

datatype access_refusal =
    AccessGate id_refusal
  | SubjectShape
  | CursorShape
  | CursorTimestamp
  | CursorId
  | SelectorShape
  | OverCeiling

fun access_status :: "access_refusal \<Rightarrow> nat" where
  "access_status (AccessGate e) = id_status e"
| "access_status SubjectShape = 422"
| "access_status CursorShape = 400"
| "access_status CursorTimestamp = 400"
| "access_status CursorId = 400"
| "access_status SelectorShape = 400"
| "access_status OverCeiling = 422"




section \<open>Tokens\<close>

definition resolve_tokens :: "tenant_id \<Rightarrow> principal_token list \<Rightarrow> principal_row list \<Rightarrow> (principal_token \<times> string) list" where
  "resolve_tokens t tokens rows =
     map (\<lambda>r. (pr_token r, pr_principal r)) (filter (\<lambda>r. pr_tenant_id r = t \<and> pr_token r \<in> set tokens) rows)"


definition windowed_revoked_tokens :: "instant \<Rightarrow> tenant_id \<Rightarrow> int \<Rightarrow> revocation_db \<Rightarrow> principal_token list" where
  "windowed_revoked_tokens now t window_secs db =
     remdups (map rv_token (filter (\<lambda>r. rv_tenant_id r = t \<and> now - seconds (max window_secs 0) < rv_at r) (rd_revocations db)))"

section \<open>The corpus aggregate\<close>

definition authorized_chunk :: "tenant_id \<Rightarrow> principal_token list \<Rightarrow> int \<Rightarrow> chunk_row \<Rightarrow> bool" where
  "authorized_chunk t tokens max_conf c \<longleftrightarrow>
     ch_tenant_id c = t \<and> set (ch_visibility c) \<inter> set tokens \<noteq> {} \<and> conf_code (ch_confidentiality c) \<le> max_conf \<and> ch_valid_to c = None"









section \<open>The documents page\<close>

definition page_key :: "chunk_row \<Rightarrow> instant \<times> uuid" where
  "page_key c = (ch_valid_from c, ch_id c)"

definition access_documents_page ::
  "tenant_id \<Rightarrow> principal_token list \<Rightarrow> int \<Rightarrow> (instant \<times> uuid) option \<Rightarrow> int \<Rightarrow> database \<Rightarrow> chunk_row list" where
  "access_documents_page t tokens max_conf after chunk_page db =
     (if tokens = [] then []
      else take (nat (clamp 1 5000 chunk_page)) (rev (sort_key page_key
        (filter (\<lambda>c. authorized_chunk t tokens max_conf c \<and> (case after of None \<Rightarrow> True | Some k \<Rightarrow> page_key c < k)) (db_chunks db)))))"



definition parse_docs_after :: "'g access_env \<Rightarrow> string \<Rightarrow> access_refusal + instant \<times> uuid" where
  "parse_docs_after env raw =
     (case split_once CHR ''|'' raw of
        None \<Rightarrow> Inl CursorShape
      | Some (ts, i) \<Rightarrow>
          (case ax_parse_rfc3339 env (trim ts) of
             None \<Rightarrow> Inl CursorTimestamp
           | Some at' \<Rightarrow>
               (case ax_parse_uuid env (trim i) of None \<Rightarrow> Inl CursorId | Some u \<Rightarrow> Inr (at', u))))"

definition format_cursor :: "'g access_env \<Rightarrow> chunk_row \<Rightarrow> string" where
  "format_cursor env c = ax_rfc3339 env (ch_valid_from c) @ ''|'' @ ax_uuid_str env (ch_id c)"

section \<open>What a subject sees\<close>









definition access_guard :: "'g access_env \<Rightarrow> headers \<Rightarrow> tenant_id \<Rightarrow> 'g identity_state \<Rightarrow> id_refusal + 'g spicedb" where
  "access_guard env h t st =
     and_then (admin_require (ie_auth (ax_id env)) h) (\<lambda>_.
     and_then (require_rebac (ax_id env)) (\<lambda>sd.
     and_then (tenant_known t st) (\<lambda>_. Inr sd)))"







section \<open>Who can see an object\<close>

datatype object_selector = ByDocument string | BySource string | ByEntity string

record object_decode =
  od_tokens :: "principal_token list"
  od_min_confidentiality :: "int option"
  od_provenance :: "string list"
  od_approximate :: bool
  od_refused_over_ceiling :: bool

definition ACCESS_OBJECT_CORPUS_CEILING :: nat where
  "ACCESS_OBJECT_CORPUS_CEILING = 2000000"

fun selects :: "object_selector \<Rightarrow> chunk_row \<Rightarrow> bool" where
  "selects (ByDocument d) c = (ch_document_id c = d)"
| "selects (BySource s) c = (ch_source c = s)"
| "selects (ByEntity e) c = (e \<in> set (ch_entity_tags c))"

fun gated :: "object_selector \<Rightarrow> bool" where
  "gated (ByDocument _) = False"
| "gated (BySource _) = True"
| "gated (ByEntity _) = True"

definition object_chunks :: "tenant_id \<Rightarrow> object_selector \<Rightarrow> database \<Rightarrow> chunk_row list" where
  "object_chunks t sel db = filter (\<lambda>c. ch_tenant_id c = t \<and> selects sel c \<and> ch_valid_to c = None) (db_chunks db)"

definition min_conf_of :: "chunk_row list \<Rightarrow> int option" where
  "min_conf_of rows = (case map (\<lambda>c. conf_code (ch_confidentiality c)) rows of [] \<Rightarrow> None | x # xs \<Rightarrow> Some (foldl min x xs))"

definition access_object_tokens :: "'g access_env \<Rightarrow> tenant_id \<Rightarrow> object_selector \<Rightarrow> nat \<Rightarrow> database \<Rightarrow> object_decode" where
  "access_object_tokens env t sel ceiling' db =
     (if gated sel \<and> (ax_timeout env 0 \<or> ceiling' < length (filter (\<lambda>c. ch_tenant_id c = t \<and> ch_valid_to c = None) (db_chunks db)))
      then \<lparr>od_tokens = [], od_min_confidentiality = None, od_provenance = [], od_approximate = False, od_refused_over_ceiling = True\<rparr>
      else if ax_timeout env 1
      then \<lparr>od_tokens = [], od_min_confidentiality = None, od_provenance = [], od_approximate = True, od_refused_over_ceiling = False\<rparr>
      else let rows = object_chunks t sel db; tokens = remdups (concat (map ch_visibility rows)) in
           if ax_timeout env 2
           then \<lparr>od_tokens = tokens, od_min_confidentiality = None, od_provenance = [], od_approximate = True, od_refused_over_ceiling = False\<rparr>
           else \<lparr>od_tokens = tokens, od_min_confidentiality = min_conf_of rows,
                  od_provenance = remdups_adj (sort (map (\<lambda>c. acl_provenance_as_str (ch_acl_provenance c)) rows)),
                  od_approximate = False, od_refused_over_ceiling = False\<rparr>)"

record object_query =
  oq_tenant_id :: tenant_id
  oq_document_id :: "string option"
  oq_source :: "string option"
  oq_entity :: "string option"
  oq_users_limit :: "nat option"

definition object_selector_of :: "object_query \<Rightarrow> (object_selector \<times> string \<times> string) option" where
  "object_selector_of q =
     (case (oq_document_id q, oq_source q, oq_entity q) of
        (Some d, None, None) \<Rightarrow> if d \<noteq> [] then Some (ByDocument d, ''document'', d) else None
      | (None, Some s, None) \<Rightarrow> if s \<noteq> [] then Some (BySource s, ''source'', s) else None
      | (None, None, Some e) \<Rightarrow> if e \<noteq> [] then Some (ByEntity e, ''entity'', e) else None
      | _ \<Rightarrow> None)"

record reachable_user =
  ru_user :: string
  ru_via :: "string list"
  ru_direct :: bool

record object_report =
  or_tokens :: "principal_token list"
  or_confidentiality :: "int option"
  or_provenance :: "string list"
  or_principals :: "(principal_token \<times> string \<times> string) list"
  or_reachable :: "reachable_user list"
  or_approximate :: bool
  or_fanout_truncated :: bool

definition principal_kind_label :: "string \<Rightarrow> string" where
  "principal_kind_label p = (if starts_with ''group:'' p then ''group'' else if starts_with ''user:'' p then ''user'' else ''other'')"

definition reachable_users :: "string list \<Rightarrow> (string \<times> string list) list \<Rightarrow> reachable_user list" where
  "reachable_users direct via =
     map (\<lambda>(u, gs). \<lparr>ru_user = u, ru_via = gs, ru_direct = (u \<in> set direct)\<rparr>) via @
     map (\<lambda>u. \<lparr>ru_user = u, ru_via = [], ru_direct = True\<rparr>) (filter (\<lambda>u. u \<notin> fst ` set via) direct)"

definition admin_access_object ::
  "'g access_env \<Rightarrow> headers \<Rightarrow> object_query \<Rightarrow> 'g identity_state \<Rightarrow> (access_refusal + object_report) \<times> 'g identity_state" where
  "admin_access_object env h q st =
     (let t = oq_tenant_id q in
      case access_guard env h t st of
        Inl e \<Rightarrow> (Inl (AccessGate e), st)
      | Inr sd \<Rightarrow>
          (case object_selector_of q of
             None \<Rightarrow> (Inl SelectorShape, st)
           | Some (sel, mode, obj_id) \<Rightarrow>
               let users_limit = nat (clamp 1 10000 (case oq_users_limit q of None \<Rightarrow> 1000 | Some n \<Rightarrow> int n));
                   decode = access_object_tokens env t sel ACCESS_OBJECT_CORPUS_CEILING (sv_db (is_server st)) in
               if od_refused_over_ceiling decode then (Inl OverCeiling, st)
               else
                 let resolved = resolve_tokens t (od_tokens decode) (rd_principals (sv_rev (is_server st))) in
                 (case via_gateway (users_reachable_via_groups sd t (filter (starts_with ''group:'') (map snd resolved)) users_limit) st of
                    (Inl e, st1) \<Rightarrow> (Inl (AccessGate e), st1)
                  | (Inr (via, truncated), st1) \<Rightarrow>
                      let reachable = reachable_users (remdups (filter (starts_with ''user:'') (map snd resolved))) via in
                      (Inr \<lparr>or_tokens = od_tokens decode, or_confidentiality = od_min_confidentiality decode,
                            or_provenance = od_provenance decode,
                            or_principals = map (\<lambda>(tok, p). (tok, p, principal_kind_label p)) resolved,
                            or_reachable = reachable, or_approximate = od_approximate decode, or_fanout_truncated = truncated\<rparr>,
                       write_access_audit t (actor_fingerprint (ie_auth (ax_id env)) h) ''access/object'' obj_id
                         (JObject [(''mode'', JString mode)])
                         (JObject [(''principals'', JNumber (PosInt (length resolved))), (''reachable_users'', JNumber (PosInt (length reachable))),
                                   (''visibility_tokens'', JNumber (PosInt (length (od_tokens decode))))]) st1))))"

section \<open>The aggregate counts what the read path authorises\<close>





















section \<open>Paging\<close>

definition cursor_ok :: "'g access_env \<Rightarrow> bool" where
  "cursor_ok env \<longleftrightarrow> (\<forall>t u. ax_parse_rfc3339 env (ax_rfc3339 env t) = Some t \<and> ax_parse_uuid env (ax_uuid_str env u) = Some u \<and>
     CHR ''|'' \<notin> set (ax_rfc3339 env t) \<and> trim (ax_rfc3339 env t) = ax_rfc3339 env t \<and> trim (ax_uuid_str env u) = ax_uuid_str env u)"

lemma cursor_roundtrip: "cursor_ok env \<Longrightarrow> parse_docs_after env (format_cursor env c) = Inr (page_key c)"
  by (simp add: cursor_ok_def parse_docs_after_def format_cursor_def split_once_append page_key_def)

text \<open>Everything the tokens may see, newest first.\<close>

definition visible_documents :: "tenant_id \<Rightarrow> principal_token list \<Rightarrow> int \<Rightarrow> database \<Rightarrow> chunk_row list" where
  "visible_documents t tokens max_conf db = rev (sort_key page_key (filter (authorized_chunk t tokens max_conf) (db_chunks db)))"

lemma page_of_visible:
  "access_documents_page t tokens max_conf after p db =
     take (nat (clamp 1 5000 p)) (filter (\<lambda>c. case after of None \<Rightarrow> True | Some k \<Rightarrow> page_key c < k) (visible_documents t tokens max_conf db))"
proof -
  have none: "visible_documents t [] max_conf db = []" by (simp add: visible_documents_def authorized_chunk_def)
  have "filter (\<lambda>c. authorized_chunk t tokens max_conf c \<and> P c) (db_chunks db) =
      filter P (filter (authorized_chunk t tokens max_conf) (db_chunks db))" for P by (simp add: conj_commute)
  then have "rev (sort_key page_key (filter (\<lambda>c. authorized_chunk t tokens max_conf c \<and> P c) (db_chunks db))) =
      filter P (visible_documents t tokens max_conf db)" for P
    by (simp add: visible_documents_def rev_filter filter_sort [symmetric] del: filter_filter)
  then show ?thesis unfolding access_documents_page_def using none by (cases "tokens = []") simp_all
qed

lemma visible_documents_descending:
  assumes "distinct (map ch_id (db_chunks db))"
  shows "sorted_wrt (\<lambda>c d. page_key d < page_key c) (visible_documents t tokens max_conf db)"
proof -
  let ?rows = "filter (authorized_chunk t tokens max_conf) (db_chunks db)"
  have "distinct (map ch_id ?rows)" using assms by (rule distinct_map_filter)
  then have inj: "inj_on ch_id (set ?rows)" "distinct ?rows" by (simp_all add: distinct_map)
  then have "inj_on page_key (set ?rows)" by (auto simp: inj_on_def page_key_def)
  with inj(2) have "distinct (map page_key (sort_key page_key ?rows))" by (simp add: distinct_map)
  moreover have "sorted (map page_key (sort_key page_key ?rows))" by simp
  ultimately have "sorted_wrt (<) (map page_key (sort_key page_key ?rows))" by (simp add: strict_sorted_iff)
  then show ?thesis by (simp add: visible_documents_def sorted_wrt_rev sorted_wrt_map)
qed

lemma filter_below_nth:
  assumes "sorted_wrt (\<lambda>c d. f d < (f c :: 'b :: linorder)) xs" "i < length xs"
  shows "filter (\<lambda>c. f c < f (xs ! i)) xs = drop (Suc i) xs"
proof -
  have split: "xs = take i xs @ xs ! i # drop (Suc i) xs" using assms(2) by (rule id_take_nth_drop)
  then have s: "sorted_wrt (\<lambda>c d. f d < f c) (take i xs @ xs ! i # drop (Suc i) xs)" using assms(1) by simp
  have "filter (\<lambda>c. f c < f (xs ! i)) (take i xs) = []"
    using s by (auto simp: sorted_wrt_append filter_empty_conv)
  moreover have "filter (\<lambda>c. f c < f (xs ! i)) (drop (Suc i) xs) = drop (Suc i) xs"
    using s by (auto simp: sorted_wrt_append)
  ultimately show ?thesis by (subst split) simp
qed

text \<open>
  Following the cursor neither skips nor repeats a row: the first page is a prefix of everything the tokens
  may see, newest first, and the page asked for with the cursor of the \<open>i\<close>-th row starts right after it.
\<close>

theorem access_pages_resume:
  assumes "distinct (map ch_id (db_chunks db))" and "cursor_ok env"
    and "i < length (visible_documents t tokens max_conf db)"
  shows "access_documents_page t tokens max_conf None p db = take (nat (clamp 1 5000 p)) (visible_documents t tokens max_conf db) \<and>
    map_sum id (\<lambda>k. access_documents_page t tokens max_conf (Some k) p db)
      (parse_docs_after env (format_cursor env (visible_documents t tokens max_conf db ! i))) =
      Inr (take (nat (clamp 1 5000 p)) (drop (Suc i) (visible_documents t tokens max_conf db)))"
  using filter_below_nth [OF visible_documents_descending [OF assms(1)] assms(3)]
  by (simp add: page_of_visible cursor_roundtrip [OF assms(2)])

section \<open>Who can see an object\<close>

lemma add_reached_users:
  assumes "add_reached cap grp u (m, trunc) = (m', trunc')"
  shows "trunc \<Longrightarrow> trunc'" and "\<not> trunc' \<Longrightarrow> fst ` set m' = insert u (fst ` set m)"
proof -
  have keys: "fst ` set (bt_insert k v n) = insert k (fst ` set n)" for k v and n :: "(string, string list) btree_map"
    using bt_keys_update [of k v "\<lambda>_. v" n] by (simp add: bt_insert_def bt_keys_def)
  have mem: "u \<in> fst ` set m" if "bt_get m u = Some paths" for paths
    using that by (simp add: bt_get_def) (metis domI dom_map_of_conv_image_fst)
  show "trunc \<Longrightarrow> trunc'" using assms by (auto simp: add_reached_def split: option.splits if_splits)
  show "\<not> trunc' \<Longrightarrow> fst ` set m' = insert u (fst ` set m)"
  proof (cases "bt_get m u")
    case None
    assume "\<not> trunc'"
    with None assms have "m' = bt_insert u [grp] m" by (auto simp: add_reached_def split: if_splits)
    then show ?thesis by (simp add: keys)
  next
    case (Some paths)
    then have "insert u (fst ` set m) = fst ` set m" using mem by (simp add: insert_absorb)
    moreover have "m' = m \<or> (\<exists>v. m' = bt_insert u v m)" using Some assms by (auto simp: add_reached_def split: if_splits)
    ultimately show ?thesis using keys by metis
  qed
qed

lemma add_all_reached:
  assumes "foldl (\<lambda>a u. add_reached cap grp u a) (m, trunc) us = (m', trunc')"
  shows "(trunc \<longrightarrow> trunc') \<and> (\<not> trunc' \<longrightarrow> fst ` set m' = fst ` set m \<union> set us)"
  using assms
proof (induction us arbitrary: m trunc)
  case (Cons u us)
  obtain m1 t1 where step: "add_reached cap grp u (m, trunc) = (m1, t1)" by fastforce
  with Cons.prems have "foldl (\<lambda>a u. add_reached cap grp u a) (m1, t1) us = (m', trunc')" by simp
  from Cons.IH [OF this] add_reached_users [OF step] show ?case by auto
qed simp

definition reached_users :: "'g spicedb \<Rightarrow> relationship set \<Rightarrow> tenant_id \<Rightarrow> string list \<Rightarrow> string set" where
  "reached_users sd R t groups =
     {''user:'' @ name |name grp n. grp \<in> set groups \<and> parse_principal grp = Some (GroupPrincipal, n) \<and>
        in_group (memberships sd R) t UserPrincipal name n}"

lemma reached_users_Cons:
  "parse_principal grp = Some (GroupPrincipal, n) \<Longrightarrow> reached_users sd R t (grp # groups) =
     {''user:'' @ name |name. in_group (memberships sd R) t UserPrincipal name n} \<union> reached_users sd R t groups"
  "\<nexists>n. parse_principal grp = Some (GroupPrincipal, n) \<Longrightarrow> reached_users sd R t (grp # groups) = reached_users sd R t groups"
  unfolding reached_users_def by fastforce+

lemma reach_groups_spec:
  assumes "uuid_ok sd" "lookups_ok sd rel" "valid_uuid t"
  shows "tenant_tuples sd (rel g) \<Longrightarrow> (\<forall>grp \<in> set groups. \<forall>n. parse_principal grp = Some (GroupPrincipal, n) \<longrightarrow> sd_utf8 sd n) \<Longrightarrow>
     reach_groups sd t cap groups (m, trunc) g = (Inr (m', trunc'), g') \<Longrightarrow>
     (trunc \<longrightarrow> trunc') \<and> (\<not> trunc' \<longrightarrow> fst ` set m' = fst ` set m \<union> reached_users sd (rel g) t groups)"
proof (induction groups arbitrary: m trunc g)
  case Nil
  then show ?case by (simp add: reached_users_def)
next
  case (Cons grp groups)
  have utf: "\<forall>grp \<in> set groups. \<forall>n. parse_principal grp = Some (GroupPrincipal, n) \<longrightarrow> sd_utf8 sd n" using Cons.prems(2) by simp
  show ?case
  proof (cases "\<exists>n. parse_principal grp = Some (GroupPrincipal, n)")
    case True
    then obtain n where n: "parse_principal grp = Some (GroupPrincipal, n)" by blast
    with Cons.prems(3) obtain us g1 where us: "group_users sd t n g = (Inr us, g1)"
      and rest: "reach_groups sd t cap groups (foldl (\<lambda>a u. add_reached cap grp u a) (m, trunc) us) g1 = (Inr (m', trunc'), g')"
      by (auto simp: bind_r_Inr)
    have "sd_utf8 sd n" using Cons.prems(2) n by simp
    note spec = group_users_spec [OF assms(1,2) Cons.prems(1) assms(3) this us]
    obtain m1 t1 where step: "foldl (\<lambda>a u. add_reached cap grp u a) (m, trunc) us = (m1, t1)" by fastforce
    have "tenant_tuples sd (rel g1)" using spec(1) Cons.prems(1) by simp
    note IH = Cons.IH [OF this utf rest [unfolded step], unfolded spec(1)]
    have "fst ` set m' = fst ` set m \<union> reached_users sd (rel g) t (grp # groups)" if "\<not> trunc'"
    proof -
      have "fst ` set m1 = fst ` set m \<union> set us" using that IH add_all_reached [OF step] by simp
      then show ?thesis using that IH unfolding reached_users_Cons(1) [OF n] spec(3) [symmetric] by (simp add: Un_assoc)
    qed
    moreover have "trunc \<Longrightarrow> trunc'" using IH add_all_reached [OF step] by blast
    ultimately show ?thesis by blast
  next
    case False
    then have "reach_groups sd t cap groups (m, trunc) g = (Inr (m', trunc'), g')"
      using Cons.prems(3) by (auto split: option.splits principal_kind.splits)
    from Cons.IH [OF Cons.prems(1) utf this] show ?thesis unfolding reached_users_Cons(2) [OF False] .
  qed
qed

lemma admin_access_object_Inr:
  assumes "admin_access_object env h q st = (Inr rep, st')"
  obtains sd sel mode obj_id cap via truncated g resolved where
    "access_guard env h (oq_tenant_id q) st = Inr sd" "object_selector_of q = Some (sel, mode, obj_id)"
    "\<not> od_refused_over_ceiling (access_object_tokens env (oq_tenant_id q) sel ACCESS_OBJECT_CORPUS_CEILING (sv_db (is_server st)))"
    "resolved = resolve_tokens (oq_tenant_id q)
       (od_tokens (access_object_tokens env (oq_tenant_id q) sel ACCESS_OBJECT_CORPUS_CEILING (sv_db (is_server st))))
       (rd_principals (sv_rev (is_server st)))"
    "users_reachable_via_groups sd (oq_tenant_id q) (filter (starts_with ''group:'') (map snd resolved)) cap (is_graph st) = (Inr (via, truncated), g)"
    "or_reachable rep = reachable_users (remdups (filter (starts_with ''user:'') (map snd resolved))) via"
    "or_fanout_truncated rep = truncated"
    "or_approximate rep = od_approximate (access_object_tokens env (oq_tenant_id q) sel ACCESS_OBJECT_CORPUS_CEILING (sv_db (is_server st)))"
proof -
  obtain sd sel mode obj_id where guard: "access_guard env h (oq_tenant_id q) st = Inr sd"
    and sel: "object_selector_of q = Some (sel, mode, obj_id)"
    using assms by (auto simp: admin_access_object_def Let_def split: sum.splits option.splits)
  let ?d = "access_object_tokens env (oq_tenant_id q) sel ACCESS_OBJECT_CORPUS_CEILING (sv_db (is_server st))"
  let ?cap = "nat (clamp 1 10000 (case oq_users_limit q of None \<Rightarrow> 1000 | Some n \<Rightarrow> int n))"
  define resolved where "resolved = resolve_tokens (oq_tenant_id q) (od_tokens ?d) (rd_principals (sv_rev (is_server st)))"
  note body = assms [unfolded admin_access_object_def Let_def guard sum.case sel option.case prod.case, folded resolved_def]
  have ceil: "\<not> od_refused_over_ceiling ?d" using body by (auto split: if_splits)
  obtain r st1 where gw: "via_gateway (users_reachable_via_groups sd (oq_tenant_id q) (filter (starts_with ''group:'') (map snd resolved)) ?cap) st = (r, st1)"
    by fastforce
  note body = body [unfolded if_not_P [OF ceil] gw prod.case]
  obtain via truncated where r: "r = Inr (via, truncated)" using body by (cases r) auto
  note body = body [unfolded r sum.case prod.case]
  obtain g where "users_reachable_via_groups sd (oq_tenant_id q) (filter (starts_with ''group:'') (map snd resolved)) ?cap (is_graph st) = (Inr (via, truncated), g)"
    using gw r by (auto simp: via_gateway_Inr)
  with body guard sel ceil resolved_def show thesis by (intro that) auto
qed

text \<open>The principals whose token stands on a current chunk of the object.\<close>

definition granted_principals :: "tenant_id \<Rightarrow> object_selector \<Rightarrow> 'g identity_state \<Rightarrow> string set" where
  "granted_principals t sel st =
     {pr_principal r |r c. r \<in> set (rd_principals (sv_rev (is_server st))) \<and> pr_tenant_id r = t \<and>
        c \<in> set (object_chunks t sel (sv_db (is_server st))) \<and> pr_token r \<in> set (ch_visibility c)}"

lemma access_object_tokens_exact:
  assumes "\<not> od_refused_over_ceiling (access_object_tokens env t sel corpus_cap db)" "\<not> od_approximate (access_object_tokens env t sel corpus_cap db)"
  shows "set (od_tokens (access_object_tokens env t sel corpus_cap db)) = (\<Union>c \<in> set (object_chunks t sel db). set (ch_visibility c))"
  using assms by (auto simp: access_object_tokens_def Let_def split: if_splits)

lemma users_reachable_spec:
  assumes "uuid_ok sd" "lookups_ok sd rel" "tenant_tuples sd (rel g)" "valid_uuid t"
    and "\<forall>grp \<in> set groups. \<forall>n. parse_principal grp = Some (GroupPrincipal, n) \<longrightarrow> sd_utf8 sd n"
    and "users_reachable_via_groups sd t groups cap g = (Inr (via, False), g')"
  shows "fst ` set via = reached_users sd (rel g) t groups"
proof -
  from assms(6) obtain m where r: "reach_groups sd t cap groups ([], False) g = (Inr (m, False), g')"
    and via: "via = map (\<lambda>(u, paths). (u, remdups_adj (sort paths))) m"
    by (auto simp: users_reachable_via_groups_def bind_r_Inr)
  have keys: "fst ` set m = reached_users sd (rel g) t groups" using reach_groups_spec [OF assms(1,2,4,3,5) r] by simp
  have "map fst via = map fst m" unfolding via by (simp add: case_prod_beta)
  then have "set (map fst via) = set (map fst m)" by (rule arg_cong)
  then show ?thesis unfolding set_map keys .
qed

lemma reachable_users_set: "ru_user ` set (reachable_users direct via) = set direct \<union> fst ` set via"
  by (simp add: reachable_users_def image_Un image_image case_prod_beta) blast

text \<open>
  C19: The report on an object lists exactly the users the object's current chunks grant: those whose own token
  stands on a chunk, and the transitive members of every group whose token does, when the directory's lookups
  answer in full and neither the decode ran into its timeout nor the fan-out into its cap. It lists
  grants, not effective access: revoked tokens and tombstones are not subtracted
  (\<open>access_object_ignores_revocations\<close>).
\<close>

theorem access_object_exact:
  assumes "admin_access_object env h q st = (Inr rep, st')" and "object_selector_of q = Some (sel, mode, obj_id)"
    and "\<not> or_approximate rep" "\<not> or_fanout_truncated rep"
    and "ie_rebac (ax_id env) = Some sd" "uuid_ok sd" "lookups_ok sd rel" "tenant_tuples sd (rel (is_graph st))" "valid_uuid (oq_tenant_id q)"
    and "\<forall>r \<in> set (rd_principals (sv_rev (is_server st))). \<forall>n. parse_principal (pr_principal r) = Some (GroupPrincipal, n) \<longrightarrow> sd_utf8 sd n"
  shows "ru_user ` set (or_reachable rep) =
    {u \<in> granted_principals (oq_tenant_id q) sel st. starts_with ''user:'' u} \<union>
    {''user:'' @ name |name grp. ''group:'' @ grp \<in> granted_principals (oq_tenant_id q) sel st \<and> grp \<noteq> [] \<and>
       in_group (memberships sd (rel (is_graph st))) (oq_tenant_id q) UserPrincipal name grp}"
proof -
  let ?t = "oq_tenant_id q"
  let ?d = "access_object_tokens env ?t sel ACCESS_OBJECT_CORPUS_CEILING (sv_db (is_server st))"
  obtain cap via g resolved where ceil: "\<not> od_refused_over_ceiling ?d"
    and res: "resolved = resolve_tokens ?t (od_tokens ?d) (rd_principals (sv_rev (is_server st)))"
    and via: "users_reachable_via_groups sd ?t (filter (starts_with ''group:'') (map snd resolved)) cap (is_graph st) = (Inr (via, False), g)"
    and out: "or_reachable rep = reachable_users (remdups (filter (starts_with ''user:'') (map snd resolved))) via"
    and appr: "\<not> od_approximate ?d"
    by (rule admin_access_object_Inr [OF assms(1)])
       (use assms(2-5) in \<open>auto simp: access_guard_def and_then_Inr require_rebac_def\<close>)
  have granted: "snd ` set resolved = granted_principals ?t sel st"
    unfolding res granted_principals_def resolve_tokens_def access_object_tokens_exact [OF ceil appr] by (force simp: image_iff)
  have utf: "\<forall>grp \<in> set (filter (starts_with ''group:'') (map snd resolved)). \<forall>n. parse_principal grp = Some (GroupPrincipal, n) \<longrightarrow> sd_utf8 sd n"
    using assms(10) by (auto simp: res resolve_tokens_def)
  have shape: "parse_principal p = Some (GroupPrincipal, n) \<longleftrightarrow> p = ''group:'' @ n \<and> n \<noteq> []" for p n
    by (auto simp: parse_principal_def strip_prefix_Some split: option.splits list.splits)
  have mem: "''group:'' @ n \<in> set (filter (starts_with ''group:'') (map snd resolved)) \<longleftrightarrow> ''group:'' @ n \<in> granted_principals ?t sel st" for n
    unfolding granted [symmetric] set_filter set_map using starts_with_iff by blast
  have "fst ` set via = {''user:'' @ name |name grp. ''group:'' @ grp \<in> granted_principals ?t sel st \<and> grp \<noteq> [] \<and>
       in_group (memberships sd (rel (is_graph st))) ?t UserPrincipal name grp}"
    unfolding users_reachable_spec [OF assms(6-9) utf via] reached_users_def shape using mem by blast
  moreover have "set (remdups (filter (starts_with ''user:'') (map snd resolved))) = {u \<in> granted_principals ?t sel st. starts_with ''user:'' u}"
    using granted by auto
  ultimately show ?thesis unfolding out reachable_users_set by simp
qed

section \<open>Runs\<close>

definition graph_chunk :: "uuid \<Rightarrow> string \<Rightarrow> principal_token list \<Rightarrow> chunk_row" where
  "graph_chunk i doc vis =
     \<lparr>ch_id = i, ch_tenant_id = 1, ch_source = ''drive'', ch_document_id = doc, ch_seq = 0, ch_content = ''plan'',
      ch_content_hash = ''h'', ch_embedding = None, ch_visibility = vis, ch_entity_tags = [], ch_confidentiality = Internal,
      ch_trust_tier = Observation, ch_valid_from = 10 * int i, ch_valid_to = None, ch_provenance = 10, ch_acl_provenance = Mirrored,
      ch_kind = ''chunk'', ch_categories = [], ch_support_tier = None, ch_derived_from = []\<rparr>"

definition graph_db :: database where
  "graph_db = sample_db\<lparr>db_chunks := [graph_chunk 20 ''a'' [7], graph_chunk 21 ''b'' [9], graph_chunk 22 ''c'' [3]]\<rparr>"

definition graph_state :: "relationship list identity_state" where
  "graph_state = demo_state\<lparr>is_server := sample_state\<lparr>sv_db := graph_db, sv_rev := sample_rev_db\<lparr>rd_principals :=
       [\<lparr>pr_tenant_id = 1, pr_principal = ''group:sales'', pr_token = 7\<rparr>, \<lparr>pr_tenant_id = 1, pr_principal = ''user:alice'', pr_token = 9\<rparr>]\<rparr>\<rparr>\<rparr>"

definition digit_str :: "nat \<Rightarrow> string" where
  "digit_str n = replicate n CHR ''1''"

definition graph_env :: "relationship list access_env" where
  "graph_env = \<lparr>ax_id = demo_env, ax_timeout = (\<lambda>_. False),
     ax_rfc3339 = (\<lambda>t. if t < 0 then CHR ''-'' # digit_str (nat (- t)) else digit_str (nat t)),
     ax_parse_rfc3339 = (\<lambda>s. case s of [] \<Rightarrow> Some 0 | c # cs \<Rightarrow> Some (if c = CHR ''-'' then - int (length cs) else int (length s))),
     ax_uuid_str = digit_str, ax_parse_uuid = (\<lambda>s. Some (length s))\<rparr>"



lemma graph_guard: "access_guard graph_env demo_headers 1 graph_state = Inr demo_sd"
proof -
  have "admin_require (ie_auth (ax_id graph_env)) demo_headers = Inr ()" "tenant_known 1 graph_state = Inr ()" by code_simp+
  then show ?thesis
    by (simp add: access_guard_def require_rebac_def graph_env_def demo_env_def)
qed


lemma graph_dir:
  "ie_rebac (ax_id graph_env) = Some demo_sd" "tenant_tuples demo_sd (set (is_graph graph_state))" "valid_uuid 1"
  using demo_tenant_tuples by (simp_all add: graph_env_def demo_env_def graph_state_def demo_state_def valid_uuid_def)


lemma graph_cursor_ok: "cursor_ok graph_env"
proof -
  have plain: "trim (replicate n CHR ''1'') = replicate n CHR ''1''" for n
    by (rule trim_eqI) (auto simp: is_whitespace_def)
  have signed: "trim (CHR ''-'' # replicate n CHR ''1'') = CHR ''-'' # replicate n CHR ''1''" for n
    by (rule trim_eqI) (auto simp: is_whitespace_def)
  have pos: "(case replicate n CHR ''1'' of [] \<Rightarrow> Some 0 | c # cs \<Rightarrow> Some (if c = CHR ''-'' then - int (length cs) else int (length (replicate n CHR ''1'')))) = Some (int n)" for n
    by (cases n) simp_all
  show ?thesis unfolding cursor_ok_def graph_env_def digit_str_def
    by (simp add: plain signed pos)
qed

theorem access_pages_resume_witness:
  "map ch_id (access_documents_page 1 [7, 9] 3 None 1 graph_db) = [21] \<and>
   map_sum id (map ch_id) (map_sum id (\<lambda>k. access_documents_page 1 [7, 9] 3 (Some k) 1 graph_db)
     (parse_docs_after graph_env (format_cursor graph_env (visible_documents 1 [7, 9] 3 graph_db ! 0)))) = Inr [20]"
proof -
  have "distinct (map ch_id (db_chunks graph_db))" "0 < length (visible_documents 1 [7, 9] 3 graph_db)" by code_simp+
  note page = access_pages_resume [OF this(1) graph_cursor_ok this(2), of 1]
  have "map ch_id (take (nat (clamp 1 5000 1)) (visible_documents 1 [7, 9] 3 graph_db)) = [21]"
    "map ch_id (take (nat (clamp 1 5000 1)) (drop (Suc 0) (visible_documents 1 [7, 9] 3 graph_db))) = [20]" by code_simp+
  with page show ?thesis by simp
qed

text \<open>Document a is granted to sales, which alice reaches through west.\<close>

definition graph_object_query :: object_query where
  "graph_object_query = \<lparr>oq_tenant_id = 1, oq_document_id = Some ''a'', oq_source = None, oq_entity = None, oq_users_limit = None\<rparr>"

theorem access_object_exact_witness:
  "ru_user ` set (or_reachable (projr (fst (admin_access_object graph_env demo_headers graph_object_query graph_state)))) = {''user:alice''} \<and>
   granted_principals 1 (ByDocument ''a'') graph_state = {''group:sales''} \<and>
   in_group (memberships demo_sd (set (is_graph graph_state))) 1 UserPrincipal ''alice'' ''sales''"
proof -
  let ?r = "admin_access_object graph_env demo_headers graph_object_query graph_state"
  have sel: "object_selector_of graph_object_query = Some (ByDocument ''a'', ''document'', ''a'')" by code_simp
  let ?d = "access_object_tokens graph_env 1 (ByDocument ''a'') ACCESS_OBJECT_CORPUS_CEILING (sv_db (is_server graph_state))"
  have d: "od_tokens ?d = [7]" "\<not> od_refused_over_ceiling ?d" "\<not> od_approximate ?d"
    by (simp_all add: access_object_tokens_def graph_env_def graph_state_def graph_db_def object_chunks_def graph_chunk_def Let_def)
  have res: "resolve_tokens 1 [7] (rd_principals (sv_rev (is_server graph_state))) = [(7, ''group:sales'')]"
    by (simp add: resolve_tokens_def graph_state_def)
  have "filter (starts_with ''group:'') [''group:sales''] = [''group:sales'']" "parse_principal ''group:sales'' = Some (GroupPrincipal, ''sales'')"
    by code_simp+
  then have gw: "\<exists>via. via_gateway (users_reachable_via_groups demo_sd 1 (filter (starts_with ''group:'') [''group:sales'']) cap) graph_state = (Inr (via, cap = 0), graph_state)" for cap
    by (simp add: via_gateway_def users_reachable_via_groups_def graph_state_def demo_state_def demo_group_users add_reached_def bt_get_def
        del: One_nat_def)
  let ?cap = "nat (clamp 1 10000 (case oq_users_limit graph_object_query of None \<Rightarrow> 1000 | Some n \<Rightarrow> int n))"
  have cap: "?cap \<noteq> 0" by (simp add: graph_object_query_def clamp_def)
  obtain via where via: "via_gateway (users_reachable_via_groups demo_sd 1 (filter (starts_with ''group:'') [''group:sales'']) ?cap) graph_state = (Inr (via, False), graph_state)"
    using gw [of ?cap] cap by auto
  have t: "oq_tenant_id graph_object_query = 1" by (simp add: graph_object_query_def)
  have "\<exists>rep st'. ?r = (Inr rep, st') \<and> \<not> or_approximate rep \<and> \<not> or_fanout_truncated rep"
    unfolding admin_access_object_def Let_def t graph_guard sel sum.case option.case prod.case if_not_P [OF d(2)] d(1) res list.map snd_conv via
    by (simp add: d(3) del: One_nat_def)
  then obtain rep st' where run: "?r = (Inr rep, st')" and ok: "\<not> or_approximate rep" "\<not> or_fanout_truncated rep" by blast
  have utf: "\<forall>r \<in> set (rd_principals (sv_rev (is_server graph_state))). \<forall>n. parse_principal (pr_principal r) = Some (GroupPrincipal, n) \<longrightarrow> sd_utf8 demo_sd n"
    by (simp add: demo_sd_def)
  have granted: "granted_principals 1 (ByDocument ''a'') graph_state = {''group:sales''}"
    by (auto simp: granted_principals_def graph_state_def graph_db_def graph_chunk_def object_chunks_def)
       (rule exI [of _ "\<lparr>pr_tenant_id = 1, pr_principal = ''group:sales'', pr_token = 7\<rparr>"], simp)
  have "is_graph graph_state = demo_graph" by (simp add: graph_state_def demo_state_def)
  then have members: "{''user:'' @ u |u. in_group (memberships demo_sd (set (is_graph graph_state))) 1 UserPrincipal u ''sales''} = {''user:alice''}"
    using group_users_spec(3) [OF demo_uuid_ok demo_lookups_ok demo_tenant_tuples graph_dir(3) _ demo_group_users(1)]
    by (simp add: demo_sd_def)
  have "''user:alice'' \<in> {''user:'' @ u |u. in_group (memberships demo_sd (set (is_graph graph_state))) 1 UserPrincipal u ''sales''}"
    unfolding members by (rule singletonI)
  then obtain u where u: "''user:alice'' = ''user:'' @ u" "in_group (memberships demo_sd (set (is_graph graph_state))) 1 UserPrincipal u ''sales''"
    by blast
  from u(1) have "u = ''alice''" by simp
  with u(2) have "in_group (memberships demo_sd (set (is_graph graph_state))) 1 UserPrincipal ''alice'' ''sales''" by blast
  moreover have "\<not> starts_with ''user:'' ''group:sales''" by code_simp
  then have direct: "{u \<in> {''group:sales''}. starts_with ''user:'' u} = {}" by blast
  have grp: "''group:'' @ grp \<in> {''group:sales''} \<longleftrightarrow> grp = ''sales''" for grp by simp
  have via_sales: "{''user:'' @ name |name grp. ''group:'' @ grp \<in> {''group:sales''} \<and> grp \<noteq> [] \<and>
       in_group (memberships demo_sd (set (is_graph graph_state))) 1 UserPrincipal name grp} = {''user:alice''}"
    unfolding members [symmetric] grp by blast
  have "ru_user ` set (or_reachable rep) = {''user:alice''}"
    using access_object_exact [OF run sel ok graph_dir(1) demo_uuid_ok demo_lookups_ok graph_dir(2) graph_dir(3) [folded t] utf]
    unfolding t granted direct via_sales by (simp only: Un_empty_left)
  ultimately show ?thesis using granted run by simp
qed

section \<open>Divergences\<close>

text \<open>
  The window subtraction ignores when a handle was issued: after another member's removal tombstoned a group's
  token, a member's handle issued since keeps the token on every read while the report drops it for the window.
\<close>

theorem window_understates_fresh_handle:
  "let rev' = sample_rev_db\<lparr>rd_revocations := [\<lparr>rv_tenant_id = 1, rv_principal = ''user:alice'', rv_token = 7, rv_at = seconds 100\<rparr>]\<rparr>
   in windowed_revoked_tokens (seconds 110) 1 60 rev' = [7] \<and> fst (subtract (seconds 110) 1 [7] (seconds 105) rev' (new_plane 60)) = [7]"
  by code_simp

text \<open>The report on an object reads no revocation: it is the same whatever tombstones and revoked principals there are.\<close>

theorem access_object_ignores_revocations:
  "fst (admin_access_object env h q (st\<lparr>is_server := (is_server st)\<lparr>sv_rev := (sv_rev (is_server st))
      \<lparr>rd_revocations := tombstones, rd_revoked_principal := revoked\<rparr>\<rparr>\<rparr>)) = fst (admin_access_object env h q st)"
proof -
  let ?st = "st\<lparr>is_server := (is_server st)\<lparr>sv_rev := (sv_rev (is_server st))\<lparr>rd_revocations := tombstones, rd_revoked_principal := revoked\<rparr>\<rparr>\<rparr>"
  have guard: "access_guard env h t ?st = access_guard env h t st" for t by (simp add: access_guard_def tenant_known_def)
  show ?thesis unfolding admin_access_object_def Let_def guard
    by (auto simp: via_gateway_def split: sum.splits option.splits prod.splits)
qed

end
