(* ===== verification/Spec2Isabelle.thy ===== *)
theory Spec2Isabelle
  imports Recall Merged_Record Remember Fold_Properties Webhook_Properties Rebac_Watch Erasure Resolution_Run Consolidation Access_Graph
begin

text \<open>
  Verity, a permission-aware memory for agents: a verification library of its Rust core
  (\<^verbatim>\<open>src/crates\<close>).

  \<^bold>\<open>The program.\<close> Verity stores what organisations know (facts keyed by source and entity, text chunks of
  documents, an action log, distilled knowledge) and serves it to agents under a compiled scope.
  Connectors, webhooks and agents write through the server (\<^verbatim>\<open>verity-server\<close>); the Postgres adapter
  (\<^verbatim>\<open>verity-storage\<close>) keeps the tables; manifests (\<^verbatim>\<open>verity-manifest\<close>) describe third-party payloads;
  the entity resolver folds evidence into canonical entities. Who may see what is decided by integer
  principal tokens on every row, by the principals, class and entity binding of a signed handle, and by
  a revocation plane fed from the admin routes and from the change stream of SpiceDB.

  \<^bold>\<open>Layers and theories.\<close> Each theory opens with a text saying what it holds.

  \<^item> Vocabulary: \<open>Verity_Prelude\<close> (text, casts, ordered containers), \<open>Json_Value\<close>
    (\<^verbatim>\<open>serde_json::Value\<close>), \<open>Core_Types\<close> (\<^verbatim>\<open>verity-core/src/types.rs\<close>), \<open>Database\<close> (the tables).
  \<^item> Storage (\<^verbatim>\<open>verity-storage/src/postgres.rs\<close>, \<^verbatim>\<open>cache.rs\<close>): \<open>Fact_Store\<close> (bi-temporal upsert, reads,
    retirement, ACL correction), \<open>Chunk_Store\<close> and \<open>Chunk_Delivery\<close> (deliveries, reads, sweep),
    \<open>Action_Log\<close>, \<open>Knowledge_Store\<close> (propose, publish, reject, forget), \<open>Fact_Cache\<close>,
    \<open>Rank_Fusion\<close>, \<open>Embedding_Migration\<close>, \<open>Merged_Record\<close>; \<open>Fact_Labels\<close> holds the access label of a
    fact that the write lanes share. \<open>Erasure\<close> is the lineage walk of \<^verbatim>\<open>erasure.rs\<close> with the compliance
    routes of \<^verbatim>\<open>compliance.rs\<close>.
  \<^item> Scope (\<^verbatim>\<open>verity-server/src\<close>): \<open>Scope_Handle\<close> (\<^verbatim>\<open>scope.rs\<close>), \<open>Revocation\<close> (\<^verbatim>\<open>revocation.rs\<close>),
    \<open>Server_Scope\<close> (\<^verbatim>\<open>open_scope\<close>, \<^verbatim>\<open>scope_for\<close> of \<^verbatim>\<open>main.rs\<close>).
  \<^item> Routes (\<^verbatim>\<open>main.rs\<close>): \<open>Remember\<close> (agent writes, ACL correction, retirement), \<open>Recall\<close> (the read
    path with \<^verbatim>\<open>source_freshness.rs\<close>), \<open>Identity_Admin\<close> (registry, groups, deprovisioning), \<open>Access_Graph\<close>
    (the permission reports), \<open>Consolidation\<close> (\<^verbatim>\<open>consolidation.rs\<close>: leases, completion, the merge cascade).
  \<^item> Identity graph: \<open>Rebac_Client\<close> (\<^verbatim>\<open>rebac.rs\<close>), \<open>Rebac_Watch\<close> (\<^verbatim>\<open>rebac_watch.rs\<close>,
    \<^verbatim>\<open>watch_leader.rs\<close>).
  \<^item> Resolver (\<^verbatim>\<open>verity-storage/src/resolve\<close>): \<open>Canon\<close> (\<^verbatim>\<open>canon.rs\<close>), \<open>Tier1_Producers\<close> (\<^verbatim>\<open>producers.rs\<close> and
    the evidence ledger), \<open>Union_Find\<close>, \<open>Entity_Fold\<close>, \<open>Fold_Safety\<close>, \<open>Fold_Properties\<close> (\<^verbatim>\<open>fold.rs\<close>),
    \<open>Resolution_Run\<close> (materialising a fold, the ledger and decision routes).
  \<^item> Manifests: \<open>Manifest_Path\<close>, \<open>Manifest_Predicate\<close>, \<open>Manifest_Runtime\<close>, \<open>Manifest_Properties\<close>, and
    the webhook lane \<open>Webhook_Ingest\<close>, \<open>Webhook_Properties\<close>.

  \<^bold>\<open>How the code is modelled.\<close> A struct is a record whose field names carry a short prefix, an enum a
  datatype, a table the list of its rows, a handler a function from the state to a result and the new
  state. A refusal is a value of a sum type and keeps the state the handler had reached, since each
  statement outside a transaction commits on its own. Clocks, fresh ids and the outcomes of calls whose
  failure the code tolerates are arguments. Machine integers carry their casts and saturations where
  they matter (\<open>u64_as_i64\<close>, \<open>saturating_add\<close>, the token cast of \<open>parse_inline_acl\<close>); \<^verbatim>\<open>f32\<close> and \<^verbatim>\<open>f64\<close>
  are exact rationals rounded to nearest even after each operation.

  \<^bold>\<open>Parameters.\<close> Code that is not in the repository is an argument: HMAC, SHA-256, base64 and serde
  codecs, YAML, chrono, the HNSW and BM25 indexes, the encoder, SpiceDB's gateway. What a theorem needs
  of such code is a named hypothesis (\<open>engine_ok\<close>, \<open>uuid_ok\<close>, \<open>writes_ok\<close>, \<open>lookups_ok\<close>, ...), and its
  witness instantiates the parameter with a concrete function. \<open>lookups_ok\<close> speaks only of lookup streams
  that end without an error: SpiceDB answers a membership cycle with status 200 and an error inside
  the stream, and then the client's answer is that error.

  \<^bold>\<open>Interfaces.\<close> \<open>fact_backend\<close> is what the fact cache relies on, interpreted on the Postgres model;
  \<open>disjoint_sets\<close> is what the fold relies on, interpreted on the parent-pointer map.

  \<^bold>\<open>What is shown.\<close> Storage: the upsert refines a keyed register and reads equal the register behind the
  shared visibility predicate; history reads and ACL corrections; a delivery is exactly its document's
  current view; forgetting cascades; an erasure deletes the subject's lineage and keeps every other row, after which
  an export finds nothing; a cached read equals the store's for every key outside the two windows in
  which the code lets the cache run behind. Scope: handles round-trip and only signed texts verify; what
  a handle compiles to is stated branch by branch; minting clamps. Routes: an observation carries the
  label of the rows it cites, or its writer's; every
  recalled hit is visible, current, distinct and audited; rank fusion returns the best \<open>k\<close>; a merged
  record holds visible facts only; completing an episode derives facts no wider than its sources, widens
  entity-bound scopes by its tags only and publishes under the tenant's opt-in only; leases are
  exclusive. The permission report on a subject counts what its unrevoked tokens may see and never
  overstates; the one on an object lists exactly the users its chunks grant. Identity: the client implements a directory; removing a member and
  deprovisioning reach every older handle; in no registry state do two people share a subject; the watch consumer
  records before it acknowledges, frames lines independently of chunking, and stays fenced after a gap.
  Resolver: canonicals are the components of the surviving, evidence-backed edges; anti-links and drift
  fail closed; the fold is total and order independent. E-mail evidence is exact per population and
  production idempotent; a repeated run changes nothing, and a rejected pair is kept apart. Manifests: only the text last
  approved runs, writes are exactly the values the payload's paths name, access fails closed.

  \<^bold>\<open>Loops and fuel.\<close> No fuel is used. Loops with a measure are total functions. Two loops of the code need
  an argument: \<open>find_root\<close> is a partial function whose totality on every reachable map is a theorem, and
  the predicate tokenizer is a partial function whose value \<open>None\<close> means that it runs forever, with the
  texts on which that happens settled by lemmas.

  \<^bold>\<open>Not modelled.\<close> Process supervision and HTTP plumbing (connector workers, schedulers' sleeps, SSE,
  metrics, the console), text extraction and OCR through third-party crates, AES-GCM envelopes, the
  Qdrant adapter, the ONNX encoder, the LLM extractor and judge that drive consolidation, the command line, the MCP server and
  the benchmarks. Concurrency is modelled where the code comments on it: in \<open>Fact_Cache\<close> the
  fetch and the fill of a miss, and the commit and the invalidation of a write, are separate steps that
  interleave freely; \<open>Rebac_Watch\<close> runs replicas side by side; \<open>Webhook_Properties\<close> splits an activation.
  Elsewhere a handler runs as one step.
\<close>

end
